(* ===== verification/TR_Prelude.thy ===== *)
theory TR_Prelude
  imports Main "HOL-Library.Word"
begin

text \<open>
  Shared vocabulary of the development: machine integers at the widths the Rust sources use,
  the \<open>Result\<close> type, and the few functions of the Rust standard library on strings and
  integers that the modelled code calls (\<open>split_once\<close>, \<open>rsplit_once\<close>, \<open>strip_prefix\<close>,
  \<open>eq_ignore_ascii_case\<close>, \<open>str::parse\<close> for unsigned integers, little-endian conversion).
  A Rust \<open>str\<close> is a UTF-8 byte string; here it is a \<^typ>\<open>string\<close>, whose characters are bytes.
\<close>

unbundle bit_operations_syntax

section \<open>Types\<close>

type_synonym u8 = "8 word"
type_synonym u16 = "16 word"
type_synonym u32 = "32 word"
type_synonym u64 = "64 word"
type_synonym u128 = "128 word"
type_synonym bytes = "8 word list"

named_theorems rust_std \<open>characteristic facts of the modelled standard-library functions\<close>

section \<open>Result\<close>

text \<open>\<open>Result<T, E>\<close> is \<open>E + T\<close>; \<open>rbind\<close> is the \<open>?\<close> operator.\<close>

definition rbind :: "'e + 'a \<Rightarrow> ('a \<Rightarrow> 'e + 'b) \<Rightarrow> 'e + 'b" where
  "rbind r f = (case r of Inl e \<Rightarrow> Inl e | Inr x \<Rightarrow> f x)"

lemma rbind_simps [simp]: "rbind (Inl e) f = Inl e" "rbind (Inr x) f = f x"
  by (simp_all add: rbind_def)

lemma rbind_eq_Inr: "rbind r f = Inr y \<longleftrightarrow> (\<exists>x. r = Inr x \<and> f x = Inr y)"
  by (cases r) auto

lemma rbind_eq_Inl: "rbind r f = Inl e \<longleftrightarrow> r = Inl e \<or> (\<exists>x. r = Inr x \<and> f x = Inl e)"
  by (cases r) auto

section \<open>Little-endian conversion of \<open>u32\<close>\<close>

definition to_le_bytes :: "u32 \<Rightarrow> bytes" where
  "to_le_bytes w = [ucast w, ucast (drop_bit 8 w), ucast (drop_bit 16 w), ucast (drop_bit 24 w)]"

definition from_le_bytes :: "u8 \<Rightarrow> u8 \<Rightarrow> u8 \<Rightarrow> u8 \<Rightarrow> u32" where
  "from_le_bytes a b c d =
     ucast a OR push_bit 8 (ucast b) OR push_bit 16 (ucast c) OR push_bit 24 (ucast d)"

lemma length_to_le_bytes [simp]: "length (to_le_bytes w) = 4"
  by (simp add: to_le_bytes_def)

lemma from_to_le_bytes [simp]:
  "from_le_bytes (ucast w) (ucast (drop_bit 8 w)) (ucast (drop_bit 16 w)) (ucast (drop_bit 24 w)) = w"
  unfolding from_le_bytes_def
  by (rule bit_word_eqI)
     (auto simp: bit_simps not_less le_diff_conv2 less_diff_conv2 le_add_diff_inverse,
      metis le_add_diff_inverse not_less)

lemma u8_bit_high [simp]: "8 \<le> n \<Longrightarrow> \<not> bit (a :: u8) n"
  using bit_imp_le_length [of a n] by auto

lemma to_from_le_bytes [simp]: "to_le_bytes (from_le_bytes a b c d) = [a, b, c, d]"
  unfolding to_le_bytes_def from_le_bytes_def
  by (auto intro!: bit_word_eqI simp: bit_simps)

section \<open>Strings\<close>

fun split_once :: "char \<Rightarrow> string \<Rightarrow> (string \<times> string) option" where
  "split_once c [] = None"
| "split_once c (x # xs) =
     (if x = c then Some ([], xs) else map_option (\<lambda>(a, b). (x # a, b)) (split_once c xs))"

definition rsplit_once :: "char \<Rightarrow> string \<Rightarrow> (string \<times> string) option" where
  "rsplit_once c s = map_option (\<lambda>(a, b). (rev b, rev a)) (split_once c (rev s))"

definition strip_prefix :: "string \<Rightarrow> string \<Rightarrow> string option" where
  "strip_prefix p s = (if take (length p) s = p then Some (drop (length p) s) else None)"

definition strip_suffix :: "string \<Rightarrow> string \<Rightarrow> string option" where
  "strip_suffix p s =
     (if length p \<le> length s \<and> drop (length s - length p) s = p
      then Some (take (length s - length p) s) else None)"

definition starts_with :: "string \<Rightarrow> string \<Rightarrow> bool" where
  "starts_with s p \<longleftrightarrow> take (length p) s = p"

definition ends_with :: "string \<Rightarrow> string \<Rightarrow> bool" where
  "ends_with s p \<longleftrightarrow> length p \<le> length s \<and> drop (length s - length p) s = p"

text \<open>\<open>str::contains\<close> with a string pattern.\<close>

fun str_contains :: "string \<Rightarrow> string \<Rightarrow> bool" where
  "str_contains p [] \<longleftrightarrow> p = []"
| "str_contains p (x # xs) \<longleftrightarrow> starts_with (x # xs) p \<or> str_contains p xs"

definition ascii_lower :: "char \<Rightarrow> char" where
  "ascii_lower c =
     (if 65 \<le> (of_char c :: nat) \<and> (of_char c :: nat) \<le> 90
      then char_of ((of_char c :: nat) + 32) else c)"

definition eq_ignore_ascii_case :: "string \<Rightarrow> string \<Rightarrow> bool" where
  "eq_ignore_ascii_case a b \<longleftrightarrow> map ascii_lower a = map ascii_lower b"

text \<open>
  Whitespace as \<open>char::is_whitespace\<close> has it, on UTF-8 bytes: the length in bytes of the
  whitespace character a string starts with, 0 when it starts with another character.  The lead
  bytes of these characters are never continuation bytes, so a scan by bytes finds exactly them.
\<close>

definition ws_at :: "string \<Rightarrow> nat" where
  "ws_at s =
     (let b = (\<lambda>i. if i < length s then of_char (s ! i) else (0 :: nat)) in
      if b 0 = 32 \<or> (9 \<le> b 0 \<and> b 0 \<le> 13) then 1
      else if b 0 = 0xC2 \<and> (b 1 = 0x85 \<or> b 1 = 0xA0) then 2
      else if (b 0 = 0xE1 \<and> b 1 = 0x9A \<and> b 2 = 0x80) \<or>
              (b 0 = 0xE2 \<and> b 1 = 0x80 \<and>
                 ((0x80 \<le> b 2 \<and> b 2 \<le> 0x8A) \<or> b 2 = 0xA8 \<or> b 2 = 0xA9 \<or> b 2 = 0xAF)) \<or>
              (b 0 = 0xE2 \<and> b 1 = 0x81 \<and> b 2 = 0x9F) \<or>
              (b 0 = 0xE3 \<and> b 1 = 0x80 \<and> b 2 = 0x80) then 3
      else 0)"

fun contains_whitespace :: "string \<Rightarrow> bool" where
  "contains_whitespace [] \<longleftrightarrow> False"
| "contains_whitespace (c # cs) \<longleftrightarrow> ws_at (c # cs) \<noteq> 0 \<or> contains_whitespace cs"

text \<open>\<open>str::split_whitespace\<close>; the first argument is the word read so far, reversed.\<close>

fun split_ws :: "string \<Rightarrow> string \<Rightarrow> string list" where
  "split_ws word [] = (if word = [] then [] else [rev word])"
| "split_ws word (c # cs) =
     (if ws_at (c # cs) = 0 then split_ws (c # word) cs
      else (if word = [] then [] else [rev word]) @ split_ws [] (drop (ws_at (c # cs) - 1) cs))"

definition split_whitespace :: "string \<Rightarrow> string list" where
  "split_whitespace s = split_ws [] s"

lemma split_ws_word:
  "\<not> contains_whitespace w \<Longrightarrow> split_ws acc w = (if rev acc @ w = [] then [] else [rev acc @ w])"
  by (induction w arbitrary: acc) auto

text \<open>\<open>str::trim\<close>.\<close>

function all_whitespace :: "string \<Rightarrow> bool" where
  "all_whitespace s =
     (if s = [] then True else if ws_at s = 0 then False else all_whitespace (drop (ws_at s) s))"
  by pat_completeness auto
termination by (relation "measure length") auto

declare all_whitespace.simps [simp del]

fun trim_end :: "string \<Rightarrow> string" where
  "trim_end [] = []"
| "trim_end (c # cs) = (if all_whitespace (c # cs) then [] else c # trim_end cs)"

function trim_start :: "string \<Rightarrow> string" where
  "trim_start s = (if s = [] \<or> ws_at s = 0 then s else trim_start (drop (ws_at s) s))"
  by pat_completeness auto
termination by (relation "measure length") auto

declare trim_start.simps [simp del]

definition trim :: "string \<Rightarrow> string" where
  "trim s = trim_end (trim_start s)"

text \<open>\<open>str::lines\<close>: lines end in \<open>\n\<close> or \<open>\r\n\<close>; a last line without terminator counts unless empty.\<close>

definition strip_cr :: "string \<Rightarrow> string" where
  "strip_cr l = (case strip_suffix [CHR 0x0D] l of Some r \<Rightarrow> r | None \<Rightarrow> l)"

fun lines_from :: "string \<Rightarrow> string \<Rightarrow> string list" where
  "lines_from acc [] = (if acc = [] then [] else [acc])"
| "lines_from acc (c # cs) =
     (if c = CHR 0x0A then strip_cr acc # lines_from [] cs else lines_from (acc @ [c]) cs)"

definition str_lines :: "string \<Rightarrow> string list" where
  "str_lines s = lines_from [] s"

text \<open>
  \<open>String::from_utf8_lossy\<close>: well-formed UTF-8 is kept, each maximal ill-formed prefix of a
  sequence is replaced by U+FFFD.  \<open>utf8_head\<close> is the length of the next piece and whether it is
  well formed.
\<close>

definition utf8_head :: "string \<Rightarrow> nat \<times> bool" where
  "utf8_head s =
     (let b = (\<lambda>i. if i < length s then of_char (s ! i) else (0 :: nat));
          cont = (\<lambda>i. 0x80 \<le> b i \<and> b i \<le> 0xBF);
          within = (\<lambda>i lo hi. lo \<le> b i \<and> b i \<le> hi)
      in if b 0 < 0x80 then (1, True)
         else if within 0 0xC2 0xDF then (if cont 1 then (2, True) else (1, False))
         else if within 0 0xE0 0xEF then
           (if \<not> (if b 0 = 0xE0 then within 1 0xA0 0xBF
                    else if b 0 = 0xED then within 1 0x80 0x9F else cont 1) then (1, False)
            else if cont 2 then (3, True) else (2, False))
         else if within 0 0xF0 0xF4 then
           (if \<not> (if b 0 = 0xF0 then within 1 0x90 0xBF
                    else if b 0 = 0xF4 then within 1 0x80 0x8F else cont 1) then (1, False)
            else if \<not> cont 2 then (2, False) else if cont 3 then (4, True) else (3, False))
         else (1, False))"

lemma utf8_head_pos: "0 < fst (utf8_head s)"
  by (simp add: utf8_head_def Let_def)

definition replacement_char :: string where
  "replacement_char = [CHR 0xEF, CHR 0xBF, CHR 0xBD]"

function utf8_lossy :: "string \<Rightarrow> string" where
  "utf8_lossy s =
     (if s = [] then []
      else (if snd (utf8_head s) then take (fst (utf8_head s)) s else replacement_char) @
           utf8_lossy (drop (fst (utf8_head s)) s))"
  by pat_completeness auto
termination by (relation "measure length") (auto simp: utf8_head_pos)

declare utf8_lossy.simps [simp del]

text \<open>\<open>str::as_bytes\<close> and \<open>String::from_utf8\<close>.\<close>

definition str_bytes :: "string \<Rightarrow> bytes" where
  "str_bytes s = map (\<lambda>c. of_nat (of_char c)) s"

definition from_utf8 :: "bytes \<Rightarrow> string option" where
  "from_utf8 b = (let s = map (\<lambda>w. char_of (unat w)) b in if utf8_lossy s = s then Some s else None)"

lemma utf8_lossy_ascii: "\<forall>c \<in> set s. of_char c < (0x80 :: nat) \<Longrightarrow> utf8_lossy s = s"
proof (induction s)
  case (Cons c cs)
  have "utf8_head (c # cs) = (1, True)" using Cons.prems by (simp add: utf8_head_def)
  then show ?case using Cons by (subst utf8_lossy.simps) simp
qed (simp add: utf8_lossy.simps)

lemma split_once_None [rust_std]: "split_once c s = None \<longleftrightarrow> c \<notin> set s"
  by (induction s) auto

lemma split_once_Some [rust_std]:
  "split_once c s = Some (a, b) \<longleftrightarrow> s = a @ c # b \<and> c \<notin> set a"
proof (induction s arbitrary: a)
  case Nil
  then show ?case by simp
next
  case (Cons x xs)
  then show ?case by (cases a) auto
qed

lemma split_once_append [simp]: "c \<notin> set a \<Longrightarrow> split_once c (a @ c # b) = Some (a, b)"
  by (simp add: split_once_Some)

lemma rsplit_once_None [rust_std]: "rsplit_once c s = None \<longleftrightarrow> c \<notin> set s"
  by (simp add: rsplit_once_def split_once_None)

lemma rsplit_once_Some [rust_std]:
  "rsplit_once c s = Some (a, b) \<longleftrightarrow> s = a @ c # b \<and> c \<notin> set b"
proof -
  have "rsplit_once c s = Some (a, b) \<longleftrightarrow> split_once c (rev s) = Some (rev b, rev a)"
    by (auto simp: rsplit_once_def)
  also have "\<dots> \<longleftrightarrow> rev s = rev (a @ c # b) \<and> c \<notin> set b"
    by (simp add: split_once_Some)
  finally show ?thesis by (simp only: rev_is_rev_conv)
qed

lemma rsplit_once_append [simp]: "c \<notin> set b \<Longrightarrow> rsplit_once c (a @ c # b) = Some (a, b)"
  by (simp add: rsplit_once_Some)

lemma strip_prefix_Some [rust_std]: "strip_prefix p s = Some r \<longleftrightarrow> s = p @ r"
  by (auto simp: strip_prefix_def) (metis append_take_drop_id)

lemma strip_prefix_None [rust_std]: "strip_prefix p s = None \<longleftrightarrow> (\<forall>r. s \<noteq> p @ r)"
  by (metis not_None_eq strip_prefix_Some)

lemma strip_suffix_Some [rust_std]: "strip_suffix p s = Some r \<longleftrightarrow> s = r @ p"
  by (auto simp: strip_suffix_def) (metis append_take_drop_id)

lemma strip_suffix_None [rust_std]: "strip_suffix p s = None \<longleftrightarrow> (\<forall>r. s \<noteq> r @ p)"
  by (metis not_None_eq strip_suffix_Some)

lemma starts_with_iff [rust_std]: "starts_with s p \<longleftrightarrow> (\<exists>r. s = p @ r)"
  by (auto simp: starts_with_def) (metis append_take_drop_id)

lemma ends_with_iff [rust_std]: "ends_with s p \<longleftrightarrow> (\<exists>r. s = r @ p)"
  by (auto simp: ends_with_def) (metis append_take_drop_id)

lemma eq_ignore_ascii_case_refl [simp]: "eq_ignore_ascii_case a a"
  by (simp add: eq_ignore_ascii_case_def)

lemma eq_ignore_ascii_case_sym: "eq_ignore_ascii_case a b \<longleftrightarrow> eq_ignore_ascii_case b a"
  by (auto simp: eq_ignore_ascii_case_def)

lemma eq_ignore_ascii_case_length: "eq_ignore_ascii_case a b \<Longrightarrow> length a = length b"
  by (auto simp: eq_ignore_ascii_case_def dest: map_eq_imp_length_eq)

section \<open>Keyed stores\<close>

text \<open>
  The contract of the \<open>HashMap\<close>s the program keeps behind locks (message handlers, container
  configurations, container CAs): a store keeps an invariant, and a lookup after a \<open>put\<close> sees
  the last value put under that key and nothing else.
\<close>

locale keyed_store =
  fixes lookup :: "'s \<Rightarrow> 'k \<Rightarrow> 'v option"
    and put :: "'k \<Rightarrow> 'v \<Rightarrow> 's \<Rightarrow> 's"
    and inv :: "'s \<Rightarrow> bool"
  assumes lookup_put: "inv s \<Longrightarrow> lookup (put k v s) k' = (if k' = k then Some v else lookup s k')"
    and inv_put: "inv s \<Longrightarrow> inv (put k v s)"
begin

lemma inv_puts: "inv s \<Longrightarrow> inv (fold (\<lambda>(k, v). put k v) kvs s)"
  by (induction kvs arbitrary: s) (auto simp: inv_put)

lemma lookup_puts:
  "inv s \<Longrightarrow> lookup (fold (\<lambda>(k, v). put k v) kvs s) k =
     (case map_of (rev kvs) k of None \<Rightarrow> lookup s k | Some v \<Rightarrow> Some v)"
  by (induction kvs arbitrary: s)
     (auto simp: inv_put lookup_put map_add_def split: option.splits)

lemma put_put_lookup: "inv s \<Longrightarrow> lookup (put k w (put k v s)) k' = lookup (put k w s) k'"
  by (simp add: lookup_put inv_put)

end

end
