(* ===== verification/RustNet.thy ===== *)
theory RustNet
  imports TR_Prelude
begin

text \<open>
  Decimal integers and IP addresses as the Rust standard library reads and prints them:
  \<open>str::parse\<close> for unsigned integers, \<open>IpAddr::from_str\<close> (octets without leading zeros, IPv6
  groups with at most one \<open>::\<close> and an optional trailing IPv4 part) and \<open>Display for IpAddr\<close>.
  These are the functions the proxy's matcher, validators and audit entries call.
\<close>

section \<open>Decimal integers\<close>

definition digit_val :: "char \<Rightarrow> nat option" where
  "digit_val c = (let n = (of_char c :: nat) in if 48 \<le> n \<and> n \<le> 57 then Some (n - 48) else None)"

fun parse_digits :: "nat \<Rightarrow> string \<Rightarrow> nat option" where
  "parse_digits acc [] = Some acc"
| "parse_digits acc (c # cs) =
     (case digit_val c of None \<Rightarrow> None | Some d \<Rightarrow> parse_digits (10 * acc + d) cs)"

text \<open>One leading \<open>+\<close> is accepted; the empty digit string and values above \<open>hi\<close> are errors.\<close>

definition parse_uint :: "nat \<Rightarrow> string \<Rightarrow> nat option" where
  "parse_uint hi s =
     (let ds = (case s of c # cs \<Rightarrow> if c = CHR ''+'' then cs else s | [] \<Rightarrow> s)
      in if ds = [] then None
         else case parse_digits 0 ds of None \<Rightarrow> None | Some n \<Rightarrow> if n \<le> hi then Some n else None)"

definition parse_u8 :: "string \<Rightarrow> nat option" where "parse_u8 = parse_uint 255"
definition parse_u16 :: "string \<Rightarrow> nat option" where "parse_u16 = parse_uint 65535"

definition digit_char :: "nat \<Rightarrow> char" where
  "digit_char d = char_of (48 + d)"

fun dec_string :: "nat \<Rightarrow> string" where
  "dec_string n = (if n < 10 then [digit_char n] else dec_string (n div 10) @ [digit_char (n mod 10)])"

declare dec_string.simps [simp del]

lemma digit_val_char [simp]: "d < 10 \<Longrightarrow> digit_val (digit_char d) = Some d"
  by (simp add: digit_val_def digit_char_def Let_def)

lemma parse_digits_append:
  "parse_digits acc (xs @ ys) =
     (case parse_digits acc xs of None \<Rightarrow> None | Some n \<Rightarrow> parse_digits n ys)"
  by (induction acc xs rule: parse_digits.induct) (auto split: option.splits)

lemma parse_digits_dec: "parse_digits 0 (dec_string n) = Some n"
proof (induction n rule: dec_string.induct)
  case (1 n)
  then show ?case
    by (subst dec_string.simps) (simp add: parse_digits_append)
qed

lemma dec_string_nonempty [simp]: "dec_string n \<noteq> []"
  by (subst dec_string.simps) simp

lemma dec_string_digits: "c \<in> set (dec_string n) \<Longrightarrow> \<exists>d<10. c = digit_char d"
proof (induction n rule: dec_string.induct)
  case (1 n)
  show ?case
  proof (cases "n < 10")
    case True
    with "1.prems" show ?thesis by (auto simp: dec_string.simps [of n])
  next
    case False
    with "1.prems" have "c \<in> set (dec_string (n div 10)) \<or> c = digit_char (n mod 10)"
      by (subst (asm) dec_string.simps) auto
    with "1.IH" [OF False] show ?thesis by (auto intro: exI [of _ "n mod 10"])
  qed
qed

lemma digit_char_code: "d < 10 \<Longrightarrow> (of_char (digit_char d) :: nat) = 48 + d"
  by (simp add: digit_char_def)

lemma digit_char_neq:
  "d < 10 \<Longrightarrow> digit_char d \<noteq> CHR ''+''" "d < 10 \<Longrightarrow> digit_char d \<noteq> CHR '':''"
  "d < 10 \<Longrightarrow> digit_char d \<noteq> CHR ''/''"
  by (auto dest: arg_cong [where f = "of_char :: char \<Rightarrow> nat"] simp: digit_char_code)

lemma parse_uint_dec: "n \<le> hi \<Longrightarrow> parse_uint hi (dec_string n) = Some n"
proof -
  assume n: "n \<le> hi"
  obtain c cs where cs: "dec_string n = c # cs" by (cases "dec_string n") auto
  then have "c \<noteq> CHR ''+''" using dec_string_digits [of c n] digit_char_neq(1) by auto
  with cs have "(case dec_string n of c # cs \<Rightarrow> if c = CHR ''+'' then cs else dec_string n
      | [] \<Rightarrow> dec_string n) = dec_string n" by simp
  with n show ?thesis by (simp add: parse_uint_def parse_digits_dec Let_def)
qed

lemma parse_uint_bound: "parse_uint hi s = Some n \<Longrightarrow> n \<le> hi"
  by (auto simp: parse_uint_def Let_def split: if_splits option.splits list.splits)

section \<open>IP addresses\<close>

datatype ip_addr = V4 u32 | V6 u128

text \<open>\<open>char::to_digit(radix)\<close> for radix 10 and 16.\<close>

definition to_digit :: "nat \<Rightarrow> char \<Rightarrow> nat option" where
  "to_digit radix c =
     (let n = (of_char c :: nat);
          d = (if 48 \<le> n \<and> n \<le> 57 then Some (n - 48)
               else if 97 \<le> n \<and> n \<le> 122 then Some (n - 87)
               else if 65 \<le> n \<and> n \<le> 90 then Some (n - 55) else None)
      in case d of None \<Rightarrow> None | Some v \<Rightarrow> if v < radix then Some v else None)"

fun read_digits :: "nat \<Rightarrow> nat \<Rightarrow> nat \<Rightarrow> nat \<Rightarrow> string \<Rightarrow> (nat \<times> nat \<times> string) option" where
  "read_digits radix max_digits cnt acc [] = Some (acc, cnt, [])"
| "read_digits radix max_digits cnt acc (c # cs) =
     (case to_digit radix c of
        None \<Rightarrow> Some (acc, cnt, c # cs)
      | Some d \<Rightarrow> if cnt + 1 > max_digits then None
                   else read_digits radix max_digits (cnt + 1) (acc * radix + d) cs)"

definition read_number :: "nat \<Rightarrow> nat \<Rightarrow> bool \<Rightarrow> nat \<Rightarrow> string \<Rightarrow> (nat \<times> string) option" where
  "read_number radix max_digits zero_prefix hi s =
     (case read_digits radix max_digits 0 0 s of
        None \<Rightarrow> None
      | Some (v, cnt, rest) \<Rightarrow>
          if cnt = 0 then None
          else if \<not> zero_prefix \<and> take 1 s = ''0'' \<and> cnt > 1 then None
          else if v > hi then None else Some (v, rest))"

definition read_separator ::
  "char \<Rightarrow> nat \<Rightarrow> (string \<Rightarrow> ('a \<times> string) option) \<Rightarrow> string \<Rightarrow> ('a \<times> string) option" where
  "read_separator sep i p s =
     (if i = 0 then p s
      else case s of [] \<Rightarrow> None | c # cs \<Rightarrow> if c = sep then p cs else None)"

fun read_octets :: "nat \<Rightarrow> nat \<Rightarrow> string \<Rightarrow> (nat list \<times> string) option" where
  "read_octets 0 i s = Some ([], s)"
| "read_octets (Suc n) i s =
     (case read_separator (CHR ''.'') i (read_number 10 3 False 255) s of
        None \<Rightarrow> None
      | Some (v, rest) \<Rightarrow> map_option (\<lambda>(vs, r). (v # vs, r)) (read_octets n (Suc i) rest))"

definition read_ipv4 :: "string \<Rightarrow> (nat list \<times> string) option" where
  "read_ipv4 s = read_octets 4 0 s"

function read_groups :: "nat \<Rightarrow> nat \<Rightarrow> string \<Rightarrow> nat list \<times> bool \<times> string" where
  "read_groups limit i s =
     (if limit \<le> i then ([], False, s)
      else case (if i < limit - 1 then read_separator (CHR '':'') i read_ipv4 s else None) of
        Some (os, rest) \<Rightarrow> ([256 * os ! 0 + os ! 1, 256 * os ! 2 + os ! 3], True, rest)
      | None \<Rightarrow>
          (case read_separator (CHR '':'') i (read_number 16 4 True 65535) s of
             None \<Rightarrow> ([], False, s)
           | Some (g, rest) \<Rightarrow>
               (case read_groups limit (Suc i) rest of (gs, v4, r) \<Rightarrow> (g # gs, v4, r))))"
  by pat_completeness auto
termination
  by (relation "measure (\<lambda>(limit, i, s). limit - i)") auto

declare read_groups.simps [simp del]

definition read_ipv6 :: "string \<Rightarrow> (nat list \<times> string) option" where
  "read_ipv6 s =
     (case read_groups 8 0 s of (front, v4, r) \<Rightarrow>
        if length front = 8 then Some (front, r)
        else if v4 then None
        else if take 2 r \<noteq> ''::'' then None
        else (case read_groups (8 - (length front + 1)) 0 (drop 2 r) of (back, _, r') \<Rightarrow>
                Some (front @ replicate (8 - length front - length back) 0 @ back, r')))"

definition be_word :: "'w::len word \<Rightarrow> nat list \<Rightarrow> 'w word" where
  "be_word base ds = foldl (\<lambda>acc d. acc * base + of_nat d) 0 ds"

definition parse_ip :: "string \<Rightarrow> ip_addr option" where
  "parse_ip s =
     (case read_ipv4 s of
        Some (os, rest) \<Rightarrow> if rest = [] then Some (V4 (be_word 256 os)) else None
      | None \<Rightarrow>
          (case read_ipv6 s of
             Some (gs, rest) \<Rightarrow> if rest = [] then Some (V6 (be_word 65536 gs)) else None
           | None \<Rightarrow> None))"

section \<open>Printing\<close>

fun hex_string :: "nat \<Rightarrow> string" where
  "hex_string n =
     (let c = (\<lambda>d. if d < 10 then digit_char d else char_of (87 + d))
      in if n < 16 then [c n] else hex_string (n div 16) @ [c (n mod 16)])"

declare hex_string.simps [simp del]

fun join_with :: "string \<Rightarrow> string list \<Rightarrow> string" where
  "join_with sep [] = []"
| "join_with sep [x] = x"
| "join_with sep (x # xs) = x @ sep @ join_with sep xs"

definition v4_string :: "u32 \<Rightarrow> string" where
  "v4_string w = join_with ''.''
     (map (\<lambda>k. dec_string (unat (drop_bit k w AND 0xFF))) [24, 16, 8, 0])"

definition v6_segments :: "u128 \<Rightarrow> nat list" where
  "v6_segments w = map (\<lambda>k. unat (drop_bit k w AND 0xFFFF)) [112, 96, 80, 64, 48, 32, 16, 0]"

text \<open>The first longest run of zero segments: (start, length).\<close>

fun zero_run :: "nat \<Rightarrow> nat \<times> nat \<Rightarrow> nat \<times> nat \<Rightarrow> nat list \<Rightarrow> nat \<times> nat" where
  "zero_run i cur best [] = best"
| "zero_run i cur best (s # ss) =
     (if s = 0 then
        (let cur' = (if snd cur = 0 then (i, 1) else (fst cur, snd cur + 1))
         in zero_run (i + 1) cur' (if snd cur' > snd best then cur' else best) ss)
      else zero_run (i + 1) (0, 0) best ss)"

definition v6_string :: "u128 \<Rightarrow> string" where
  "v6_string w =
     (let ss = v6_segments w; hex = (\<lambda>l. join_with '':'' (map hex_string l)) in
      if take 6 ss = [0, 0, 0, 0, 0, 0xFFFF]
      then ''::ffff:'' @ v4_string (ucast w)
      else case zero_run 0 (0, 0) (0, 0) ss of (start, n) \<Rightarrow>
        if n > 1 then hex (take start ss) @ ''::'' @ hex (drop (start + n) ss) else hex ss)"

fun ip_string :: "ip_addr \<Rightarrow> string" where
  "ip_string (V4 w) = v4_string w"
| "ip_string (V6 w) = v6_string w"

end
