(* ===== verification/ProxyModel.thy ===== *)
theory ProxyModel
  imports RustNet
begin

text \<open>
  \<^verbatim>\<open>rust/plugins/agentsandbox/proxy/src/model.rs\<close> and \<^verbatim>\<open>block_response.rs\<close>, \<^verbatim>\<open>error.rs\<close>: the filter policy
  (default policy, rule sets with a host condition, target rules and binary rules), the decision,
  the audit entry, and the map from a blocking reason to the HTTP status of the block response.
\<close>

section \<open>Policy data\<close>

datatype policy = PolicyAllow | PolicyDeny | PolicyAlert

datatype action = Allow | Deny

datatype reason =
    WhitelistMatch | BlacklistMatch | DefaultPolicy | ConfigNotFound | GroupIdNotFound
  | CaError | CertError | LogWriteError | TargetTlsError | ConnectionRefused | ConnectionTimeout
  | BinaryNotFound | InferenceRoute | DnsResolveError

datatype rule_action = RuleDeny | RuleAlert | RuleAllow

datatype host_type = HostIp | HostName

record host_rule =
  host_type_of :: host_type
  host_addr :: "string option"
  host_context :: "string option"
  host_prio :: u32

record target_rule =
  target_method :: string
  target_path :: string
  target_action :: rule_action

record binary_rule =
  binary_rule_path :: string
  binary_action :: rule_action

record rule_set =
  rs_name :: string
  rs_rule_id :: "string option"
  rs_host :: host_rule
  rs_targetrules :: "target_rule list"
  rs_binaryrules :: "binary_rule list"
  rs_port :: "u16 option"

record filter_config =
  default_policy :: policy
  rule_list :: "rule_set list"

record decision =
  d_action :: action
  d_reason :: reason
  d_alert :: bool
  d_rule_id :: "string option"

definition has_binary_condition :: "filter_config \<Rightarrow> bool" where
  "has_binary_condition fc \<longleftrightarrow> (\<exists>rs \<in> set (rule_list fc). rs_binaryrules rs \<noteq> [])"

definition has_ip_condition :: "filter_config \<Rightarrow> bool" where
  "has_ip_condition fc \<longleftrightarrow> (\<exists>rs \<in> set (rule_list fc). host_type_of (rs_host rs) = HostIp)"

section \<open>Audit entries\<close>

datatype audit_entry_type = AuditEntry | AlertEntry

fun entry_type_to_u8 :: "audit_entry_type \<Rightarrow> u8" where
  "entry_type_to_u8 AuditEntry = 0"
| "entry_type_to_u8 AlertEntry = 1"

definition entry_type_try_from :: "u8 \<Rightarrow> string + audit_entry_type" where
  "entry_type_try_from v =
     (if v = 0 then Inr AuditEntry else if v = 1 then Inr AlertEntry
      else Inl ''audit entry type out of range (0/1)'')"

record audit_log_entry =
  ae_timestamp :: u64
  ae_container_id :: string
  ae_scenario :: string
  ae_domain :: string
  ae_url_path :: string
  ae_method :: string
  ae_status_code :: u16
  ae_action :: action
  ae_reason :: reason
  ae_source_ip :: "string option"
  ae_target_ip :: "string option"
  ae_entry_type :: audit_entry_type
  ae_rule_id :: "string option"

definition SCENARIO_KATA :: string where "SCENARIO_KATA = ''kata''"
definition SCENARIO_LIB :: string where "SCENARIO_LIB = ''lib''"

section \<open>Container API types\<close>

record ca_cert =
  cert_pem :: bytes
  key_pem :: bytes

record container_endpoint =
  ep_ip :: ip_addr
  ep_port :: u16

record upstream_endpoint =
  up_host :: string
  up_port :: u16

datatype protocol = Tcp

record resolver_output =
  ro_container_id :: string
  ro_binary_path :: string

record inference_route =
  route_host :: string
  route_url :: string

record proxy_config =
  forwarding :: container_endpoint
  inference_routes :: "inference_route list"
  router_config_dir :: "string option"

section \<open>Errors (\<open>error.rs\<close>)\<close>

datatype config_error = FormatError | NotFoundError
datatype bind_error = PortInUse | InvalidPort
datatype ca_error = CaInvalid

section \<open>Block responses\<close>

definition is_policy_rejection :: "reason \<Rightarrow> bool" where
  "is_policy_rejection r \<longleftrightarrow>
     r \<in> {WhitelistMatch, BlacklistMatch, DefaultPolicy, BinaryNotFound, InferenceRoute}"

definition is_target_failure :: "reason \<Rightarrow> bool" where
  "is_target_failure r \<longleftrightarrow>
     r \<in> {TargetTlsError, ConnectionRefused, ConnectionTimeout} \<or> r = DnsResolveError"

definition block_status :: "reason \<Rightarrow> nat" where
  "block_status r = (if is_policy_rejection r then 403 else if is_target_failure r then 502 else 503)"

definition block_body :: "nat \<Rightarrow> string" where
  "block_body status =
     (if status = 403 then ''forbidden by policy''
      else if status = 502 then ''upstream target unavailable'' else ''service unavailable'')"

record block_resp =
  br_status :: nat
  br_body :: string
  br_connection :: string

definition block_response :: "reason \<Rightarrow> block_resp" where
  "block_response r =
     \<lparr>br_status = block_status r, br_body = block_body (block_status r), br_connection = ''close''\<rparr>"

lemma block_status_range: "block_status r \<in> {403, 502, 503}"
  by (simp add: block_status_def)

lemma block_status_cases [simp]:
  "block_status WhitelistMatch = 403" "block_status BlacklistMatch = 403"
  "block_status DefaultPolicy = 403" "block_status BinaryNotFound = 403"
  "block_status InferenceRoute = 403" "block_status TargetTlsError = 502"
  "block_status ConnectionRefused = 502" "block_status ConnectionTimeout = 502"
  "block_status DnsResolveError = 502" "block_status ConfigNotFound = 503"
  "block_status GroupIdNotFound = 503" "block_status LogWriteError = 503"
  "block_status CaError = 503" "block_status CertError = 503"
  by (simp_all add: block_status_def is_policy_rejection_def is_target_failure_def)

lemma entry_type_roundtrip:
  "entry_type_try_from (entry_type_to_u8 t) = Inr t"
  "entry_type_try_from v = Inr t \<longleftrightarrow> entry_type_to_u8 t = v"
  by (cases t; auto simp: entry_type_try_from_def)+

end
