(* ===== verification/Forward.thy ===== *)
theory Forward
  imports ProxyModel
begin

text \<open>
  \<^verbatim>\<open>rust/plugins/agentsandbox/proxy/src/forward/mod.rs\<close>: outbound connections (direct, and through an
  upstream proxy by a CONNECT handshake) and the byte relay of tunnels.

  A TCP stream is the list of what reads on it will see; the network is the parameter
  \<open>network\<close>: what dialling, writing and the TLS library answer.  All deadlines of one connection
  are one budget in the source; here a deadline is an event of the stream.
\<close>

section \<open>Errors\<close>

datatype target_connect_error = TargetTls | Refused | Timeout

fun target_connect_reason :: "target_connect_error \<Rightarrow> reason" where
  "target_connect_reason TargetTls = TargetTlsError"
| "target_connect_reason Refused = ConnectionRefused"
| "target_connect_reason Timeout = ConnectionTimeout"

datatype io_kind = KConnectionRefused | KTimedOut | KWouldBlock | KOther

fun map_tcp_connect_error :: "io_kind \<Rightarrow> target_connect_error" where
  "map_tcp_connect_error KConnectionRefused = Refused"
| "map_tcp_connect_error KTimedOut = Timeout"
| "map_tcp_connect_error KWouldBlock = Timeout"
| "map_tcp_connect_error KOther = TargetTls"

section \<open>Streams and the network\<close>

text \<open>One read of one byte: a byte, end of file, an error, or the deadline.  A used-up list is a deadline.\<close>

datatype net_event = NByte char | NEof | NErr | NDeadline

type_synonym stream = "net_event list"

datatype tcp_result = TcpDeadline | TcpFailed io_kind | TcpUp stream
datatype write_result = WriteDeadline | WriteFailed | WriteOk
datatype tls_result = TlsDeadline | TlsFailed | TlsUp stream

record network =
  dial :: "string \<Rightarrow> u16 \<Rightarrow> tcp_result"
  write_all :: "string \<Rightarrow> stream \<Rightarrow> write_result"
  sni_valid :: "string \<Rightarrow> bool"
  tls_connect :: "string \<Rightarrow> string list \<Rightarrow> stream \<Rightarrow> tls_result"

definition tcp_connect :: "network \<Rightarrow> string \<Rightarrow> u16 \<Rightarrow> target_connect_error + stream" where
  "tcp_connect nw host port =
     (case dial nw host port of
        TcpDeadline \<Rightarrow> Inl Timeout
      | TcpFailed k \<Rightarrow> Inl (map_tcp_connect_error k)
      | TcpUp s \<Rightarrow> Inr s)"

definition tls_handshake ::
  "network \<Rightarrow> stream \<Rightarrow> string \<Rightarrow> string list \<Rightarrow> target_connect_error + stream" where
  "tls_handshake nw tcp sni alpn =
     (if \<not> sni_valid nw sni then Inl TargetTls
      else case tls_connect nw sni alpn tcp of
        TlsDeadline \<Rightarrow> Inl Timeout
      | TlsFailed \<Rightarrow> Inl TargetTls
      | TlsUp s \<Rightarrow> Inr s)"

text \<open>\<open>connector_for\<close>: one TLS connector per ALPN list, built on first use.\<close>

definition connector_for ::
  "(string list \<Rightarrow> 'c) \<Rightarrow> string list \<Rightarrow> (string list \<times> 'c) list \<Rightarrow> 'c \<times> (string list \<times> 'c) list"
where
  "connector_for build alpn cache =
     (case map_of cache alpn of
        Some c \<Rightarrow> (c, cache)
      | None \<Rightarrow> (build alpn, cache @ [(alpn, build alpn)]))"

section \<open>The CONNECT handshake\<close>

definition crlf :: string where "crlf = [CHR 0x0D, CHR 0x0A]"

definition connect_request :: "string \<Rightarrow> u16 \<Rightarrow> string" where
  "connect_request host port =
     (let hp = host @ '':'' @ dec_string (unat port)
      in ''CONNECT '' @ hp @ '' HTTP/1.1'' @ crlf @ ''Host: '' @ hp @ crlf @ crlf)"

fun read_head :: "string \<Rightarrow> stream \<Rightarrow> (target_connect_error + string) \<times> stream" where
  "read_head head [] = (Inl Timeout, [])"
| "read_head head (NDeadline # s) = (Inl Timeout, s)"
| "read_head head (NEof # s) = (Inl TargetTls, s)"
| "read_head head (NErr # s) = (Inl TargetTls, s)"
| "read_head head (NByte b # s) =
     (let head = head @ [b] in
      if ends_with head (crlf @ crlf) then (Inr head, s)
      else if length head > 8192 then (Inl TargetTls, s)
      else read_head head s)"

text \<open>\<open>lines().next().unwrap_or_default()\<close>.\<close>

definition first_line :: "string \<Rightarrow> string" where
  "first_line s = (case str_lines s of [] \<Rightarrow> [] | l # _ \<Rightarrow> l)"

definition status_is_2xx :: "string \<Rightarrow> bool" where
  "status_is_2xx head =
     (let status_line = first_line (utf8_lossy head)
      in starts_with status_line ''HTTP/'' \<and>
         (case split_whitespace status_line of
            _ # code # _ \<Rightarrow> starts_with code ''2'' | _ \<Rightarrow> False))"

definition connect_handshake ::
  "network \<Rightarrow> stream \<Rightarrow> string \<Rightarrow> u16 \<Rightarrow> target_connect_error + stream" where
  "connect_handshake nw tcp host port =
     (case write_all nw (connect_request host port) tcp of
        WriteDeadline \<Rightarrow> Inl Timeout
      | WriteFailed \<Rightarrow> Inl TargetTls
      | WriteOk \<Rightarrow>
          (case read_head [] tcp of
             (Inl e, _) \<Rightarrow> Inl e
           | (Inr head, tcp') \<Rightarrow> if status_is_2xx head then Inr tcp' else Inl TargetTls))"

definition connect ::
  "network \<Rightarrow> string \<Rightarrow> u16 \<Rightarrow> string \<Rightarrow> string list \<Rightarrow> target_connect_error + stream" where
  "connect nw host port sni alpn =
     rbind (tcp_connect nw host port) (\<lambda>tcp. tls_handshake nw tcp sni alpn)"

definition connect_via ::
  "network \<Rightarrow> upstream_endpoint \<Rightarrow> string \<Rightarrow> u16 \<Rightarrow> string \<Rightarrow> string list \<Rightarrow>
     target_connect_error + stream" where
  "connect_via nw up host port sni alpn =
     rbind (tcp_connect nw (up_host up) (up_port up)) (\<lambda>tcp.
     rbind (connect_handshake nw tcp host port) (\<lambda>tunnel.
     tls_handshake nw tunnel sni alpn))"

definition connect_upstream_plain ::
  "network \<Rightarrow> upstream_endpoint \<Rightarrow> string \<Rightarrow> u16 \<Rightarrow> target_connect_error + stream" where
  "connect_upstream_plain nw up host port =
     rbind (tcp_connect nw (up_host up) (up_port up)) (\<lambda>tcp. connect_handshake nw tcp host port)"

section \<open>Lemmas on the handshake\<close>

text \<open>A response head: it ends in an empty line and no proper prefix of it does.\<close>

definition complete_head :: "string \<Rightarrow> bool" where
  "complete_head h \<longleftrightarrow> ends_with h (crlf @ crlf) \<and>
     (\<forall>k < length h. \<not> ends_with (take k h) (crlf @ crlf))"

lemma read_head_bytes:
  assumes "ends_with (acc @ w) (crlf @ crlf)" and "w \<noteq> []"
    and "\<And>k. 0 < k \<Longrightarrow> k < length w \<Longrightarrow> \<not> ends_with (acc @ take k w) (crlf @ crlf)"
    and "length (acc @ w) \<le> 8193"
  shows "read_head acc (map NByte w @ s) = (Inr (acc @ w), s)"
  using assms
proof (induction w arbitrary: acc)
  case (Cons b w)
  show ?case
  proof (cases "w = []")
    case False
    have "\<not> ends_with ((acc @ [b]) @ take k w) (crlf @ crlf)" if "k < length w" for k
      using Cons.prems(3) [of "Suc k"] that by simp
    from this [of 0] this have "\<not> ends_with (acc @ [b]) (crlf @ crlf)"
      "read_head (acc @ [b]) (map NByte w @ s) = (Inr ((acc @ [b]) @ w), s)"
      using Cons.IH [of "acc @ [b]"] Cons.prems False by auto
    moreover have "length (acc @ [b]) \<le> 8192"
      using Cons.prems(4) False by (cases w) auto
    ultimately show ?thesis by simp
  qed (use Cons.prems in simp)
qed simp

lemma read_head_Inr:
  assumes "read_head acc evs = (Inr h, s)" and "length acc \<le> 8192"
  shows "\<exists>w. w \<noteq> [] \<and> h = acc @ w \<and> evs = map NByte w @ s \<and> ends_with h (crlf @ crlf) \<and>
    length h \<le> 8193 \<and> (\<forall>k. 0 < k \<and> k < length w \<longrightarrow> \<not> ends_with (acc @ take k w) (crlf @ crlf))"
  using assms
proof (induction acc evs rule: read_head.induct)
  case (5 head b evs)
  show ?case
  proof (cases "ends_with (head @ [b]) (crlf @ crlf)")
    case True
    then show ?thesis using "5.prems" by (intro exI [of _ "[b]"]) auto
  next
    case False
    then have "length (head @ [b]) \<le> 8192" "read_head (head @ [b]) evs = (Inr h, s)"
      using "5.prems" by (auto simp: Let_def split: if_splits)
    from "5.IH" [OF refl False _ this(2,1)] this(1) obtain w where
      w: "w \<noteq> []" "h = (head @ [b]) @ w" "evs = map NByte w @ s" "ends_with h (crlf @ crlf)"
        "length h \<le> 8193"
        "\<forall>k. 0 < k \<and> k < length w \<longrightarrow> \<not> ends_with ((head @ [b]) @ take k w) (crlf @ crlf)"
      by auto
    have "\<not> ends_with (head @ take k (b # w)) (crlf @ crlf)" if "0 < k" "k < length (b # w)" for k
    proof (cases "k = 1")
      case False
      with that w(6) [rule_format, of "k - 1"] show ?thesis by (cases k) auto
    qed (use False in simp)
    with w show ?thesis by (intro exI [of _ "b # w"]) auto
  qed
qed auto

lemma read_head_iff:
  "read_head [] evs = (Inr h, s) \<longleftrightarrow>
     evs = map NByte h @ s \<and> complete_head h \<and> length h \<le> 8193"
proof
  assume "read_head [] evs = (Inr h, s)"
  from read_head_Inr [OF this] have "evs = map NByte h @ s" "ends_with h (crlf @ crlf)"
      "length h \<le> 8193"
      "\<forall>k. 0 < k \<and> k < length h \<longrightarrow> \<not> ends_with (take k h) (crlf @ crlf)"
    by auto
  moreover have "\<not> ends_with (take 0 h) (crlf @ crlf)" by (simp add: ends_with_def crlf_def)
  ultimately show "evs = map NByte h @ s \<and> complete_head h \<and> length h \<le> 8193"
    unfolding complete_head_def by (metis gr0I)
next
  assume a: "evs = map NByte h @ s \<and> complete_head h \<and> length h \<le> 8193"
  then have "h \<noteq> []" by (auto simp: complete_head_def ends_with_def crlf_def)
  with a show "read_head [] evs = (Inr h, s)"
    using read_head_bytes [of "[]" h s] by (auto simp: complete_head_def)
qed

lemma connect_handshake_Inr_iff:
  "connect_handshake nw tcp host port = Inr tunnel \<longleftrightarrow>
     write_all nw (connect_request host port) tcp = WriteOk \<and>
     (\<exists>h. tcp = map NByte h @ tunnel \<and> complete_head h \<and> length h \<le> 8193 \<and> status_is_2xx h)"
proof -
  have "connect_handshake nw tcp host port = Inr tunnel \<longleftrightarrow>
      write_all nw (connect_request host port) tcp = WriteOk \<and>
      (\<exists>h. read_head [] tcp = (Inr h, tunnel) \<and> status_is_2xx h)"
    by (auto simp: connect_handshake_def split: write_result.split prod.splits sum.splits)
  then show ?thesis by (auto simp: read_head_iff)
qed

lemma tcp_connect_Inr_iff: "tcp_connect nw host port = Inr s \<longleftrightarrow> dial nw host port = TcpUp s"
  by (simp add: tcp_connect_def split: tcp_result.split)

lemma tls_handshake_Inr_iff:
  "tls_handshake nw tcp sni alpn = Inr s \<longleftrightarrow> sni_valid nw sni \<and> tls_connect nw sni alpn tcp = TlsUp s"
  by (simp add: tls_handshake_def split: tls_result.split)

lemma target_reason_status: "block_status (target_connect_reason e) = 502"
  by (cases e) simp_all

section \<open>The tunnel relay\<close>

text \<open>
  \<open>relay_with_idle_timeout\<close> runs two pumps, client to target (\<open>Upward\<close>) and back (\<open>Downward\<close>),
  that share one activity clock.  An event is one poll result of one pump: data read and then
  written (completely at a later time, or only in part before the write budget ran out or the
  write failed), end of file or a read error, or the timer armed at the top of the loop.  When a
  pump returns, the write side it fed is shut down (\<open>pump_done\<close>).
\<close>

datatype side = Upward | Downward

record pump_state =
  armed :: nat
  pump_done :: bool
  received :: string
  delivered :: string

record relay =
  activity :: nat
  pumps :: "side \<Rightarrow> pump_state"

datatype write_outcome = Written nat | Stuck nat

datatype relay_event =
    ReadData side string write_outcome
  | ReadEof side
  | ReadFailed side
  | Elapsed side nat

definition relay_start :: "nat \<Rightarrow> nat \<Rightarrow> relay" where
  "relay_start idle now =
     \<lparr>activity = now,
      pumps = (\<lambda>_. \<lparr>armed = now + idle, pump_done = False, received = [], delivered = []\<rparr>)\<rparr>"

definition upd_pump :: "side \<Rightarrow> (pump_state \<Rightarrow> pump_state) \<Rightarrow> relay \<Rightarrow> relay" where
  "upd_pump d f r = r\<lparr>pumps := (pumps r)(d := f (pumps r d))\<rparr>"

fun event_side :: "relay_event \<Rightarrow> side" where
  "event_side (ReadData d _ _) = d"
| "event_side (ReadEof d) = d"
| "event_side (ReadFailed d) = d"
| "event_side (Elapsed d _) = d"

fun pump_event :: "nat \<Rightarrow> relay_event \<Rightarrow> relay \<Rightarrow> relay" where
  "pump_event idle (ReadData d bs (Written now)) r =
     upd_pump d (\<lambda>p. p\<lparr>received := received p @ bs, delivered := delivered p @ bs,
                      armed := now + idle\<rparr>) (r\<lparr>activity := now\<rparr>)"
| "pump_event idle (ReadData d bs (Stuck k)) r =
     upd_pump d (\<lambda>p. p\<lparr>received := received p @ bs, delivered := delivered p @ take k bs,
                      pump_done := True\<rparr>) r"
| "pump_event idle (ReadEof d) r = upd_pump d (\<lambda>p. p\<lparr>pump_done := True\<rparr>) r"
| "pump_event idle (ReadFailed d) r = upd_pump d (\<lambda>p. p\<lparr>pump_done := True\<rparr>) r"
| "pump_event idle (Elapsed d now) r =
     (if now < armed (pumps r d) then r
      else if activity r + idle \<le> now then upd_pump d (\<lambda>p. p\<lparr>pump_done := True\<rparr>) r
      else upd_pump d (\<lambda>p. p\<lparr>armed := activity r + idle\<rparr>) r)"

definition relay_step :: "nat \<Rightarrow> relay \<Rightarrow> relay_event \<Rightarrow> relay" where
  "relay_step idle r ev = (if pump_done (pumps r (event_side ev)) then r else pump_event idle ev r)"

definition relay_with_idle_timeout :: "nat \<Rightarrow> nat \<Rightarrow> relay_event list \<Rightarrow> relay" where
  "relay_with_idle_timeout idle now evs = foldl (relay_step idle) (relay_start idle now) evs"

text \<open>The times of completed transfers in either direction, in order, with the start.\<close>

fun times_ok :: "nat \<Rightarrow> relay_event list \<Rightarrow> bool" where
  "times_ok t [] \<longleftrightarrow> True"
| "times_ok t (ReadData _ _ (Written now) # evs) \<longleftrightarrow> t \<le> now \<and> times_ok now evs"
| "times_ok t (Elapsed _ now # evs) \<longleftrightarrow> t \<le> now \<and> times_ok now evs"
| "times_ok t (_ # evs) \<longleftrightarrow> times_ok t evs"

definition relay_inv :: "nat \<Rightarrow> relay \<Rightarrow> bool" where
  "relay_inv idle r \<longleftrightarrow>
     (\<forall>d. (\<exists>rest. received (pumps r d) = delivered (pumps r d) @ rest \<and>
              (rest \<noteq> [] \<longrightarrow> pump_done (pumps r d))) \<and>
          (\<not> pump_done (pumps r d) \<longrightarrow> armed (pumps r d) \<le> activity r + idle))"

lemma upd_pump_simps [simp]:
  "pumps (upd_pump d f r) e = (if e = d then f (pumps r e) else pumps r e)"
  "activity (upd_pump d f r) = activity r"
  by (auto simp: upd_pump_def)

lemma relay_inv_start: "relay_inv idle (relay_start idle now)"
  by (simp add: relay_inv_def relay_start_def)

lemma take_prefix_rest: "\<exists>rest. bs = take k bs @ rest"
  by (metis append_take_drop_id)

lemma relay_inv_step:
  assumes inv: "relay_inv idle r"
    and mono: "\<And>d bs now. ev = ReadData d bs (Written now) \<Longrightarrow> activity r \<le> now"
  shows "relay_inv idle (relay_step idle r ev)"
proof (cases "pump_done (pumps r (event_side ev))")
  case True
  then show ?thesis using inv by (simp add: relay_step_def)
next
  case False
  from inv have i: "\<exists>rest. received (pumps r d) = delivered (pumps r d) @ rest \<and>
              (rest \<noteq> [] \<longrightarrow> pump_done (pumps r d))"
    "\<not> pump_done (pumps r d) \<Longrightarrow> armed (pumps r d) \<le> activity r + idle" for d
    by (auto simp: relay_inv_def)
  show ?thesis
  proof (cases ev)
    case (ReadData d bs w)
    with False i(1) [of d] have eq: "received (pumps r d) = delivered (pumps r d)" by auto
    show ?thesis
    proof (cases w)
      case (Written now)
      then have "activity r \<le> now" using mono ReadData by blast
      then have "armed (pumps r e) \<le> now + idle" if "\<not> pump_done (pumps r e)" for e
        using i(2) [OF that] by linarith
      then show ?thesis
        using False i(1) eq by (simp add: relay_step_def relay_inv_def ReadData Written)
    next
      case (Stuck k)
      then show ?thesis
        using False i eq take_prefix_rest [of bs k]
        by (simp add: relay_step_def relay_inv_def ReadData)
    qed
  next
    case (Elapsed d now)
    with False i(1) [of d] have "received (pumps r d) = delivered (pumps r d)" by auto
    then show ?thesis using False i by (auto simp: relay_step_def relay_inv_def Elapsed)
  qed (use False i in \<open>auto simp: relay_step_def relay_inv_def\<close>)
qed

lemma relay_activity_step:
  "activity (relay_step idle r ev) =
     (case ev of ReadData d bs (Written now) \<Rightarrow>
        if pump_done (pumps r d) then activity r else now | _ \<Rightarrow> activity r)"
proof (cases ev)
  case (ReadData d bs w)
  then show ?thesis by (cases w) (auto simp: relay_step_def)
qed (auto simp: relay_step_def)

lemma relay_run_inv:
  "relay_inv idle r \<Longrightarrow> times_ok t evs \<Longrightarrow> activity r \<le> t \<Longrightarrow>
     relay_inv idle (foldl (relay_step idle) r evs)"
proof (induction t evs arbitrary: r rule: times_ok.induct [case_names Done Read Time Blocked Eof Failed])
  case (Read t d bs now evs)
  then show ?case
    using relay_inv_step [OF Read.prems(1), of "ReadData d bs (Written now)"]
      relay_activity_step [of idle r "ReadData d bs (Written now)"]
    by (auto split: if_splits)
next
  case (Time t d now evs)
  then show ?case
    using relay_inv_step [OF Time.prems(1), of "Elapsed d now"]
      relay_activity_step [of idle r "Elapsed d now"] by auto
next
  case (Blocked t d bs k evs)
  then show ?case
    using relay_inv_step [OF Blocked.prems(1), of "ReadData d bs (Stuck k)"]
      relay_activity_step [of idle r "ReadData d bs (Stuck k)"] by auto
next
  case (Eof t d evs)
  then show ?case
    using relay_inv_step [OF Eof.prems(1), of "ReadEof d"]
      relay_activity_step [of idle r "ReadEof d"] by auto
next
  case (Failed t d evs)
  then show ?case
    using relay_inv_step [OF Failed.prems(1), of "ReadFailed d"]
      relay_activity_step [of idle r "ReadFailed d"] by auto
qed simp

section \<open>Properties\<close>

text \<open>
  The CONNECT handshake consumes exactly the upstream's response head: it yields a tunnel
  exactly when the request was written and the stream starts with a complete head (the shortest
  prefix ending in an empty line) of at most 8193 bytes whose status line says 2xx, and the
  tunnel is everything after that head, with no byte lost or left over.
\<close>

theorem connect_handshake_zero_leftover:
  "connect_handshake nw tcp host port = Inr tunnel \<longleftrightarrow>
     write_all nw (connect_request host port) tcp = WriteOk \<and>
     (\<exists>h. tcp = map NByte h @ tunnel \<and> complete_head h \<and> length h \<le> 8193 \<and> status_is_2xx h)"
  by (rule connect_handshake_Inr_iff)

text \<open>
  No TLS client hello leaves through an upstream that did not agree: a connection through an
  upstream proxy yields a stream only when dialling the upstream succeeded, the upstream answered
  2xx, the server name was valid, and the TLS handshake succeeded on exactly the bytes after the
  upstream's head; otherwise it fails with one of the three outbound errors, each answered 502.
\<close>

theorem connect_via_needs_upstream_consent:
  "(connect_via nw up host port sni alpn = Inr s \<longleftrightarrow>
      (\<exists>tcp h tunnel. dial nw (up_host up) (up_port up) = TcpUp tcp \<and>
         write_all nw (connect_request host port) tcp = WriteOk \<and>
         tcp = map NByte h @ tunnel \<and> complete_head h \<and> length h \<le> 8193 \<and> status_is_2xx h \<and>
         sni_valid nw sni \<and> tls_connect nw sni alpn tunnel = TlsUp s)) \<and>
   (\<forall>e. block_status (target_connect_reason e) = 502)"
  unfolding connect_via_def rbind_eq_Inr tcp_connect_Inr_iff tls_handshake_Inr_iff
    connect_handshake_Inr_iff target_reason_status
  by blast

text \<open>
  The relay loses nothing and never cuts a live tunnel: at any point of any run with
  non-decreasing times, in each direction what was delivered is a prefix of what was received,
  and all of it unless that direction has ended; the timer of an open direction is armed no later
  than the idle span after the last completed transfer of either direction; and a timer closes a
  direction only when no transfer of either direction completed within the idle span.
\<close>

theorem relay_keeps_live_tunnels:
  fixes idle now :: nat
  assumes "times_ok now evs"
  defines "r \<equiv> relay_with_idle_timeout idle now evs"
  shows "(\<exists>rest. received (pumps r d) = delivered (pumps r d) @ rest \<and>
           (rest \<noteq> [] \<longrightarrow> pump_done (pumps r d))) \<and>
         (\<not> pump_done (pumps r d) \<longrightarrow> armed (pumps r d) \<le> activity r + idle) \<and>
         (\<not> pump_done (pumps r d) \<and> t < activity r + idle \<longrightarrow>
            \<not> pump_done (pumps (relay_step idle r (Elapsed d t)) d))"
proof -
  have "relay_inv idle r"
    unfolding r_def relay_with_idle_timeout_def
    by (rule relay_run_inv [OF relay_inv_start assms(1)]) (simp add: relay_start_def)
  then have "(\<exists>rest. received (pumps r d) = delivered (pumps r d) @ rest \<and>
           (rest \<noteq> [] \<longrightarrow> pump_done (pumps r d))) \<and>
         (\<not> pump_done (pumps r d) \<longrightarrow> armed (pumps r d) \<le> activity r + idle)"
    unfolding relay_inv_def by blast
  moreover have "\<not> pump_done (pumps r d) \<and> t < activity r + idle \<Longrightarrow>
      \<not> pump_done (pumps (relay_step idle r (Elapsed d t)) d)"
    by (simp add: relay_step_def)
  ultimately show ?thesis by blast
qed

text \<open>A client that stays silent while a long response streams: its timer fires and is re-armed.\<close>

definition demo_relay_events :: "relay_event list" where
  "demo_relay_events =
     [ReadData Upward ''GET'' (Written 10), ReadData Downward ''part1'' (Written 65),
      Elapsed Upward 70, ReadData Downward ''part2'' (Written 120)]"

lemma relay_keeps_live_tunnels_witness:
  "\<not> pump_done (pumps (relay_step 60 (relay_with_idle_timeout 60 0 demo_relay_events)
     (Elapsed Upward 125)) Upward) \<and>
   delivered (pumps (relay_with_idle_timeout 60 0 demo_relay_events) Downward) = ''part1part2''"
proof -
  have "times_ok 0 demo_relay_events" by (simp add: demo_relay_events_def)
  moreover have "activity (relay_with_idle_timeout 60 0 demo_relay_events) = 120"
    "\<not> pump_done (pumps (relay_with_idle_timeout 60 0 demo_relay_events) Upward)"
    "delivered (pumps (relay_with_idle_timeout 60 0 demo_relay_events) Downward) = ''part1part2''"
    by code_simp+
  ultimately show ?thesis
    using relay_keeps_live_tunnels [of 0 demo_relay_events 60 Upward 125] by simp
qed

end
