(* ===== verification/Matcher.thy ===== *)
theory Matcher
  imports ProxyModel
begin

text \<open>
  \<^verbatim>\<open>rust/plugins/agentsandbox/proxy/src/filter/matcher/\<close>: the single-star glob with its compile
  cache (\<open>glob.rs\<close>), the four dimension matchers and CIDR matching (\<open>mod.rs\<close>).

  The \<open>globset\<close> crate is a parameter: \<open>build p ci\<close> is what \<open>GlobBuilder\<close> makes of the escaped
  pattern \<open>p\<close>, a matcher or a build failure.  What the code relies on is the hypothesis
  \<open>globset_ok\<close>: a glob made of literal characters, backslash escapes and at most one star builds,
  and matches as its documentation says.
\<close>

section \<open>glob.rs\<close>

type_synonym globset = "string \<Rightarrow> bool \<Rightarrow> (string \<Rightarrow> bool) option"
type_synonym glob_cache = "(string \<times> bool) \<Rightarrow> (string \<Rightarrow> bool) option"

abbreviation star :: char where "star \<equiv> CHR ''*''"

definition glob_special :: "char \<Rightarrow> bool" where
  "glob_special c \<longleftrightarrow> c \<in> set ''?[]{}'' \<or> c = CHR 0x5C"

fun escape :: "string \<Rightarrow> string" where
  "escape [] = []"
| "escape (c # cs) =
     (if c = star then star # escape cs
      else if glob_special c then CHR 0x5C # c # escape cs
      else c # escape cs)"

definition glob_match ::
  "globset \<Rightarrow> glob_cache \<Rightarrow> string \<Rightarrow> string \<Rightarrow> bool \<Rightarrow> bool \<times> glob_cache" where
  "glob_match build cache pattern txt ci =
     (let key = (escape pattern, ci) in
      case cache key of
        Some m \<Rightarrow> (m txt, cache)
      | None \<Rightarrow>
          (case build (fst key) ci of
             None \<Rightarrow> (False, cache)
           | Some m \<Rightarrow> (m txt, cache(key \<mapsto> m))))"

text \<open>What a call returns when the cache holds only what \<open>build\<close> makes (see below).\<close>

definition glob_result :: "globset \<Rightarrow> string \<Rightarrow> string \<Rightarrow> bool \<Rightarrow> bool" where
  "glob_result build pattern txt ci =
     (case build (escape pattern) ci of None \<Rightarrow> False | Some m \<Rightarrow> m txt)"

definition cache_coherent :: "globset \<Rightarrow> glob_cache \<Rightarrow> bool" where
  "cache_coherent build cache \<longleftrightarrow> (\<forall>p ci m. cache (p, ci) = Some m \<longrightarrow> build p ci = Some m)"

lemma cache_coherent_empty: "cache_coherent build (\<lambda>_. None)"
  by (simp add: cache_coherent_def)

lemma glob_match_coherent:
  "cache_coherent build cache \<Longrightarrow>
     fst (glob_match build cache p t ci) = glob_result build p t ci \<and>
     cache_coherent build (snd (glob_match build cache p t ci))"
  by (auto simp: glob_match_def glob_result_def cache_coherent_def Let_def split: option.splits)

section \<open>Request metadata and matchers\<close>

record request_meta =
  rm_domain :: string
  rm_method :: string
  rm_url_path :: string
  rm_binary_path :: "string option"
  rm_target_ips :: "ip_addr list"
  rm_target_port :: u16

definition star_glob_match :: "globset \<Rightarrow> string \<Rightarrow> string \<Rightarrow> bool" where
  "star_glob_match build pattern txt = glob_result build pattern txt False"

definition ends_with_ignore_ascii_case :: "string \<Rightarrow> string \<Rightarrow> bool" where
  "ends_with_ignore_ascii_case hay needle \<longleftrightarrow>
     length hay \<ge> length needle \<and>
     eq_ignore_ascii_case (drop (length hay - length needle) hay) needle"

definition starts_with_ignore_ascii_case :: "string \<Rightarrow> string \<Rightarrow> bool" where
  "starts_with_ignore_ascii_case hay needle \<longleftrightarrow>
     length hay \<ge> length needle \<and> eq_ignore_ascii_case (take (length needle) hay) needle"

definition domain_matches :: "globset \<Rightarrow> request_meta \<Rightarrow> string option \<Rightarrow> bool" where
  "domain_matches build req cond =
     (case cond of
        None \<Rightarrow> True
      | Some pattern \<Rightarrow>
          if pattern = ''*'' then True
          else case strip_prefix ''*'' pattern of
            Some suffix \<Rightarrow> ends_with_ignore_ascii_case (rm_domain req) suffix
          | None \<Rightarrow>
              (case strip_suffix ''*'' pattern of
                 Some prefix \<Rightarrow> starts_with_ignore_ascii_case (rm_domain req) prefix
               | None \<Rightarrow>
                   if star \<in> set pattern then glob_result build pattern (rm_domain req) True
                   else eq_ignore_ascii_case (rm_domain req) pattern))"

definition method_matches :: "globset \<Rightarrow> request_meta \<Rightarrow> string option \<Rightarrow> bool" where
  "method_matches build req cond =
     (case cond of
        None \<Rightarrow> True
      | Some pattern \<Rightarrow>
          if pattern = ''*'' then True
          else if star \<in> set pattern then glob_result build pattern (rm_method req) False
          else pattern = rm_method req)"

definition strip_query :: "string \<Rightarrow> string" where
  "strip_query s = takeWhile (\<lambda>c. c \<noteq> CHR ''?'') s"

definition uri_matches :: "globset \<Rightarrow> request_meta \<Rightarrow> string option \<Rightarrow> bool" where
  "uri_matches build req cond =
     (case cond of
        None \<Rightarrow> True
      | Some pattern \<Rightarrow>
          let path = strip_query (rm_url_path req) in
          if pattern = ''*'' then True
          else case strip_suffix ''*'' pattern of
            Some prefix \<Rightarrow> starts_with path prefix
          | None \<Rightarrow>
              (case strip_prefix ''*'' pattern of
                 Some suffix \<Rightarrow> ends_with path suffix
               | None \<Rightarrow>
                   if star \<in> set pattern then glob_result build pattern path False
                   else path = pattern))"

section \<open>CIDR\<close>

record cidr_network =
  net_addr :: u128
  net_prefix :: nat
  net_is_v6 :: bool

fun ip_bits :: "ip_addr \<Rightarrow> u128 \<times> bool" where
  "ip_bits (V4 w) = (push_bit 96 (ucast w), False)"
| "ip_bits (V6 w) = (w, True)"

definition parse_cidr :: "string \<Rightarrow> cidr_network option" where
  "parse_cidr pattern =
     (let (addr_str, prefix_str) =
        (case split_once (CHR ''/'') pattern of
           Some (a, p) \<Rightarrow> (a, Some p)
         | None \<Rightarrow> (pattern, None))
      in case parse_ip addr_str of
        None \<Rightarrow> None
      | Some ip \<Rightarrow>
          (case ip_bits ip of (addr, is_v6) \<Rightarrow>
             let max_prefix = (if is_v6 then 128 else 32) in
             case prefix_str of
               Some p \<Rightarrow>
                 (case parse_u8 p of
                    None \<Rightarrow> None
                  | Some n \<Rightarrow>
                      if n > max_prefix then None
                      else Some \<lparr>net_addr = addr, net_prefix = n, net_is_v6 = is_v6\<rparr>)
             | None \<Rightarrow> Some \<lparr>net_addr = addr, net_prefix = max_prefix, net_is_v6 = is_v6\<rparr>))"

definition ip_in_network :: "ip_addr \<Rightarrow> cidr_network \<Rightarrow> bool" where
  "ip_in_network ip net =
     (case ip_bits ip of (addr, is_v6) \<Rightarrow>
        if is_v6 \<noteq> net_is_v6 net then False
        else (let mask = (if net_prefix net = 0 then 0 else push_bit (128 - net_prefix net) (- 1 :: u128))
              in (addr AND mask) = (net_addr net AND mask)))"

definition ip_matches :: "request_meta \<Rightarrow> string option \<Rightarrow> bool" where
  "ip_matches req cond =
     (case cond of
        None \<Rightarrow> True
      | Some pattern \<Rightarrow>
          if pattern = ''*'' then True
          else case parse_cidr pattern of
            None \<Rightarrow> False
          | Some net \<Rightarrow> list_ex (\<lambda>ip. ip_in_network ip net) (rm_target_ips req))"

text \<open>The trait \<open>DimensionMatcher\<close>: an undeclared dimension and a bare star match every request.\<close>

locale dimension_matcher =
  fixes matches :: "request_meta \<Rightarrow> string option \<Rightarrow> bool"
  assumes undeclared: "matches req None"
    and bare_star: "matches req (Some ''*'')"
begin

lemma unconstrained: "cond = None \<or> cond = Some ''*'' \<Longrightarrow> matches req cond"
  using undeclared bare_star by auto

lemma mismatch_has_pattern: "\<not> matches req cond \<Longrightarrow> \<exists>p. cond = Some p \<and> p \<noteq> ''*''"
  using unconstrained by (cases cond) auto

end

interpretation domain_dim: dimension_matcher "domain_matches build" for build
  by unfold_locales (simp_all add: domain_matches_def)

interpretation method_dim: dimension_matcher "method_matches build" for build
  by unfold_locales (simp_all add: method_matches_def)

interpretation uri_dim: dimension_matcher "uri_matches build" for build
  by unfold_locales (simp_all add: uri_matches_def Let_def)

interpretation ip_dim: dimension_matcher ip_matches
  by unfold_locales (simp_all add: ip_matches_def)

section \<open>What a single-star pattern means\<close>

text \<open>The specification: a pattern without star is a literal, \<open>a*b\<close> means "a, then anything, then b".\<close>

definition str_eq :: "bool \<Rightarrow> string \<Rightarrow> string \<Rightarrow> bool" where
  "str_eq ci a b \<longleftrightarrow> (if ci then eq_ignore_ascii_case a b else a = b)"

definition star_spec :: "bool \<Rightarrow> string \<Rightarrow> string \<Rightarrow> bool" where
  "star_spec ci p t \<longleftrightarrow>
     (case split_once star p of
        None \<Rightarrow> str_eq ci t p
      | Some (a, b) \<Rightarrow> length a + length b \<le> length t \<and> str_eq ci (take (length a) t) a \<and>
          str_eq ci (drop (length t - length b) t) b)"

lemma star_spec_literal: "star \<notin> set p \<Longrightarrow> star_spec ci p t \<longleftrightarrow> str_eq ci t p"
  by (simp add: star_spec_def split_once_None [THEN iffD2])

lemma star_spec_star:
  "star \<notin> set a \<Longrightarrow> star_spec ci (a @ star # b) t \<longleftrightarrow>
     length a + length b \<le> length t \<and> str_eq ci (take (length a) t) a \<and>
     str_eq ci (drop (length t - length b) t) b"
  by (simp add: star_spec_def)

lemma star_spec_star_iff:
  assumes "star \<notin> set a"
  shows "star_spec ci (a @ star # b) t \<longleftrightarrow>
    (\<exists>x y z. t = x @ y @ z \<and> str_eq ci x a \<and> str_eq ci z b)"
proof
  assume s: "star_spec ci (a @ star # b) t"
  let ?n = "length a" and ?m = "length t - length b"
  from s assms have "?n \<le> ?m" "str_eq ci (take ?n t) a" "str_eq ci (drop ?m t) b"
    by (auto simp: star_spec_star)
  moreover have "t = take ?n t @ drop ?n (take ?m t) @ drop ?m t"
    using \<open>?n \<le> ?m\<close> by (metis append.assoc append_take_drop_id min.absorb1 take_take)
  ultimately show "\<exists>x y z. t = x @ y @ z \<and> str_eq ci x a \<and> str_eq ci z b" by blast
next
  assume "\<exists>x y z. t = x @ y @ z \<and> str_eq ci x a \<and> str_eq ci z b"
  then obtain x y z where t: "t = x @ y @ z" "str_eq ci x a" "str_eq ci z b" by blast
  then have "length x = length a" "length z = length b"
    by (auto simp: str_eq_def dest: eq_ignore_ascii_case_length split: if_splits)
  with t assms show "star_spec ci (a @ star # b) t" by (simp add: star_spec_star)
qed

text \<open>The documented meaning of a glob, on the tokens of the escaped pattern.\<close>

datatype glob_token = Lit char | AnySeq

fun glob_tokens :: "string \<Rightarrow> glob_token list option" where
  "glob_tokens [] = Some []"
| "glob_tokens (c # cs) =
     (if c = CHR 0x5C then
        (case cs of [] \<Rightarrow> None | d # ds \<Rightarrow> map_option ((#) (Lit d)) (glob_tokens ds))
      else if c = star then map_option ((#) AnySeq) (glob_tokens cs)
      else if glob_special c then None
      else map_option ((#) (Lit c)) (glob_tokens cs))"

fun token_match :: "bool \<Rightarrow> glob_token list \<Rightarrow> string \<Rightarrow> bool" where
  "token_match ci [] t \<longleftrightarrow> t = []"
| "token_match ci (Lit c # ts) t \<longleftrightarrow>
     (case t of [] \<Rightarrow> False | x # xs \<Rightarrow> str_eq ci [x] [c] \<and> token_match ci ts xs)"
| "token_match ci (AnySeq # ts) t \<longleftrightarrow>
     list_ex (\<lambda>k. token_match ci ts (drop k t)) [0..<Suc (length t)]"

definition globset_ok :: "globset \<Rightarrow> bool" where
  "globset_ok build \<longleftrightarrow>
     (\<forall>p ci ts. glob_tokens p = Some ts \<and> count_list ts AnySeq \<le> 1 \<longrightarrow>
        (\<exists>m. build p ci = Some m \<and> (\<forall>t. m t = token_match ci ts t)))"

definition tok :: "char \<Rightarrow> glob_token" where
  "tok c = (if c = star then AnySeq else Lit c)"

lemma glob_tokens_escape: "glob_tokens (escape p) = Some (map tok p)"
  by (induction p) (auto simp: tok_def glob_special_def)

lemma count_tok: "count_list (map tok p) AnySeq = count_list p star"
  by (induction p) (auto simp: tok_def)

lemma str_eq_Cons: "str_eq ci (x # xs) (y # ys) \<longleftrightarrow> str_eq ci [x] [y] \<and> str_eq ci xs ys"
  by (auto simp: str_eq_def eq_ignore_ascii_case_def)

lemma str_eq_Nil [simp]: "str_eq ci t [] \<longleftrightarrow> t = []" "str_eq ci [] t \<longleftrightarrow> t = []"
  by (auto simp: str_eq_def eq_ignore_ascii_case_def)

lemma token_match_prefix:
  "token_match ci (map Lit a @ ts) t \<longleftrightarrow>
     length a \<le> length t \<and> str_eq ci (take (length a) t) a \<and> token_match ci ts (drop (length a) t)"
proof (induction a arbitrary: t)
  case Nil
  then show ?case by simp
next
  case (Cons c a)
  show ?case
    by (cases t) (auto simp: Cons.IH str_eq_Cons [of ci _ _ c a])
qed

lemma str_eq_length: "str_eq ci a b \<Longrightarrow> length a = length b"
  by (auto simp: str_eq_def dest: eq_ignore_ascii_case_length split: if_splits)

lemma token_match_literal: "token_match ci (map Lit a) t \<longleftrightarrow> str_eq ci t a"
proof -
  have "token_match ci (map Lit a) t \<longleftrightarrow>
      length a \<le> length t \<and> str_eq ci (take (length a) t) a \<and> length t \<le> length a"
    using token_match_prefix [of ci a "[]" t] by simp
  then show ?thesis
    using str_eq_length [of ci t a] by (cases "length t = length a") auto
qed

lemma map_tok_literal: "star \<notin> set a \<Longrightarrow> map tok a = map Lit a"
  by (induction a) (auto simp: tok_def)

lemma token_match_any_literal:
  "token_match ci (AnySeq # map Lit b) t \<longleftrightarrow>
     length b \<le> length t \<and> str_eq ci (drop (length t - length b) t) b"
proof -
  have "token_match ci (AnySeq # map Lit b) t \<longleftrightarrow> (\<exists>k \<le> length t. str_eq ci (drop k t) b)"
    by (auto simp: list_ex_iff token_match_literal less_Suc_eq_le simp del: upt_Suc)
  also have "\<dots> \<longleftrightarrow> length b \<le> length t \<and> str_eq ci (drop (length t - length b) t) b"
  proof
    assume "\<exists>k \<le> length t. str_eq ci (drop k t) b"
    then obtain k where k: "k \<le> length t" "str_eq ci (drop k t) b" by blast
    then have "k = length t - length b" "length b \<le> length t"
      using str_eq_length [OF k(2)] by auto
    with k show "length b \<le> length t \<and> str_eq ci (drop (length t - length b) t) b" by simp
  qed (auto intro: exI [of _ "length t - length b"])
  finally show ?thesis .
qed

lemma token_match_star_spec:
  assumes "count_list p star \<le> 1"
  shows "token_match ci (map tok p) t \<longleftrightarrow> star_spec ci p t"
proof (cases "split_once star p")
  case None
  then have "star \<notin> set p" by (simp add: split_once_None)
  then show ?thesis by (simp add: map_tok_literal token_match_literal star_spec_literal)
next
  case (Some ab)
  then obtain a b where p: "p = a @ star # b" and a: "star \<notin> set a"
    by (cases ab) (auto simp: split_once_Some)
  with assms have b: "star \<notin> set b" by (simp add: count_list_0_iff)
  have "map tok p = map Lit a @ AnySeq # map Lit b"
    using a b by (simp add: p map_tok_literal) (simp add: tok_def)
  moreover have "token_match ci (map Lit a @ AnySeq # map Lit b) t \<longleftrightarrow> star_spec ci (a @ star # b) t"
    unfolding token_match_prefix token_match_any_literal star_spec_star [OF a] by auto
  ultimately show ?thesis by (simp only: p)
qed

lemma glob_result_star_spec:
  assumes "globset_ok build" and "count_list p star \<le> 1"
  shows "glob_result build p t ci \<longleftrightarrow> star_spec ci p t"
proof -
  obtain m where m: "build (escape p) ci = Some m" "\<And>t. m t = token_match ci (map tok p) t"
    using assms glob_tokens_escape [of p] count_tok [of p] unfolding globset_ok_def by metis
  then show ?thesis
    using assms(2) by (simp add: glob_result_def token_match_star_spec)
qed

section \<open>The matchers against the specification\<close>

lemma ends_with_ci_spec:
  "ends_with_ignore_ascii_case t p \<longleftrightarrow>
     length p \<le> length t \<and> str_eq True (drop (length t - length p) t) p"
  by (simp add: ends_with_ignore_ascii_case_def str_eq_def)

lemma starts_with_ci_spec:
  "starts_with_ignore_ascii_case t p \<longleftrightarrow> length p \<le> length t \<and> str_eq True (take (length p) t) p"
  by (simp add: starts_with_ignore_ascii_case_def str_eq_def)

lemma ends_with_spec:
  "ends_with t p \<longleftrightarrow> length p \<le> length t \<and> str_eq False (drop (length t - length p) t) p"
  by (simp add: ends_with_def str_eq_def)

lemma starts_with_spec:
  "starts_with t p \<longleftrightarrow> length p \<le> length t \<and> str_eq False (take (length p) t) p"
  by (auto simp: starts_with_def str_eq_def dest: arg_cong [of _ _ length])

lemma star_spec_leading: "star_spec ci (''*'' @ b) t \<longleftrightarrow>
    length b \<le> length t \<and> str_eq ci (drop (length t - length b) t) b"
  using star_spec_star [of "[]" ci b t] by simp

lemma star_spec_trailing: "star \<notin> set a \<Longrightarrow> star_spec ci (a @ ''*'') t \<longleftrightarrow>
    length a \<le> length t \<and> str_eq ci (take (length a) t) a"
  using star_spec_star [of a ci "[]" t] by simp

lemma star_spec_any: "star_spec ci ''*'' t"
  using star_spec_leading [of ci "[]" t] by simp

text \<open>The shapes the matchers dispatch on.\<close>

lemma strip_prefix_star: "strip_prefix ''*'' (c # cs) = (if c = star then Some cs else None)"
  by (simp add: strip_prefix_def)

lemma strip_suffix_star: "strip_suffix ''*'' (xs @ [c]) = (if c = star then Some xs else None)"
  by (simp add: strip_suffix_def)

lemma one_star_shape:
  assumes "count_list p star \<le> 1"
  obtains (any) "p = ''*''"
    | (leading) b where "p = star # b" "b \<noteq> []" "star \<notin> set b"
    | (trailing) a where "p = a @ [star]" "a \<noteq> []" "star \<notin> set a"
    | (inner) a b where "p = a @ star # b" "a \<noteq> []" "b \<noteq> []" "star \<notin> set a" "star \<notin> set b"
    | (literal) "star \<notin> set p"
proof (cases "star \<in> set p")
  case True
  then obtain a b where ab: "p = a @ star # b" "star \<notin> set a" by (meson split_list_first)
  with assms have "star \<notin> set b" by (simp add: count_list_0_iff)
  with ab any leading trailing inner show thesis by (cases "a = []"; cases "b = []") auto
qed (rule literal)

lemma strip_star_inner:
  assumes "a \<noteq> []" "b \<noteq> []" "star \<notin> set a" "star \<notin> set b"
  shows "strip_prefix ''*'' (a @ star # b) = None" and "strip_suffix ''*'' (a @ star # b) = None"
proof -
  from assms obtain c cs where "a = c # cs" "c \<noteq> star" by (cases a) auto
  then show "strip_prefix ''*'' (a @ star # b) = None" by (simp add: strip_prefix_star)
  from assms obtain d ds where "b = ds @ [d]" "d \<noteq> star" by (cases b rule: rev_cases) auto
  then show "strip_suffix ''*'' (a @ star # b) = None"
    using strip_suffix_star [of "a @ star # ds" d] by simp
qed

lemma strip_star_literal:
  assumes "star \<notin> set p"
  shows "strip_prefix ''*'' p = None" and "strip_suffix ''*'' p = None"
  using assms by (auto simp: strip_prefix_None strip_suffix_None)

lemma strip_star_trailing:
  "a \<noteq> [] \<Longrightarrow> star \<notin> set a \<Longrightarrow> strip_prefix ''*'' (a @ [star]) = None"
  by (cases a) (auto simp: strip_prefix_star)

lemma strip_star_leading:
  "b \<noteq> [] \<Longrightarrow> star \<notin> set b \<Longrightarrow> strip_suffix ''*'' (star # b) = None"
  by (cases b rule: rev_cases) (auto simp: strip_suffix_star [of "star # _", simplified])

lemmas star_dispatch =
  star_spec_any star_spec_leading [simplified] star_spec_trailing star_spec_literal
  strip_prefix_star strip_suffix_star strip_star_inner strip_star_literal strip_star_trailing
  strip_star_leading ends_with_ci_spec starts_with_ci_spec ends_with_spec starts_with_spec

lemma domain_matches_star_spec:
  assumes "globset_ok build" and "count_list p star \<le> 1"
  shows "domain_matches build req (Some p) \<longleftrightarrow> star_spec True p (rm_domain req)"
proof -
  note [simp] = domain_matches_def star_dispatch glob_result_star_spec [OF assms(1)] count_list_0_iff
  from assms(2) show ?thesis
    by (cases rule: one_star_shape) (auto simp: str_eq_def)
qed

lemma method_matches_star_spec:
  assumes "globset_ok build" and "count_list p star \<le> 1"
  shows "method_matches build req (Some p) \<longleftrightarrow> star_spec False p (rm_method req)"
  using assms(2)
  by (auto simp: method_matches_def star_spec_any glob_result_star_spec [OF assms(1)]
      star_spec_literal str_eq_def)

lemma uri_matches_star_spec:
  assumes "globset_ok build" and "count_list p star \<le> 1"
  shows "uri_matches build req (Some p) \<longleftrightarrow> star_spec False p (strip_query (rm_url_path req))"
proof -
  note [simp] = uri_matches_def Let_def star_dispatch glob_result_star_spec [OF assms(1)] count_list_0_iff
  from assms(2) show ?thesis
    by (cases rule: one_star_shape) (auto simp: str_eq_def)
qed

section \<open>CIDR against the specification\<close>

lemma mask_eq_iff:
  fixes a b :: "'a::len word"
  assumes "n \<le> LENGTH('a)"
  shows "a AND push_bit n (- 1) = b AND push_bit n (- 1) \<longleftrightarrow> drop_bit n a = drop_bit n b"
proof
  assume eq: "a AND push_bit n (- 1) = b AND push_bit n (- 1)"
  show "drop_bit n a = drop_bit n b"
  proof (rule bit_word_eqI)
    fix i assume "i < LENGTH('a)"
    have "bit (a AND push_bit n (- 1)) (n + i) = bit (b AND push_bit n (- 1)) (n + i)"
      by (simp only: eq)
    then show "bit (drop_bit n a) i = bit (drop_bit n b) i"
      by (cases "n + i < LENGTH('a)") (auto simp: bit_simps dest: bit_imp_le_length)
  qed
next
  assume eq: "drop_bit n a = drop_bit n b"
  show "a AND push_bit n (- 1) = b AND push_bit n (- 1)"
  proof (rule bit_word_eqI)
    fix i assume i: "i < LENGTH('a)"
    have "n \<le> i \<Longrightarrow> bit a i = bit b i"
      using arg_cong [OF eq, of "\<lambda>w. bit w (i - n)"] by (simp add: bit_simps)
    then show "bit (a AND push_bit n (- 1)) i = bit (b AND push_bit n (- 1)) i"
      by (auto simp: bit_simps)
  qed
qed

lemmas not_mask_eq_iff = mask_eq_iff [unfolded push_bit_minus_one_eq_not_mask]

lemma v4_bits_drop:
  fixes x :: u32
  assumes "k \<le> 32"
  shows "drop_bit (96 + k) (push_bit 96 (ucast x) :: u128) = ucast (drop_bit k x)"
  by (rule bit_word_eqI) (use assms in \<open>auto simp: bit_simps dest: bit_imp_le_length\<close>)

text \<open>Two addresses agree on their first \<open>n\<close> bits.\<close>

fun same_prefix :: "nat \<Rightarrow> ip_addr \<Rightarrow> ip_addr \<Rightarrow> bool" where
  "same_prefix n (V4 x) (V4 y) \<longleftrightarrow> drop_bit (32 - n) x = drop_bit (32 - n) y"
| "same_prefix n (V6 x) (V6 y) \<longleftrightarrow> drop_bit (128 - n) x = drop_bit (128 - n) y"
| "same_prefix n _ _ \<longleftrightarrow> False"

fun family_bits :: "ip_addr \<Rightarrow> nat" where
  "family_bits (V4 _) = 32"
| "family_bits (V6 _) = 128"

definition network_of :: "ip_addr \<Rightarrow> nat \<Rightarrow> cidr_network" where
  "network_of ip n = \<lparr>net_addr = fst (ip_bits ip), net_prefix = n, net_is_v6 = snd (ip_bits ip)\<rparr>"

lemma ucast_eq_32: "(ucast (x :: u32) :: u128) = ucast y \<longleftrightarrow> x = y"
proof
  assume "(ucast x :: u128) = ucast y"
  then have "uint (ucast x :: u128) = uint (ucast y :: u128)" by simp
  then show "x = y" by (simp add: uint_up_ucast is_up word_uint_eq_iff)
qed simp

lemma ip_in_network_same_prefix:
  assumes "n \<le> family_bits net"
  shows "ip_in_network ip (network_of net n) \<longleftrightarrow> same_prefix n ip net"
proof (cases "n = 0")
  case True
  have "drop_bit 32 (x :: u32) = drop_bit 32 (y :: u32)" for x y
    by (rule bit_word_eqI) (auto simp: bit_simps dest: bit_imp_le_length)
  moreover have "drop_bit 128 (x :: u128) = drop_bit 128 (y :: u128)" for x y
    by (rule bit_word_eqI) (auto simp: bit_simps dest: bit_imp_le_length)
  ultimately show ?thesis using True
    by (cases ip; cases net) (auto simp: ip_in_network_def network_of_def)
next
  case False
  show ?thesis
  proof (cases net)
    case (V4 y)
    with assms have n: "128 - n = 96 + (32 - n)" "32 - n \<le> 32" by auto
    from V4 False show ?thesis
      by (cases ip) (simp_all add: ip_in_network_def network_of_def Let_def not_mask_eq_iff n(1)
          v4_bits_drop [OF n(2)] ucast_eq_32)
  next
    case (V6 y)
    with False show ?thesis
      by (cases ip) (simp_all add: ip_in_network_def network_of_def Let_def not_mask_eq_iff)
  qed
qed

lemma same_prefix_full: "same_prefix (family_bits net) ip net \<longleftrightarrow> ip = net"
  by (cases ip; cases net) auto

lemma parse_cidr_exact:
  assumes "CHR ''/'' \<notin> set a"
  shows "parse_cidr a = map_option (\<lambda>ip. network_of ip (family_bits ip)) (parse_ip a)"
proof -
  have "split_once (CHR ''/'') a = None" using assms by (simp add: split_once_None)
  then show ?thesis
    by (cases "parse_ip a"; cases "the (parse_ip a)") (auto simp: parse_cidr_def network_of_def)
qed

lemma parse_cidr_prefix:
  assumes "CHR ''/'' \<notin> set a"
  shows "parse_cidr (a @ CHR ''/'' # p) =
    (case (parse_ip a, parse_u8 p) of
       (Some ip, Some n) \<Rightarrow> if n \<le> family_bits ip then Some (network_of ip n) else None
     | _ \<Rightarrow> None)"
  using assms
  by (cases "parse_ip a"; cases "the (parse_ip a)"; cases "parse_u8 p")
     (auto simp: parse_cidr_def network_of_def)

section \<open>Properties\<close>

text \<open>Lookups through the process-wide cache, in order.\<close>

fun glob_calls ::
  "globset \<Rightarrow> glob_cache \<Rightarrow> (string \<times> string \<times> bool) list \<Rightarrow> bool list" where
  "glob_calls build cache [] = []"
| "glob_calls build cache ((p, t, ci) # rest) =
     (let (r, cache') = glob_match build cache p t ci in r # glob_calls build cache' rest)"

lemma glob_calls_coherent:
  "cache_coherent build cache \<Longrightarrow>
     glob_calls build cache calls = map (\<lambda>(p, t, ci). glob_result build p t ci) calls"
proof (induction calls arbitrary: cache)
  case (Cons call calls)
  obtain p t ci where call: "call = (p, t, ci)" by (cases call)
  show ?case
    using glob_match_coherent [OF Cons.prems, of p t ci] Cons.IH
    by (simp add: call split_beta Let_def)
qed simp

text \<open>A concrete \<open>globset\<close>, built from the documented meaning of its patterns.\<close>

definition documented_globset :: globset where
  "documented_globset p ci = map_option (token_match ci) (glob_tokens p)"

lemma globset_ok_documented: "globset_ok documented_globset"
  by (auto simp: globset_ok_def documented_globset_def)

text \<open>
  The compile cache is invisible: starting from the empty cache, any sequence of glob
  matches returns what compiling each pattern afresh would return, whatever was cached before.
\<close>

theorem glob_cache_transparent:
  "glob_calls build (\<lambda>_. None) calls = map (\<lambda>(p, t, ci). glob_result build p t ci) calls"
  by (simp add: glob_calls_coherent cache_coherent_empty)

text \<open>
  C15. The special-cased dispatch of the three string matchers is a single semantics: for a
  pattern with at most one star (what validation admits), each agrees with the one-star
  specification, case-insensitively for domains, exactly for methods and for the path without
  its query; special glob characters in the pattern are literals.
\<close>

theorem matchers_agree_with_star_spec:
  assumes "globset_ok build" and "count_list p star \<le> 1"
  shows "domain_matches build req (Some p) = star_spec True p (rm_domain req) \<and>
    method_matches build req (Some p) = star_spec False p (rm_method req) \<and>
    uri_matches build req (Some p) = star_spec False p (strip_query (rm_url_path req)) \<and>
    star_glob_match build p t = star_spec False p t"
  using assms
  by (simp add: domain_matches_star_spec method_matches_star_spec uri_matches_star_spec
      star_glob_match_def glob_result_star_spec)

definition demo_request_meta :: request_meta where
  "demo_request_meta =
     \<lparr>rm_domain = ''API.example.com'', rm_method = ''GET'', rm_url_path = ''/v1/models?x=1'',
      rm_binary_path = None, rm_target_ips = [V4 0x0A000105], rm_target_port = 443\<rparr>"

lemma matchers_agree_with_star_spec_witness:
  "domain_matches documented_globset demo_request_meta (Some ''api.*.com'') \<and>
   \<not> uri_matches documented_globset demo_request_meta (Some ''/v?*'')"
proof -
  have "star_spec True ''api.*.com'' ''API.example.com''"
    by code_simp
  moreover have "\<not> star_spec False ''/v?*'' (strip_query ''/v1/models?x=1'')"
    by (simp add: star_spec_def str_eq_def strip_query_def)
  ultimately show ?thesis
    using matchers_agree_with_star_spec [OF globset_ok_documented, of "''api.*.com''" demo_request_meta]
      matchers_agree_with_star_spec [OF globset_ok_documented, of "''/v?*''" demo_request_meta]
    by (simp add: demo_request_meta_def)
qed

text \<open>
  A CIDR pattern matches exactly when one of the resolved target addresses is of the same
  family and agrees with the network address on the prefix bits, for every prefix length of
  both families (0 and the full width included).
\<close>

theorem cidr_matches_prefix_bits:
  assumes "CHR ''/'' \<notin> set a" and "parse_ip a = Some net" and "n \<le> family_bits net"
  shows "ip_matches req (Some (a @ CHR ''/'' # dec_string n)) \<longleftrightarrow>
    (\<exists>ip \<in> set (rm_target_ips req). same_prefix n ip net)"
proof -
  have "n \<le> 128" using assms(3) by (cases net) auto
  then have "parse_u8 (dec_string n) = Some n" by (simp add: parse_u8_def parse_uint_dec)
  moreover have "a @ CHR ''/'' # dec_string n \<noteq> ''*''" by (cases a) auto
  ultimately show ?thesis
    using assms
    by (simp add: ip_matches_def parse_cidr_prefix list_ex_iff ip_in_network_same_prefix)
qed

lemma cidr_matches_prefix_bits_witness:
  "ip_matches demo_request_meta (Some (''10.0.0.0'' @ CHR ''/'' # dec_string 8)) \<and>
   \<not> ip_matches demo_request_meta (Some (''10.0.0.0'' @ CHR ''/'' # dec_string 24))"
proof -
  have ip: "parse_ip ''10.0.0.0'' = Some (V4 0x0A000000)" by code_simp
  show ?thesis
    using cidr_matches_prefix_bits [OF _ ip, of 8 demo_request_meta]
      cidr_matches_prefix_bits [OF _ ip, of 24 demo_request_meta]
    by (simp add: demo_request_meta_def)
qed

end
