(* ===== verification/Engine.thy ===== *)
theory Engine
  imports Matcher
begin

text \<open>
  \<^verbatim>\<open>rust/plugins/agentsandbox/proxy/src/filter/engine.rs\<close>: the rule-evaluation engine.
  \<open>evaluate\<close> is the chain of the source, one function per loop.  The lemmas show it equal to
  "the first decisive rule in reading order, else the default policy", and show when it denies.
\<close>

section \<open>Rule matching\<close>

definition binary_rule_matches :: "globset \<Rightarrow> binary_rule \<Rightarrow> string option \<Rightarrow> bool" where
  "binary_rule_matches build br binary_path =
     (case binary_path of None \<Rightarrow> False
      | Some bp \<Rightarrow> star_glob_match build (binary_rule_path br) bp)"

definition ruleset_matches :: "globset \<Rightarrow> request_meta \<Rightarrow> rule_set \<Rightarrow> bool" where
  "ruleset_matches build req rs =
     (case host_type_of (rs_host rs) of
        HostIp \<Rightarrow>
          (case host_addr (rs_host rs) of None \<Rightarrow> False | Some addr \<Rightarrow> ip_matches req (Some addr))
      | HostName \<Rightarrow>
          (case host_context (rs_host rs) of None \<Rightarrow> False
           | Some ctx \<Rightarrow> domain_matches build req (Some ctx)))"

definition target_rule_matches :: "globset \<Rightarrow> request_meta \<Rightarrow> target_rule \<Rightarrow> bool" where
  "target_rule_matches build req tr \<longleftrightarrow>
     method_matches build req (Some (target_method tr)) \<and>
     uri_matches build req (Some (target_path tr))"

section \<open>The chain\<close>

definition mk_decision :: "action \<Rightarrow> reason \<Rightarrow> bool \<Rightarrow> string option \<Rightarrow> decision" where
  "mk_decision a r al i = \<lparr>d_action = a, d_reason = r, d_alert = al, d_rule_id = i\<rparr>"

fun eval_binaryrules ::
  "globset \<Rightarrow> request_meta \<Rightarrow> string option \<Rightarrow> binary_rule list \<Rightarrow> decision option" where
  "eval_binaryrules build req rule_id [] = None"
| "eval_binaryrules build req rule_id (br # brs) =
     (if \<not> binary_rule_matches build br (rm_binary_path req)
      then eval_binaryrules build req rule_id brs
      else case binary_action br of
        RuleDeny \<Rightarrow> Some (mk_decision Deny BlacklistMatch False rule_id)
      | RuleAlert \<Rightarrow> Some (mk_decision Allow BlacklistMatch True rule_id)
      | RuleAllow \<Rightarrow> eval_binaryrules build req rule_id brs)"

fun eval_targetrules ::
  "globset \<Rightarrow> request_meta \<Rightarrow> string option \<Rightarrow> target_rule list \<Rightarrow> decision option" where
  "eval_targetrules build req rule_id [] = None"
| "eval_targetrules build req rule_id (tr # trs) =
     (if \<not> method_matches build req (Some (target_method tr)) \<or>
         \<not> uri_matches build req (Some (target_path tr))
      then eval_targetrules build req rule_id trs
      else case target_action tr of
        RuleDeny \<Rightarrow> Some (mk_decision Deny BlacklistMatch False rule_id)
      | RuleAlert \<Rightarrow> Some (mk_decision Allow BlacklistMatch True rule_id)
      | RuleAllow \<Rightarrow> Some (mk_decision Allow WhitelistMatch False rule_id))"

fun eval_rulesets :: "globset \<Rightarrow> request_meta \<Rightarrow> rule_set list \<Rightarrow> decision option" where
  "eval_rulesets build req [] = None"
| "eval_rulesets build req (rs # rss) =
     (if \<not> ruleset_matches build req rs then eval_rulesets build req rss
      else case eval_binaryrules build req (rs_rule_id rs) (rs_binaryrules rs) of
        Some d \<Rightarrow> Some d
      | None \<Rightarrow>
          (case eval_targetrules build req (rs_rule_id rs) (rs_targetrules rs) of
             Some d \<Rightarrow> Some d
           | None \<Rightarrow> eval_rulesets build req rss))"

fun default_decision :: "policy \<Rightarrow> decision" where
  "default_decision PolicyAllow = mk_decision Allow DefaultPolicy False None"
| "default_decision PolicyDeny = mk_decision Deny DefaultPolicy False None"
| "default_decision PolicyAlert = mk_decision Allow DefaultPolicy True None"

definition evaluate ::
  "globset \<Rightarrow> string \<Rightarrow> string \<Rightarrow> string \<Rightarrow> string \<Rightarrow> string option \<Rightarrow> ip_addr list \<Rightarrow> u16 \<Rightarrow>
     filter_config \<Rightarrow> decision" where
  "evaluate build group_id domain meth url_path binary_path target_ips target_port fc =
     (let req = \<lparr>rm_domain = domain, rm_method = meth, rm_url_path = url_path,
                 rm_binary_path = binary_path, rm_target_ips = target_ips,
                 rm_target_port = target_port\<rparr>
      in case eval_rulesets build req (rule_list fc) of
           Some d \<Rightarrow> d
         | None \<Rightarrow> default_decision (default_policy fc))"

section \<open>Specification: the first decisive rule\<close>

text \<open>
  The decisive hits of a configuration in reading order: within each matching rule set first the
  matching binary rules that deny or alert, then the matching target rules.
\<close>

datatype hit = Hit (hit_action: rule_action) (hit_rule_id: "string option")

definition ruleset_hits :: "globset \<Rightarrow> request_meta \<Rightarrow> rule_set \<Rightarrow> hit list" where
  "ruleset_hits build req rs =
     (if ruleset_matches build req rs then
        [Hit (binary_action br) (rs_rule_id rs). br \<leftarrow> rs_binaryrules rs,
           binary_rule_matches build br (rm_binary_path req) \<and> binary_action br \<noteq> RuleAllow] @
        [Hit (target_action tr) (rs_rule_id rs). tr \<leftarrow> rs_targetrules rs,
           target_rule_matches build req tr]
      else [])"

fun hit_decision :: "hit \<Rightarrow> decision" where
  "hit_decision (Hit RuleDeny i) = mk_decision Deny BlacklistMatch False i"
| "hit_decision (Hit RuleAlert i) = mk_decision Allow BlacklistMatch True i"
| "hit_decision (Hit RuleAllow i) = mk_decision Allow WhitelistMatch False i"

definition first_hit :: "hit list \<Rightarrow> decision option" where
  "first_hit hs = (case hs of [] \<Rightarrow> None | h # _ \<Rightarrow> Some (hit_decision h))"

lemma first_hit_append: "first_hit (xs @ ys) = (case first_hit xs of None \<Rightarrow> first_hit ys | d \<Rightarrow> d)"
  by (cases xs) (auto simp: first_hit_def)

lemma first_hit_simps [simp]: "first_hit [] = None" "first_hit (h # hs) = Some (hit_decision h)"
  by (simp_all add: first_hit_def)

lemma eval_binaryrules_hits:
  "eval_binaryrules build req i brs =
     first_hit [Hit (binary_action br) i. br \<leftarrow> brs,
       binary_rule_matches build br (rm_binary_path req) \<and> binary_action br \<noteq> RuleAllow]"
  by (induction brs) (auto split: rule_action.split)

lemma eval_targetrules_hits:
  "eval_targetrules build req i trs =
     first_hit [Hit (target_action tr) i. tr \<leftarrow> trs, target_rule_matches build req tr]"
  by (induction trs) (auto simp: target_rule_matches_def split: rule_action.split)

lemma eval_rulesets_hits:
  "eval_rulesets build req rss = first_hit (concat (map (ruleset_hits build req) rss))"
proof (induction rss)
  case (Cons rs rss)
  then show ?case
    by (simp add: ruleset_hits_def eval_binaryrules_hits eval_targetrules_hits first_hit_append
        split: option.split)
qed simp

definition mk_request ::
  "string \<Rightarrow> string \<Rightarrow> string \<Rightarrow> string option \<Rightarrow> ip_addr list \<Rightarrow> u16 \<Rightarrow> request_meta" where
  "mk_request domain meth url_path binary_path target_ips target_port =
     \<lparr>rm_domain = domain, rm_method = meth, rm_url_path = url_path,
      rm_binary_path = binary_path, rm_target_ips = target_ips, rm_target_port = target_port\<rparr>"

lemma evaluate_hits:
  "evaluate build g domain m u bp ips port fc =
     (case concat (map (ruleset_hits build (mk_request domain m u bp ips port)) (rule_list fc)) of
        [] \<Rightarrow> default_decision (default_policy fc)
      | h # _ \<Rightarrow> hit_decision h)"
  by (cases "concat (map (ruleset_hits build (mk_request domain m u bp ips port)) (rule_list fc))")
     (simp_all add: evaluate_def mk_request_def eval_rulesets_hits
       del: concat_eq_Nil_conv)

lemma hit_decision_deny: "d_action (hit_decision h) = Deny \<longleftrightarrow> hit_action h = RuleDeny"
  by (cases h; cases "hit_action h") (auto simp: mk_decision_def)

lemma hit_decision_facts:
  "d_rule_id (hit_decision h) = hit_rule_id h"
  "d_alert (hit_decision h) \<longleftrightarrow> hit_action h = RuleAlert"
  "d_reason (hit_decision h) \<noteq> DefaultPolicy"
  by (cases h; cases "hit_action h"; simp add: mk_decision_def)+

lemma default_decision_facts:
  "d_action (default_decision p) = Deny \<longleftrightarrow> p = PolicyDeny"
  "d_reason (default_decision p) = DefaultPolicy"
  "d_rule_id (default_decision p) = None"
  "d_alert (default_decision p) \<longleftrightarrow> p = PolicyAlert"
  by (cases p; simp add: mk_decision_def)+

lemma hits_eq_Nil_iff:
  "ruleset_hits build req rs = [] \<longleftrightarrow>
     (ruleset_matches build req rs \<longrightarrow>
        (\<forall>br \<in> set (rs_binaryrules rs).
           binary_rule_matches build br (rm_binary_path req) \<longrightarrow> binary_action br = RuleAllow) \<and>
        (\<forall>tr \<in> set (rs_targetrules rs). \<not> target_rule_matches build req tr))"
  by (auto simp: ruleset_hits_def)

lemma set_ruleset_hits:
  "h \<in> set (ruleset_hits build req rs) \<longleftrightarrow>
     ruleset_matches build req rs \<and> hit_rule_id h = rs_rule_id rs \<and>
     ((\<exists>br \<in> set (rs_binaryrules rs). binary_rule_matches build br (rm_binary_path req) \<and>
         binary_action br \<noteq> RuleAllow \<and> binary_action br = hit_action h) \<or>
      (\<exists>tr \<in> set (rs_targetrules rs). target_rule_matches build req tr \<and>
         target_action tr = hit_action h))"
  by (cases h) (auto simp: ruleset_hits_def)

section \<open>Properties\<close>

text \<open>
  C3. Evaluation is the first decisive rule in reading order (rule sets in list order; within a
  matching rule set the matching denying or alerting binary rules, then the matching target
  rules), and the default policy when there is none.
\<close>

theorem evaluate_is_first_decisive_rule:
  "evaluate build g domain m u bp ips port fc =
     (case concat (map (ruleset_hits build (mk_request domain m u bp ips port)) (rule_list fc)) of
        [] \<Rightarrow> default_decision (default_policy fc)
      | h # _ \<Rightarrow> hit_decision h)"
  by (rule evaluate_hits)

text \<open>
  A request is denied only for a stated reason: the decision is Deny with reason
  BlacklistMatch and the id of a matching rule set that has a matching deny rule, or Deny with
  reason DefaultPolicy and no rule id, when the default policy denies and no rule set of the
  configuration has a decisive rule.
\<close>

theorem deny_is_justified:
  assumes "d_action (evaluate build g domain m u bp ips port fc) = Deny"
  defines "req \<equiv> mk_request domain m u bp ips port"
  defines "d \<equiv> evaluate build g domain m u bp ips port fc"
  shows "(d_reason d = BlacklistMatch \<and>
           (\<exists>rs \<in> set (rule_list fc). ruleset_matches build req rs \<and> d_rule_id d = rs_rule_id rs \<and>
              ((\<exists>br \<in> set (rs_binaryrules rs). binary_rule_matches build br bp \<and>
                  binary_action br = RuleDeny) \<or>
               (\<exists>tr \<in> set (rs_targetrules rs). target_rule_matches build req tr \<and>
                  target_action tr = RuleDeny)))) \<or>
         (d_reason d = DefaultPolicy \<and> d_rule_id d = None \<and> default_policy fc = PolicyDeny \<and>
           (\<forall>rs \<in> set (rule_list fc). ruleset_hits build req rs = []))"
proof (cases "concat (map (ruleset_hits build req) (rule_list fc))")
  case Nil
  then have "d = default_decision (default_policy fc)"
    by (simp add: d_def evaluate_hits req_def del: concat_eq_Nil_conv)
  with assms(1) have "d_reason d = DefaultPolicy" "d_rule_id d = None" "default_policy fc = PolicyDeny"
    by (simp_all only: d_def [symmetric] default_decision_facts)
  with Nil show ?thesis by auto
next
  case (Cons h hs)
  then have d: "d = hit_decision h"
    by (simp add: d_def evaluate_hits req_def)
  with assms(1) have a: "hit_action h = RuleDeny" by (simp add: d_def hit_decision_deny)
  have "h \<in> set (concat (map (ruleset_hits build req) (rule_list fc)))" by (simp only: Cons) simp
  then obtain rs where rs: "rs \<in> set (rule_list fc)" "h \<in> set (ruleset_hits build req rs)" by auto
  have bp: "rm_binary_path req = bp" by (simp add: req_def mk_request_def)
  have "d_reason d = BlacklistMatch" using a by (cases h) (simp add: d mk_decision_def)
  with rs a show ?thesis
    by (auto simp: set_ruleset_hits d hit_decision_facts bp)
qed

definition demo_ruleset :: rule_set where
  "demo_ruleset =
     \<lparr>rs_name = ''api'', rs_rule_id = Some ''R1'',
      rs_host = \<lparr>host_type_of = HostName, host_addr = None, host_context = Some ''*.example.com'',
                 host_prio = 10\<rparr>,
      rs_targetrules = [\<lparr>target_method = ''DELETE'', target_path = ''*'', target_action = RuleDeny\<rparr>,
                        \<lparr>target_method = ''*'', target_path = ''/v1/*'', target_action = RuleAllow\<rparr>],
      rs_binaryrules = [], rs_port = Some 443\<rparr>"

definition demo_config :: filter_config where
  "demo_config = \<lparr>default_policy = PolicyAlert, rule_list = [demo_ruleset]\<rparr>"

lemma demo_evaluate:
  "evaluate documented_globset ''g'' ''api.example.com'' ''DELETE'' ''/v1/x'' None [] 443 demo_config =
     mk_decision Deny BlacklistMatch False (Some ''R1'')"
  "evaluate documented_globset ''g'' ''api.example.com'' ''GET'' ''/v1/x?q'' None [] 443 demo_config =
     mk_decision Allow WhitelistMatch False (Some ''R1'')"
  by code_simp+

lemma deny_is_justified_witness:
  "\<exists>rs \<in> set (rule_list demo_config). rs_rule_id rs = Some ''R1'' \<and>
     (\<exists>tr \<in> set (rs_targetrules rs). target_action tr = RuleDeny)"
  using deny_is_justified [of documented_globset "''g''" "''api.example.com''" "''DELETE''" "''/v1/x''"
      None "[]" 443 demo_config]
  by (auto simp: demo_evaluate mk_decision_def demo_config_def demo_ruleset_def)

text \<open>
  The reserved fields never decide: the group id, the target port and the ports of the rule
  sets (whatever they say) leave every decision unchanged.
\<close>

theorem reserved_fields_never_decide:
  "evaluate build g domain m u bp ips port fc =
     evaluate build g' domain m u bp ips port'
       (fc\<lparr>rule_list := map (\<lambda>rs. rs\<lparr>rs_port := f rs\<rparr>) (rule_list fc)\<rparr>)"
proof -
  let ?r = "mk_request domain m u bp ips port" and ?r' = "mk_request domain m u bp ips port'"
  have fields: "rm_domain ?r = rm_domain ?r'" "rm_method ?r = rm_method ?r'"
    "rm_url_path ?r = rm_url_path ?r'" "rm_binary_path ?r = rm_binary_path ?r'"
    "rm_target_ips ?r = rm_target_ips ?r'"
    by (simp_all add: mk_request_def)
  have *: "ip_matches ?r = ip_matches ?r'" "domain_matches build ?r = domain_matches build ?r'"
    "target_rule_matches build ?r = target_rule_matches build ?r'"
    by (simp_all add: fun_eq_iff ip_matches_def domain_matches_def target_rule_matches_def
        method_matches_def uri_matches_def fields split: option.split)
  have "ruleset_hits build ?r' (rs\<lparr>rs_port := p\<rparr>) = ruleset_hits build ?r rs" for rs p
    by (simp add: ruleset_hits_def ruleset_matches_def * fields
        split: host_type.split option.split cong: if_cong)
  then show ?thesis by (simp add: evaluate_hits comp_def cong: list.case_cong)
qed

end
