(* ===== verification/Registry.thy ===== *)
theory Registry
  imports Engine "HOL-Library.Multiset"
begin

text \<open>
  \<^verbatim>\<open>rust/plugins/agentsandbox/proxy/src/registry/mod.rs\<close>: the run-time registry of
  container configurations and CA material, keyed by container id.  The validators are injected
  closures in the source and fields of the record here.  The lemmas show the registry to be, per
  container, the log of the accepted operations; what it stores is validated and in the order the
  engine relies on; and the engine's decision on a stored configuration does not depend on the
  order in which its rules were written.
\<close>

section \<open>State\<close>

type_synonym socket_addr = "ip_addr \<times> u16"
type_synonym resolver = "socket_addr \<Rightarrow> socket_addr \<Rightarrow> protocol \<Rightarrow> resolver_output option"

record registry =
  reg_configs :: "string \<rightharpoonup> filter_config"
  reg_cas :: "string \<rightharpoonup> ca_cert"
  reg_resolver :: "resolver option"
  reg_config_validator :: "(filter_config \<Rightarrow> config_error + unit) option"
  reg_ca_validator :: "(ca_cert \<Rightarrow> ca_error + unit) option"

definition registry_new :: registry where
  "registry_new =
     \<lparr>reg_configs = Map.empty, reg_cas = Map.empty, reg_resolver = None,
      reg_config_validator = None, reg_ca_validator = None\<rparr>"

definition with_config_validator ::
  "(filter_config \<Rightarrow> config_error + unit) \<Rightarrow> registry \<Rightarrow> registry" where
  "with_config_validator v r = r\<lparr>reg_config_validator := Some v\<rparr>"

definition with_ca_validator :: "(ca_cert \<Rightarrow> ca_error + unit) \<Rightarrow> registry \<Rightarrow> registry" where
  "with_ca_validator v r = r\<lparr>reg_ca_validator := Some v\<rparr>"

section \<open>Rule-order normalisation\<close>

fun action_rank :: "rule_action \<Rightarrow> nat" where
  "action_rank RuleDeny = 0"
| "action_rank RuleAlert = 1"
| "action_rank RuleAllow = 2"

definition reverse_prio :: "rule_set \<Rightarrow> int" where
  "reverse_prio rs = - uint (host_prio (rs_host rs))"

definition normalize_ruleset :: "rule_set \<Rightarrow> rule_set" where
  "normalize_ruleset rs =
     rs\<lparr>rs_targetrules := sort_key (\<lambda>t. action_rank (target_action t)) (rs_targetrules rs),
        rs_binaryrules := sort_key (\<lambda>b. action_rank (binary_action b)) (rs_binaryrules rs)\<rparr>"

definition normalize_rule_order :: "filter_config \<Rightarrow> filter_config" where
  "normalize_rule_order fc =
     fc\<lparr>rule_list := map normalize_ruleset (sort_key reverse_prio (rule_list fc))\<rparr>"

section \<open>Operations\<close>

definition set_container_config ::
  "string \<Rightarrow> filter_config \<Rightarrow> registry \<Rightarrow> (config_error + unit) \<times> registry" where
  "set_container_config cid fc r =
     (if cid = [] then (Inl FormatError, r)
      else case (case reg_config_validator r of Some validate \<Rightarrow> validate fc | None \<Rightarrow> Inr ()) of
        Inl e \<Rightarrow> (Inl e, r)
      | Inr _ \<Rightarrow>
          (Inr (), r\<lparr>reg_configs := (reg_configs r)(cid \<mapsto> normalize_rule_order fc)\<rparr>))"

definition remove_container_policy :: "string \<Rightarrow> registry \<Rightarrow> (config_error + unit) \<times> registry" where
  "remove_container_policy cid r =
     (case reg_configs r cid of
        None \<Rightarrow> (Inl NotFoundError, r)
      | Some _ \<Rightarrow> (Inr (), r\<lparr>reg_configs := (reg_configs r)(cid := None)\<rparr>))"

definition config_for :: "registry \<Rightarrow> string \<Rightarrow> filter_config option" where
  "config_for r cid = reg_configs r cid"

definition set_container_ca ::
  "string \<Rightarrow> ca_cert \<Rightarrow> registry \<Rightarrow> (ca_error + unit) \<times> registry" where
  "set_container_ca cid ca r =
     (if cid = [] then (Inl CaInvalid, r)
      else case (case reg_ca_validator r of Some validate \<Rightarrow> validate ca | None \<Rightarrow> Inr ()) of
        Inl e \<Rightarrow> (Inl e, r)
      | Inr _ \<Rightarrow> (Inr (), r\<lparr>reg_cas := (reg_cas r)(cid \<mapsto> ca)\<rparr>))"

definition ca_for :: "registry \<Rightarrow> string \<Rightarrow> ca_cert option" where
  "ca_for r cid = reg_cas r cid"

definition register_binary_resolver :: "resolver \<Rightarrow> registry \<Rightarrow> registry" where
  "register_binary_resolver res r = r\<lparr>reg_resolver := Some res\<rparr>"

definition binary_resolver :: "registry \<Rightarrow> resolver option" where
  "binary_resolver r = reg_resolver r"

section \<open>The contract of a gated store\<close>

text \<open>
  Configurations and CAs share one contract: an accepted \<open>put\<close> is seen, in canonical form, under
  its own key only; a rejected one changes nothing; what is accepted never changes.
\<close>

locale gated_store =
  fixes lookup :: "'s \<Rightarrow> 'k \<Rightarrow> 'v option"
    and put :: "'k \<Rightarrow> 'v \<Rightarrow> 's \<Rightarrow> ('e + unit) \<times> 's"
    and gate :: "'s \<Rightarrow> 'k \<Rightarrow> 'v \<Rightarrow> bool"
    and canon :: "'v \<Rightarrow> 'v"
  assumes accepted: "gate s k v \<Longrightarrow>
      fst (put k v s) = Inr () \<and>
      lookup (snd (put k v s)) k' = (if k' = k then Some (canon v) else lookup s k')"
    and rejected: "\<not> gate s k v \<Longrightarrow> snd (put k v s) = s \<and> (\<exists>e. fst (put k v s) = Inl e)"
    and gate_put: "gate (snd (put k v s)) = gate s"
begin

lemma put_lookup:
  "lookup (snd (put k v s)) k' = (if k' = k \<and> gate s k v then Some (canon v) else lookup s k')"
  using accepted [of s k v k'] rejected [of s k v] by (cases "gate s k v") auto

lemma put_accepts_iff: "fst (put k v s) = Inr () \<longleftrightarrow> gate s k v"
  using accepted [of s k v] rejected [of s k v] by (cases "gate s k v") auto

lemma gate_puts: "gate (fold (\<lambda>(k, v) s. snd (put k v s)) kvs s) = gate s"
  by (induction kvs arbitrary: s) (auto simp: gate_put)

lemma puts_lookup:
  "lookup (fold (\<lambda>(k, v) s. snd (put k v s)) kvs s) k =
     (case map_of (rev (filter (\<lambda>(k, v). gate s k v) kvs)) k of
        None \<Rightarrow> lookup s k | Some v \<Rightarrow> Some (canon v))"
  by (induction kvs arbitrary: s)
     (auto simp: put_lookup gate_put map_add_def split: option.splits)

lemma stored_were_accepted:
  "lookup (fold (\<lambda>(k, v) s. snd (put k v s)) kvs s) k = Some w \<Longrightarrow>
     lookup s k = Some w \<or> (\<exists>v. (k, v) \<in> set kvs \<and> gate s k v \<and> w = canon v)"
  by (auto simp: puts_lookup split: option.splits dest!: map_of_SomeD)

end

definition config_gate :: "registry \<Rightarrow> string \<Rightarrow> filter_config \<Rightarrow> bool" where
  "config_gate r cid fc \<longleftrightarrow> cid \<noteq> [] \<and>
     (case reg_config_validator r of None \<Rightarrow> True | Some v \<Rightarrow> v fc = Inr ())"

definition ca_gate :: "registry \<Rightarrow> string \<Rightarrow> ca_cert \<Rightarrow> bool" where
  "ca_gate r cid ca \<longleftrightarrow> cid \<noteq> [] \<and>
     (case reg_ca_validator r of None \<Rightarrow> True | Some v \<Rightarrow> v ca = Inr ())"

lemma set_container_config_validator [simp]:
  "reg_config_validator (snd (set_container_config cid fc r)) = reg_config_validator r"
  by (auto simp: set_container_config_def split: option.split sum.split)

lemma set_container_ca_validator [simp]:
  "reg_ca_validator (snd (set_container_ca cid ca r)) = reg_ca_validator r"
  by (auto simp: set_container_ca_def split: option.split sum.split)

interpretation config_store:
  gated_store config_for set_container_config config_gate normalize_rule_order
proof unfold_locales
  show "config_gate (snd (set_container_config k v s)) = config_gate s" for k v s
    by (simp add: config_gate_def fun_eq_iff)
qed (auto simp: set_container_config_def config_gate_def config_for_def
    split: option.splits sum.splits)

interpretation ca_store: gated_store ca_for set_container_ca ca_gate id
proof unfold_locales
  show "ca_gate (snd (set_container_ca k v s)) = ca_gate s" for k v s
    by (simp add: ca_gate_def fun_eq_iff)
qed (auto simp: set_container_ca_def ca_gate_def ca_for_def split: option.splits sum.splits)

section \<open>The registry as a per-container log\<close>

datatype reg_op =
    SetConfig string filter_config | RemovePolicy string | SetCa string ca_cert
  | RegisterResolver resolver

fun reg_step :: "registry \<Rightarrow> reg_op \<Rightarrow> registry" where
  "reg_step r (SetConfig cid fc) = snd (set_container_config cid fc r)"
| "reg_step r (RemovePolicy cid) = snd (remove_container_policy cid r)"
| "reg_step r (SetCa cid ca) = snd (set_container_ca cid ca r)"
| "reg_step r (RegisterResolver res) = register_binary_resolver res r"

fun config_log :: "(string \<Rightarrow> filter_config \<Rightarrow> bool) \<Rightarrow> string \<Rightarrow> filter_config option \<Rightarrow> reg_op \<Rightarrow>
    filter_config option" where
  "config_log ok cid cur (SetConfig cid' fc) =
     (if cid' = cid \<and> ok cid fc then Some (normalize_rule_order fc) else cur)"
| "config_log ok cid cur (RemovePolicy cid') = (if cid' = cid then None else cur)"
| "config_log ok cid cur _ = cur"

fun ca_log :: "(string \<Rightarrow> ca_cert \<Rightarrow> bool) \<Rightarrow> string \<Rightarrow> ca_cert option \<Rightarrow> reg_op \<Rightarrow> ca_cert option" where
  "ca_log ok cid cur (SetCa cid' ca) = (if cid' = cid \<and> ok cid ca then Some ca else cur)"
| "ca_log ok cid cur _ = cur"

lemma reg_step_gates [simp]:
  "config_gate (reg_step r p) = config_gate r" "ca_gate (reg_step r p) = ca_gate r"
  by (cases p; auto simp: fun_eq_iff config_gate_def ca_gate_def set_container_config_def
      remove_container_policy_def set_container_ca_def register_binary_resolver_def
      split: option.splits sum.splits)+

lemma config_for_step: "config_for (reg_step r p) cid = config_log (config_gate r) cid (config_for r cid) p"
proof (cases p)
  case (SetConfig c fc)
  then show ?thesis by (auto simp: config_store.put_lookup)
next
  case (RemovePolicy c)
  then show ?thesis
    by (auto simp: remove_container_policy_def config_for_def split: option.split)
qed (auto simp: set_container_ca_def register_binary_resolver_def config_for_def
    split: option.splits sum.splits)

lemma ca_for_step: "ca_for (reg_step r p) cid = ca_log (ca_gate r) cid (ca_for r cid) p"
proof (cases p)
  case (SetCa c ca)
  then show ?thesis by (auto simp: ca_store.put_lookup)
qed (auto simp: set_container_config_def remove_container_policy_def register_binary_resolver_def
    ca_for_def split: option.splits sum.splits)

lemma config_for_run:
  "config_for (foldl reg_step r ops) cid =
     foldl (config_log (config_gate r) cid) (config_for r cid) ops"
  by (induction ops arbitrary: r) (simp_all add: config_for_step)

lemma ca_for_run:
  "ca_for (foldl reg_step r ops) cid = foldl (ca_log (ca_gate r) cid) (ca_for r cid) ops"
  by (induction ops arbitrary: r) (simp_all add: ca_for_step)

section \<open>What normalisation gives the engine\<close>

lemma action_rank_eq [simp]: "action_rank a = action_rank b \<longleftrightarrow> a = b"
  by (cases a; cases b) auto

lemma sorted_map_const: "(\<And>x. x \<in> set xs \<Longrightarrow> g x = c) \<Longrightarrow> sorted (map g xs)"
  by (induction xs) auto

lemma sort_action_rank:
  fixes f :: "'a \<Rightarrow> rule_action"
  shows "sort_key (\<lambda>x. action_rank (f x)) xs =
    filter (\<lambda>x. f x = RuleDeny) xs @ filter (\<lambda>x. f x = RuleAlert) xs @
    filter (\<lambda>x. f x = RuleAllow) xs" (is "_ = ?ys")
proof (rule properties_for_sort_key)
  show "mset ?ys = mset xs"
  proof (induction xs)
    case (Cons x xs)
    then show ?case by (cases "f x") auto
  qed simp
  have "sorted (map (\<lambda>x. action_rank (f x)) (filter (\<lambda>x. f x = a) xs))" for a
    by (rule sorted_map_const [of _ _ "action_rank a"]) auto
  then show "sorted (map (\<lambda>x. action_rank (f x)) ?ys)"
    by (auto simp: sorted_append)
  show "filter (\<lambda>x. action_rank (f k) = action_rank (f x)) ?ys =
      filter (\<lambda>x. action_rank (f k) = action_rank (f x)) xs" for k
    by (cases "f k")
       (auto simp: filter_empty_conv eq_commute [of _ "f _"] simp del: action_rank.simps
         intro!: filter_cong)
qed

text \<open>
  The decision of one rule set, stated without any order: a matching denying binary rule, else a
  matching alerting binary rule, else a matching denying, alerting or allowing target rule.
\<close>

definition ruleset_verdict :: "globset \<Rightarrow> request_meta \<Rightarrow> rule_set \<Rightarrow> decision option" where
  "ruleset_verdict build req rs =
     (let bin = (\<lambda>a. \<exists>br \<in> set (rs_binaryrules rs).
                   binary_rule_matches build br (rm_binary_path req) \<and> binary_action br = a);
          tgt = (\<lambda>a. \<exists>tr \<in> set (rs_targetrules rs).
                   target_rule_matches build req tr \<and> target_action tr = a);
          deny = Some (mk_decision Deny BlacklistMatch False (rs_rule_id rs));
          alert = Some (mk_decision Allow BlacklistMatch True (rs_rule_id rs))
      in if \<not> ruleset_matches build req rs then None
         else if bin RuleDeny then deny
         else if bin RuleAlert then alert
         else if tgt RuleDeny then deny
         else if tgt RuleAlert then alert
         else if tgt RuleAllow then Some (mk_decision Allow WhitelistMatch False (rs_rule_id rs))
         else None)"

text \<open>The decision of a list of hits that all carry the same action.\<close>

lemma first_hit_filter_action:
  "first_hit [Hit (f x) i. x \<leftarrow> filter (\<lambda>x. f x = a) xs, P x] =
     (if \<exists>x \<in> set xs. P x \<and> f x = a then Some (hit_decision (Hit a i)) else None)"
  by (induction xs) auto

lemma first_hit_sorted:
  "first_hit [Hit (f x) i. x \<leftarrow> sort_key (\<lambda>x. action_rank (f x)) xs, P x] =
     (if \<exists>x \<in> set xs. P x \<and> f x = RuleDeny then Some (hit_decision (Hit RuleDeny i))
      else if \<exists>x \<in> set xs. P x \<and> f x = RuleAlert then Some (hit_decision (Hit RuleAlert i))
      else if \<exists>x \<in> set xs. P x \<and> f x = RuleAllow then Some (hit_decision (Hit RuleAllow i))
      else None)"
  unfolding sort_action_rank map_append concat_append first_hit_append first_hit_filter_action
  by (simp split: option.split) auto

lemma ruleset_matches_normalize [simp]:
  "ruleset_matches build req (normalize_ruleset rs) = ruleset_matches build req rs"
  by (simp add: ruleset_matches_def normalize_ruleset_def split: host_type.split option.split)

lemma ruleset_hits_normalize:
  "first_hit (ruleset_hits build req (normalize_ruleset rs)) = ruleset_verdict build req rs"
proof -
  let ?P = "\<lambda>br. binary_rule_matches build br (rm_binary_path req) \<and> binary_action br \<noteq> RuleAllow"
  have fields: "rs_rule_id (normalize_ruleset rs) = rs_rule_id rs"
    "rs_binaryrules (normalize_ruleset rs) =
       sort_key (\<lambda>b. action_rank (binary_action b)) (rs_binaryrules rs)"
    "rs_targetrules (normalize_ruleset rs) =
       sort_key (\<lambda>t. action_rank (target_action t)) (rs_targetrules rs)"
    by (simp_all add: normalize_ruleset_def)
  show ?thesis
    unfolding ruleset_hits_def ruleset_matches_normalize fields first_hit_append
    by (simp add: first_hit_append first_hit_sorted ruleset_verdict_def Let_def
        split: option.split cong: conj_cong) auto
qed

text \<open>The engine on a normalised configuration, as a function of the verdicts.\<close>

definition policy_verdict :: "globset \<Rightarrow> request_meta \<Rightarrow> filter_config \<Rightarrow> decision" where
  "policy_verdict build req fc =
     (case List.map_filter (ruleset_verdict build req) (sort_key reverse_prio (rule_list fc)) of
        [] \<Rightarrow> default_decision (default_policy fc)
      | d # _ \<Rightarrow> d)"

lemma first_hit_verdicts:
  "first_hit (concat (map (ruleset_hits build req) (map normalize_ruleset rss))) =
     (case List.map_filter (ruleset_verdict build req) rss of [] \<Rightarrow> None | d # _ \<Rightarrow> Some d)"
  by (induction rss) (simp_all add: first_hit_append ruleset_hits_normalize split: option.split)

lemma evaluate_eq_first_hit:
  "evaluate build g domain m u bp ips port fc =
     (case first_hit (concat (map (ruleset_hits build (mk_request domain m u bp ips port))
        (rule_list fc))) of
        None \<Rightarrow> default_decision (default_policy fc) | Some d \<Rightarrow> d)"
  by (simp add: evaluate_def mk_request_def eval_rulesets_hits)

lemma evaluate_normalized:
  "evaluate build g domain m u bp ips port (normalize_rule_order fc) =
     policy_verdict build (mk_request domain m u bp ips port) fc"
  unfolding evaluate_eq_first_hit
  by (simp add: normalize_rule_order_def first_hit_verdicts policy_verdict_def del: map_map
      split: list.split)

section \<open>Independence of the order in which rules are written\<close>

text \<open>Two rule sets with the same condition and the same rules, in any order and multiplicity.\<close>

definition same_rules :: "rule_set \<Rightarrow> rule_set \<Rightarrow> bool" where
  "same_rules rs rs' \<longleftrightarrow>
     rs_rule_id rs = rs_rule_id rs' \<and> rs_host rs = rs_host rs' \<and>
     set (rs_targetrules rs) = set (rs_targetrules rs') \<and>
     set (rs_binaryrules rs) = set (rs_binaryrules rs')"

lemma ruleset_verdict_same_rules:
  "same_rules rs rs' \<Longrightarrow> ruleset_verdict build req rs = ruleset_verdict build req rs'"
  unfolding same_rules_def ruleset_verdict_def ruleset_matches_def Let_def
  by (elim conjE) (simp only:)

lemma map_filter_list_all2:
  "list_all2 R xs ys \<Longrightarrow> (\<And>x y. R x y \<Longrightarrow> g x = g y) \<Longrightarrow> List.map_filter g xs = List.map_filter g ys"
  by (induction rule: list_all2_induct) (auto split: option.split)

lemma list_all2_insort_key:
  "list_all2 R xs ys \<Longrightarrow> R x y \<Longrightarrow> (\<And>x y. R x y \<Longrightarrow> f x = f y) \<Longrightarrow>
     list_all2 R (insort_key f x xs) (insort_key f y ys)"
  by (induction rule: list_all2_induct) auto

lemma list_all2_sort_key:
  "list_all2 R xs ys \<Longrightarrow> (\<And>x y. R x y \<Longrightarrow> f x = f y) \<Longrightarrow> list_all2 R (sort_key f xs) (sort_key f ys)"
  by (induction rule: list_all2_induct) (auto intro: list_all2_insort_key)

lemma filter_key_mset:
  assumes "mset xs = mset ys" and "distinct (map f xs)"
  shows "filter (\<lambda>x. f k = f x) xs = filter (\<lambda>x. f k = f x) ys"
proof -
  have "mset (filter (\<lambda>x. f k = f x) xs) = mset (filter (\<lambda>x. f k = f x) ys)"
    using assms(1) by (simp add: mset_filter)
  moreover have "length (filter (\<lambda>x. f k = f x) xs) \<le> 1"
    using assms(2) by (induction xs) (auto simp: filter_empty_conv)
  ultimately show ?thesis
    by (cases "filter (\<lambda>x. f k = f x) xs"; cases "filter (\<lambda>x. f k = f x) ys")
       (auto dest: mset_eq_length)
qed

lemma sort_key_mset_distinct:
  assumes "mset xs = mset ys" and "distinct (map f xs)"
  shows "sort_key f xs = sort_key f ys"
proof (rule sym, rule properties_for_sort_key)
  show "mset (sort_key f xs) = mset ys" using assms by simp
  show "filter (\<lambda>x. f k = f x) (sort_key f xs) = filter (\<lambda>x. f k = f x) ys" for k
    using filter_key_mset [OF assms, of k] sort_key_stable [of f "f k" xs]
    by (simp add: eq_commute [of "f k"])
  show "sorted (map f (sort_key f xs))" by simp
qed

text \<open>
  Two configurations that say the same: same default, and the rule sets correspond, up to
  order, with the same rules.
\<close>

definition same_policy :: "filter_config \<Rightarrow> filter_config \<Rightarrow> bool" where
  "same_policy fc fc' \<longleftrightarrow> default_policy fc = default_policy fc' \<and>
     (\<exists>zs. mset zs = mset (rule_list fc) \<and> list_all2 same_rules zs (rule_list fc'))"

lemma policy_verdict_same_policy:
  assumes "same_policy fc fc'" and "distinct (map (\<lambda>rs. host_prio (rs_host rs)) (rule_list fc))"
  shows "policy_verdict build req fc = policy_verdict build req fc'"
proof -
  obtain zs where zs: "mset (rule_list fc) = mset zs" "list_all2 same_rules zs (rule_list fc')"
    using assms(1) by (auto simp: same_policy_def dest: sym)
  have "distinct (map reverse_prio (rule_list fc))"
    using assms(2) by (auto simp: distinct_map inj_on_def reverse_prio_def word_uint_eq_iff)
  then have "sort_key reverse_prio (rule_list fc) = sort_key reverse_prio zs"
    using zs(1) by (rule sort_key_mset_distinct [rotated])
  moreover have "list_all2 same_rules (sort_key reverse_prio zs)
      (sort_key reverse_prio (rule_list fc'))"
    using zs(2) by (rule list_all2_sort_key) (simp add: same_rules_def reverse_prio_def)
  then have "List.map_filter (ruleset_verdict build req) (sort_key reverse_prio zs) =
      List.map_filter (ruleset_verdict build req) (sort_key reverse_prio (rule_list fc'))"
    by (rule map_filter_list_all2) (rule ruleset_verdict_same_rules)
  ultimately show ?thesis
    using assms(1) by (simp add: policy_verdict_def same_policy_def cong: list.case_cong)
qed

section \<open>Properties\<close>

text \<open>
  The registry is, for each container, the log of its own accepted operations: after any
  sequence of operations a container's configuration is the last accepted one (normalised), or
  none after a removal, and its CA the last accepted one; operations on other containers and
  rejected operations (empty id, failed validation) change nothing.
\<close>

theorem registry_is_per_container_log:
  "config_for (foldl reg_step r ops) cid =
     foldl (config_log (config_gate r) cid) (config_for r cid) ops \<and>
   ca_for (foldl reg_step r ops) cid = foldl (ca_log (ca_gate r) cid) (ca_for r cid) ops"
  by (simp add: config_for_run ca_for_run)

text \<open>
  C4. What the engine decides on a stored configuration: for a configuration normalised by the
  registry, evaluation is the verdict of the first rule set, in descending priority (ties in
  configuration order), that has one, where the verdict of a rule set is stated without any
  order: deny before alert among the matching binary rules, then deny before alert before allow
  among the matching target rules.
\<close>

theorem stored_config_decision:
  "evaluate build g domain m u bp ips port (normalize_rule_order fc) =
     policy_verdict build (mk_request domain m u bp ips port) fc"
  by (rule evaluate_normalized)

text \<open>
  The order in which an administrator writes rules does not matter: two configurations that
  contain the same rule sets with the same rules, in any order and with any repetition of rules,
  decide every request alike once stored, provided the priorities of the rule sets are distinct.
\<close>

theorem rule_order_is_irrelevant:
  assumes "same_policy fc fc'" and "distinct (map (\<lambda>rs. host_prio (rs_host rs)) (rule_list fc))"
  shows "evaluate build g domain m u bp ips port (normalize_rule_order fc) =
    evaluate build g domain m u bp ips port (normalize_rule_order fc')"
  by (simp add: evaluate_normalized policy_verdict_same_policy [OF assms])

definition demo_low_ruleset :: rule_set where
  "demo_low_ruleset =
     \<lparr>rs_name = ''rest'', rs_rule_id = None,
      rs_host = \<lparr>host_type_of = HostName, host_addr = None, host_context = Some ''*'', host_prio = 1\<rparr>,
      rs_targetrules = [\<lparr>target_method = ''*'', target_path = ''*'', target_action = RuleDeny\<rparr>],
      rs_binaryrules = [], rs_port = None\<rparr>"

definition demo_config_shuffled :: filter_config where
  "demo_config_shuffled =
     \<lparr>default_policy = PolicyAllow,
      rule_list = [demo_low_ruleset,
                   demo_ruleset\<lparr>rs_targetrules := rev (rs_targetrules demo_ruleset)\<rparr>]\<rparr>"

lemma rule_order_is_irrelevant_witness:
  "evaluate documented_globset ''g'' ''api.example.com'' ''DELETE'' ''/v1/x'' None [] 443
     (normalize_rule_order demo_config_shuffled) =
   evaluate documented_globset ''g'' ''api.example.com'' ''DELETE'' ''/v1/x'' None [] 443
     (normalize_rule_order \<lparr>default_policy = PolicyAllow, rule_list = [demo_ruleset, demo_low_ruleset]\<rparr>)"
proof (rule rule_order_is_irrelevant)
  show "same_policy demo_config_shuffled
      \<lparr>default_policy = PolicyAllow, rule_list = [demo_ruleset, demo_low_ruleset]\<rparr>"
    unfolding same_policy_def
    by (intro conjI exI [of _ "rev (rule_list demo_config_shuffled)"])
       (auto simp: demo_config_shuffled_def same_rules_def)
  show "distinct (map (\<lambda>rs. host_prio (rs_host rs)) (rule_list demo_config_shuffled))"
    by (simp add: demo_config_shuffled_def demo_low_ruleset_def demo_ruleset_def)
qed

end
