(* ===== verification/CertCache.thy ===== *)
theory CertCache
  imports ProxyModel
begin

text \<open>
  The certificate cache of \<^verbatim>\<open>rust/plugins/agentsandbox/proxy/src/cert/mod.rs\<close>: \<open>LruMap\<close> (a hash
  map and a recency list) with \<open>get\<close>, \<open>put\<close>, \<open>clear\<close>.  A put that would index an empty recency
  list panics in the source and is None here.  The lemmas refine it to a recency-ordered
  association list of bounded length.
\<close>

record 'c lru =
  lru_map :: "string \<rightharpoonup> 'c"
  lru_order :: "string list"
  lru_capacity :: nat

definition lru_new :: "nat \<Rightarrow> 'c lru" where
  "lru_new capacity = \<lparr>lru_map = Map.empty, lru_order = [], lru_capacity = max capacity 1\<rparr>"

definition lru_get :: "string \<Rightarrow> 'c lru \<Rightarrow> 'c option \<times> 'c lru" where
  "lru_get d c =
     (case lru_map c d of
        None \<Rightarrow> (None, c)
      | Some hit \<Rightarrow>
          (Some hit,
           if d \<in> set (lru_order c) then c\<lparr>lru_order := remove1 d (lru_order c) @ [d]\<rparr> else c))"

text \<open>The eviction loop: \<open>while order.len() >= capacity { remove(0) }\<close>.\<close>

fun lru_evict :: "nat \<Rightarrow> (string \<rightharpoonup> 'c) \<Rightarrow> string list \<Rightarrow> ((string \<rightharpoonup> 'c) \<times> string list) option" where
  "lru_evict cap m [] = (if cap = 0 then None else Some (m, []))"
| "lru_evict cap m (d # ds) =
     (if length (d # ds) \<ge> cap then lru_evict cap (m(d := None)) ds else Some (m, d # ds))"

definition lru_put :: "string \<Rightarrow> 'c \<Rightarrow> 'c lru \<Rightarrow> 'c lru option" where
  "lru_put d x c =
     (let order = (if lru_map c d \<noteq> None then remove1 d (lru_order c) else lru_order c) in
      case lru_evict (lru_capacity c) (lru_map c) order of
        None \<Rightarrow> None
      | Some (m, ds) \<Rightarrow> Some (c\<lparr>lru_map := m(d \<mapsto> x), lru_order := ds @ [d]\<rparr>))"

definition lru_clear :: "'c lru \<Rightarrow> 'c lru" where
  "lru_clear c = c\<lparr>lru_map := Map.empty, lru_order := []\<rparr>"

definition lru_len :: "'c lru \<Rightarrow> nat" where
  "lru_len c = card (dom (lru_map c))"

section \<open>Invariant and abstraction\<close>

definition lru_inv :: "'c lru \<Rightarrow> bool" where
  "lru_inv c \<longleftrightarrow> distinct (lru_order c) \<and> dom (lru_map c) = set (lru_order c) \<and>
     length (lru_order c) \<le> lru_capacity c \<and> lru_capacity c \<ge> 1"

text \<open>The recency list: least recently used first.\<close>

definition lru_abs :: "'c lru \<Rightarrow> (string \<times> 'c) list" where
  "lru_abs c = map (\<lambda>d. (d, the (lru_map c d))) (lru_order c)"

definition recency_touch :: "string \<Rightarrow> (string \<times> 'c) list \<Rightarrow> (string \<times> 'c) list" where
  "recency_touch d xs =
     (case map_of xs d of None \<Rightarrow> xs | Some x \<Rightarrow> filter (\<lambda>(k, _). k \<noteq> d) xs @ [(d, x)])"

definition recency_put :: "nat \<Rightarrow> string \<Rightarrow> 'c \<Rightarrow> (string \<times> 'c) list \<Rightarrow> (string \<times> 'c) list" where
  "recency_put cap d x xs =
     (let ys = filter (\<lambda>(k, _). k \<noteq> d) xs in drop (Suc (length ys) - cap) ys @ [(d, x)])"

lemma lru_new_facts: "lru_capacity (lru_new n) = max n 1" "lru_abs (lru_new n) = []"
  "lru_map (lru_new n) = Map.empty"
  by (simp_all add: lru_new_def lru_abs_def)

lemma lru_inv_new [simp]: "lru_inv (lru_new n)"
  by (auto simp: lru_inv_def lru_new_def)

lemma lru_inv_clear [simp]: "lru_inv c \<Longrightarrow> lru_inv (lru_clear c)"
  by (auto simp: lru_inv_def lru_clear_def)

lemma lru_len_bound: "lru_inv c \<Longrightarrow> lru_len c = length (lru_order c) \<and> lru_len c \<le> lru_capacity c"
  by (simp add: lru_inv_def lru_len_def distinct_card)

lemma map_of_lru_abs: "lru_inv c \<Longrightarrow> map_of (lru_abs c) d = lru_map c d"
proof -
  assume inv: "lru_inv c"
  have "map_of (map (\<lambda>d. (d, the (lru_map c d))) ds) d =
      (if d \<in> set ds then Some (the (lru_map c d)) else None)" for ds
    by (induction ds) auto
  moreover have "d \<in> set (lru_order c) \<longleftrightarrow> lru_map c d \<noteq> None"
    using inv by (auto simp: lru_inv_def dom_def)
  ultimately show ?thesis by (auto simp: lru_abs_def)
qed

lemma lru_get_result: "fst (lru_get d c) = lru_map c d"
  by (simp add: lru_get_def split: option.split)

lemma lru_get_map [simp]: "lru_map (snd (lru_get d c)) = lru_map c"
  by (simp add: lru_get_def split: option.split)

lemma lru_inv_get: "lru_inv c \<Longrightarrow> lru_inv (snd (lru_get d c))"
  by (auto simp: lru_inv_def lru_get_def length_remove1 split: option.splits)

lemma lru_evict_drop:
  "cap \<ge> 1 \<Longrightarrow> lru_evict cap m ds =
     Some (m |` (- set (take (Suc (length ds) - cap) ds)), drop (Suc (length ds) - cap) ds)"
proof (induction ds arbitrary: m)
  case Nil
  then show ?case by simp
next
  case (Cons d ds)
  show ?case
  proof (cases "length (d # ds) \<ge> cap")
    case True
    then have "Suc (length (d # ds)) - cap = Suc (Suc (length ds) - cap)" by simp
    with True Cons show ?thesis
      by (auto simp: fun_eq_iff restrict_map_def)
  next
    case False
    then show ?thesis by simp
  qed
qed

lemma remove1_filter: "distinct xs \<Longrightarrow> remove1 d xs = filter (\<lambda>k. k \<noteq> d) xs"
  by (simp add: distinct_remove1_removeAll removeAll_filter_not_eq eq_commute)

lemma lru_put_form:
  fixes d :: string
  assumes "lru_inv c"
  defines "ys \<equiv> filter (\<lambda>k. k \<noteq> d) (lru_order c)"
  defines "n \<equiv> Suc (length ys) - lru_capacity c"
  shows "lru_put d x c =
    Some (c\<lparr>lru_map := (lru_map c |` (- set (take n ys)))(d \<mapsto> x), lru_order := drop n ys @ [d]\<rparr>)"
proof -
  have "(if lru_map c d \<noteq> None then remove1 d (lru_order c) else lru_order c) = ys"
    using assms(1) unfolding ys_def
    by (auto simp: lru_inv_def remove1_filter intro!: filter_True [symmetric])
  moreover have "lru_capacity c \<ge> 1" using assms(1) by (simp add: lru_inv_def)
  ultimately show ?thesis
    by (simp add: lru_put_def lru_evict_drop n_def Let_def)
qed

lemma lru_put_inv:
  assumes "lru_inv c"
  shows "\<exists>c'. lru_put d x c = Some c' \<and> lru_inv c'"
proof -
  define ys where "ys = filter (\<lambda>k. k \<noteq> d) (lru_order c)"
  define n where "n = Suc (length ys) - lru_capacity c"
  have "set ys = dom (lru_map c) - {d}" "distinct ys"
    using assms by (auto simp: ys_def lru_inv_def)
  moreover from \<open>distinct ys\<close> have "set (drop n ys) = set ys - set (take n ys)"
    using set_take_disj_set_drop_if_distinct [of ys n n] set_append [of "take n ys" "drop n ys"]
    by (auto simp only: append_take_drop_id order_refl)
  moreover have "Suc (length ys - n) \<le> lru_capacity c"
    using assms by (auto simp: n_def lru_inv_def)
  moreover have "d \<notin> set (drop n ys)"
    by (auto simp: ys_def dest: in_set_dropD)
  moreover have "lru_capacity c \<ge> 1" using assms by (simp add: lru_inv_def)
  ultimately have
    "insert d (dom (lru_map c) \<inter> - set (take n ys)) = insert d (set (drop n ys))"
    "distinct (drop n ys)" "d \<notin> set (drop n ys)" "length (drop n ys @ [d]) \<le> lru_capacity c"
    "lru_capacity c \<ge> 1"
    by auto
  then show ?thesis
    unfolding lru_put_form [OF assms, of d, folded ys_def, folded n_def] lru_inv_def
    by (simp add: dom_restrict del: length_append)
qed

lemma lru_abs_get:
  assumes "lru_inv c"
  shows "lru_abs (snd (lru_get d c)) = recency_touch d (lru_abs c)"
proof (cases "lru_map c d")
  case None
  then show ?thesis by (simp add: recency_touch_def map_of_lru_abs [OF assms] lru_get_def)
next
  case (Some x)
  moreover from this have "d \<in> set (lru_order c)" "distinct (lru_order c)"
    using assms by (auto simp: lru_inv_def)
  ultimately show ?thesis
    by (simp add: recency_touch_def map_of_lru_abs [OF assms] lru_get_def)
      (simp add: lru_abs_def filter_map remove1_filter comp_def)
qed

lemma lru_abs_put:
  assumes "lru_inv c"
  shows "map_option lru_abs (lru_put d x c) = Some (recency_put (lru_capacity c) d x (lru_abs c))"
proof -
  define ys where "ys = filter (\<lambda>k. k \<noteq> d) (lru_order c)"
  define n where "n = Suc (length ys) - lru_capacity c"
  have ys: "distinct ys" "d \<notin> set ys" using assms by (auto simp: ys_def lru_inv_def)
  have fs: "filter (\<lambda>(k, _). k \<noteq> d) (lru_abs c) = map (\<lambda>k. (k, the (lru_map c k))) ys"
    by (simp add: lru_abs_def ys_def filter_map comp_def)
  have "k \<in> set (drop n ys) \<Longrightarrow> k \<notin> set (take n ys) \<and> k \<noteq> d" for k
    using set_take_disj_set_drop_if_distinct [OF ys(1) order_refl, of n] ys(2)
    by (auto dest: in_set_dropD)
  then show ?thesis
    unfolding lru_put_form [OF assms, of d, folded ys_def, folded n_def] recency_put_def fs
    by (simp add: lru_abs_def n_def [symmetric] ys_def [symmetric] drop_map restrict_map_def)
qed

section \<open>Operation sequences\<close>

datatype 'c lru_op = Get string | Put string 'c | Clear

fun lru_step :: "'c lru \<Rightarrow> 'c lru_op \<Rightarrow> 'c lru option" where
  "lru_step c (Get d) = Some (snd (lru_get d c))"
| "lru_step c (Put d x) = lru_put d x c"
| "lru_step c Clear = Some (lru_clear c)"

fun lru_run :: "'c lru \<Rightarrow> 'c lru_op list \<Rightarrow> 'c lru option" where
  "lru_run c [] = Some c"
| "lru_run c (p # ps) = (case lru_step c p of None \<Rightarrow> None | Some c' \<Rightarrow> lru_run c' ps)"

fun recency_step :: "nat \<Rightarrow> (string \<times> 'c) list \<Rightarrow> 'c lru_op \<Rightarrow> (string \<times> 'c) list" where
  "recency_step cap xs (Get d) = recency_touch d xs"
| "recency_step cap xs (Put d x) = recency_put cap d x xs"
| "recency_step cap xs Clear = []"

lemma lru_step_refines:
  assumes "lru_inv c"
  shows "\<exists>c'. lru_step c p = Some c' \<and> lru_inv c' \<and> lru_capacity c' = lru_capacity c \<and>
    lru_abs c' = recency_step (lru_capacity c) (lru_abs c) p"
proof (cases p)
  case (Get d)
  then show ?thesis
    using assms lru_inv_get [OF assms] lru_abs_get [OF assms]
    by (auto simp: lru_get_def split: option.split)
next
  case (Put d x)
  obtain c' where c': "lru_put d x c = Some c'" "lru_inv c'" using lru_put_inv [OF assms] by blast
  moreover have "lru_capacity c' = lru_capacity c"
    using c'(1) by (auto simp: lru_put_form [OF assms])
  ultimately show ?thesis using Put lru_abs_put [OF assms, of d x] by simp
next
  case Clear
  then show ?thesis using assms by (auto simp: lru_clear_def lru_inv_def lru_abs_def)
qed

lemma lru_run_refines:
  "lru_inv c \<Longrightarrow> \<exists>c'. lru_run c ps = Some c' \<and> lru_inv c' \<and> lru_capacity c' = lru_capacity c \<and>
     lru_abs c' = foldl (recency_step (lru_capacity c)) (lru_abs c) ps"
proof (induction ps arbitrary: c)
  case (Cons p ps)
  obtain c' where c': "lru_step c p = Some c'" "lru_inv c'" "lru_capacity c' = lru_capacity c"
      "lru_abs c' = recency_step (lru_capacity c) (lru_abs c) p"
    using lru_step_refines [OF Cons.prems] by blast
  show ?case using Cons.IH [OF c'(2)] by (simp add: c')
qed simp

text \<open>
  The certificate cache is a least-recently-used cache: from a new cache of any capacity
  (zero is clamped to one), every sequence of gets, puts and clears runs without the eviction
  loop ever indexing an empty list, leaves at most the capacity of entries, keeps map and
  recency list in step, and equals the abstract recency list in which a hit or a put moves the
  entry to the recent end and overflow drops from the old end.
\<close>

theorem cert_cache_is_lru:
  "\<exists>c. lru_run (lru_new capacity) ops = Some c \<and> lru_inv c \<and> lru_len c \<le> max capacity 1 \<and>
     (\<forall>d. lru_map c d = map_of (lru_abs c) d) \<and>
     lru_abs c = foldl (recency_step (max capacity 1)) [] ops"
proof -
  obtain c where c: "lru_run (lru_new capacity) ops = Some c" "lru_inv c"
      "lru_capacity c = max capacity 1"
      "lru_abs c = foldl (recency_step (max capacity 1)) [] ops"
    using lru_run_refines [OF lru_inv_new, of capacity ops] by (auto simp: lru_new_facts)
  then show ?thesis
    using lru_len_bound [OF c(2)] map_of_lru_abs [OF c(2)] by (intro exI [of _ c]) simp
qed

end
