(* ===== verification/CertService.thy ===== *)
theory CertService
  imports CertCache
begin

text \<open>
  The certificate services of \<^verbatim>\<open>rust/plugins/agentsandbox/proxy/src/cert/mod.rs\<close>: CA parsing,
  leaf issuing, and \<open>CertService::certificate_for\<close> with its generation guard, under interleaving
  of any number of connections with CA replacements.  The cryptographic crates (\<open>rustls_pemfile\<close>,
  \<open>rcgen\<close>, \<open>x509_parser\<close>) are the fields of the parameter \<open>pki\<close>; nothing is assumed of them.

  One step of the model is one critical section of the source: the cache lookup, the snapshot of
  issuer and generation, the issuing (outside every lock), and the guarded insertion (the
  service lock is held across the comparison and the put; \<open>set_ca\<close> holds it across the clear).
\<close>

section \<open>CA material\<close>

datatype sign_algo = EcdsaP256 | Rsa
datatype key_der = Pkcs8Der bytes | OtherKeyDer bytes

record pki =
  pem_certs :: "bytes \<Rightarrow> (unit + bytes) list"
  pem_private_key :: "bytes \<Rightarrow> unit + key_der option"
  keypair_of :: "sign_algo \<Rightarrow> bytes \<Rightarrow> bytes option"
  ca_params :: "bytes \<Rightarrow> bytes option"
  self_signed :: "bytes \<Rightarrow> bytes \<Rightarrow> bytes option"
  spki :: "bytes \<Rightarrow> bytes option"
  public_key :: "bytes \<Rightarrow> bytes"
  generate_key :: "nat \<Rightarrow> bytes option"
  leaf_params :: "string \<Rightarrow> bytes option"
  empty_dn :: "bytes \<Rightarrow> bytes"
  signed_by :: "bytes \<Rightarrow> bytes \<Rightarrow> bytes \<Rightarrow> bytes \<Rightarrow> bytes option"
  key_to_der :: "bytes \<Rightarrow> bytes"

record parsed_ca =
  pca_cert :: bytes
  pca_key :: bytes
  pca_original_der :: bytes

record issued_cert =
  ic_chain :: "bytes list"
  ic_key :: bytes

datatype cert_error = CertError

definition opt_or :: "'e \<Rightarrow> 'a option \<Rightarrow> 'e + 'a" where
  "opt_or e x = (case x of None \<Rightarrow> Inl e | Some y \<Rightarrow> Inr y)"

lemma opt_or_Inr [simp]: "opt_or e x = Inr y \<longleftrightarrow> x = Some y"
  by (cases x) (auto simp: opt_or_def)

definition parse_pkcs8_key :: "pki \<Rightarrow> bytes \<Rightarrow> ca_error + bytes" where
  "parse_pkcs8_key pk der =
     (case keypair_of pk EcdsaP256 der of
        Some k \<Rightarrow> Inr k
      | None \<Rightarrow> (case keypair_of pk Rsa der of Some k \<Rightarrow> Inr k | None \<Rightarrow> Inl CaInvalid))"

definition first_cert :: "(unit + bytes) list \<Rightarrow> bytes option" where
  "first_cert rs = (case rs of Inr der # _ \<Rightarrow> Some der | _ \<Rightarrow> None)"

definition parse_ca :: "pki \<Rightarrow> bytes \<Rightarrow> bytes \<Rightarrow> ca_error + parsed_ca" where
  "parse_ca pk cert_pem_bytes key_pem_bytes =
     rbind (opt_or CaInvalid (first_cert (pem_certs pk cert_pem_bytes))) (\<lambda>cert_der.
     rbind (case pem_private_key pk key_pem_bytes of
              Inr (Some k) \<Rightarrow> Inr k | _ \<Rightarrow> Inl CaInvalid) (\<lambda>key.
     rbind (case key of Pkcs8Der der \<Rightarrow> Inr der | _ \<Rightarrow> Inl CaInvalid) (\<lambda>pkcs8.
     rbind (parse_pkcs8_key pk pkcs8) (\<lambda>kp.
     rbind (opt_or CaInvalid (ca_params pk cert_der)) (\<lambda>params.
     rbind (opt_or CaInvalid (self_signed pk params kp)) (\<lambda>signer.
     rbind (opt_or CaInvalid (spki pk cert_der)) (\<lambda>raw.
       if raw \<noteq> public_key pk kp then Inl CaInvalid
       else Inr \<lparr>pca_cert = signer, pca_key = kp, pca_original_der = cert_der\<rparr>)))))))"

definition issue :: "pki \<Rightarrow> parsed_ca \<Rightarrow> string \<Rightarrow> nat \<Rightarrow> cert_error + issued_cert" where
  "issue pk ca domain entropy =
     (if domain = [] \<or> CHR ''/'' \<in> set domain \<or> contains_whitespace domain then Inl CertError
      else
        rbind (opt_or CertError (generate_key pk entropy)) (\<lambda>leaf_key.
        rbind (opt_or CertError (leaf_params pk domain)) (\<lambda>params.
        rbind (opt_or CertError
          (signed_by pk (empty_dn pk params) leaf_key (pca_cert ca) (pca_key ca))) (\<lambda>leaf.
          Inr \<lparr>ic_chain = [leaf, pca_original_der ca], ic_key = key_to_der pk leaf_key\<rparr>))))"

section \<open>The service\<close>

text \<open>\<open>ca_history\<close> is a ghost: the CAs set so far.  \<open>svc_generation\<close> is the counter the code has.\<close>

datatype phase =
    LookingUp string
  | Missed string
  | Snapshot string parsed_ca u64
  | Issued string issued_cert u64
  | Returned string "cert_error + issued_cert"
  | Panicked

record cert_service =
  svc_issuer :: "parsed_ca option"
  svc_generation :: u64
  svc_cache :: "issued_cert lru"
  svc_calls :: "nat \<Rightarrow> phase option"
  ca_history :: "parsed_ca list"

definition cert_service_new :: "nat \<Rightarrow> cert_service" where
  "cert_service_new capacity =
     \<lparr>svc_issuer = None, svc_generation = 0, svc_cache = lru_new capacity,
      svc_calls = (\<lambda>_. None), ca_history = []\<rparr>"

definition service_set_ca :: "parsed_ca \<Rightarrow> cert_service \<Rightarrow> cert_service" where
  "service_set_ca ca s =
     s\<lparr>svc_issuer := Some ca, svc_generation := svc_generation s + 1,
       svc_cache := lru_clear (svc_cache s), ca_history := ca_history s @ [ca]\<rparr>"

definition has_ca :: "cert_service \<Rightarrow> bool" where
  "has_ca s \<longleftrightarrow> svc_issuer s \<noteq> None"

abbreviation set_call :: "nat \<Rightarrow> phase \<Rightarrow> cert_service \<Rightarrow> cert_service" where
  "set_call t p s \<equiv> s\<lparr>svc_calls := (svc_calls s)(t := Some p)\<rparr>"

text \<open>\<open>certificate_for\<close>, one critical section at a time; \<open>entropy\<close> feeds the key generation.\<close>

definition certificate_for_step :: "pki \<Rightarrow> nat \<Rightarrow> nat \<Rightarrow> cert_service \<Rightarrow> cert_service" where
  "certificate_for_step pk t entropy s =
     (case svc_calls s t of
        Some (LookingUp domain) \<Rightarrow>
          (case lru_get domain (svc_cache s) of
             (Some hit, cache) \<Rightarrow> set_call t (Returned domain (Inr hit)) (s\<lparr>svc_cache := cache\<rparr>)
           | (None, cache) \<Rightarrow> set_call t (Missed domain) (s\<lparr>svc_cache := cache\<rparr>))
      | Some (Missed domain) \<Rightarrow>
          (case svc_issuer s of
             Some ca \<Rightarrow> set_call t (Snapshot domain ca (svc_generation s)) s
           | None \<Rightarrow> set_call t (Returned domain (Inl CertError)) s)
      | Some (Snapshot domain ca generation) \<Rightarrow>
          (case issue pk ca domain entropy of
             Inl e \<Rightarrow> set_call t (Returned domain (Inl e)) s
           | Inr cert \<Rightarrow> set_call t (Issued domain cert generation) s)
      | Some (Issued domain cert generation) \<Rightarrow>
          (if svc_generation s = generation then
             (case lru_put domain cert (svc_cache s) of
                None \<Rightarrow> set_call t Panicked s
              | Some cache \<Rightarrow> set_call t (Returned domain (Inr cert)) (s\<lparr>svc_cache := cache\<rparr>))
           else set_call t (Returned domain (Inr cert)) s)
      | _ \<Rightarrow> s)"

datatype cert_event = ReplaceCa parsed_ca | Call nat string | Step nat nat

fun cert_step :: "pki \<Rightarrow> cert_service \<Rightarrow> cert_event \<Rightarrow> cert_service" where
  "cert_step pk s (ReplaceCa ca) = service_set_ca ca s"
| "cert_step pk s (Call t domain) =
     (if svc_calls s t = None then set_call t (LookingUp domain) s else s)"
| "cert_step pk s (Step t entropy) = certificate_for_step pk t entropy s"

definition cert_run :: "pki \<Rightarrow> nat \<Rightarrow> cert_event list \<Rightarrow> cert_service" where
  "cert_run pk capacity evs = foldl (cert_step pk) (cert_service_new capacity) evs"

section \<open>Invariant\<close>

definition issued_for :: "pki \<Rightarrow> parsed_ca \<Rightarrow> string \<Rightarrow> issued_cert \<Rightarrow> bool" where
  "issued_for pk ca domain cert \<longleftrightarrow> (\<exists>entropy. issue pk ca domain entropy = Inr cert)"

text \<open>Generation \<open>g\<close> names the CA \<open>ca\<close>: the \<open>k\<close>-th of the history, counted modulo the width.\<close>

definition names_ca :: "cert_service \<Rightarrow> u64 \<Rightarrow> parsed_ca \<Rightarrow> bool" where
  "names_ca s g ca \<longleftrightarrow>
     (\<exists>k < length (ca_history s). g = word_of_nat (Suc k) \<and> ca_history s ! k = ca)"

fun phase_ok :: "pki \<Rightarrow> cert_service \<Rightarrow> phase \<Rightarrow> bool" where
  "phase_ok pk s (LookingUp _) \<longleftrightarrow> True"
| "phase_ok pk s (Missed _) \<longleftrightarrow> True"
| "phase_ok pk s (Snapshot d ca g) \<longleftrightarrow> names_ca s g ca"
| "phase_ok pk s (Issued d c g) \<longleftrightarrow> (\<exists>ca. names_ca s g ca \<and> issued_for pk ca d c)"
| "phase_ok pk s (Returned d (Inr c)) \<longleftrightarrow> (\<exists>ca \<in> set (ca_history s). issued_for pk ca d c)"
| "phase_ok pk s (Returned d (Inl _)) \<longleftrightarrow> True"
| "phase_ok pk s Panicked \<longleftrightarrow> False"

definition service_inv :: "pki \<Rightarrow> cert_service \<Rightarrow> bool" where
  "service_inv pk s \<longleftrightarrow>
     lru_inv (svc_cache s) \<and>
     svc_generation s = word_of_nat (length (ca_history s)) \<and>
     svc_issuer s = (if ca_history s = [] then None else Some (last (ca_history s))) \<and>
     (\<forall>d c. lru_map (svc_cache s) d = Some c \<longrightarrow>
        (\<exists>ca. svc_issuer s = Some ca \<and> issued_for pk ca d c)) \<and>
     (\<forall>t p. svc_calls s t = Some p \<longrightarrow> phase_ok pk s p)"

lemma names_ca_mono: "names_ca s g ca \<Longrightarrow> ca_history s' = ca_history s @ xs \<Longrightarrow> names_ca s' g ca"
  unfolding names_ca_def by (metis length_append nth_append trans_less_add1)

lemma phase_ok_mono:
  assumes "phase_ok pk s p" and "ca_history s' = ca_history s @ xs"
  shows "phase_ok pk s' p"
proof (cases p)
  case (Returned d r)
  with assms show ?thesis by (cases r) auto
qed (use assms in \<open>auto dest: names_ca_mono\<close>)

lemma names_ca_history: "names_ca s g ca \<Longrightarrow> ca \<in> set (ca_history s)"
  by (auto simp: names_ca_def)

text \<open>Fewer than \<open>2 ^ 64\<close> replacements: an equal generation is the current CA.\<close>

lemma names_ca_current:
  assumes "names_ca s g ca" and "g = word_of_nat (length (ca_history s))"
    and "length (ca_history s) < 2 ^ 64"
  shows "ca_history s \<noteq> [] \<and> ca = last (ca_history s)"
proof -
  obtain k where k: "k < length (ca_history s)" "g = word_of_nat (Suc k)" "ca_history s ! k = ca"
    using assms(1) by (auto simp: names_ca_def)
  have "unat (word_of_nat (Suc k) :: u64) = unat (word_of_nat (length (ca_history s)) :: u64)"
    using k(2) assms(2) by simp
  then have "Suc k = length (ca_history s)"
    using k(1) assms(3) by (simp add: unat_word_ariths unat_of_nat)
  with k show ?thesis by (cases "ca_history s" rule: rev_cases) (auto simp: nth_append)
qed

lemma service_inv_new: "service_inv pk (cert_service_new n)"
  by (simp add: service_inv_def cert_service_new_def lru_new_facts)

lemma service_inv_set_ca: "service_inv pk s \<Longrightarrow> service_inv pk (service_set_ca ca s)"
proof -
  assume inv: "service_inv pk s"
  have "phase_ok pk (service_set_ca ca s) p" if "svc_calls s t = Some p" for t p
    using inv that phase_ok_mono [of pk s p "service_set_ca ca s" "[ca]"]
    by (auto simp: service_inv_def service_set_ca_def)
  then show ?thesis
    using inv by (auto simp: service_inv_def service_set_ca_def lru_clear_def [of "svc_cache s"]
        lru_inv_clear [of "svc_cache s", unfolded lru_clear_def] algebra_simps)
qed

text \<open>A step that only moves one call, or also changes the cache, keeps the rest.\<close>

lemma service_inv_move:
  assumes "service_inv pk s" and "phase_ok pk s p" and "lru_inv c"
    and "\<And>d x. lru_map c d = Some x \<Longrightarrow> \<exists>ca. svc_issuer s = Some ca \<and> issued_for pk ca d x"
  shows "service_inv pk (set_call t p (s\<lparr>svc_cache := c\<rparr>))"
proof -
  let ?s = "set_call t p (s\<lparr>svc_cache := c\<rparr>)"
  have "phase_ok pk ?s q" if "phase_ok pk s q" for q
    using that phase_ok_mono [of pk s q ?s "[]"] by simp
  then show ?thesis using assms by (auto simp: service_inv_def)
qed

lemma service_inv_move_only:
  assumes "service_inv pk s" and "phase_ok pk s p"
  shows "service_inv pk (set_call t p s)"
proof -
  have "phase_ok pk (set_call t p s) q" if "phase_ok pk s q" for q
    using that phase_ok_mono [of pk s q "set_call t p s" "[]"] by simp
  then show ?thesis using assms by (auto simp: service_inv_def)
qed

lemma cache_after_put:
  "lru_inv c \<Longrightarrow> lru_put d x c = Some c' \<Longrightarrow> lru_map c' k = Some y \<Longrightarrow>
     (k = d \<and> y = x) \<or> lru_map c k = Some y"
  by (auto simp: lru_put_form restrict_map_def split: if_splits)

lemma history_current:
  assumes "service_inv pk s" and "svc_issuer s = Some ca"
  shows "ca_history s \<noteq> [] \<and> ca = last (ca_history s) \<and> names_ca s (svc_generation s) ca"
proof (cases "ca_history s" rule: rev_cases)
  case Nil
  then show ?thesis using assms by (simp add: service_inv_def)
next
  case (snoc cas c)
  then show ?thesis
    using assms by (auto simp: service_inv_def names_ca_def intro!: exI [of _ "length cas"])
qed

lemma certificate_for_step_inv:
  assumes inv: "service_inv pk s" and bound: "length (ca_history s) < 2 ^ 64"
  shows "service_inv pk (certificate_for_step pk t entropy s)"
proof (cases "svc_calls s t")
  case None
  then show ?thesis using inv by (simp add: certificate_for_step_def)
next
  case (Some p)
  have p: "phase_ok pk s p" using inv Some by (auto simp: service_inv_def)
  have lru: "lru_inv (svc_cache s)" using inv by (simp add: service_inv_def)
  have cached: "lru_map (svc_cache s) d = Some x \<Longrightarrow>
      \<exists>ca. svc_issuer s = Some ca \<and> issued_for pk ca d x" for d x
    using inv by (auto simp: service_inv_def)
  show ?thesis
  proof (cases p)
    case (LookingUp d)
    obtain r c where g: "lru_get d (svc_cache s) = (r, c)" by (cases "lru_get d (svc_cache s)")
    have c: "lru_inv c" "lru_map c = lru_map (svc_cache s)" "r = lru_map (svc_cache s) d"
      using lru_inv_get [OF lru, of d] lru_get_map [of d "svc_cache s"]
        lru_get_result [of d "svc_cache s"] by (simp_all add: g)
    show ?thesis
    proof (cases r)
      case None
      then show ?thesis
        using service_inv_move [OF inv _ c(1)] cached
        by (simp add: certificate_for_step_def Some LookingUp g c(2))
    next
      case (Some x)
      with c(3) cached obtain ca where "svc_issuer s = Some ca" "issued_for pk ca d x" by metis
      then have "phase_ok pk s (Returned d (Inr x))"
        using history_current [OF inv] by auto
      then show ?thesis
        using service_inv_move [OF inv _ c(1)] cached Some
        by (simp add: certificate_for_step_def \<open>svc_calls s t = Some p\<close> LookingUp g c(2))
    qed
  next
    case (Missed d)
    then show ?thesis
      using history_current [OF inv]
      by (auto simp: certificate_for_step_def Some split: option.split
          intro!: service_inv_move_only [OF inv])
  next
    case (Snapshot d ca g)
    with p have "issue pk ca d entropy = Inr x \<Longrightarrow> phase_ok pk s (Issued d x g)" for x
      by (auto simp: issued_for_def)
    then show ?thesis
      by (auto simp: certificate_for_step_def Some Snapshot split: sum.split
          intro!: service_inv_move_only [OF inv])
  next
    case (Issued d x g)
    with p obtain ca where ca: "names_ca s g ca" "issued_for pk ca d x" by auto
    have ret: "phase_ok pk s (Returned d (Inr x))" using ca names_ca_history by auto
    show ?thesis
    proof (cases "svc_generation s = g")
      case True
      obtain c where c: "lru_put d x (svc_cache s) = Some c" "lru_inv c"
        using lru_put_inv [OF lru] by blast
      have "ca_history s \<noteq> []" "ca = last (ca_history s)"
        using names_ca_current [OF ca(1) _ bound] True inv by (auto simp: service_inv_def)
      then have "svc_issuer s = Some ca" using inv by (simp add: service_inv_def)
      then have "\<And>k y. lru_map c k = Some y \<Longrightarrow> \<exists>ca. svc_issuer s = Some ca \<and> issued_for pk ca k y"
        using cache_after_put [OF lru c(1)] ca(2) cached by metis
      then show ?thesis
        using service_inv_move [OF inv ret c(2)] True
        by (simp add: certificate_for_step_def Some Issued c(1))
    next
      case False
      then show ?thesis
        using service_inv_move_only [OF inv ret] by (simp add: certificate_for_step_def Some Issued)
    qed
  qed (use inv in \<open>simp_all add: certificate_for_step_def Some\<close>)
qed

section \<open>Runs\<close>

lemma cert_step_history: "length (ca_history s) \<le> length (ca_history (cert_step pk s ev))"
  by (cases ev)
     (auto simp: service_set_ca_def certificate_for_step_def split: option.split phase.split
       sum.split prod.split)

lemma cert_run_history:
  "length (ca_history s) \<le> length (ca_history (foldl (cert_step pk) s evs))"
proof (induction evs arbitrary: s)
  case (Cons ev evs)
  show ?case using cert_step_history [of s pk ev] Cons [of "cert_step pk s ev"] by simp
qed simp

lemma cert_step_inv:
  "service_inv pk s \<Longrightarrow> length (ca_history s) < 2 ^ 64 \<Longrightarrow> service_inv pk (cert_step pk s ev)"
  by (cases ev)
     (simp_all add: service_inv_set_ca service_inv_move_only certificate_for_step_inv)

lemma cert_run_inv:
  "service_inv pk s \<Longrightarrow> length (ca_history (foldl (cert_step pk) s evs)) < 2 ^ 64 \<Longrightarrow>
     service_inv pk (foldl (cert_step pk) s evs)"
proof (induction evs arbitrary: s)
  case (Cons ev evs)
  have "length (ca_history s) < 2 ^ 64"
    using cert_run_history [of s pk "ev # evs"] Cons.prems(2) by simp
  then show ?case
    using Cons.IH [OF cert_step_inv [OF Cons.prems(1)]] Cons.prems(2) by simp
qed simp

section \<open>Properties\<close>

text \<open>
  C6. Whatever the interleaving of connections with CA replacements (fewer than \<open>2 ^ 64\<close> of
  them, the width of the generation counter), the cache holds under a domain only a certificate
  issued for that domain by the CA now set, never one of a replaced CA; a returned certificate
  was issued for the requested domain by a CA that was set; and no call panics.
\<close>

theorem certificates_follow_current_ca:
  assumes "length (ca_history (cert_run pk capacity evs)) < 2 ^ 64"
  defines "s \<equiv> cert_run pk capacity evs"
  shows "(\<forall>d c. lru_map (svc_cache s) d = Some c \<longrightarrow>
           (\<exists>ca. svc_issuer s = Some ca \<and> issued_for pk ca d c)) \<and>
         (\<forall>t d c. svc_calls s t = Some (Returned d (Inr c)) \<longrightarrow>
           (\<exists>ca \<in> set (ca_history s). issued_for pk ca d c)) \<and>
         (\<forall>t. svc_calls s t \<noteq> Some Panicked) \<and>
         lru_len (svc_cache s) \<le> lru_capacity (svc_cache s)"
proof -
  have inv: "service_inv pk s"
    unfolding s_def cert_run_def
    by (rule cert_run_inv [OF service_inv_new]) (use assms(1) in \<open>simp add: cert_run_def\<close>)
  then have calls: "svc_calls s t = Some p \<Longrightarrow> phase_ok pk s p" for t p
    by (simp add: service_inv_def)
  have "lru_inv (svc_cache s)" using inv by (simp add: service_inv_def)
  moreover have "svc_calls s t = Some (Returned d (Inr c)) \<Longrightarrow>
      \<exists>ca \<in> set (ca_history s). issued_for pk ca d c" for t d c
    using calls by fastforce
  moreover have "svc_calls s t \<noteq> Some Panicked" for t using calls by fastforce
  moreover have "\<forall>d c. lru_map (svc_cache s) d = Some c \<longrightarrow>
      (\<exists>ca. svc_issuer s = Some ca \<and> issued_for pk ca d c)"
    using inv unfolding service_inv_def by blast
  ultimately show ?thesis
    using lru_len_bound [of "svc_cache s"] by blast
qed

text \<open>A concrete PKI: a certificate is the bytes of its key; leaf keys are one byte of entropy.\<close>

definition demo_pki :: pki where
  "demo_pki =
     \<lparr>pem_certs = (\<lambda>b. [Inr b]), pem_private_key = (\<lambda>b. Inr (Some (Pkcs8Der b))),
      keypair_of = (\<lambda>_ b. Some b), ca_params = Some, self_signed = (\<lambda>p k. Some k), spki = Some,
      public_key = id, generate_key = (\<lambda>n. Some [of_nat n]), leaf_params = (\<lambda>d. Some []),
      empty_dn = id, signed_by = (\<lambda>p k c ck. Some (k @ ck)), key_to_der = id\<rparr>"

definition demo_ca :: "nat \<Rightarrow> parsed_ca" where
  "demo_ca n = \<lparr>pca_cert = [of_nat n], pca_key = [of_nat n], pca_original_der = [of_nat n]\<rparr>"

text \<open>A connection takes its snapshot under the first CA, finishes under the second.\<close>

definition demo_cert_events :: "cert_event list" where
  "demo_cert_events =
     [ReplaceCa (demo_ca 1), Call 0 ''a.com'', Step 0 0, Step 0 0, Step 0 7, ReplaceCa (demo_ca 2), Step 0 0,
      Call 1 ''a.com'', Step 1 0, Step 1 0, Step 1 9, Step 1 0]"

lemma certificates_follow_current_ca_witness:
  "lru_map (svc_cache (cert_run demo_pki 4 demo_cert_events)) ''a.com'' =
     Some \<lparr>ic_chain = [[9, 2], [2]], ic_key = [9]\<rparr> \<and>
   svc_calls (cert_run demo_pki 4 demo_cert_events) 0 =
     Some (Returned ''a.com'' (Inr \<lparr>ic_chain = [[7, 1], [1]], ic_key = [7]\<rparr>)) \<and>
   svc_calls (cert_run demo_pki 4 demo_cert_events) 1 \<noteq> Some Panicked"
proof -
  have "length (ca_history (cert_run demo_pki 4 demo_cert_events)) = 2" by code_simp
  then have "svc_calls (cert_run demo_pki 4 demo_cert_events) 1 \<noteq> Some Panicked"
    using certificates_follow_current_ca [of demo_pki 4 demo_cert_events] by simp
  moreover have "lru_map (svc_cache (cert_run demo_pki 4 demo_cert_events)) ''a.com'' =
     Some \<lparr>ic_chain = [[9, 2], [2]], ic_key = [9]\<rparr>" by code_simp
  moreover have "svc_calls (cert_run demo_pki 4 demo_cert_events) 0 =
     Some (Returned ''a.com'' (Inr \<lparr>ic_chain = [[7, 1], [1]], ic_key = [7]\<rparr>))" by code_simp
  ultimately show ?thesis by simp
qed

end
