(* ===== verification/Facade.thy ===== *)
theory Facade
  imports Registry CertService
begin

text \<open>
  \<^verbatim>\<open>rust/plugins/agentsandbox/proxy/src/facade/mod.rs\<close>: the public interface of the proxy.  The
  structural validation of filter configurations, the container-keyed operations over registry
  and certificate services, the parsing of the upstream-proxy variables, and the one-shot
  \<open>proxy_init\<close>.  The environment, the socket calls and the result of the inference library's
  initialisation are fields of the parameter \<open>init_env\<close>.
\<close>

section \<open>Validation of filter configurations\<close>

definition is_valid_glob_pattern :: "string \<Rightarrow> bool" where
  "is_valid_glob_pattern pattern \<longleftrightarrow> pattern \<noteq> [] \<and> count_list pattern star \<le> 1"

definition is_valid_ip_pattern :: "string \<Rightarrow> bool" where
  "is_valid_ip_pattern pattern =
     (let (addr_str, prefix_str) =
        (case split_once (CHR ''/'') pattern of
           Some (a, p) \<Rightarrow> (a, Some p)
         | None \<Rightarrow> (pattern, None))
      in case parse_ip addr_str of
        None \<Rightarrow> False
      | Some ip \<Rightarrow>
          (case prefix_str of
             None \<Rightarrow> True
           | Some p \<Rightarrow>
               (case parse_u8 p of
                  Some prefix_len \<Rightarrow> (case ip of V4 _ \<Rightarrow> prefix_len \<le> 32 | V6 _ \<Rightarrow> prefix_len \<le> 128)
                | None \<Rightarrow> False)))"

definition validate_ruleset :: "rule_set \<Rightarrow> config_error + unit" where
  "validate_ruleset rs =
     (if rs_name rs = [] then Inl FormatError
      else
        let host_ok =
          (case host_type_of (rs_host rs) of
             HostIp \<Rightarrow> (case host_addr (rs_host rs) of None \<Rightarrow> False | Some a \<Rightarrow> is_valid_ip_pattern a)
           | HostName \<Rightarrow>
               (case host_context (rs_host rs) of None \<Rightarrow> False | Some c \<Rightarrow> is_valid_glob_pattern c))
        in if \<not> host_ok then Inl FormatError
           else if list_ex (\<lambda>t. \<not> is_valid_glob_pattern (target_method t) \<or>
                                 \<not> is_valid_glob_pattern (target_path t)) (rs_targetrules rs)
           then Inl FormatError
           else if list_ex (\<lambda>b. \<not> is_valid_glob_pattern (binary_rule_path b)) (rs_binaryrules rs)
           then Inl FormatError
           else Inr ())"

fun validate_rulesets :: "rule_set list \<Rightarrow> config_error + unit" where
  "validate_rulesets [] = Inr ()"
| "validate_rulesets (rs # rss) = rbind (validate_ruleset rs) (\<lambda>_. validate_rulesets rss)"

definition validate_filter_config :: "filter_config \<Rightarrow> config_error + unit" where
  "validate_filter_config fc = validate_rulesets (rule_list fc)"

section \<open>Run-time state\<close>

record facade_state =
  fs_registry :: registry
  fs_cert_services :: "string \<Rightarrow> cert_service option"

definition production_components :: facade_state where
  "production_components =
     \<lparr>fs_registry = with_config_validator validate_filter_config registry_new,
      fs_cert_services = (\<lambda>_. None)\<rparr>"

text \<open>\<open>ContainerCertServices::set_ca\<close>.\<close>

definition cert_services_set_ca ::
  "pki \<Rightarrow> string \<Rightarrow> ca_cert \<Rightarrow> (string \<Rightarrow> cert_service option) \<Rightarrow>
     (ca_error + unit) \<times> (string \<Rightarrow> cert_service option)" where
  "cert_services_set_ca pk cid ca services =
     (case parse_ca pk (cert_pem ca) (key_pem ca) of
        Inl e \<Rightarrow> (Inl e, services)
      | Inr parsed \<Rightarrow>
          (case services cid of
             Some existing \<Rightarrow> (Inr (), services(cid := Some (service_set_ca parsed existing)))
           | None \<Rightarrow>
               (Inr (), services(cid := Some (service_set_ca parsed (cert_service_new 1024))))))"

definition facade_set_container_config ::
  "string \<Rightarrow> filter_config \<Rightarrow> facade_state \<Rightarrow> (config_error + unit) \<times> facade_state" where
  "facade_set_container_config cid fc s =
     (if cid = [] then (Inl FormatError, s)
      else case validate_filter_config fc of
        Inl e \<Rightarrow> (Inl e, s)
      | Inr _ \<Rightarrow>
          (case set_container_config cid fc (fs_registry s) of
             (r, reg) \<Rightarrow> (r, s\<lparr>fs_registry := reg\<rparr>)))"

definition facade_remove_container_policy ::
  "string \<Rightarrow> facade_state \<Rightarrow> (config_error + unit) \<times> facade_state" where
  "facade_remove_container_policy cid s =
     (case remove_container_policy cid (fs_registry s) of (r, reg) \<Rightarrow> (r, s\<lparr>fs_registry := reg\<rparr>))"

definition facade_set_container_ca ::
  "pki \<Rightarrow> string \<Rightarrow> ca_cert \<Rightarrow> facade_state \<Rightarrow> (ca_error + unit) \<times> facade_state" where
  "facade_set_container_ca pk cid ca s =
     (case set_container_ca cid ca (fs_registry s) of
        (Inl e, reg) \<Rightarrow> (Inl e, s\<lparr>fs_registry := reg\<rparr>)
      | (Inr _, reg) \<Rightarrow>
          (case cert_services_set_ca pk cid ca (fs_cert_services s) of
             (Inl _, services) \<Rightarrow>
               (Inl CaInvalid, s\<lparr>fs_registry := reg, fs_cert_services := services\<rparr>)
           | (Inr _, services) \<Rightarrow>
               (Inr (), s\<lparr>fs_registry := reg, fs_cert_services := services\<rparr>)))"

definition facade_register_binary_resolver :: "resolver \<Rightarrow> facade_state \<Rightarrow> facade_state" where
  "facade_register_binary_resolver res s =
     s\<lparr>fs_registry := register_binary_resolver res (fs_registry s)\<rparr>"

section \<open>Upstream proxy variables\<close>

datatype proxy_init_error =
    AlreadyInitialized | ForwardingBind bind_error | InvalidEndpoint | InvalidUpstreamProxy
  | InferenceInit

definition parse_upstream :: "string \<Rightarrow> proxy_init_error + upstream_endpoint" where
  "parse_upstream raw =
     rbind (case strip_prefix ''http://'' raw of
              Some r \<Rightarrow> Inr r
            | None \<Rightarrow> if str_contains ''://'' raw then Inl InvalidUpstreamProxy else Inr raw)
     (\<lambda>rest.
     rbind (case strip_prefix ''['' rest of
              Some stripped \<Rightarrow>
                (case split_once (CHR '']'') stripped of
                   None \<Rightarrow> Inl InvalidUpstreamProxy
                 | Some (h, tail) \<Rightarrow>
                     (case strip_prefix '':'' tail of
                        None \<Rightarrow> Inl InvalidUpstreamProxy | Some p \<Rightarrow> Inr (h, p)))
            | None \<Rightarrow>
                (case rsplit_once (CHR '':'') rest of
                   None \<Rightarrow> Inl InvalidUpstreamProxy | Some hp \<Rightarrow> Inr hp))
     (\<lambda>(host, port_str).
       case parse_u16 port_str of
         None \<Rightarrow> Inl InvalidUpstreamProxy
       | Some port \<Rightarrow>
           if host = [] \<or> port = 0 then Inl InvalidUpstreamProxy
           else Inr \<lparr>up_host = host, up_port = word_of_nat port\<rparr>))"

definition read_upstream_env ::
  "(string \<Rightarrow> string option) \<Rightarrow> string \<Rightarrow> string \<Rightarrow> proxy_init_error + upstream_endpoint option" where
  "read_upstream_env env name upper =
     (let nonempty = (\<lambda>v. case v of Some s \<Rightarrow> if s = [] then None else Some s | None \<Rightarrow> None);
          raw = (case nonempty (env name) of Some v \<Rightarrow> Some v | None \<Rightarrow> nonempty (env upper))
      in case raw of
           None \<Rightarrow> Inr None
         | Some v \<Rightarrow> rbind (parse_upstream v) (\<lambda>u. Inr (Some u)))"

section \<open>\<open>proxy_init\<close>\<close>

datatype bind_io = AddrInUse | OtherIo

record init_env =
  env_var :: "string \<Rightarrow> string option"
  router_init :: "string option \<Rightarrow> bool"
  tcp_bind :: "socket_addr \<Rightarrow> bind_io option"
  set_nonblocking_ok :: bool
  tokio_register :: "bind_io option"

text \<open>What \<open>spawn_serve\<close> starts: the listening address and the parts of the serve context.\<close>

record serve_start =
  ss_addr :: socket_addr
  ss_routes :: "inference_route list"
  ss_upstream_http :: "upstream_endpoint option"
  ss_upstream_https :: "upstream_endpoint option"

record init_state =
  is_initialized :: bool
  is_serving :: "serve_start list"

definition validate_endpoint :: "container_endpoint \<Rightarrow> proxy_init_error + unit" where
  "validate_endpoint ep = (if ep_port ep = 0 then Inl InvalidEndpoint else Inr ())"

definition validate_inference_routes :: "inference_route list \<Rightarrow> proxy_init_error + unit" where
  "validate_inference_routes routes =
     (if list_ex (\<lambda>r. route_host r = [] \<or> route_url r = []) routes then Inl InvalidEndpoint
      else Inr ())"

definition init_inference_router :: "init_env \<Rightarrow> proxy_config \<Rightarrow> proxy_init_error + unit" where
  "init_inference_router env cfg =
     (if router_init env (router_config_dir cfg) then Inr () else Inl InferenceInit)"

definition map_forward_bind :: "bind_io \<Rightarrow> proxy_init_error" where
  "map_forward_bind e =
     (case e of AddrInUse \<Rightarrow> ForwardingBind PortInUse | _ \<Rightarrow> ForwardingBind InvalidPort)"

text \<open>The checks before the one-shot guard.\<close>

definition init_checks ::
  "init_env \<Rightarrow> proxy_config \<Rightarrow> proxy_init_error + upstream_endpoint option \<times> upstream_endpoint option"
where
  "init_checks env cfg =
     rbind (validate_endpoint (forwarding cfg)) (\<lambda>_.
     rbind (validate_inference_routes (inference_routes cfg)) (\<lambda>_.
     rbind (init_inference_router env cfg) (\<lambda>_.
     rbind (read_upstream_env (env_var env) ''http_proxy'' ''HTTP_PROXY'') (\<lambda>upstream_http.
     rbind (read_upstream_env (env_var env) ''https_proxy'' ''HTTPS_PROXY'') (\<lambda>upstream_https.
       Inr (upstream_http, upstream_https))))))"

definition proxy_init ::
  "init_env \<Rightarrow> proxy_config \<Rightarrow> init_state \<Rightarrow> (proxy_init_error + unit) \<times> init_state" where
  "proxy_init env cfg st =
     (case init_checks env cfg of
        Inl e \<Rightarrow> (Inl e, st)
      | Inr (upstream_http, upstream_https) \<Rightarrow>
          if is_initialized st then (Inl AlreadyInitialized, st)
          else
            let st = st\<lparr>is_initialized := True\<rparr>;
                addr = (ep_ip (forwarding cfg), ep_port (forwarding cfg))
            in case tcp_bind env addr of
                 Some e \<Rightarrow> (Inl (map_forward_bind e), st)
               | None \<Rightarrow>
                   if \<not> set_nonblocking_ok env then (Inl InvalidEndpoint, st)
                   else case tokio_register env of
                     Some e \<Rightarrow> (Inl (map_forward_bind e), st)
                   | None \<Rightarrow>
                       (Inr (),
                        st\<lparr>is_serving := is_serving st @
                          [\<lparr>ss_addr = addr, ss_routes = inference_routes cfg,
                            ss_upstream_http = upstream_http,
                            ss_upstream_https = upstream_https\<rparr>]\<rparr>))"

definition init_fresh :: init_state where
  "init_fresh = \<lparr>is_initialized = False, is_serving = []\<rparr>"

section \<open>API keys\<close>

datatype api_key_action = KeySet | KeyDelete

record api_key_item =
  key_model_id :: string
  key_value :: string

record api_key_request =
  key_action :: api_key_action
  key_items :: "api_key_item list"

datatype api_key_error =
    ApiKeyInvalid | ApiKeyDelivery | ApiKeyNotInitialized | ApiKeyModelNotFound | ApiKeyCrypto
  | ApiKeyStorage

definition api_key_item_ok :: "api_key_action \<Rightarrow> api_key_item \<Rightarrow> bool" where
  "api_key_item_ok act item =
     (case act of
        KeySet \<Rightarrow> \<not> (key_model_id item = [] \<or> key_value item = [])
      | KeyDelete \<Rightarrow> key_model_id item \<noteq> [])"

definition set_api_key ::
  "(string \<Rightarrow> string option) \<Rightarrow> (string \<Rightarrow> api_key_request \<Rightarrow> unit option) \<Rightarrow>
     (api_key_request \<Rightarrow> api_key_error + unit) \<Rightarrow> api_key_request \<Rightarrow> api_key_error + unit" where
  "set_api_key env uds_api_key apply_api_key req =
     (if \<not> list_all (api_key_item_ok (key_action req)) (key_items req) then Inl ApiKeyInvalid
      else
        case (case env ''UDS_PATH'' of Some p \<Rightarrow> if p = [] then None else Some p | None \<Rightarrow> None) of
          Some path \<Rightarrow>
            (case uds_api_key path req of None \<Rightarrow> Inl ApiKeyDelivery | Some _ \<Rightarrow> Inr ())
        | None \<Rightarrow> apply_api_key req)"

section \<open>What validation admits\<close>

lemma is_valid_ip_pattern_iff: "is_valid_ip_pattern p \<longleftrightarrow> parse_cidr p \<noteq> None"
proof (cases "split_once (CHR ''/'') p")
  case None
  then show ?thesis
    by (simp add: is_valid_ip_pattern_def parse_cidr_def split: option.split prod.split)
next
  case (Some ap)
  then show ?thesis
    by (cases ap; cases "parse_ip (fst ap)"; cases "the (parse_ip (fst ap))"; cases "parse_u8 (snd ap)")
       (auto simp: is_valid_ip_pattern_def parse_cidr_def)
qed

definition wf_pattern :: "string \<Rightarrow> bool" where
  "wf_pattern p \<longleftrightarrow> p \<noteq> [] \<and> count_list p star \<le> 1"

text \<open>A rule set every condition of which the matchers can decide.\<close>

definition wf_ruleset :: "rule_set \<Rightarrow> bool" where
  "wf_ruleset rs \<longleftrightarrow>
     rs_name rs \<noteq> [] \<and>
     (case host_type_of (rs_host rs) of
        HostIp \<Rightarrow> \<exists>a net. host_addr (rs_host rs) = Some a \<and> parse_cidr a = Some net
      | HostName \<Rightarrow> \<exists>c. host_context (rs_host rs) = Some c \<and> wf_pattern c) \<and>
     (\<forall>t \<in> set (rs_targetrules rs). wf_pattern (target_method t) \<and> wf_pattern (target_path t)) \<and>
     (\<forall>b \<in> set (rs_binaryrules rs). wf_pattern (binary_rule_path b))"

lemma validate_ruleset_iff: "validate_ruleset rs = Inr () \<longleftrightarrow> wf_ruleset rs"
  by (auto simp: validate_ruleset_def wf_ruleset_def Let_def list_ex_iff is_valid_ip_pattern_iff
      is_valid_glob_pattern_def wf_pattern_def split: host_type.split option.split if_splits)

lemma validate_filter_config_iff:
  "validate_filter_config fc = Inr () \<longleftrightarrow> (\<forall>rs \<in> set (rule_list fc). wf_ruleset rs)"
proof -
  have "validate_rulesets rss = Inr () \<longleftrightarrow> (\<forall>rs \<in> set rss. wf_ruleset rs)" for rss
    by (induction rss) (auto simp: rbind_eq_Inr validate_ruleset_iff)
  then show ?thesis by (simp add: validate_filter_config_def)
qed

text \<open>The order the engine relies on.\<close>

definition engine_order :: "filter_config \<Rightarrow> bool" where
  "engine_order fc \<longleftrightarrow>
     sorted_wrt (\<lambda>a b. host_prio (rs_host a) \<ge> host_prio (rs_host b)) (rule_list fc) \<and>
     (\<forall>rs \<in> set (rule_list fc).
        sorted (map (action_rank \<circ> target_action) (rs_targetrules rs)) \<and>
        sorted (map (action_rank \<circ> binary_action) (rs_binaryrules rs)))"

lemma sorted_rank_sort:
  "sorted_wrt (\<lambda>x y. action_rank (f x) \<le> action_rank (f y)) (sort_key (\<lambda>x. action_rank (f x)) xs)"
  using sorted_sort_key [of "\<lambda>x. action_rank (f x)" xs] by (simp only: sorted_map)

lemma engine_order_normalize: "engine_order (normalize_rule_order fc)"
proof -
  have "sorted (map reverse_prio (sort_key reverse_prio (rule_list fc)))" by simp
  then have "sorted_wrt (\<lambda>a b. host_prio (rs_host a) \<ge> host_prio (rs_host b))
      (sort_key reverse_prio (rule_list fc))"
    by (simp add: sorted_map reverse_prio_def word_le_def)
  then show ?thesis
    by (auto simp: engine_order_def normalize_rule_order_def normalize_ruleset_def sorted_wrt_map
        sorted_rank_sort)
qed

lemma wf_ruleset_normalize [simp]: "wf_ruleset (normalize_ruleset rs) = wf_ruleset rs"
  by (simp add: wf_ruleset_def normalize_ruleset_def split: host_type.split)

definition enforceable :: "filter_config \<Rightarrow> bool" where
  "enforceable fc \<longleftrightarrow> (\<forall>rs \<in> set (rule_list fc). wf_ruleset rs) \<and> engine_order fc"

lemma enforceable_normalize:
  "validate_filter_config fc = Inr () \<Longrightarrow> enforceable (normalize_rule_order fc)"
  by (simp add: enforceable_def engine_order_normalize)
     (auto simp: validate_filter_config_iff normalize_rule_order_def)

section \<open>Runs of the public operations\<close>

datatype facade_op =
    FSetConfig string filter_config | FRemovePolicy string | FSetCa string ca_cert
  | FRegisterResolver resolver

fun facade_step :: "pki \<Rightarrow> facade_state \<Rightarrow> facade_op \<Rightarrow> facade_state" where
  "facade_step pk s (FSetConfig cid fc) = snd (facade_set_container_config cid fc s)"
| "facade_step pk s (FRemovePolicy cid) = snd (facade_remove_container_policy cid s)"
| "facade_step pk s (FSetCa cid ca) = snd (facade_set_container_ca pk cid ca s)"
| "facade_step pk s (FRegisterResolver r) = facade_register_binary_resolver r s"

definition facade_inv :: "facade_state \<Rightarrow> bool" where
  "facade_inv s \<longleftrightarrow> reg_config_validator (fs_registry s) = Some validate_filter_config \<and>
     (\<forall>cid fc. config_for (fs_registry s) cid = Some fc \<longrightarrow> cid \<noteq> [] \<and> enforceable fc)"

lemma facade_inv_production: "facade_inv production_components"
  by (simp add: facade_inv_def production_components_def with_config_validator_def
      registry_new_def config_for_def)

text \<open>Each operation is a registry step as far as configurations go.\<close>

lemma facade_registry_step:
  "\<exists>ops. fs_registry (facade_step pk s p) = foldl reg_step (fs_registry s) ops"
proof (cases p)
  case (FSetConfig cid fc)
  have "fs_registry (facade_step pk s p) \<in> {fs_registry s, reg_step (fs_registry s) (SetConfig cid fc)}"
    by (auto simp: FSetConfig facade_set_container_config_def split: sum.split prod.split)
  then show ?thesis
    by (auto intro: exI [of _ "[]"] exI [of _ "[SetConfig cid fc]"])
next
  case (FRemovePolicy cid)
  then show ?thesis
    by (intro exI [of _ "[RemovePolicy cid]"])
       (simp add: facade_remove_container_policy_def split: prod.split)
next
  case (FSetCa cid ca)
  then show ?thesis
    by (intro exI [of _ "[SetCa cid ca]"])
       (simp add: facade_set_container_ca_def split: prod.split sum.split)
next
  case (FRegisterResolver r)
  then show ?thesis
    by (intro exI [of _ "[RegisterResolver r]"]) (simp add: facade_register_binary_resolver_def)
qed

lemma reg_step_config_validator:
  "reg_config_validator (reg_step r p) = reg_config_validator r"
  by (cases p) (auto simp: remove_container_policy_def set_container_ca_def
      register_binary_resolver_def split: option.split sum.split)

lemma reg_step_enforceable:
  assumes "reg_config_validator r = Some validate_filter_config"
    and "\<And>cid fc. config_for r cid = Some fc \<Longrightarrow> cid \<noteq> [] \<and> enforceable fc"
    and "config_for (reg_step r p) cid = Some fc"
  shows "cid \<noteq> [] \<and> enforceable fc"
proof -
  have "config_log (config_gate r) cid (config_for r cid) p = Some fc"
    using assms(3) by (simp add: config_for_step)
  then show ?thesis
    using assms(1,2)
    by (cases p) (auto simp: config_gate_def enforceable_normalize split: if_splits)
qed

lemma reg_run_enforceable:
  assumes "reg_config_validator r = Some validate_filter_config"
    and "\<And>cid fc. config_for r cid = Some fc \<Longrightarrow> cid \<noteq> [] \<and> enforceable fc"
  shows "reg_config_validator (foldl reg_step r ops) = Some validate_filter_config \<and>
    (\<forall>cid fc. config_for (foldl reg_step r ops) cid = Some fc \<longrightarrow> cid \<noteq> [] \<and> enforceable fc)"
  using assms
proof (induction ops arbitrary: r)
  case (Cons p ops)
  show ?case
    unfolding foldl_Cons
    by (rule Cons.IH)
       (use Cons.prems reg_step_enforceable [OF Cons.prems]
         in \<open>auto simp: reg_step_config_validator\<close>)
qed auto

lemma facade_inv_run: "facade_inv (foldl (facade_step pk) production_components ops)"
proof -
  have "facade_inv s \<Longrightarrow> facade_inv (foldl (facade_step pk) s ops)" for s
  proof (induction ops arbitrary: s)
    case (Cons p ops)
    obtain rops where rops: "fs_registry (facade_step pk s p) = foldl reg_step (fs_registry s) rops"
      using facade_registry_step by blast
    have "facade_inv (facade_step pk s p)"
      using Cons.prems reg_run_enforceable [of "fs_registry s" rops]
      unfolding facade_inv_def rops by blast
    then show ?case by (simp add: Cons.IH)
  qed simp
  then show ?thesis using facade_inv_production .
qed

section \<open>Lemmas on upstream addresses and initialisation\<close>

lemma str_contains_iff: "str_contains p s \<longleftrightarrow> (\<exists>a b. s = a @ p @ b)"
proof (induction s)
  case (Cons x xs)
  have "(\<exists>a b. x # xs = a @ p @ b) \<longleftrightarrow> (\<exists>b. x # xs = p @ b) \<or> (\<exists>a b. xs = a @ p @ b)"
    by (auto simp: Cons_eq_append_conv)
  then show ?case by (simp add: Cons.IH starts_with_iff)
qed auto

lemma no_scheme:
  assumes "CHR '':'' \<notin> set h"
  shows "\<not> str_contains ''://'' (h @ CHR '':'' # dec_string n)"
proof
  assume "str_contains ''://'' (h @ CHR '':'' # dec_string n)"
  then obtain a b where ab: "h @ CHR '':'' # dec_string n = a @ CHR '':'' # ''//'' @ b"
    by (auto simp: str_contains_iff)
  have d: "CHR '':'' \<notin> set (dec_string n)" "CHR ''/'' \<notin> set (dec_string n)"
    using dec_string_digits digit_char_neq by metis+
  from ab have "CHR ''/'' \<in> set (dec_string n)"
    using assms d(1) by (auto simp: append_eq_append_conv2 Cons_eq_append_conv append_eq_Cons_conv)
  with d(2) show False by simp
qed

lemma init_checks_endpoint:
  "init_checks env cfg = Inr u \<Longrightarrow> ep_port (forwarding cfg) \<noteq> 0 \<and>
     (\<forall>r \<in> set (inference_routes cfg). route_host r \<noteq> [] \<and> route_url r \<noteq> [])"
  by (auto simp: init_checks_def rbind_eq_Inr validate_endpoint_def validate_inference_routes_def
      list_ex_iff split: if_splits)

definition init_calls :: "(init_env \<times> proxy_config) list \<Rightarrow> init_state \<Rightarrow> init_state" where
  "init_calls calls st = foldl (\<lambda>st (env, cfg). snd (proxy_init env cfg st)) st calls"

lemma proxy_init_initialized: "is_initialized st \<Longrightarrow> snd (proxy_init env cfg st) = st"
  by (simp add: proxy_init_def split: sum.split prod.split)

lemma init_calls_initialized: "is_initialized st \<Longrightarrow> init_calls calls st = st"
  by (induction calls) (auto simp: init_calls_def proxy_init_initialized)

definition started_by :: "init_env \<Rightarrow> proxy_config \<Rightarrow> serve_start \<Rightarrow> bool" where
  "started_by env cfg ss \<longleftrightarrow>
     init_checks env cfg = Inr (ss_upstream_http ss, ss_upstream_https ss) \<and>
     ss_addr ss = (ep_ip (forwarding cfg), ep_port (forwarding cfg)) \<and>
     tcp_bind env (ss_addr ss) = None \<and> ss_routes ss = inference_routes cfg"

lemma proxy_init_fresh_cases:
  assumes "\<not> is_initialized st" and "is_serving st = []"
  shows "let st' = snd (proxy_init env cfg st) in
    (is_serving st' = [] \<and> fst (proxy_init env cfg st) \<noteq> Inr ()) \<or>
    (is_initialized st' \<and> fst (proxy_init env cfg st) = Inr () \<and>
      (\<exists>ss. is_serving st' = [ss] \<and> started_by env cfg ss))"
  using assms
  by (simp add: proxy_init_def Let_def started_by_def split: sum.split prod.split option.split)

lemma init_calls_serving:
  assumes "\<not> is_initialized st" and "is_serving st = []"
  shows "is_serving (init_calls calls st) = [] \<or>
    (\<exists>ss env cfg. is_serving (init_calls calls st) = [ss] \<and> (env, cfg) \<in> set calls \<and>
       started_by env cfg ss)"
  using assms
proof (induction calls arbitrary: st)
  case Nil
  then show ?case by (simp add: init_calls_def)
next
  case (Cons call calls)
  obtain env cfg where call: "call = (env, cfg)" by (cases call)
  let ?st = "snd (proxy_init env cfg st)"
  have step: "init_calls (call # calls) st = init_calls calls ?st"
    by (simp add: init_calls_def call)
  show ?case
  proof (cases "is_initialized ?st")
    case True
    then have "init_calls (call # calls) st = ?st" by (simp add: step init_calls_initialized)
    then show ?thesis
      using proxy_init_fresh_cases [OF Cons.prems, of env cfg] by (auto simp: Let_def call)
  next
    case False
    then have "is_serving ?st = []"
      using proxy_init_fresh_cases [OF Cons.prems, of env cfg] by (auto simp: Let_def)
    then show ?thesis using Cons.IH [OF False] by (auto simp: step)
  qed
qed

section \<open>A concrete environment\<close>

definition demo_init_env :: init_env where
  "demo_init_env =
     \<lparr>env_var = Map.empty, router_init = (\<lambda>_. True), tcp_bind = (\<lambda>_. None),
      set_nonblocking_ok = True, tokio_register = None\<rparr>"

definition demo_proxy_config :: proxy_config where
  "demo_proxy_config =
     \<lparr>forwarding = \<lparr>ep_ip = V4 0x7F000001, ep_port = 8080\<rparr>, inference_routes = [],
      router_config_dir = None\<rparr>"

lemma demo_init_checks:
  "init_checks demo_init_env demo_proxy_config = Inr (None, None)"
  "init_checks (demo_init_env\<lparr>tcp_bind := f\<rparr>) demo_proxy_config = Inr (None, None)"
  by (simp_all add: init_checks_def demo_init_env_def demo_proxy_config_def validate_endpoint_def
      validate_inference_routes_def init_inference_router_def read_upstream_env_def)

section \<open>Properties\<close>

text \<open>
  C5. Only enforceable policies are ever stored: after any sequence of public operations from
  the production state, every stored configuration belongs to a non-empty container id, each of
  its rule sets is well formed (an address that parses as IP or CIDR, or a one-star host
  pattern; one-star methods, paths and binaries), and it is in the order the engine relies on
  (descending priority, and deny before alert before allow in each rule set).
\<close>

theorem facade_stores_only_enforceable_policies:
  assumes "config_for (fs_registry (foldl (facade_step pk) production_components ops)) cid = Some fc"
  shows "cid \<noteq> [] \<and> enforceable fc"
  using facade_inv_run [of pk ops] assms by (auto simp: facade_inv_def)

lemma facade_stores_only_enforceable_policies_witness:
  "enforceable (normalize_rule_order demo_config_shuffled) \<and>
   map rs_name (rule_list (normalize_rule_order demo_config_shuffled)) = [''api'', ''rest'']"
proof -
  have "config_for (fs_registry (foldl (facade_step demo_pki) production_components
      [FSetConfig ''c1'' demo_config_shuffled, FRemovePolicy ''c2''])) ''c1'' =
    Some (normalize_rule_order demo_config_shuffled)"
    by code_simp
  then have "enforceable (normalize_rule_order demo_config_shuffled)"
    using facade_stores_only_enforceable_policies by blast
  moreover have "map rs_name (rule_list (normalize_rule_order demo_config_shuffled)) = [''api'', ''rest'']"
    by code_simp
  ultimately show ?thesis by simp
qed

text \<open>
  Upstream addresses are read back as written: for a non-empty host without colon that does
  not start with a bracket, and a non-zero port, \<open>host:port\<close> and \<open>http://host:port\<close> parse to
  that host and port, and so does a bracketed host (an IPv6 address) without closing bracket.
\<close>

theorem parse_upstream_roundtrip:
  fixes h :: string and v6 :: string
  assumes "h \<noteq> []" and "CHR '':'' \<notin> set h" and "CHR ''['' \<notin> set h"
    and "v6 \<noteq> []" and "CHR '']'' \<notin> set v6" and "0 < n" and "n \<le> 65535"
  shows "parse_upstream (h @ CHR '':'' # dec_string n) =
      Inr \<lparr>up_host = h, up_port = word_of_nat n\<rparr> \<and>
    parse_upstream (''http://'' @ h @ CHR '':'' # dec_string n) =
      Inr \<lparr>up_host = h, up_port = word_of_nat n\<rparr> \<and>
    parse_upstream (''http://['' @ v6 @ '']:'' @ dec_string n) =
      Inr \<lparr>up_host = v6, up_port = word_of_nat n\<rparr>"
proof -
  let ?hp = "h @ CHR '':'' # dec_string n"
  have port: "parse_u16 (dec_string n) = Some n" using assms by (simp add: parse_u16_def parse_uint_dec)
  have d: "CHR '':'' \<notin> set (dec_string n)" using dec_string_digits digit_char_neq by metis
  have hp: "rsplit_once (CHR '':'') ?hp = Some (h, dec_string n)" using d by simp
  have b: "strip_prefix ''['' ?hp = None" using assms(1,3) by (cases h) (auto simp: strip_prefix_def)
  have "strip_prefix ''http://'' ?hp = None"
  proof (rule ccontr)
    assume "strip_prefix ''http://'' ?hp \<noteq> None"
    then obtain r where "?hp = ''http://'' @ r" by (auto simp: strip_prefix_Some)
    then have "?hp = ''http'' @ ''://'' @ r" by simp
    then have "str_contains ''://'' ?hp" unfolding str_contains_iff by blast
    then show False using no_scheme [OF assms(2)] by simp
  qed
  note noscheme = this no_scheme [OF assms(2), of n]
  have [simp]: "strip_prefix ''http://'' (''http://'' @ s) = Some s" for s
    by (simp add: strip_prefix_Some)
  have "parse_upstream ?hp = Inr \<lparr>up_host = h, up_port = word_of_nat n\<rparr>"
    using noscheme hp b port assms by (simp add: parse_upstream_def)
  moreover have "parse_upstream (''http://'' @ ?hp) = Inr \<lparr>up_host = h, up_port = word_of_nat n\<rparr>"
    unfolding parse_upstream_def \<open>\<And>s. strip_prefix ''http://'' (''http://'' @ s) = Some s\<close>
    using hp b port assms by simp
  moreover have "parse_upstream (''http://'' @ CHR ''['' # v6 @ CHR '']'' # CHR '':'' # dec_string n) =
      Inr \<lparr>up_host = v6, up_port = word_of_nat n\<rparr>"
    unfolding parse_upstream_def \<open>\<And>s. strip_prefix ''http://'' (''http://'' @ s) = Some s\<close>
    using port assms by (simp add: strip_prefix_def)
  ultimately show ?thesis by simp
qed

lemma parse_upstream_roundtrip_witness:
  "parse_upstream ''http://proxy.local:3128'' = Inr \<lparr>up_host = ''proxy.local'', up_port = 3128\<rparr>"
proof -
  have "dec_string 3128 = ''3128''" by code_simp
  then show ?thesis
    using parse_upstream_roundtrip [of "''proxy.local''" "''::1''" 3128] by simp
qed

text \<open>
  C30. \<open>proxy_init\<close> is one-shot and fails closed: over any sequence of calls, in any environments,
  at most one service is started; what is started comes from a call whose checks all passed, with
  the upstream proxies its environment names (never a silent direct connection on a bad value),
  on a non-zero port, with non-empty routes.
\<close>

theorem proxy_init_one_shot:
  "is_serving (init_calls calls init_fresh) = [] \<or>
   (\<exists>ss env cfg. is_serving (init_calls calls init_fresh) = [ss] \<and> (env, cfg) \<in> set calls \<and>
      init_checks env cfg = Inr (ss_upstream_http ss, ss_upstream_https ss) \<and>
      ss_addr ss = (ep_ip (forwarding cfg), ep_port (forwarding cfg)) \<and>
      tcp_bind env (ss_addr ss) = None \<and> ep_port (forwarding cfg) \<noteq> 0 \<and>
      (\<forall>r \<in> set (ss_routes ss). route_host r \<noteq> [] \<and> route_url r \<noteq> []))"
  using init_calls_serving [of init_fresh calls] init_checks_endpoint
  unfolding started_by_def by (simp add: init_fresh_def) metis

lemma proxy_init_one_shot_witness:
  "\<exists>ss. is_serving (init_calls [(demo_init_env, demo_proxy_config), (demo_init_env, demo_proxy_config)]
     init_fresh) = [ss] \<and> snd (ss_addr ss) = 8080"
proof -
  have "is_serving (init_calls [(demo_init_env, demo_proxy_config), (demo_init_env, demo_proxy_config)]
     init_fresh) \<noteq> []"
    by (simp add: init_calls_def proxy_init_def demo_init_checks init_fresh_def Let_def)
      (simp add: demo_init_env_def)
  then show ?thesis
    using proxy_init_one_shot
      [of "[(demo_init_env, demo_proxy_config), (demo_init_env, demo_proxy_config)]"]
    by (auto simp: demo_proxy_config_def)
qed

text \<open>
  A failed bind is final: the one-shot guard is taken before the socket is bound, so when the
  bind fails no later call, in whatever environment, starts the service; each of them answers
  AlreadyInitialized or an earlier check's error.
\<close>

theorem bind_failure_is_final:
  assumes "init_checks env cfg = Inr u"
    and "tcp_bind env (ep_ip (forwarding cfg), ep_port (forwarding cfg)) = Some e"
  defines "st \<equiv> snd (proxy_init env cfg init_fresh)"
  shows "fst (proxy_init env cfg init_fresh) = Inl (map_forward_bind e) \<and>
    is_serving (init_calls calls st) = [] \<and>
    (init_checks env' cfg' = Inr u' \<longrightarrow> fst (proxy_init env' cfg' st) = Inl AlreadyInitialized)"
proof -
  have "st = \<lparr>is_initialized = True, is_serving = []\<rparr>"
      "fst (proxy_init env cfg init_fresh) = Inl (map_forward_bind e)"
    using assms by (simp_all add: proxy_init_def init_fresh_def split: prod.split)
  then show ?thesis
    by (simp add: init_calls_initialized proxy_init_def split: prod.split)
qed

lemma bind_failure_is_final_witness:
  "fst (proxy_init demo_init_env demo_proxy_config
     (snd (proxy_init (demo_init_env\<lparr>tcp_bind := (\<lambda>_. Some AddrInUse)\<rparr>) demo_proxy_config init_fresh))) =
   Inl AlreadyInitialized"
  using bind_failure_is_final [OF demo_init_checks(2), of "\<lambda>_. Some AddrInUse" AddrInUse "[]"
      demo_init_env demo_proxy_config "(None, None)"] demo_init_checks(1)
  by simp

text \<open>
  Setting a container CA: on success the material parsed, the container's certificate
  service issues with exactly that CA from an empty cache, and the registry records it; on
  failure no certificate service changes; other containers are untouched either way.
\<close>

theorem set_container_ca_effect:
  "(fst (facade_set_container_ca pk cid ca s) = Inr () \<longrightarrow>
      (\<exists>parsed svc. parse_ca pk (cert_pem ca) (key_pem ca) = Inr parsed \<and>
         fs_cert_services (snd (facade_set_container_ca pk cid ca s)) cid = Some svc \<and>
         svc_issuer svc = Some parsed \<and> lru_map (svc_cache svc) = Map.empty \<and>
         ca_for (fs_registry (snd (facade_set_container_ca pk cid ca s))) cid = Some ca)) \<and>
   (fst (facade_set_container_ca pk cid ca s) = Inl CaInvalid \<longrightarrow>
      fs_cert_services (snd (facade_set_container_ca pk cid ca s)) = fs_cert_services s) \<and>
   (\<forall>other. other \<noteq> cid \<longrightarrow>
      fs_cert_services (snd (facade_set_container_ca pk cid ca s)) other = fs_cert_services s other \<and>
      ca_for (fs_registry (snd (facade_set_container_ca pk cid ca s))) other =
        ca_for (fs_registry s) other)"
  by (auto simp: facade_set_container_ca_def set_container_ca_def cert_services_set_ca_def
      ca_for_def service_set_ca_def lru_clear_def split: sum.split option.split)

lemma set_container_ca_effect_witness:
  "\<exists>svc. fs_cert_services (snd (facade_set_container_ca demo_pki ''c1''
       \<lparr>cert_pem = [1], key_pem = [1]\<rparr> production_components)) ''c1'' = Some svc \<and>
     svc_issuer svc = Some (demo_ca 1)"
proof -
  have "fst (facade_set_container_ca demo_pki ''c1''
       \<lparr>cert_pem = [1], key_pem = [1]\<rparr> production_components) = Inr ()"
    "parse_ca demo_pki [1] [1] = Inr (demo_ca 1)"
    by code_simp+
  then show ?thesis
    using set_container_ca_effect [of demo_pki "''c1''" "\<lparr>cert_pem = [1], key_pem = [1]\<rparr>"
        production_components]
    by auto
qed

text \<open>
  A refused CA is recorded all the same: the registry of the production state validates no CA
  material, so when the certificate does not parse the call fails, the certificate services keep
  the old CA, and yet the registry now answers with the refused material.
\<close>

theorem refused_ca_is_recorded:
  assumes "cid \<noteq> []" and "reg_ca_validator (fs_registry s) = None"
    and "parse_ca pk (cert_pem ca) (key_pem ca) = Inl e"
  shows "fst (facade_set_container_ca pk cid ca s) = Inl CaInvalid \<and>
    fs_cert_services (snd (facade_set_container_ca pk cid ca s)) = fs_cert_services s \<and>
    ca_for (fs_registry (snd (facade_set_container_ca pk cid ca s))) cid = Some ca"
  using assms
  by (simp add: facade_set_container_ca_def set_container_ca_def cert_services_set_ca_def ca_for_def)

lemma refused_ca_is_recorded_witness:
  "ca_for (fs_registry (snd (facade_set_container_ca demo_pki ''c1''
     \<lparr>cert_pem = [1], key_pem = [2]\<rparr> production_components))) ''c1'' =
   Some \<lparr>cert_pem = [1], key_pem = [2]\<rparr>"
proof -
  have "parse_ca demo_pki [1] [2] = Inl CaInvalid" by code_simp
  then show ?thesis
    using refused_ca_is_recorded [of "''c1''" production_components demo_pki
        "\<lparr>cert_pem = [1], key_pem = [2]\<rparr>" CaInvalid]
    by (simp add: production_components_def with_config_validator_def registry_new_def)
qed

end
