(* ===== verification/InferenceUds.thy ===== *)
theory InferenceUds
  imports Facade
begin

text \<open>
  The contract of the inference-routing library (\<^verbatim>\<open>rust/plugins/agentsandbox/inference/src/lib.rs\<close>)
  and its remote form over a Unix socket (\<^verbatim>\<open>rust/plugins/agentsandbox/proxy/src/inference_uds.rs\<close>):
  the wire codes, one request/response exchange, and the dispatcher that picks the remote router
  when \<open>UDS_PATH\<close> is set.  \<open>serde_json\<close> and the socket are fields of the parameter \<open>uds_io\<close>.
\<close>

section \<open>Contract types\<close>

datatype inference_result = InfForward | InfModified | InfBlock
datatype modify_action = ModAdd | ModModify
datatype modify_target = ModHeader | ModBody

record inference_modification =
  im_action :: modify_action
  im_target :: modify_target
  im_key :: string
  im_value :: string

record inference_route_result =
  ir_result :: inference_result
  ir_modifications :: "inference_modification list"

type_synonym headers = "(string \<times> string) list"

record inference_request =
  iq_headers :: headers
  iq_body :: string

type_synonym inference_router = "inference_request \<Rightarrow> inference_route_result"

definition block_result :: inference_route_result where
  "block_result = \<lparr>ir_result = InfBlock, ir_modifications = []\<rparr>"

definition mock_route :: inference_router where
  "mock_route req = \<lparr>ir_result = InfForward, ir_modifications = []\<rparr>"

section \<open>Wire format\<close>

definition MSG_TYPE_API_KEY :: u8 where "MSG_TYPE_API_KEY = 1"
definition MSG_TYPE_ROUTE :: u8 where "MSG_TYPE_ROUTE = 10"
definition MAX_RESPONSE_LINE :: nat where "MAX_RESPONSE_LINE = 16 * 1024 * 1024"

record uds_envelope =
  env_msg_type :: u8
  env_body :: string

record uds_request =
  ureq_headers :: "(string \<times> string) list"
  ureq_body :: string

record uds_modification =
  um_action :: u8
  um_target :: u8
  um_key :: string
  um_value :: string

record uds_response =
  uresp_result :: u8
  uresp_modifications :: "uds_modification list"

definition to_wire :: "inference_request \<Rightarrow> uds_request" where
  "to_wire req =
     \<lparr>ureq_headers = map (\<lambda>(n, v). (n, utf8_lossy v)) (iq_headers req), ureq_body = iq_body req\<rparr>"

definition result_from_wire :: "u8 \<Rightarrow> inference_result option" where
  "result_from_wire r =
     (if r = 0 then Some InfForward else if r = 1 then Some InfModified
      else if r = 2 then Some InfBlock else None)"

definition modification_from_wire :: "uds_modification \<Rightarrow> inference_modification option" where
  "modification_from_wire m =
     (case (if um_action m = 1 then Some ModAdd else if um_action m = 2 then Some ModModify else None) of
        None \<Rightarrow> None
      | Some act \<Rightarrow>
          (case (if um_target m = 1 then Some ModHeader
                 else if um_target m = 2 then Some ModBody else None) of
             None \<Rightarrow> None
           | Some tgt \<Rightarrow>
               Some \<lparr>im_action = act, im_target = tgt, im_key = um_key m, im_value = um_value m\<rparr>))"

fun modifications_from_wire :: "uds_modification list \<Rightarrow> inference_modification list option" where
  "modifications_from_wire [] = Some []"
| "modifications_from_wire (m # ms) =
     (case modification_from_wire m of
        None \<Rightarrow> None
      | Some x \<Rightarrow> map_option ((#) x) (modifications_from_wire ms))"

definition from_wire :: "uds_response \<Rightarrow> inference_route_result option" where
  "from_wire resp =
     (case result_from_wire (uresp_result resp) of
        None \<Rightarrow> None
      | Some r \<Rightarrow>
          (case modifications_from_wire (uresp_modifications resp) of
             None \<Rightarrow> None
           | Some ms \<Rightarrow> Some \<lparr>ir_result = r, ir_modifications = ms\<rparr>))"

section \<open>The exchange\<close>

text \<open>A read of at most 8192 bytes; the empty chunk is end of file.\<close>

datatype chunk_event = Chunk string | ChunkErr

record uds_io =
  uds_connect :: "string \<Rightarrow> bool"
  uds_write :: "string \<Rightarrow> bool"
  uds_reads :: "chunk_event list"
  enc_envelope :: "uds_envelope \<Rightarrow> string option"
  dec_envelope :: "string \<Rightarrow> uds_envelope option"
  enc_route :: "uds_request \<Rightarrow> string option"
  dec_route :: "string \<Rightarrow> uds_response option"
  enc_key :: "api_key_request \<Rightarrow> string option"
  dec_key_status :: "string \<Rightarrow> u8 option"

text \<open>The loop that collects the response line; running out of chunks is a read error (timeout).\<close>

fun read_line :: "string \<Rightarrow> chunk_event list \<Rightarrow> string option" where
  "read_line buf [] = None"
| "read_line buf (ChunkErr # cs) = None"
| "read_line buf (Chunk chunk # cs) =
     (if chunk = [] then None
      else
        let buf = buf @ chunk in
        if CHR 0x0A \<in> set buf then Some (takeWhile (\<lambda>c. c \<noteq> CHR 0x0A) buf)
        else if length buf > MAX_RESPONSE_LINE then None
        else read_line buf cs)"

definition uds_exchange :: "uds_io \<Rightarrow> string \<Rightarrow> uds_envelope \<Rightarrow> uds_envelope option" where
  "uds_exchange io path envelope =
     (let line = (case enc_envelope io envelope of Some l \<Rightarrow> l | None \<Rightarrow> []) in
      if line = [] then None
      else if \<not> uds_connect io path then None
      else if \<not> uds_write io (line @ [CHR 0x0A]) then None
      else case read_line [] (uds_reads io) of
             None \<Rightarrow> None
           | Some l \<Rightarrow> dec_envelope io l)"

definition uds_roundtrip :: "uds_io \<Rightarrow> string \<Rightarrow> inference_request \<Rightarrow> inference_route_result option" where
  "uds_roundtrip io path req =
     (case enc_route io (to_wire req) of
        None \<Rightarrow> None
      | Some body \<Rightarrow>
          (case uds_exchange io path \<lparr>env_msg_type = MSG_TYPE_ROUTE, env_body = body\<rparr> of
             None \<Rightarrow> None
           | Some resp \<Rightarrow>
               (case dec_route io (env_body resp) of None \<Rightarrow> None | Some r \<Rightarrow> from_wire r)))"

definition uds_api_key :: "uds_io \<Rightarrow> string \<Rightarrow> api_key_request \<Rightarrow> unit option" where
  "uds_api_key io path req =
     (case enc_key io req of
        None \<Rightarrow> None
      | Some body \<Rightarrow>
          (case uds_exchange io path \<lparr>env_msg_type = MSG_TYPE_API_KEY, env_body = body\<rparr> of
             None \<Rightarrow> None
           | Some resp \<Rightarrow>
               (case dec_key_status io (env_body resp) of
                  None \<Rightarrow> None
                | Some st \<Rightarrow> if st \<noteq> 0 then None else Some ())))"

text \<open>\<open>UdsRouteDispatcher::route\<close>.\<close>

definition dispatch_route ::
  "(string \<Rightarrow> string option) \<Rightarrow> uds_io \<Rightarrow> inference_router \<Rightarrow> inference_router" where
  "dispatch_route env io local_router req =
     (case (case env ''UDS_PATH'' of Some p \<Rightarrow> if p = [] then None else Some p | None \<Rightarrow> None) of
        Some path \<Rightarrow>
          (case uds_roundtrip io path req of Some r \<Rightarrow> r | None \<Rightarrow> block_result)
      | None \<Rightarrow> local_router req)"

section \<open>Lemmas\<close>

fun result_to_u8 :: "inference_result \<Rightarrow> u8" where
  "result_to_u8 InfForward = 0"
| "result_to_u8 InfModified = 1"
| "result_to_u8 InfBlock = 2"

fun action_to_u8 :: "modify_action \<Rightarrow> u8" where
  "action_to_u8 ModAdd = 1"
| "action_to_u8 ModModify = 2"

fun target_to_u8 :: "modify_target \<Rightarrow> u8" where
  "target_to_u8 ModHeader = 1"
| "target_to_u8 ModBody = 2"

definition modification_to_wire :: "inference_modification \<Rightarrow> uds_modification" where
  "modification_to_wire m =
     \<lparr>um_action = action_to_u8 (im_action m), um_target = target_to_u8 (im_target m),
      um_key = im_key m, um_value = im_value m\<rparr>"

definition result_to_wire :: "inference_route_result \<Rightarrow> uds_response" where
  "result_to_wire r =
     \<lparr>uresp_result = result_to_u8 (ir_result r),
      uresp_modifications = map modification_to_wire (ir_modifications r)\<rparr>"

lemma result_from_wire_iff: "result_from_wire w = Some r \<longleftrightarrow> w = result_to_u8 r"
  by (cases r) (auto simp: result_from_wire_def)

lemma result_from_to_wire [simp]: "result_from_wire (result_to_u8 r) = Some r"
  by (simp add: result_from_wire_iff)

lemma modification_from_wire_iff: "modification_from_wire w = Some m \<longleftrightarrow> w = modification_to_wire m"
  by (cases w; cases m; cases "im_action m"; cases "im_target m")
     (auto simp: modification_from_wire_def modification_to_wire_def)

lemma modification_from_to_wire [simp]: "modification_from_wire (modification_to_wire m) = Some m"
  by (simp add: modification_from_wire_iff)

lemma modifications_from_to_wire [simp]:
  "modifications_from_wire (map modification_to_wire ms) = Some ms"
  by (induction ms) auto

lemma modifications_from_wire_iff:
  "modifications_from_wire ws = Some ms \<longleftrightarrow> ws = map modification_to_wire ms"
proof
  assume "modifications_from_wire ws = Some ms"
  then show "ws = map modification_to_wire ms"
    by (induction ws arbitrary: ms) (auto simp: modification_from_wire_iff split: option.splits)
qed simp

lemma from_wire_iff: "from_wire w = Some r \<longleftrightarrow> w = result_to_wire r"
proof
  assume "from_wire w = Some r"
  then show "w = result_to_wire r"
    by (cases w) (auto simp: from_wire_def result_to_wire_def result_from_wire_iff
        modifications_from_wire_iff split: option.splits)
qed (simp add: from_wire_def result_to_wire_def)

text \<open>The buffer: what the loop holds when it decides, and how much it has read by then.\<close>

fun chunk_bytes :: "chunk_event list \<Rightarrow> string" where
  "chunk_bytes [] = []"
| "chunk_bytes (Chunk c # cs) = c @ chunk_bytes cs"
| "chunk_bytes (ChunkErr # cs) = []"

lemma read_line_Some:
  assumes "read_line buf cs = Some l" and "CHR 0x0A \<notin> set buf"
  shows "CHR 0x0A \<notin> set l \<and> (\<exists>rest. buf @ chunk_bytes cs = l @ CHR 0x0A # rest)"
  using assms
proof (induction buf cs rule: read_line.induct)
  case (3 buf chunk cs)
  show ?case
  proof (cases "CHR 0x0A \<in> set (buf @ chunk)")
    case True
    then obtain a b where ab: "buf @ chunk = a @ CHR 0x0A # b" "CHR 0x0A \<notin> set a"
      by (meson split_list_first)
    then have "takeWhile (\<lambda>c. c \<noteq> CHR 0x0A) (buf @ chunk) = a"
      by (auto simp: takeWhile_append2 intro: takeWhile_append2 [THEN trans])
    with 3 True have "l = a" by (auto simp: Let_def split: if_splits)
    moreover have "buf @ chunk @ chunk_bytes cs = a @ CHR 0x0A # (b @ chunk_bytes cs)"
      using arg_cong [OF ab(1), of "\<lambda>x. x @ chunk_bytes cs"] by simp
    ultimately show ?thesis using ab(2)
      by (intro conjI exI [of _ "b @ chunk_bytes cs"]) (simp_all only: chunk_bytes.simps not_False_eq_True)
  next
    case False
    with 3 show ?thesis by (auto simp: Let_def split: if_splits)
  qed
qed auto

lemma uds_exchange_iff:
  "uds_exchange io path e = Some resp \<longleftrightarrow>
      (\<exists>line l. enc_envelope io e = Some line \<and> line \<noteq> [] \<and> uds_connect io path \<and>
         uds_write io (line @ [CHR 0x0A]) \<and> read_line [] (uds_reads io) = Some l \<and>
         dec_envelope io l = Some resp)"
  by (auto simp: uds_exchange_def Let_def split: option.splits)

lemma uds_roundtrip_iff:
  "uds_roundtrip io path req = Some r \<longleftrightarrow>
     (\<exists>body resp. enc_route io (to_wire req) = Some body \<and>
        uds_exchange io path \<lparr>env_msg_type = MSG_TYPE_ROUTE, env_body = body\<rparr> = Some resp \<and>
        dec_route io (env_body resp) = Some (result_to_wire r))"
  by (auto simp: uds_roundtrip_def from_wire_iff split: option.splits)

section \<open>Properties\<close>

text \<open>
  C26. The remote router fails closed: when \<open>UDS_PATH\<close> is set, a request is forwarded, modified or
  not, only if the whole exchange succeeded (request encoded, connected, written, a complete
  response line read and decoded) and every code of the response is in range; in every other
  case the answer is Block.  When it is not set the local router decides.
\<close>

theorem remote_router_fails_closed:
  assumes "env ''UDS_PATH'' = Some path" and "path \<noteq> []"
  shows "dispatch_route env io local_router req =
    (if \<exists>r. uds_roundtrip io path req = Some r then the (uds_roundtrip io path req) else block_result) \<and>
    (uds_roundtrip io path req = Some r \<longleftrightarrow>
      (\<exists>body line l resp.
         enc_route io (to_wire req) = Some body \<and>
         enc_envelope io \<lparr>env_msg_type = 10, env_body = body\<rparr> = Some line \<and> line \<noteq> [] \<and>
         uds_connect io path \<and> uds_write io (line @ [CHR 0x0A]) \<and>
         read_line [] (uds_reads io) = Some l \<and> dec_envelope io l = Some resp \<and>
         dec_route io (env_body resp) = Some (result_to_wire r)))"
proof -
  have "uds_roundtrip io path req = Some r \<longleftrightarrow>
      (\<exists>body line l resp.
         enc_route io (to_wire req) = Some body \<and>
         enc_envelope io \<lparr>env_msg_type = 10, env_body = body\<rparr> = Some line \<and> line \<noteq> [] \<and>
         uds_connect io path \<and> uds_write io (line @ [CHR 0x0A]) \<and>
         read_line [] (uds_reads io) = Some l \<and> dec_envelope io l = Some resp \<and>
         dec_route io (env_body resp) = Some (result_to_wire r))"
    unfolding uds_roundtrip_iff uds_exchange_iff MSG_TYPE_ROUTE_def by blast
  moreover have "dispatch_route env io local_router req =
    (if \<exists>r. uds_roundtrip io path req = Some r then the (uds_roundtrip io path req) else block_result)"
    using assms by (simp add: dispatch_route_def split: option.split)
  ultimately show ?thesis by blast
qed

definition demo_uds :: "chunk_event list \<Rightarrow> uds_io" where
  "demo_uds chunks =
     \<lparr>uds_connect = (\<lambda>_. True), uds_write = (\<lambda>_. True), uds_reads = chunks,
      enc_envelope = (\<lambda>e. Some (env_body e)), dec_envelope = (\<lambda>l. Some \<lparr>env_msg_type = 10, env_body = l\<rparr>),
      enc_route = (\<lambda>r. Some (ureq_body r)),
      dec_route = (\<lambda>b. if b = ''ok'' then Some \<lparr>uresp_result = 0, uresp_modifications = []\<rparr>
                        else Some \<lparr>uresp_result = 7, uresp_modifications = []\<rparr>),
      enc_key = (\<lambda>_. None), dec_key_status = (\<lambda>_. None)\<rparr>"

lemma remote_router_fails_closed_witness:
  "ir_result (dispatch_route (\<lambda>_. Some ''/run/r.sock'') (demo_uds [Chunk ''o'', Chunk (''k'' @ [CHR 0x0A])])
     mock_route \<lparr>iq_headers = [], iq_body = ''{}''\<rparr>) = InfForward \<and>
   ir_result (dispatch_route (\<lambda>_. Some ''/run/r.sock'') (demo_uds [Chunk ''ok'', Chunk []])
     mock_route \<lparr>iq_headers = [], iq_body = ''{}''\<rparr>) = InfBlock"
proof -
  have "uds_roundtrip (demo_uds [Chunk ''o'', Chunk (''k'' @ [CHR 0x0A])]) ''/run/r.sock''
      \<lparr>iq_headers = [], iq_body = ''{}''\<rparr> = Some \<lparr>ir_result = InfForward, ir_modifications = []\<rparr>"
    "uds_roundtrip (demo_uds [Chunk ''ok'', Chunk []]) ''/run/r.sock''
      \<lparr>iq_headers = [], iq_body = ''{}''\<rparr> = None"
    by (simp_all add: uds_roundtrip_def uds_exchange_def demo_uds_def to_wire_def from_wire_def
        result_from_wire_def MAX_RESPONSE_LINE_def)
  then show ?thesis
    using remote_router_fails_closed [of "\<lambda>_. Some ''/run/r.sock''" "''/run/r.sock''"
        "demo_uds [Chunk ''o'', Chunk (''k'' @ [CHR 0x0A])]" mock_route
        "\<lparr>iq_headers = [], iq_body = ''{}''\<rparr>"]
      remote_router_fails_closed [of "\<lambda>_. Some ''/run/r.sock''" "''/run/r.sock''"
        "demo_uds [Chunk ''ok'', Chunk []]" mock_route "\<lparr>iq_headers = [], iq_body = ''{}''\<rparr>"]
    by (simp add: block_result_def)
qed

text \<open>How much the buffer holds at most while a response is collected.\<close>

fun buffer_peak :: "string \<Rightarrow> chunk_event list \<Rightarrow> nat" where
  "buffer_peak buf [] = length buf"
| "buffer_peak buf (ChunkErr # cs) = length buf"
| "buffer_peak buf (Chunk chunk # cs) =
     (if chunk = [] then length buf
      else
        let buf = buf @ chunk in
        if CHR 0x0A \<in> set buf \<or> length buf > MAX_RESPONSE_LINE then length buf
        else buffer_peak buf cs)"

lemma buffer_peak_bound:
  "length buf \<le> MAX_RESPONSE_LINE \<Longrightarrow> \<forall>c. Chunk c \<in> set cs \<longrightarrow> length c \<le> 8192 \<Longrightarrow>
     buffer_peak buf cs \<le> MAX_RESPONSE_LINE + 8192"
proof (induction buf cs rule: buffer_peak.induct)
  case (3 buf chunk cs)
  then have "length (buf @ chunk) \<le> MAX_RESPONSE_LINE + 8192" by (auto intro!: add_mono)
  with 3 show ?case by (auto simp: Let_def)
qed auto

text \<open>
  The response line is exact and bounded: what is decoded is the bytes up to the first line
  feed of what the peer sent, however the reads cut it, and with reads of at most 8192 bytes the
  buffer never holds more than 16 MiB and one read.
\<close>

theorem response_line_exact_and_bounded:
  assumes "\<forall>c. Chunk c \<in> set cs \<longrightarrow> length c \<le> 8192"
  shows "(read_line [] cs = Some l \<longrightarrow>
      CHR 0x0A \<notin> set l \<and> (\<exists>rest. chunk_bytes cs = l @ CHR 0x0A # rest)) \<and>
    buffer_peak [] cs \<le> 16 * 1024 * 1024 + 8192"
  using read_line_Some [of "[]" cs l] buffer_peak_bound [of "[]" cs] assms
  by (auto simp: MAX_RESPONSE_LINE_def)

lemma response_line_exact_and_bounded_witness:
  "read_line [] [Chunk ''ab'', Chunk (CHR ''c'' # CHR 0x0A # ''x'')] = Some ''abc'' \<and>
   buffer_peak [] [Chunk ''ab'', Chunk (CHR ''c'' # CHR 0x0A # ''x'')] \<le> 16 * 1024 * 1024 + 8192"
  using response_line_exact_and_bounded [of "[Chunk ''ab'', Chunk (CHR ''c'' # CHR 0x0A # ''x'')]" "''abc''"]
  by (simp add: MAX_RESPONSE_LINE_def)

end
