(* ===== verification/Server.thy ===== *)
theory Server
  imports Forward InferenceUds "HOL-Library.AList"
begin

text \<open>
  \<^verbatim>\<open>rust/plugins/agentsandbox/proxy/src/server/mod.rs\<close> (and \<^verbatim>\<open>logging/mod.rs\<close>): what the proxy
  does with one request.  \<open>handle_request\<close> and everything it calls return the reply, the list of
  effects in the order they happen (audit deliveries, DNS lookups, routing calls, outbound
  connections, bytes sent, tunnels started) and the DNS cache.

  The field \<open>server_env\<close> is what the request meets outside the code: the \<open>http\<close> and \<open>globset\<close>
  crates, the network, the integrator's log sink, the inference router, the client's body, the
  resolver, the clock.  A buffered request rebuilt from parts that were already parsed cannot
  fail (the \<open>http\<close> builder is given typed values), so those defensive branches are left out.
\<close>

section \<open>Audit delivery (\<open>logging/mod.rs\<close>)\<close>

datatype log_kind = KindAudit | KindRun
datatype log_level = LevelDebug | LevelInfo | LevelWarn | LevelError

record log_event =
  le_kind :: log_kind
  le_level :: log_level
  le_subsystem :: string
  le_message :: string
  le_audit :: "audit_log_entry option"

datatype log_sink_error = SinkError

type_synonym log_sink = "log_event \<Rightarrow> log_sink_error + unit"

definition log_emit ::
  "log_sink option \<Rightarrow> log_kind \<Rightarrow> log_level \<Rightarrow> string \<Rightarrow> string \<Rightarrow> audit_log_entry option \<Rightarrow>
     log_sink_error + unit" where
  "log_emit sink kind level subsystem message audit =
     (case sink of
        None \<Rightarrow> (case kind of KindAudit \<Rightarrow> Inl SinkError | KindRun \<Rightarrow> Inr ())
      | Some f \<Rightarrow>
          (case f \<lparr>le_kind = kind, le_level = level, le_subsystem = subsystem,
                   le_message = message, le_audit = audit\<rparr> of
             Inr _ \<Rightarrow> Inr ()
           | Inl e \<Rightarrow> if kind = KindAudit then Inl e else Inr ()))"

definition log_audit ::
  "(audit_log_entry \<Rightarrow> string option) \<Rightarrow> log_sink option \<Rightarrow> audit_log_entry \<Rightarrow> log_sink_error + unit"
where
  "log_audit to_json sink entry =
     log_emit sink KindAudit LevelInfo ''audit''
       (case to_json entry of Some m \<Rightarrow> m | None \<Rightarrow> ''{}'') (Some entry)"

section \<open>Requests, replies, effects\<close>

record uri =
  uri_path :: string
  uri_port :: "u16 option"
  uri_text :: string

record request =
  rq_method :: string
  rq_uri :: uri
  rq_headers :: headers
  rq_body :: string

record http_response =
  hs_status :: nat
  hs_headers :: headers
  hs_body :: string

datatype reply =
    RBlock reason
  | RRelay http_response
  | REstablished
  | RUpgrade http_response

fun reply_status :: "reply \<Rightarrow> nat" where
  "reply_status (RBlock r) = br_status (block_response r)"
| "reply_status (RRelay resp) = hs_status resp"
| "reply_status REstablished = 200"
| "reply_status (RUpgrade resp) = hs_status resp"

datatype effect =
    EAudit audit_log_entry
  | ELookup string
  | ERoute inference_request
  | EConnect "upstream_endpoint option" string u16
  | ESend request
  | EWriteUpgrade string
  | ETunnel string

record http_lib =
  header_to_str :: "string \<Rightarrow> string option"
  header_name_from :: "string \<Rightarrow> string option"
  header_value_ok :: "string \<Rightarrow> bool"

record server_env =
  env_build :: globset
  env_http :: http_lib
  env_net :: network
  env_now :: u64
  env_to_json :: "audit_log_entry \<Rightarrow> string option"
  env_sink :: "log_sink option"
  env_router :: "inference_request \<Rightarrow> inference_route_result option"
  env_collect :: "string option"
  env_lookup :: "string \<Rightarrow> ip_addr list option"
  env_h1_handshake :: "stream \<Rightarrow> bool"
  env_send :: "stream \<Rightarrow> request \<Rightarrow> http_response option"
  env_write_upgrade :: "stream \<Rightarrow> string \<Rightarrow> bool"
  env_chunks :: "stream \<Rightarrow> chunk_event list"

record serve_context =
  sc_registry :: registry
  sc_cert_services :: "string \<Rightarrow> cert_service option"
  sc_scenario :: string
  sc_target_port_override :: "u16 option"
  sc_target_host_override :: "string option"
  sc_upstream_http :: "upstream_endpoint option"
  sc_upstream_https :: "upstream_endpoint option"
  sc_inference_routes :: "inference_route list"

definition serve_context_new :: "registry \<Rightarrow> (string \<Rightarrow> cert_service option) \<Rightarrow> serve_context" where
  "serve_context_new reg certs =
     \<lparr>sc_registry = reg, sc_cert_services = certs, sc_scenario = SCENARIO_LIB,
      sc_target_port_override = None, sc_target_host_override = None, sc_upstream_http = None,
      sc_upstream_https = None, sc_inference_routes = []\<rparr>"

record conn_context =
  cc_container_id :: string
  cc_binary_path :: "string option"
  cc_sni :: "string option"
  cc_plaintext :: bool
  cc_peer :: socket_addr

type_synonym dns_cache = "(string \<times> ip_addr list) list"

definition group_id_stub :: string where "group_id_stub = ''-''"

section \<open>Connections\<close>

definition resolve_identity ::
  "serve_context \<Rightarrow> socket_addr \<Rightarrow> socket_addr \<Rightarrow> string \<times> string option" where
  "resolve_identity ctx peer local_addr =
     (case binary_resolver (sc_registry ctx) of
        None \<Rightarrow> (group_id_stub, None)
      | Some res \<Rightarrow>
          (case res peer local_addr Tcp of
             Some out \<Rightarrow>
               if ro_container_id out \<noteq> [] then
                 (ro_container_id out,
                  if ro_binary_path out = [] then None else Some (ro_binary_path out))
               else (group_id_stub, None)
           | None \<Rightarrow> (group_id_stub, None)))"

datatype sniffed_protocol = SniffTls | SniffHttp

text \<open>The first byte, when the peek within the deadline saw one.\<close>

definition sniff_protocol :: "u8 option \<Rightarrow> sniffed_protocol option" where
  "sniff_protocol probe =
     (case probe of
        None \<Rightarrow> None
      | Some b \<Rightarrow>
          if b = 0x16 then Some SniffTls
          else if 65 \<le> b \<and> b \<le> 90 then Some SniffHttp
          else None)"

text \<open>
  \<open>serve_connection\<close>, \<open>serve_plaintext\<close> and \<open>serve_tls\<close>: the context the HTTP service of this
  connection runs with, or None when the connection is closed without one.  \<open>mitm_sni\<close> is the
  server name the MITM handshake of the given certificate service captured, None when it failed
  or timed out.
\<close>

definition serve_tls ::
  "(cert_service \<Rightarrow> string option) \<Rightarrow> serve_context \<Rightarrow> socket_addr \<Rightarrow> string \<Rightarrow> string option \<Rightarrow>
     conn_context option" where
  "serve_tls mitm_sni ctx peer container_id binary_path =
     (case sc_cert_services ctx container_id of
        None \<Rightarrow> None
      | Some svc \<Rightarrow>
          (case mitm_sni svc of
             None \<Rightarrow> None
           | Some sni \<Rightarrow>
               Some \<lparr>cc_container_id = container_id, cc_binary_path = binary_path,
                     cc_sni = Some sni, cc_plaintext = False, cc_peer = peer\<rparr>))"

definition serve_connection ::
  "u8 option \<Rightarrow> (cert_service \<Rightarrow> string option) \<Rightarrow> serve_context \<Rightarrow> socket_addr \<Rightarrow> socket_addr \<Rightarrow>
     conn_context option" where
  "serve_connection probe mitm_sni ctx peer local_addr =
     (case resolve_identity ctx peer local_addr of
        (container_id, binary_path) \<Rightarrow>
          (case sniff_protocol probe of
             Some SniffHttp \<Rightarrow>
               Some \<lparr>cc_container_id = container_id, cc_binary_path = binary_path,
                     cc_sni = None, cc_plaintext = True, cc_peer = peer\<rparr>
           | Some SniffTls \<Rightarrow> serve_tls mitm_sni ctx peer container_id binary_path
           | None \<Rightarrow> None))"

section \<open>Headers\<close>

definition header_get :: "headers \<Rightarrow> string \<Rightarrow> string option" where
  "header_get h n = map_of h n"

definition header_remove :: "string \<Rightarrow> headers \<Rightarrow> headers" where
  "header_remove n h = filter (\<lambda>(k, _). k \<noteq> n) h"

fun header_insert :: "string \<Rightarrow> string \<Rightarrow> headers \<Rightarrow> headers" where
  "header_insert n v [] = [(n, v)]"
| "header_insert n v ((k, w) # h) =
     (if k = n then (n, v) # header_remove n h else (k, w) # header_insert n v h)"

section \<open>Host and port of a request\<close>

definition word_port :: "nat option \<Rightarrow> u16 option" where
  "word_port = map_option word_of_nat"

definition tls_request_port :: "http_lib \<Rightarrow> request \<Rightarrow> u16 option" where
  "tls_request_port lib req =
     (case uri_port (rq_uri req) of
        Some p \<Rightarrow> Some p
      | None \<Rightarrow>
          (case Option.bind (header_get (rq_headers req) ''host'') (header_to_str lib) of
             None \<Rightarrow> None
           | Some v \<Rightarrow>
               let host = trim v in
               (case strip_prefix ''['' host of
                  Some rest \<Rightarrow>
                    (case split_once (CHR '']'') rest of
                       None \<Rightarrow> None
                     | Some (_, tail) \<Rightarrow>
                         (case strip_prefix '':'' tail of
                            None \<Rightarrow> None | Some p \<Rightarrow> word_port (parse_u16 p)))
                | None \<Rightarrow>
                    (case rsplit_once (CHR '':'') host of
                       None \<Rightarrow> None | Some (_, p) \<Rightarrow> word_port (parse_u16 p)))))"

definition resolve_host :: "http_lib \<Rightarrow> conn_context \<Rightarrow> request \<Rightarrow> (string \<times> u16 option) option" where
  "resolve_host lib conn req =
     (case cc_sni conn of
        Some sni \<Rightarrow> Some (sni, tls_request_port lib req)
      | None \<Rightarrow>
          (case Option.bind (header_get (rq_headers req) ''host'') (header_to_str lib) of
             None \<Rightarrow> None
           | Some v \<Rightarrow>
               let host = trim v in
               if host = [] then None
               else if starts_with host ''['' then
                 (case split_once (CHR '']'') host of
                    Some (bare, rest) \<Rightarrow>
                      Some (bare @ '']'',
                        case strip_prefix '':'' rest of
                          None \<Rightarrow> None | Some p \<Rightarrow> word_port (parse_u16 p))
                  | None \<Rightarrow> Some (host, None))
               else
                 (case rsplit_once (CHR '':'') host of
                    Some (h, p) \<Rightarrow>
                      (case parse_u16 p of
                         Some port \<Rightarrow> Some (h, Some (word_of_nat port))
                       | None \<Rightarrow> Some (host, None))
                  | None \<Rightarrow> Some (host, None))))"

definition normalize_connect_uri :: "request \<Rightarrow> request" where
  "normalize_connect_uri req =
     (if rq_method req \<noteq> ''CONNECT'' \<or> uri_path (rq_uri req) \<noteq> [] then req
      else req\<lparr>rq_uri := \<lparr>uri_path = ''/'', uri_port = None, uri_text = ''/''\<rparr>\<rparr>)"

definition is_upgrade_request :: "http_lib \<Rightarrow> request \<Rightarrow> bool" where
  "is_upgrade_request lib req \<longleftrightarrow>
     rq_method req = ''GET'' \<and>
     (case Option.bind (header_get (rq_headers req) ''upgrade'') (header_to_str lib) of
        None \<Rightarrow> False | Some v \<Rightarrow> trim v \<noteq> [])"

definition inference_route_matched :: "serve_context \<Rightarrow> string \<Rightarrow> string \<Rightarrow> bool" where
  "inference_route_matched ctx domain path =
     list_ex (\<lambda>r. eq_ignore_ascii_case (route_host r) domain \<and> route_url r = path)
       (sc_inference_routes ctx)"

definition inference_route_hit :: "serve_context \<Rightarrow> string \<Rightarrow> request \<Rightarrow> bool" where
  "inference_route_hit ctx domain req =
     (if rq_method req = ''CONNECT''
      then list_ex (\<lambda>r. eq_ignore_ascii_case (route_host r) domain) (sc_inference_routes ctx)
      else inference_route_matched ctx domain (uri_path (rq_uri req)))"

definition target_host :: "serve_context \<Rightarrow> string \<Rightarrow> string" where
  "target_host ctx sni = (case sc_target_host_override ctx of Some h \<Rightarrow> h | None \<Rightarrow> sni)"

definition resolved_target_port :: "serve_context \<Rightarrow> conn_context \<Rightarrow> u16 option \<Rightarrow> u16" where
  "resolved_target_port ctx conn host_port =
     (case (case sc_target_port_override ctx of Some p \<Rightarrow> Some p | None \<Rightarrow> host_port) of
        Some p \<Rightarrow> p
      | None \<Rightarrow> if cc_plaintext conn then 80 else 443)"

section \<open>DNS\<close>

definition CACHE_CAP :: nat where "CACHE_CAP = 1024"

definition resolve_target_ips ::
  "server_env \<Rightarrow> string \<Rightarrow> dns_cache \<Rightarrow> ip_addr list option \<times> effect list \<times> dns_cache" where
  "resolve_target_ips env domain cache =
     (case map_of cache domain of
        Some hit \<Rightarrow> (Some hit, [], cache)
      | None \<Rightarrow>
          (case env_lookup env domain of
             None \<Rightarrow> (None, [ELookup domain], cache)
           | Some ips \<Rightarrow>
               if ips = [] then (None, [ELookup domain], cache)
               else
                 let cache = (if length cache \<ge> CACHE_CAP then [] else cache)
                 in (Some ips, [ELookup domain], AList.update domain ips cache)))"

section \<open>Audit entries\<close>

definition build_entry ::
  "server_env \<Rightarrow> serve_context \<Rightarrow> string \<Rightarrow> string \<Rightarrow> request \<Rightarrow> action \<Rightarrow> reason \<Rightarrow> nat \<Rightarrow>
     string option \<Rightarrow> string option \<Rightarrow> audit_entry_type \<Rightarrow> string option \<Rightarrow> audit_log_entry" where
  "build_entry env ctx container_id domain req act reas status source_ip target_ip ty rule_id =
     \<lparr>ae_timestamp = env_now env, ae_container_id = container_id, ae_scenario = sc_scenario ctx,
      ae_domain = domain, ae_url_path = uri_path (rq_uri req), ae_method = rq_method req,
      ae_status_code = word_of_nat status, ae_action = act, ae_reason = reas,
      ae_source_ip = source_ip, ae_target_ip = target_ip, ae_entry_type = ty,
      ae_rule_id = rule_id\<rparr>"

text \<open>\<open>ReqMeta\<close>: container id, domain, the request line, and the audit string of the target IPs.\<close>

record req_meta =
  mt_container_id :: string
  mt_domain :: string
  mt_request :: request
  mt_target_ips :: "string option"

definition deny_entry ::
  "server_env \<Rightarrow> serve_context \<Rightarrow> req_meta \<Rightarrow> reason \<Rightarrow> string option \<Rightarrow> audit_log_entry" where
  "deny_entry env ctx meta reas rule_id =
     build_entry env ctx (mt_container_id meta) (mt_domain meta) (mt_request meta) Deny reas 0
       None (mt_target_ips meta) AuditEntry rule_id"

definition allow_entry ::
  "server_env \<Rightarrow> serve_context \<Rightarrow> conn_context \<Rightarrow> req_meta \<Rightarrow> reason \<Rightarrow> nat \<Rightarrow> bool \<Rightarrow>
     string option \<Rightarrow> audit_log_entry" where
  "allow_entry env ctx conn meta reas status alert rule_id =
     build_entry env ctx (mt_container_id meta) (mt_domain meta) (mt_request meta) Allow reas status
       (Some (ip_string (fst (cc_peer conn)))) (mt_target_ips meta)
       (if alert then AlertEntry else AuditEntry) rule_id"

definition deliver :: "server_env \<Rightarrow> audit_log_entry \<Rightarrow> log_sink_error + unit" where
  "deliver env entry = log_audit (env_to_json env) (env_sink env) entry"

definition audit_deny :: "audit_log_entry \<Rightarrow> reason \<Rightarrow> reply \<times> effect list" where
  "audit_deny entry reas = (RBlock reas, [EAudit entry])"

definition audit_allow :: "server_env \<Rightarrow> audit_log_entry \<Rightarrow> reply option \<times> effect list" where
  "audit_allow env entry =
     (case deliver env entry of
        Inr _ \<Rightarrow> (None, [EAudit entry])
      | Inl _ \<Rightarrow> (Some (RBlock LogWriteError), [EAudit entry]))"

definition config_missing_response ::
  "server_env \<Rightarrow> serve_context \<Rightarrow> conn_context \<Rightarrow> request \<Rightarrow> string \<Rightarrow> reply \<times> effect list" where
  "config_missing_response env ctx conn req domain =
     audit_deny
       (build_entry env ctx group_id_stub domain req Deny ConfigNotFound 0
          (Some (ip_string (fst (cc_peer conn)))) None AuditEntry None)
       ConfigNotFound"

end
