(* ===== verification/ServerPipeline.thy ===== *)
theory ServerPipeline
  imports Server
begin

text \<open>
  The request pipeline of \<^verbatim>\<open>rust/plugins/agentsandbox/proxy/src/server/mod.rs\<close>: outbound
  connections, forwarding, CONNECT tunnels, protocol upgrades, the inference branch, and
  \<open>handle_request\<close> that ties them together.
\<close>

section \<open>Outbound connections\<close>

fun map_plain_connect_error :: "io_kind \<Rightarrow> target_connect_error" where
  "map_plain_connect_error KConnectionRefused = Refused"
| "map_plain_connect_error KTimedOut = Timeout"
| "map_plain_connect_error KWouldBlock = Timeout"
| "map_plain_connect_error KOther = TargetTls"

definition connect_plain_tcp :: "network \<Rightarrow> string \<Rightarrow> u16 \<Rightarrow> target_connect_error + stream" where
  "connect_plain_tcp nw host port =
     (case dial nw host port of
        TcpDeadline \<Rightarrow> Inl Timeout
      | TcpFailed k \<Rightarrow> Inl (map_plain_connect_error k)
      | TcpUp s \<Rightarrow> Inr s)"

text \<open>The plain stream of the clear-text path and of CONNECT: direct, or through \<open>http_proxy\<close>.\<close>

definition connect_raw_outbound ::
  "server_env \<Rightarrow> serve_context \<Rightarrow> conn_context \<Rightarrow> string \<Rightarrow> u16 option \<Rightarrow>
     (target_connect_error + stream) \<times> effect list" where
  "connect_raw_outbound env ctx conn domain host_port =
     (let port = resolved_target_port ctx conn host_port;
          host = target_host ctx domain
      in (case sc_upstream_http ctx of
            Some upstream \<Rightarrow> connect_upstream_plain (env_net env) upstream host port
          | None \<Rightarrow> connect_plain_tcp (env_net env) host port,
          [EConnect (sc_upstream_http ctx) host port]))"

text \<open>The stream of \<open>connect_upgrade_target\<close>; \<open>connect_target\<close> adds the HTTP/1 handshake on it.\<close>

definition connect_upgrade_target ::
  "server_env \<Rightarrow> serve_context \<Rightarrow> conn_context \<Rightarrow> string \<Rightarrow> u16 option \<Rightarrow>
     (target_connect_error + stream) \<times> effect list" where
  "connect_upgrade_target env ctx conn domain host_port =
     (let port = resolved_target_port ctx conn host_port;
          host = target_host ctx domain
      in if cc_plaintext conn then
           (case sc_upstream_http ctx of
              Some upstream \<Rightarrow> connect_upstream_plain (env_net env) upstream host port
            | None \<Rightarrow> connect_plain_tcp (env_net env) host port,
            [EConnect (sc_upstream_http ctx) host port])
         else
           (case sc_upstream_https ctx of
              Some upstream \<Rightarrow> connect_via (env_net env) upstream host port domain [''http/1.1'']
            | None \<Rightarrow> connect (env_net env) host port domain [''http/1.1''],
            [EConnect (sc_upstream_https ctx) host port]))"

definition hyper_handshake :: "server_env \<Rightarrow> stream \<Rightarrow> target_connect_error + stream" where
  "hyper_handshake env s = (if env_h1_handshake env s then Inr s else Inl TargetTls)"

definition connect_target ::
  "server_env \<Rightarrow> serve_context \<Rightarrow> conn_context \<Rightarrow> string \<Rightarrow> u16 option \<Rightarrow>
     (target_connect_error + stream) \<times> effect list" where
  "connect_target env ctx conn domain host_port =
     (let port = resolved_target_port ctx conn host_port;
          host = target_host ctx domain
      in if cc_plaintext conn then
           (rbind (case sc_upstream_http ctx of
                     Some upstream \<Rightarrow> connect_upstream_plain (env_net env) upstream host port
                   | None \<Rightarrow> connect_plain_tcp (env_net env) host port)
              (hyper_handshake env),
            [EConnect (sc_upstream_http ctx) host port])
         else
           (rbind (case sc_upstream_https ctx of
                     Some upstream \<Rightarrow>
                       connect_via (env_net env) upstream host port domain [''http/1.1'']
                   | None \<Rightarrow> connect (env_net env) host port domain [''http/1.1''])
              (hyper_handshake env),
            [EConnect (sc_upstream_https ctx) host port]))"

section \<open>Forwarding\<close>

definition forward_request ::
  "server_env \<Rightarrow> serve_context \<Rightarrow> conn_context \<Rightarrow> request \<Rightarrow> string \<Rightarrow> string \<Rightarrow> reason \<Rightarrow> bool \<Rightarrow>
     string option \<Rightarrow> u16 option \<Rightarrow> string option \<Rightarrow> reply \<times> effect list" where
  "forward_request env ctx conn req domain container_id reas alert rule_id host_port target_ip_str =
     (let meta = \<lparr>mt_container_id = container_id, mt_domain = domain, mt_request = req,
                  mt_target_ips = target_ip_str\<rparr>
      in case connect_target env ctx conn domain host_port of
           (Inl e, es) \<Rightarrow>
             (case audit_deny (deny_entry env ctx meta (target_connect_reason e) rule_id)
                     (target_connect_reason e) of (r, es') \<Rightarrow> (r, es @ es'))
         | (Inr s, es) \<Rightarrow>
             (case env_send env s req of
                None \<Rightarrow> (RBlock TargetTlsError, es @ [ESend req])
              | Some response \<Rightarrow>
                  (case audit_allow env
                          (allow_entry env ctx conn meta reas (hs_status response) alert rule_id) of
                     (Some blocked, es') \<Rightarrow> (blocked, es @ [ESend req] @ es')
                   | (None, es') \<Rightarrow> (RRelay response, es @ [ESend req] @ es'))))"

section \<open>CONNECT tunnels\<close>

definition establish_connect_tunnel ::
  "server_env \<Rightarrow> serve_context \<Rightarrow> conn_context \<Rightarrow> request \<Rightarrow> string \<Rightarrow> string \<Rightarrow> reason \<Rightarrow> bool \<Rightarrow>
     string option \<Rightarrow> u16 option \<Rightarrow> string option \<Rightarrow> reply \<times> effect list" where
  "establish_connect_tunnel env ctx conn req domain container_id reas alert rule_id host_port
     target_ip_str =
     (let meta = \<lparr>mt_container_id = container_id, mt_domain = domain, mt_request = req,
                  mt_target_ips = target_ip_str\<rparr>
      in case connect_raw_outbound env ctx conn domain host_port of
           (Inl e, es) \<Rightarrow>
             (case audit_deny (deny_entry env ctx meta (target_connect_reason e) rule_id)
                     (target_connect_reason e) of (r, es') \<Rightarrow> (r, es @ es'))
         | (Inr target, es) \<Rightarrow>
             (case audit_allow env (allow_entry env ctx conn meta reas 200 alert rule_id) of
                (Some blocked, es') \<Rightarrow> (blocked, es @ es')
              | (None, es') \<Rightarrow> (REstablished, es @ es' @ [ETunnel []])))"

section \<open>Upgrades\<close>

definition upgrade_request_text :: "request \<Rightarrow> string" where
  "upgrade_request_text req =
     rq_method req @ '' '' @ uri_text (rq_uri req) @ '' HTTP/1.1'' @ crlf @
     concat (map (\<lambda>(n, v). n @ '': '' @ v @ crlf) (rq_headers req)) @ crlf"

fun read_target_head :: "string \<Rightarrow> chunk_event list \<Rightarrow> string option" where
  "read_target_head buf [] = None"
| "read_target_head buf (ChunkErr # cs) = None"
| "read_target_head buf (Chunk chunk # cs) =
     (if chunk = [] then None
      else
        let buf = buf @ chunk in
        if str_contains (crlf @ crlf) buf then Some buf
        else if length buf > 16 * 1024 then None
        else read_target_head buf cs)"

definition parse_status_line :: "string \<Rightarrow> nat" where
  "parse_status_line buf =
     (case split_whitespace (first_line (utf8_lossy buf)) of
        _ # s # _ \<Rightarrow> (case parse_u16 s of Some n \<Rightarrow> n | None \<Rightarrow> 502)
      | _ \<Rightarrow> 502)"

fun find_head_end :: "string \<Rightarrow> nat option" where
  "find_head_end [] = None"
| "find_head_end (c # cs) =
     (if starts_with (c # cs) (crlf @ crlf) then Some 4 else map_option Suc (find_head_end cs))"

definition split_leftover :: "string \<Rightarrow> string" where
  "split_leftover buf =
     drop (case find_head_end buf of Some n \<Rightarrow> n | None \<Rightarrow> length buf) buf"

text \<open>The response builder: None once a name or a value was refused.\<close>

fun build_headers :: "http_lib \<Rightarrow> string list \<Rightarrow> headers option" where
  "build_headers lib [] = Some []"
| "build_headers lib (line # lines) =
     (case split_once (CHR '':'') line of
        None \<Rightarrow> build_headers lib lines
      | Some (name, val) \<Rightarrow>
          (case header_name_from lib (trim name) of
             None \<Rightarrow> None
           | Some n \<Rightarrow>
               if header_value_ok lib (trim val)
               then map_option ((#) (n, trim val)) (build_headers lib lines)
               else None))"

definition build_upgrade_response :: "http_lib \<Rightarrow> string \<Rightarrow> nat \<Rightarrow> reply" where
  "build_upgrade_response lib buf status =
     (let code = (if 100 \<le> status \<and> status \<le> 999 then status else 101) in
      case build_headers lib (filter (\<lambda>l. l \<noteq> []) (drop 1 (str_lines (utf8_lossy buf)))) of
        Some hs \<Rightarrow> RUpgrade \<lparr>hs_status = code, hs_headers = hs, hs_body = []\<rparr>
      | None \<Rightarrow> RBlock TargetTlsError)"

definition handle_upgrade ::
  "server_env \<Rightarrow> serve_context \<Rightarrow> conn_context \<Rightarrow> request \<Rightarrow> string \<Rightarrow> string \<Rightarrow> reason \<Rightarrow> bool \<Rightarrow>
     string option \<Rightarrow> u16 option \<Rightarrow> string option \<Rightarrow> reply \<times> effect list" where
  "handle_upgrade env ctx conn req domain container_id reas alert rule_id host_port target_ip_str =
     (let meta = \<lparr>mt_container_id = container_id, mt_domain = domain, mt_request = req,
                  mt_target_ips = target_ip_str\<rparr>;
          raw = upgrade_request_text req
      in case connect_upgrade_target env ctx conn domain host_port of
           (Inl e, es) \<Rightarrow>
             (case audit_deny (deny_entry env ctx meta (target_connect_reason e) rule_id)
                     (target_connect_reason e) of (r, es') \<Rightarrow> (r, es @ es'))
         | (Inr target, es) \<Rightarrow>
             if \<not> env_write_upgrade env target raw
             then (RBlock TargetTlsError, es @ [EWriteUpgrade raw])
             else case read_target_head [] (env_chunks env target) of
               None \<Rightarrow> (RBlock TargetTlsError, es @ [EWriteUpgrade raw])
             | Some resp_buf \<Rightarrow>
                 let status = parse_status_line resp_buf in
                 (case audit_allow env (allow_entry env ctx conn meta reas status alert rule_id) of
                    (Some blocked, es') \<Rightarrow> (blocked, es @ [EWriteUpgrade raw] @ es')
                  | (None, es') \<Rightarrow>
                      (build_upgrade_response (env_http env) resp_buf status,
                       es @ [EWriteUpgrade raw] @ es' @ [ETunnel (split_leftover resp_buf)])))"

section \<open>The inference branch\<close>

fun apply_modification ::
  "http_lib \<Rightarrow> inference_modification \<Rightarrow> headers \<times> string \<Rightarrow> headers \<times> string" where
  "apply_modification lib m (hs, body) =
     (case im_target m of
        ModHeader \<Rightarrow>
          (case header_name_from lib (im_key m) of
             Some name \<Rightarrow>
               if header_value_ok lib (im_value m) then
                 (case im_action m of
                    ModAdd \<Rightarrow>
                      (if header_get hs name = None then header_insert name (im_value m) hs else hs, body)
                  | ModModify \<Rightarrow> (header_insert name (im_value m) hs, body))
               else (hs, body)
           | None \<Rightarrow> (hs, body))
      | ModBody \<Rightarrow> (hs, im_value m))"

definition apply_inference_modifications ::
  "http_lib \<Rightarrow> headers \<Rightarrow> string \<Rightarrow> inference_modification list \<Rightarrow> headers \<times> string" where
  "apply_inference_modifications lib hs body ms =
     foldl (\<lambda>hb m. apply_modification lib m hb) (hs, body) ms"

definition normalize_buffered_headers :: "nat \<Rightarrow> headers \<Rightarrow> headers" where
  "normalize_buffered_headers body_len hs =
     header_insert ''content-length'' (dec_string body_len) (header_remove ''transfer-encoding'' hs)"

definition route_decision :: "server_env \<Rightarrow> inference_request \<Rightarrow> inference_route_result" where
  "route_decision env req = (case env_router env req of Some r \<Rightarrow> r | None \<Rightarrow> block_result)"

definition inference_deny ::
  "server_env \<Rightarrow> serve_context \<Rightarrow> conn_context \<Rightarrow> request \<Rightarrow> string \<Rightarrow> reply \<times> effect list" where
  "inference_deny env ctx conn req domain =
     audit_deny
       (deny_entry env ctx
          \<lparr>mt_container_id = cc_container_id conn, mt_domain = domain, mt_request = req,
           mt_target_ips = None\<rparr> InferenceRoute None)
       InferenceRoute"

definition handle_inference_connect ::
  "server_env \<Rightarrow> serve_context \<Rightarrow> conn_context \<Rightarrow> request \<Rightarrow> string \<Rightarrow> u16 option \<Rightarrow>
     reply \<times> effect list" where
  "handle_inference_connect env ctx conn req domain host_port =
     (let route_req = \<lparr>iq_headers = rq_headers req, iq_body = []\<rparr>;
          decision = route_decision env route_req
      in if ir_result decision = InfBlock then
           (case inference_deny env ctx conn req domain of (r, es) \<Rightarrow> (r, ERoute route_req # es))
         else
           (case establish_connect_tunnel env ctx conn req domain (cc_container_id conn)
                   InferenceRoute False None host_port None of
              (r, es) \<Rightarrow> (r, ERoute route_req # es)))"

definition handle_inference ::
  "server_env \<Rightarrow> serve_context \<Rightarrow> conn_context \<Rightarrow> request \<Rightarrow> string \<Rightarrow> u16 option \<Rightarrow>
     reply \<times> effect list" where
  "handle_inference env ctx conn req domain host_port =
     (if rq_method req = ''CONNECT'' then handle_inference_connect env ctx conn req domain host_port
      else case env_collect env of
        None \<Rightarrow> (RBlock ConfigNotFound, [])
      | Some body \<Rightarrow>
          let route_req = \<lparr>iq_headers = rq_headers req, iq_body = utf8_lossy body\<rparr>;
              decision = route_decision env route_req
          in (case ir_result decision of
                InfBlock \<Rightarrow>
                  (case inference_deny env ctx conn req domain of (r, es) \<Rightarrow> (r, ERoute route_req # es))
              | res \<Rightarrow>
                  (let (hs, body') =
                     (case res of
                        InfModified \<Rightarrow>
                          apply_inference_modifications (env_http env) (rq_headers req) body
                            (ir_modifications decision)
                      | _ \<Rightarrow> (rq_headers req, body));
                     fwd_req = req\<lparr>rq_headers := normalize_buffered_headers (length body') hs,
                                   rq_body := body'\<rparr>
                   in case forward_request env ctx conn fwd_req domain (cc_container_id conn)
                             InferenceRoute False None host_port None of
                        (r, es) \<Rightarrow> (r, ERoute route_req # es))))"

section \<open>One request\<close>

definition target_ip_string :: "ip_addr list \<Rightarrow> string option" where
  "target_ip_string ips = (if ips = [] then None else Some (join_with '','' (map ip_string ips)))"

text \<open>Steps 3 to 5 of \<open>handle_request\<close>: evaluation, then the branch the decision selects.\<close>

definition decide_and_forward ::
  "server_env \<Rightarrow> serve_context \<Rightarrow> conn_context \<Rightarrow> request \<Rightarrow> string \<Rightarrow> u16 option \<Rightarrow> filter_config \<Rightarrow>
     ip_addr list \<Rightarrow> reply \<times> effect list" where
  "decide_and_forward env ctx conn req domain host_port fc target_ips =
     (let container_id = cc_container_id conn;
          target_port = (case host_port of Some p \<Rightarrow> p
                         | None \<Rightarrow> if cc_plaintext conn then 80 else 443);
          target_ip_str = target_ip_string target_ips;
          d = evaluate (env_build env) container_id domain (rq_method req) (uri_path (rq_uri req))
                (cc_binary_path conn) target_ips target_port fc
      in if d_action d = Deny then
           audit_deny
             (deny_entry env ctx
                \<lparr>mt_container_id = container_id, mt_domain = domain, mt_request = req,
                 mt_target_ips = target_ip_str\<rparr> (d_reason d) (d_rule_id d))
             (d_reason d)
         else if rq_method req = ''CONNECT'' then
           establish_connect_tunnel env ctx conn req domain container_id (d_reason d) (d_alert d)
             (d_rule_id d) host_port target_ip_str
         else if is_upgrade_request (env_http env) req then
           handle_upgrade env ctx conn req domain container_id (d_reason d) (d_alert d)
             (d_rule_id d) host_port target_ip_str
         else
           forward_request env ctx conn req domain container_id (d_reason d) (d_alert d)
             (d_rule_id d) host_port target_ip_str)"

definition handle_request ::
  "server_env \<Rightarrow> serve_context \<Rightarrow> conn_context \<Rightarrow> request \<Rightarrow> dns_cache \<Rightarrow>
     reply \<times> effect list \<times> dns_cache" where
  "handle_request env ctx conn req0 cache =
     (case resolve_host (env_http env) conn req0 of
        None \<Rightarrow>
          (case config_missing_response env ctx conn req0 ''-'' of (r, es) \<Rightarrow> (r, es, cache))
      | Some (domain, host_port) \<Rightarrow>
          let req = normalize_connect_uri req0;
              container_id = cc_container_id conn;
              meta = \<lparr>mt_container_id = container_id, mt_domain = domain, mt_request = req,
                      mt_target_ips = None\<rparr>
          in if \<not> is_upgrade_request (env_http env) req \<and> inference_route_hit ctx domain req then
               (case handle_inference env ctx conn req domain host_port of
                  (r, es) \<Rightarrow> (r, es, cache))
             else case config_for (sc_registry ctx) container_id of
               None \<Rightarrow>
                 (case config_missing_response env ctx conn req domain of (r, es) \<Rightarrow> (r, es, cache))
             | Some fc \<Rightarrow>
                 if has_binary_condition fc \<and> cc_binary_path conn = None then
                   (case audit_deny (deny_entry env ctx meta BinaryNotFound None) BinaryNotFound of
                      (r, es) \<Rightarrow> (r, es, cache))
                 else
                   (case (if has_ip_condition fc then resolve_target_ips env domain cache
                          else (Some [], [], cache)) of
                      (None, es, cache') \<Rightarrow>
                        (case audit_deny (deny_entry env ctx meta DnsResolveError None)
                                DnsResolveError of (r, es') \<Rightarrow> (r, es @ es', cache'))
                    | (Some target_ips, es, cache') \<Rightarrow>
                        (case decide_and_forward env ctx conn req domain host_port fc target_ips of
                           (r, es') \<Rightarrow> (r, es @ es', cache'))))"

end
