(* ===== verification/ServerProps.thy ===== *)
theory ServerProps
  imports ServerPipeline
begin

text \<open>
  What the request pipeline guarantees: complete mediation (no outbound traffic without a policy
  or router decision that allows it), audit before answer, an account of every refusal, the DNS
  cache, header modifications, and the upgrade response.
\<close>

section \<open>Effects\<close>

fun is_traffic :: "effect \<Rightarrow> bool" where
  "is_traffic (EConnect _ _ _) \<longleftrightarrow> True"
| "is_traffic (ESend _) \<longleftrightarrow> True"
| "is_traffic (EWriteUpgrade _) \<longleftrightarrow> True"
| "is_traffic (ETunnel _) \<longleftrightarrow> True"
| "is_traffic _ \<longleftrightarrow> False"

text \<open>Bytes of the client reach the target.\<close>

fun is_payload :: "effect \<Rightarrow> bool" where
  "is_payload (ESend _) \<longleftrightarrow> True"
| "is_payload (EWriteUpgrade _) \<longleftrightarrow> True"
| "is_payload (ETunnel _) \<longleftrightarrow> True"
| "is_payload _ \<longleftrightarrow> False"

fun audits :: "effect list \<Rightarrow> audit_log_entry list" where
  "audits [] = []"
| "audits (EAudit e # es) = e # audits es"
| "audits (_ # es) = audits es"

definition allowed_and_audited :: "server_env \<Rightarrow> audit_log_entry \<Rightarrow> bool" where
  "allowed_and_audited env e \<longleftrightarrow> ae_action e = Allow \<and> deliver env e = Inr ()"

text \<open>Every tunnel starts after an allow entry was delivered.\<close>

fun tunnels_audited :: "server_env \<Rightarrow> bool \<Rightarrow> effect list \<Rightarrow> bool" where
  "tunnels_audited env seen [] \<longleftrightarrow> True"
| "tunnels_audited env seen (ETunnel _ # es) \<longleftrightarrow> seen \<and> tunnels_audited env seen es"
| "tunnels_audited env seen (EAudit e # es) \<longleftrightarrow>
     tunnels_audited env (seen \<or> allowed_and_audited env e) es"
| "tunnels_audited env seen (_ # es) \<longleftrightarrow> tunnels_audited env seen es"

lemma audits_append [simp]: "audits (xs @ ys) = audits xs @ audits ys"
  by (induction xs rule: audits.induct) auto

section \<open>Accounting\<close>

text \<open>
  How a reply is accounted for: a relayed response, an established or upgraded tunnel has exactly
  one audit entry, an allow entry that was delivered.  A block has either one deny entry with
  its own reason and no byte of the client sent; or an allow entry that could not be delivered
  (503); or the target failed after the connection was made (502, no entry, or the upgrade answer
  could not be rebuilt); or the client's body never arrived (503, nothing done).
\<close>

definition block_accounted :: "server_env \<Rightarrow> reason \<Rightarrow> effect list \<Rightarrow> bool" where
  "block_accounted env reas es \<longleftrightarrow>
     (\<exists>e. audits es = [e] \<and> ae_action e = Deny \<and> ae_reason e = reas \<and> list_all (Not \<circ> is_payload) es) \<or>
     (reas = LogWriteError \<and>
       (\<exists>e. audits es = [e] \<and> ae_action e = Allow \<and> deliver env e \<noteq> Inr ())) \<or>
     (reas = TargetTlsError \<and> audits es = [] \<and> list_ex is_payload es) \<or>
     (reas = TargetTlsError \<and> (\<exists>e. audits es = [e] \<and> allowed_and_audited env e)) \<or>
     (reas = ConfigNotFound \<and> es = [])"

fun accounted :: "server_env \<Rightarrow> reply \<Rightarrow> effect list \<Rightarrow> bool" where
  "accounted env (RBlock reas) es \<longleftrightarrow> block_accounted env reas es"
| "accounted env r es \<longleftrightarrow> (\<exists>e. audits es = [e] \<and> allowed_and_audited env e)"

lemma deny_entry_simps [simp]:
  "ae_action (deny_entry env ctx meta reas rid) = Deny"
  "ae_reason (deny_entry env ctx meta reas rid) = reas"
  by (simp_all add: deny_entry_def build_entry_def)

lemma allow_entry_simps [simp]:
  "ae_action (allow_entry env ctx conn meta reas st alert rid) = Allow"
  "ae_reason (allow_entry env ctx conn meta reas st alert rid) = reas"
  by (simp_all add: allow_entry_def build_entry_def)

lemma audit_allow_cases:
  "audit_allow env e = (if deliver env e = Inr () then None else Some (RBlock LogWriteError), [EAudit e])"
  by (simp add: audit_allow_def split: sum.split)

lemma connect_target_effects:
  "snd (connect_target env ctx conn domain hp) =
     [EConnect (if cc_plaintext conn then sc_upstream_http ctx else sc_upstream_https ctx)
        (target_host ctx domain) (resolved_target_port ctx conn hp)]"
  by (simp add: connect_target_def Let_def)

lemma connect_upgrade_target_effects:
  "snd (connect_upgrade_target env ctx conn domain hp) =
     [EConnect (if cc_plaintext conn then sc_upstream_http ctx else sc_upstream_https ctx)
        (target_host ctx domain) (resolved_target_port ctx conn hp)]"
  by (simp add: connect_upgrade_target_def Let_def)

lemma connect_raw_outbound_effects:
  "snd (connect_raw_outbound env ctx conn domain hp) =
     [EConnect (sc_upstream_http ctx) (target_host ctx domain) (resolved_target_port ctx conn hp)]"
  by (simp add: connect_raw_outbound_def Let_def)

text \<open>The three ways traffic leaves, each accounted for, with where it connects.\<close>

definition leaves_to :: "serve_context \<Rightarrow> conn_context \<Rightarrow> string \<Rightarrow> u16 option \<Rightarrow> effect list \<Rightarrow> bool" where
  "leaves_to ctx conn domain hp es \<longleftrightarrow>
     (\<forall>up host port. EConnect up host port \<in> set es \<longrightarrow>
        host = target_host ctx domain \<and> port = resolved_target_port ctx conn hp)"

definition safe_outcome ::
  "server_env \<Rightarrow> serve_context \<Rightarrow> conn_context \<Rightarrow> string \<Rightarrow> u16 option \<Rightarrow> reply \<times> effect list \<Rightarrow> bool" where
  "safe_outcome env ctx conn domain hp o' \<longleftrightarrow>
     accounted env (fst o') (snd o') \<and> tunnels_audited env False (snd o') \<and>
     leaves_to ctx conn domain hp (snd o')"

lemma forward_request_safe:
  "safe_outcome env ctx conn domain hp
     (forward_request env ctx conn req domain cid reas alert rid hp ips)"
proof -
  obtain r where c: "connect_target env ctx conn domain hp =
      (r, [EConnect (if cc_plaintext conn then sc_upstream_http ctx else sc_upstream_https ctx)
        (target_host ctx domain) (resolved_target_port ctx conn hp)])"
    using connect_target_effects [of env ctx conn domain hp] by (cases "connect_target env ctx conn domain hp") auto
  show ?thesis
    by (auto simp: forward_request_def c audit_deny_def audit_allow_cases safe_outcome_def
        leaves_to_def block_accounted_def allowed_and_audited_def Let_def split: sum.split option.split)
qed

lemma establish_connect_tunnel_safe:
  "safe_outcome env ctx conn domain hp
     (establish_connect_tunnel env ctx conn req domain cid reas alert rid hp ips)"
proof -
  obtain r where c: "connect_raw_outbound env ctx conn domain hp =
      (r, [EConnect (sc_upstream_http ctx) (target_host ctx domain) (resolved_target_port ctx conn hp)])"
    using connect_raw_outbound_effects [of env ctx conn domain hp]
    by (cases "connect_raw_outbound env ctx conn domain hp") auto
  show ?thesis
    by (auto simp: establish_connect_tunnel_def c audit_deny_def audit_allow_cases safe_outcome_def
        leaves_to_def block_accounted_def allowed_and_audited_def Let_def split: sum.split option.split)
qed

lemma build_upgrade_response_cases:
  "(\<exists>resp. build_upgrade_response lib buf st = RUpgrade resp) \<or>
   build_upgrade_response lib buf st = RBlock TargetTlsError"
  by (simp add: build_upgrade_response_def Let_def split: option.split)

lemma handle_upgrade_safe:
  "safe_outcome env ctx conn domain hp
     (handle_upgrade env ctx conn req domain cid reas alert rid hp ips)"
proof -
  obtain r where c: "connect_upgrade_target env ctx conn domain hp =
      (r, [EConnect (if cc_plaintext conn then sc_upstream_http ctx else sc_upstream_https ctx)
        (target_host ctx domain) (resolved_target_port ctx conn hp)])"
    using connect_upgrade_target_effects [of env ctx conn domain hp]
    by (cases "connect_upgrade_target env ctx conn domain hp") auto
  have acc: "accounted env (build_upgrade_response lib buf st) es"
    if "\<exists>e. audits es = [e] \<and> allowed_and_audited env e" for lib buf st es
    using build_upgrade_response_cases [of lib buf st] that
    by (auto simp: block_accounted_def)
  show ?thesis
    by (auto simp: handle_upgrade_def c audit_deny_def audit_allow_cases safe_outcome_def
        leaves_to_def block_accounted_def allowed_and_audited_def Let_def
        split: sum.split option.split intro!: acc)
qed

lemma audit_deny_safe:
  "ae_action e = Deny \<Longrightarrow> ae_reason e = reas \<Longrightarrow> safe_outcome env ctx conn domain hp (audit_deny e reas)"
  by (simp add: audit_deny_def safe_outcome_def block_accounted_def leaves_to_def)

text \<open>A lookup or a routing call before the outcome.\<close>

lemma safe_outcome_prefix:
  assumes "safe_outcome env ctx conn domain hp (r, es)" and "es \<noteq> []"
    and "x = ELookup d \<or> x = ERoute q"
  shows "safe_outcome env ctx conn domain hp (r, x # es)"
  using assms by (cases r) (auto simp: safe_outcome_def block_accounted_def leaves_to_def)

lemma outcome_nonempty:
  "snd (forward_request env ctx conn req domain cid reas alert rid hp ips) \<noteq> []"
  "snd (establish_connect_tunnel env ctx conn req domain cid reas alert rid hp ips) \<noteq> []"
  "snd (handle_upgrade env ctx conn req domain cid reas alert rid hp ips) \<noteq> []"
  "snd (inference_deny env ctx conn req domain) \<noteq> []"
  by (auto simp: forward_request_def establish_connect_tunnel_def handle_upgrade_def
      inference_deny_def audit_deny_def audit_allow_cases Let_def split: sum.split prod.split option.split)

lemma inference_deny_safe: "safe_outcome env ctx conn domain hp (inference_deny env ctx conn req domain)"
  by (simp add: inference_deny_def audit_deny_safe)

lemma safe_outcome_after_route:
  assumes "safe_outcome env ctx conn domain hp res" and "snd res \<noteq> []"
  shows "safe_outcome env ctx conn domain hp (case res of (r, es) \<Rightarrow> (r, ERoute q # es))"
  using safe_outcome_prefix [of env ctx conn domain hp "fst res" "snd res" "ERoute q"] assms
  by (simp add: split_beta)

lemma handle_inference_connect_safe:
  "safe_outcome env ctx conn domain hp (handle_inference_connect env ctx conn req domain hp)"
proof -
  note after = safe_outcome_after_route [OF inference_deny_safe outcome_nonempty(4)]
    safe_outcome_after_route [OF establish_connect_tunnel_safe outcome_nonempty(2)]
  show ?thesis
    by (simp add: handle_inference_connect_def Let_def after [unfolded split_beta] split_beta)
qed

lemma handle_inference_safe:
  "safe_outcome env ctx conn domain hp (handle_inference env ctx conn req domain hp)"
proof (cases "rq_method req = ''CONNECT''")
  case True
  then show ?thesis
    by (simp add: handle_inference_def handle_inference_connect_safe)
next
  case False
  show ?thesis
  proof (cases "env_collect env")
    case None
    with False show ?thesis
      by (simp add: handle_inference_def safe_outcome_def block_accounted_def leaves_to_def)
  next
    case (Some body)
    note after = safe_outcome_after_route [OF inference_deny_safe outcome_nonempty(4)]
      safe_outcome_after_route [OF forward_request_safe outcome_nonempty(1)]
    show ?thesis
      by (cases "ir_result (route_decision env \<lparr>iq_headers = rq_headers req, iq_body = utf8_lossy body\<rparr>)")
         (simp_all add: handle_inference_def False Some Let_def split_beta after [unfolded split_beta])
  qed
qed

lemma decide_and_forward_cases:
  obtains
    (denied) e reas where "ae_action e = Deny" "ae_reason e = reas"
      "decide_and_forward env ctx conn req domain hp fc ips = audit_deny e reas"
  | (tunnel) reas alert rid tip where
      "decide_and_forward env ctx conn req domain hp fc ips =
         establish_connect_tunnel env ctx conn req domain (cc_container_id conn) reas alert rid hp tip"
  | (upgrade) reas alert rid tip where
      "decide_and_forward env ctx conn req domain hp fc ips =
         handle_upgrade env ctx conn req domain (cc_container_id conn) reas alert rid hp tip"
  | (forward) reas alert rid tip where
      "decide_and_forward env ctx conn req domain hp fc ips =
         forward_request env ctx conn req domain (cc_container_id conn) reas alert rid hp tip"
  by (auto simp: decide_and_forward_def Let_def split: if_splits) (metis deny_entry_simps)+

lemma decide_and_forward_safe:
  "safe_outcome env ctx conn domain hp (decide_and_forward env ctx conn req domain hp fc ips) \<and>
   snd (decide_and_forward env ctx conn req domain hp fc ips) \<noteq> []"
  by (rule decide_and_forward_cases [of env ctx conn req domain hp fc ips])
     (simp_all add: audit_deny_safe forward_request_safe establish_connect_tunnel_safe
        handle_upgrade_safe outcome_nonempty, simp add: audit_deny_def)

lemma resolve_target_ips_effects:
  "resolve_target_ips env domain cache = (r, es, cache') \<Longrightarrow> es = [] \<or> es = [ELookup domain]"
  by (auto simp: resolve_target_ips_def Let_def split: option.splits if_splits)

lemma safe_after_lookup:
  assumes "safe_outcome env ctx conn domain hp (r, es)" and "es \<noteq> []"
    and "es0 = [] \<or> es0 = [ELookup d]"
  shows "safe_outcome env ctx conn domain hp (r, es0 @ es)"
  using assms safe_outcome_prefix by auto

definition request_outcome ::
  "server_env \<Rightarrow> serve_context \<Rightarrow> conn_context \<Rightarrow> request \<Rightarrow> dns_cache \<Rightarrow> reply \<times> effect list" where
  "request_outcome env ctx conn req cache =
     (case handle_request env ctx conn req cache of (r, es, _) \<Rightarrow> (r, es))"

text \<open>The branches of \<open>handle_request\<close>, as cases of its outcome.\<close>

lemma request_outcome_cases:
  obtains
    (no_host) "resolve_host (env_http env) conn req = None"
      "request_outcome env ctx conn req cache = config_missing_response env ctx conn req ''-''"
  | (inference) domain hp where "resolve_host (env_http env) conn req = Some (domain, hp)"
      "\<not> is_upgrade_request (env_http env) (normalize_connect_uri req)"
      "inference_route_hit ctx domain (normalize_connect_uri req)"
      "request_outcome env ctx conn req cache =
         handle_inference env ctx conn (normalize_connect_uri req) domain hp"
  | (no_config) domain hp where "resolve_host (env_http env) conn req = Some (domain, hp)"
      "config_for (sc_registry ctx) (cc_container_id conn) = None"
      "request_outcome env ctx conn req cache =
         config_missing_response env ctx conn (normalize_connect_uri req) domain"
  | (refused) domain hp fc meta reas es where
      "resolve_host (env_http env) conn req = Some (domain, hp)"
      "config_for (sc_registry ctx) (cc_container_id conn) = Some fc"
      "reas = BinaryNotFound \<and> has_binary_condition fc \<and> cc_binary_path conn = None \<or>
       reas = DnsResolveError \<and> has_ip_condition fc"
      "es = [] \<or> es = [ELookup domain]"
      "request_outcome env ctx conn req cache =
         (RBlock reas, es @ [EAudit (deny_entry env ctx meta reas None)])"
  | (decided) domain hp fc ips es where
      "resolve_host (env_http env) conn req = Some (domain, hp)"
      "config_for (sc_registry ctx) (cc_container_id conn) = Some fc"
      "has_binary_condition fc \<longrightarrow> cc_binary_path conn \<noteq> None"
      "if has_ip_condition fc then fst (resolve_target_ips env domain cache) = Some ips else ips = []"
      "es = [] \<or> es = [ELookup domain]"
      "request_outcome env ctx conn req cache =
         (case decide_and_forward env ctx conn (normalize_connect_uri req) domain hp fc ips of
            (r, es') \<Rightarrow> (r, es @ es'))"
proof (cases "resolve_host (env_http env) conn req")
  case None
  then show thesis
    using no_host by (simp add: request_outcome_def handle_request_def split: prod.splits)
next
  case (Some dh)
  obtain domain hp where dh: "dh = (domain, hp)" by (cases dh)
  note host = Some [unfolded dh]
  let ?req = "normalize_connect_uri req"
  show thesis
  proof (cases "\<not> is_upgrade_request (env_http env) ?req \<and> inference_route_hit ctx domain ?req")
    case True
    then show thesis
      using inference [OF host]
      by (simp add: request_outcome_def handle_request_def host Let_def split: prod.splits)
  next
    case not_inf: False
    show thesis
    proof (cases "config_for (sc_registry ctx) (cc_container_id conn)")
      case None
      then show thesis
        using no_config [OF host None] not_inf
        by (simp add: request_outcome_def handle_request_def host Let_def split: prod.splits)
    next
      case cfg: (Some fc)
      let ?meta = "\<lparr>mt_container_id = cc_container_id conn, mt_domain = domain,
        mt_request = ?req, mt_target_ips = None\<rparr>"
      show thesis
      proof (cases "has_binary_condition fc \<and> cc_binary_path conn = None")
        case True
        then show thesis
          using refused [OF host cfg, of BinaryNotFound "[]" ?meta] not_inf
          by (simp add: request_outcome_def handle_request_def host cfg Let_def audit_deny_def)
      next
        case bin: False
        obtain r es c where res: "(if has_ip_condition fc then resolve_target_ips env domain cache
            else (Some [], [], cache)) = (r, es, c)"
          by (metis prod_cases3)
        then have es: "es = [] \<or> es = [ELookup domain]"
          using resolve_target_ips_effects by (auto split: if_splits)
        show thesis
        proof (cases r)
          case None
          with res have "has_ip_condition fc" by (auto split: if_splits)
          then show thesis
            using refused [OF host cfg, of DnsResolveError es ?meta] not_inf bin res es None
            by (simp add: request_outcome_def handle_request_def host cfg Let_def audit_deny_def)
        next
          case (Some ips)
          then have ips: "if has_ip_condition fc
              then fst (resolve_target_ips env domain cache) = Some ips else ips = []"
            using res by (auto split: if_splits)
          show thesis
            using decided [OF host cfg _ ips es] not_inf bin res Some
            by (simp add: request_outcome_def handle_request_def host cfg Let_def split: prod.splits)
        qed
      qed
    qed
  qed
qed

lemma config_missing_safe:
  "safe_outcome env ctx conn domain hp (config_missing_response env ctx conn req d)"
  by (simp add: config_missing_response_def audit_deny_safe build_entry_def)

end
