(* ===== verification/Mediation.thy ===== *)
theory Mediation
  imports ServerProps
begin

text \<open>
  The security properties of \<open>handle_request\<close>: complete mediation of outbound traffic, an account
  of every reply, no answer without a log sink, and the exchanges that fail without an audit entry.
\<close>

section \<open>Decisions that let traffic out\<close>

text \<open>The request was routed first, and the router did not block it.\<close>

definition routed ::
  "server_env \<Rightarrow> serve_context \<Rightarrow> string \<Rightarrow> request \<Rightarrow> effect list \<Rightarrow> bool" where
  "routed env ctx domain req es \<longleftrightarrow>
     \<not> is_upgrade_request (env_http env) req \<and> inference_route_hit ctx domain req \<and>
     (\<exists>q es'. es = ERoute q # es' \<and> iq_headers q = rq_headers req \<and>
        ir_result (route_decision env q) \<noteq> InfBlock)"

text \<open>The container has a policy whose evaluation on the complete request data allows it.\<close>

definition policy_allows ::
  "server_env \<Rightarrow> serve_context \<Rightarrow> conn_context \<Rightarrow> string \<Rightarrow> u16 option \<Rightarrow> request \<Rightarrow> dns_cache \<Rightarrow> bool"
where
  "policy_allows env ctx conn domain hp req cache \<longleftrightarrow>
     (\<exists>fc ips. config_for (sc_registry ctx) (cc_container_id conn) = Some fc \<and>
        (has_binary_condition fc \<longrightarrow> cc_binary_path conn \<noteq> None) \<and>
        (if has_ip_condition fc then fst (resolve_target_ips env domain cache) = Some ips else ips = []) \<and>
        d_action (evaluate (env_build env) (cc_container_id conn) domain (rq_method req)
          (uri_path (rq_uri req)) (cc_binary_path conn) ips
          (case hp of Some p \<Rightarrow> p | None \<Rightarrow> if cc_plaintext conn then 80 else 443) fc) = Allow)"

lemma no_traffic_deny [simp]:
  "\<not> list_ex is_traffic (snd (audit_deny e reas))"
  "\<not> list_ex is_traffic (snd (config_missing_response env ctx conn req d))"
  "\<not> list_ex is_traffic (snd (inference_deny env ctx conn req d))"
  by (simp_all add: audit_deny_def config_missing_response_def inference_deny_def)

lemma decide_and_forward_traffic:
  assumes "list_ex is_traffic (snd (decide_and_forward env ctx conn req domain hp fc ips))"
  shows "d_action (evaluate (env_build env) (cc_container_id conn) domain (rq_method req)
     (uri_path (rq_uri req)) (cc_binary_path conn) ips
     (case hp of Some p \<Rightarrow> p | None \<Rightarrow> if cc_plaintext conn then 80 else 443) fc) = Allow"
  using assms
  by (cases "d_action (evaluate (env_build env) (cc_container_id conn) domain (rq_method req)
     (uri_path (rq_uri req)) (cc_binary_path conn) ips
     (case hp of Some p \<Rightarrow> p | None \<Rightarrow> if cc_plaintext conn then 80 else 443) fc)")
     (simp_all add: decide_and_forward_def Let_def)

lemma handle_inference_traffic:
  assumes "list_ex is_traffic (snd (handle_inference env ctx conn req domain hp))"
  shows "\<exists>q es'. snd (handle_inference env ctx conn req domain hp) = ERoute q # es' \<and>
     iq_headers q = rq_headers req \<and> ir_result (route_decision env q) \<noteq> InfBlock"
proof (cases "rq_method req = ''CONNECT''")
  case True
  with assms show ?thesis
    by (simp add: handle_inference_def handle_inference_connect_def Let_def split_beta split: if_splits)
next
  case False
  with assms obtain body where body: "env_collect env = Some body"
    by (cases "env_collect env") (simp_all add: handle_inference_def)
  show ?thesis
    using assms False
    by (cases "ir_result (route_decision env \<lparr>iq_headers = rq_headers req, iq_body = utf8_lossy body\<rparr>)")
       (simp_all add: handle_inference_def body Let_def split_beta)
qed

lemma request_outcome_safe:
  obtains (no_host) "resolve_host (env_http env) conn req = None"
      "safe_outcome env ctx conn d hp' (request_outcome env ctx conn req cache)"
      "\<not> list_ex is_traffic (snd (request_outcome env ctx conn req cache))"
  | (host) domain hp where "resolve_host (env_http env) conn req = Some (domain, hp)"
      "safe_outcome env ctx conn domain hp (request_outcome env ctx conn req cache)"
      "list_ex is_traffic (snd (request_outcome env ctx conn req cache)) \<Longrightarrow>
         routed env ctx domain (normalize_connect_uri req)
           (snd (request_outcome env ctx conn req cache)) \<or>
         policy_allows env ctx conn domain hp (normalize_connect_uri req) cache"
proof (rule request_outcome_cases [of env conn req ctx cache])
  assume "resolve_host (env_http env) conn req = None"
    and "request_outcome env ctx conn req cache = config_missing_response env ctx conn req ''-''"
  then show thesis using no_host config_missing_safe by simp
next
  fix domain hp
  assume "resolve_host (env_http env) conn req = Some (domain, hp)"
    "\<not> is_upgrade_request (env_http env) (normalize_connect_uri req)"
    "inference_route_hit ctx domain (normalize_connect_uri req)"
    "request_outcome env ctx conn req cache =
       handle_inference env ctx conn (normalize_connect_uri req) domain hp"
  then show thesis
    using host [of domain hp] handle_inference_safe handle_inference_traffic
    by (simp add: routed_def)
next
  fix domain hp
  assume "resolve_host (env_http env) conn req = Some (domain, hp)"
    "request_outcome env ctx conn req cache =
       config_missing_response env ctx conn (normalize_connect_uri req) domain"
  then show thesis using host [of domain hp] config_missing_safe by simp
next
  fix domain hp fc meta reas es
  assume "resolve_host (env_http env) conn req = Some (domain, hp)"
    and es: "es = [] \<or> es = [ELookup domain]"
    and out: "request_outcome env ctx conn req cache =
      (RBlock reas, es @ [EAudit (deny_entry env ctx meta reas None)])"
  moreover have "safe_outcome env ctx conn domain hp
      (RBlock reas, es @ [EAudit (deny_entry env ctx meta reas None)])"
    using safe_after_lookup [OF _ _ es, of env ctx conn domain hp "RBlock reas"]
      audit_deny_safe [of "deny_entry env ctx meta reas None" reas]
    by (simp add: audit_deny_def)
  moreover have "\<not> list_ex is_traffic (snd (request_outcome env ctx conn req cache))"
    using es out by auto
  ultimately show thesis using host [of domain hp] by simp
next
  fix domain hp fc ips es
  assume "resolve_host (env_http env) conn req = Some (domain, hp)"
    "config_for (sc_registry ctx) (cc_container_id conn) = Some fc"
    "has_binary_condition fc \<longrightarrow> cc_binary_path conn \<noteq> None"
    "if has_ip_condition fc then fst (resolve_target_ips env domain cache) = Some ips else ips = []"
    and es: "es = [] \<or> es = [ELookup domain]"
    and out: "request_outcome env ctx conn req cache =
       (case decide_and_forward env ctx conn (normalize_connect_uri req) domain hp fc ips of
          (r, es') \<Rightarrow> (r, es @ es'))"
  moreover have "policy_allows env ctx conn domain hp (normalize_connect_uri req) cache"
    if "list_ex is_traffic (snd (request_outcome env ctx conn req cache))"
  proof -
    have "list_ex is_traffic
        (snd (decide_and_forward env ctx conn (normalize_connect_uri req) domain hp fc ips))"
      using that es by (auto simp: out split_beta)
    from decide_and_forward_traffic [OF this] show ?thesis
      unfolding policy_allows_def using calculation by blast
  qed
  moreover have "safe_outcome env ctx conn domain hp (request_outcome env ctx conn req cache)"
    using decide_and_forward_safe [of env ctx conn domain hp "normalize_connect_uri req" fc ips]
    by (auto simp: out split_beta intro: safe_after_lookup [OF _ _ es])
  ultimately show thesis using host [of domain hp] by simp
qed

section \<open>A concrete proxy\<close>

definition demo_lib :: http_lib where
  "demo_lib = \<lparr>header_to_str = Some, header_name_from = (\<lambda>n. if n = [] then None else Some n),
     header_value_ok = (\<lambda>v. CHR 0x0A \<notin> set v)\<rparr>"

definition demo_net :: network where
  "demo_net = \<lparr>dial = (\<lambda>_ _. TcpUp []), write_all = (\<lambda>_ _. WriteOk), sni_valid = (\<lambda>_. True),
     tls_connect = (\<lambda>_ _ s. TlsUp s)\<rparr>"

definition demo_response :: http_response where
  "demo_response = \<lparr>hs_status = 204, hs_headers = [], hs_body = []\<rparr>"

definition demo_env :: server_env where
  "demo_env =
     \<lparr>env_build = documented_globset, env_http = demo_lib, env_net = demo_net, env_now = 7,
      env_to_json = (\<lambda>_. Some ''{}''), env_sink = Some (\<lambda>_. Inr ()),
      env_router = (\<lambda>_. None), env_collect = Some ''body'', env_lookup = (\<lambda>_. None),
      env_h1_handshake = (\<lambda>_. True), env_send = (\<lambda>_ _. Some demo_response),
      env_write_upgrade = (\<lambda>_ _. True), env_chunks = (\<lambda>_. [])\<rparr>"

definition demo_registry :: registry where
  "demo_registry = snd (set_container_config ''c1'' demo_config registry_new)"

definition demo_ctx :: serve_context where
  "demo_ctx = serve_context_new demo_registry (\<lambda>_. None)"

definition demo_conn :: conn_context where
  "demo_conn = \<lparr>cc_container_id = ''c1'', cc_binary_path = None, cc_sni = None, cc_plaintext = True,
     cc_peer = (V4 0x7F000001, 4000)\<rparr>"

definition demo_request :: "string \<Rightarrow> request" where
  "demo_request meth =
     \<lparr>rq_method = meth, rq_uri = \<lparr>uri_path = ''/v1/x'', uri_port = None, uri_text = ''/v1/x''\<rparr>,
      rq_headers = [(''host'', ''api.example.com'')], rq_body = []\<rparr>"

lemma demo_resolve_host:
  "resolve_host demo_lib demo_conn (demo_request meth) = Some (''api.example.com'', None)"
  by (simp add: demo_request_def) code_simp

lemma demo_config_for: "config_for demo_registry ''c1'' = Some (normalize_rule_order demo_config)"
  by (simp add: demo_registry_def set_container_config_def config_for_def registry_new_def)

definition demo_outcome :: "string \<Rightarrow> reply \<times> effect list" where
  "demo_outcome meth = request_outcome demo_env demo_ctx demo_conn (demo_request meth) []"

lemma demo_outcomes:
  "\<exists>a b c cache. handle_request demo_env demo_ctx demo_conn (demo_request ''GET'') [] =
     (RRelay demo_response, [EConnect a b c, ESend (demo_request ''GET''),
        EAudit (allow_entry demo_env demo_ctx demo_conn
          \<lparr>mt_container_id = ''c1'', mt_domain = ''api.example.com'',
           mt_request = demo_request ''GET'', mt_target_ips = None\<rparr>
          WhitelistMatch 204 False (Some ''R1''))], cache)"
proof -
  have "handle_request demo_env demo_ctx demo_conn (demo_request ''GET'') [] =
     (RRelay demo_response, [EConnect None ''api.example.com'' 80, ESend (demo_request ''GET''),
        EAudit (allow_entry demo_env demo_ctx demo_conn
          \<lparr>mt_container_id = ''c1'', mt_domain = ''api.example.com'',
           mt_request = demo_request ''GET'', mt_target_ips = None\<rparr>
          WhitelistMatch 204 False (Some ''R1''))], [])"
    by code_simp
  then show ?thesis by blast
qed

section \<open>Complete mediation\<close>

text \<open>
  C1. If handling a request makes the proxy connect, send or tunnel anything at all, then the
  request's host was determined, every connection goes to that host and port (or the configured
  override), and either the inference router was consulted first with the request's own headers
  and did not block, for a non-upgrade request on a configured inference route, or the container
  has a policy, its conditions could be decided (binary path known, addresses resolved), and the
  engine's decision on the normalised request is Allow.
\<close>

theorem complete_mediation:
  assumes out: "handle_request env ctx conn req cache = (r, es, cache')"
    and traffic: "x \<in> set es" "is_traffic x"
  shows "\<exists>domain hp. resolve_host (env_http env) conn req = Some (domain, hp) \<and>
    leaves_to ctx conn domain hp es \<and>
    (routed env ctx domain (normalize_connect_uri req) es \<or>
     policy_allows env ctx conn domain hp (normalize_connect_uri req) cache)"
proof -
  have o': "request_outcome env ctx conn req cache = (r, es)"
    using out by (simp add: request_outcome_def)
  have ex: "list_ex is_traffic es" using traffic by (auto simp: list_ex_iff)
  show ?thesis
  proof (rule request_outcome_safe [of env conn req ctx "[]" None cache], goal_cases)
    case 1
    with ex o' show ?case by simp
  next
    case (2 domain hp)
    with ex o' show ?case by (auto simp: safe_outcome_def)
  qed
qed

lemma complete_mediation_witness:
  "\<exists>domain hp. resolve_host demo_lib demo_conn (demo_request ''GET'') = Some (domain, hp) \<and>
    (routed demo_env demo_ctx domain (normalize_connect_uri (demo_request ''GET''))
       (snd (demo_outcome ''GET'')) \<or>
     policy_allows demo_env demo_ctx demo_conn domain hp
       (normalize_connect_uri (demo_request ''GET'')) [])"
proof -
  obtain a b c cache e where
    out: "handle_request demo_env demo_ctx demo_conn (demo_request ''GET'') [] =
      (RRelay demo_response, [EConnect a b c, ESend (demo_request ''GET''), EAudit e], cache)"
    using demo_outcomes by blast
  then have "snd (demo_outcome ''GET'') = [EConnect a b c, ESend (demo_request ''GET''), EAudit e]"
    by (simp add: demo_outcome_def request_outcome_def)
  moreover have "env_http demo_env = demo_lib" by (simp add: demo_env_def)
  ultimately show ?thesis
    using complete_mediation [OF out, of "ESend (demo_request ''GET'')"] by auto
qed

section \<open>Every reply is accounted for\<close>

text \<open>
  C2. Every request leaves at most one audit entry.  A relayed response, an established tunnel and
  an upgraded connection have exactly one, an allow entry the log sink accepted, and a tunnel
  starts only after that.  A refusal has a deny entry with the very reason of the refusal and no
  byte of the request was sent; the only refusals without one are those of \<open>block_accounted\<close>.
\<close>

theorem every_request_is_accounted:
  "case handle_request env ctx conn req cache of (r, es, cache') \<Rightarrow>
     accounted env r es \<and> tunnels_audited env False es \<and> length (audits es) \<le> 1"
proof -
  have "safe_outcome env ctx conn d hp o' \<Longrightarrow>
      accounted env (fst o') (snd o') \<and> tunnels_audited env False (snd o') \<and>
      length (audits (snd o')) \<le> 1" for d hp o'
    by (cases "fst o'") (auto simp: safe_outcome_def block_accounted_def)
  then have "accounted env (fst o') (snd o') \<and> tunnels_audited env False (snd o') \<and>
      length (audits (snd o')) \<le> 1" if "o' = request_outcome env ctx conn req cache" for o'
    using request_outcome_safe [of env conn req ctx "[]" None cache] that by metis
  then show ?thesis by (simp add: request_outcome_def split: prod.splits)
qed

lemma no_tunnel_without_audit:
  assumes "tunnels_audited env False es" and "\<And>e. \<not> allowed_and_audited env e"
  shows "ETunnel t \<notin> set es"
  using assms(1)
proof (induction es)
  case (Cons x es)
  then show ?case by (cases x) (simp_all add: assms(2))
qed simp

text \<open>
  C14. Without a log sink (and likewise with one that refuses every audit event, whatever it does
  with the events of the run log) no request is answered from the target: the reply is a block and
  no tunnel is started.
\<close>

theorem no_sink_no_answers:
  assumes "env_sink env = None \<or>
      (\<exists>f. env_sink env = Some f \<and> (\<forall>ev. le_kind ev = KindAudit \<longrightarrow> f ev \<noteq> Inr ()))"
    and "handle_request env ctx conn req cache = (r, es, cache')"
  shows "(\<exists>reas. r = RBlock reas) \<and> (\<forall>t. ETunnel t \<notin> set es)"
proof -
  have no: "\<not> allowed_and_audited env e" for e
    using assms(1)
    by (auto simp: allowed_and_audited_def deliver_def log_audit_def log_emit_def
        split: sum.splits if_splits)
  have "accounted env (fst (request_outcome env ctx conn req cache)) (snd (request_outcome env ctx conn req cache))"
    "tunnels_audited env False (snd (request_outcome env ctx conn req cache))"
    using request_outcome_safe [of env conn req ctx "[]" None cache]
    by (metis safe_outcome_def)+
  then have "accounted env r es" "tunnels_audited env False es"
    using assms(2) by (simp_all add: request_outcome_def)
  with no show ?thesis
    using no_tunnel_without_audit by (cases r) auto
qed

lemma no_sink_no_answers_witness:
  "(\<exists>reas. fst (handle_request (demo_env\<lparr>env_sink := None\<rparr>) demo_ctx demo_conn (demo_request ''GET'') []) =
      RBlock reas)"
  using no_sink_no_answers [of "demo_env\<lparr>env_sink := None\<rparr>" demo_ctx demo_conn "demo_request ''GET''" "[]"]
  by (cases "handle_request (demo_env\<lparr>env_sink := None\<rparr>) demo_ctx demo_conn (demo_request ''GET'') []") auto

section \<open>Exchanges that fail after the connection\<close>

definition send_fails :: "server_env \<Rightarrow> server_env" where
  "send_fails env = env\<lparr>env_send := (\<lambda>_ _. None)\<rparr>"

lemma send_fails_simps [simp]:
  "env_build (send_fails env) = env_build env" "env_http (send_fails env) = env_http env"
  "env_net (send_fails env) = env_net env" "env_router (send_fails env) = env_router env"
  "env_collect (send_fails env) = env_collect env" "env_lookup (send_fails env) = env_lookup env"
  "env_now (send_fails env) = env_now env" "env_sink (send_fails env) = env_sink env"
  "env_h1_handshake (send_fails env) = env_h1_handshake env"
  "env_send (send_fails env) = (\<lambda>_ _. None)"
  by (simp_all add: send_fails_def)

lemma send_fails_ops [simp]:
  "connect_target (send_fails env) = connect_target env"
  "resolve_target_ips (send_fails env) = resolve_target_ips env"
  "route_decision (send_fails env) = route_decision env"
  by (simp_all add: fun_eq_iff connect_target_def resolve_target_ips_def route_decision_def
      hyper_handshake_def [abs_def] Let_def split: option.split)

text \<open>Failed after bytes of the request were sent, and no audit entry was written.\<close>

definition silent_failure :: "reply \<times> effect list \<Rightarrow> bool" where
  "silent_failure o' \<longleftrightarrow>
     fst o' = RBlock TargetTlsError \<and> audits (snd o') = [] \<and> list_ex is_payload (snd o')"

lemma silent_failure_prefix:
  "silent_failure o' \<Longrightarrow> x = ELookup d \<or> x = ERoute q \<Longrightarrow> silent_failure (fst o', x # snd o')"
  by (auto simp: silent_failure_def)

lemma never_relayed [simp]:
  "fst (audit_deny e reas) \<noteq> RRelay resp"
  "fst (config_missing_response env ctx conn req d) \<noteq> RRelay resp"
  "fst (inference_deny env ctx conn req d) \<noteq> RRelay resp"
  "fst (establish_connect_tunnel env ctx conn req d cid reas alert rid hp ips) \<noteq> RRelay resp"
  "fst (handle_upgrade env ctx conn req d cid reas alert rid hp ips) \<noteq> RRelay resp"
proof -
  show "fst (establish_connect_tunnel env ctx conn req d cid reas alert rid hp ips) \<noteq> RRelay resp"
    by (auto simp: establish_connect_tunnel_def Let_def audit_deny_def audit_allow_cases
        split: prod.split sum.split)
  have "build_upgrade_response lib buf st \<noteq> RRelay resp" for lib buf st
    using build_upgrade_response_cases [of lib buf st] by auto
  then show "fst (handle_upgrade env ctx conn req d cid reas alert rid hp ips) \<noteq> RRelay resp"
    by (auto simp: handle_upgrade_def Let_def audit_deny_def audit_allow_cases
        split: prod.split sum.split option.split)
qed (simp_all add: audit_deny_def config_missing_response_def inference_deny_def)

lemma forward_request_send_fails:
  assumes "fst (forward_request env ctx conn req d cid reas alert rid hp ips) = RRelay resp"
  shows "silent_failure (forward_request (send_fails env) ctx conn req d cid reas alert rid hp ips)"
proof -
  obtain res where c: "connect_target env ctx conn d hp =
      (res, [EConnect (if cc_plaintext conn then sc_upstream_http ctx else sc_upstream_https ctx)
        (target_host ctx d) (resolved_target_port ctx conn hp)])"
    using connect_target_effects [of env ctx conn d hp] by (cases "connect_target env ctx conn d hp") auto
  with assms show ?thesis
    by (cases res) (auto simp: forward_request_def audit_deny_def silent_failure_def Let_def)
qed

lemma decide_and_forward_send_fails:
  assumes "fst (decide_and_forward env ctx conn req d hp fc ips) = RRelay resp"
  shows "silent_failure (decide_and_forward (send_fails env) ctx conn req d hp fc ips)"
  using assms
  by (simp add: decide_and_forward_def Let_def forward_request_send_fails split: if_splits)

lemma handle_inference_send_fails:
  assumes "fst (handle_inference env ctx conn req d hp) = RRelay resp"
  shows "silent_failure (handle_inference (send_fails env) ctx conn req d hp)"
proof (cases "rq_method req = ''CONNECT''")
  case True
  with assms show ?thesis
    by (simp add: handle_inference_def handle_inference_connect_def Let_def split_beta split: if_splits)
next
  case False
  with assms obtain body where body: "env_collect env = Some body"
    by (cases "env_collect env") (simp_all add: handle_inference_def)
  show ?thesis
    using assms False
    by (cases "ir_result (route_decision env \<lparr>iq_headers = rq_headers req, iq_body = utf8_lossy body\<rparr>)")
       (simp_all add: handle_inference_def body Let_def split_beta forward_request_send_fails
          silent_failure_prefix)
qed

lemma handle_request_send_fails:
  assumes relayed: "handle_request env ctx conn req cache = (RRelay resp, es, cache')"
  shows "snd (snd (handle_request (send_fails env) ctx conn req cache)) = cache' \<and>
    silent_failure (request_outcome (send_fails env) ctx conn req cache)"
proof -
  let ?req = "normalize_connect_uri req"
  obtain d hp where host: "resolve_host (env_http env) conn req = Some (d, hp)"
    using relayed
    by (cases "resolve_host (env_http env) conn req")
       (auto simp: handle_request_def config_missing_response_def audit_deny_def)
  show ?thesis
  proof (cases "\<not> is_upgrade_request (env_http env) ?req \<and> inference_route_hit ctx d ?req")
    case True
    then show ?thesis
      using relayed handle_inference_send_fails [of env ctx conn ?req d hp resp]
      by (simp add: handle_request_def request_outcome_def host Let_def split_beta)
  next
    case plain: False
    obtain fc where fc: "config_for (sc_registry ctx) (cc_container_id conn) = Some fc"
      using relayed plain
      by (cases "config_for (sc_registry ctx) (cc_container_id conn)")
         (auto simp: handle_request_def host Let_def config_missing_response_def audit_deny_def)
    have bin: "\<not> (has_binary_condition fc \<and> cc_binary_path conn = None)"
      using relayed plain by (auto simp: handle_request_def host Let_def fc audit_deny_def split: if_splits)
    obtain r0 es0 c0 where res: "(if has_ip_condition fc then resolve_target_ips env d cache
        else (Some [], [], cache)) = (r0, es0, c0)"
      by (metis prod_cases3)
    then have es0: "es0 = [] \<or> es0 = [ELookup d]"
      using resolve_target_ips_effects by (auto split: if_splits)
    obtain ips where r0: "r0 = Some ips"
      using relayed plain bin
      by (cases r0) (simp_all add: handle_request_def host Let_def fc res audit_deny_def)
    have eq: "handle_request env' ctx conn req cache =
        (case decide_and_forward env' ctx conn ?req d hp fc ips of (r, es') \<Rightarrow> (r, es0 @ es', c0))"
      if "env' = env \<or> env' = send_fails env" for env'
    proof -
      have same: "env_http env' = env_http env" and
        "(if has_ip_condition fc then resolve_target_ips env' d cache else (Some [], [], cache)) =
         (r0, es0, c0)"
        using that res by auto
      then show ?thesis by (simp add: handle_request_def host Let_def fc r0 plain bin)
    qed
    have "fst (decide_and_forward env ctx conn ?req d hp fc ips) = RRelay resp" "c0 = cache'"
      using relayed by (simp_all add: eq split_beta)
    then show ?thesis
      using decide_and_forward_send_fails [of env ctx conn ?req d hp fc ips resp] es0
      by (auto simp: request_outcome_def eq split_beta silent_failure_def)
  qed
qed

text \<open>
  Take any request whose response the proxy would relay, and let the exchange with the target
  fail instead (the send is refused or times out): the reply is the 502 block, bytes of the request
  have been sent, and no audit entry is written at all, neither allow nor deny.
\<close>

theorem failed_exchange_leaves_no_audit:
  assumes "handle_request env ctx conn req cache = (RRelay resp, es, cache')"
  shows "\<exists>es'. handle_request (send_fails env) ctx conn req cache =
           (RBlock TargetTlsError, es', cache') \<and>
         audits es' = [] \<and> list_ex is_payload es'"
  using handle_request_send_fails [OF assms]
  by (cases "handle_request (send_fails env) ctx conn req cache")
     (simp add: request_outcome_def silent_failure_def)

lemma failed_exchange_leaves_no_audit_witness:
  "\<exists>es' c. handle_request (send_fails demo_env) demo_ctx demo_conn (demo_request ''GET'') [] =
      (RBlock TargetTlsError, es', c) \<and> audits es' = []"
  using demo_outcomes failed_exchange_leaves_no_audit by blast

end
