(* ===== verification/Exchanges.thy ===== *)
theory Exchanges
  imports Mediation
begin

text \<open>
  What is sent and what comes back: the framing of requests the inference branch rewrites, the
  answer to a protocol upgrade, and the process-wide DNS cache over any run of requests.
\<close>

section \<open>Header maps\<close>

lemma header_get_remove [simp]:
  "header_get (header_remove n h) k = (if k = n then None else header_get h k)"
  by (induction h) (auto simp: header_get_def header_remove_def)

lemma header_get_insert [simp]:
  "header_get (header_insert n v h) k = (if k = n then Some v else header_get h k)"
  using header_get_remove [unfolded header_get_def]
  by (induction n v h rule: header_insert.induct) (auto simp: header_get_def)

lemma header_remove_names: "k \<in> fst ` set (header_remove n h) \<longleftrightarrow> k \<in> fst ` set h \<and> k \<noteq> n"
  by (auto simp: header_remove_def)

definition header_count :: "string \<Rightarrow> headers \<Rightarrow> nat" where
  "header_count n h = length (filter (\<lambda>(k, _). k = n) h)"

lemma header_count_remove [simp]: "header_count n (header_remove n h) = 0"
  by (simp add: header_count_def header_remove_def) (auto simp: filter_empty_conv)

lemma header_count_insert [simp]: "header_count n (header_insert n v h) = 1"
  by (induction n v h rule: header_insert.induct)
     (auto simp: header_count_def header_remove_def filter_empty_conv)

section \<open>What the proxy sends\<close>

text \<open>A buffered request is framed by its own length alone.\<close>

definition framed :: "request \<Rightarrow> bool" where
  "framed q \<longleftrightarrow>
     header_get (rq_headers q) ''content-length'' = Some (dec_string (length (rq_body q))) \<and>
     header_count ''content-length'' (rq_headers q) = 1 \<and>
     header_get (rq_headers q) ''transfer-encoding'' = None"

lemma framed_normalized:
  "framed (req\<lparr>rq_headers := normalize_buffered_headers (length body) hs, rq_body := body\<rparr>)"
  by (simp add: framed_def normalize_buffered_headers_def)

fun sent :: "effect list \<Rightarrow> request list" where
  "sent [] = []"
| "sent (ESend q # es) = q # sent es"
| "sent (_ # es) = sent es"

lemma sent_append [simp]: "sent (xs @ ys) = sent xs @ sent ys"
  by (induction xs rule: sent.induct) auto

lemma sent_deny [simp]:
  "sent (snd (audit_deny e reas)) = []"
  "sent (snd (audit_allow env e)) = []"
  "sent (snd (config_missing_response env ctx conn req d)) = []"
  "sent (snd (inference_deny env ctx conn req d)) = []"
  by (simp_all add: audit_deny_def audit_allow_cases config_missing_response_def inference_deny_def)

lemma sent_connect [simp]:
  "sent (snd (connect_target env ctx conn d hp)) = []"
  "sent (snd (connect_upgrade_target env ctx conn d hp)) = []"
  "sent (snd (connect_raw_outbound env ctx conn d hp)) = []"
  by (simp_all add: connect_target_effects connect_upgrade_target_effects connect_raw_outbound_effects)

lemma sent_deny_pair [simp]:
  "audit_deny e reas = (r, es) \<Longrightarrow> sent es = []" "audit_allow env e = (x, es) \<Longrightarrow> sent es = []"
  "connect_target env ctx conn d hp = (y, es) \<Longrightarrow> sent es = []"
  "connect_upgrade_target env ctx conn d hp = (y, es) \<Longrightarrow> sent es = []"
  "connect_raw_outbound env ctx conn d hp = (y, es) \<Longrightarrow> sent es = []"
  using sent_deny(1) [of e reas] sent_deny(2) [of env e] sent_connect [of env ctx conn d hp] by auto

lemma forward_request_sends:
  "set (sent (snd (forward_request env ctx conn req d cid reas alert rid hp ips))) \<subseteq> {req}"
  by (auto simp: forward_request_def Let_def split: prod.splits sum.splits option.splits)

lemma tunnel_and_upgrade_send_nothing [simp]:
  "sent (snd (establish_connect_tunnel env ctx conn req d cid reas alert rid hp ips)) = []"
  "sent (snd (handle_upgrade env ctx conn req d cid reas alert rid hp ips)) = []"
  by (auto simp: establish_connect_tunnel_def handle_upgrade_def Let_def
      split: prod.splits sum.splits option.splits)

lemma decide_and_forward_sends:
  "set (sent (snd (decide_and_forward env ctx conn req d hp fc ips))) \<subseteq> {req}"
  using forward_request_sends by (simp add: decide_and_forward_def Let_def)

text \<open>The request of the inference branch: same method and target, buffered body, own framing.\<close>

definition rewritten :: "request \<Rightarrow> request \<Rightarrow> bool" where
  "rewritten req q \<longleftrightarrow> rq_method q = rq_method req \<and> rq_uri q = rq_uri req \<and> framed q"

lemma handle_inference_sends:
  assumes "q \<in> set (sent (snd (handle_inference env ctx conn req d hp)))"
  shows "rewritten req q"
proof (cases "rq_method req = ''CONNECT''")
  case True
  with assms show ?thesis
    by (simp add: handle_inference_def handle_inference_connect_def Let_def split_beta split: if_splits)
next
  case False
  with assms obtain body where body: "env_collect env = Some body"
    by (cases "env_collect env") (simp_all add: handle_inference_def)
  let ?d = "route_decision env \<lparr>iq_headers = rq_headers req, iq_body = utf8_lossy body\<rparr>"
  have "ir_result ?d \<noteq> InfBlock"
    using assms False by (cases "ir_result ?d") (simp_all add: handle_inference_def body Let_def split_beta)
  then obtain hs b where
    "q \<in> set (sent (snd (forward_request env ctx conn
       (req\<lparr>rq_headers := normalize_buffered_headers (length b) hs, rq_body := b\<rparr>)
       d (cc_container_id conn) InferenceRoute False None hp None)))"
    using assms False by (cases "ir_result ?d") (auto simp: handle_inference_def body Let_def split_beta)
  with forward_request_sends
  have "q = req\<lparr>rq_headers := normalize_buffered_headers (length b) hs, rq_body := b\<rparr>" by fast
  then show ?thesis by (simp add: rewritten_def framed_normalized)
qed

text \<open>
  The only requests the proxy sends are the client's own: on the policy path the request itself
  with at most its CONNECT target normalised, on the inference path one with the same method and
  target whose Content-Length is the length of the body really sent, unique, and with no
  Transfer-Encoding, whatever headers the client or the router's modifications put there.
\<close>

theorem sent_requests_are_the_clients:
  assumes "handle_request env ctx conn req cache = (r, es, cache')" and "ESend q \<in> set es"
  shows "q = normalize_connect_uri req \<or> rewritten (normalize_connect_uri req) q"
proof -
  have sentI: "ESend q \<in> set es \<Longrightarrow> q \<in> set (sent es)" for es
    by (induction es rule: sent.induct) auto
  then have q: "q \<in> set (sent (snd (request_outcome env ctx conn req cache)))"
    using assms by (simp add: request_outcome_def)
  show ?thesis
    by (rule request_outcome_cases [of env conn req ctx cache])
       (use q decide_and_forward_sends in \<open>fastforce dest: handle_inference_sends simp: split_beta\<close>)+
qed

lemma sent_requests_are_the_clients_witness:
  "demo_request ''GET'' = normalize_connect_uri (demo_request ''GET'') \<or>
   rewritten (normalize_connect_uri (demo_request ''GET'')) (demo_request ''GET'')"
proof -
  obtain a b c cache e where
    "handle_request demo_env demo_ctx demo_conn (demo_request ''GET'') [] =
      (RRelay demo_response, [EConnect a b c, ESend (demo_request ''GET''), EAudit e], cache)"
    using demo_outcomes by blast
  from sent_requests_are_the_clients [OF this] show ?thesis by simp
qed

section \<open>The router's modifications\<close>

text \<open>What one modification does to the value of one header, and to the body.\<close>

definition header_effect ::
  "http_lib \<Rightarrow> string \<Rightarrow> string option \<Rightarrow> inference_modification \<Rightarrow> string option" where
  "header_effect lib n v m =
     (if im_target m = ModHeader \<and> header_name_from lib (im_key m) = Some n \<and>
         header_value_ok lib (im_value m) \<and> (im_action m = ModModify \<or> v = None)
      then Some (im_value m) else v)"

definition body_effect :: "string \<Rightarrow> inference_modification \<Rightarrow> string" where
  "body_effect body m = (if im_target m = ModBody then im_value m else body)"

text \<open>
  The router's modifications act on each header and on the body independently and in order: a
  header is what the valid modifications of its own name, in order, make of its value (Add only
  when it is absent, Modify always), an invalid one is skipped without touching anything else, and
  the body is the value of the last body modification.
\<close>

theorem modifications_act_per_header:
  "header_get (fst (apply_inference_modifications lib hs body ms)) n =
     foldl (header_effect lib n) (header_get hs n) ms \<and>
   snd (apply_inference_modifications lib hs body ms) = foldl body_effect body ms"
proof -
  have one: "header_get (fst (apply_modification lib m hb)) n = header_effect lib n (header_get (fst hb) n) m"
    "snd (apply_modification lib m hb) = body_effect (snd hb) m" for m hb
    by (cases hb; auto simp: header_effect_def body_effect_def
        split: modify_target.splits modify_action.splits option.splits)+
  have "header_get (fst (foldl (\<lambda>hb m. apply_modification lib m hb) hb ms)) n =
        foldl (header_effect lib n) (header_get (fst hb) n) ms \<and>
      snd (foldl (\<lambda>hb m. apply_modification lib m hb) hb ms) = foldl body_effect (snd hb) ms" for hb
    by (induction ms arbitrary: hb) (simp_all add: one)
  from this [of "(hs, body)"] show ?thesis by (simp add: apply_inference_modifications_def)
qed

section \<open>The answer to an upgrade\<close>

lemma lines_from_append:
  "lines_from acc (xs @ CHR 0x0A # ys) = lines_from acc (xs @ [CHR 0x0A]) @ lines_from [] ys"
  by (induction xs arbitrary: acc) auto

lemma str_lines_append: "str_lines (xs @ CHR 0x0A # ys) = str_lines (xs @ [CHR 0x0A]) @ str_lines ys"
  by (simp only: str_lines_def lines_from_append [of "[]" xs ys])

lemma str_lines_terminated [simp]: "str_lines (xs @ [CHR 0x0A]) \<noteq> []"
proof -
  have "lines_from acc (xs @ [CHR 0x0A]) \<noteq> []" for acc
    by (induction xs arbitrary: acc) auto
  then show ?thesis by (simp add: str_lines_def)
qed

lemma ends_with_Cons: "ends_with h p \<Longrightarrow> ends_with (c # h) p"
  by (auto simp: ends_with_def Suc_diff_le)

lemma ends_with_append: "ends_with s p \<longleftrightarrow> (\<exists>a. s = a @ p)"
proof
  assume "ends_with s p"
  then show "\<exists>a. s = a @ p"
    unfolding ends_with_def by (metis append_take_drop_id)
qed (auto simp: ends_with_def)

lemma find_head_end_complete: "complete_head h \<Longrightarrow> find_head_end (h @ l) = Some (length h)"
proof (induction h)
  case Nil
  then show ?case by (simp add: complete_head_def ends_with_def crlf_def)
next
  case (Cons c h)
  have len: "length (crlf @ crlf) = 4" by (simp add: crlf_def)
  have ends: "ends_with (c # h) (crlf @ crlf)"
    and least: "\<And>k. k < Suc (length h) \<Longrightarrow> \<not> ends_with (take k (c # h)) (crlf @ crlf)"
    using Cons.prems by (auto simp: complete_head_def)
  have four: "4 \<le> Suc (length h)" using ends len by (simp add: ends_with_def)
  show ?case
  proof (cases "starts_with (c # h @ l) (crlf @ crlf)")
    case True
    then have "take 4 (c # h) = crlf @ crlf" using four len by (simp add: starts_with_def)
    then have "ends_with (take 4 (c # h)) (crlf @ crlf)" by (simp add: ends_with_def)
    with least [of 4] four have "length h = 3" by fastforce
    with True show ?thesis by simp
  next
    case False
    have "4 \<noteq> Suc (length h)"
      using False ends len by (auto simp: starts_with_def ends_with_def)
    then have "ends_with h (crlf @ crlf)"
      using ends four len by (auto simp: ends_with_def Suc_diff_le drop_Cons' split: if_splits)
    moreover have "\<not> ends_with (take k h) (crlf @ crlf)" if "k < length h" for k
      using least [of "Suc k"] that ends_with_Cons by auto
    ultimately have "complete_head h" by (simp add: complete_head_def)
    with Cons.IH False show ?thesis by simp
  qed
qed

lemma build_headers_append:
  "build_headers lib (xs @ ys) =
     (case build_headers lib xs of None \<Rightarrow> None
      | Some hs \<Rightarrow> map_option ((@) hs) (build_headers lib ys))"
  by (induction lib xs rule: build_headers.induct)
     (auto split: option.splits simp: map_option_case)

definition header_lines :: "string \<Rightarrow> string list" where
  "header_lines txt = filter (\<lambda>l. l \<noteq> []) (str_lines txt)"

text \<open>
  When bytes of the upgraded protocol arrive in the same read as the response head of the
  target, they are handed to the tunnel, as they must, and they are also parsed as header lines of
  the response given to the client: the lines of the leftover that look like headers are appended
  to the headers of the head.
\<close>

theorem upgrade_leftover_parsed_as_headers:
  assumes head: "complete_head head" and ascii: "\<forall>c \<in> set (head @ leftover). of_char c < (0x80 :: nat)"
    and hs: "build_headers lib (filter (\<lambda>l. l \<noteq> []) (drop 1 (str_lines head))) = Some hs"
    and extra: "build_headers lib (header_lines leftover) = Some hs'"
    and status: "100 \<le> status" "status \<le> 999"
  shows "build_upgrade_response lib (head @ leftover) status =
      RUpgrade \<lparr>hs_status = status, hs_headers = hs @ hs', hs_body = []\<rparr> \<and>
    split_leftover (head @ leftover) = leftover"
proof -
  obtain a where "head = a @ crlf @ crlf" using head ends_with_append by (auto simp: complete_head_def)
  then obtain b where b: "head = b @ [CHR 0x0A]" by (simp add: crlf_def)
  have "str_lines (head @ leftover) = str_lines head @ str_lines leftover"
    using str_lines_append [of b leftover] b by simp
  moreover have "drop 1 (str_lines head @ str_lines leftover) = drop 1 (str_lines head) @ str_lines leftover"
    using b by (cases "str_lines head") auto
  ultimately have "build_headers lib (filter (\<lambda>l. l \<noteq> []) (drop 1 (str_lines (head @ leftover)))) =
      Some (hs @ hs')"
    using hs extra by (simp add: build_headers_append header_lines_def)
  with ascii status head show ?thesis
    by (simp add: build_upgrade_response_def utf8_lossy_ascii split_leftover_def find_head_end_complete)
qed

definition demo_head :: string where
  "demo_head = ''HTTP/1.1 101 Switching'' @ crlf @ ''Upgrade: x'' @ crlf @ crlf"

lemma upgrade_leftover_parsed_as_headers_witness:
  "build_upgrade_response demo_lib (demo_head @ ''Set-Cookie: id=1'') 101 =
     RUpgrade \<lparr>hs_status = 101, hs_headers = [(''Upgrade'', ''x''), (''Set-Cookie'', ''id=1'')],
       hs_body = []\<rparr>"
proof -
  have "complete_head demo_head" by code_simp
  moreover have "\<forall>c \<in> set (demo_head @ ''Set-Cookie: id=1''). of_char c < (0x80 :: nat)" by code_simp
  moreover have "build_headers demo_lib (filter (\<lambda>l. l \<noteq> []) (drop 1 (str_lines demo_head))) =
      Some [(''Upgrade'', ''x'')]" by code_simp
  moreover have "build_headers demo_lib (header_lines ''Set-Cookie: id=1'') = Some [(''Set-Cookie'', ''id=1'')]"
    by code_simp
  ultimately show ?thesis
    using upgrade_leftover_parsed_as_headers [of demo_head "''Set-Cookie: id=1''" demo_lib
        "[(''Upgrade'', ''x'')]" "[(''Set-Cookie'', ''id=1'')]" 101] by simp
qed

section \<open>The DNS cache\<close>

text \<open>
  The cache is process-wide: it is threaded through all requests of all connections, each met with
  its own environment.
\<close>

type_synonym served = "server_env \<times> serve_context \<times> conn_context \<times> request"

definition serve_step :: "dns_cache \<Rightarrow> served \<Rightarrow> dns_cache" where
  "serve_step cache x = (case x of (env, ctx, conn, req) \<Rightarrow> snd (snd (handle_request env ctx conn req cache)))"

definition dns_ok :: "dns_cache \<Rightarrow> bool" where
  "dns_ok cache \<longleftrightarrow> length cache \<le> CACHE_CAP \<and> distinct (map fst cache) \<and> [] \<notin> snd ` set cache"

lemma update_values: "snd ` set (AList.update k v al) \<subseteq> insert v (snd ` set al)"
  by (induction al) auto

lemma resolve_target_ips_ok:
  "dns_ok cache \<Longrightarrow> dns_ok (snd (snd (resolve_target_ips env d cache)))"
proof -
  assume ok: "dns_ok cache"
  have len: "length (AList.update d ips al) \<le> Suc (length al)" for ips :: "ip_addr list" and al
    by (induction al) auto
  have upd: "dns_ok (AList.update d ips al)"
    if "dns_ok al" "length al < CACHE_CAP" "ips \<noteq> []" for al ips
    using that len [of ips al] update_values [of d ips al] distinct_update [of al d ips]
    by (auto simp: dns_ok_def)
  have fresh: "dns_ok [(d, ips)]" if "ips \<noteq> []" for ips
    using that by (simp add: dns_ok_def CACHE_CAP_def)
  show ?thesis
    using ok by (auto simp: resolve_target_ips_def Let_def intro!: upd fresh split: option.split)
qed

lemma handle_request_cache:
  "snd (snd (handle_request env ctx conn req cache)) = cache \<or>
   (\<exists>d. snd (snd (handle_request env ctx conn req cache)) = snd (snd (resolve_target_ips env d cache)))"
proof -
  show ?thesis
    by (auto simp: handle_request_def Let_def split: prod.split option.split)
       (metis snd_conv)+
qed

text \<open>
  After any run of requests from the empty cache, with any answers of the resolver, the DNS
  cache holds at most 1024 domains, each once, and never an empty set of addresses.
\<close>

theorem dns_cache_bounded: "dns_ok (foldl serve_step [] run)"
proof -
  have "dns_ok cache \<Longrightarrow> dns_ok (serve_step cache x)" for cache x
    using handle_request_cache resolve_target_ips_ok
    by (cases x) (auto simp: serve_step_def, metis)
  then have "dns_ok cache \<Longrightarrow> dns_ok (foldl serve_step cache run)" for cache
    by (induction run arbitrary: cache) auto
  then show ?thesis by (simp add: dns_ok_def)
qed

section \<open>Address rules and the connection\<close>

definition resolving :: "(string \<Rightarrow> ip_addr list option) \<Rightarrow> server_env \<Rightarrow> server_env" where
  "resolving f env = env\<lparr>env_lookup := f\<rparr>"

lemma resolving_simps [simp]:
  "env_build (resolving f env) = env_build env" "env_http (resolving f env) = env_http env"
  "env_net (resolving f env) = env_net env" "env_router (resolving f env) = env_router env"
  "env_collect (resolving f env) = env_collect env" "env_send (resolving f env) = env_send env"
  "env_now (resolving f env) = env_now env" "env_sink (resolving f env) = env_sink env"
  "env_to_json (resolving f env) = env_to_json env"
  "env_h1_handshake (resolving f env) = env_h1_handshake env"
  "env_write_upgrade (resolving f env) = env_write_upgrade env"
  "env_chunks (resolving f env) = env_chunks env"
  "env_lookup (resolving f env) = f"
  by (simp_all add: resolving_def)

lemma resolving_entries [simp]:
  "build_entry (resolving f env) = build_entry env" "deny_entry (resolving f env) = deny_entry env"
  "allow_entry (resolving f env) = allow_entry env" "deliver (resolving f env) = deliver env"
  "audit_allow (resolving f env) = audit_allow env" "hyper_handshake (resolving f env) = hyper_handshake env"
  "route_decision (resolving f env) = route_decision env"
  by (simp_all add: fun_eq_iff build_entry_def deny_entry_def allow_entry_def deliver_def audit_allow_def
      hyper_handshake_def route_decision_def)

lemma resolving_connect [simp]:
  "connect_target (resolving f env) = connect_target env"
  "connect_upgrade_target (resolving f env) = connect_upgrade_target env"
  "connect_raw_outbound (resolving f env) = connect_raw_outbound env"
  by (simp_all add: fun_eq_iff connect_target_def connect_upgrade_target_def connect_raw_outbound_def Let_def
      split: option.split)

lemma resolving_operations [simp]:
  "config_missing_response (resolving f env) = config_missing_response env"
  "forward_request (resolving f env) = forward_request env"
  "establish_connect_tunnel (resolving f env) = establish_connect_tunnel env"
  "handle_upgrade (resolving f env) = handle_upgrade env"
  "inference_deny (resolving f env) = inference_deny env"
  unfolding fun_eq_iff config_missing_response_def forward_request_def establish_connect_tunnel_def
    handle_upgrade_def inference_deny_def resolving_entries resolving_connect resolving_simps
  by simp_all

lemma resolving_inference [simp]:
  "handle_inference_connect (resolving f env) = handle_inference_connect env"
  "handle_inference (resolving f env) = handle_inference env"
  "decide_and_forward (resolving f env) = decide_and_forward env"
proof -
  show con: "handle_inference_connect (resolving f env) = handle_inference_connect env"
    unfolding fun_eq_iff handle_inference_connect_def resolving_entries resolving_operations by simp
  show "handle_inference (resolving f env) = handle_inference env"
    unfolding fun_eq_iff handle_inference_def con resolving_entries resolving_operations resolving_simps
    by simp
  show "decide_and_forward (resolving f env) = decide_and_forward env"
    unfolding fun_eq_iff decide_and_forward_def resolving_entries resolving_operations resolving_simps
    by simp
qed

text \<open>
  Address rules judge a cached answer, not the connection: once a domain is in the DNS cache,
  the reply and every effect of a request for it are the same whatever the resolver would answer
  now (there is no expiry), while each connection made is to the domain's name, which the dialling
  resolves again.
\<close>

theorem address_rules_judge_cached_answers:
  assumes host: "resolve_host (env_http env) conn req = Some (d, hp)" and hit: "map_of cache d = Some ips"
    and out: "handle_request env ctx conn req cache = (r, es, cache')"
  shows "handle_request (resolving f env) ctx conn req cache = (r, es, cache) \<and>
    (\<forall>up h p. EConnect up h p \<in> set es \<longrightarrow> h = target_host ctx d)"
proof -
  have cached: "resolve_target_ips env' d cache = (Some ips, [], cache)" for env'
    using hit by (simp add: resolve_target_ips_def)
  have same: "handle_request (resolving f env) ctx conn req cache = handle_request env ctx conn req cache"
    unfolding handle_request_def resolving_simps resolving_operations resolving_entries
      resolving_inference host option.case prod.case cached
    by simp
  have "cache' = cache"
    using out by (auto simp: handle_request_def host Let_def cached split: prod.splits option.splits if_splits)
  moreover have "request_outcome env ctx conn req cache = (r, es)"
    using out by (simp add: request_outcome_def)
  then have "safe_outcome env ctx conn d hp (r, es)"
    using host request_outcome_safe [of env conn req ctx "[]" None cache] by (metis option.inject prod.inject option.distinct(1))
  ultimately show ?thesis
    using out same by (auto simp: safe_outcome_def leaves_to_def)
qed

text \<open>A policy with an address rule, and the same policy met with a cached answer.\<close>

definition demo_ip_config :: filter_config where
  "demo_ip_config =
     \<lparr>default_policy = PolicyDeny,
      rule_list = [demo_ruleset\<lparr>rs_host := \<lparr>host_type_of = HostIp, host_addr = Some ''10.0.0.0/8'',
        host_context = None, host_prio = 1\<rparr>\<rparr>]\<rparr>"

definition demo_ip_ctx :: serve_context where
  "demo_ip_ctx = serve_context_new
     (registry_new\<lparr>reg_configs := [''c1'' \<mapsto> demo_ip_config]\<rparr>) (\<lambda>_. None)"

lemma address_rules_judge_cached_answers_witness:
  "fst (handle_request (resolving (\<lambda>_. Some [V4 0x7F000001]) demo_env) demo_ip_ctx demo_conn
     (demo_request ''GET'') [(''api.example.com'', [V4 0x0A000001])]) = RRelay demo_response"
proof -
  let ?c = "[(''api.example.com'', [V4 0x0A000001])]"
  have "fst (handle_request demo_env demo_ip_ctx demo_conn (demo_request ''GET'') ?c) = RRelay demo_response"
    by code_simp
  then obtain es c where out: "handle_request demo_env demo_ip_ctx demo_conn (demo_request ''GET'') ?c =
      (RRelay demo_response, es, c)"
    by (cases "handle_request demo_env demo_ip_ctx demo_conn (demo_request ''GET'') ?c") auto
  moreover have "resolve_host (env_http demo_env) demo_conn (demo_request ''GET'') = Some (''api.example.com'', None)"
    using demo_resolve_host by (simp add: demo_env_def)
  moreover have "map_of ?c ''api.example.com'' = Some [V4 0x0A000001]" by simp
  ultimately show ?thesis
    using address_rules_judge_cached_answers by fastforce
qed

end
