(* ===== verification/InfConfig.thy ===== *)
theory InfConfig
  imports InferenceUds "HOL-Library.List_Lexorder" "HOL-Library.Char_ord"
begin

text \<open>
  The configuration of the local inference router,
  \<^verbatim>\<open>rust/plugins/agentsandbox/inference/src/config/{error,model,loader,validator}.rs\<close>: the data model,
  the lenient extraction from four JSON documents, and the validator that collects every error.

  \<open>serde_json\<close>'s public tree type is a datatype; its parser and printer are parameters.  Maps are
  association lists sorted by key: that is how \<open>BTreeMap\<close> and \<open>serde_json::Map\<close> iterate, and one of
  the orders in which \<open>HashMap\<close> may iterate (only the order of validation messages shows it).
\<close>

section \<open>Sorted maps\<close>

fun map_insert :: "string \<Rightarrow> 'v \<Rightarrow> (string \<times> 'v) list \<Rightarrow> (string \<times> 'v) list" where
  "map_insert k v [] = [(k, v)]"
| "map_insert k v ((k', v') # kvs) =
     (if k = k' then (k, v) # kvs
      else if k < k' then (k, v) # (k', v') # kvs
      else (k', v') # map_insert k v kvs)"

definition map_remove :: "string \<Rightarrow> (string \<times> 'v) list \<Rightarrow> (string \<times> 'v) list" where
  "map_remove k kvs = filter (\<lambda>(k', v). k' \<noteq> k) kvs"

lemma map_of_map_insert [simp]: "map_of (map_insert k v kvs) = (map_of kvs)(k \<mapsto> v)"
  by (induction kvs rule: map_insert.induct) (auto simp: fun_eq_iff)

lemma map_of_map_remove [simp]: "map_of (map_remove k kvs) = (map_of kvs)(k := None)"
  by (induction kvs) (auto simp: map_remove_def fun_eq_iff)

lemma set_map_insert: "set (map_insert k v kvs) \<subseteq> insert (k, v) (set kvs)"
  by (induction kvs rule: map_insert.induct) auto

lemma sorted_map_insert:
  assumes "sorted_wrt (<) (map fst kvs)"
  shows "sorted_wrt (<) (map fst (map_insert k v kvs))"
  using assms
proof (induction kvs)
  case (Cons e kvs)
  obtain k' v' where e: "e = (k', v')" by (cases e)
  have all: "\<forall>x \<in> set kvs. k' < fst x" and rest: "sorted_wrt (<) (map fst kvs)"
    using Cons.prems by (simp_all add: e)
  consider "k = k'" | "k < k'" | "k' < k" by (metis linorder_cases)
  then show ?case
  proof cases
    case 2
    then have "\<forall>x \<in> set kvs. k < fst x" using all by (metis less_trans)
    then show ?thesis using 2 all rest by (simp add: e)
  next
    case 3
    have "\<forall>x \<in> set (map_insert k v kvs). k' < fst x"
      using set_map_insert [of k v kvs] all 3 by (metis fst_conv insert_iff subsetD)
    moreover have "\<not> k < k'" "k \<noteq> k'" using 3 by (metis less_asym less_irrefl)+
    ultimately show ?thesis using Cons.IH [OF rest] by (simp add: e)
  qed (simp add: e all rest)
qed simp

interpretation sorted_map_store: keyed_store map_of map_insert "\<lambda>_. True"
  by unfold_locales auto

section \<open>JSON trees\<close>

datatype json_number = JInt int | JFloat string

datatype json =
    JNull
  | JBool bool
  | JNumber json_number
  | JString string
  | JArray "json list"
  | JObject "(string \<times> json) list"

fun json_get :: "string \<Rightarrow> json \<Rightarrow> json option" where
  "json_get k (JObject kvs) = map_of kvs k"
| "json_get k _ = None"

fun as_str :: "json \<Rightarrow> string option" where
  "as_str (JString s) = Some s"
| "as_str _ = None"

fun as_bool :: "json \<Rightarrow> bool option" where
  "as_bool (JBool b) = Some b"
| "as_bool _ = None"

fun as_array :: "json \<Rightarrow> json list option" where
  "as_array (JArray xs) = Some xs"
| "as_array _ = None"

fun as_object :: "json \<Rightarrow> (string \<times> json) list option" where
  "as_object (JObject kvs) = Some kvs"
| "as_object _ = None"

fun as_i64 :: "json \<Rightarrow> int option" where
  "as_i64 (JNumber (JInt i)) = (if - (2 ^ 63) \<le> i \<and> i < 2 ^ 63 then Some i else None)"
| "as_i64 _ = None"

fun is_number :: "json \<Rightarrow> bool" where
  "is_number (JNumber _) = True"
| "is_number _ = False"

definition is_object :: "json \<Rightarrow> bool" where
  "is_object j \<longleftrightarrow> as_object j \<noteq> None"

section \<open>The data model\<close>

record inf_condition =
  sensitive_data_detected :: bool
  local_model_available :: "bool option"
  request_format_cond :: "string option"
  cond_model_id :: "string option"

record inf_action =
  act_target :: string
  act_model_id :: string
  act_sanitize :: "bool option"

record inf_strategy =
  strategy_id :: string
  strategy_name :: string
  strategy_enabled :: bool
  strategy_priority :: int
  strategy_condition :: inf_condition
  strategy_action :: inf_action

record routing_policy =
  rp_version :: string
  rp_default_priority :: "string list"
  rp_strategies :: "inf_strategy list"

record model_config =
  mc_model_id :: string
  mc_name :: string
  mc_type :: string
  mc_provider :: string
  mc_endpoint :: string
  mc_timeout_ms :: int
  mc_max_retries :: int
  mc_headers :: "(string \<times> string) list option"
  mc_enabled :: bool

record inf_pattern =
  pattern_id :: string
  pattern_name :: string
  pattern_type :: string
  pattern_regex :: "string option"
  pattern_keywords :: "string list option"
  pattern_description :: "string option"
  pattern_severity :: string
  pattern_enabled :: bool
  key_dist :: nat

record inf_config =
  cf_routing :: routing_policy
  cf_models :: "(string \<times> model_config) list"
  cf_patterns_version :: string
  cf_patterns :: "inf_pattern list"
  cf_api_keys :: "(string \<times> string) list"
  cf_api_keys_path :: string

datatype inf_config_error =
    ConfigLoad string
  | ConfigParse string
  | ConfigValidation string
  | ConfigPersist

definition default_condition :: inf_condition where
  "default_condition =
     \<lparr>sensitive_data_detected = False, local_model_available = None, request_format_cond = None,
      cond_model_id = None\<rparr>"

definition default_action :: inf_action where
  "default_action = \<lparr>act_target = [], act_model_id = [], act_sanitize = None\<rparr>"

section \<open>Lenient extraction\<close>

definition get_bool :: "json \<Rightarrow> string \<Rightarrow> bool \<Rightarrow> bool" where
  "get_bool obj key d = (case Option.bind (json_get key obj) as_bool of Some b \<Rightarrow> b | None \<Rightarrow> d)"

definition get_int :: "json \<Rightarrow> string \<Rightarrow> int \<Rightarrow> int" where
  "get_int obj key d =
     (case Option.bind (json_get key obj) as_i64 of
        Some i \<Rightarrow> if - (2 ^ 31) \<le> i \<and> i < 2 ^ 31 then i else d
      | None \<Rightarrow> d)"

definition get_string :: "json \<Rightarrow> string \<Rightarrow> string" where
  "get_string obj key = (case Option.bind (json_get key obj) as_str of Some s \<Rightarrow> s | None \<Rightarrow> [])"

definition get_optional_string :: "json \<Rightarrow> string \<Rightarrow> string option" where
  "get_optional_string obj key = Option.bind (json_get key obj) as_str"

definition get_optional_bool :: "json \<Rightarrow> string \<Rightarrow> bool option" where
  "get_optional_bool obj key = Option.bind (json_get key obj) as_bool"

definition get_optional_string_array :: "json \<Rightarrow> string \<Rightarrow> string list option" where
  "get_optional_string_array obj key =
     map_option (List.map_filter as_str) (Option.bind (json_get key obj) as_array)"

definition get_optional_map :: "json \<Rightarrow> string \<Rightarrow> (string \<times> string) list option" where
  "get_optional_map obj key =
     map_option (List.map_filter (\<lambda>(k, v). map_option (Pair k) (as_str v)))
       (Option.bind (json_get key obj) as_object)"

definition get_array :: "json \<Rightarrow> string \<Rightarrow> json list" where
  "get_array obj key = (case Option.bind (json_get key obj) as_array of Some xs \<Rightarrow> xs | None \<Rightarrow> [])"

definition build_condition :: "json \<Rightarrow> inf_condition" where
  "build_condition v =
     \<lparr>sensitive_data_detected = get_bool v ''sensitive_data_detected'' False,
      local_model_available = get_optional_bool v ''local_model_available'',
      request_format_cond = get_optional_string v ''request_format'',
      cond_model_id = get_optional_string v ''model_id''\<rparr>"

definition build_action :: "json \<Rightarrow> inf_action" where
  "build_action v =
     \<lparr>act_target = get_string v ''target'', act_model_id = get_string v ''model_id'',
      act_sanitize = get_optional_bool v ''sanitize''\<rparr>"

definition build_strategy :: "json \<Rightarrow> inf_strategy" where
  "build_strategy v =
     \<lparr>strategy_id = get_string v ''strategy_id'',
      strategy_name = get_string v ''name'',
      strategy_enabled = get_bool v ''enabled'' True,
      strategy_priority = get_int v ''priority'' 50,
      strategy_condition =
        (case json_get ''condition'' v of
           Some c \<Rightarrow> if is_object c then build_condition c else default_condition
         | None \<Rightarrow> default_condition),
      strategy_action =
        (case json_get ''action'' v of
           Some a \<Rightarrow> if is_object a then build_action a else default_action
         | None \<Rightarrow> default_action)\<rparr>"

definition build_model_config :: "json \<Rightarrow> model_config" where
  "build_model_config v =
     \<lparr>mc_model_id = get_string v ''model_id'',
      mc_name = get_string v ''name'',
      mc_type = get_string v ''type'',
      mc_provider = get_string v ''provider'',
      mc_endpoint = get_string v ''endpoint'',
      mc_timeout_ms = get_int v ''timeout_ms'' 30000,
      mc_max_retries = get_int v ''max_retries'' 3,
      mc_headers = get_optional_map v ''headers'',
      mc_enabled = get_bool v ''enabled'' True\<rparr>"

definition build_pattern :: "json \<Rightarrow> inf_pattern" where
  "build_pattern v =
     \<lparr>pattern_id = get_string v ''pattern_id'',
      pattern_name = get_string v ''name'',
      pattern_type = get_string v ''type'',
      pattern_regex = get_optional_string v ''regex'',
      pattern_keywords = get_optional_string_array v ''keywords'',
      pattern_description = get_optional_string v ''description'',
      pattern_severity =
        (if get_string v ''severity'' = [] then ''medium'' else get_string v ''severity''),
      pattern_enabled = get_bool v ''enabled'' True,
      key_dist = nat (max (get_int v ''keyDist'' 50) 0)\<rparr>"

definition build_api_keys :: "json \<Rightarrow> (string \<times> string) list" where
  "build_api_keys ak =
     (case Option.bind (json_get ''api_keys'' ak) as_object of
        None \<Rightarrow> []
      | Some kvs \<Rightarrow>
          fold (\<lambda>(k, v) acc. case as_str v of
                  Some s \<Rightarrow> if s \<noteq> [] then map_insert k s acc else acc
                | None \<Rightarrow> acc) kvs [])"

definition build_config ::
  "json \<Rightarrow> json \<Rightarrow> json \<Rightarrow> json \<Rightarrow> string \<Rightarrow> inf_config_error + inf_config" where
  "build_config rp mc sp ak api_keys_path =
     (if \<not> is_object rp then Inl (ConfigParse ''routing_policy.json'')
      else if \<not> is_object mc then Inl (ConfigParse ''model_config.json'')
      else if \<not> is_object sp then Inl (ConfigParse ''sensitive_patterns.json'')
      else Inr
        \<lparr>cf_routing =
           \<lparr>rp_version = get_string rp ''version'',
            rp_default_priority =
              (case get_optional_string_array rp ''default_priority'' of Some xs \<Rightarrow> xs | None \<Rightarrow> []),
            rp_strategies = map build_strategy (get_array rp ''strategies'')\<rparr>,
         cf_models =
           fold (\<lambda>item acc. let m = build_model_config item in map_insert (mc_model_id m) m acc)
             (get_array mc ''models'') [],
         cf_patterns_version = get_string sp ''version'',
         cf_patterns = map build_pattern (get_array sp ''patterns''),
         cf_api_keys = build_api_keys ak,
         cf_api_keys_path = api_keys_path\<rparr>)"

section \<open>Validation\<close>

text \<open>Every rule is checked and every message collected, in the order of the source.\<close>

definition quote :: string where "quote = [CHR 0x27]"

definition check_string_length :: "string \<Rightarrow> string \<Rightarrow> nat \<Rightarrow> string list" where
  "check_string_length field v max_len =
     (if max_len < length v
      then [field @ '': length '' @ dec_string (length v) @ '' exceeds max '' @ dec_string max_len]
      else [])"

definition check_enum :: "string \<Rightarrow> string \<Rightarrow> string list \<Rightarrow> string list" where
  "check_enum field v allowed =
     (if v \<notin> set allowed
      then [field @ '': '' @ quote @ v @ quote @ '' is not one of ['' @ join_with ''/'' allowed @ '']'']
      else [])"

text \<open>The regular expression \<open>^[0-9]+\.[0-9]+\.[0-9]+$\<close>.\<close>

definition is_semver :: "string \<Rightarrow> bool" where
  "is_semver s =
     (let number = (\<lambda>x. x \<noteq> [] \<and> list_all (\<lambda>c. digit_val c \<noteq> None) x)
      in case split_once (CHR ''.'') s of
           None \<Rightarrow> False
         | Some (a, rest) \<Rightarrow>
             (case split_once (CHR ''.'') rest of
                None \<Rightarrow> False
              | Some (b, c) \<Rightarrow> number a \<and> number b \<and> number c))"

definition check_semver :: "string \<Rightarrow> string \<Rightarrow> string list" where
  "check_semver field v =
     (if \<not> is_semver v
      then [field @ '': '' @ quote @ v @ quote @ '' is not a valid semver (MAJOR.MINOR.PATCH)'']
      else [])"

definition is_alnum :: "char \<Rightarrow> bool" where
  "is_alnum c \<longleftrightarrow>
     (let n = of_char c :: nat
      in (48 \<le> n \<and> n \<le> 57) \<or> (65 \<le> n \<and> n \<le> 90) \<or> (97 \<le> n \<and> n \<le> 122))"

definition is_alnum_underscore :: "string \<Rightarrow> bool" where
  "is_alnum_underscore s \<longleftrightarrow> list_all (\<lambda>c. is_alnum c \<or> c = CHR ''_'') s"

definition int_string :: "int \<Rightarrow> string" where
  "int_string i = (if i < 0 then ''-'' @ dec_string (nat (- i)) else dec_string (nat i))"

definition strategy_errors :: "string list \<Rightarrow> inf_strategy \<Rightarrow> string list" where
  "strategy_errors seen_ids s =
     (let prefix = ''strategy['' @ strategy_id s @ '']''
      in (if strategy_id s = [] then [''strategy.strategy_id: is required'']
          else if \<not> is_alnum_underscore (strategy_id s)
          then [''strategy.strategy_id: '' @ strategy_id s @ '' must be alphanumeric/underscore only'']
          else check_string_length (prefix @ ''.strategy_id'') (strategy_id s) 32) @
         (if strategy_id s \<in> set seen_ids
          then [''strategy.strategy_id: '' @ strategy_id s @ '' is duplicated''] else []) @
         check_string_length (prefix @ ''.name'') (strategy_name s) 64 @
         (if \<not> (1 \<le> strategy_priority s \<and> strategy_priority s \<le> 100)
          then [prefix @ ''.priority: '' @ int_string (strategy_priority s) @ '' must be 1-100'']
          else []) @
         check_enum (prefix @ ''.condition.request_format'')
           (case request_format_cond (strategy_condition s) of Some f \<Rightarrow> f | None \<Rightarrow> ''any'')
           [''openai'', ''anthropic'', ''any''] @
         (case cond_model_id (strategy_condition s) of
            None \<Rightarrow> []
          | Some m \<Rightarrow>
              if m = [] then [prefix @ ''.condition.model_id: must not be empty when present'']
              else check_string_length (prefix @ ''.condition.model_id'') m 32) @
         check_enum (prefix @ ''.action.target'') (act_target (strategy_action s))
           [''local'', ''cloud'', ''cloud_with_sanitization''] @
         (if act_model_id (strategy_action s) = [] then [prefix @ ''.action.model_id: is required'']
          else []))"

fun strategies_errors :: "string list \<Rightarrow> inf_strategy list \<Rightarrow> string list \<times> string list" where
  "strategies_errors seen_ids [] = ([], seen_ids)"
| "strategies_errors seen_ids (s # ss) =
     (let seen' = (if strategy_id s \<in> set seen_ids then seen_ids else seen_ids @ [strategy_id s]);
          (errs, all_ids) = strategies_errors seen' ss
      in (strategy_errors seen_ids s @ errs, all_ids))"

definition validate_routing_policy :: "routing_policy \<Rightarrow> string list" where
  "validate_routing_policy rp =
     (let (errs, seen_ids) = strategies_errors [] (rp_strategies rp)
      in check_semver ''routing_policy.version'' (rp_version rp) @
         (if rp_strategies rp = []
          then [''routing_policy.strategies: must have at least one strategy''] else []) @
         errs @
         concat (map (\<lambda>dp. if dp \<in> set seen_ids then []
                           else [''default_priority: '' @ dp @ '' is not a valid strategy_id''])
           (rp_default_priority rp)))"

definition model_errors :: "string \<times> model_config \<Rightarrow> string list" where
  "model_errors im =
     (let (i, m) = im; prefix = ''model['' @ i @ '']''
      in (if mc_model_id m = [] then [''model.model_id: is required'']
          else check_string_length (prefix @ ''.model_id'') (mc_model_id m) 32) @
         check_string_length (prefix @ ''.name'') (mc_name m) 64 @
         check_enum (prefix @ ''.type'') (mc_type m) [''local'', ''cloud''] @
         check_enum (prefix @ ''.provider'') (mc_provider m) [''openai'', ''anthropic'', ''custom''] @
         check_string_length (prefix @ ''.endpoint'') (mc_endpoint m) 512 @
         (if mc_timeout_ms m \<le> 0 then [prefix @ ''.timeout_ms: must be positive''] else []) @
         (if mc_max_retries m < 0 then [prefix @ ''.max_retries: must be non-negative''] else []))"

definition validate_models :: "(string \<times> model_config) list \<Rightarrow> string list" where
  "validate_models ms =
     (if ms = [] then [''models: must have at least one model'']
      else concat (map model_errors ms))"

definition pattern_errors :: "string list \<Rightarrow> inf_pattern \<Rightarrow> string list" where
  "pattern_errors seen_ids p =
     (let prefix = ''pattern['' @ pattern_id p @ '']''
      in (if pattern_id p = [] then [''pattern.pattern_id: is required'']
          else check_string_length (prefix @ ''.pattern_id'') (pattern_id p) 32) @
         (if pattern_id p \<in> set seen_ids
          then [''pattern.pattern_id: '' @ pattern_id p @ '' is duplicated''] else []) @
         check_string_length (prefix @ ''.name'') (pattern_name p) 64 @
         check_enum (prefix @ ''.severity'') (pattern_severity p) [''low'', ''medium'', ''high''] @
         (if pattern_type p = ''custom'' \<and>
             (case pattern_regex p of Some r \<Rightarrow> r | None \<Rightarrow> []) = []
          then [prefix @ ''.regex: is required when type=custom''] else []) @
         (case pattern_description p of
            None \<Rightarrow> [] | Some d \<Rightarrow> check_string_length (prefix @ ''.description'') d 256))"

fun patterns_errors :: "string list \<Rightarrow> inf_pattern list \<Rightarrow> string list" where
  "patterns_errors seen_ids [] = []"
| "patterns_errors seen_ids (p # ps) =
     pattern_errors seen_ids p @
     patterns_errors
       (if pattern_id p \<in> set seen_ids then seen_ids else seen_ids @ [pattern_id p]) ps"

definition validate_sensitive_patterns :: "inf_pattern list \<Rightarrow> string list" where
  "validate_sensitive_patterns ps =
     (if ps = [] then [''sensitive_patterns.patterns: must have at least one pattern''] else []) @
     patterns_errors [] ps"

definition validate_config :: "inf_config \<Rightarrow> inf_config_error + unit" where
  "validate_config c =
     (let errors = validate_routing_policy (cf_routing c) @ validate_models (cf_models c) @
                   validate_sensitive_patterns (cf_patterns c)
      in if errors = [] then Inr () else Inl (ConfigValidation (join_with ''; '' errors)))"

section \<open>Loading\<close>

definition MAX_PATH_LEN :: nat where "MAX_PATH_LEN = 256"

text \<open>\<open>read_to_string\<close> of a path answers the content or an error.\<close>

definition load_file :: "(string \<Rightarrow> string option) \<Rightarrow> string \<Rightarrow> string \<Rightarrow> inf_config_error + string" where
  "load_file read path file =
     (if path = [] \<or> MAX_PATH_LEN < length path then Inl (ConfigLoad file)
      else case read path of Some content \<Rightarrow> Inr content | None \<Rightarrow> Inl (ConfigLoad file))"

definition load_file_optional ::
  "(string \<Rightarrow> string option) \<Rightarrow> string \<Rightarrow> string \<Rightarrow> inf_config_error + string" where
  "load_file_optional read path file =
     (if path = [] then Inr []
      else if MAX_PATH_LEN < length path then Inl (ConfigLoad file)
      else case read path of Some content \<Rightarrow> Inr content | None \<Rightarrow> Inr [])"

definition load_json :: "(string \<Rightarrow> json option) \<Rightarrow> string \<Rightarrow> string \<Rightarrow> inf_config_error + json" where
  "load_json from_str content file =
     (case from_str content of Some j \<Rightarrow> Inr j | None \<Rightarrow> Inl (ConfigParse file))"

definition load_config_from_contents ::
  "(string \<Rightarrow> json option) \<Rightarrow> string \<Rightarrow> string \<Rightarrow> string \<Rightarrow> string \<Rightarrow> string \<Rightarrow>
     inf_config_error + inf_config" where
  "load_config_from_contents from_str rp_content mc_content sp_content ak_content api_keys_path =
     rbind (load_json from_str rp_content ''routing_policy.json'') (\<lambda>rp.
     rbind (load_json from_str mc_content ''model_config.json'') (\<lambda>mc.
     rbind (load_json from_str sp_content ''sensitive_patterns.json'') (\<lambda>sp.
     rbind (if ak_content = [] then Inr (JObject []) else load_json from_str ak_content ''api_keys.json'') (\<lambda>ak.
     rbind (build_config rp mc sp ak api_keys_path) (\<lambda>config.
     rbind (validate_config config) (\<lambda>_.
     Inr config))))))"

definition load_inf_config ::
  "(string \<Rightarrow> string option) \<Rightarrow> (string \<Rightarrow> json option) \<Rightarrow> string \<Rightarrow> string \<Rightarrow> string \<Rightarrow> string \<Rightarrow>
     inf_config_error + inf_config" where
  "load_inf_config read from_str routing_policy_path model_config_path sensitive_patterns_path
       api_keys_path =
     rbind (load_file read routing_policy_path ''routing_policy.json'') (\<lambda>rp_content.
     rbind (load_file read model_config_path ''model_config.json'') (\<lambda>mc_content.
     rbind (load_file read sensitive_patterns_path ''sensitive_patterns.json'') (\<lambda>sp_content.
     rbind (load_file_optional read api_keys_path ''api_keys.json'') (\<lambda>ak_content.
       load_config_from_contents from_str rp_content mc_content sp_content ak_content
         api_keys_path))))"

section \<open>What the validator accepts\<close>

definition strategy_ok :: "inf_strategy \<Rightarrow> bool" where
  "strategy_ok s \<longleftrightarrow>
     strategy_id s \<noteq> [] \<and> is_alnum_underscore (strategy_id s) \<and> length (strategy_id s) \<le> 32 \<and>
     length (strategy_name s) \<le> 64 \<and> 1 \<le> strategy_priority s \<and> strategy_priority s \<le> 100 \<and>
     (request_format_cond (strategy_condition s) = None \<or>
      the (request_format_cond (strategy_condition s)) \<in> {''openai'', ''anthropic'', ''any''}) \<and>
     (cond_model_id (strategy_condition s) = None \<or>
      the (cond_model_id (strategy_condition s)) \<noteq> [] \<and>
      length (the (cond_model_id (strategy_condition s))) \<le> 32) \<and>
     act_target (strategy_action s) \<in> {''local'', ''cloud'', ''cloud_with_sanitization''} \<and>
     act_model_id (strategy_action s) \<noteq> []"

definition model_ok :: "model_config \<Rightarrow> bool" where
  "model_ok m \<longleftrightarrow>
     mc_model_id m \<noteq> [] \<and> length (mc_model_id m) \<le> 32 \<and> length (mc_name m) \<le> 64 \<and>
     mc_type m \<in> {''local'', ''cloud''} \<and> mc_provider m \<in> {''openai'', ''anthropic'', ''custom''} \<and>
     length (mc_endpoint m) \<le> 512 \<and> 0 < mc_timeout_ms m \<and> 0 \<le> mc_max_retries m"

definition pattern_ok :: "inf_pattern \<Rightarrow> bool" where
  "pattern_ok p \<longleftrightarrow>
     pattern_id p \<noteq> [] \<and> length (pattern_id p) \<le> 32 \<and> length (pattern_name p) \<le> 64 \<and>
     pattern_severity p \<in> {''low'', ''medium'', ''high''} \<and>
     (pattern_type p = ''custom'' \<longrightarrow> pattern_regex p \<noteq> None \<and> pattern_regex p \<noteq> Some []) \<and>
     (pattern_description p = None \<or> length (the (pattern_description p)) \<le> 256)"

definition config_ok :: "inf_config \<Rightarrow> bool" where
  "config_ok c \<longleftrightarrow>
     is_semver (rp_version (cf_routing c)) \<and>
     rp_strategies (cf_routing c) \<noteq> [] \<and>
     distinct (map strategy_id (rp_strategies (cf_routing c))) \<and>
     (\<forall>s \<in> set (rp_strategies (cf_routing c)). strategy_ok s) \<and>
     set (rp_default_priority (cf_routing c)) \<subseteq> strategy_id ` set (rp_strategies (cf_routing c)) \<and>
     cf_models c \<noteq> [] \<and> (\<forall>im \<in> set (cf_models c). model_ok (snd im)) \<and>
     cf_patterns c \<noteq> [] \<and> distinct (map pattern_id (cf_patterns c)) \<and>
     (\<forall>p \<in> set (cf_patterns c). pattern_ok p)"

lemma check_string_length_Nil [simp]: "check_string_length f v n = [] \<longleftrightarrow> length v \<le> n"
  by (auto simp: check_string_length_def)

lemma check_enum_Nil [simp]: "check_enum f v allowed = [] \<longleftrightarrow> v \<in> set allowed"
  by (auto simp: check_enum_def)

lemma check_semver_Nil [simp]: "check_semver f v = [] \<longleftrightarrow> is_semver v"
  by (auto simp: check_semver_def)

lemma strategy_errors_Nil:
  "strategy_errors seen_ids s = [] \<longleftrightarrow> strategy_ok s \<and> strategy_id s \<notin> set seen_ids"
  by (cases "request_format_cond (strategy_condition s)"; cases "cond_model_id (strategy_condition s)")
     (auto simp: strategy_errors_def strategy_ok_def Let_def)

lemma model_errors_Nil: "model_errors im = [] \<longleftrightarrow> model_ok (snd im)"
  by (cases im) (auto simp: model_errors_def model_ok_def Let_def)

lemma pattern_errors_Nil:
  "pattern_errors seen_ids p = [] \<longleftrightarrow> pattern_ok p \<and> pattern_id p \<notin> set seen_ids"
  by (cases "pattern_regex p"; cases "pattern_description p")
     (auto simp: pattern_errors_def pattern_ok_def Let_def)

lemma strategies_errors_ids:
  "set (snd (strategies_errors seen_ids ss)) = set seen_ids \<union> strategy_id ` set ss"
  by (induction seen_ids ss rule: strategies_errors.induct)
     (auto simp: Let_def split_beta)

lemma strategies_errors_Nil:
  "fst (strategies_errors seen_ids ss) = [] \<longleftrightarrow>
     (\<forall>s \<in> set ss. strategy_ok s) \<and> distinct (map strategy_id ss) \<and>
     set seen_ids \<inter> strategy_id ` set ss = {}"
  by (induction seen_ids ss rule: strategies_errors.induct)
     (auto simp: Let_def split_beta strategy_errors_Nil)

lemma patterns_errors_Nil:
  "patterns_errors seen_ids ps = [] \<longleftrightarrow>
     (\<forall>p \<in> set ps. pattern_ok p) \<and> distinct (map pattern_id ps) \<and>
     set seen_ids \<inter> pattern_id ` set ps = {}"
  by (induction seen_ids ps rule: patterns_errors.induct) (auto simp: pattern_errors_Nil)

lemma validate_routing_policy_Nil:
  "validate_routing_policy rp = [] \<longleftrightarrow>
     is_semver (rp_version rp) \<and> rp_strategies rp \<noteq> [] \<and>
     distinct (map strategy_id (rp_strategies rp)) \<and>
     (\<forall>s \<in> set (rp_strategies rp). strategy_ok s) \<and>
     set (rp_default_priority rp) \<subseteq> strategy_id ` set (rp_strategies rp)"
  using strategies_errors_Nil [of "[]" "rp_strategies rp"]
    strategies_errors_ids [of "[]" "rp_strategies rp"]
  by (auto simp: validate_routing_policy_def split_beta)

lemma validate_config_ok: "validate_config c = Inr () \<longleftrightarrow> config_ok c"
  by (auto simp: validate_config_def config_ok_def Let_def validate_routing_policy_Nil
      validate_models_def model_errors_Nil validate_sensitive_patterns_def patterns_errors_Nil)

lemma models_keyed_fold:
  fixes items :: "json list"
  assumes "\<forall>(i, m) \<in> set acc. mc_model_id m = i" and "sorted_wrt (<) (map fst acc)"
  defines "ms \<equiv> fold (\<lambda>item acc. let m = build_model_config item in map_insert (mc_model_id m) m acc) items acc"
  shows "(\<forall>(i, m) \<in> set ms. mc_model_id m = i) \<and> sorted_wrt (<) (map fst ms)"
  unfolding ms_def using assms(1,2)
proof (induction items arbitrary: acc)
  case (Cons item items)
  let ?m = "build_model_config item"
  have "\<forall>(i, m) \<in> set (map_insert (mc_model_id ?m) ?m acc). mc_model_id m = i"
    using Cons.prems(1) set_map_insert [of "mc_model_id ?m" ?m acc] by blast
  then show ?case
    using Cons.IH [of "map_insert (mc_model_id ?m) ?m acc"] Cons.prems(2)
    by (simp add: Let_def sorted_map_insert)
qed simp

lemma build_config_models:
  assumes "build_config rp mc sp ak path = Inr c"
  shows "(\<forall>(i, m) \<in> set (cf_models c). mc_model_id m = i) \<and> sorted_wrt (<) (map fst (cf_models c)) \<and>
         cf_api_keys_path c = path"
  using assms models_keyed_fold [of "[]" "get_array mc ''models''"]
  by (auto simp: build_config_def split: if_splits)

lemma strict_sorted_distinct: "sorted_wrt (<) (xs :: string list) \<Longrightarrow> distinct xs"
  by (induction xs) auto

text \<open>
  C18. A configuration the router works with is valid: whatever the four documents contain, a
  configuration that loads has a semantic version, at least one strategy, model and pattern,
  strategies and patterns with distinct ids and every field in its documented range, default
  priorities that name strategies, and models stored under their own id.
\<close>

theorem loaded_config_is_valid:
  assumes "load_config_from_contents from_str rp_content mc_content sp_content ak_content path = Inr c"
  shows "config_ok c \<and> distinct (map fst (cf_models c)) \<and>
         (\<forall>(i, m) \<in> set (cf_models c). mc_model_id m = i) \<and> cf_api_keys_path c = path"
proof -
  obtain rp mc sp ak where "build_config rp mc sp ak path = Inr c" and "validate_config c = Inr ()"
    using assms by (auto simp: load_config_from_contents_def rbind_eq_Inr)
  then show ?thesis
    using build_config_models strict_sorted_distinct validate_config_ok by blast
qed

definition demo_documents :: "string \<Rightarrow> json option" where
  "demo_documents content =
     (if content = ''rp'' then
        Some (JObject
          [(''strategies'', JArray [JObject
             [(''action'', JObject [(''model_id'', JString ''m1''), (''sanitize'', JBool True),
                                    (''target'', JString ''cloud'')]),
              (''priority'', JNumber (JInt 10)), (''strategy_id'', JString ''s1'')]]),
           (''version'', JString ''1.0.0'')])
      else if content = ''mc'' then
        Some (JObject [(''models'', JArray [JObject
          [(''endpoint'', JString ''https://llm.example/v1''), (''model_id'', JString ''m1''),
           (''provider'', JString ''openai''), (''type'', JString ''cloud'')]])])
      else if content = ''sp'' then
        Some (JObject [(''patterns'', JArray [JObject
          [(''keywords'', JArray [JString ''tel'']), (''pattern_id'', JString ''phone''),
           (''regex'', JString ''[0-9].*''), (''type'', JString ''phone'')]])])
      else None)"

definition demo_config :: inf_config where
  "demo_config =
     \<lparr>cf_routing =
        \<lparr>rp_version = ''1.0.0'', rp_default_priority = [],
         rp_strategies =
           [\<lparr>strategy_id = ''s1'', strategy_name = [], strategy_enabled = True,
             strategy_priority = 10, strategy_condition = default_condition,
             strategy_action =
               \<lparr>act_target = ''cloud'', act_model_id = ''m1'', act_sanitize = Some True\<rparr>\<rparr>]\<rparr>,
      cf_models =
        [(''m1'',
          \<lparr>mc_model_id = ''m1'', mc_name = [], mc_type = ''cloud'', mc_provider = ''openai'',
           mc_endpoint = ''https://llm.example/v1'', mc_timeout_ms = 30000, mc_max_retries = 3,
           mc_headers = None, mc_enabled = True\<rparr>)],
      cf_patterns_version = [],
      cf_patterns =
        [\<lparr>pattern_id = ''phone'', pattern_name = [], pattern_type = ''phone'',
          pattern_regex = Some ''[0-9].*'', pattern_keywords = Some [''tel''],
          pattern_description = None, pattern_severity = ''medium'', pattern_enabled = True,
          key_dist = 50\<rparr>],
      cf_api_keys = [], cf_api_keys_path = ''keys''\<rparr>"

lemma demo_config_loads:
  "load_config_from_contents demo_documents ''rp'' ''mc'' ''sp'' [] ''keys'' = Inr demo_config"
  by code_simp

theorem loaded_config_is_valid_witness: "config_ok demo_config"
  using loaded_config_is_valid [OF demo_config_loads] by simp

end
