(* ===== verification/InfKeys.thy ===== *)
theory InfKeys
  imports InfConfig
begin

text \<open>
  The API-key store of the local inference router: encryption
  (\<^verbatim>\<open>rust/plugins/agentsandbox/inference/src/crypto.rs\<close>), lookup and persistence
  (\<^verbatim>\<open>config/mod.rs\<close>) and the management operation \<open>apply_api_key\<close> (\<^verbatim>\<open>router.rs\<close>).

  The AES-GCM and base64 crates and the environment variable with the key are the parameter
  \<open>crypto_lib\<close>; a nonce is an argument, since the source draws it at random.  The file system is a
  map from paths to contents; what each call answers is the parameter \<open>fs_env\<close>.  The read of the
  configuration, the write of the file and the update of the configuration are the three critical
  sections of \<open>persist_and_update\<close>, which other threads may interleave.
\<close>

section \<open>Encryption\<close>

record crypto_lib =
  env_key :: "string option"
  b64_decode :: "string \<Rightarrow> bytes option"
  b64_encode :: "bytes \<Rightarrow> string"
  aead_seal :: "bytes \<Rightarrow> bytes \<Rightarrow> bytes \<Rightarrow> bytes option"
  aead_open :: "bytes \<Rightarrow> bytes \<Rightarrow> bytes \<Rightarrow> bytes option"

datatype crypto_error =
  KeyMissing | KeyInvalid | EmptyPlaintext | EncryptError | Malformed | TooShort | DecryptError

definition KEY_SIZE :: nat where "KEY_SIZE = 32"
definition NONCE_SIZE :: nat where "NONCE_SIZE = 12"
definition TAG_SIZE :: nat where "TAG_SIZE = 16"

definition load_key :: "crypto_lib \<Rightarrow> crypto_error + bytes" where
  "load_key lib =
     (case env_key lib of
        None \<Rightarrow> Inl KeyMissing
      | Some raw \<Rightarrow>
          if raw = [] then Inl KeyMissing
          else case b64_decode lib raw of
                 None \<Rightarrow> Inl KeyInvalid
               | Some decoded \<Rightarrow> if length decoded = KEY_SIZE then Inr decoded else Inl KeyInvalid)"

definition encrypt_with :: "crypto_lib \<Rightarrow> bytes \<Rightarrow> bytes \<Rightarrow> string \<Rightarrow> crypto_error + string" where
  "encrypt_with lib nonce key plaintext =
     (if plaintext = [] then Inl EmptyPlaintext
      else case aead_seal lib key nonce (str_bytes plaintext) of
             None \<Rightarrow> Inl EncryptError
           | Some sealed \<Rightarrow> Inr (b64_encode lib (nonce @ sealed)))"

definition decrypt_with :: "crypto_lib \<Rightarrow> bytes \<Rightarrow> string \<Rightarrow> crypto_error + string" where
  "decrypt_with lib key ciphertext_b64 =
     (case b64_decode lib ciphertext_b64 of
        None \<Rightarrow> Inl Malformed
      | Some combined \<Rightarrow>
          if length combined < NONCE_SIZE + TAG_SIZE then Inl TooShort
          else case aead_open lib key (take NONCE_SIZE combined) (drop NONCE_SIZE combined) of
                 None \<Rightarrow> Inl DecryptError
               | Some plaintext \<Rightarrow>
                   (case from_utf8 plaintext of Some s \<Rightarrow> Inr s | None \<Rightarrow> Inl DecryptError))"

definition encrypt :: "crypto_lib \<Rightarrow> bytes \<Rightarrow> string \<Rightarrow> crypto_error + string" where
  "encrypt lib nonce plaintext = rbind (load_key lib) (\<lambda>key. encrypt_with lib nonce key plaintext)"

definition decrypt :: "crypto_lib \<Rightarrow> string \<Rightarrow> crypto_error + string" where
  "decrypt lib ciphertext_b64 = rbind (load_key lib) (\<lambda>key. decrypt_with lib key ciphertext_b64)"

section \<open>Lookup\<close>

datatype credential_error = CredNotFound | CredMissing | CredCrypto crypto_error

definition get_api_key :: "crypto_lib \<Rightarrow> inf_config \<Rightarrow> string \<Rightarrow> credential_error + string" where
  "get_api_key lib config model_id =
     (if map_of (cf_models config) model_id = None then Inl CredNotFound
      else case map_of (cf_api_keys config) model_id of
             Some enc \<Rightarrow>
               if enc \<noteq> [] then
                 (case decrypt lib enc of Inl e \<Rightarrow> Inl (CredCrypto e) | Inr k \<Rightarrow> Inr k)
               else Inl CredMissing
           | None \<Rightarrow> Inl CredMissing)"

definition model_enabled :: "inf_config \<Rightarrow> string \<Rightarrow> bool" where
  "model_enabled config model_id =
     (case map_of (cf_models config) model_id of Some m \<Rightarrow> mc_enabled m | None \<Rightarrow> False)"

definition api_key_for :: "crypto_lib \<Rightarrow> inf_config option \<Rightarrow> string \<Rightarrow> string option" where
  "api_key_for lib state model_id =
     (case state of
        None \<Rightarrow> None
      | Some config \<Rightarrow>
          (case map_of (cf_api_keys config) model_id of
             None \<Rightarrow> None
           | Some encrypted \<Rightarrow>
               if encrypted = [] then None
               else case decrypt lib encrypted of Inr k \<Rightarrow> Some k | Inl e \<Rightarrow> None))"

section \<open>Persistence\<close>

type_synonym files = "string \<Rightarrow> string option"

record fs_env =
  write_ok :: bool
  torn_write :: "string option"
  read_ok :: bool
  rename_ok :: "nat \<Rightarrow> bool"
  remove_ok :: bool
  json_pretty :: "json \<Rightarrow> string option"
  json_parse :: "string \<Rightarrow> json option"

definition remove_file :: "fs_env \<Rightarrow> string \<Rightarrow> files \<Rightarrow> files" where
  "remove_file env p files = (if remove_ok env then files(p := None) else files)"

definition rename_file :: "string \<Rightarrow> string \<Rightarrow> files \<Rightarrow> files" where
  "rename_file from_p to_p files = (files(to_p := files from_p))(from_p := None)"

text \<open>
  The merged keys: deletion before override before the current value; then the overrides that are
  not there yet.
\<close>

definition merge_keys ::
  "(string \<times> string) list \<Rightarrow> (string \<times> string) list \<Rightarrow> string list \<Rightarrow> (string \<times> string) list" where
  "merge_keys current overrides deletes =
     fold (\<lambda>(i, enc) acc. if map_of acc i = None then map_insert i enc acc else acc) overrides
       (fold (\<lambda>(i, enc) acc.
                if i \<in> set deletes then acc
                else map_insert i (case map_of overrides i of Some v \<Rightarrow> v | None \<Rightarrow> enc) acc)
          current [])"

definition keys_document :: "(string \<times> string) list \<Rightarrow> json" where
  "keys_document kvs = JObject [(''api_keys'', JObject (map (\<lambda>(k, v). (k, JString v)) kvs))]"

text \<open>
  The \<open>for i in 0..5\<close> loop of renames: on the last attempt the target is removed and the rename is
  tried once more.
\<close>

function rename_attempts :: "fs_env \<Rightarrow> string \<Rightarrow> string \<Rightarrow> nat \<Rightarrow> files \<Rightarrow> bool \<times> files" where
  "rename_attempts env tmp path i files =
     (if i < 5 then
        if rename_ok env i then (True, rename_file tmp path files)
        else if i = 4 then
          (let removed = remove_file env path files
           in if rename_ok env 5 then (True, rename_file tmp path removed)
              else (False, remove_file env tmp removed))
        else rename_attempts env tmp path (i + 1) files
      else (False, files))"
  by pat_completeness auto
termination by (relation "measure (\<lambda>(env, tmp, path, i, files). 5 - i)") auto

declare rename_attempts.simps [simp del]

definition tmp_path :: "string \<Rightarrow> string" where "tmp_path path = path @ ''.tmp''"

text \<open>The part outside the lock: from the snapshot of path and keys to the renamed file.\<close>

definition persist_file ::
  "fs_env \<Rightarrow> string \<times> (string \<times> string) list \<Rightarrow> (string \<times> string) list \<Rightarrow> string list \<Rightarrow> files \<Rightarrow>
     (inf_config_error + unit) \<times> files" where
  "persist_file env snap overrides deletes files =
     (let (path, current) = snap; tmp = tmp_path path
      in case json_pretty env (keys_document (merge_keys current overrides deletes)) of
           None \<Rightarrow> (Inl ConfigPersist, files)
         | Some content \<Rightarrow>
             if \<not> write_ok env then (Inl ConfigPersist, files(tmp := torn_write env))
             else
               (let written = files(tmp \<mapsto> content)
                in if \<not> read_ok env then (Inl ConfigPersist, written)
                   else if json_parse env content = None
                   then (Inl ConfigPersist, remove_file env tmp written)
                   else
                     (let (ok, files') = rename_attempts env tmp path 0 written
                      in (if ok then Inr () else Inl ConfigPersist, files'))))"

definition snapshot :: "inf_config \<Rightarrow> string \<times> (string \<times> string) list" where
  "snapshot config = (cf_api_keys_path config, cf_api_keys config)"

definition update_cache :: "(string \<times> string) list \<Rightarrow> string list \<Rightarrow> inf_config \<Rightarrow> inf_config" where
  "update_cache overrides deletes config =
     config\<lparr>cf_api_keys :=
       fold map_remove deletes (fold (\<lambda>(i, enc). map_insert i enc) overrides (cf_api_keys config))\<rparr>"

definition persist_and_update ::
  "fs_env \<Rightarrow> (string \<times> string) list \<Rightarrow> string list \<Rightarrow> inf_config \<times> files \<Rightarrow>
     (inf_config_error + unit) \<times> inf_config \<times> files" where
  "persist_and_update env overrides deletes st =
     (let (config, files) = st
      in case persist_file env (snapshot config) overrides deletes files of
           (Inl e, files') \<Rightarrow> (Inl e, config, files')
         | (Inr _, files') \<Rightarrow> (Inr (), update_cache overrides deletes config, files'))"

section \<open>Management\<close>

definition encrypt_item ::
  "crypto_lib \<Rightarrow> bytes \<Rightarrow> inf_config \<Rightarrow> api_key_item \<Rightarrow> api_key_error + string" where
  "encrypt_item lib nonce config item =
     (if \<not> model_enabled config (key_model_id item) then Inl ApiKeyModelNotFound
      else case encrypt lib nonce (key_value item) of
             Inl EmptyPlaintext \<Rightarrow> Inl ApiKeyInvalid
           | Inl _ \<Rightarrow> Inl ApiKeyCrypto
           | Inr c \<Rightarrow> Inr c)"

definition first_error :: "api_key_error option \<Rightarrow> api_key_error \<Rightarrow> api_key_error option" where
  "first_error fe e = (case fe of None \<Rightarrow> Some e | Some _ \<Rightarrow> fe)"

fun encrypt_items ::
  "crypto_lib \<Rightarrow> (nat \<Rightarrow> bytes) \<Rightarrow> inf_config \<Rightarrow> nat \<Rightarrow> api_key_item list \<Rightarrow>
     (string \<times> string) list \<times> api_key_error option \<Rightarrow>
     (string \<times> string) list \<times> api_key_error option" where
  "encrypt_items lib nonces config n [] acc = acc"
| "encrypt_items lib nonces config n (item # items) acc =
     encrypt_items lib nonces config (n + 1) items
       (case encrypt_item lib (nonces n) config item of
          Inr c \<Rightarrow> (map_insert (key_model_id item) c (fst acc), snd acc)
        | Inl e \<Rightarrow> (fst acc, first_error (snd acc) e))"

definition storage_error ::
  "(inf_config_error + unit) \<Rightarrow> api_key_error option \<Rightarrow> api_key_error option" where
  "storage_error r fe = (case r of Inl _ \<Rightarrow> first_error fe ApiKeyStorage | Inr _ \<Rightarrow> fe)"

definition outcome :: "api_key_error option \<Rightarrow> api_key_error + unit" where
  "outcome fe = (case fe of Some e \<Rightarrow> Inl e | None \<Rightarrow> Inr ())"

definition apply_api_key ::
  "crypto_lib \<Rightarrow> (nat \<Rightarrow> bytes) \<Rightarrow> fs_env \<Rightarrow> api_key_request \<Rightarrow> inf_config option \<times> files \<Rightarrow>
     (api_key_error + unit) \<times> inf_config option \<times> files" where
  "apply_api_key lib nonces env req st =
     (case st of
        (None, files) \<Rightarrow> (Inl ApiKeyNotInitialized, None, files)
      | (Some config, files) \<Rightarrow>
          if key_items req = [] then (Inr (), Some config, files)
          else case key_action req of
                 KeySet \<Rightarrow>
                   (let (encrypted, fe) = encrypt_items lib nonces config 0 (key_items req) ([], None)
                    in if encrypted = [] then (outcome fe, Some config, files)
                       else
                         (let (r, config', files') = persist_and_update env encrypted [] (config, files)
                          in (outcome (storage_error r fe), Some config', files')))
               | KeyDelete \<Rightarrow>
                   (let (r, config', files') =
                          persist_and_update env [] (map key_model_id (key_items req)) (config, files)
                    in (outcome (storage_error r None), Some config', files')))"

section \<open>What is assumed of the libraries\<close>

definition crypto_ok :: "crypto_lib \<Rightarrow> bool" where
  "crypto_ok lib \<longleftrightarrow>
     (\<forall>b. b64_decode lib (b64_encode lib b) = Some b) \<and>
     (\<forall>b. b \<noteq> [] \<longrightarrow> b64_encode lib b \<noteq> []) \<and>
     (\<forall>key nonce p c. length key = KEY_SIZE \<longrightarrow> length nonce = NONCE_SIZE \<longrightarrow>
        aead_seal lib key nonce p = Some c \<longrightarrow>
        aead_open lib key nonce c = Some p \<and> length c = length p + TAG_SIZE)"

definition json_ok :: "fs_env \<Rightarrow> bool" where
  "json_ok env \<longleftrightarrow>
     (\<forall>j content. json_pretty env j = Some content \<longrightarrow>
        json_parse env content = Some j \<and> content \<noteq> [])"

section \<open>Keys are readable after they are set\<close>

lemma char_byte_char [simp]: "char_of (unat (word_of_nat (of_char c) :: 8 word)) = (c :: char)"
proof -
  have "(of_char c :: nat) < 256" by simp
  then have "unat (word_of_nat (of_char c) :: 8 word) = of_char c" by (simp add: unat_of_nat)
  then show ?thesis by simp
qed

lemma from_utf8_str_bytes: "utf8_lossy s = s \<Longrightarrow> from_utf8 (str_bytes s) = Some s"
  by (simp add: from_utf8_def str_bytes_def Let_def comp_def)

lemma encrypt_Inr:
  assumes "crypto_ok lib" and "length nonce = NONCE_SIZE" and "utf8_lossy p = p"
    and "encrypt lib nonce p = Inr c"
  shows "decrypt lib c = Inr p \<and> c \<noteq> []"
proof -
  obtain key where key: "load_key lib = Inr key" and enc: "encrypt_with lib nonce key p = Inr c"
    using assms(4) by (auto simp: encrypt_def rbind_eq_Inr)
  have len: "length key = KEY_SIZE"
    using key by (auto simp: load_key_def split: option.splits if_splits)
  obtain sealed where sealed: "aead_seal lib key nonce (str_bytes p) = Some sealed"
    and c: "c = b64_encode lib (nonce @ sealed)"
    using enc by (auto simp: encrypt_with_def split: if_splits option.splits)
  have opened: "aead_open lib key nonce sealed = Some (str_bytes p) \<and>
      length sealed = length (str_bytes p) + TAG_SIZE"
    using assms(1,2) len sealed unfolding crypto_ok_def by blast
  have "nonce @ sealed \<noteq> []" using assms(2) by (auto simp: NONCE_SIZE_def)
  then have "b64_decode lib c = Some (nonce @ sealed)" "c \<noteq> []"
    using assms(1) by (auto simp: crypto_ok_def c)
  then show ?thesis
    using key opened assms(2) from_utf8_str_bytes [OF assms(3)]
    by (simp add: decrypt_def decrypt_with_def)
qed

definition item_pairs :: "api_key_item list \<Rightarrow> (string \<times> string) list" where
  "item_pairs items = map (\<lambda>it. (key_model_id it, key_value it)) items"

lemma encrypt_item_Inr:
  "encrypt_item lib nonce config item = Inr c \<Longrightarrow> encrypt lib nonce (key_value item) = Inr c"
  by (auto simp: encrypt_item_def split: if_splits sum.splits crypto_error.splits)

lemma first_error_Some [simp]: "first_error fe e \<noteq> None"
  by (simp add: first_error_def split: option.splits)

lemma encrypt_items_error: "snd acc \<noteq> None \<Longrightarrow> snd (encrypt_items lib nonces config n items acc) \<noteq> None"
proof (induction items arbitrary: n acc)
  case (Cons item items)
  then show ?case by (cases "encrypt_item lib (nonces n) config item") (simp_all del: not_None_eq)
qed simp

lemma encrypt_items_readable:
  assumes "crypto_ok lib" and "\<forall>n. length (nonces n) = NONCE_SIZE"
    and "\<forall>it \<in> set items. utf8_lossy (key_value it) = key_value it"
    and "snd (encrypt_items lib nonces config n items acc) = None"
  shows "case map_of (rev (item_pairs items)) i of
           Some v \<Rightarrow> \<exists>c. map_of (fst (encrypt_items lib nonces config n items acc)) i = Some c \<and>
                        c \<noteq> [] \<and> decrypt lib c = Inr v
         | None \<Rightarrow> map_of (fst (encrypt_items lib nonces config n items acc)) i = map_of (fst acc) i"
  using assms(3,4)
proof (induction items arbitrary: n acc)
  case (Cons item items)
  show ?case
  proof (cases "encrypt_item lib (nonces n) config item")
    case (Inl e)
    have "snd (encrypt_items lib nonces config n (item # items) acc) \<noteq> None"
      by (simp add: Inl encrypt_items_error del: not_None_eq)
    then show ?thesis using Cons.prems(2) by simp
  next
    case (Inr c)
    let ?acc = "(map_insert (key_model_id item) c (fst acc), snd acc)"
    have step: "encrypt_items lib nonces config n (item # items) acc =
        encrypt_items lib nonces config (n + 1) items ?acc" by (simp add: Inr)
    have "utf8_lossy (key_value item) = key_value item" using Cons.prems(1) by simp
    from encrypt_Inr [OF assms(1) spec [OF assms(2)] this encrypt_item_Inr [OF Inr]]
    have c: "decrypt lib c = Inr (key_value item)" "c \<noteq> []" by simp_all
    have "snd (encrypt_items lib nonces config (n + 1) items ?acc) = None"
      using Cons.prems(2) step by simp
    from Cons.IH [OF _ this] Cons.prems(1)
    show ?thesis unfolding step using c
      by (auto simp: item_pairs_def map_add_def split: option.splits if_splits)
  qed
qed (simp add: item_pairs_def)

lemma encrypt_items_sorted:
  "sorted_wrt (<) (map fst (fst acc)) \<Longrightarrow>
   sorted_wrt (<) (map fst (fst (encrypt_items lib nonces config n items acc)))"
proof (induction items arbitrary: n acc)
  case (Cons item items)
  then show ?case
    by (cases "encrypt_item lib (nonces n) config item") (simp_all add: sorted_map_insert)
qed simp

lemma map_of_rev_sorted:
  assumes "sorted_wrt (<) (map fst kvs)"
  shows "map_of (rev kvs) = map_of (kvs :: (string \<times> 'v) list)"
proof -
  have "distinct (map fst kvs)" using assms strict_sorted_distinct by blast
  then show ?thesis by (intro map_of_eqI) (auto simp: rev_map [symmetric] map_of_eq_Some_iff)
qed

lemma update_cache_keys:
  assumes "sorted_wrt (<) (map fst overrides)"
  shows "map_of (cf_api_keys (update_cache overrides deletes config)) i =
           (if i \<in> set deletes then None
            else case map_of overrides i of Some c \<Rightarrow> Some c | None \<Rightarrow> map_of (cf_api_keys config) i)"
proof -
  have del: "map_of (fold map_remove deletes m) i = (if i \<in> set deletes then None else map_of m i)" for m
    by (induction deletes arbitrary: m) auto
  show ?thesis
    unfolding update_cache_def
    using sorted_map_store.lookup_puts [where s = "cf_api_keys config" and kvs = overrides and k = i] map_of_rev_sorted [OF assms]
    by (simp add: del split: option.splits)
qed

text \<open>
  C21. A key that was set can be read back: when a set request succeeds, every model it names
  answers the last value given for it, and every other model answers what it answered before.
\<close>

theorem set_keys_are_readable:
  assumes "crypto_ok lib" and "\<forall>n. length (nonces n) = NONCE_SIZE"
    and "\<forall>it \<in> set items. utf8_lossy (key_value it) = key_value it"
    and "apply_api_key lib nonces env \<lparr>key_action = KeySet, key_items = items\<rparr> (Some config, files) =
           (Inr (), Some config', files')"
  shows "api_key_for lib (Some config') i =
           (case map_of (rev (item_pairs items)) i of
              Some v \<Rightarrow> Some v | None \<Rightarrow> api_key_for lib (Some config) i)"
proof (cases "items = []")
  case True
  then show ?thesis using assms(4) by (simp add: apply_api_key_def item_pairs_def)
next
  case False
  obtain encrypted fe where enc: "encrypt_items lib nonces config 0 items ([], None) = (encrypted, fe)"
    by fastforce
  have ok: "fe = None" and cfg: "config' = (if encrypted = [] then config else update_cache encrypted [] config)"
    using assms(4) False
    by (auto simp: apply_api_key_def enc persist_and_update_def outcome_def storage_error_def
        first_error_def split: if_splits option.splits sum.splits prod.splits)
  have sorted: "sorted_wrt (<) (map fst encrypted)"
    using encrypt_items_sorted [of "([], None)" lib nonces config 0 items] enc by simp
  have keys: "map_of (cf_api_keys config') i =
      (case map_of encrypted i of Some c \<Rightarrow> Some c | None \<Rightarrow> map_of (cf_api_keys config) i)"
    unfolding cfg using update_cache_keys [OF sorted, of "[]" config i] by simp
  show ?thesis
    using encrypt_items_readable [OF assms(1,2,3), where config = config and n = 0 and acc = "([], None)" and i = i] ok enc keys
    by (auto simp: api_key_for_def split: option.splits)
qed

section \<open>What is on disk\<close>

text \<open>What the next start would load from the file: nothing when it is missing or empty.\<close>

definition reload_keys :: "fs_env \<Rightarrow> inf_config \<Rightarrow> files \<Rightarrow> (string \<times> string) list option" where
  "reload_keys env config files =
     (case files (cf_api_keys_path config) of
        None \<Rightarrow> Some []
      | Some content \<Rightarrow>
          if content = [] then Some [] else map_option build_api_keys (json_parse env content))"

definition keys_wf :: "(string \<times> string) list \<Rightarrow> bool" where
  "keys_wf kvs \<longleftrightarrow> sorted_wrt (<) (map fst kvs) \<and> (\<forall>kv \<in> set kvs. snd kv \<noteq> [])"

definition key_store_ok :: "fs_env \<Rightarrow> inf_config \<Rightarrow> files \<Rightarrow> bool" where
  "key_store_ok env config files \<longleftrightarrow>
     keys_wf (cf_api_keys config) \<and>
     (\<exists>kvs. reload_keys env config files = Some kvs \<and> map_of kvs = map_of (cf_api_keys config))"

lemma keys_wf_Nil [simp]: "keys_wf []"
  by (simp add: keys_wf_def)

lemma keys_wf_insert [intro]: "keys_wf m \<Longrightarrow> v \<noteq> [] \<Longrightarrow> keys_wf (map_insert k v m)"
  using set_map_insert [of k v m] by (auto simp: keys_wf_def sorted_map_insert)

lemma keys_wf_value: "(a, b) \<in> set kvs \<Longrightarrow> keys_wf kvs \<Longrightarrow> b \<noteq> []"
  by (auto simp: keys_wf_def)

lemma keys_wf_remove [intro]: "keys_wf m \<Longrightarrow> keys_wf (map_remove k m)"
  by (auto simp: keys_wf_def map_remove_def sorted_wrt_map sorted_wrt_filter)

lemma keys_wf_fold:
  assumes "\<And>x m. x \<in> set xs \<Longrightarrow> keys_wf m \<Longrightarrow> keys_wf (f x m)" and "keys_wf m"
  shows "keys_wf (fold f xs m)"
  by (rule fold_invariant [where Q = "\<lambda>x. x \<in> set xs"]) (use assms in auto)

lemma build_api_keys_document:
  assumes "keys_wf kvs"
  shows "map_of (build_api_keys (keys_document kvs)) = map_of kvs"
proof -
  have "fold (\<lambda>(k, v) acc. case as_str v of
               Some s \<Rightarrow> if s \<noteq> [] then map_insert k s acc else acc | None \<Rightarrow> acc)
          (map (\<lambda>(k, v). (k, JString v)) kvs) acc =
        fold (\<lambda>(k, v). map_insert k v) kvs acc" for acc
    using assms unfolding keys_wf_def by (induction kvs arbitrary: acc) auto
  then have "build_api_keys (keys_document kvs) = fold (\<lambda>(k, v). map_insert k v) kvs []"
    by (simp add: build_api_keys_def keys_document_def)
  then show ?thesis
    using sorted_map_store.lookup_puts [where s = "[] :: (string \<times> string) list" and kvs = kvs]
      map_of_rev_sorted [of kvs] assms
    by (auto simp: fun_eq_iff keys_wf_def split: option.splits)
qed

lemma merge_first:
  "map_of (fold (\<lambda>(i, enc) acc. if i \<in> D then acc else map_insert i (g i enc) acc) kvs acc) k =
     (if k \<in> D then map_of acc k
      else case map_of (rev kvs) k of Some enc \<Rightarrow> Some (g k enc) | None \<Rightarrow> map_of acc k)"
  by (induction kvs arbitrary: acc) (auto simp: map_add_def split: option.splits)

lemma merge_second:
  "map_of (fold (\<lambda>(i, enc) acc. if map_of acc i = None then map_insert i enc acc else acc) kvs acc) k =
     (case map_of acc k of Some v \<Rightarrow> Some v | None \<Rightarrow> map_of kvs k)"
proof (induction kvs arbitrary: acc)
  case (Cons kv kvs)
  obtain i enc where kv: "kv = (i, enc)" by (cases kv)
  show ?case
  proof (cases "map_of acc i")
    case None
    then show ?thesis using Cons.IH [of "map_insert i enc acc"] by (auto simp: kv split: option.splits)
  next
    case (Some v)
    then show ?thesis using Cons.IH [of acc] by (auto simp: kv split: option.splits)
  qed
qed (simp split: option.splits)

lemma merge_keys_lookup:
  assumes "sorted_wrt (<) (map fst current)" and "\<forall>i \<in> set deletes. map_of overrides i = None"
  shows "map_of (merge_keys current overrides deletes) k =
           (if k \<in> set deletes then None
            else case map_of overrides k of Some c \<Rightarrow> Some c | None \<Rightarrow> map_of current k)"
  using assms(2)
  by (auto simp: merge_keys_def merge_second merge_first map_of_rev_sorted [OF assms(1)]
      split: option.splits)

lemma merge_keys_wf:
  assumes "keys_wf current" and "keys_wf overrides"
  shows "keys_wf (merge_keys current overrides deletes)"
proof -
  have v: "(case map_of overrides i of Some v \<Rightarrow> v | None \<Rightarrow> enc) \<noteq> []" if "(i, enc) \<in> set current" for i enc
    using keys_wf_value [OF that assms(1)] keys_wf_value [OF map_of_SomeD assms(2)]
    by (auto split: option.splits)
  have "keys_wf (fold (\<lambda>(i, enc) acc.
                  if i \<in> set deletes then acc
                  else map_insert i (case map_of overrides i of Some v \<Rightarrow> v | None \<Rightarrow> enc) acc)
            current [])"
    by (rule keys_wf_fold) (auto intro!: keys_wf_insert v)
  then show ?thesis unfolding merge_keys_def
    by (rule keys_wf_fold [rotated]) (auto intro!: keys_wf_insert dest: keys_wf_value [OF _ assms(2)])
qed

lemma update_cache_wf:
  assumes "keys_wf (cf_api_keys config)" and "keys_wf overrides"
  shows "keys_wf (cf_api_keys (update_cache overrides deletes config))"
proof -
  have "keys_wf (fold (\<lambda>(i, enc). map_insert i enc) overrides (cf_api_keys config))"
    by (rule keys_wf_fold) (use assms(1) in \<open>auto intro!: keys_wf_insert dest: keys_wf_value [OF _ assms(2)]\<close>)
  then have "keys_wf (fold map_remove deletes
      (fold (\<lambda>(i, enc). map_insert i enc) overrides (cf_api_keys config)))"
    using keys_wf_fold [of deletes map_remove] by auto
  then show ?thesis by (simp add: update_cache_def)
qed

lemma tmp_path_neq [simp]: "tmp_path p \<noteq> p"
  by (simp add: tmp_path_def)

lemma rename_attempts_result:
  "i \<le> 4 \<Longrightarrow> tmp \<noteq> path \<Longrightarrow>
     fst (rename_attempts env tmp path i files) = (\<exists>j. i \<le> j \<and> j \<le> 5 \<and> rename_ok env j) \<and>
     snd (rename_attempts env tmp path i files) path =
       (if \<exists>j. i \<le> j \<and> j \<le> 5 \<and> rename_ok env j then files tmp
        else if remove_ok env then None else files path)"
proof (induction env tmp path i files rule: rename_attempts.induct)
  case (1 env tmp path i files)
  let ?r = "\<lambda>k. \<exists>j. k \<le> j \<and> j \<le> 5 \<and> rename_ok env j"
  consider (now) "rename_ok env i" | (last) "\<not> rename_ok env i" "i = 4"
    | (later) "\<not> rename_ok env i" "i < 4"
    using 1(2) by linarith
  then show ?case
  proof cases
    case now
    have "?r i" using now 1(2) by auto
    then show ?thesis using now 1(2,3) by (subst (1 2) rename_attempts.simps) (simp add: rename_file_def)
  next
    case last
    have "?r i = rename_ok env 5"
    proof
      assume "?r i"
      then obtain j where "i \<le> j" "j \<le> 5" "rename_ok env j" by blast
      moreover from this last have "j = 5" by (cases "j = 4") auto
      ultimately show "rename_ok env 5" by simp
    next
      assume "rename_ok env 5"
      then show "?r i" using last(2) by (intro exI [of _ 5]) simp
    qed
    then show ?thesis using last 1(3)
      by (subst (1 2) rename_attempts.simps) (simp add: rename_file_def remove_file_def Let_def)
  next
    case later
    have "?r i = ?r (i + 1)"
      using later(1) by (metis Suc_eq_plus1 Suc_leD le_antisym not_less_eq_eq)
    moreover have "rename_attempts env tmp path i files = rename_attempts env tmp path (i + 1) files"
      using later by (subst rename_attempts.simps) simp
    moreover have "fst (rename_attempts env tmp path (i + 1) files) = ?r (i + 1) \<and>
        snd (rename_attempts env tmp path (i + 1) files) path =
          (if ?r (i + 1) then files tmp else if remove_ok env then None else files path)"
      using 1(1) later 1(3) by simp
    ultimately show ?thesis by simp
  qed
qed

lemma persist_file_cases:
  assumes "persist_file env (path, current) overrides deletes files = (r, files')"
  obtains (written) content where
      "r = Inr ()" "json_pretty env (keys_document (merge_keys current overrides deletes)) = Some content"
      "files' path = Some content"
  | (kept) "r = Inl ConfigPersist" "files' path = files path"
  | (lost) "r = Inl ConfigPersist" "\<forall>j \<le> 5. \<not> rename_ok env j" "remove_ok env" "files' path = None"
proof -
  let ?doc = "keys_document (merge_keys current overrides deletes)"
  have neq: "path \<noteq> tmp_path path" using tmp_path_neq [of path] by metis
  show thesis
  proof (cases "json_pretty env ?doc")
    case None
    then show thesis using assms kept by (simp add: persist_file_def)
  next
    case (Some content)
    let ?w = "files(tmp_path path \<mapsto> content)"
    let ?ra = "rename_attempts env (tmp_path path) path 0 ?w"
    consider (early) "\<not> write_ok env \<or> \<not> read_ok env \<or> json_parse env content = None"
      | (rename) "write_ok env" "read_ok env" "json_parse env content \<noteq> None" by blast
    then show thesis
    proof cases
      case early
      then have "r = Inl ConfigPersist \<and> files' path = files path"
        using assms Some neq by (auto simp: persist_file_def Let_def remove_file_def split: if_splits)
      then show thesis using kept by blast
    next
      case rename
      then have r: "r = (if fst ?ra then Inr () else Inl ConfigPersist)" "files' = snd ?ra"
        using assms Some by (auto simp: persist_file_def Let_def split: prod.splits)
      have res: "fst ?ra = (\<exists>j. 0 \<le> j \<and> j \<le> 5 \<and> rename_ok env j) \<and>
          snd ?ra path = (if \<exists>j. 0 \<le> j \<and> j \<le> 5 \<and> rename_ok env j then ?w (tmp_path path)
                          else if remove_ok env then None else ?w path)"
        by (rule rename_attempts_result) (simp_all add: tmp_path_neq)
      show thesis
      proof (cases "\<exists>j. 0 \<le> j \<and> j \<le> 5 \<and> rename_ok env j")
        case True
        then show thesis using res r Some written [of content] by simp
      next
        case False
        then have "\<not> fst ?ra" "snd ?ra path = (if remove_ok env then None else ?w path)"
          using res by (simp_all only: if_False simp_thms)
        then have "r = Inl ConfigPersist"
          "files' path = (if remove_ok env then None else ?w path)" by (simp_all only: r if_False)
        moreover have "?w path = files path" using neq by simp
        ultimately show thesis using kept lost False by (cases "remove_ok env") auto
      qed
    qed
  qed
qed

lemma persist_and_update_store:
  assumes "key_store_ok env config files" and "json_ok env" and "keys_wf overrides"
    and "\<forall>i \<in> set deletes. map_of overrides i = None" and "\<exists>j \<le> 5. rename_ok env j"
    and "persist_and_update env overrides deletes (config, files) = (r, config', files')"
  shows "key_store_ok env config' files'"
proof -
  let ?path = "cf_api_keys_path config" and ?current = "cf_api_keys config"
  have wf: "keys_wf ?current" using assms(1) by (simp add: key_store_ok_def)
  obtain pr where pf: "persist_file env (?path, ?current) overrides deletes files = (pr, files')"
    and c: "config' = (case pr of Inl _ \<Rightarrow> config | Inr _ \<Rightarrow> update_cache overrides deletes config)"
    using assms(6) by (auto simp: persist_and_update_def snapshot_def split: prod.splits sum.splits)
  from pf show ?thesis
  proof (cases rule: persist_file_cases)
    case (written content)
    let ?merged = "merge_keys ?current overrides deletes"
    have config': "config' = update_cache overrides deletes config" using c written(1) by simp
    have parse: "json_parse env content = Some (keys_document ?merged)" "content \<noteq> []"
      using assms(2) written(2) by (auto simp: json_ok_def)
    have "map_of ?merged = map_of (cf_api_keys config')"
      unfolding config'
      using merge_keys_lookup [of ?current deletes overrides] update_cache_keys [of overrides deletes config]
        wf assms(3,4) by (auto simp: keys_wf_def fun_eq_iff)
    then have "map_of (build_api_keys (keys_document ?merged)) = map_of (cf_api_keys config')"
      using build_api_keys_document [OF merge_keys_wf [OF wf assms(3)]] by simp
    moreover have "keys_wf (cf_api_keys config')"
      unfolding config' by (rule update_cache_wf [OF wf assms(3)])
    moreover have "cf_api_keys_path config' = ?path" by (simp add: config' update_cache_def)
    ultimately show ?thesis using parse written(3) by (simp add: key_store_ok_def reload_keys_def)
  next
    case kept
    then show ?thesis using assms(1) c by (simp add: key_store_ok_def reload_keys_def)
  next
    case lost
    then show ?thesis using assms(5) by blast
  qed
qed

lemma encrypt_items_wf:
  assumes "crypto_ok lib" and "\<forall>n. length (nonces n) = NONCE_SIZE" and "keys_wf (fst acc)"
  shows "keys_wf (fst (encrypt_items lib nonces config n items acc))"
  using assms(3)
proof (induction items arbitrary: n acc)
  case (Cons item items)
  show ?case
  proof (cases "encrypt_item lib (nonces n) config item")
    case (Inl e)
    then show ?thesis using Cons by simp
  next
    case (Inr c)
    have "c \<noteq> []"
    proof -
      obtain sealed where "c = b64_encode lib (nonces n @ sealed)"
        using encrypt_item_Inr [OF Inr]
        by (auto simp: encrypt_def rbind_eq_Inr encrypt_with_def split: if_splits option.splits)
      moreover have "nonces n @ sealed \<noteq> []"
        using assms(2) by (metis NONCE_SIZE_def append_is_Nil_conv list.size(3) zero_neq_numeral)
      ultimately show ?thesis using assms(1) by (auto simp: crypto_ok_def)
    qed
    then have "keys_wf (map_insert (key_model_id item) c (fst acc))"
      using Cons.prems by (rule keys_wf_insert [rotated])
    then show ?thesis using Cons.IH Inr by simp
  qed
qed simp

text \<open>
  C22. Keys survive a restart.  Whatever a management request does and however it ends, short of
  six failing renames in a row: if what a start would load from the key file equals the keys in
  memory, it still does afterwards.
\<close>

theorem keys_survive_restart:
  assumes "key_store_ok env config files" and "json_ok env" and "crypto_ok lib"
    and "\<forall>n. length (nonces n) = NONCE_SIZE" and "\<exists>j \<le> 5. rename_ok env j"
    and "apply_api_key lib nonces env req (Some config, files) = (r, Some config', files')"
  shows "key_store_ok env config' files'"
proof (cases "key_items req = []")
  case True
  then show ?thesis using assms(1,6) by (simp add: apply_api_key_def)
next
  case False
  note store = persist_and_update_store [OF assms(1,2) _ _ assms(5)]
  show ?thesis
  proof (cases "key_action req")
    case KeySet
    obtain encrypted fe where enc: "encrypt_items lib nonces config 0 (key_items req) ([], None) = (encrypted, fe)"
      by fastforce
    have wf: "keys_wf encrypted"
      using encrypt_items_wf [OF assms(3,4), of "([], None)" config 0 "key_items req"] enc by simp
    show ?thesis
    proof (cases "encrypted = []")
      case True
      then show ?thesis using assms(1,6) False KeySet by (simp add: apply_api_key_def enc)
    next
      case ne: False
      obtain pr where "persist_and_update env encrypted [] (config, files) = (pr, config', files')"
        using assms(6) False KeySet ne by (auto simp: apply_api_key_def enc split: prod.splits)
      then show ?thesis by (rule store [OF wf, rotated]) simp
    qed
  next
    case KeyDelete
    obtain pr where "persist_and_update env [] (map key_model_id (key_items req)) (config, files) =
        (pr, config', files')"
      using assms(6) False KeyDelete by (auto simp: apply_api_key_def split: prod.splits)
    then show ?thesis by (rule store [OF keys_wf_Nil, rotated]) simp
  qed
qed

text \<open>
  The failing path of the atomic write is not atomic.  When every rename fails the loop has
  already removed the key file: the request is answered with a storage error, the keys in memory
  are unchanged, and a restart would load none of them.
\<close>

theorem failed_persist_deletes_store:
  assumes "write_ok env" and "read_ok env" and "remove_ok env" and "\<forall>j. \<not> rename_ok env j"
    and "json_pretty env (keys_document (merge_keys (cf_api_keys config) [] deletes)) = Some content"
    and "json_parse env content \<noteq> None" and "deletes \<noteq> []"
  shows "\<exists>files'. apply_api_key lib nonces env
             \<lparr>key_action = KeyDelete, key_items = map (\<lambda>i. \<lparr>key_model_id = i, key_value = v\<rparr>) deletes\<rparr>
             (Some config, files) = (Inl ApiKeyStorage, Some config, files') \<and>
           files' (cf_api_keys_path config) = None \<and> reload_keys env config files' = Some []"
proof -
  let ?path = "cf_api_keys_path config"
  let ?w = "files(tmp_path ?path \<mapsto> content)"
  obtain ok files' where ra: "rename_attempts env (tmp_path ?path) ?path 0 ?w = (ok, files')"
    by fastforce
  have gone: "\<not> ok" "files' ?path = None"
    using rename_attempts_result [of 0 "tmp_path ?path" ?path env ?w] assms(3,4) ra by simp_all
  obtain j where "json_parse env content = Some j" using assms(6) by blast
  then have "persist_file env (?path, cf_api_keys config) [] deletes files = (Inl ConfigPersist, files')"
    using assms(1,2,5) ra gone by (simp add: persist_file_def Let_def)
  then show ?thesis
    using assms(7) gone
    by (simp add: apply_api_key_def persist_and_update_def snapshot_def comp_def
        outcome_def storage_error_def first_error_def reload_keys_def)
qed

section \<open>Concurrent requests\<close>

text \<open>
  Two threads may be inside \<open>persist_and_update\<close> at once: the lock is held for the snapshot and for
  the update of the cache, not for the file in between.
\<close>

datatype key_op = TakeSnapshot nat | WriteFile nat | PublishKeys nat

record key_run =
  kr_config :: inf_config
  kr_files :: files
  kr_snapshots :: "nat \<Rightarrow> string \<times> (string \<times> string) list"
  kr_written :: "nat \<Rightarrow> bool"

fun key_step :: "fs_env \<Rightarrow> (nat \<Rightarrow> (string \<times> string) list \<times> string list) \<Rightarrow> key_op \<Rightarrow> key_run \<Rightarrow> key_run" where
  "key_step env reqs (TakeSnapshot t) s =
     s\<lparr>kr_snapshots := (kr_snapshots s)(t := snapshot (kr_config s))\<rparr>"
| "key_step env reqs (WriteFile t) s =
     (case persist_file env (kr_snapshots s t) (fst (reqs t)) (snd (reqs t)) (kr_files s) of
        (r, files') \<Rightarrow> s\<lparr>kr_files := files', kr_written := (kr_written s)(t := (r = Inr ()))\<rparr>)"
| "key_step env reqs (PublishKeys t) s =
     (if kr_written s t
      then s\<lparr>kr_config := update_cache (fst (reqs t)) (snd (reqs t)) (kr_config s)\<rparr> else s)"

lemma key_steps_alone:
  "let s' = fold (key_step env reqs) [TakeSnapshot t, WriteFile t, PublishKeys t] s;
       (r, config', files') =
         persist_and_update env (fst (reqs t)) (snd (reqs t)) (kr_config s, kr_files s)
   in kr_config s' = config' \<and> kr_files s' = files'"
  by (simp add: persist_and_update_def Let_def split: prod.splits sum.splits)

lemma persist_file_first_rename:
  assumes "write_ok env" and "read_ok env" and "rename_ok env 0" and "json_ok env"
    and "json_pretty env (keys_document (merge_keys current overrides deletes)) = Some content"
  shows "\<exists>files'. persist_file env (path, current) overrides deletes files = (Inr (), files') \<and>
           files' path = Some content"
proof -
  have "json_parse env content \<noteq> None" using assms(4,5) by (simp add: json_ok_def)
  then obtain j where "json_parse env content = Some j" by blast
  moreover have "fst (rename_attempts env (tmp_path path) path 0 fs) \<and>
      snd (rename_attempts env (tmp_path path) path 0 fs) path = fs (tmp_path path)" for fs
    using rename_attempts_result [of 0 "tmp_path path" path env fs] assms(3) by auto
  ultimately show ?thesis
    using assms(1,2,5)
    by (auto simp: persist_file_def Let_def split: prod.splits) (metis fst_conv fun_upd_same snd_conv)+
qed

text \<open>
  Two concurrent set requests can lose a key on disk.  When both take their snapshot before
  either writes, both succeed and both keys are in memory, but the file holds only the key of the
  request that wrote last: the other key is gone after a restart.
\<close>

theorem concurrent_sets_lose_a_key:
  assumes "write_ok env" and "read_ok env" and "rename_ok env 0" and "json_ok env"
    and "keys_wf (cf_api_keys config)" and "map_of (cf_api_keys config) i = None"
    and "i \<noteq> j" and "c \<noteq> []" and "d \<noteq> []"
    and "json_pretty env (keys_document (merge_keys (cf_api_keys config) [(i, c)] [])) \<noteq> None"
    and "json_pretty env (keys_document (merge_keys (cf_api_keys config) [(j, d)] [])) \<noteq> None"
    and "reqs 0 = ([(i, c)], [])" and "reqs 1 = ([(j, d)], [])"
  shows "let s' = fold (key_step env reqs)
                   [TakeSnapshot 0, TakeSnapshot 1, WriteFile 0, PublishKeys 0, WriteFile 1, PublishKeys 1]
                   \<lparr>kr_config = config, kr_files = files, kr_snapshots = sn, kr_written = w\<rparr>
         in kr_written s' 0 \<and> kr_written s' 1 \<and>
            map_of (cf_api_keys (kr_config s')) i = Some c \<and>
            map_of (cf_api_keys (kr_config s')) j = Some d \<and>
            (\<exists>kvs. reload_keys env (kr_config s') (kr_files s') = Some kvs \<and>
               map_of kvs i = None \<and> map_of kvs j = Some d)"
proof -
  let ?cur = "cf_api_keys config" and ?path = "cf_api_keys_path config"
  obtain c0 c1 where content: "json_pretty env (keys_document (merge_keys ?cur [(i, c)] [])) = Some c0"
    "json_pretty env (keys_document (merge_keys ?cur [(j, d)] [])) = Some c1"
    using assms(10,11) by blast
  obtain f0 where f0: "persist_file env (?path, ?cur) [(i, c)] [] files = (Inr (), f0)"
    using persist_file_first_rename [OF assms(1-4) content(1)] by blast
  obtain f1 where f1: "persist_file env (?path, ?cur) [(j, d)] [] f0 = (Inr (), f1)" "f1 ?path = Some c1"
    using persist_file_first_rename [OF assms(1-4) content(2)] by blast
  have wf: "keys_wf (merge_keys ?cur [(j, d)] [])"
    by (rule merge_keys_wf) (use assms(5,9) in \<open>simp_all add: keys_wf_def\<close>)
  have "map_of (merge_keys ?cur [(j, d)] []) k = (if k = j then Some d else map_of ?cur k)" for k
    using merge_keys_lookup [of ?cur "[]" "[(j, d)]" k] assms(5) by (simp add: keys_wf_def)
  then have disk: "map_of (build_api_keys (keys_document (merge_keys ?cur [(j, d)] []))) i = None"
    "map_of (build_api_keys (keys_document (merge_keys ?cur [(j, d)] []))) j = Some d"
    using build_api_keys_document [OF wf] assms(6,7) by simp_all
  have parse: "json_parse env c1 = Some (keys_document (merge_keys ?cur [(j, d)] []))" "c1 \<noteq> []"
    using assms(4) content(2) by (auto simp: json_ok_def)
  show ?thesis
    using f0 f1 disk parse assms(7,12,13)
    by (simp add: snapshot_def update_cache_def reload_keys_def Let_def)
qed

section \<open>Concrete libraries\<close>

text \<open>A sealing function that appends a tag, bytes as base64, and a printer that knows a table of
  documents.\<close>

definition demo_crypto :: crypto_lib where
  "demo_crypto =
     \<lparr>env_key = Some (replicate 32 (CHR ''k'')),
      b64_decode = (\<lambda>s. Some (str_bytes s)),
      b64_encode = map (\<lambda>w. char_of (unat w)),
      aead_seal = (\<lambda>key nonce p. Some (p @ replicate 16 0)),
      aead_open = (\<lambda>key nonce c. Some (take (length c - 16) c))\<rparr>"

definition demo_nonces :: "nat \<Rightarrow> bytes" where "demo_nonces n = replicate 12 1"

definition demo_fs_env :: "(nat \<Rightarrow> bool) \<Rightarrow> (json \<times> string) list \<Rightarrow> fs_env" where
  "demo_fs_env renames table =
     \<lparr>write_ok = True, torn_write = None, read_ok = True, rename_ok = renames, remove_ok = True,
      json_pretty = map_of table, json_parse = map_of (map (\<lambda>(j, s). (s, j)) table)\<rparr>"

lemma demo_crypto_ok: "crypto_ok demo_crypto"
proof -
  have "word_of_nat (of_char (char_of (unat w) :: char)) = w" for w :: "8 word"
  proof -
    have "unat w < 2 ^ LENGTH(8)" by (rule unsigned_less)
    then have "unat w < 256" by simp
    then show ?thesis by simp
  qed
  then show ?thesis by (auto simp: crypto_ok_def demo_crypto_def str_bytes_def TAG_SIZE_def comp_def)
qed

lemma demo_json_ok:
  assumes "distinct (map snd table)" and "[] \<notin> snd ` set table"
  shows "json_ok (demo_fs_env renames table)"
proof -
  have "map_of (map (\<lambda>(j, s). (s, j)) table) s = Some j \<and> s \<noteq> []" if "map_of table j = Some s" for j s
  proof -
    have "(j, s) \<in> set table" using that by (rule map_of_SomeD)
    then have "(s, j) \<in> set (map (\<lambda>(j, s). (s, j)) table)" "s \<noteq> []" using assms(2) by force+
    moreover have "distinct (map fst (map (\<lambda>(j, s). (s, j)) table))"
      using assms(1) by (simp add: comp_def case_prod_beta)
    ultimately show ?thesis by simp
  qed
  then show ?thesis by (auto simp: json_ok_def demo_fs_env_def)
qed

definition demo_cipher :: "string \<Rightarrow> string" where
  "demo_cipher p = replicate 12 (CHR 0x01) @ p @ replicate 16 (CHR 0x00)"

definition demo_key_table :: "(json \<times> string) list" where
  "demo_key_table =
     [(keys_document [(''m1'', demo_cipher ''sk'')], ''one''), (keys_document [], ''none''),
      (keys_document [(''m1'', ''c'')], ''first''), (keys_document [(''m2'', ''d'')], ''second'')]"

abbreviation demo_set_request :: "api_key_request" where
  "demo_set_request \<equiv> \<lparr>key_action = KeySet, key_items = [\<lparr>key_model_id = ''m1'', key_value = ''sk''\<rparr>]\<rparr>"

definition demo_keys_env :: fs_env where "demo_keys_env = demo_fs_env (\<lambda>n. True) demo_key_table"

lemma demo_keys_env_ok: "json_ok demo_keys_env"
  unfolding demo_keys_env_def by (rule demo_json_ok) (simp_all add: demo_key_table_def)

lemma demo_nonces_ok: "\<forall>n. length (demo_nonces n) = NONCE_SIZE"
  by (simp add: demo_nonces_def NONCE_SIZE_def)

lemma demo_set_succeeds:
  "\<exists>config' files'. apply_api_key demo_crypto demo_nonces demo_keys_env demo_set_request
      (Some demo_config, Map.empty) = (Inr (), Some config', files')"
proof -
  let ?r = "apply_api_key demo_crypto demo_nonces demo_keys_env demo_set_request (Some demo_config, Map.empty)"
  have "isl (fst ?r) = False" by code_simp
  moreover have "Option.is_none (fst (snd ?r)) = False" by code_simp
  ultimately show ?thesis
    by (cases ?r; cases "fst ?r"; cases "fst (snd ?r)") auto
qed

theorem set_keys_are_readable_witness:
  "\<exists>config' files'. apply_api_key demo_crypto demo_nonces demo_keys_env demo_set_request
      (Some demo_config, Map.empty) = (Inr (), Some config', files') \<and>
     api_key_for demo_crypto (Some config') ''m1'' = Some ''sk''"
proof -
  obtain config' files' where r: "apply_api_key demo_crypto demo_nonces demo_keys_env demo_set_request
      (Some demo_config, Map.empty) = (Inr (), Some config', files')"
    using demo_set_succeeds by blast
  have "utf8_lossy ''sk'' = ''sk''" by code_simp
  then have "api_key_for demo_crypto (Some config') ''m1'' = Some ''sk''"
    using set_keys_are_readable [OF demo_crypto_ok demo_nonces_ok _ r, of "''m1''"]
    by (simp add: item_pairs_def)
  then show ?thesis using r by blast
qed

theorem keys_survive_restart_witness:
  "\<exists>config' files'. apply_api_key demo_crypto demo_nonces demo_keys_env demo_set_request
      (Some demo_config, Map.empty) = (Inr (), Some config', files') \<and>
     key_store_ok demo_keys_env config' files'"
proof -
  obtain config' files' where r: "apply_api_key demo_crypto demo_nonces demo_keys_env demo_set_request
      (Some demo_config, Map.empty) = (Inr (), Some config', files')"
    using demo_set_succeeds by blast
  have start: "key_store_ok demo_keys_env demo_config Map.empty"
    by (simp add: key_store_ok_def reload_keys_def demo_config_def)
  have renames: "\<exists>j \<le> 5. rename_ok demo_keys_env j"
    by (simp add: demo_keys_env_def demo_fs_env_def exI [of _ 0])
  show ?thesis
    using keys_survive_restart [OF start demo_keys_env_ok demo_crypto_ok demo_nonces_ok renames r] r
    by blast
qed

theorem failed_persist_deletes_store_witness:
  "\<exists>files'. apply_api_key demo_crypto demo_nonces (demo_fs_env (\<lambda>n. False) demo_key_table)
        \<lparr>key_action = KeyDelete, key_items = map (\<lambda>i. \<lparr>key_model_id = i, key_value = []\<rparr>) [''m2'']\<rparr>
        (Some (demo_config\<lparr>cf_api_keys := [(''m1'', ''c'')]\<rparr>), [''keys'' \<mapsto> ''first'']) =
      (Inl ApiKeyStorage, Some (demo_config\<lparr>cf_api_keys := [(''m1'', ''c'')]\<rparr>), files') \<and>
    files' ''keys'' = None"
proof -
  let ?env = "demo_fs_env (\<lambda>n. False) demo_key_table"
  let ?config = "demo_config\<lparr>cf_api_keys := [(''m1'', ''c'')]\<rparr>"
  have merged: "merge_keys (cf_api_keys ?config) [] [''m2''] = [(''m1'', ''c'')]"
    by (simp add: merge_keys_def)
  have doc: "json_pretty ?env (keys_document (merge_keys (cf_api_keys ?config) [] [''m2''])) = Some ''first''"
    unfolding merged by code_simp
  have parse: "json_parse ?env ''first'' \<noteq> None"
    by (simp add: demo_fs_env_def demo_key_table_def)
  have "write_ok ?env" "read_ok ?env" "remove_ok ?env" "\<forall>j. \<not> rename_ok ?env j"
    by (simp_all add: demo_fs_env_def)
  note gone = failed_persist_deletes_store [OF this doc parse, where v = "[]" and lib = demo_crypto
      and nonces = demo_nonces and files = "[''keys'' \<mapsto> ''first'']"]
  have path: "cf_api_keys_path ?config = ''keys''" by (simp add: demo_config_def)
  show ?thesis using gone unfolding path by blast
qed

theorem concurrent_sets_lose_a_key_witness:
  "let s' = fold (key_step demo_keys_env
                    (\<lambda>t. if t = 0 then ([(''m1'', ''c'')], []) else ([(''m2'', ''d'')], [])))
              [TakeSnapshot 0, TakeSnapshot 1, WriteFile 0, PublishKeys 0, WriteFile 1, PublishKeys 1]
              \<lparr>kr_config = demo_config, kr_files = Map.empty, kr_snapshots = (\<lambda>t. ([], [])),
               kr_written = (\<lambda>t. False)\<rparr>
   in map_of (cf_api_keys (kr_config s')) ''m1'' = Some ''c'' \<and>
      (\<exists>kvs. reload_keys demo_keys_env (kr_config s') (kr_files s') = Some kvs \<and>
         map_of kvs ''m1'' = None)"
proof -
  let ?reqs = "\<lambda>t :: nat. if t = 0 then ([(''m1'', ''c'')], []) else ([(''m2'', ''d'')], [] :: string list)"
  have keys: "cf_api_keys demo_config = []" by (simp add: demo_config_def)
  have wf: "keys_wf (cf_api_keys demo_config)" "map_of (cf_api_keys demo_config) ''m1'' = None"
    by (simp_all add: keys)
  have env: "write_ok demo_keys_env" "read_ok demo_keys_env" "rename_ok demo_keys_env 0"
    by (simp_all add: demo_keys_env_def demo_fs_env_def)
  have other: "''m1'' \<noteq> ''m2''" "''c'' \<noteq> []" "''d'' \<noteq> []" by simp_all
  have docs: "json_pretty demo_keys_env (keys_document (merge_keys (cf_api_keys demo_config) [(''m1'', ''c'')] [])) \<noteq> None"
    "json_pretty demo_keys_env (keys_document (merge_keys (cf_api_keys demo_config) [(''m2'', ''d'')] [])) \<noteq> None"
    by (simp_all add: keys merge_keys_def demo_keys_env_def demo_fs_env_def demo_key_table_def keys_document_def)
  have reqs: "?reqs 0 = ([(''m1'', ''c'')], [])" "?reqs 1 = ([(''m2'', ''d'')], [])" by simp_all
  note lost = concurrent_sets_lose_a_key [OF env demo_keys_env_ok wf other docs reqs,
      where files = Map.empty and sn = "\<lambda>t. ([], [])" and w = "\<lambda>t. False"]
  show ?thesis using lost unfolding Let_def by blast
qed

end
