(* ===== verification/InfMasker.thy ===== *)
theory InfMasker
  imports InfConfig "HOL-Library.Product_Lexorder"
begin

text \<open>
  \<^verbatim>\<open>rust/plugins/agentsandbox/inference/src/masker/{utf8,validator,engine,mod}.rs\<close>: recognition and
  masking of sensitive data.  A keyword hit opens a window of \<open>key_dist\<close> characters, the regular
  expressions of the same pattern are run in the window, matches are validated against the whole
  text, overlaps are resolved greedily, and what remains is replaced by \<open>[PII_<pattern id>]\<close>.

  The \<open>regex\<close> crate is the parameter \<open>regex_crate\<close>: it compiles an expression to the function that
  lists the spans \<open>find_iter\<close> yields.  What the code relies on is \<open>spans_ok\<close>: a span lies in the
  text.  Text is the list of its UTF-8 bytes, so positions are byte positions as in the source.
\<close>

section \<open>Characters in UTF-8 text\<close>

definition is_cont :: "char \<Rightarrow> bool" where
  "is_cont c \<longleftrightarrow> 0x80 \<le> (of_char c :: nat) \<and> (of_char c :: nat) < 0xC0"

definition is_char_boundary :: "string \<Rightarrow> nat \<Rightarrow> bool" where
  "is_char_boundary s i \<longleftrightarrow> i = 0 \<or> i = length s \<or> (i < length s \<and> \<not> is_cont (s ! i))"

definition count_chars :: "string \<Rightarrow> nat" where
  "count_chars s = length (filter (\<lambda>c. \<not> is_cont c) s)"

definition char_starts :: "string \<Rightarrow> nat list" where
  "char_starts s = filter (\<lambda>i. \<not> is_cont (s ! i)) [0..<length s]"

definition char_index_to_byte_pos :: "string \<Rightarrow> nat \<Rightarrow> nat" where
  "char_index_to_byte_pos s n =
     (if n < length (char_starts s) then char_starts s ! n else length s)"

fun floor_boundary :: "string \<Rightarrow> nat \<Rightarrow> nat" where
  "floor_boundary s i =
     (if 0 < i \<and> \<not> is_char_boundary s i then floor_boundary s (i - 1) else i)"

definition byte_pos_to_char_index :: "string \<Rightarrow> nat \<Rightarrow> nat" where
  "byte_pos_to_char_index s p = count_chars (take (floor_boundary s (min p (length s))) s)"

declare floor_boundary.simps [simp del]

definition str_slice :: "string \<Rightarrow> nat \<Rightarrow> nat \<Rightarrow> string" where
  "str_slice s a b = take (b - a) (drop a s)"

section \<open>Validation of a match\<close>

definition is_digit_at :: "string \<Rightarrow> nat \<Rightarrow> bool" where
  "is_digit_at t i \<longleftrightarrow> i < length t \<and> digit_val (t ! i) \<noteq> None"

definition is_alnum_at :: "string \<Rightarrow> nat \<Rightarrow> bool" where
  "is_alnum_at t i \<longleftrightarrow> i < length t \<and> is_alnum (t ! i)"

definition validate_id_card :: "string \<Rightarrow> string \<Rightarrow> nat \<Rightarrow> nat \<Rightarrow> bool" where
  "validate_id_card matched full start end' =
     (if length matched \<noteq> 18 then False
      else if (0 < start \<and> is_digit_at full (start - 1)) \<or> is_digit_at full end' then False
      else True)"

definition validate_phone :: "string \<Rightarrow> string \<Rightarrow> nat \<Rightarrow> nat \<Rightarrow> bool" where
  "validate_phone matched full start end' =
     (if length matched \<noteq> 11 then False
      else if (0 < start \<and> is_digit_at full (start - 1)) \<or> is_digit_at full end' then False
      else True)"

definition validate_email :: "string \<Rightarrow> string \<Rightarrow> nat \<Rightarrow> nat \<Rightarrow> bool" where
  "validate_email matched full start end' =
     (if CHR ''@'' \<notin> set matched then False
      else if (0 < start \<and> is_alnum_at full (start - 1)) \<or> is_alnum_at full end' then False
      else True)"

definition validate_bank_card :: "string \<Rightarrow> string \<Rightarrow> nat \<Rightarrow> nat \<Rightarrow> bool" where
  "validate_bank_card matched full start end' =
     (if \<not> (16 \<le> length matched \<and> length matched \<le> 19) then False
      else if (0 < start \<and> is_digit_at full (start - 1)) \<or> is_digit_at full end' then False
      else True)"

definition validate_default :: "string \<Rightarrow> string \<Rightarrow> nat \<Rightarrow> nat \<Rightarrow> bool" where
  "validate_default matched full start end' =
     (if matched = [] then False
      else (start = 0 \<or> \<not> is_alnum_at full (start - 1)) \<and>
           (length full \<le> end' \<or> \<not> is_alnum_at full end'))"

definition validate_entity :: "string \<Rightarrow> string \<Rightarrow> string \<Rightarrow> nat \<Rightarrow> nat \<Rightarrow> bool" where
  "validate_entity pid matched full start end' =
     (if pid = ''ID_Card'' then validate_id_card matched full start end'
      else if pid = ''Phone'' then validate_phone matched full start end'
      else if pid = ''Email'' then validate_email matched full start end'
      else if pid = ''Bank_Card'' then validate_bank_card matched full start end'
      else validate_default matched full start end')"

section \<open>The multi-pattern engine\<close>

record span_match =
  m_id :: nat
  m_start :: nat
  m_end :: nat

datatype engine_mode = ModeLiteral | ModeRegex

type_synonym regex = "string \<Rightarrow> (nat \<times> nat) list"
type_synonym regex_crate = "string \<Rightarrow> bool \<Rightarrow> regex option"

record multi_engine =
  me_mode :: engine_mode
  me_case_insensitive :: bool
  me_literals :: "string list"
  me_regexes :: "regex list"
  me_ready :: bool

fun compile_all :: "regex_crate \<Rightarrow> bool \<Rightarrow> string list \<Rightarrow> regex list option" where
  "compile_all build ci [] = Some []"
| "compile_all build ci (p # ps) =
     (case build p ci of
        None \<Rightarrow> None
      | Some re \<Rightarrow> map_option ((#) re) (compile_all build ci ps))"

definition engine_compile ::
  "regex_crate \<Rightarrow> string list \<Rightarrow> engine_mode \<Rightarrow> bool \<Rightarrow> multi_engine option" where
  "engine_compile build ps md ci =
     (let empty_engine = \<lparr>me_mode = md, me_case_insensitive = ci, me_literals = [],
                          me_regexes = [], me_ready = False\<rparr>
      in if ps = [] then Some empty_engine
         else case md of
                ModeLiteral \<Rightarrow> Some (empty_engine\<lparr>me_literals := ps, me_ready := True\<rparr>)
              | ModeRegex \<Rightarrow>
                  (case compile_all build ci ps of
                     None \<Rightarrow> None
                   | Some res \<Rightarrow> Some (empty_engine\<lparr>me_regexes := res, me_ready := True\<rparr>)))"

text \<open>\<open>str::find\<close>: the first position at which the needle occurs.\<close>

fun str_find :: "string \<Rightarrow> string \<Rightarrow> nat option" where
  "str_find needle hay =
     (if starts_with hay needle then Some 0
      else case hay of [] \<Rightarrow> None | c # cs \<Rightarrow> map_option Suc (str_find needle cs))"

declare str_find.simps [simp del]

function next_boundary :: "string \<Rightarrow> nat \<Rightarrow> nat" where
  "next_boundary hay i =
     (if i < length hay \<and> \<not> is_char_boundary hay i then next_boundary hay (i + 1) else i)"
  by pat_completeness auto
termination by (relation "measure (\<lambda>(hay, i). length hay - i)") auto

declare next_boundary.simps [simp del]

lemma next_boundary_ge: "i \<le> next_boundary hay i"
proof (induction hay i rule: next_boundary.induct)
  case (1 hay i)
  then show ?case by (subst next_boundary.simps) (auto intro: Suc_leD)
qed

text \<open>The \<open>while\<close> loop of a literal scan from a position on.\<close>

function literal_hits :: "string \<Rightarrow> string \<Rightarrow> nat \<Rightarrow> (nat \<times> nat) list" where
  "literal_hits hay needle pos =
     (if pos \<le> length hay then
        (case str_find needle (drop pos hay) of
           None \<Rightarrow> []
         | Some offset \<Rightarrow>
             (pos + offset, pos + offset + length needle) #
             literal_hits hay needle (next_boundary hay (pos + offset + 1)))
      else [])"
  by pat_completeness auto
termination
proof (relation "measure (\<lambda>(hay, needle, pos). Suc (length hay) - pos)", goal_cases)
  case (2 hay needle pos offset)
  then show ?case using next_boundary_ge [of "pos + offset + 1" hay] by simp
qed simp

declare literal_hits.simps [simp del]

definition engine_scan :: "multi_engine \<Rightarrow> string \<Rightarrow> span_match list" where
  "engine_scan eng t =
     (if \<not> me_ready eng \<or> t = [] then []
      else
        let fold_case = (\<lambda>s. if me_case_insensitive eng then map ascii_lower s else s);
            mk = (\<lambda>i (a, b). \<lparr>m_id = i, m_start = a, m_end = b\<rparr>);
            found =
              (case me_mode eng of
                 ModeLiteral \<Rightarrow>
                   concat (map (\<lambda>(i, p). if p = [] then []
                                         else map (mk i) (literal_hits (fold_case t) (fold_case p) 0))
                     (enumerate 0 (me_literals eng)))
               | ModeRegex \<Rightarrow>
                   concat (map (\<lambda>(i, re). map (mk i) (re t)) (enumerate 0 (me_regexes eng))))
        in sort_key m_start found)"

section \<open>The masker\<close>

record text_identify =
  ti_patterns :: "inf_pattern list"
  keyword_engine :: multi_engine
  keyword_to_pattern :: "nat list"
  regex_engine :: multi_engine
  regex_to_pattern :: "nat list"

definition pattern_keyword_list :: "inf_pattern \<Rightarrow> string list" where
  "pattern_keyword_list p = (case pattern_keywords p of Some ks \<Rightarrow> ks | None \<Rightarrow> [])"

definition pattern_regex_list :: "inf_pattern \<Rightarrow> string list" where
  "pattern_regex_list p =
     (case pattern_regex p of Some r \<Rightarrow> if r \<noteq> [] then [r] else [] | None \<Rightarrow> [])"

definition from_patterns :: "regex_crate \<Rightarrow> inf_pattern list \<Rightarrow> text_identify option" where
  "from_patterns build config_patterns =
     (let ps = filter pattern_enabled config_patterns
      in if ps = [] then None
         else
           let kws = concat (map (\<lambda>(i, p). map (Pair i) (pattern_keyword_list p)) (enumerate 0 ps));
               res = concat (map (\<lambda>(i, p). map (Pair i) (pattern_regex_list p)) (enumerate 0 ps))
           in case engine_compile build (map snd kws) ModeLiteral True of
                None \<Rightarrow> None
              | Some ke \<Rightarrow>
                  (case engine_compile build (map snd res) ModeRegex False of
                     None \<Rightarrow> None
                   | Some re \<Rightarrow>
                       Some \<lparr>ti_patterns = ps, keyword_engine = ke,
                             keyword_to_pattern = map fst kws, regex_engine = re,
                             regex_to_pattern = map fst res\<rparr>))"

definition vec_get :: "'a list \<Rightarrow> nat \<Rightarrow> 'a option" where
  "vec_get xs i = (if i < length xs then Some (xs ! i) else None)"

text \<open>The window a keyword hit opens: byte positions of its start and end.\<close>

definition window :: "text_identify \<Rightarrow> string \<Rightarrow> nat \<Rightarrow> span_match \<Rightarrow> nat \<times> nat" where
  "window t txt pattern_idx kw =
     (let dist = key_dist (ti_patterns t ! pattern_idx);
          start_char = byte_pos_to_char_index txt (m_start kw) - dist;
          end_char = min (count_chars txt) (byte_pos_to_char_index txt (m_end kw) + dist)
      in (char_index_to_byte_pos txt start_char, char_index_to_byte_pos txt end_char))"

text \<open>The body of the inner loop; the state is the set of spans seen and the matches so far.\<close>

type_synonym mask_state = "(nat \<times> nat) set \<times> span_match list"

definition consider_match ::
  "text_identify \<Rightarrow> string \<Rightarrow> nat \<Rightarrow> nat \<Rightarrow> span_match \<Rightarrow> mask_state \<Rightarrow> mask_state" where
  "consider_match t txt pattern_idx w rm st =
     (let (seen, found) = st; s = w + m_start rm; e = w + m_end rm
      in case vec_get (regex_to_pattern t) (m_id rm) of
           None \<Rightarrow> (seen, found)
         | Some regex_pattern_idx \<Rightarrow>
             if regex_pattern_idx \<noteq> pattern_idx then (seen, found)
             else if (s, e) \<in> seen then (seen, found)
             else if \<not> validate_entity (pattern_id (ti_patterns t ! pattern_idx))
                         (str_slice txt s e) txt s e
             then (insert (s, e) seen, found)
             else (insert (s, e) seen, found @ [\<lparr>m_id = m_id rm, m_start = s, m_end = e\<rparr>]))"

definition keyword_step :: "text_identify \<Rightarrow> string \<Rightarrow> span_match \<Rightarrow> mask_state \<Rightarrow> mask_state" where
  "keyword_step t txt kw st =
     (case vec_get (keyword_to_pattern t) (m_id kw) of
        None \<Rightarrow> st
      | Some pattern_idx \<Rightarrow>
          (let (a, b) = window t txt pattern_idx kw
           in fold (consider_match t txt pattern_idx a)
                (engine_scan (regex_engine t) (str_slice txt a b)) st))"

definition detections :: "text_identify \<Rightarrow> string \<Rightarrow> span_match list" where
  "detections t txt =
     snd (fold (keyword_step t txt) (engine_scan (keyword_engine t) txt) ({}, []))"

fun greedy :: "span_match list \<Rightarrow> span_match list \<Rightarrow> span_match list" where
  "greedy acc [] = acc"
| "greedy acc (m # ms) =
     greedy (if acc = [] \<or> m_end (last acc) \<le> m_start m then acc @ [m] else acc) ms"

definition deduplicate_matches :: "span_match list \<Rightarrow> span_match list" where
  "deduplicate_matches ms =
     greedy [] (sort_key (\<lambda>m. (m_start m, - int (m_end m - m_start m))) ms)"

definition pii_label :: "text_identify \<Rightarrow> string \<Rightarrow> span_match \<Rightarrow> string" where
  "pii_label t txt m =
     (case vec_get (regex_to_pattern t) (m_id m) of
        Some pattern_idx \<Rightarrow> ''[PII_'' @ pattern_id (ti_patterns t ! pattern_idx) @ '']''
      | None \<Rightarrow> str_slice txt (m_start m) (m_end m))"

fun replace_spans :: "text_identify \<Rightarrow> string \<Rightarrow> nat \<Rightarrow> span_match list \<Rightarrow> string" where
  "replace_spans t txt last_pos [] = drop last_pos txt"
| "replace_spans t txt last_pos (m # ms) =
     str_slice txt last_pos (m_start m) @ pii_label t txt m @ replace_spans t txt (m_end m) ms"

definition desensitize :: "text_identify \<Rightarrow> string \<Rightarrow> string" where
  "desensitize t txt =
     (if txt = [] then txt
      else replace_spans t txt 0 (deduplicate_matches (detections t txt)))"

section \<open>Literal search finds every occurrence\<close>

definition occurs_at :: "string \<Rightarrow> string \<Rightarrow> nat \<Rightarrow> bool" where
  "occurs_at needle hay i \<longleftrightarrow> i \<le> length hay \<and> starts_with (drop i hay) needle"

lemma starts_with_length: "starts_with hay needle \<Longrightarrow> length needle \<le> length hay"
  unfolding starts_with_def by (metis length_take min.cobounded1 min.commute)

lemma starts_with_hd: "starts_with hay needle \<Longrightarrow> needle \<noteq> [] \<Longrightarrow> hay \<noteq> [] \<and> hd hay = hd needle"
  unfolding starts_with_def by (cases hay; cases needle) auto

lemma str_find_Nil: "str_find needle [] = (if starts_with [] needle then Some 0 else None)"
  by (subst str_find.simps) simp

lemma str_find_Cons:
  "str_find needle (c # cs) =
     (if starts_with (c # cs) needle then Some 0 else map_option Suc (str_find needle cs))"
  by (subst str_find.simps) simp

lemma str_find_None: "str_find needle hay = None \<Longrightarrow> \<not> occurs_at needle hay i"
proof (induction hay arbitrary: i)
  case Nil
  then show ?case by (auto simp: str_find_Nil occurs_at_def split: if_splits)
next
  case (Cons c cs)
  then have "\<not> starts_with (c # cs) needle" and "str_find needle cs = None"
    by (simp_all add: str_find_Cons split: if_splits)
  then show ?case using Cons.IH by (cases i) (auto simp: occurs_at_def)
qed

lemma str_find_Some:
  "str_find needle hay = Some k \<Longrightarrow> occurs_at needle hay k \<and> (\<forall>j < k. \<not> occurs_at needle hay j)"
proof (induction hay arbitrary: k)
  case Nil
  then show ?case by (auto simp: str_find_Nil occurs_at_def split: if_splits)
next
  case (Cons c cs)
  show ?case
  proof (cases "starts_with (c # cs) needle")
    case True
    then show ?thesis using Cons.prems by (simp add: str_find_Cons occurs_at_def)
  next
    case False
    then obtain k' where k: "k = Suc k'" "str_find needle cs = Some k'"
      using Cons.prems by (auto simp: str_find_Cons)
    have "\<not> occurs_at needle (c # cs) j" if "j < k" for j
      using Cons.IH [OF k(2)] False that by (cases j) (auto simp: occurs_at_def k(1))
    then show ?thesis using Cons.IH [OF k(2)] by (auto simp: occurs_at_def k(1))
  qed
qed

lemma occurs_at_drop:
  "pos \<le> length hay \<Longrightarrow> occurs_at needle (drop pos hay) i \<longleftrightarrow> occurs_at needle hay (pos + i)"
  by (auto simp: occurs_at_def add.commute)

lemma occurs_at_starts_char:
  assumes "occurs_at needle hay i" and "needle \<noteq> []" and "\<not> is_cont (hd needle)"
  shows "i < length hay \<and> \<not> is_cont (hay ! i)"
  using starts_with_hd [of "drop i hay" needle] assms
  by (auto simp: occurs_at_def hd_drop_conv_nth)

lemma next_boundary_skips:
  "i \<le> j \<Longrightarrow> j < next_boundary hay i \<Longrightarrow> j < length hay \<and> is_cont (hay ! j)"
proof (induction hay i rule: next_boundary.induct)
  case (1 hay i)
  show ?case
  proof (cases "i < length hay \<and> \<not> is_char_boundary hay i")
    case True
    then have "next_boundary hay i = next_boundary hay (i + 1)" by (subst next_boundary.simps) simp
    moreover have "is_cont (hay ! i)" using True by (auto simp: is_char_boundary_def)
    ultimately show ?thesis using 1 True by (cases "i = j") auto
  next
    case False
    have "next_boundary hay i = i" by (subst next_boundary.simps) (rule if_not_P [OF False])
    then show ?thesis using 1(2,3) by simp
  qed
qed

lemma literal_hits_exact:
  assumes "needle \<noteq> []" and "\<not> is_cont (hd needle)"
  shows "(a, b) \<in> set (literal_hits hay needle pos) \<longleftrightarrow>
           pos \<le> a \<and> b = a + length needle \<and> occurs_at needle hay a"
  using assms
proof (induction hay needle pos rule: literal_hits.induct)
  case (1 hay needle pos)
  consider (past) "length hay < pos" | (none) "pos \<le> length hay" "str_find needle (drop pos hay) = None"
    | (hit) k where "pos \<le> length hay" "str_find needle (drop pos hay) = Some k"
    by (metis not_less option.exhaust)
  then show ?case
  proof cases
    case past
    then show ?thesis by (subst literal_hits.simps) (auto simp: occurs_at_def)
  next
    case none
    have "\<not> occurs_at needle hay a" if "pos \<le> a"
      using str_find_None [OF none(2), of "a - pos"] occurs_at_drop [OF none(1), of needle "a - pos"] that
      by simp
    then show ?thesis using none by (subst literal_hits.simps) auto
  next
    case hit
    let ?f = "pos + k" and ?n = "next_boundary hay (pos + k + 1)"
    note found = str_find_Some [OF hit(2)]
    have at: "occurs_at needle hay ?f" using found occurs_at_drop [OF hit(1)] by blast
    have before: "\<not> occurs_at needle hay a" if "pos \<le> a" "a < ?f"
      using found occurs_at_drop [OF hit(1), of needle "a - pos"] that
      by (metis le_add_diff_inverse nat_add_left_cancel_less)
    have between: "\<not> occurs_at needle hay a" if "?f < a" "a < ?n"
      using next_boundary_skips [of "pos + k + 1" a hay] that
        occurs_at_starts_char [of needle hay a] 1(2,3) by auto
    have ge: "?f + 1 \<le> ?n" by (rule next_boundary_ge)
    have rest: "(a, b) \<in> set (literal_hits hay needle ?n) \<longleftrightarrow>
        ?n \<le> a \<and> b = a + length needle \<and> occurs_at needle hay a"
      using 1(1) [OF hit] 1(2,3) by simp
    have "(a, b) \<in> set (literal_hits hay needle pos) \<longleftrightarrow>
        (a = ?f \<and> b = ?f + length needle) \<or> (a, b) \<in> set (literal_hits hay needle ?n)"
      using hit by (subst literal_hits.simps) auto
    also have "\<dots> \<longleftrightarrow> pos \<le> a \<and> b = a + length needle \<and> occurs_at needle hay a"
    proof -
      consider "a < pos" | "pos \<le> a" "a < ?f" | "a = ?f" | "?f < a" "a < ?n" | "?n \<le> a" by linarith
      then show ?thesis unfolding rest using at before between ge by cases auto
    qed
    finally show ?thesis .
  qed
qed

section \<open>Overlaps are resolved greedily\<close>

definition proper_spans :: "nat \<Rightarrow> span_match list \<Rightarrow> bool" where
  "proper_spans n ms \<longleftrightarrow> (\<forall>m \<in> set ms. m_start m < m_end m \<and> m_end m \<le> n)"

definition disjoint_spans :: "span_match list \<Rightarrow> bool" where
  "disjoint_spans ms \<longleftrightarrow> sorted_wrt (\<lambda>m m'. m_end m \<le> m_start m') ms"

definition covers :: "span_match list \<Rightarrow> nat \<Rightarrow> bool" where
  "covers ms i \<longleftrightarrow> (\<exists>m \<in> set ms. m_start m \<le> i \<and> i < m_end m)"

lemma greedy_keeps: "set acc \<subseteq> set (greedy acc ms) \<and> set (greedy acc ms) \<subseteq> set acc \<union> set ms"
proof (induction ms arbitrary: acc)
  case (Cons m ms)
  show ?case
  proof (cases "acc = [] \<or> m_end (last acc) \<le> m_start m")
    case True
    then have "greedy acc (m # ms) = greedy (acc @ [m]) ms" by simp
    then show ?thesis using Cons.IH [of "acc @ [m]"] by auto
  next
    case False
    then have "greedy acc (m # ms) = greedy acc ms" by simp
    then show ?thesis using Cons.IH [of acc] by auto
  qed
qed simp

lemma disjoint_append:
  assumes "disjoint_spans acc" and "\<forall>x \<in> set acc. m_start x < m_end x"
    and "acc = [] \<or> m_end (last acc) \<le> m_start m"
  shows "disjoint_spans (acc @ [m])"
proof (cases acc rule: rev_cases)
  case Nil
  then show ?thesis by (simp add: disjoint_spans_def)
next
  case (snoc xs x)
  have x: "m_end x \<le> m_start m" using assms(3) snoc by simp
  have "m_end y \<le> m_start m" if "y \<in> set xs" for y
  proof -
    have "m_end y \<le> m_start x" using that assms(1) by (simp add: snoc disjoint_spans_def sorted_wrt_append)
    moreover have "m_start x < m_end x" using assms(2) by (simp add: snoc)
    ultimately show ?thesis using x by linarith
  qed
  then show ?thesis using assms(1) x by (auto simp: snoc disjoint_spans_def sorted_wrt_append)
qed

lemma greedy_disjoint:
  assumes "disjoint_spans acc" and "\<forall>x \<in> set acc \<union> set ms. m_start x < m_end x"
  shows "disjoint_spans (greedy acc ms)"
  using assms
proof (induction ms arbitrary: acc)
  case (Cons m ms)
  show ?case
  proof (cases "acc = [] \<or> m_end (last acc) \<le> m_start m")
    case True
    then have "disjoint_spans (acc @ [m])" using Cons.prems disjoint_append by blast
    then have "disjoint_spans (greedy (acc @ [m]) ms)"
      using Cons.IH [of "acc @ [m]"] Cons.prems(2) by auto
    then show ?thesis using True by simp
  next
    case False
    then show ?thesis using Cons by simp
  qed
qed simp

lemma greedy_covers_starts:
  assumes "sorted (map m_start (acc @ ms))" and "\<forall>x \<in> set acc \<union> set ms. m_start x < m_end x"
    and "m \<in> set ms"
  shows "covers (greedy acc ms) (m_start m)"
  using assms
proof (induction ms arbitrary: acc)
  case (Cons m' ms)
  have whole: "covers (greedy acc' ms) (m_start m)" if "m \<in> set ms"
      "sorted (map m_start (acc' @ ms))" "set acc' \<subseteq> insert m' (set acc)" for acc'
    using Cons.IH [OF that(2)] Cons.prems(2) that by auto
  show ?case
  proof (cases "acc = [] \<or> m_end (last acc) \<le> m_start m'")
    case True
    then have g: "greedy acc (m' # ms) = greedy (acc @ [m']) ms" by simp
    show ?thesis
    proof (cases "m \<in> set ms")
      case True
      then show ?thesis unfolding g using whole [of "acc @ [m']"] Cons.prems(1) by auto
    next
      case False
      then have "m = m'" using Cons.prems(3) by simp
      then show ?thesis unfolding g covers_def
        using greedy_keeps [of "acc @ [m']" ms] Cons.prems(2) by auto
    qed
  next
    case False
    then have g: "greedy acc (m' # ms) = greedy acc ms" by simp
    show ?thesis
    proof (cases "m \<in> set ms")
      case True
      then show ?thesis unfolding g using whole [of acc] Cons.prems(1) by (auto simp: sorted_append)
    next
      case out: False
      then have m: "m = m'" using Cons.prems(3) by simp
      have "last acc \<in> set acc" using False by simp
      moreover have "m_start (last acc) \<le> m_start m'"
        using Cons.prems(1) \<open>last acc \<in> set acc\<close> by (auto simp: sorted_append)
      ultimately show ?thesis unfolding g covers_def m
        using greedy_keeps [of acc ms] False by (auto intro!: bexI [of _ "last acc"])
    qed
  qed
qed simp

lemma sorted_lexicographic:
  "sorted (map (\<lambda>m. (f m :: nat, g m :: int)) ms) \<Longrightarrow> sorted (map f ms)"
  by (induction ms) (force simp: less_eq_prod_def)+

lemma deduplicate_matches_spec:
  assumes "proper_spans n ms"
  shows "set (deduplicate_matches ms) \<subseteq> set ms" and "disjoint_spans (deduplicate_matches ms)"
    and "proper_spans n (deduplicate_matches ms)"
    and "m \<in> set ms \<Longrightarrow> covers (deduplicate_matches ms) (m_start m)"
proof -
  let ?s = "sort_key (\<lambda>m. (m_start m, - int (m_end m - m_start m))) ms"
  have pos: "\<forall>x \<in> set [] \<union> set ?s. m_start x < m_end x" using assms by (simp add: proper_spans_def)
  show sub: "set (deduplicate_matches ms) \<subseteq> set ms"
    using greedy_keeps [of "[]" ?s] by (simp add: deduplicate_matches_def)
  then show "proper_spans n (deduplicate_matches ms)" using assms by (auto simp: proper_spans_def)
  show "disjoint_spans (deduplicate_matches ms)" unfolding deduplicate_matches_def
    by (rule greedy_disjoint) (use pos in \<open>simp_all add: disjoint_spans_def\<close>)
  have "sorted (map m_start ([] @ ?s))"
    using sorted_lexicographic [of m_start "\<lambda>m. - int (m_end m - m_start m)" ?s]
      sorted_sort_key [of "\<lambda>m. (m_start m, - int (m_end m - m_start m))" ms] by simp
  then show "covers (deduplicate_matches ms) (m_start m)" if "m \<in> set ms"
    unfolding deduplicate_matches_def by (rule greedy_covers_starts) (use pos that in simp_all)
qed

section \<open>The masked text, byte by byte\<close>

text \<open>What stands in the output for byte \<open>i\<close>: the labels of the spans that start here, then the
  byte itself unless a span covers it.\<close>

definition masked_at :: "text_identify \<Rightarrow> string \<Rightarrow> span_match list \<Rightarrow> nat \<Rightarrow> string" where
  "masked_at t txt ms i =
     concat (map (pii_label t txt) (filter (\<lambda>m. m_start m = i) ms)) @
     (if covers ms i then [] else [txt ! i])"

lemma concat_plain: "a \<le> b \<Longrightarrow> b \<le> length txt \<Longrightarrow> concat (map (\<lambda>i. [txt ! i]) [a..<b]) = str_slice txt a b"
proof (induction b)
  case (Suc b)
  show ?case
  proof (cases "a \<le> b")
    case True
    then have "str_slice txt a (Suc b) = str_slice txt a b @ [txt ! b]"
      using Suc.prems by (simp add: str_slice_def Suc_diff_le take_Suc_conv_app_nth)
    then show ?thesis using Suc True by simp
  next
    case False
    then have "a = Suc b" using Suc.prems by simp
    then show ?thesis by (simp add: str_slice_def)
  qed
qed (simp add: str_slice_def)

lemma masked_at_before:
  assumes "\<forall>m \<in> set ms. i < m_start m"
  shows "masked_at t txt ms i = [txt ! i]"
proof -
  have "filter (\<lambda>m. m_start m = i) ms = []" using assms by (auto simp: filter_empty_conv)
  then show ?thesis using assms by (auto simp: masked_at_def covers_def)
qed

lemma concat_before:
  assumes "\<forall>m \<in> set ms. b \<le> m_start m" and "a \<le> b" and "b \<le> length txt"
  shows "concat (map (masked_at t txt ms) [a..<b]) = str_slice txt a b"
proof -
  have "map (masked_at t txt ms) [a..<b] = map (\<lambda>i. [txt ! i]) [a..<b]"
    using assms(1) by (auto intro!: masked_at_before)
  then show ?thesis by (simp only: concat_plain [OF assms(2,3)])
qed

lemma upt_split: "a \<le> b \<Longrightarrow> b \<le> c \<Longrightarrow> [a..<c] = [a..<b] @ [b..<c]"
  by (metis le_add_diff_inverse upt_add_eq_append)

lemma replace_spans_pointwise:
  assumes "disjoint_spans ms" and "proper_spans (length txt) ms"
    and "\<forall>m \<in> set ms. pos \<le> m_start m" and "pos \<le> length txt"
  shows "replace_spans t txt pos ms = concat (map (masked_at t txt ms) [pos..<length txt])"
  using assms
proof (induction ms arbitrary: pos)
  case Nil
  have "concat (map (masked_at t txt []) [pos..<length txt]) = str_slice txt pos (length txt)"
    by (rule concat_before) (use Nil in simp_all)
  then show ?case by (simp add: str_slice_def)
next
  case (Cons m ms)
  let ?at = "masked_at t txt"
  have m: "pos \<le> m_start m" "m_start m < m_end m" "m_end m \<le> length txt"
    using Cons.prems by (simp_all add: proper_spans_def)
  have later: "\<forall>x \<in> set ms. m_end m \<le> m_start x" using Cons.prems(1) by (simp add: disjoint_spans_def)
  have "[pos..<length txt] = [pos..<m_start m] @ [m_start m..<m_end m] @ [m_end m..<length txt]"
    using m by (metis append.assoc less_imp_le order_trans upt_split)
  moreover have "concat (map (?at (m # ms)) [pos..<m_start m]) = str_slice txt pos (m_start m)"
    by (rule concat_before) (use m later in fastforce)+
  moreover have "concat (map (?at (m # ms)) [m_start m..<m_end m]) = pii_label t txt m"
  proof -
    have "filter (\<lambda>x. m_start x = m_start m) ms = []"
      using later m(2) by (auto simp: filter_empty_conv)
    then have first: "?at (m # ms) (m_start m) = pii_label t txt m"
      using m(2) by (auto simp: masked_at_def covers_def)
    have inside: "?at (m # ms) i = []" if "i \<in> {Suc (m_start m)..<m_end m}" for i
    proof -
      have "filter (\<lambda>x. m_start x = i) (m # ms) = []"
        using later that by (auto simp: filter_empty_conv)
      moreover have "covers (m # ms) i" using that by (auto simp: covers_def)
      ultimately show ?thesis unfolding masked_at_def by (metis append_Nil concat.simps(1) list.simps(8))
    qed
    have "concat (map (?at (m # ms)) [Suc (m_start m)..<m_end m]) = []"
      using inside by (auto simp: concat_eq_Nil_conv)
    then show ?thesis using m(2) first by (simp add: upt_conv_Cons)
  qed
  moreover have "map (?at (m # ms)) [m_end m..<length txt] = map (?at ms) [m_end m..<length txt]"
    using m(2) by (auto simp: masked_at_def covers_def)
  moreover have "replace_spans t txt (m_end m) ms = concat (map (?at ms) [m_end m..<length txt])"
    by (rule Cons.IH) (use Cons.prems later m in \<open>auto simp: disjoint_spans_def proper_spans_def\<close>)
  ultimately show ?case by (simp only: replace_spans.simps map_append concat_append)
qed

section \<open>What is detected\<close>

definition regex_ok :: "regex_crate \<Rightarrow> bool" where
  "regex_ok build \<longleftrightarrow>
     (\<forall>r ci re txt x y. build r ci = Some re \<longrightarrow> (x, y) \<in> set (re txt) \<longrightarrow> x \<le> y \<and> y \<le> length txt)"

text \<open>The pattern ids of the shipped configuration: none has a validation rule of its own.\<close>

definition plain_pattern :: "inf_pattern \<Rightarrow> bool" where
  "plain_pattern p \<longleftrightarrow>
     pattern_id p \<notin> {''ID_Card'', ''Phone'', ''Email'', ''Bank_Card''} \<and>
     (\<forall>k \<in> set (pattern_keyword_list p). k = [] \<or> \<not> is_cont (hd k))"

definition char_window :: "nat \<Rightarrow> string \<Rightarrow> nat \<Rightarrow> nat \<Rightarrow> nat \<times> nat" where
  "char_window dist txt a b =
     (char_index_to_byte_pos txt (byte_pos_to_char_index txt a - dist),
      char_index_to_byte_pos txt (min (count_chars txt) (byte_pos_to_char_index txt b + dist)))"

text \<open>
  The specification: a span is an entity of a pattern when one of its keywords occurs in the text
  (letter case aside), its regular expression matches the span inside the window around that
  occurrence, and the span is not empty nor glued to a letter or digit.
\<close>

definition near_keyword :: "inf_pattern \<Rightarrow> string \<Rightarrow> nat \<Rightarrow> nat \<Rightarrow> bool" where
  "near_keyword p txt a b \<longleftrightarrow>
     (\<exists>k \<in> set (pattern_keyword_list p). k \<noteq> [] \<and>
        (\<exists>i. occurs_at (map ascii_lower k) (map ascii_lower txt) i \<and>
             char_window (key_dist p) txt i (i + length k) = (a, b)))"

definition regex_hit :: "regex_crate \<Rightarrow> inf_pattern \<Rightarrow> string \<Rightarrow> nat \<Rightarrow> nat \<Rightarrow> bool" where
  "regex_hit build p txt x y \<longleftrightarrow>
     (\<exists>r \<in> set (pattern_regex_list p). \<exists>re. build r False = Some re \<and> (x, y) \<in> set (re txt))"

definition entity_of :: "regex_crate \<Rightarrow> inf_pattern \<Rightarrow> string \<Rightarrow> nat \<Rightarrow> nat \<Rightarrow> bool" where
  "entity_of build p txt s e \<longleftrightarrow>
     (\<exists>a b x y. near_keyword p txt a b \<and> regex_hit build p (str_slice txt a b) x y \<and>
        s = a + x \<and> e = a + y) \<and>
     validate_default (str_slice txt s e) txt s e"

lemma is_cont_lower [simp]: "is_cont (ascii_lower c) = is_cont c"
  by (simp add: is_cont_def ascii_lower_def)

lemma bex_enumerate: "(\<exists>x \<in> set (enumerate 0 xs). Q x) \<longleftrightarrow> (\<exists>i < length xs. Q (i, xs ! i))"
proof
  assume "\<exists>x \<in> set (enumerate 0 xs). Q x"
  then obtain i y where "(i, y) \<in> set (enumerate 0 xs)" "Q (i, y)" by auto
  then show "\<exists>i < length xs. Q (i, xs ! i)" by (auto simp: in_set_enumerate_eq)
next
  assume "\<exists>i < length xs. Q (i, xs ! i)"
  then obtain i where "i < length xs" "Q (i, xs ! i)" by blast
  moreover from this have "(i, xs ! i) \<in> set (enumerate 0 xs)" by (simp add: in_set_enumerate_eq)
  ultimately show "\<exists>x \<in> set (enumerate 0 xs). Q x" by blast
qed

lemma span_image:
  "x \<in> (\<lambda>(a, b). \<lparr>m_id = i, m_start = a, m_end = b\<rparr>) ` S \<longleftrightarrow> m_id x = i \<and> (m_start x, m_end x) \<in> S"
  by (cases x) force

lemma scan_literal:
  "engine_compile build ps ModeLiteral True = Some eng \<Longrightarrow>
     x \<in> set (engine_scan eng txt) \<longleftrightarrow>
       txt \<noteq> [] \<and> m_id x < length ps \<and> ps ! m_id x \<noteq> [] \<and>
       (m_start x, m_end x) \<in>
         set (literal_hits (map ascii_lower txt) (map ascii_lower (ps ! m_id x)) 0)"
  by (auto simp: engine_compile_def engine_scan_def Let_def bex_enumerate span_image split: if_splits)

lemma compile_all_nth:
  "compile_all build ci ps = Some res \<Longrightarrow>
     length res = length ps \<and> (\<forall>i < length ps. build (ps ! i) ci = Some (res ! i))"
proof (induction ps arbitrary: res)
  case (Cons p ps)
  then obtain re res' where "build p ci = Some re" "compile_all build ci ps = Some res'" "res = re # res'"
    by (auto split: option.splits)
  then show ?case using Cons.IH by (auto simp: less_Suc_eq_0_disj)
qed simp

lemma scan_regex:
  assumes "engine_compile build ps ModeRegex False = Some eng"
  shows "x \<in> set (engine_scan eng txt) \<longleftrightarrow>
       txt \<noteq> [] \<and> m_id x < length ps \<and>
       (\<exists>re. build (ps ! m_id x) False = Some re \<and> (m_start x, m_end x) \<in> set (re txt))"
  using assms compile_all_nth [of build False ps]
  by (auto simp: engine_compile_def engine_scan_def Let_def bex_enumerate span_image
        split: if_splits option.splits)

text \<open>The index lists that tie an engine's pattern number to the pattern it stems from.\<close>

lemma indexed_concat:
  assumes "xs = concat (map (\<lambda>(i, p). map (Pair i) (f p)) (enumerate 0 ps))" and "j < length xs"
  shows "fst (xs ! j) < length ps \<and> snd (xs ! j) \<in> set (f (ps ! fst (xs ! j)))"
proof -
  have "xs ! j \<in> set xs" using assms(2) by simp
  then show ?thesis unfolding assms(1) by (auto simp: in_set_enumerate_eq)
qed

lemma indexed_concat_ex:
  assumes "xs = concat (map (\<lambda>(i, p). map (Pair i) (f p)) (enumerate 0 ps))"
    and "i < length ps" and "y \<in> set (f (ps ! i))"
  shows "\<exists>j < length xs. xs ! j = (i, y)"
proof -
  have "(i, y) \<in> set xs" unfolding assms(1) using assms(2,3)
    by (auto simp: in_set_enumerate_eq intro!: bexI [of _ "(i, ps ! i)"])
  then show ?thesis by (auto simp: in_set_conv_nth)
qed

lemma from_patterns_parts:
  assumes "from_patterns build cps = Some t"
  obtains kws res where
    "ti_patterns t = filter pattern_enabled cps"
    "kws = concat (map (\<lambda>(i, p). map (Pair i) (pattern_keyword_list p)) (enumerate 0 (ti_patterns t)))"
    "res = concat (map (\<lambda>(i, p). map (Pair i) (pattern_regex_list p)) (enumerate 0 (ti_patterns t)))"
    "engine_compile build (map snd kws) ModeLiteral True = Some (keyword_engine t)"
    "engine_compile build (map snd res) ModeRegex False = Some (regex_engine t)"
    "keyword_to_pattern t = map fst kws" "regex_to_pattern t = map fst res"
  using assms by (auto simp: from_patterns_def Let_def split: if_splits option.splits)

lemma window_char_window:
  "window t txt i kw = char_window (key_dist (ti_patterns t ! i)) txt (m_start kw) (m_end kw)"
  by (simp add: window_def char_window_def Let_def)

lemma keyword_hits:
  assumes "from_patterns build cps = Some t" and "\<forall>p \<in> set cps. plain_pattern p"
    and "i < length (ti_patterns t)" and "txt \<noteq> []"
  shows "near_keyword (ti_patterns t ! i) txt a b \<longleftrightarrow>
           (\<exists>kw \<in> set (engine_scan (keyword_engine t) txt).
              vec_get (keyword_to_pattern t) (m_id kw) = Some i \<and> window t txt i kw = (a, b))"
    (is "?l = ?r")
proof -
  obtain kws res where parts: "ti_patterns t = filter pattern_enabled cps"
    "kws = concat (map (\<lambda>(i, p). map (Pair i) (pattern_keyword_list p)) (enumerate 0 (ti_patterns t)))"
    "engine_compile build (map snd kws) ModeLiteral True = Some (keyword_engine t)"
    "keyword_to_pattern t = map fst kws"
    by (rule from_patterns_parts [OF assms(1)])
  note scan = scan_literal [OF parts(3)]
  have plain: "plain_pattern (ti_patterns t ! i)"
    using assms(2,3) nth_mem [OF assms(3)] by (auto simp: parts(1))
  have hits: "(x, y) \<in> set (literal_hits (map ascii_lower txt) (map ascii_lower k) 0) \<longleftrightarrow>
      y = x + length k \<and> occurs_at (map ascii_lower k) (map ascii_lower txt) x"
    if "k \<in> set (pattern_keyword_list (ti_patterns t ! i))" "k \<noteq> []" for k x y
    using literal_hits_exact [of "map ascii_lower k" x y "map ascii_lower txt" 0] plain that
    by (auto simp: plain_pattern_def hd_map)
  show ?thesis
  proof
    assume ?l
    then obtain k pos where k: "k \<in> set (pattern_keyword_list (ti_patterns t ! i))" "k \<noteq> []"
      "occurs_at (map ascii_lower k) (map ascii_lower txt) pos"
      "char_window (key_dist (ti_patterns t ! i)) txt pos (pos + length k) = (a, b)"
      by (auto simp: near_keyword_def)
    obtain j where j: "j < length kws" "kws ! j = (i, k)"
      using indexed_concat_ex [OF parts(2) assms(3) k(1)] by blast
    let ?kw = "\<lparr>m_id = j, m_start = pos, m_end = pos + length k\<rparr>"
    have "?kw \<in> set (engine_scan (keyword_engine t) txt)"
      using hits [OF k(1,2)] k j assms(4) by (simp add: scan)
    then show ?r using j k(4)
      by (intro bexI [of _ ?kw]) (simp_all add: vec_get_def parts(4) window_char_window)
  next
    assume ?r
    then obtain kw where kw: "kw \<in> set (engine_scan (keyword_engine t) txt)"
      "vec_get (keyword_to_pattern t) (m_id kw) = Some i" "window t txt i kw = (a, b)" by blast
    let ?k = "snd (kws ! m_id kw)"
    have j: "m_id kw < length kws" "fst (kws ! m_id kw) = i"
      using kw(2) by (auto simp: vec_get_def parts(4) split: if_splits)
    then have k: "?k \<in> set (pattern_keyword_list (ti_patterns t ! i))"
      using indexed_concat [OF parts(2) j(1)] by simp
    have "?k \<noteq> []" "(m_start kw, m_end kw) \<in> set (literal_hits (map ascii_lower txt) (map ascii_lower ?k) 0)"
      using kw(1) j(1) by (simp_all add: scan)
    then show ?l using hits [OF k] k kw(3)
      by (auto simp: near_keyword_def window_char_window intro!: bexI [of _ ?k])
  qed
qed

lemma regex_hits:
  assumes "from_patterns build cps = Some t" and "i < length (ti_patterns t)" and "txt \<noteq> []"
  shows "regex_hit build (ti_patterns t ! i) txt x y \<longleftrightarrow>
           (\<exists>rm \<in> set (engine_scan (regex_engine t) txt).
              vec_get (regex_to_pattern t) (m_id rm) = Some i \<and> m_start rm = x \<and> m_end rm = y)"
    (is "?l = ?r")
proof -
  obtain kws res where parts:
    "res = concat (map (\<lambda>(i, p). map (Pair i) (pattern_regex_list p)) (enumerate 0 (ti_patterns t)))"
    "engine_compile build (map snd res) ModeRegex False = Some (regex_engine t)"
    "regex_to_pattern t = map fst res"
    by (rule from_patterns_parts [OF assms(1)])
  note scan = scan_regex [OF parts(2)]
  show ?thesis
  proof
    assume ?l
    then obtain r re where r: "r \<in> set (pattern_regex_list (ti_patterns t ! i))"
      "build r False = Some re" "(x, y) \<in> set (re txt)" by (auto simp: regex_hit_def)
    obtain j where j: "j < length res" "res ! j = (i, r)"
      using indexed_concat_ex [OF parts(1) assms(2) r(1)] by blast
    let ?rm = "\<lparr>m_id = j, m_start = x, m_end = y\<rparr>"
    have "?rm \<in> set (engine_scan (regex_engine t) txt)" using r j assms(3) by (simp add: scan)
    then show ?r using j by (intro bexI [of _ ?rm]) (simp_all add: vec_get_def parts(3))
  next
    assume ?r
    then obtain rm where rm: "rm \<in> set (engine_scan (regex_engine t) txt)"
      "vec_get (regex_to_pattern t) (m_id rm) = Some i" "m_start rm = x" "m_end rm = y" by blast
    have j: "m_id rm < length res" "fst (res ! m_id rm) = i"
      using rm(2) by (auto simp: vec_get_def parts(3) split: if_splits)
    then have "snd (res ! m_id rm) \<in> set (pattern_regex_list (ti_patterns t ! i))"
      using indexed_concat [OF parts(1) j(1)] by simp
    then show ?l using rm j(1) by (auto simp: regex_hit_def scan intro!: bexI)
  qed
qed

section \<open>The masker meets its specification\<close>

definition valid_span :: "string \<Rightarrow> nat \<times> nat \<Rightarrow> bool" where
  "valid_span txt c \<longleftrightarrow> validate_default (str_slice txt (fst c) (snd c)) txt (fst c) (snd c)"

definition span_of :: "span_match \<Rightarrow> nat \<times> nat" where
  "span_of m = (m_start m, m_end m)"

text \<open>The loops' invariant: the matches are the valid ones among the spans seen.\<close>

definition mask_inv :: "string \<Rightarrow> mask_state \<Rightarrow> bool" where
  "mask_inv txt st \<longleftrightarrow> span_of ` set (snd st) = {c \<in> fst st. valid_span txt c}"

lemma validate_plain: "plain_pattern p \<Longrightarrow> validate_entity (pattern_id p) = validate_default"
  by (auto simp: plain_pattern_def validate_entity_def fun_eq_iff)

lemma consider_match_inv:
  assumes "mask_inv txt st" and "plain_pattern (ti_patterns t ! i)"
  shows "mask_inv txt (consider_match t txt i w rm st) \<and>
         fst (consider_match t txt i w rm st) =
           fst st \<union> (if vec_get (regex_to_pattern t) (m_id rm) = Some i
                     then {(w + m_start rm, w + m_end rm)} else {})"
  using assms
  by (cases st)
     (auto simp: consider_match_def mask_inv_def Let_def validate_plain valid_span_def span_of_def
        split: option.splits)

lemma consider_fold_inv:
  assumes "mask_inv txt st" and "plain_pattern (ti_patterns t ! i)"
  shows "mask_inv txt (fold (consider_match t txt i w) rms st) \<and>
         fst (fold (consider_match t txt i w) rms st) =
           fst st \<union> {(w + m_start rm, w + m_end rm) | rm.
                      rm \<in> set rms \<and> vec_get (regex_to_pattern t) (m_id rm) = Some i}"
  using assms(1)
proof (induction rms arbitrary: st)
  case (Cons rm rms)
  note step = consider_match_inv [OF Cons.prems assms(2), of w rm]
  show ?case using Cons.IH [OF conjunct1 [OF step]] step by auto
qed simp

definition keyword_spans :: "text_identify \<Rightarrow> string \<Rightarrow> span_match \<Rightarrow> (nat \<times> nat) set" where
  "keyword_spans t txt kw =
     {(a + m_start rm, a + m_end rm) | a b i rm.
        vec_get (keyword_to_pattern t) (m_id kw) = Some i \<and> window t txt i kw = (a, b) \<and>
        rm \<in> set (engine_scan (regex_engine t) (str_slice txt a b)) \<and>
        vec_get (regex_to_pattern t) (m_id rm) = Some i}"

lemma keyword_step_inv:
  assumes "mask_inv txt st"
    and "\<And>i. vec_get (keyword_to_pattern t) (m_id kw) = Some i \<Longrightarrow> plain_pattern (ti_patterns t ! i)"
  shows "mask_inv txt (keyword_step t txt kw st) \<and>
         fst (keyword_step t txt kw st) = fst st \<union> keyword_spans t txt kw"
proof (cases "vec_get (keyword_to_pattern t) (m_id kw)")
  case None
  then show ?thesis using assms(1) by (simp add: keyword_step_def keyword_spans_def)
next
  case (Some i)
  obtain a b where w: "window t txt i kw = (a, b)" by fastforce
  show ?thesis
    using consider_fold_inv [OF assms(1) assms(2) [OF Some], of a "engine_scan (regex_engine t) (str_slice txt a b)"]
    by (auto simp: keyword_step_def keyword_spans_def Some w)
qed

lemma keyword_fold_inv:
  assumes "mask_inv txt st"
    and plain: "\<And>j i. vec_get (keyword_to_pattern t) j = Some i \<Longrightarrow> plain_pattern (ti_patterns t ! i)"
  shows "mask_inv txt (fold (keyword_step t txt) kws st) \<and>
         fst (fold (keyword_step t txt) kws st) = fst st \<union> (\<Union>kw \<in> set kws. keyword_spans t txt kw)"
  using assms(1)
proof (induction kws arbitrary: st)
  case (Cons kw kws)
  have "mask_inv txt (keyword_step t txt kw st) \<and>
      fst (keyword_step t txt kw st) = fst st \<union> keyword_spans t txt kw"
    by (rule keyword_step_inv [OF Cons.prems plain])
  then show ?case using Cons.IH [of "keyword_step t txt kw st"] by auto
qed simp

lemma indices_in_range:
  assumes "from_patterns build cps = Some t"
  shows "vec_get (keyword_to_pattern t) j = Some i \<Longrightarrow> i < length (ti_patterns t)"
    and "vec_get (regex_to_pattern t) j = Some i \<Longrightarrow> i < length (ti_patterns t)"
proof -
  obtain kws res where parts:
    "kws = concat (map (\<lambda>(i, p). map (Pair i) (pattern_keyword_list p)) (enumerate 0 (ti_patterns t)))"
    "res = concat (map (\<lambda>(i, p). map (Pair i) (pattern_regex_list p)) (enumerate 0 (ti_patterns t)))"
    "keyword_to_pattern t = map fst kws" "regex_to_pattern t = map fst res"
    by (rule from_patterns_parts [OF assms])
  show "vec_get (keyword_to_pattern t) j = Some i \<Longrightarrow> i < length (ti_patterns t)"
    using indexed_concat [OF parts(1), of j] by (auto simp: vec_get_def parts(3) split: if_splits)
  show "vec_get (regex_to_pattern t) j = Some i \<Longrightarrow> i < length (ti_patterns t)"
    using indexed_concat [OF parts(2), of j] by (auto simp: vec_get_def parts(4) split: if_splits)
qed

lemma pattern_of_index:
  assumes "from_patterns build cps = Some t" and "i < length (ti_patterns t)"
  shows "ti_patterns t ! i \<in> set cps \<and> pattern_enabled (ti_patterns t ! i)"
proof -
  have "ti_patterns t = filter pattern_enabled cps" by (rule from_patterns_parts [OF assms(1)])
  then show ?thesis using nth_mem [OF assms(2)] by simp
qed

lemma detections_exact:
  assumes "from_patterns build cps = Some t" and "\<forall>p \<in> set cps. plain_pattern p" and "regex_ok build"
  shows "(s, e) \<in> span_of ` set (detections t txt) \<longleftrightarrow>
           (\<exists>p \<in> set cps. pattern_enabled p \<and> entity_of build p txt s e)"
proof -
  let ?scan = "engine_scan (keyword_engine t) txt"
  have plain: "plain_pattern (ti_patterns t ! i)" if "vec_get (keyword_to_pattern t) j = Some i" for i j
    using assms(2) pattern_of_index [OF assms(1) indices_in_range(1) [OF assms(1) that]] by blast
  have "mask_inv txt ({}, [])" by (simp add: mask_inv_def)
  from keyword_fold_inv [OF this, of t ?scan, OF plain]
  have "(s, e) \<in> span_of ` set (detections t txt) \<longleftrightarrow>
      valid_span txt (s, e) \<and> (\<exists>kw \<in> set ?scan. (s, e) \<in> keyword_spans t txt kw)"
    by (auto simp: detections_def mask_inv_def)
  also have "\<dots> \<longleftrightarrow> (\<exists>p \<in> set cps. pattern_enabled p \<and> entity_of build p txt s e)"
  proof
    assume "valid_span txt (s, e) \<and> (\<exists>kw \<in> set ?scan. (s, e) \<in> keyword_spans t txt kw)"
    then obtain kw a b i rm where valid: "valid_span txt (s, e)" and kw: "kw \<in> set ?scan"
      "vec_get (keyword_to_pattern t) (m_id kw) = Some i" "window t txt i kw = (a, b)"
      and rm: "rm \<in> set (engine_scan (regex_engine t) (str_slice txt a b))"
      "vec_get (regex_to_pattern t) (m_id rm) = Some i" "s = a + m_start rm" "e = a + m_end rm"
      by (auto simp: keyword_spans_def)
    have i: "i < length (ti_patterns t)" by (rule indices_in_range(1) [OF assms(1) kw(2)])
    have "txt \<noteq> []" using kw(1) by (auto simp: engine_scan_def split: if_splits)
    then have "near_keyword (ti_patterns t ! i) txt a b"
      using keyword_hits [OF assms(1,2) i] kw by blast
    moreover have "str_slice txt a b \<noteq> []" using rm(1) by (auto simp: engine_scan_def split: if_splits)
    then have "regex_hit build (ti_patterns t ! i) (str_slice txt a b) (m_start rm) (m_end rm)"
      using regex_hits [OF assms(1) i] rm by blast
    ultimately have "entity_of build (ti_patterns t ! i) txt s e"
      using valid rm(3,4) by (auto simp: entity_of_def valid_span_def)
    then show "\<exists>p \<in> set cps. pattern_enabled p \<and> entity_of build p txt s e"
      using pattern_of_index [OF assms(1) i] by blast
  next
    assume "\<exists>p \<in> set cps. pattern_enabled p \<and> entity_of build p txt s e"
    then obtain p where p: "p \<in> set cps" "pattern_enabled p" "entity_of build p txt s e" by blast
    have "ti_patterns t = filter pattern_enabled cps" by (rule from_patterns_parts [OF assms(1)])
    then have "p \<in> set (ti_patterns t)" using p(1,2) by simp
    then obtain i where i: "i < length (ti_patterns t)" "ti_patterns t ! i = p"
      by (auto simp: in_set_conv_nth)
    obtain a b x y where ab: "near_keyword p txt a b" "regex_hit build p (str_slice txt a b) x y"
      "s = a + x" "e = a + y" and v: "validate_default (str_slice txt s e) txt s e"
      using p(3) by (auto simp: entity_of_def)
    have ne: "str_slice txt s e \<noteq> []" using v by (auto simp: validate_default_def)
    have le: "x \<le> y" "y \<le> length (str_slice txt a b)"
      using ab(2) assms(3) unfolding regex_hit_def regex_ok_def by blast+
    have "txt \<noteq> []" "str_slice txt a b \<noteq> []" using ne le ab(3,4) by (auto simp: str_slice_def)
    then obtain kw rm where "kw \<in> set ?scan" "vec_get (keyword_to_pattern t) (m_id kw) = Some i"
      "window t txt i kw = (a, b)"
      "rm \<in> set (engine_scan (regex_engine t) (str_slice txt a b))"
      "vec_get (regex_to_pattern t) (m_id rm) = Some i" "m_start rm = x" "m_end rm = y"
      using keyword_hits [OF assms(1,2) i(1)] regex_hits [OF assms(1) i(1)] ab(1,2) i(2) by metis
    then have "kw \<in> set ?scan" "(s, e) \<in> keyword_spans t txt kw"
      unfolding keyword_spans_def using ab(3,4) by blast+
    then show "valid_span txt (s, e) \<and> (\<exists>kw \<in> set ?scan. (s, e) \<in> keyword_spans t txt kw)"
      using v by (auto simp: valid_span_def)
  qed
  finally show ?thesis .
qed

lemma detections_labelled:
  assumes "from_patterns build cps = Some t" and "\<forall>p \<in> set cps. plain_pattern p"
    and "m \<in> set (detections t txt)"
  shows "\<exists>i < length (ti_patterns t). vec_get (regex_to_pattern t) (m_id m) = Some i \<and>
           entity_of build (ti_patterns t ! i) txt (m_start m) (m_end m)"
proof -
  let ?good = "\<lambda>st :: mask_state. \<forall>m \<in> set (snd st). \<exists>i < length (ti_patterns t).
    vec_get (regex_to_pattern t) (m_id m) = Some i \<and>
    entity_of build (ti_patterns t ! i) txt (m_start m) (m_end m)"
  have inner: "?good (consider_match t txt i a rm st)"
    if st: "?good st" and i: "i < length (ti_patterns t)" and near: "near_keyword (ti_patterns t ! i) txt a b"
      and rm: "rm \<in> set (engine_scan (regex_engine t) (str_slice txt a b))" for i a b rm st
  proof -
    let ?m = "\<lparr>m_id = m_id rm, m_start = a + m_start rm, m_end = a + m_end rm\<rparr>"
    have plain: "plain_pattern (ti_patterns t ! i)"
      using assms(2) pattern_of_index [OF assms(1) i] by blast
    have ne: "str_slice txt a b \<noteq> []" using rm by (auto simp: engine_scan_def split: if_splits)
    have entity: "entity_of build (ti_patterns t ! i) txt (a + m_start rm) (a + m_end rm)"
      if "vec_get (regex_to_pattern t) (m_id rm) = Some i"
        "validate_default (str_slice txt (a + m_start rm) (a + m_end rm)) txt (a + m_start rm) (a + m_end rm)"
      using regex_hits [OF assms(1) i ne] near rm that unfolding entity_of_def by blast
    have "set (snd (consider_match t txt i a rm st)) \<subseteq> insert ?m (set (snd st))"
      by (cases st) (auto simp: consider_match_def Let_def split: option.splits)
    moreover have "?m \<in> set (snd (consider_match t txt i a rm st)) \<Longrightarrow> ?m \<notin> set (snd st) \<Longrightarrow>
        vec_get (regex_to_pattern t) (m_id rm) = Some i \<and>
        validate_default (str_slice txt (a + m_start rm) (a + m_end rm)) txt (a + m_start rm) (a + m_end rm)"
      by (cases st) (auto simp: consider_match_def Let_def validate_plain [OF plain]
          split: option.splits if_splits)
    ultimately show ?thesis using st entity i by fastforce
  qed
  have outer: "?good (keyword_step t txt kw st)"
    if st: "?good st" and kw: "kw \<in> set (engine_scan (keyword_engine t) txt)" for kw st
  proof (cases "vec_get (keyword_to_pattern t) (m_id kw)")
    case None
    then show ?thesis using st by (simp add: keyword_step_def)
  next
    case (Some i)
    obtain a b where w: "window t txt i kw = (a, b)" by fastforce
    have i: "i < length (ti_patterns t)" by (rule indices_in_range(1) [OF assms(1) Some])
    have "txt \<noteq> []" using kw by (auto simp: engine_scan_def split: if_splits)
    then have near: "near_keyword (ti_patterns t ! i) txt a b"
      using keyword_hits [OF assms(1,2) i] kw Some w by blast
    have "?good (fold (consider_match t txt i a) (engine_scan (regex_engine t) (str_slice txt a b)) st)"
      by (rule fold_invariant [where Q = "\<lambda>rm. rm \<in> set (engine_scan (regex_engine t) (str_slice txt a b))"])
         (use st inner [OF _ i near] in auto)
    then show ?thesis by (simp add: keyword_step_def Some w)
  qed
  have "?good (fold (keyword_step t txt) (engine_scan (keyword_engine t) txt) ({}, []))"
    by (rule fold_invariant [where Q = "\<lambda>kw. kw \<in> set (engine_scan (keyword_engine t) txt)"])
       (use outer in auto)
  then show ?thesis using assms(3) by (simp add: detections_def)
qed

lemma detections_proper:
  assumes "from_patterns build cps = Some t" and "\<forall>p \<in> set cps. plain_pattern p" and "regex_ok build"
  shows "proper_spans (length txt) (detections t txt)"
proof -
  have "m_start m < m_end m \<and> m_end m \<le> length txt" if "m \<in> set (detections t txt)" for m
  proof -
    have "span_of m \<in> span_of ` set (detections t txt)" using that by blast
    then obtain p where "entity_of build p txt (m_start m) (m_end m)"
      using detections_exact [OF assms, of "m_start m" "m_end m" "txt"] by (auto simp: span_of_def)
    then obtain a b x y where h: "regex_hit build p (str_slice txt a b) x y"
      "m_start m = a + x" "m_end m = a + y" "str_slice txt (m_start m) (m_end m) \<noteq> []"
      by (auto simp: entity_of_def validate_default_def split: if_splits)
    have "y \<le> length (str_slice txt a b)"
      using h(1) assms(3) unfolding regex_hit_def regex_ok_def by blast
    then show ?thesis using h(2,3,4) by (auto simp: str_slice_def)
  qed
  then show ?thesis by (auto simp: proper_spans_def)
qed

text \<open>
  C17. Masking is exact.  For a masker built from any patterns whose ids have no validation rule of
  their own: the output is the text in which pairwise disjoint spans are replaced, every byte
  outside them kept in place; every replaced span is an entity of an enabled pattern near one of
  its keywords and its label names that pattern; and for every entity of every enabled pattern,
  some replaced span hides its first byte.
\<close>

theorem masking_is_exact:
  assumes "from_patterns build cps = Some t" and "\<forall>p \<in> set cps. plain_pattern p" and "regex_ok build"
  shows "\<exists>chosen.
     desensitize t txt = concat (map (masked_at t txt chosen) [0..<length txt]) \<and>
     disjoint_spans chosen \<and>
     (\<forall>m \<in> set chosen. \<exists>p \<in> set cps. pattern_enabled p \<and>
        entity_of build p txt (m_start m) (m_end m) \<and>
        pii_label t txt m = ''[PII_'' @ pattern_id p @ '']'') \<and>
     (\<forall>p \<in> set cps. \<forall>s e. pattern_enabled p \<longrightarrow> entity_of build p txt s e \<longrightarrow> covers chosen s)"
proof -
  let ?ds = "detections t txt"
  let ?chosen = "deduplicate_matches ?ds"
  note spec = deduplicate_matches_spec [OF detections_proper [OF assms, of "txt"]]
  have "desensitize t txt = replace_spans t txt 0 ?chosen"
    by (simp add: desensitize_def detections_def engine_scan_def deduplicate_matches_def)
  then have body: "desensitize t txt = concat (map (masked_at t txt ?chosen) [0..<length txt])"
    using replace_spans_pointwise [OF spec(2,3), of 0 t] by simp
  have labels: "\<exists>p \<in> set cps. pattern_enabled p \<and> entity_of build p txt (m_start m) (m_end m) \<and>
      pii_label t txt m = ''[PII_'' @ pattern_id p @ '']''" if "m \<in> set ?chosen" for m
  proof -
    have "m \<in> set ?ds" using that spec(1) by blast
    from detections_labelled [OF assms(1,2) this] obtain i where i: "i < length (ti_patterns t)" "vec_get (regex_to_pattern t) (m_id m) = Some i"
      "entity_of build (ti_patterns t ! i) txt (m_start m) (m_end m)" by blast
    then show ?thesis using pattern_of_index [OF assms(1) i(1)] by (auto simp: pii_label_def)
  qed
  have "covers ?chosen s" if "p \<in> set cps" "pattern_enabled p" "entity_of build p txt s e" for p s e
  proof -
    have "(s, e) \<in> span_of ` set ?ds" using detections_exact [OF assms] that by blast
    then show ?thesis using spec(4) by (auto simp: span_of_def)
  qed
  then show ?thesis using body labels spec(2) by blast
qed

text \<open>A regular-expression crate that knows one expression, a digit and what follows it.\<close>

definition demo_regex_crate :: regex_crate where
  "demo_regex_crate r ci =
     (if r = ''[0-9].*''
      then Some (\<lambda>s. let i = length (takeWhile (\<lambda>c. digit_val c = None) s)
                     in if i < length s then [(i, length s)] else [])
      else None)"

lemma demo_regex_crate_ok: "regex_ok demo_regex_crate"
  by (auto simp: regex_ok_def demo_regex_crate_def Let_def split: if_splits)

definition demo_masker :: text_identify where
  "demo_masker = the (from_patterns demo_regex_crate (cf_patterns demo_config))"

lemma demo_masker_built: "from_patterns demo_regex_crate (cf_patterns demo_config) = Some demo_masker"
proof -
  have "\<not> Option.is_none (from_patterns demo_regex_crate (cf_patterns demo_config))" by code_simp
  then show ?thesis by (auto simp: demo_masker_def Option.is_none_def)
qed

lemma demo_masker_masks: "desensitize demo_masker ''Tel 555'' = ''Tel [PII_phone]''"
  by code_simp

lemma demo_plain: "\<forall>p \<in> set (cf_patterns demo_config). plain_pattern p"
  by code_simp

lemma demo_entity: "entity_of demo_regex_crate (hd (cf_patterns demo_config)) ''Tel 555'' 4 7"
proof -
  let ?p = "hd (cf_patterns demo_config)"
  have "occurs_at (map ascii_lower ''tel'') (map ascii_lower ''Tel 555'') 0" by code_simp
  moreover have "''tel'' \<in> set (pattern_keyword_list ?p)" by code_simp
  moreover have "char_window (key_dist ?p) ''Tel 555'' 0 (0 + length ''tel'') = (0, 7)" by code_simp
  ultimately have "near_keyword ?p ''Tel 555'' 0 7" unfolding near_keyword_def by blast
  moreover have "''[0-9].*'' \<in> set (pattern_regex_list ?p)" by code_simp
  then have "regex_hit demo_regex_crate ?p (str_slice ''Tel 555'' 0 7) 4 7"
    unfolding regex_hit_def
    by (intro bexI [of _ "''[0-9].*''"]) (simp_all add: demo_regex_crate_def str_slice_def digit_val_def)
  moreover have "validate_default (str_slice ''Tel 555'' 4 7) ''Tel 555'' 4 7" by code_simp
  ultimately show ?thesis unfolding entity_of_def by (metis add_0)
qed

theorem masking_is_exact_witness:
  "desensitize demo_masker ''Tel 555'' = ''Tel [PII_phone]'' \<and>
   (\<exists>chosen. desensitize demo_masker ''Tel 555'' =
       concat (map (masked_at demo_masker ''Tel 555'' chosen) [0..<length ''Tel 555'']) \<and>
     covers chosen 4)"
  using masking_is_exact [OF demo_masker_built demo_plain demo_regex_crate_ok, of "''Tel 555''"]
    demo_entity demo_masker_masks
  by (auto simp: demo_config_def)

end
