(* ===== verification/InfRouter.thy ===== *)
theory InfRouter
  imports InfKeys InfMasker
begin

text \<open>
  The local inference router, \<^verbatim>\<open>rust/plugins/agentsandbox/inference/src/{parser,engine,router}.rs\<close>:
  parsing of a model request, selection of a strategy, and the modifications that are answered to
  the proxy.  The parameter \<open>inf_lib\<close> holds \<open>serde_json\<close>'s parser and printer, \<open>HeaderValue::to_str\<close>
  and the cryptography.  Header names are lower case, as the \<open>http\<close> crate keeps them.
\<close>

section \<open>Request parsing\<close>

datatype request_format = OpenAI | Anthropic

record parsed_request =
  pr_format :: request_format
  pr_payloads :: "string list"

datatype parse_error = NotJsonObject | MessagesRequired | NoUserMessage

record inf_lib =
  il_from_str :: "string \<Rightarrow> json option"
  il_to_string :: "json \<Rightarrow> string option"
  il_to_str :: "string \<Rightarrow> string option"
  il_crypto :: crypto_lib

definition role_is :: "string \<Rightarrow> json \<Rightarrow> bool" where
  "role_is r message \<longleftrightarrow>
     (case as_object message of
        None \<Rightarrow> False
      | Some kvs \<Rightarrow> Option.bind (map_of kvs ''role'') as_str = Some r)"

definition is_text_block :: "json \<Rightarrow> bool" where
  "is_text_block block \<longleftrightarrow>
     (case as_object block of
        None \<Rightarrow> False
      | Some kvs \<Rightarrow> Option.bind (map_of kvs ''type'') as_str = Some ''text'')"

definition block_segment :: "json \<Rightarrow> string list" where
  "block_segment block =
     (if is_text_block block then
        (case Option.bind (json_get ''text'' block) as_str of Some t \<Rightarrow> [t] | None \<Rightarrow> [])
      else [])"

fun extract_content_segments :: "json \<Rightarrow> string list" where
  "extract_content_segments (JString s) = [s]"
| "extract_content_segments (JArray blocks) = concat (map block_segment blocks)"
| "extract_content_segments _ = []"

definition host_header :: "inf_lib \<Rightarrow> headers \<Rightarrow> string option" where
  "host_header lib hs = Option.bind (map_of hs ''host'') (il_to_str lib)"

definition detect_format :: "inf_lib \<Rightarrow> json \<Rightarrow> headers \<Rightarrow> request_format" where
  "detect_format lib body hs =
     (if (case Option.bind (json_get ''messages'' body) as_array of
            Some ms \<Rightarrow> list_ex (role_is ''system'') ms | None \<Rightarrow> False)
      then OpenAI
      else if (case json_get ''system'' body of
                 Some v \<Rightarrow> as_str v \<noteq> None \<or> as_array v \<noteq> None | None \<Rightarrow> False)
      then Anthropic
      else if (case json_get ''max_tokens'' body of Some v \<Rightarrow> is_number v | None \<Rightarrow> False)
      then Anthropic
      else if (case host_header lib hs of
                 Some h \<Rightarrow> str_contains ''anthropic'' (map ascii_lower h) | None \<Rightarrow> False) \<or>
              map_of hs ''x-api-key'' \<noteq> None
      then Anthropic
      else if map_of hs ''authorization'' \<noteq> None then OpenAI
      else OpenAI)"

text \<open>The loop over the messages: whether a user message was seen, and the segments so far.\<close>

fun collect_segments :: "json list \<Rightarrow> bool \<times> string list" where
  "collect_segments [] = (False, [])"
| "collect_segments (m # ms) =
     (let (has_user, rest) = collect_segments ms
      in if role_is ''user'' m then
           (True, (case json_get ''content'' m of Some c \<Rightarrow> extract_content_segments c | None \<Rightarrow> []) @ rest)
         else (has_user, rest))"

definition parse_request :: "inf_lib \<Rightarrow> string \<Rightarrow> headers \<Rightarrow> parse_error + parsed_request" where
  "parse_request lib body hs =
     (case il_from_str lib body of
        None \<Rightarrow> Inl NotJsonObject
      | Some doc \<Rightarrow>
          if \<not> is_object doc then Inl NotJsonObject
          else case Option.bind (json_get ''messages'' doc) as_array of
                 None \<Rightarrow> Inl MessagesRequired
               | Some messages \<Rightarrow>
                   (let (has_user, payloads) = collect_segments messages
                    in if \<not> has_user then Inl NoUserMessage
                       else Inr \<lparr>pr_format = detect_format lib doc hs, pr_payloads = payloads\<rparr>))"

section \<open>The decision\<close>

record router_state =
  rs_config :: inf_config
  rs_masker :: "text_identify option"

definition mask :: "router_state \<Rightarrow> string \<Rightarrow> string" where
  "mask st payload = (case rs_masker st of Some t \<Rightarrow> desensitize t payload | None \<Rightarrow> payload)"

record route_result =
  rr_strategy_id :: string
  rr_target :: string
  rr_model_id :: string
  rr_payloads :: "string list"
  rr_masked :: bool
  rr_credential :: string
  rr_target_model :: model_config

datatype route_error = NoMatchPolicy | CredentialProviderFailure | TargetModelNotFound

definition eligible :: "(string \<times> model_config) list \<Rightarrow> string \<Rightarrow> inf_strategy \<Rightarrow> bool" where
  "eligible models target_type s \<longleftrightarrow>
     strategy_enabled s \<and>
     (target_type = [] \<or>
      (case map_of models (act_model_id (strategy_action s)) of
         Some model \<Rightarrow> mc_type model = target_type | None \<Rightarrow> False))"

fun find_from ::
  "(string \<times> model_config) list \<Rightarrow> string \<Rightarrow> inf_strategy option \<Rightarrow> inf_strategy list \<Rightarrow> inf_strategy option" where
  "find_from models target_type best [] = best"
| "find_from models target_type best (s # ss) =
     find_from models target_type
       (if \<not> eligible models target_type s then best
        else case best of
               None \<Rightarrow> Some s
             | Some b \<Rightarrow> if strategy_priority s < strategy_priority b then Some s else best) ss"

definition find_first_enabled ::
  "inf_strategy list \<Rightarrow> (string \<times> model_config) list \<Rightarrow> string \<Rightarrow> inf_strategy option" where
  "find_first_enabled strategies models target_type = find_from models target_type None strategies"

definition select_strategy :: "inf_config \<Rightarrow> bool \<Rightarrow> inf_strategy option" where
  "select_strategy config has_sensitive =
     (let strategies = rp_strategies (cf_routing config); models = cf_models config
      in if has_sensitive then find_first_enabled strategies models []
         else case find_first_enabled strategies models ''cloud'' of
                Some s \<Rightarrow> Some s
              | None \<Rightarrow> find_first_enabled strategies models ''local'')"

definition engine_route :: "inf_lib \<Rightarrow> router_state \<Rightarrow> string list \<Rightarrow> route_error + route_result" where
  "engine_route lib st payloads =
     (let config = rs_config st;
          masked_payloads = map (mask st) payloads;
          has_sensitive = list_ex (\<lambda>(original, masked). original \<noteq> masked) (zip payloads masked_payloads)
      in case select_strategy config has_sensitive of
           None \<Rightarrow> Inl NoMatchPolicy
         | Some matched \<Rightarrow>
             let act = strategy_action matched;
                 sanitize = has_sensitive \<and> (case act_sanitize act of Some b \<Rightarrow> b | None \<Rightarrow> False)
             in rbind (case get_api_key (il_crypto lib) config (act_model_id act) of
                         Inr key \<Rightarrow> Inr key
                       | Inl (CredCrypto e) \<Rightarrow> Inl CredentialProviderFailure
                       | Inl _ \<Rightarrow> Inr []) (\<lambda>credential.
                case map_of (cf_models config) (act_model_id act) of
                  None \<Rightarrow> Inl TargetModelNotFound
                | Some model \<Rightarrow>
                    if \<not> mc_enabled model then Inl TargetModelNotFound
                    else Inr \<lparr>rr_strategy_id = strategy_id matched, rr_target = act_target act,
                              rr_model_id = act_model_id act,
                              rr_payloads = (if sanitize then masked_payloads else payloads),
                              rr_masked = sanitize, rr_credential = credential,
                              rr_target_model = model\<rparr>))"

section \<open>Modifications\<close>

text \<open>The rest of the string from a separator on, if it occurs.\<close>

definition after_scheme :: "string \<Rightarrow> string" where
  "after_scheme e = (case str_find ''://'' e of Some p \<Rightarrow> drop (p + 3) e | None \<Rightarrow> e)"

definition host_of_endpoint :: "string \<Rightarrow> string" where
  "host_of_endpoint e =
     (let rest = (case split_once (CHR ''/'') (after_scheme e) of
                    Some (before, _) \<Rightarrow> before | None \<Rightarrow> after_scheme e)
      in case rsplit_once (CHR ''@'') rest of Some (_, host) \<Rightarrow> host | None \<Rightarrow> rest)"

definition model_field_differs :: "inf_lib \<Rightarrow> string \<Rightarrow> string \<Rightarrow> bool" where
  "model_field_differs lib body target_model_id =
     (case il_from_str lib body of
        Some doc \<Rightarrow>
          if is_object doc then
            (case json_get ''model'' doc of
               Some (JString s) \<Rightarrow> s \<noteq> target_model_id | _ \<Rightarrow> True)
          else True
      | None \<Rightarrow> True)"

text \<open>
  The write-back of the segments; the state is the list of payloads not used yet.  A text block
  uses one whether or not it has a \<open>text\<close> field to put it in.
\<close>

definition write_block :: "json \<Rightarrow> string list \<Rightarrow> json \<times> string list" where
  "write_block block ps =
     (if is_text_block block \<and> ps \<noteq> [] then
        (case as_object block of
           Some kvs \<Rightarrow>
             (if map_of kvs ''text'' \<noteq> None then JObject (map_insert ''text'' (JString (hd ps)) kvs) else block)
         | None \<Rightarrow> block, tl ps)
      else (block, ps))"

fun write_blocks :: "json list \<Rightarrow> string list \<Rightarrow> json list \<times> string list" where
  "write_blocks [] ps = ([], ps)"
| "write_blocks (b # bs) ps =
     (let (b', ps') = write_block b ps; (bs', ps'') = write_blocks bs ps' in (b' # bs', ps''))"

fun write_content :: "json \<Rightarrow> string list \<Rightarrow> json \<times> string list" where
  "write_content (JString s) ps = (if ps \<noteq> [] then (JString (hd ps), tl ps) else (JString s, ps))"
| "write_content (JArray blocks) ps = (let (bs, ps') = write_blocks blocks ps in (JArray bs, ps'))"
| "write_content c ps = (c, ps)"

fun map_replace :: "string \<Rightarrow> 'v \<Rightarrow> (string \<times> 'v) list \<Rightarrow> (string \<times> 'v) list" where
  "map_replace k v [] = []"
| "map_replace k v ((k', v') # kvs) = (if k = k' then (k, v) # kvs else (k', v') # map_replace k v kvs)"

definition write_message :: "json \<Rightarrow> string list \<Rightarrow> json \<times> string list" where
  "write_message m ps =
     (if role_is ''user'' m then
        (case as_object m of
           None \<Rightarrow> (m, ps)
         | Some kvs \<Rightarrow>
             (case map_of kvs ''content'' of
                None \<Rightarrow> (m, ps)
              | Some c \<Rightarrow> (let (c', ps') = write_content c ps in (JObject (map_replace ''content'' c' kvs), ps'))))
      else (m, ps))"

fun write_messages :: "json list \<Rightarrow> string list \<Rightarrow> json list \<times> string list" where
  "write_messages [] ps = ([], ps)"
| "write_messages (m # ms) ps =
     (let (m', ps') = write_message m ps; (ms', ps'') = write_messages ms ps' in (m' # ms', ps''))"

definition inject_model :: "string \<Rightarrow> (string \<times> json) list \<Rightarrow> (string \<times> json) list" where
  "inject_model model_id kvs =
     (case map_of kvs ''model'' of
        None \<Rightarrow> map_insert ''model'' (JString model_id) kvs
      | Some (JString _) \<Rightarrow> map_insert ''model'' (JString model_id) kvs
      | Some _ \<Rightarrow> kvs)"

definition modified_document :: "(string \<times> json) list \<Rightarrow> string \<Rightarrow> string list \<Rightarrow> json" where
  "modified_document kvs model_id payloads =
     (let obj = inject_model model_id kvs
      in case map_of obj ''messages'' of
           Some (JArray messages) \<Rightarrow>
             JObject (map_replace ''messages'' (JArray (fst (write_messages messages payloads))) obj)
         | _ \<Rightarrow> JObject obj)"

definition build_modified_body :: "inf_lib \<Rightarrow> string \<Rightarrow> route_result \<Rightarrow> string option" where
  "build_modified_body lib original_body result =
     (case il_from_str lib original_body of
        None \<Rightarrow> None
      | Some doc \<Rightarrow>
          (case as_object doc of
             None \<Rightarrow> None
           | Some kvs \<Rightarrow> il_to_string lib (modified_document kvs (rr_model_id result) (rr_payloads result))))"

definition header_modification :: "headers \<Rightarrow> string \<Rightarrow> string \<Rightarrow> inference_modification" where
  "header_modification hs key v =
     \<lparr>im_action = (if map_of hs key \<noteq> None then ModModify else ModAdd), im_target = ModHeader,
      im_key = key, im_value = v\<rparr>"

definition is_header_only :: "string \<Rightarrow> bool" where
  "is_header_only body \<longleftrightarrow> body = [] \<or> body = ''{}''"

definition build_modifications ::
  "inf_lib \<Rightarrow> inference_request \<Rightarrow> request_format \<Rightarrow> route_result \<Rightarrow> inference_modification list option" where
  "build_modifications lib req format result =
     (let hs = iq_headers req;
          effective_cred = (if rr_credential result = [] then ''EMPTY'' else rr_credential result);
          auth = (if format = Anthropic then header_modification hs ''x-api-key'' effective_cred
                  else header_modification hs ''authorization'' (''Bearer '' @ effective_cred));
          endpoint_host = host_of_endpoint (mc_endpoint (rr_target_model result));
          redirect = (if endpoint_host \<noteq> [] \<and> host_header lib hs \<noteq> Some endpoint_host
                      then [header_modification hs ''host'' endpoint_host] else [])
      in if \<not> is_header_only (iq_body req) \<and>
            (rr_masked result \<or> model_field_differs lib (iq_body req) (rr_model_id result))
         then (case build_modified_body lib (iq_body req) result of
                 None \<Rightarrow> None
               | Some body \<Rightarrow>
                   Some (auth # redirect @
                     [\<lparr>im_action = ModAdd, im_target = ModBody, im_key = [], im_value = body\<rparr>]))
         else Some (auth # redirect))"

section \<open>The entry point\<close>

datatype route_failure =
    NotInitialized
  | UnparseableBody parse_error
  | EngineFailure route_error
  | BuildModifications

definition route_inner ::
  "inf_lib \<Rightarrow> router_state option \<Rightarrow> inference_request \<Rightarrow> route_failure + inference_route_result" where
  "route_inner lib state req =
     (case state of
        None \<Rightarrow> Inl NotInitialized
      | Some st \<Rightarrow>
          rbind (if is_header_only (iq_body req) then Inr \<lparr>pr_format = OpenAI, pr_payloads = []\<rparr>
                 else case parse_request lib (iq_body req) (iq_headers req) of
                        Inl e \<Rightarrow> Inl (UnparseableBody e) | Inr p \<Rightarrow> Inr p) (\<lambda>parsed.
          rbind (case engine_route lib st (pr_payloads parsed) of
                   Inl e \<Rightarrow> Inl (EngineFailure e) | Inr r \<Rightarrow> Inr r) (\<lambda>result.
          case build_modifications lib req (pr_format parsed) result of
            None \<Rightarrow> Inl BuildModifications
          | Some ms \<Rightarrow>
              if ms = [] then Inr \<lparr>ir_result = InfForward, ir_modifications = []\<rparr>
              else Inr \<lparr>ir_result = InfModified, ir_modifications = ms\<rparr>)))"

definition route :: "inf_lib \<Rightarrow> router_state option \<Rightarrow> inference_router" where
  "route lib state req =
     (case route_inner lib state req of Inr r \<Rightarrow> r | Inl failure \<Rightarrow> block_result)"

definition default_router :: "inf_lib \<Rightarrow> router_state option \<Rightarrow> inference_router" where
  "default_router lib state = (if state \<noteq> None then route lib state else mock_route)"

section \<open>Initialisation\<close>

definition install :: "regex_crate \<Rightarrow> inf_config \<Rightarrow> router_state" where
  "install build config =
     \<lparr>rs_config = config, rs_masker = from_patterns build (cf_patterns config)\<rparr>"

definition path_join :: "string \<Rightarrow> string \<Rightarrow> string" where
  "path_join dir file = (if dir = [] \<or> last dir = CHR ''/'' then dir @ file else dir @ ''/'' @ file)"

definition init_error_from :: "inf_config_error \<Rightarrow> inf_config_error" where
  "init_error_from e = (case e of ConfigPersist \<Rightarrow> ConfigLoad ''api_keys.json'' | _ \<Rightarrow> e)"

definition installed ::
  "regex_crate \<Rightarrow> inf_config_error + inf_config \<Rightarrow> router_state option \<Rightarrow>
     (inf_config_error + unit) \<times> router_state option" where
  "installed build loaded state =
     (case loaded of
        Inl e \<Rightarrow> (Inl (init_error_from e), state)
      | Inr config \<Rightarrow> (Inr (), Some (install build config)))"

definition router_init ::
  "(string \<Rightarrow> string option) \<Rightarrow> (string \<Rightarrow> json option) \<Rightarrow> regex_crate \<Rightarrow> string \<Rightarrow> router_state option \<Rightarrow>
     (inf_config_error + unit) \<times> router_state option" where
  "router_init read from_str build config_dir state =
     installed build
       (load_inf_config read from_str (path_join config_dir ''routing_policy.json'')
          (path_join config_dir ''model_config.json'') (path_join config_dir ''sensitive_patterns.json'')
          (path_join config_dir ''api_keys.json''))
       state"

text \<open>
  \<open>init_default\<close>: the three read-only documents are compiled in, the key file lives in a state
  directory and is created when it is missing.
\<close>

datatype create_result = Created | AlreadyExists | CreateError

record default_env =
  de_state_dir :: "string option"
  de_temp_dir :: string
  de_create_dir_ok :: bool
  de_create_new :: "string \<Rightarrow> create_result"
  de_write_ok :: bool
  de_read :: "string \<Rightarrow> string option"
  de_routing_policy :: string
  de_model_config :: string
  de_sensitive_patterns :: string

definition ensure_state_api_keys :: "default_env \<Rightarrow> string \<Rightarrow> inf_config_error + string" where
  "ensure_state_api_keys env state_dir =
     (let path = path_join state_dir ''api_keys.json''
      in if \<not> de_create_dir_ok env then Inl (ConfigLoad ''api_keys.json'')
         else case de_create_new env path of
                Created \<Rightarrow> if de_write_ok env then Inr path else Inl (ConfigLoad ''api_keys.json'')
              | AlreadyExists \<Rightarrow> Inr path
              | CreateError \<Rightarrow> Inl (ConfigLoad ''api_keys.json''))"

definition init_default ::
  "default_env \<Rightarrow> (string \<Rightarrow> json option) \<Rightarrow> regex_crate \<Rightarrow> router_state option \<Rightarrow>
     (inf_config_error + unit) \<times> router_state option" where
  "init_default env from_str build state =
     installed build
       (rbind (ensure_state_api_keys env
                 (case de_state_dir env of
                    Some v \<Rightarrow> if v \<noteq> [] then v else path_join (de_temp_dir env) ''agentsandbox-inference''
                  | None \<Rightarrow> path_join (de_temp_dir env) ''agentsandbox-inference'')) (\<lambda>api_keys_path.
        rbind (case de_read env api_keys_path of
                 Some c \<Rightarrow> Inr c | None \<Rightarrow> Inl (ConfigLoad ''api_keys.json'')) (\<lambda>ak_content.
        load_config_from_contents from_str (de_routing_policy env) (de_model_config env)
          (de_sensitive_patterns env) ak_content api_keys_path)))
       state"

section \<open>The strategy that is chosen\<close>

lemma find_from_least:
  "find_from models tt best ss =
     (case sort_key strategy_priority
             (filter (eligible models tt) (case best of None \<Rightarrow> ss | Some b \<Rightarrow> ss)) of
        [] \<Rightarrow> best
      | s # _ \<Rightarrow>
          (case best of
             None \<Rightarrow> Some s
           | Some b \<Rightarrow> if strategy_priority s < strategy_priority b then Some s else Some b))"
proof (induction ss arbitrary: best)
  case (Cons s ss)
  let ?rest = "sort_key strategy_priority (filter (eligible models tt) ss)"
  have hd_insort: "insort_key strategy_priority s xs =
      (case xs of [] \<Rightarrow> [s]
       | x # xs' \<Rightarrow> if strategy_priority s \<le> strategy_priority x then s # x # xs'
                    else x # insort_key strategy_priority s xs')" for xs
    by (cases xs) simp_all
  show ?case
  proof (cases "eligible models tt s")
    case True
    then show ?thesis
      using Cons.IH [of "Some s"] Cons.IH [of best]
      by (cases best; cases ?rest) (auto simp: hd_insort Cons.IH)
  next
    case False
    then show ?thesis using Cons.IH [of best] by (cases best) simp_all
  qed
qed (simp split: option.splits)

text \<open>
  The selection is by priority alone: the chosen strategy is the first of the enabled ones
  whose model has the wanted type, in the stable order of their priorities.  Conditions and the
  list of default priorities of the configuration have no influence.
\<close>

theorem selection_is_least_priority:
  "find_first_enabled strategies models tt =
     (case sort_key strategy_priority
             (filter (\<lambda>s. strategy_enabled s \<and>
                (tt = [] \<or> (\<exists>m. map_of models (act_model_id (strategy_action s)) = Some m \<and> mc_type m = tt)))
                strategies) of
        [] \<Rightarrow> None | s # _ \<Rightarrow> Some s)"
proof -
  have "eligible models tt = (\<lambda>s. strategy_enabled s \<and>
      (tt = [] \<or> (\<exists>m. map_of models (act_model_id (strategy_action s)) = Some m \<and> mc_type m = tt)))"
    by (auto simp: eligible_def fun_eq_iff split: option.splits)
  then show ?thesis
    unfolding find_first_enabled_def find_from_least by (simp split: list.splits)
qed

section \<open>Writing segments back\<close>

definition regular_block :: "json \<Rightarrow> bool" where
  "regular_block b \<longleftrightarrow> \<not> is_text_block b \<or> (\<exists>t. json_get ''text'' b = Some (JString t))"

fun regular_content :: "json \<Rightarrow> bool" where
  "regular_content (JArray blocks) = list_all regular_block blocks"
| "regular_content _ = True"

definition regular_message :: "json \<Rightarrow> bool" where
  "regular_message m \<longleftrightarrow>
     (case json_get ''content'' m of Some c \<Rightarrow> \<not> role_is ''user'' m \<or> regular_content c | None \<Rightarrow> True)"

lemma map_of_map_replace [simp]:
  "map_of (map_replace k v kvs) = (if map_of kvs k = None then map_of kvs else (map_of kvs)(k \<mapsto> v))"
  by (induction kvs rule: map_replace.induct) (auto simp: fun_eq_iff)

lemma write_block_segments:
  assumes "regular_block b" and "length qs = length (block_segment b)"
  shows "\<exists>b'. write_block b (qs @ rest) = (b', rest) \<and> block_segment b' = qs"
proof (cases "is_text_block b")
  case True
  then obtain kvs t where b: "b = JObject kvs" "map_of kvs ''text'' = Some (JString t)"
    using assms(1) by (cases b) (auto simp: regular_block_def is_text_block_def)
  then obtain q where q: "qs = [q]"
    using assms(2) True by (auto simp: block_segment_def length_Suc_conv)
  have "is_text_block (JObject (map_insert ''text'' (JString q) kvs))"
    using True by (simp add: b is_text_block_def)
  then show ?thesis using True b q by (simp add: write_block_def block_segment_def)
next
  case False
  then show ?thesis using assms(2) by (auto simp: write_block_def block_segment_def)
qed

lemma write_blocks_segments:
  assumes "list_all regular_block bs" and "length qs = length (concat (map block_segment bs))"
  shows "\<exists>bs'. write_blocks bs (qs @ rest) = (bs', rest) \<and> concat (map block_segment bs') = qs"
  using assms
proof (induction bs arbitrary: qs)
  case (Cons b bs)
  let ?n = "length (block_segment b)"
  obtain b' where b': "write_block b (take ?n qs @ drop ?n qs @ rest) = (b', drop ?n qs @ rest)"
    "block_segment b' = take ?n qs"
    using write_block_segments [of b "take ?n qs" "drop ?n qs @ rest"] Cons.prems by auto
  obtain bs' where bs': "write_blocks bs (drop ?n qs @ rest) = (bs', rest)"
    "concat (map block_segment bs') = drop ?n qs"
    using Cons.IH [of "drop ?n qs"] Cons.prems by auto
  have "write_block b (qs @ rest) = (b', drop ?n qs @ rest)"
    using b'(1) by (simp add: append.assoc [symmetric] del: append.assoc)
  then show ?case using b' bs' by simp
qed simp

lemma write_content_segments:
  assumes "regular_content c" and "length qs = length (extract_content_segments c)"
  shows "\<exists>c'. write_content c (qs @ rest) = (c', rest) \<and> extract_content_segments c' = qs"
proof (cases c)
  case (JString s)
  then obtain q where "qs = [q]" using assms(2) by (auto simp: length_Suc_conv)
  then show ?thesis by (simp add: JString)
next
  case (JArray bs)
  then show ?thesis using write_blocks_segments [of bs qs rest] assms by auto
qed (use assms(2) in auto)

definition message_segments :: "json \<Rightarrow> string list" where
  "message_segments m =
     (if role_is ''user'' m then
        (case json_get ''content'' m of Some c \<Rightarrow> extract_content_segments c | None \<Rightarrow> []) else [])"

lemma collect_segments_eq:
  "collect_segments ms = (list_ex (role_is ''user'') ms, concat (map message_segments ms))"
  by (induction ms) (auto simp: message_segments_def)

lemma write_message_segments:
  assumes "regular_message m" and "length qs = length (message_segments m)"
  shows "\<exists>m'. write_message m (qs @ rest) = (m', rest) \<and> message_segments m' = qs \<and>
           role_is ''user'' m' = role_is ''user'' m"
proof (cases "role_is ''user'' m")
  case False
  then show ?thesis using assms(2) by (simp add: write_message_def message_segments_def)
next
  case True
  then obtain kvs where m: "m = JObject kvs" by (cases m) (auto simp: role_is_def)
  show ?thesis
  proof (cases "map_of kvs ''content''")
    case None
    then show ?thesis using True assms(2) m by (simp add: write_message_def message_segments_def)
  next
    case (Some c)
    obtain c' where c': "write_content c (qs @ rest) = (c', rest)" "extract_content_segments c' = qs"
      using write_content_segments [of c qs rest] assms True Some m
      by (auto simp: regular_message_def message_segments_def)
    have "role_is ''user'' (JObject (map_replace ''content'' c' kvs))"
      using True Some by (simp add: m role_is_def)
    then show ?thesis using True Some c' m by (simp add: write_message_def message_segments_def)
  qed
qed

lemma write_messages_segments:
  assumes "list_all regular_message ms" and "length qs = length (concat (map message_segments ms))"
  shows "\<exists>ms'. write_messages ms (qs @ rest) = (ms', rest) \<and>
           concat (map message_segments ms') = qs \<and>
           list_ex (role_is ''user'') ms' = list_ex (role_is ''user'') ms"
  using assms
proof (induction ms arbitrary: qs)
  case (Cons m ms)
  let ?n = "length (message_segments m)"
  obtain m' where m': "write_message m (take ?n qs @ drop ?n qs @ rest) = (m', drop ?n qs @ rest)"
    "message_segments m' = take ?n qs" "role_is ''user'' m' = role_is ''user'' m"
    using write_message_segments [of m "take ?n qs" "drop ?n qs @ rest"] Cons.prems by auto
  obtain ms' where ms': "write_messages ms (drop ?n qs @ rest) = (ms', rest)"
    "concat (map message_segments ms') = drop ?n qs"
    "list_ex (role_is ''user'') ms' = list_ex (role_is ''user'') ms"
    using Cons.IH [of "drop ?n qs"] Cons.prems by auto
  have "write_message m (qs @ rest) = (m', drop ?n qs @ rest)"
    using m'(1) by (simp add: append.assoc [symmetric] del: append.assoc)
  then show ?case using m' ms' by simp
qed simp

lemma inject_model_messages [simp]:
  "map_of (inject_model model_id kvs) ''messages'' = map_of kvs ''messages''"
  by (simp add: inject_model_def split: option.splits json.splits)

definition regular_document :: "(string \<times> json) list \<Rightarrow> bool" where
  "regular_document kvs \<longleftrightarrow>
     (case map_of kvs ''messages'' of Some (JArray ms) \<Rightarrow> list_all regular_message ms | _ \<Rightarrow> True)"

definition json_lib_ok :: "inf_lib \<Rightarrow> bool" where
  "json_lib_ok lib \<longleftrightarrow> (\<forall>j s. il_to_string lib j = Some s \<longrightarrow> il_from_str lib s = Some j)"

lemma parse_modified_document:
  assumes "json_lib_ok lib" and "regular_document kvs"
    and "il_from_str lib body = Some (JObject kvs)" and "parse_request lib body hs = Inr p"
    and "length qs = length (pr_payloads p)"
    and "il_to_string lib (modified_document kvs model_id qs) = Some body'"
  shows "\<exists>p'. parse_request lib body' hs = Inr p' \<and> pr_payloads p' = qs"
proof -
  obtain ms where ms: "map_of kvs ''messages'' = Some (JArray ms)"
    and user: "list_ex (role_is ''user'') ms" and p: "pr_payloads p = concat (map message_segments ms)"
    using assms(3,4)
    by (auto simp: parse_request_def is_object_def collect_segments_eq Let_def bind_eq_Some_conv
        split: option.splits if_splits elim!: as_array.elims)
  have "list_all regular_message ms" using assms(2) ms by (simp add: regular_document_def)
  then obtain ms' where ms': "write_messages ms (qs @ []) = (ms', [])"
    "concat (map message_segments ms') = qs" "list_ex (role_is ''user'') ms'"
    using write_messages_segments [of ms qs "[]"] assms(5) p user by auto
  have doc: "modified_document kvs model_id qs =
      JObject (map_replace ''messages'' (JArray ms') (inject_model model_id kvs))"
    using ms ms'(1) by (simp add: modified_document_def Let_def)
  have "il_from_str lib body' = Some (modified_document kvs model_id qs)"
    using assms(1,6) by (simp add: json_lib_ok_def)
  then show ?thesis
    using ms ms'(2,3) by (simp add: parse_request_def doc is_object_def collect_segments_eq)
qed

section \<open>What the router answers\<close>

definition sensitive :: "router_state \<Rightarrow> string list \<Rightarrow> bool" where
  "sensitive st payloads \<longleftrightarrow> (\<exists>p \<in> set payloads. mask st p \<noteq> p)"

lemma list_ex_sensitive:
  "list_ex (\<lambda>(original, masked). original \<noteq> masked) (zip ps (map (mask st) ps)) \<longleftrightarrow> sensitive st ps"
  by (induction ps) (auto simp: sensitive_def)

lemma engine_route_Inr:
  assumes "engine_route lib st payloads = Inr rr"
  obtains s where "select_strategy (rs_config st) (sensitive st payloads) = Some s"
    "rr_model_id rr = act_model_id (strategy_action s)"
    "map_of (cf_models (rs_config st)) (rr_model_id rr) = Some (rr_target_model rr)"
    "mc_enabled (rr_target_model rr)"
    "rr_masked rr = (sensitive st payloads \<and> act_sanitize (strategy_action s) = Some True)"
    "rr_payloads rr = (if rr_masked rr then map (mask st) payloads else payloads)"
proof (cases "select_strategy (rs_config st) (sensitive st payloads)")
  case None
  then show thesis using assms by (simp add: engine_route_def Let_def list_ex_sensitive)
next
  case (Some s)
  obtain credential where "(case map_of (cf_models (rs_config st)) (act_model_id (strategy_action s)) of
        None \<Rightarrow> Inl TargetModelNotFound
      | Some model \<Rightarrow>
          if \<not> mc_enabled model then Inl TargetModelNotFound
          else Inr \<lparr>rr_strategy_id = strategy_id s, rr_target = act_target (strategy_action s),
                    rr_model_id = act_model_id (strategy_action s),
                    rr_payloads = (if sensitive st payloads \<and>
                        (case act_sanitize (strategy_action s) of Some b \<Rightarrow> b | None \<Rightarrow> False)
                      then map (mask st) payloads else payloads),
                    rr_masked = (sensitive st payloads \<and>
                        (case act_sanitize (strategy_action s) of Some b \<Rightarrow> b | None \<Rightarrow> False)),
                    rr_credential = credential, rr_target_model = model\<rparr>) = Inr rr"
    using assms unfolding engine_route_def Let_def list_ex_sensitive Some option.case rbind_eq_Inr by blast
  then show thesis using that [OF Some] by (auto split: option.splits if_splits)
qed

lemma build_modifications_Some:
  assumes "build_modifications lib req format rr = Some ms"
  shows "ms \<noteq> [] \<and> im_target (hd ms) = ModHeader \<and>
    im_key (hd ms) = (if format = Anthropic then ''x-api-key'' else ''authorization'') \<and>
    (\<not> is_header_only (iq_body req) \<and>
       (rr_masked rr \<or> model_field_differs lib (iq_body req) (rr_model_id rr)) \<longrightarrow>
     (\<exists>m \<in> set ms. im_target m = ModBody \<and> build_modified_body lib (iq_body req) rr = Some (im_value m)))"
  using assms
  by (auto simp: build_modifications_def Let_def header_modification_def split: if_splits option.splits)

lemma route_inner_Inr:
  assumes "route_inner lib state req = Inr r"
  obtains st parsed rr ms where "state = Some st"
    "if is_header_only (iq_body req) then parsed = \<lparr>pr_format = OpenAI, pr_payloads = []\<rparr>
     else parse_request lib (iq_body req) (iq_headers req) = Inr parsed"
    "engine_route lib st (pr_payloads parsed) = Inr rr"
    "build_modifications lib req (pr_format parsed) rr = Some ms"
    "r = \<lparr>ir_result = InfModified, ir_modifications = ms\<rparr>"
proof (cases state)
  case None
  then show thesis using assms by (simp add: route_inner_def)
next
  case (Some st)
  then obtain parsed rr where
    parsed: "(if is_header_only (iq_body req) then Inr \<lparr>pr_format = OpenAI, pr_payloads = []\<rparr>
      else case parse_request lib (iq_body req) (iq_headers req) of
             Inl e \<Rightarrow> Inl (UnparseableBody e) | Inr p \<Rightarrow> Inr p) = Inr parsed"
    and rr: "(case engine_route lib st (pr_payloads parsed) of
               Inl e \<Rightarrow> Inl (EngineFailure e) | Inr r \<Rightarrow> Inr r) = Inr rr"
    and ms: "(case build_modifications lib req (pr_format parsed) rr of
            None \<Rightarrow> Inl BuildModifications
          | Some ms \<Rightarrow>
              if ms = [] then Inr \<lparr>ir_result = InfForward, ir_modifications = []\<rparr>
              else Inr \<lparr>ir_result = InfModified, ir_modifications = ms\<rparr>) = Inr r"
    using assms unfolding route_inner_def Some option.case rbind_eq_Inr by blast
  have rr': "engine_route lib st (pr_payloads parsed) = Inr rr" using rr by (auto split: sum.splits)
  obtain ms' where ms': "build_modifications lib req (pr_format parsed) rr = Some ms'"
    using ms by (auto split: option.splits)
  then have "r = \<lparr>ir_result = InfModified, ir_modifications = ms'\<rparr>"
    using ms build_modifications_Some [OF ms'] by simp
  then show thesis using that [OF Some _ rr' ms'] parsed by (auto split: if_splits sum.splits)
qed

text \<open>
  The router fails closed and never forwards as is.  Every answer is either a plain block,
  or a rewrite that starts with the credential header of the request's format, for a strategy that
  the configuration selects and a target model that is configured and enabled.
\<close>

theorem router_blocks_or_rewrites:
  "route lib state req = block_result \<or>
   (\<exists>st (parsed :: parsed_request) rr s. state = Some st \<and> engine_route lib st (pr_payloads parsed) = Inr rr \<and>
      select_strategy (rs_config st) (sensitive st (pr_payloads parsed)) = Some s \<and>
      rr_model_id rr = act_model_id (strategy_action s) \<and>
      map_of (cf_models (rs_config st)) (rr_model_id rr) = Some (rr_target_model rr) \<and>
      mc_enabled (rr_target_model rr) \<and>
      ir_result (route lib state req) = InfModified \<and>
      ir_modifications (route lib state req) \<noteq> [] \<and>
      im_key (hd (ir_modifications (route lib state req))) =
        (if pr_format parsed = Anthropic then ''x-api-key'' else ''authorization''))"
proof (cases "route_inner lib state req")
  case (Inl f)
  then show ?thesis by (simp add: route_def)
next
  case (Inr r)
  then obtain st and parsed :: parsed_request and rr ms where st: "state = Some st"
    and rr: "engine_route lib st (pr_payloads parsed) = Inr rr"
    and ms: "build_modifications lib req (pr_format parsed) rr = Some ms"
    and r: "r = \<lparr>ir_result = InfModified, ir_modifications = ms\<rparr>"
    by (rule route_inner_Inr)
  from rr obtain s where s: "select_strategy (rs_config st) (sensitive st (pr_payloads parsed)) = Some s"
    "rr_model_id rr = act_model_id (strategy_action s)"
    "map_of (cf_models (rs_config st)) (rr_model_id rr) = Some (rr_target_model rr)"
    "mc_enabled (rr_target_model rr)" by (elim engine_route_Inr)
  have answer: "route lib (Some st) req = r" using Inr by (simp add: route_def st)
  have "ms \<noteq> []" "im_key (hd ms) = (if pr_format parsed = Anthropic then ''x-api-key'' else ''authorization'')"
    using build_modifications_Some [OF ms] by blast+
  then show ?thesis
    using st rr s by (intro disjI2 exI [of _ st] exI [of _ parsed] exI [of _ rr] exI [of _ s]) (simp add: answer r)
qed

lemma route_modified:
  assumes "\<not> is_header_only (iq_body req)" and "parse_request lib (iq_body req) (iq_headers req) = Inr p"
    and "sensitive st (pr_payloads p)"
    and "select_strategy (rs_config st) True = Some s" and "act_sanitize (strategy_action s) = Some True"
    and "ir_result (route lib (Some st) req) \<noteq> InfBlock"
  obtains rr m where "m \<in> set (ir_modifications (route lib (Some st) req))" "im_target m = ModBody"
    "rr_payloads rr = map (mask st) (pr_payloads p)" "rr_masked rr"
    "build_modified_body lib (iq_body req) rr = Some (im_value m)"
proof -
  obtain r where r: "route_inner lib (Some st) req = Inr r" and route: "route lib (Some st) req = r"
    using assms(6) by (auto simp: route_def block_result_def split: sum.splits)
  from r obtain rr ms where rr: "engine_route lib st (pr_payloads p) = Inr rr"
    and ms: "build_modifications lib req (pr_format p) rr = Some ms"
    and res: "r = \<lparr>ir_result = InfModified, ir_modifications = ms\<rparr>"
    by (elim route_inner_Inr) (use assms(1,2) in auto)
  from rr have masked: "rr_payloads rr = map (mask st) (pr_payloads p)" "rr_masked rr"
    by (elim engine_route_Inr; use assms(3,4,5) in simp)+
  obtain m where "m \<in> set ms" "im_target m = ModBody"
    "build_modified_body lib (iq_body req) rr = Some (im_value m)"
    using build_modifications_Some [OF ms] assms(1) masked(2) by blast
  moreover have "ir_modifications (route lib (Some st) req) = ms"
    by (simp add: route res)
  ultimately show thesis using that masked by blast
qed

text \<open>
  C19. Sanitized requests carry only masked text.  When the chosen strategy sanitizes, the request
  has sensitive text, and every text block of its user messages has a text: unless the request is
  blocked, the answer replaces the body, and reading the new body gives exactly the masked
  segments, in order.
\<close>

theorem sanitized_body_is_masked:
  assumes "json_lib_ok lib" and "\<not> is_header_only (iq_body req)"
    and "parse_request lib (iq_body req) (iq_headers req) = Inr p"
    and "il_from_str lib (iq_body req) = Some (JObject kvs)" and "regular_document kvs"
    and "sensitive st (pr_payloads p)"
    and "select_strategy (rs_config st) True = Some s" and "act_sanitize (strategy_action s) = Some True"
    and "ir_result (route lib (Some st) req) \<noteq> InfBlock"
  shows "\<exists>m \<in> set (ir_modifications (route lib (Some st) req)). im_target m = ModBody \<and>
           (\<exists>p'. parse_request lib (im_value m) (iq_headers req) = Inr p' \<and>
                 pr_payloads p' = map (mask st) (pr_payloads p))"
proof -
  obtain rr m where m: "m \<in> set (ir_modifications (route lib (Some st) req))" "im_target m = ModBody"
    and rr: "rr_payloads rr = map (mask st) (pr_payloads p)"
    and body: "build_modified_body lib (iq_body req) rr = Some (im_value m)"
    by (rule route_modified [OF assms(2,3,6-9)])
  have "il_to_string lib (modified_document kvs (rr_model_id rr) (rr_payloads rr)) = Some (im_value m)"
    using body assms(4) by (simp add: build_modified_body_def)
  from parse_modified_document [OF assms(1,5,4,3) _ this] rr
  show ?thesis using m by auto
qed

text \<open>
  C20. A text block without a text defeats the masking.  The parser skips such a block, the
  write-back uses up a masked segment for it: the text that follows is sent as it was, although the
  router has detected it, chosen a sanitizing strategy and reports the request as masked.
\<close>

theorem textless_block_defeats_masking:
  fixes secret
  defines "message \<equiv> JObject [(''content'', JArray [JObject [(''type'', JString ''text'')],
                                JObject [(''text'', JString secret), (''type'', JString ''text'')]]),
                             (''role'', JString ''user'')]"
  assumes "json_lib_ok lib" and "\<not> is_header_only (iq_body req)"
    and "il_from_str lib (iq_body req) = Some (JObject [(''messages'', JArray [message])])"
    and "mask st secret \<noteq> secret"
    and "select_strategy (rs_config st) True = Some s" and "act_sanitize (strategy_action s) = Some True"
    and "ir_result (route lib (Some st) req) \<noteq> InfBlock"
  shows "\<exists>m \<in> set (ir_modifications (route lib (Some st) req)). im_target m = ModBody \<and>
           (\<exists>p'. parse_request lib (im_value m) (iq_headers req) = Inr p' \<and> pr_payloads p' = [secret])"
proof -
  have user: "role_is ''user'' message" and segs: "message_segments message = [secret]"
    by (simp_all add: message_def role_is_def message_segments_def block_segment_def is_text_block_def)
  obtain p where p: "parse_request lib (iq_body req) (iq_headers req) = Inr p" "pr_payloads p = [secret]"
    using assms(4) by (auto simp: parse_request_def is_object_def collect_segments_eq user segs)
  have "sensitive st (pr_payloads p)" using assms(5) by (simp add: sensitive_def p(2))
  then obtain rr m where m: "m \<in> set (ir_modifications (route lib (Some st) req))" "im_target m = ModBody"
    and rr': "rr_payloads rr = map (mask st) (pr_payloads p)"
    and body: "build_modified_body lib (iq_body req) rr = Some (im_value m)"
    by (rule route_modified [OF assms(3) p(1) _ assms(6-8)])
  have rr: "rr_payloads rr = [mask st secret]" using rr' p(2) by simp
  let ?obj = "inject_model (rr_model_id rr) [(''messages'', JArray [message])]"
  have "write_messages [message] [mask st secret] = ([message], [])"
    by (simp add: message_def write_message_def role_is_def write_block_def is_text_block_def)
  then have "modified_document [(''messages'', JArray [message])] (rr_model_id rr) (rr_payloads rr) =
      JObject (map_replace ''messages'' (JArray [message]) ?obj)"
    by (simp add: modified_document_def Let_def rr)
  then have "il_to_string lib (JObject (map_replace ''messages'' (JArray [message]) ?obj)) = Some (im_value m)"
    using body assms(4) by (simp add: build_modified_body_def)
  then have "il_from_str lib (im_value m) = Some (JObject (map_replace ''messages'' (JArray [message]) ?obj))"
    using assms(2) by (simp add: json_lib_ok_def)
  then have "parse_request lib (im_value m) (iq_headers req) =
      Inr \<lparr>pr_format = detect_format lib (JObject (map_replace ''messages'' (JArray [message]) ?obj))
                        (iq_headers req), pr_payloads = [secret]\<rparr>"
    by (simp add: parse_request_def is_object_def collect_segments_eq user segs)
  then show ?thesis using m by auto
qed

section \<open>A concrete router\<close>

definition demo_user_message :: "json \<Rightarrow> json" where
  "demo_user_message content = JObject [(''content'', content), (''role'', JString ''user'')]"

definition demo_leaky_content :: json where
  "demo_leaky_content =
     JArray [JObject [(''type'', JString ''text'')],
             JObject [(''text'', JString ''Tel 555''), (''type'', JString ''text'')]]"

definition demo_bodies :: "(json \<times> string) list" where
  "demo_bodies =
     [(JObject [(''messages'', JArray [demo_user_message (JString ''Tel 555'')])], ''plain''),
      (JObject [(''messages'', JArray [demo_user_message (JString ''Tel [PII_phone]'')]),
                (''model'', JString ''m1'')], ''plain, masked''),
      (JObject [(''messages'', JArray [demo_user_message demo_leaky_content])], ''leaky''),
      (JObject [(''messages'', JArray [demo_user_message demo_leaky_content]),
                (''model'', JString ''m1'')], ''leaky, rewritten'')]"

definition demo_inf_lib :: inf_lib where
  "demo_inf_lib =
     \<lparr>il_from_str = map_of (map (\<lambda>(j, s). (s, j)) demo_bodies), il_to_string = map_of demo_bodies,
      il_to_str = Some, il_crypto = demo_crypto\<rparr>"

definition demo_router_state :: router_state where
  "demo_router_state = install demo_regex_crate demo_config"

definition demo_inf_request :: "string \<Rightarrow> inference_request" where
  "demo_inf_request body = \<lparr>iq_headers = [(''host'', ''llm.example'')], iq_body = body\<rparr>"

lemma demo_inf_lib_ok: "json_lib_ok demo_inf_lib"
proof -
  have "json_ok (demo_fs_env (\<lambda>n. True) demo_bodies)"
    by (rule demo_json_ok) (simp_all add: demo_bodies_def)
  then show ?thesis by (simp add: json_ok_def json_lib_ok_def demo_fs_env_def demo_inf_lib_def)
qed

lemma demo_mask: "mask demo_router_state ''Tel 555'' = ''Tel [PII_phone]''"
  using demo_masker_built demo_masker_masks
  by (simp add: mask_def demo_router_state_def install_def)

definition demo_strategy :: inf_strategy where
  "demo_strategy = hd (rp_strategies (cf_routing demo_config))"

lemma demo_selected:
  "select_strategy (rs_config demo_router_state) True = Some demo_strategy"
  "act_sanitize (strategy_action demo_strategy) = Some True"
  by (simp_all add: select_strategy_def find_first_enabled_def demo_router_state_def install_def
      demo_config_def demo_strategy_def eligible_def)

lemma demo_answers:
  "ir_result (route demo_inf_lib (Some demo_router_state) (demo_inf_request ''plain'')) = InfModified"
  "ir_result (route demo_inf_lib (Some demo_router_state) (demo_inf_request ''leaky'')) = InfModified"
  by code_simp+

theorem sanitized_body_is_masked_witness:
  "\<exists>m \<in> set (ir_modifications (route demo_inf_lib (Some demo_router_state) (demo_inf_request ''plain''))).
     im_target m = ModBody \<and>
     (\<exists>p'. parse_request demo_inf_lib (im_value m) [(''host'', ''llm.example'')] = Inr p' \<and>
           pr_payloads p' = [''Tel [PII_phone]''])"
proof -
  let ?req = "demo_inf_request ''plain''"
  have doc: "il_from_str demo_inf_lib (iq_body ?req) =
      Some (JObject [(''messages'', JArray [demo_user_message (JString ''Tel 555'')])])"
    by (simp add: demo_inf_lib_def demo_inf_request_def demo_bodies_def)
  have regular: "regular_document [(''messages'', JArray [demo_user_message (JString ''Tel 555'')])]"
    by (simp add: regular_document_def regular_message_def demo_user_message_def)
  obtain p where p: "parse_request demo_inf_lib (iq_body ?req) (iq_headers ?req) = Inr p"
    "pr_payloads p = [''Tel 555'']"
    using doc by (auto simp: parse_request_def is_object_def demo_user_message_def role_is_def)
  have body: "\<not> is_header_only (iq_body ?req)" by (simp add: is_header_only_def demo_inf_request_def)
  have sens: "sensitive demo_router_state (pr_payloads p)" by (simp add: sensitive_def p(2) demo_mask)
  have "ir_result (route demo_inf_lib (Some demo_router_state) ?req) \<noteq> InfBlock"
    by (simp add: demo_answers)
  from sanitized_body_is_masked [OF demo_inf_lib_ok body p(1) doc regular sens demo_selected this]
  show ?thesis by (simp add: p(2) demo_mask) (simp add: demo_inf_request_def)
qed

theorem textless_block_defeats_masking_witness:
  "\<exists>m \<in> set (ir_modifications (route demo_inf_lib (Some demo_router_state) (demo_inf_request ''leaky''))).
     im_target m = ModBody \<and>
     (\<exists>p'. parse_request demo_inf_lib (im_value m) [(''host'', ''llm.example'')] = Inr p' \<and>
           pr_payloads p' = [''Tel 555''])"
proof -
  let ?req = "demo_inf_request ''leaky''"
  have body: "\<not> is_header_only (iq_body ?req)" by (simp add: is_header_only_def demo_inf_request_def)
  have doc: "il_from_str demo_inf_lib (iq_body ?req) =
      Some (JObject [(''messages'', JArray
        [JObject [(''content'', JArray [JObject [(''type'', JString ''text'')],
                     JObject [(''text'', JString ''Tel 555''), (''type'', JString ''text'')]]),
                  (''role'', JString ''user'')]])])"
    by (simp add: demo_inf_lib_def demo_inf_request_def demo_bodies_def demo_user_message_def
        demo_leaky_content_def)
  have "mask demo_router_state ''Tel 555'' \<noteq> ''Tel 555''" by (simp add: demo_mask)
  moreover have "ir_result (route demo_inf_lib (Some demo_router_state) ?req) \<noteq> InfBlock"
    by (simp add: demo_answers)
  ultimately show ?thesis
    using textless_block_defeats_masking [OF demo_inf_lib_ok body doc _ demo_selected]
    by (simp add: demo_inf_request_def)
qed

end
