(* ===== verification/SecConfig.thy ===== *)
theory SecConfig
  imports RustNet
begin

text \<open>
  The configuration crate of the agent sandbox (\<^verbatim>\<open>plugins/agentsandbox/config/src\<close>): the TOML
  structures the controller reads (\<open>types.rs\<close>), the validating parsers (\<open>parser.rs\<close>) and their
  errors (\<open>error.rs\<close>).  The \<open>toml\<close> crate with the decoders serde derives from the structures is
  the parameter \<open>from_str\<close>: the decoded file, or \<open>None\<close> on a syntax or shape error.
\<close>

section \<open>Structures\<close>

record host_rule_config =
  hrc_type :: string
  hrc_addr :: "string option"
  hrc_context :: "string option"
  hrc_prio :: u32

record target_rule_config =
  trc_method :: string
  trc_path :: string
  trc_action :: string

record binary_rule_config =
  brc_path :: string
  brc_action :: string

record rule_set_config =
  rsc_name :: string
  rsc_host :: host_rule_config
  rsc_targetrules :: "target_rule_config list"
  rsc_binaryrules :: "binary_rule_config list"
  rsc_port :: "u16 option"

record hc_filter_config =
  hcf_default_policy :: string
  hcf_audit_enabled :: bool
  hcf_policy_change_strategy :: string
  hcf_rule_list :: "rule_set_config list"

record model_route =
  mr_container_port :: u16

record capability_rule =
  cap_capabilities :: "string list"
  cap_path_pattern :: "string option"

record filesystem_rule =
  fsr_path_prefix :: string
  fsr_attrs :: string

record network_rule =
  nr_operation :: string
  nr_target :: string
  nr_port :: string
  nr_protocol :: string
  nr_action :: string

record security_policy =
  sp_enforcement_mode :: string
  sp_default_action :: string
  sp_privilege_escalation_rules :: "capability_rule list"
  sp_filesystem_access_rules :: "filesystem_rule list"
  sp_network_rules :: "network_rule list"

record toml_config =
  tc_version :: u32
  tc_proxy :: "hc_filter_config option"
  tc_model_route :: "model_route option"
  tc_security :: "security_policy option"

text \<open>The values serde fills in for absent fields.\<close>

definition default_true :: bool where "default_true = True"
definition default_drain :: string where "default_drain = ''drain''"
definition default_action :: string where "default_action = ''block''"

definition addr_host :: "host_rule_config \<Rightarrow> string option" where
  "addr_host h = hrc_addr h"

record container_id =
  cgroup_id :: u64

definition container_as_key :: "container_id \<Rightarrow> string" where
  "container_as_key c = dec_string (unat (cgroup_id c))"

lemma container_as_key_inj: "container_as_key c = container_as_key d \<Longrightarrow> c = d"
proof -
  assume "container_as_key c = container_as_key d"
  then have "parse_digits 0 (dec_string (unat (cgroup_id c))) =
      parse_digits 0 (dec_string (unat (cgroup_id d)))"
    by (simp add: container_as_key_def)
  then have "cgroup_id c = cgroup_id d" by (simp add: parse_digits_dec word_unat_eq_iff)
  then show "c = d" by (cases c; cases d) simp
qed

section \<open>Errors\<close>

datatype hc_parse_error =
    SyntaxError string
  | MissingField string
  | TypeMismatch string
  | ConflictError string nat nat
  | InvalidConfig string

fun error_type :: "hc_parse_error \<Rightarrow> string" where
  "error_type (SyntaxError _) = ''syntax_error''"
| "error_type (MissingField _) = ''missing_field''"
| "error_type (TypeMismatch _) = ''type_mismatch''"
| "error_type (ConflictError _ _ _) = ''conflict''"
| "error_type (InvalidConfig _) = ''invalid_config''"

section \<open>Parsers\<close>

text \<open>A \<open>for\<close> loop whose body may return an error: the first error wins.\<close>

fun for_each :: "('a \<Rightarrow> 'e + unit) \<Rightarrow> 'a list \<Rightarrow> 'e + unit" where
  "for_each f [] = Inr ()"
| "for_each f (x # xs) = (case f x of Inl e \<Rightarrow> Inl e | Inr _ \<Rightarrow> for_each f xs)"

lemma for_each_ok: "for_each f xs = Inr u \<longleftrightarrow> (\<forall>x \<in> set xs. f x = Inr ())"
  by (induction xs) (auto split: sum.splits)

lemma for_each_then:
  "(case for_each f xs of Inl e \<Rightarrow> Inl e | Inr _ \<Rightarrow> r) = Inr y \<longleftrightarrow>
     (\<forall>x \<in> set xs. f x = Inr ()) \<and> r = Inr y"
proof (cases "for_each f xs")
  case (Inl e)
  then show ?thesis using for_each_ok [of f xs "()"] by auto
next
  case (Inr u)
  then show ?thesis using for_each_ok [of f xs u] by auto
qed

type_synonym toml_decoder = "string \<Rightarrow> toml_config option"

definition parse_toml :: "toml_decoder \<Rightarrow> string \<Rightarrow> hc_parse_error + toml_config" where
  "parse_toml from_str content =
     (case from_str content of None \<Rightarrow> Inl (SyntaxError ''root'') | Some c \<Rightarrow> Inr c)"

definition is_valid_action :: "string \<Rightarrow> bool" where
  "is_valid_action a \<longleftrightarrow> a \<in> {''deny'', ''block'', ''alert'', ''allow''}"

definition some_nonempty :: "string option \<Rightarrow> bool" where
  "some_nonempty x = (case x of None \<Rightarrow> False | Some s \<Rightarrow> s \<noteq> [])"

definition host_ok :: "host_rule_config \<Rightarrow> bool" where
  "host_ok h =
     (if hrc_type h = ''ip'' then some_nonempty (addr_host h)
      else if hrc_type h = ''host'' then some_nonempty (hrc_context h)
      else False)"

definition check_target_rule :: "target_rule_config \<Rightarrow> hc_parse_error + unit" where
  "check_target_rule tr =
     (if trc_method tr = [] \<or> trc_path tr = [] then Inl (MissingField ''proxy'')
      else if \<not> is_valid_action (trc_action tr) then Inl (TypeMismatch ''proxy'')
      else Inr ())"

definition check_binary_rule :: "binary_rule_config \<Rightarrow> hc_parse_error + unit" where
  "check_binary_rule br =
     (if brc_path br = [] then Inl (MissingField ''proxy'')
      else if \<not> is_valid_action (brc_action br) then Inl (TypeMismatch ''proxy'')
      else Inr ())"

definition check_rule_set :: "rule_set_config \<Rightarrow> hc_parse_error + unit" where
  "check_rule_set rs =
     (if rsc_name rs = [] then Inl (MissingField ''proxy'')
      else if \<not> host_ok (rsc_host rs) then Inl (TypeMismatch ''proxy'')
      else (case for_each check_target_rule (rsc_targetrules rs) of
              Inl e \<Rightarrow> Inl e
            | Inr _ \<Rightarrow> for_each check_binary_rule (rsc_binaryrules rs)))"

definition parse_proxy_policy :: "toml_decoder \<Rightarrow> string \<Rightarrow> hc_parse_error + hc_filter_config" where
  "parse_proxy_policy from_str content =
     (case parse_toml from_str content of
        Inl e \<Rightarrow> Inl e
      | Inr config \<Rightarrow>
          (case tc_proxy config of
             None \<Rightarrow> Inl (MissingField ''proxy'')
           | Some fc \<Rightarrow>
               if hcf_default_policy fc \<notin> {''allow'', ''deny'', ''alert''}
               then Inl (TypeMismatch ''proxy'')
               else if hcf_policy_change_strategy fc \<noteq> ''drain'' \<and>
                       hcf_policy_change_strategy fc \<noteq> ''reset''
               then Inl (TypeMismatch ''proxy'')
               else (case for_each check_rule_set (hcf_rule_list fc) of
                       Inl e \<Rightarrow> Inl e
                     | Inr _ \<Rightarrow> Inr fc)))"

definition parse_container_port :: "toml_decoder \<Rightarrow> string \<Rightarrow> hc_parse_error + u16" where
  "parse_container_port from_str content =
     (case parse_toml from_str content of
        Inl e \<Rightarrow> Inl e
      | Inr config \<Rightarrow>
          Inr (case tc_model_route config of None \<Rightarrow> 0 | Some r \<Rightarrow> mr_container_port r))"

definition check_network_rule :: "network_rule \<Rightarrow> hc_parse_error + unit" where
  "check_network_rule r =
     (if nr_action r \<notin> {''allow'', ''block'', ''redirect_to_proxy''}
      then Inl (TypeMismatch ''security'')
      else if nr_action r = ''redirect_to_proxy'' \<and> nr_protocol r \<noteq> ''tcp''
      then Inl (TypeMismatch ''security'')
      else Inr ())"

definition parse_security_policy :: "toml_decoder \<Rightarrow> string \<Rightarrow> hc_parse_error + security_policy" where
  "parse_security_policy from_str content =
     (case parse_toml from_str content of
        Inl e \<Rightarrow> Inl e
      | Inr config \<Rightarrow>
          (case tc_security config of
             None \<Rightarrow> Inl (MissingField ''security'')
           | Some sp \<Rightarrow>
               if sp_enforcement_mode sp \<noteq> ''block'' \<and> sp_enforcement_mode sp \<noteq> ''alert''
               then Inl (TypeMismatch ''security'')
               else (case for_each check_network_rule (sp_network_rules sp) of
                       Inl e \<Rightarrow> Inl e
                     | Inr _ \<Rightarrow> Inr sp)))"

section \<open>What the parsers accept\<close>

definition valid_network_rule :: "network_rule \<Rightarrow> bool" where
  "valid_network_rule r \<longleftrightarrow>
     nr_action r \<in> {''allow'', ''block'', ''redirect_to_proxy''} \<and>
     (nr_action r = ''redirect_to_proxy'' \<longrightarrow> nr_protocol r = ''tcp'')"

lemma check_network_rule_ok: "check_network_rule r = Inr u \<longleftrightarrow> valid_network_rule r"
  by (auto simp: check_network_rule_def valid_network_rule_def)

lemma parse_security_policy_ok:
  "parse_security_policy from_str content = Inr sp \<longleftrightarrow>
     (\<exists>config. from_str content = Some config \<and> tc_security config = Some sp) \<and>
     (sp_enforcement_mode sp = ''block'' \<or> sp_enforcement_mode sp = ''alert'') \<and>
     (\<forall>r \<in> set (sp_network_rules sp). valid_network_rule r)"
  by (auto simp: parse_security_policy_def parse_toml_def for_each_then check_network_rule_ok
      split: option.splits)

definition valid_rule_set :: "rule_set_config \<Rightarrow> bool" where
  "valid_rule_set rs \<longleftrightarrow>
     rsc_name rs \<noteq> [] \<and> host_ok (rsc_host rs) \<and>
     (\<forall>t \<in> set (rsc_targetrules rs).
        trc_method t \<noteq> [] \<and> trc_path t \<noteq> [] \<and> is_valid_action (trc_action t)) \<and>
     (\<forall>b \<in> set (rsc_binaryrules rs). brc_path b \<noteq> [] \<and> is_valid_action (brc_action b))"

lemma check_rule_set_ok: "check_rule_set rs = Inr u \<longleftrightarrow> valid_rule_set rs"
proof -
  have "check_target_rule t = Inr () \<longleftrightarrow>
      trc_method t \<noteq> [] \<and> trc_path t \<noteq> [] \<and> is_valid_action (trc_action t)" for t
    by (auto simp: check_target_rule_def)
  moreover have "check_binary_rule b = Inr () \<longleftrightarrow>
      brc_path b \<noteq> [] \<and> is_valid_action (brc_action b)" for b
    by (auto simp: check_binary_rule_def)
  ultimately show ?thesis
    by (auto simp: check_rule_set_def valid_rule_set_def for_each_then for_each_ok)
qed

lemma parse_proxy_policy_ok:
  "parse_proxy_policy from_str content = Inr fc \<longleftrightarrow>
     (\<exists>config. from_str content = Some config \<and> tc_proxy config = Some fc) \<and>
     hcf_default_policy fc \<in> {''allow'', ''deny'', ''alert''} \<and>
     hcf_policy_change_strategy fc \<in> {''drain'', ''reset''} \<and>
     (\<forall>rs \<in> set (hcf_rule_list fc). valid_rule_set rs)"
  by (auto simp: parse_proxy_policy_def parse_toml_def for_each_then check_rule_set_ok
      split: option.splits)

end
