(* ===== verification/PolicyWire.thy ===== *)
theory PolicyWire
  imports SecConfig Facade InfConfig
begin

text \<open>
  The policy messages between the controller and the proxy process.  The controller serialises its
  own \<open>FilterConfig\<close> (\<^verbatim>\<open>config/src/types.rs\<close>) into the payload of a management message; the proxy
  process (\<^verbatim>\<open>proxy_proc/src/config_receiver.rs\<close>) decodes the payload with the proxy's \<open>FilterConfig\<close>
  (\<^verbatim>\<open>proxy/src/model.rs\<close>) and hands it to the facade.

  The encoders and decoders are the ones the serde attributes on the two sets of structures
  prescribe: names, renames, aliases, defaults, fields skipped when absent; an unknown field is
  ignored, a structure may also be read from an array of its fields in order, a unit variant from
  its name or from an object that maps its name to null.  Objects list their entries in field order
  (lookups do not see it).  JSON text, and the texts of serde's errors, are the parameter \<open>json_lib\<close>.
\<close>

section \<open>Encoding: the controller's structures\<close>

definition jword :: "'w::len word \<Rightarrow> json" where
  "jword w = JNumber (JInt (uint w))"

text \<open>A field with \<open>skip_serializing_if = "Option::is_none"\<close>.\<close>

definition opt_field :: "string \<Rightarrow> ('a \<Rightarrow> json) \<Rightarrow> 'a option \<Rightarrow> (string \<times> json) list" where
  "opt_field k f x = (case x of None \<Rightarrow> [] | Some v \<Rightarrow> [(k, f v)])"

definition host_rule_config_json :: "host_rule_config \<Rightarrow> json" where
  "host_rule_config_json h =
     JObject ([(''type'', JString (hrc_type h))] @ opt_field ''addr'' JString (hrc_addr h) @
              opt_field ''context'' JString (hrc_context h) @ [(''prio'', jword (hrc_prio h))])"

definition target_rule_config_json :: "target_rule_config \<Rightarrow> json" where
  "target_rule_config_json t =
     JObject [(''method'', JString (trc_method t)), (''path'', JString (trc_path t)),
              (''action'', JString (trc_action t))]"

definition binary_rule_config_json :: "binary_rule_config \<Rightarrow> json" where
  "binary_rule_config_json b =
     JObject [(''path'', JString (brc_path b)), (''action'', JString (brc_action b))]"

definition rule_set_config_json :: "rule_set_config \<Rightarrow> json" where
  "rule_set_config_json rs =
     JObject ([(''name'', JString (rsc_name rs)), (''host'', host_rule_config_json (rsc_host rs)),
               (''targetrules'', JArray (map target_rule_config_json (rsc_targetrules rs))),
               (''binaryrules'', JArray (map binary_rule_config_json (rsc_binaryrules rs)))] @
              opt_field ''port'' jword (rsc_port rs))"

text \<open>The name under which the rules travel is an argument: the code's is \<open>ruleset\<close>.\<close>

definition filter_config_json_as :: "string \<Rightarrow> hc_filter_config \<Rightarrow> json" where
  "filter_config_json_as rules_key fc =
     JObject [(''default_policy'', JString (hcf_default_policy fc)),
              (''audit_enabled'', JBool (hcf_audit_enabled fc)),
              (''policy_change_strategy'', JString (hcf_policy_change_strategy fc)),
              (rules_key, JArray (map rule_set_config_json (hcf_rule_list fc)))]"

definition hc_filter_config_json :: "hc_filter_config \<Rightarrow> json" where
  "hc_filter_config_json = filter_config_json_as ''ruleset''"

definition container_id_json :: "container_id \<Rightarrow> json" where
  "container_id_json c = JObject [(''cgroup_id'', jword (cgroup_id c))]"

section \<open>Decoding: the proxy's structures\<close>

text \<open>The fields of a structure; \<open>None\<close> when the value cannot be one.\<close>

definition struct_fields :: "string list \<Rightarrow> json \<Rightarrow> (string \<Rightarrow> json option) option" where
  "struct_fields names j =
     (case j of
        JObject kvs \<Rightarrow> Some (map_of kvs)
      | JArray vs \<Rightarrow> if length vs \<le> length names then Some (map_of (zip names vs)) else None
      | _ \<Rightarrow> None)"

definition required :: "(json \<Rightarrow> 'a option) \<Rightarrow> json option \<Rightarrow> 'a option" where
  "required d f = (case f of None \<Rightarrow> None | Some j \<Rightarrow> d j)"

definition defaulted :: "'a \<Rightarrow> (json \<Rightarrow> 'a option) \<Rightarrow> json option \<Rightarrow> 'a option" where
  "defaulted x d f = (case f of None \<Rightarrow> Some x | Some j \<Rightarrow> d j)"

definition option_of_json :: "(json \<Rightarrow> 'a option) \<Rightarrow> json \<Rightarrow> 'a option option" where
  "option_of_json d j = (if j = JNull then Some None else map_option Some (d j))"

definition list_of_json :: "(json \<Rightarrow> 'a option) \<Rightarrow> json \<Rightarrow> 'a list option" where
  "list_of_json d j = (case j of JArray vs \<Rightarrow> those (map d vs) | _ \<Rightarrow> None)"

definition word_of_json :: "json \<Rightarrow> 'w::len word option" where
  "word_of_json j =
     (case j of
        JNumber (JInt i) \<Rightarrow> if 0 \<le> i \<and> i < 2 ^ LENGTH('w) then Some (word_of_int i) else None
      | _ \<Rightarrow> None)"

fun variant_of_json :: "json \<Rightarrow> string option" where
  "variant_of_json (JString s) = Some s"
| "variant_of_json (JObject [(k, JNull)]) = Some k"
| "variant_of_json _ = None"

definition policy_names :: "(string \<times> policy) list" where
  "policy_names = [(''allow'', PolicyAllow), (''deny'', PolicyDeny), (''alert'', PolicyAlert)]"

definition policy_of_json :: "json \<Rightarrow> policy option" where
  "policy_of_json j = Option.bind (variant_of_json j) (map_of policy_names)"

definition rule_action_names :: "(string \<times> rule_action) list" where
  "rule_action_names =
     [(''deny'', RuleDeny), (''block'', RuleDeny), (''alert'', RuleAlert), (''allow'', RuleAllow)]"

definition rule_action_of_json :: "json \<Rightarrow> rule_action option" where
  "rule_action_of_json j = Option.bind (variant_of_json j) (map_of rule_action_names)"

definition host_type_names :: "(string \<times> host_type) list" where
  "host_type_names = [(''ip'', HostIp), (''host'', HostName)]"

definition host_type_of_json :: "json \<Rightarrow> host_type option" where
  "host_type_of_json j = Option.bind (variant_of_json j) (map_of host_type_names)"

definition host_rule_of_json :: "json \<Rightarrow> host_rule option" where
  "host_rule_of_json j =
     Option.bind (struct_fields [''type'', ''addr'', ''context'', ''prio''] j) (\<lambda>f.
     Option.bind (required host_type_of_json (f ''type'')) (\<lambda>ty.
     Option.bind (defaulted None (option_of_json as_str) (f ''addr'')) (\<lambda>addr.
     Option.bind (defaulted None (option_of_json as_str) (f ''context'')) (\<lambda>ctx.
     Option.bind (required word_of_json (f ''prio'')) (\<lambda>prio.
     Some \<lparr>host_type_of = ty, host_addr = addr, host_context = ctx, host_prio = prio\<rparr>)))))"

definition target_rule_of_json :: "json \<Rightarrow> target_rule option" where
  "target_rule_of_json j =
     Option.bind (struct_fields [''method'', ''path'', ''action''] j) (\<lambda>f.
     Option.bind (required as_str (f ''method'')) (\<lambda>m.
     Option.bind (required as_str (f ''path'')) (\<lambda>p.
     Option.bind (required rule_action_of_json (f ''action'')) (\<lambda>a.
     Some \<lparr>target_method = m, target_path = p, target_action = a\<rparr>))))"

definition binary_rule_of_json :: "json \<Rightarrow> binary_rule option" where
  "binary_rule_of_json j =
     Option.bind (struct_fields [''path'', ''action''] j) (\<lambda>f.
     Option.bind (required as_str (f ''path'')) (\<lambda>p.
     Option.bind (required rule_action_of_json (f ''action'')) (\<lambda>a.
     Some \<lparr>binary_rule_path = p, binary_action = a\<rparr>)))"

definition rule_set_of_json :: "json \<Rightarrow> rule_set option" where
  "rule_set_of_json j =
     Option.bind (struct_fields
       [''name'', ''rule_id'', ''host'', ''targetrules'', ''binaryrules'', ''port''] j) (\<lambda>f.
     Option.bind (required as_str (f ''name'')) (\<lambda>name.
     Option.bind (defaulted None (option_of_json as_str) (f ''rule_id'')) (\<lambda>rid.
     Option.bind (required host_rule_of_json (f ''host'')) (\<lambda>h.
     Option.bind (defaulted [] (list_of_json target_rule_of_json) (f ''targetrules'')) (\<lambda>trs.
     Option.bind (defaulted [] (list_of_json binary_rule_of_json) (f ''binaryrules'')) (\<lambda>brs.
     Option.bind (defaulted None (option_of_json word_of_json) (f ''port'')) (\<lambda>port.
     Some \<lparr>rs_name = name, rs_rule_id = rid, rs_host = h, rs_targetrules = trs,
           rs_binaryrules = brs, rs_port = port\<rparr>)))))))"

definition filter_config_of_json :: "json \<Rightarrow> filter_config option" where
  "filter_config_of_json j =
     Option.bind (struct_fields [''default_policy'', ''rule_list''] j) (\<lambda>f.
     Option.bind (required policy_of_json (f ''default_policy'')) (\<lambda>p.
     Option.bind (defaulted [] (list_of_json rule_set_of_json) (f ''rule_list'')) (\<lambda>rules.
     Some \<lparr>default_policy = p, rule_list = rules\<rparr>)))"

definition container_id_of_json :: "json \<Rightarrow> container_id option" where
  "container_id_of_json j =
     Option.bind (struct_fields [''cgroup_id''] j) (\<lambda>f.
     map_option (\<lambda>c. \<lparr>cgroup_id = c\<rparr>) (required word_of_json (f ''cgroup_id'')))"


section \<open>Messages\<close>

definition MSG_REFRESH_POLICY :: string where "MSG_REFRESH_POLICY = ''refresh_policy''"
definition MSG_REMOVE_CONTAINER :: string where "MSG_REMOVE_CONTAINER = ''remove_container''"
definition MSG_SET_API_KEY :: string where "MSG_SET_API_KEY = ''set_api_key''"

record management_message =
  mm_msg_type :: string
  mm_payload :: json
  mm_request_id :: string

record management_response =
  mr_status :: string
  mr_detail :: "json option"
  mr_request_id :: string

definition management_message_json :: "management_message \<Rightarrow> json" where
  "management_message_json m =
     JObject [(''msg_type'', JString (mm_msg_type m)), (''payload'', mm_payload m),
              (''request_id'', JString (mm_request_id m))]"

definition management_message_of_json :: "json \<Rightarrow> management_message option" where
  "management_message_of_json j =
     Option.bind (struct_fields [''msg_type'', ''payload'', ''request_id''] j) (\<lambda>f.
     Option.bind (required as_str (f ''msg_type'')) (\<lambda>ty.
     Option.bind (required Some (f ''payload'')) (\<lambda>payload.
     Option.bind (required as_str (f ''request_id'')) (\<lambda>rid.
     Some \<lparr>mm_msg_type = ty, mm_payload = payload, mm_request_id = rid\<rparr>))))"

definition management_response_json :: "management_response \<Rightarrow> json" where
  "management_response_json r =
     JObject [(''status'', JString (mr_status r)),
              (''detail'', case mr_detail r of None \<Rightarrow> JNull | Some d \<Rightarrow> d),
              (''request_id'', JString (mr_request_id r))]"

text \<open>A field of type \<open>Option<Value>\<close> without \<open>default\<close> is still absent-tolerant; null is \<open>None\<close>.\<close>

definition management_response_of_json :: "json \<Rightarrow> management_response option" where
  "management_response_of_json j =
     Option.bind (struct_fields [''status'', ''detail'', ''request_id''] j) (\<lambda>f.
     Option.bind (required as_str (f ''status'')) (\<lambda>st.
     Option.bind (defaulted None (option_of_json Some) (f ''detail'')) (\<lambda>d.
     Option.bind (required as_str (f ''request_id'')) (\<lambda>rid.
     Some \<lparr>mr_status = st, mr_detail = d, mr_request_id = rid\<rparr>))))"

record refresh_policy_payload =
  rp_container_id :: container_id
  rp_filter_config :: filter_config

definition refresh_policy_payload_of_json :: "json \<Rightarrow> refresh_policy_payload option" where
  "refresh_policy_payload_of_json j =
     Option.bind (struct_fields [''container_id'', ''filter_config''] j) (\<lambda>f.
     Option.bind (required container_id_of_json (f ''container_id'')) (\<lambda>c.
     Option.bind (required filter_config_of_json (f ''filter_config'')) (\<lambda>fc.
     Some \<lparr>rp_container_id = c, rp_filter_config = fc\<rparr>)))"

definition remove_container_payload_of_json :: "json \<Rightarrow> container_id option" where
  "remove_container_payload_of_json j =
     Option.bind (struct_fields [''container_id''] j) (\<lambda>f. required container_id_of_json (f ''container_id''))"

definition api_key_item_of_json :: "json \<Rightarrow> api_key_item option" where
  "api_key_item_of_json j =
     Option.bind (struct_fields [''model_id'', ''api_key''] j) (\<lambda>f.
     Option.bind (required as_str (f ''model_id'')) (\<lambda>m.
     Option.bind (required as_str (f ''api_key'')) (\<lambda>k.
     Some \<lparr>key_model_id = m, key_value = k\<rparr>)))"

definition api_key_request_of_json :: "json \<Rightarrow> api_key_request option" where
  "api_key_request_of_json j =
     Option.bind (struct_fields [''action'', ''items''] j) (\<lambda>f.
     Option.bind (required (\<lambda>a. Option.bind (variant_of_json a)
        (map_of [(''set'', KeySet), (''delete'', KeyDelete)])) (f ''action'')) (\<lambda>act.
     Option.bind (defaulted [] (list_of_json api_key_item_of_json) (f ''items'')) (\<lambda>items.
     Some \<lparr>key_action = act, key_items = items\<rparr>)))"

section \<open>The receiver in the proxy process\<close>

record json_lib =
  jl_print :: "json \<Rightarrow> bytes"
  jl_parse :: "bytes \<Rightarrow> string + json"
  jl_shape_error :: "json \<Rightarrow> string"

record proc_env =
  pe_json :: json_lib
  pe_pki :: pki
  pe_ca :: "ca_cert option"
  pe_getenv :: "string \<Rightarrow> string option"
  pe_uds_api_key :: "string \<Rightarrow> api_key_request \<Rightarrow> unit option"
  pe_apply_api_key :: "api_key_request \<Rightarrow> api_key_error + unit"

fun config_error_debug :: "config_error \<Rightarrow> string" where
  "config_error_debug FormatError = ''FormatError''"
| "config_error_debug NotFoundError = ''NotFoundError''"

definition api_key_error_debug :: "api_key_error \<Rightarrow> string" where
  "api_key_error_debug e =
     (case e of
        ApiKeyInvalid \<Rightarrow> ''Invalid'' | ApiKeyDelivery \<Rightarrow> ''Delivery''
      | ApiKeyNotInitialized \<Rightarrow> ''NotInitialized'' | ApiKeyModelNotFound \<Rightarrow> ''ModelNotFound''
      | ApiKeyCrypto \<Rightarrow> ''Crypto'' | ApiKeyStorage \<Rightarrow> ''Storage'')"

definition error_response :: "string \<Rightarrow> string \<Rightarrow> management_response" where
  "error_response what rid =
     \<lparr>mr_status = ''error'', mr_detail = Some (JObject [(''error'', JString what)]), mr_request_id = rid\<rparr>"

definition handle_refresh_policy ::
  "proc_env \<Rightarrow> management_message \<Rightarrow> facade_state \<Rightarrow> management_response \<times> facade_state" where
  "handle_refresh_policy e msg s =
     (case refresh_policy_payload_of_json (mm_payload msg) of
        None \<Rightarrow>
          (error_response (''payload: '' @ jl_shape_error (pe_json e) (mm_payload msg)) (mm_request_id msg), s)
      | Some payload \<Rightarrow>
          let cid = container_as_key (rp_container_id payload);
              s1 = (case pe_ca e of None \<Rightarrow> s | Some ca \<Rightarrow> snd (facade_set_container_ca (pe_pki e) cid ca s))
          in (case facade_set_container_config cid (rp_filter_config payload) s1 of
                (Inr _, s2) \<Rightarrow>
                  (\<lparr>mr_status = ''ok'',
                    mr_detail = Some (JObject [(''container_id'', container_id_json (rp_container_id payload))]),
                    mr_request_id = mm_request_id msg\<rparr>, s2)
              | (Inl err, s2) \<Rightarrow>
                  (error_response (''set_container_config: '' @ config_error_debug err) (mm_request_id msg), s2)))"

definition handle_remove_container ::
  "proc_env \<Rightarrow> management_message \<Rightarrow> facade_state \<Rightarrow> management_response \<times> facade_state" where
  "handle_remove_container e msg s =
     (case remove_container_payload_of_json (mm_payload msg) of
        None \<Rightarrow>
          (error_response (''payload: '' @ jl_shape_error (pe_json e) (mm_payload msg)) (mm_request_id msg), s)
      | Some c \<Rightarrow>
          (case facade_remove_container_policy (container_as_key c) s of
             (Inr _, s') \<Rightarrow>
               (\<lparr>mr_status = ''ok'', mr_detail = Some (JObject [(''container_id'', container_id_json c)]),
                 mr_request_id = mm_request_id msg\<rparr>, s')
           | (Inl _, s') \<Rightarrow>
               (\<lparr>mr_status = ''ok'',
                 mr_detail = Some (JObject [(''container_id'', container_id_json c),
                                            (''note'', JString ''already removed'')]),
                 mr_request_id = mm_request_id msg\<rparr>, s')))"

definition handle_set_api_key :: "proc_env \<Rightarrow> management_message \<Rightarrow> management_response" where
  "handle_set_api_key e msg =
     (case api_key_request_of_json (mm_payload msg) of
        None \<Rightarrow>
          error_response (''payload: '' @ jl_shape_error (pe_json e) (mm_payload msg)) (mm_request_id msg)
      | Some req \<Rightarrow>
          (case set_api_key (pe_getenv e) (pe_uds_api_key e) (pe_apply_api_key e) req of
             Inr _ \<Rightarrow> \<lparr>mr_status = ''ok'', mr_detail = None, mr_request_id = mm_request_id msg\<rparr>
           | Inl err \<Rightarrow>
               error_response (''set_api_key: '' @ api_key_error_debug err) (mm_request_id msg)))"

definition handle_message ::
  "proc_env \<Rightarrow> management_message \<Rightarrow> facade_state \<Rightarrow> management_response \<times> facade_state" where
  "handle_message e msg s =
     (if mm_msg_type msg = MSG_REFRESH_POLICY then handle_refresh_policy e msg s
      else if mm_msg_type msg = MSG_REMOVE_CONTAINER then handle_remove_container e msg s
      else if mm_msg_type msg = MSG_SET_API_KEY then (handle_set_api_key e msg, s)
      else (error_response (''unknown msg_type: '' @ mm_msg_type msg) (mm_request_id msg), s))"

text \<open>One connection: the bytes read to the end, the bytes answered.\<close>

definition handle_connection :: "proc_env \<Rightarrow> bytes \<Rightarrow> facade_state \<Rightarrow> bytes \<times> facade_state" where
  "handle_connection e buf s =
     (case (case jl_parse (pe_json e) buf of
              Inl err \<Rightarrow> Inl err
            | Inr j \<Rightarrow> (case management_message_of_json j of
                          None \<Rightarrow> Inl (jl_shape_error (pe_json e) j)
                        | Some m \<Rightarrow> Inr m)) of
        Inl err \<Rightarrow>
          (jl_print (pe_json e) (management_response_json (error_response (''parse: '' @ err) [])), s)
      | Inr msg \<Rightarrow>
          (case handle_message e msg s of
             (resp, s') \<Rightarrow> (jl_print (pe_json e) (management_response_json resp), s')))"


section \<open>What the translation should be\<close>

definition action_named :: "string \<Rightarrow> rule_action" where
  "action_named a =
     (if a = ''deny'' \<or> a = ''block'' then RuleDeny else if a = ''alert'' then RuleAlert else RuleAllow)"

definition policy_named :: "string \<Rightarrow> policy" where
  "policy_named p =
     (if p = ''allow'' then PolicyAllow else if p = ''alert'' then PolicyAlert else PolicyDeny)"

definition translate_rule_set :: "rule_set_config \<Rightarrow> rule_set" where
  "translate_rule_set rs =
     \<lparr>rs_name = rsc_name rs, rs_rule_id = None,
      rs_host = \<lparr>host_type_of = (if hrc_type (rsc_host rs) = ''ip'' then HostIp else HostName),
                 host_addr = hrc_addr (rsc_host rs), host_context = hrc_context (rsc_host rs),
                 host_prio = hrc_prio (rsc_host rs)\<rparr>,
      rs_targetrules = map (\<lambda>t. \<lparr>target_method = trc_method t, target_path = trc_path t,
                                 target_action = action_named (trc_action t)\<rparr>) (rsc_targetrules rs),
      rs_binaryrules = map (\<lambda>b. \<lparr>binary_rule_path = brc_path b,
                                 binary_action = action_named (brc_action b)\<rparr>) (rsc_binaryrules rs),
      rs_port = rsc_port rs\<rparr>"

named_theorems wire \<open>decoding of encoded values\<close>

lemma word_of_jword [wire]: "word_of_json (jword w) = Some w"
  using uint_lt2p [of w] by (simp add: word_of_json_def jword_def)

lemma opt_str [wire]: "option_of_json as_str (JString s) = Some (Some s)"
  by (simp add: option_of_json_def)

lemma opt_word [wire]: "option_of_json word_of_json (jword w) = Some (Some w)"
  using word_of_jword [of w] by (simp add: option_of_json_def jword_def)

lemma fields_object [wire]: "struct_fields names (JObject kvs) = Some (map_of kvs)"
  by (simp add: struct_fields_def)

lemma required_defaulted [wire]:
  "required d (Some j) = d j" "defaulted x d (Some j) = d j" "defaulted x d None = Some x"
  by (simp_all add: required_def defaulted_def)

lemma those_map: "(\<And>x. x \<in> set xs \<Longrightarrow> d (f x) = Some (g x)) \<Longrightarrow> those (map (\<lambda>x. d (f x)) xs) = Some (map g xs)"
  by (induction xs) auto

lemma list_of_array:
  "(\<And>x. x \<in> set xs \<Longrightarrow> d (f x) = Some (g x)) \<Longrightarrow> list_of_json d (JArray (map f xs)) = Some (map g xs)"
  by (simp add: list_of_json_def those_map comp_def)

lemma rule_action_wire [wire]: "is_valid_action a \<Longrightarrow> rule_action_of_json (JString a) = Some (action_named a)"
  by (auto simp: is_valid_action_def rule_action_of_json_def rule_action_names_def action_named_def)

lemma policy_wire [wire]:
  "p \<in> {''allow'', ''deny'', ''alert''} \<Longrightarrow> policy_of_json (JString p) = Some (policy_named p)"
  by (auto simp: policy_of_json_def policy_names_def policy_named_def)

lemma host_wire [wire]:
  assumes "host_ok h"
  shows "host_rule_of_json (host_rule_config_json h) =
    Some \<lparr>host_type_of = (if hrc_type h = ''ip'' then HostIp else HostName), host_addr = hrc_addr h,
          host_context = hrc_context h, host_prio = hrc_prio h\<rparr>"
proof -
  from assms have "hrc_type h = ''ip'' \<or> hrc_type h = ''host''" by (auto simp: host_ok_def split: if_splits)
  then have "host_type_of_json (JString (hrc_type h)) = Some (if hrc_type h = ''ip'' then HostIp else HostName)"
    by (auto simp: host_type_of_json_def host_type_names_def)
  then show ?thesis
    by (cases "hrc_addr h"; cases "hrc_context h")
       (simp_all add: host_rule_of_json_def host_rule_config_json_def opt_field_def wire)
qed

lemma rule_set_wire [wire]:
  assumes "valid_rule_set rs"
  shows "rule_set_of_json (rule_set_config_json rs) = Some (translate_rule_set rs)"
proof -
  have "target_rule_of_json (target_rule_config_json t) =
      Some \<lparr>target_method = trc_method t, target_path = trc_path t, target_action = action_named (trc_action t)\<rparr>"
    if "is_valid_action (trc_action t)" for t
    using that by (simp add: target_rule_of_json_def target_rule_config_json_def wire)
  then have t: "list_of_json target_rule_of_json (JArray (map target_rule_config_json (rsc_targetrules rs))) =
      Some (map (\<lambda>t. \<lparr>target_method = trc_method t, target_path = trc_path t,
                      target_action = action_named (trc_action t)\<rparr>) (rsc_targetrules rs))"
    using assms by (intro list_of_array) (auto simp: valid_rule_set_def)
  have "binary_rule_of_json (binary_rule_config_json b) =
      Some \<lparr>binary_rule_path = brc_path b, binary_action = action_named (brc_action b)\<rparr>"
    if "is_valid_action (brc_action b)" for b
    using that by (simp add: binary_rule_of_json_def binary_rule_config_json_def wire)
  then have b: "list_of_json binary_rule_of_json (JArray (map binary_rule_config_json (rsc_binaryrules rs))) =
      Some (map (\<lambda>b. \<lparr>binary_rule_path = brc_path b, binary_action = action_named (brc_action b)\<rparr>)
             (rsc_binaryrules rs))"
    using assms by (intro list_of_array) (auto simp: valid_rule_set_def)
  from assms have "host_ok (rsc_host rs)" by (simp add: valid_rule_set_def)
  with t b show ?thesis
    by (cases "rsc_port rs")
       (simp_all add: rule_set_of_json_def rule_set_config_json_def opt_field_def translate_rule_set_def wire)
qed

definition valid_policy :: "hc_filter_config \<Rightarrow> bool" where
  "valid_policy fc \<longleftrightarrow>
     hcf_default_policy fc \<in> {''allow'', ''deny'', ''alert''} \<and> (\<forall>rs \<in> set (hcf_rule_list fc). valid_rule_set rs)"

lemma parsed_policy_valid: "parse_proxy_policy from_str content = Inr fc \<Longrightarrow> valid_policy fc"
  by (simp add: parse_proxy_policy_ok valid_policy_def)

lemma policy_wire_rules:
  assumes "valid_policy fc" "rules_key \<notin> {''default_policy'', ''audit_enabled'', ''policy_change_strategy''}"
  shows "filter_config_of_json (filter_config_json_as rules_key fc) =
    Some \<lparr>default_policy = policy_named (hcf_default_policy fc),
          rule_list = (if rules_key = ''rule_list'' then map translate_rule_set (hcf_rule_list fc) else [])\<rparr>"
proof -
  have "list_of_json rule_set_of_json (JArray (map rule_set_config_json (hcf_rule_list fc))) =
      Some (map translate_rule_set (hcf_rule_list fc))"
    using assms by (intro list_of_array) (simp add: valid_policy_def wire)
  with assms show ?thesis
    by (auto simp: filter_config_of_json_def filter_config_json_as_def valid_policy_def wire)
qed

end
