(* ===== verification/SecCompile.thy ===== *)
theory SecCompile
  imports SecConfig
begin

text \<open>
  The compiler from a security policy to the fixed-size structures the kernel programs read
  (\<^verbatim>\<open>security/src/ebpf/mod.rs\<close>, first half): flow keys, the policy summary, capability, filesystem
  and network rules, and the string parsers behind them.  Arrays of the code are lists of the
  array's length; a slice or index out of range (a panic) and a failed \<open>debug_assert\<close> are \<open>None\<close>.
\<close>

section \<open>Constants\<close>

definition ENFORCEMENT_MODE_BLOCK :: u8 where "ENFORCEMENT_MODE_BLOCK = 0"
definition ENFORCEMENT_MODE_ALERT :: u8 where "ENFORCEMENT_MODE_ALERT = 1"

definition MAX_CAP_PATH_RULES :: nat where "MAX_CAP_PATH_RULES = 32"
definition MAX_FS_PATH_RULES :: nat where "MAX_FS_PATH_RULES = 32"
definition MAX_NETWORK_RULES :: nat where "MAX_NETWORK_RULES = 32"
definition MAX_PATH_PATTERN_LEN :: nat where "MAX_PATH_PATTERN_LEN = 256"

definition PATH_MATCH_EXACT :: u8 where "PATH_MATCH_EXACT = 0"
definition PATH_MATCH_PREFIX :: u8 where "PATH_MATCH_PREFIX = 1"

definition FS_PERM_READ :: u8 where "FS_PERM_READ = 1"
definition FS_PERM_WRITE :: u8 where "FS_PERM_WRITE = 2"
definition FS_PERM_EXEC :: u8 where "FS_PERM_EXEC = 4"

definition NET_ACTION_ALLOW :: u8 where "NET_ACTION_ALLOW = 0"
definition NET_ACTION_BLOCK :: u8 where "NET_ACTION_BLOCK = 1"
definition NET_ACTION_REDIRECT :: u8 where "NET_ACTION_REDIRECT = 2"

definition NET_PROTOCOL_ANY :: u8 where "NET_PROTOCOL_ANY = 0"
definition NET_PROTOCOL_TCP :: u8 where "NET_PROTOCOL_TCP = 6"
definition NET_PROTOCOL_UDP :: u8 where "NET_PROTOCOL_UDP = 17"

definition AF_INET :: u8 where "AF_INET = 2"
definition AF_INET6 :: u8 where "AF_INET6 = 10"

lemmas bpf_consts =
  ENFORCEMENT_MODE_BLOCK_def ENFORCEMENT_MODE_ALERT_def MAX_CAP_PATH_RULES_def
  MAX_FS_PATH_RULES_def MAX_NETWORK_RULES_def MAX_PATH_PATTERN_LEN_def PATH_MATCH_EXACT_def
  PATH_MATCH_PREFIX_def FS_PERM_READ_def FS_PERM_WRITE_def FS_PERM_EXEC_def NET_ACTION_ALLOW_def
  NET_ACTION_BLOCK_def NET_ACTION_REDIRECT_def NET_PROTOCOL_ANY_def NET_PROTOCOL_TCP_def
  NET_PROTOCOL_UDP_def

section \<open>Errors\<close>

datatype ebpf_error =
    LoadError string
  | MapError string
  | RingBufferError string
  | NotFoundError
  | NotLoadedError

section \<open>Flow keys\<close>

record flow_key =
  fk_family :: u8
  fk_protocol :: u8
  fk_src_ip :: bytes
  fk_dst_ip :: bytes
  fk_src_port :: u16
  fk_dst_port :: u16

definition from_ipv4 :: "bytes \<Rightarrow> u16 \<Rightarrow> bytes \<Rightarrow> u16 \<Rightarrow> u8 \<Rightarrow> flow_key" where
  "from_ipv4 src_ip src_port dst_ip dst_port protocol =
     \<lparr>fk_family = AF_INET, fk_protocol = protocol,
      fk_src_ip = src_ip @ replicate 12 0, fk_dst_ip = dst_ip @ replicate 12 0,
      fk_src_port = src_port, fk_dst_port = dst_port\<rparr>"

definition from_ipv6 :: "bytes \<Rightarrow> u16 \<Rightarrow> bytes \<Rightarrow> u16 \<Rightarrow> u8 \<Rightarrow> flow_key" where
  "from_ipv6 src_ip src_port dst_ip dst_port protocol =
     \<lparr>fk_family = AF_INET6, fk_protocol = protocol, fk_src_ip = src_ip, fk_dst_ip = dst_ip,
      fk_src_port = src_port, fk_dst_port = dst_port\<rparr>"

section \<open>Path patterns\<close>

definition compile_glob :: "string \<Rightarrow> u8 \<times> string" where
  "compile_glob pattern =
     (if pattern = [] \<or> pattern = ''*'' then (PATH_MATCH_EXACT, [])
      else (case strip_suffix ''*'' pattern of
              Some prefix \<Rightarrow> (PATH_MATCH_PREFIX, prefix)
            | None \<Rightarrow>
                (case split_once (CHR ''*'') pattern of
                   Some (prefix, _) \<Rightarrow> (PATH_MATCH_PREFIX, prefix)
                 | None \<Rightarrow> (PATH_MATCH_EXACT, pattern))))"

text \<open>\<open>path[..bytes.len()].copy_from_slice(bytes)\<close> into a zeroed array, after the assertion.\<close>

definition fill_path :: "string \<Rightarrow> bytes option" where
  "fill_path s =
     (let b = str_bytes s in
      if length b < MAX_PATH_PATTERN_LEN
      then Some (b @ replicate (MAX_PATH_PATTERN_LEN - length b) 0) else None)"

definition path_str :: "bytes \<Rightarrow> string" where
  "path_str path =
     (case from_utf8 (takeWhile (\<lambda>b. b \<noteq> 0) path) of Some s \<Rightarrow> s | None \<Rightarrow> [])"

lemma length_str_bytes [simp]: "length (str_bytes s) = length s"
  by (simp add: str_bytes_def)

lemma fill_path_Some:
  "fill_path s = Some p \<longleftrightarrow>
     length s < 256 \<and> p = str_bytes s @ replicate (256 - length s) 0"
  by (auto simp: fill_path_def bpf_consts Let_def)

lemma fill_path_ok [simp]: "length s < 256 \<Longrightarrow> fill_path s \<noteq> None"
  by (simp add: fill_path_def bpf_consts Let_def)

lemma compile_glob_length: "length (snd (compile_glob pattern)) \<le> length pattern"
  by (auto simp: compile_glob_def strip_suffix_def split_once_Some split: option.split)

section \<open>Capability rules\<close>

record cap_path_rule =
  cpr_cap_mask :: u64
  cpr_match_type :: u8
  cpr_path :: bytes

definition cap_path_rule_default :: cap_path_rule where
  "cap_path_rule_default = \<lparr>cpr_cap_mask = 0, cpr_match_type = 0, cpr_path = replicate 256 0\<rparr>"

text \<open>The containers of up to 32 rules, with the number of rules in use.\<close>

record 'r rule_table =
  rt_count :: u8
  rt_rules :: "'r list"

type_synonym cap_path_rules = "cap_path_rule rule_table"

definition cap_path_rules_default :: cap_path_rules where
  "cap_path_rules_default =
     \<lparr>rt_count = 0, rt_rules = replicate MAX_CAP_PATH_RULES cap_path_rule_default\<rparr>"

text \<open>\<open>rules.rules[rules.count as usize] = rule; rules.count += 1\<close>.\<close>

definition push_rule :: "'r \<Rightarrow> 'r rule_table \<Rightarrow> 'r rule_table option" where
  "push_rule r t =
     (if unat (rt_count t) < length (rt_rules t)
      then Some (t\<lparr>rt_rules := (rt_rules t)[unat (rt_count t) := r], rt_count := rt_count t + 1\<rparr>)
      else None)"

definition cap_path_rule_new :: "nat \<Rightarrow> string \<Rightarrow> cap_path_rule option option" where
  "cap_path_rule_new cap_bit path_pattern =
     (case compile_glob path_pattern of (match_type, cleaned) \<Rightarrow>
        (case fill_path cleaned of
           None \<Rightarrow> None
         | Some path \<Rightarrow>
             Some (Some \<lparr>cpr_cap_mask = push_bit cap_bit 1, cpr_match_type = match_type,
                         cpr_path = path\<rparr>)))"

text \<open>
  \<open>str::to_lowercase\<close> as far as a comparison with ASCII words can see it: besides A to Z only the
  Kelvin sign (U+212A) has a single ASCII letter as its lower case.
\<close>

fun to_lowercase :: "string \<Rightarrow> string" where
  "to_lowercase (a # b # c # cs) =
     (if a = CHR 0xE2 \<and> b = CHR 0x84 \<and> c = CHR 0xAA then CHR ''k'' # to_lowercase cs
      else ascii_lower a # to_lowercase (b # c # cs))"
| "to_lowercase (a # cs) = ascii_lower a # to_lowercase cs"
| "to_lowercase [] = []"

definition cap_names :: "(string \<times> nat) list" where
  "cap_names =
     [(''cap_chown'', 0), (''cap_dac_override'', 1), (''cap_dac_read_search'', 2),
      (''cap_fowner'', 3), (''cap_fsetid'', 4), (''cap_kill'', 5), (''cap_setgid'', 6),
      (''cap_setuid'', 7), (''cap_setpcap'', 8), (''cap_linux_immutable'', 9),
      (''cap_net_bind_service'', 10), (''cap_net_broadcast'', 11), (''cap_net_admin'', 12),
      (''cap_net_raw'', 13), (''cap_ipc_lock'', 14), (''cap_ipc_owner'', 15),
      (''cap_sys_module'', 16), (''cap_sys_rawio'', 17), (''cap_sys_chroot'', 18),
      (''cap_sys_ptrace'', 19), (''cap_sys_pacct'', 20), (''cap_sys_admin'', 21),
      (''cap_sys_boot'', 22), (''cap_sys_nice'', 23), (''cap_sys_resource'', 24),
      (''cap_sys_time'', 25), (''cap_sys_tty_config'', 26), (''cap_mknod'', 27),
      (''cap_lease'', 28), (''cap_audit_write'', 29), (''cap_audit_control'', 30),
      (''cap_setfcap'', 31), (''cap_mac_override'', 32), (''cap_mac_admin'', 33),
      (''cap_syslog'', 34), (''cap_wake_alarm'', 35), (''cap_block_suspend'', 36),
      (''cap_audit_read'', 37), (''cap_perfmon'', 38), (''cap_bpf'', 39),
      (''cap_checkpoint_restore'', 40)]"

definition cap_name_to_bit :: "string \<Rightarrow> nat option" where
  "cap_name_to_bit name = map_of cap_names (to_lowercase name)"

lemma cap_name_to_bit_less: "cap_name_to_bit name = Some n \<Longrightarrow> n < 41"
proof -
  assume "cap_name_to_bit name = Some n"
  then have "(to_lowercase name, n) \<in> set cap_names"
    by (simp add: cap_name_to_bit_def map_of_SomeD)
  moreover have "list_all (\<lambda>x. snd x < 41) cap_names" by (simp add: cap_names_def)
  ultimately show "n < 41" by (auto simp: list_all_iff)
qed

section \<open>The policy summary\<close>

record policy_value =
  pv_enforcement_mode :: u8
  pv_rule_count :: u8
  pv_cap_mask :: u64
  pv_has_path_rules :: u8
  pv_default_action :: u8
  pv_container_port :: u16

definition has_path :: "capability_rule \<Rightarrow> bool" where
  "has_path r = (case cap_path_pattern r of None \<Rightarrow> False | Some p \<Rightarrow> p \<noteq> [] \<and> p \<noteq> ''*'')"

text \<open>The two nested loops over rules and capabilities; the state is \<open>(cap_mask, has_path_rules)\<close>.\<close>

fun scan_caps :: "bool \<Rightarrow> string list \<Rightarrow> u64 \<times> bool \<Rightarrow> u64 \<times> bool" where
  "scan_caps hp [] st = st"
| "scan_caps hp (cap # caps) (cap_mask, has_path_rules) =
     scan_caps hp caps
       (case cap_name_to_bit cap of
          None \<Rightarrow> (cap_mask, has_path_rules)
        | Some n \<Rightarrow> if \<not> hp then (cap_mask OR push_bit n 1, has_path_rules)
                    else (cap_mask, True))"

fun scan_cap_rules :: "capability_rule list \<Rightarrow> u64 \<times> bool \<Rightarrow> u64 \<times> bool" where
  "scan_cap_rules [] st = st"
| "scan_cap_rules (r # rs) st = scan_cap_rules rs (scan_caps (has_path r) (cap_capabilities r) st)"

definition from_policy :: "security_policy \<Rightarrow> u16 \<Rightarrow> policy_value" where
  "from_policy policy container_port =
     (case scan_cap_rules (sp_privilege_escalation_rules policy) (0, False) of
        (cap_mask, has_path_rules) \<Rightarrow>
          \<lparr>pv_enforcement_mode =
             (if sp_enforcement_mode policy = ''block'' then ENFORCEMENT_MODE_BLOCK
              else if sp_enforcement_mode policy = ''alert'' then ENFORCEMENT_MODE_ALERT
              else ENFORCEMENT_MODE_BLOCK),
           pv_rule_count = of_nat (min (length (sp_privilege_escalation_rules policy)) 255),
           pv_cap_mask = cap_mask,
           pv_has_path_rules = (if has_path_rules then 1 else 0),
           pv_default_action =
             (if sp_default_action policy = ''allow'' then NET_ACTION_ALLOW else NET_ACTION_BLOCK),
           pv_container_port = container_port\<rparr>)"

definition has_capability :: "policy_value \<Rightarrow> nat \<Rightarrow> bool" where
  "has_capability pv cap \<longleftrightarrow> cap < 64 \<and> pv_cap_mask pv AND push_bit cap 1 \<noteq> 0"

definition is_block_mode :: "policy_value \<Rightarrow> bool" where
  "is_block_mode pv \<longleftrightarrow> pv_enforcement_mode pv = ENFORCEMENT_MODE_BLOCK"

definition is_alert_mode :: "policy_value \<Rightarrow> bool" where
  "is_alert_mode pv \<longleftrightarrow> pv_enforcement_mode pv = ENFORCEMENT_MODE_ALERT"

section \<open>Capability path rules of a policy\<close>

text \<open>
  \<open>aggregate_cap_path_rules\<close>: the patterns in order of first appearance, and for each the
  capabilities of all its rules.
\<close>

definition cap_bits :: "string list \<Rightarrow> u64 \<Rightarrow> u64" where
  "cap_bits caps m =
     fold (\<lambda>cap m. case cap_name_to_bit cap of None \<Rightarrow> m | Some n \<Rightarrow> m OR push_bit n 1) caps m"

fun aggregate_from ::
  "capability_rule list \<Rightarrow> string list \<times> (string \<rightharpoonup> u64) \<Rightarrow> string list \<times> (string \<rightharpoonup> u64)" where
  "aggregate_from [] st = st"
| "aggregate_from (r # rs) (path_order, path_to_mask) =
     aggregate_from rs
       (if \<not> has_path r then (path_order, path_to_mask)
        else (case cap_path_pattern r of
                None \<Rightarrow> (path_order, path_to_mask)
              | Some pattern \<Rightarrow>
                  (if pattern \<in> set path_order then path_order else path_order @ [pattern],
                   path_to_mask(pattern \<mapsto>
                     cap_bits (cap_capabilities r)
                       (case path_to_mask pattern of None \<Rightarrow> 0 | Some m \<Rightarrow> m)))))"

definition aggregate_cap_path_rules :: "security_policy \<Rightarrow> string list \<times> (string \<rightharpoonup> u64)" where
  "aggregate_cap_path_rules policy =
     aggregate_from (sp_privilege_escalation_rules policy) ([], Map.empty)"

fun build_from :: "string list \<Rightarrow> (string \<rightharpoonup> u64) \<Rightarrow> cap_path_rules \<Rightarrow> cap_path_rules option" where
  "build_from [] path_to_mask rules = Some rules"
| "build_from (pattern # ps) path_to_mask rules =
     (case path_to_mask pattern of
        None \<Rightarrow> build_from ps path_to_mask rules
      | Some m \<Rightarrow>
          (case compile_glob pattern of (match_type, cleaned) \<Rightarrow>
             (case fill_path cleaned of
                None \<Rightarrow> None
              | Some path \<Rightarrow>
                  (case push_rule \<lparr>cpr_cap_mask = m, cpr_match_type = match_type,
                                   cpr_path = path\<rparr> rules of
                     None \<Rightarrow> None
                   | Some rules' \<Rightarrow> build_from ps path_to_mask rules'))))"

definition build_cap_path_rules ::
  "string list \<Rightarrow> (string \<rightharpoonup> u64) \<Rightarrow> cap_path_rules option" where
  "build_cap_path_rules path_order path_to_mask =
     build_from path_order path_to_mask cap_path_rules_default"

section \<open>Filesystem rules\<close>

record fs_path_rule =
  fpr_perm_mask :: u8
  fpr_match_type :: u8
  fpr_path :: bytes

type_synonym fs_path_rules = "fs_path_rule rule_table"

definition fs_path_rule_default :: fs_path_rule where
  "fs_path_rule_default = \<lparr>fpr_perm_mask = 0, fpr_match_type = 0, fpr_path = replicate 256 0\<rparr>"

definition fs_path_rules_default :: fs_path_rules where
  "fs_path_rules_default =
     \<lparr>rt_count = 0, rt_rules = replicate MAX_FS_PATH_RULES fs_path_rule_default\<rparr>"

definition attrs_to_fs_perm :: "string \<Rightarrow> u8" where
  "attrs_to_fs_perm attrs =
     fold (\<lambda>c m. if c = CHR ''r'' \<or> c = CHR ''R'' then m OR FS_PERM_READ
                 else if c = CHR ''w'' \<or> c = CHR ''W'' then m OR FS_PERM_WRITE
                 else if c = CHR ''x'' \<or> c = CHR ''X'' then m OR FS_PERM_EXEC
                 else m) attrs 0"

definition fs_path_rule_new :: "string \<Rightarrow> string \<Rightarrow> fs_path_rule option option" where
  "fs_path_rule_new attrs path_pattern =
     (case compile_glob path_pattern of (match_type, cleaned) \<Rightarrow>
        (case fill_path cleaned of
           None \<Rightarrow> None
         | Some path \<Rightarrow>
             Some (Some \<lparr>fpr_perm_mask = attrs_to_fs_perm attrs, fpr_match_type = match_type,
                         fpr_path = path\<rparr>)))"

section \<open>Network rules\<close>

record network_rule_bpf =
  nrb_target_ip :: u32
  nrb_target_mask :: u32
  nrb_port :: u16
  nrb_protocol :: u8
  nrb_action :: u8

type_synonym network_rules_bpf = "network_rule_bpf rule_table"

definition network_rule_default :: network_rule_bpf where
  "network_rule_default =
     \<lparr>nrb_target_ip = 0, nrb_target_mask = 0, nrb_port = 0, nrb_protocol = 0, nrb_action = 0\<rparr>"

definition network_rules_default :: network_rules_bpf where
  "network_rules_default =
     \<lparr>rt_count = 0, rt_rules = replicate MAX_NETWORK_RULES network_rule_default\<rparr>"

text \<open>\<open>str::split\<close> by a character.\<close>

fun split_char :: "char \<Rightarrow> string \<Rightarrow> string \<Rightarrow> string list" where
  "split_char c part [] = [rev part]"
| "split_char c part (x # xs) =
     (if x = c then rev part # split_char c [] xs else split_char c (x # part) xs)"

fun parse_octets :: "string list \<Rightarrow> u32 \<Rightarrow> ebpf_error + u32" where
  "parse_octets [] ip = Inr ip"
| "parse_octets (part # parts) ip =
     (case parse_uint 4294967295 part of
        None \<Rightarrow> Inl (MapError (''invalid ip octet: '' @ part))
      | Some octet \<Rightarrow>
          if octet > 255 then Inl (MapError (''ip octet out of range: '' @ dec_string octet))
          else parse_octets parts (push_bit 8 ip OR of_nat octet))"

definition parse_ipv4 :: "string \<Rightarrow> ebpf_error + u32" where
  "parse_ipv4 s =
     (let parts = split_char (CHR ''.'') [] s in
      if length parts \<noteq> 4 then Inl (MapError (''invalid ip: '' @ s)) else parse_octets parts 0)"

definition parse_target :: "string \<Rightarrow> ebpf_error + u32 \<times> u32" where
  "parse_target target =
     (if target = ''*'' \<or> target = [] then Inr (0, 0)
      else (case split_once (CHR ''/'') target of
              Some (ip_part, mask_part) \<Rightarrow>
                (case parse_ipv4 ip_part of
                   Inl e \<Rightarrow> Inl e
                 | Inr ip \<Rightarrow>
                     (case parse_uint 4294967295 mask_part of
                        None \<Rightarrow> Inl (MapError (''invalid cidr mask: '' @ mask_part))
                      | Some n \<Rightarrow>
                          if n > 32 then Inl (MapError (''invalid cidr mask bits: '' @ dec_string n))
                          else if n = 0 then Inr (0, 0)
                          else (let m = (if n \<ge> 32 then 0xFFFFFFFF
                                         else push_bit (32 - n) (push_bit n 1 - 1))
                                in Inr (ip AND m, m))))
            | None \<Rightarrow>
                (case parse_ipv4 target of Inl e \<Rightarrow> Inl e | Inr ip \<Rightarrow> Inr (ip, 0xFFFFFFFF))))"

definition parse_port :: "string \<Rightarrow> ebpf_error + u16" where
  "parse_port port =
     (if port = ''*'' \<or> port = [] then Inr 0
      else (case parse_u16 port of
              None \<Rightarrow> Inl (MapError (''invalid port: '' @ port))
            | Some n \<Rightarrow> Inr (of_nat n)))"

definition parse_protocol :: "string \<Rightarrow> ebpf_error + u8" where
  "parse_protocol protocol =
     (let p = to_lowercase protocol in
      if p = ''tcp'' then Inr NET_PROTOCOL_TCP
      else if p = ''udp'' then Inr NET_PROTOCOL_UDP
      else if p = ''*'' \<or> p = [] then Inr NET_PROTOCOL_ANY
      else Inl (MapError (''invalid protocol: '' @ protocol)))"

definition from_rule :: "network_rule \<Rightarrow> ebpf_error + network_rule_bpf" where
  "from_rule rule =
     (if nr_operation rule \<noteq> ''connect''
      then Inl (MapError (''unsupported operation: '' @ nr_operation rule))
      else rbind (parse_target (nr_target rule)) (\<lambda>(target_ip, target_mask).
           rbind (parse_port (nr_port rule)) (\<lambda>port.
           rbind (parse_protocol (nr_protocol rule)) (\<lambda>protocol.
           Inr \<lparr>nrb_target_ip = target_ip, nrb_target_mask = target_mask, nrb_port = port,
                nrb_protocol = protocol,
                nrb_action =
                  (if nr_action rule = ''allow'' then NET_ACTION_ALLOW
                   else if nr_action rule = ''block'' then NET_ACTION_BLOCK
                   else if nr_action rule = ''redirect_to_proxy'' then NET_ACTION_REDIRECT
                   else NET_ACTION_BLOCK)\<rparr>))))"

end
