(* ===== verification/SecWords.thy ===== *)
theory SecWords
  imports RustNet
begin

text \<open>
  Word-at-a-time path comparison of the kernel programs (\<open>load_u64\<close>, \<open>fs_has_zero\<close>,
  \<open>fs_path_prefix_match\<close> and \<open>fs_path_exact_match\<close> of \<^verbatim>\<open>security/src/bpf/filesystem.bpf.c\<close>; the
  same text under other names in \<open>capability.bpf.c\<close>), and the proof that the bit trick with
  \<open>0x01..01\<close> and \<open>0x80..80\<close> finds the first NUL byte.  Machine words are little-endian, as on the
  x86_64 and aarch64 machines the programs are built for.
\<close>

section \<open>The code\<close>

fun le_word :: "bytes \<Rightarrow> u64" where
  "le_word [] = 0"
| "le_word (b # bs) = ucast b OR push_bit 8 (le_word bs)"

definition load_u64 :: "bytes \<Rightarrow> u64" where
  "load_u64 p = le_word (take 8 p)"

definition LOWS :: u64 where "LOWS = 0x0101010101010101"
definition HIGHS :: u64 where "HIGHS = 0x8080808080808080"

definition fs_has_zero :: "u64 \<Rightarrow> bool" where
  "fs_has_zero v \<longleftrightarrow> (v - LOWS) AND NOT v AND HIGHS \<noteq> 0"

text \<open>The first argument counts the remaining turns of the loop over \<open>MAX_PATH_PATTERN_LEN / 8\<close> words.\<close>

fun prefix_loop :: "nat \<Rightarrow> bytes \<Rightarrow> bytes \<Rightarrow> bool" where
  "prefix_loop 0 path prefix = False"
| "prefix_loop (Suc n) path prefix =
     (let a = load_u64 path; b = load_u64 prefix;
          z = NOT b AND (b - LOWS) AND HIGHS
      in if z \<noteq> 0 then
           (let lowest = z AND (NOT z + 1);
                m = drop_bit 7 lowest - 1
            in a AND m = b AND m)
         else if a \<noteq> b then False
         else prefix_loop n (drop 8 path) (drop 8 prefix))"

definition fs_path_prefix_match :: "bytes \<Rightarrow> bytes \<Rightarrow> bool" where
  "fs_path_prefix_match path prefix = prefix_loop 32 path prefix"

fun exact_loop :: "nat \<Rightarrow> bytes \<Rightarrow> bytes \<Rightarrow> bool" where
  "exact_loop 0 path target = False"
| "exact_loop (Suc n) path target =
     (let a = load_u64 path; b = load_u64 target
      in if a \<noteq> b then False
         else if fs_has_zero a then True
         else exact_loop n (drop 8 path) (drop 8 target))"

definition fs_path_exact_match :: "bytes \<Rightarrow> bytes \<Rightarrow> bool" where
  "fs_path_exact_match path target = exact_loop 32 path target"

section \<open>The bit trick on integers\<close>

fun le_int :: "bytes \<Rightarrow> int" where
  "le_int [] = 0"
| "le_int (b # bs) = uint b + 256 * le_int bs"

fun ones :: "nat \<Rightarrow> int" where
  "ones 0 = 0"
| "ones (Suc n) = 1 + 256 * ones n"

lemma ones_Cons: "ones (length (b # bs)) = 1 + 256 * ones (length bs)"
  by simp

lemma byte_split:
  "0 \<le> u \<Longrightarrow> u < 256 \<Longrightarrow> take_bit 8 (u + 256 * v) = (u :: int)"
  "0 \<le> u \<Longrightarrow> u < 256 \<Longrightarrow> drop_bit 8 (u + 256 * v) = (v :: int)"
  by (simp_all add: take_bit_eq_mod drop_bit_eq_div)

lemma and_byte:
  assumes "0 \<le> u" "u < 256" "0 \<le> u'" "u' < 256" "0 \<le> u''" "u'' < (256 :: int)"
  shows "(u + 256 * v) AND (u' + 256 * v') AND (u'' + 256 * v'') =
    (u AND u' AND u'') + 256 * (v AND v' AND v'')"
proof -
  let ?x = "(u + 256 * v) AND (u' + 256 * v') AND (u'' + 256 * v'')"
  have "take_bit 8 ?x = u AND u' AND u''" "drop_bit 8 ?x = v AND v' AND v''"
    using assms by (simp_all add: take_bit_and drop_bit_and byte_split)
  moreover have "?x = take_bit 8 ?x + 256 * drop_bit 8 ?x"
    by (simp add: take_bit_eq_mod drop_bit_eq_div)
  ultimately show ?thesis by simp
qed

lemma not_byte: "NOT (u + 256 * v) = (255 - u) + 256 * NOT (v :: int)"
  by (simp add: not_int_def)

lemma and_128: "0 \<le> u \<Longrightarrow> u < 256 \<Longrightarrow> u AND 128 = (if 128 \<le> u then 128 else (0 :: int))"
proof -
  assume u: "0 \<le> u" "u < 256"
  have "u AND 2 ^ 7 = (if bit u 7 then 2 ^ 7 else 0)"
    by (rule bit_eqI) (auto simp: bit_and_iff bit_exp_iff simp del: power_numeral)
  moreover have "bit u 7 \<longleftrightarrow> 128 \<le> u"
    using u by (simp add: bit_iff_odd) presburger
  ultimately show ?thesis by simp
qed

definition zero_bits :: "bytes \<Rightarrow> int" where
  "zero_bits bs = NOT (le_int bs) AND (le_int bs - ones (length bs)) AND 128 * ones (length bs)"

lemma uint_byte: "0 \<le> uint (b :: u8)" "uint (b :: u8) < 256"
  using unsigned_less [of b] by simp_all

lemma zero_bits_nonzero:
  assumes "b \<noteq> 0" shows "zero_bits (b # bs) = 256 * zero_bits bs"
proof -
  let ?u = "uint b"
  have u: "0 < ?u" "?u < 256" using assms 
    using uint_byte [of b] unfolding order_less_le by (auto simp: uint_0_iff)
  have "zero_bits (b # bs) =
      ((255 - ?u) + 256 * NOT (le_int bs)) AND
      ((?u - 1) + 256 * (le_int bs - ones (length bs))) AND (128 + 256 * (128 * ones (length bs)))"
  proof -
    have "?u + 256 * le_int bs - (1 + 256 * ones (length bs)) =
        (?u - 1) + 256 * (le_int bs - ones (length bs))"
      "128 * (1 + 256 * ones (length bs)) = 128 + 256 * (128 * ones (length bs))"
      by simp_all
    then show ?thesis
      by (simp only: zero_bits_def le_int.simps ones_Cons not_byte)
  qed
  also have "\<dots> = ((255 - ?u) AND (?u - 1) AND 128) + 256 * zero_bits bs"
    using u unfolding zero_bits_def by (intro and_byte) simp_all
  also have "(255 - ?u) AND (?u - 1) AND 128 = 0"
    using u by (simp add: and_128)
  finally show ?thesis by simp
qed

lemma zero_bits_zero: "\<exists>w. zero_bits (0 # bs) = 128 + 256 * w"
proof -
  have "zero_bits (0 # bs) =
      (255 + 256 * NOT (le_int bs)) AND
      (255 + 256 * (le_int bs - ones (length bs) - 1)) AND (128 + 256 * (128 * ones (length bs)))"
  proof -
    have "0 + 256 * le_int bs - (1 + 256 * ones (length bs)) =
        255 + 256 * (le_int bs - ones (length bs) - 1)"
      "128 * (1 + 256 * ones (length bs)) = 128 + 256 * (128 * ones (length bs))"
      by simp_all
    then show ?thesis
      using not_byte [of 0 "le_int bs"]
      by (simp only: zero_bits_def le_int.simps ones_Cons unsigned_0 diff_0_right)
  qed
  also have "\<dots> = 128 + 256 * (NOT (le_int bs) AND (le_int bs - ones (length bs) - 1) AND
      128 * ones (length bs))"
    by (subst and_byte) (simp_all add: and_128)
  finally show ?thesis by blast
qed

lemma zero_bits_nil [simp]: "zero_bits [] = 0"
  by (simp add: zero_bits_def)

lemma zero_bits_none: "0 \<notin> set bs \<Longrightarrow> zero_bits bs = 0"
  by (induction bs) (auto simp: zero_bits_nonzero)

lemma zero_bits_first:
  "0 \<in> set bs \<Longrightarrow>
     \<exists>w. zero_bits bs = 2 ^ (8 * length (takeWhile (\<lambda>b. b \<noteq> 0) bs) + 7) * (2 * w + 1)"
proof (induction bs)
  case (Cons b bs)
  show ?case
  proof (cases "b = 0")
    case True
    with zero_bits_zero [of bs] show ?thesis by (auto simp: algebra_simps)
  next
    case False
    with Cons obtain w where
      "zero_bits bs = 2 ^ (8 * length (takeWhile (\<lambda>b. b \<noteq> 0) bs) + 7) * (2 * w + 1)" by auto
    with False show ?thesis
      by (intro exI [of _ w]) (simp add: zero_bits_nonzero power_add)
  qed
qed simp

lemma lowest_bit: "(2 ^ m * (2 * w + 1)) AND - (2 ^ m * (2 * w + 1)) = (2 ^ m :: int)"
proof -
  have odd: "(2 * w + 1) AND - (2 * w + 1) = (1 :: int)"
  proof -
    have "- (2 * w + 1) = 2 * NOT w + 1" by (simp add: not_int_def)
    then show ?thesis by (simp add: and_int_rec [of "2 * w + 1"])
  qed
  have "(2 ^ m * (2 * w + 1)) AND - (2 ^ m * (2 * w + 1)) =
      push_bit m (2 * w + 1) AND push_bit m (- (2 * w + 1))"
    by (simp add: push_bit_eq_mult algebra_simps)
  also have "\<dots> = 2 ^ m" by (simp only: push_bit_and [symmetric] odd) (simp add: push_bit_eq_mult)
  finally show ?thesis .
qed

section \<open>Words and their bytes\<close>

lemma uint_le_word: "length bs \<le> 8 \<Longrightarrow> uint (le_word bs) = le_int bs \<and> le_int bs < 256 ^ length bs \<and> 0 \<le> le_int bs"
proof (induction bs)
  case (Cons b bs)
  then have IH: "uint (le_word bs) = le_int bs" "le_int bs < 256 ^ length bs" "0 \<le> le_int bs"
    and len: "length bs \<le> 7" by simp_all
  have "uint b + 256 * le_int bs < 256 * (le_int bs + 1)" using uint_byte [of b] by simp
  also have "\<dots> \<le> 256 ^ Suc (length bs)" using IH(2) by simp
  finally have bound: "uint b + 256 * le_int bs < 256 ^ Suc (length bs)" .
  also have "(256 :: int) ^ Suc (length bs) \<le> 256 ^ 8"
    using len by (intro power_increasing) simp_all
  finally have small: "uint b + 256 * le_int bs < 2 ^ 64" by simp
  have "le_word (b # bs) = ucast b + 256 * le_word bs"
  proof -
    have "ucast b AND push_bit 8 (le_word bs) = 0"
      by (rule bit_word_eqI) (auto simp: bit_simps)
    then have "ucast b OR push_bit 8 (le_word bs) = ucast b + push_bit 8 (le_word bs)"
      by (simp add: disjunctive_add_eq_or)
    then show ?thesis by (simp add: push_bit_eq_mult mult.commute)
  qed
  also have "\<dots> = word_of_int (uint b + 256 * le_int bs)"
    by (simp add: IH(1) [symmetric] unsigned_ucast_eq word_of_int_uint)
  finally have w: "le_word (b # bs) = word_of_int (uint b + 256 * le_int bs)" .
  have "uint (le_word (b # bs)) = take_bit 64 (uint b + 256 * le_int bs)"
    unfolding w by (subst unsigned_of_int) simp
  also have "\<dots> = uint b + 256 * le_int bs"
    using small IH(3) uint_byte [of b] by (simp add: take_bit_int_eq_self_iff)
  finally show ?case using bound IH(3) uint_byte [of b] by simp
qed simp

lemma take_bit_le_int: "take_bit (8 * k) (le_int bs) = le_int (take k bs)"
proof (induction bs arbitrary: k)
  case (Cons b bs)
  show ?case
  proof (cases k)
    case (Suc n)
    have "take_bit (8 * k) (le_int (b # bs)) = (uint b + 256 * le_int bs) mod (256 * 2 ^ (8 * n))"
      by (simp add: Suc take_bit_eq_mod power_add)
    also have "\<dots> = uint b + 256 * (le_int bs mod 2 ^ (8 * n))"
      using uint_byte [of b] by (subst zmod_zmult2_eq) simp_all
    also have "\<dots> = le_int (take k (b # bs))"
      using Cons.IH [of n] by (simp add: Suc take_bit_eq_mod)
    finally show ?thesis .
  qed simp
qed simp

lemma le_int_inject: "length as = length bs \<Longrightarrow> le_int as = le_int bs \<longleftrightarrow> as = bs"
proof (induction as bs rule: list_induct2)
  case (Cons a as b bs)
  have "uint a = uint b \<and> le_int as = le_int bs" if "le_int (a # as) = le_int (b # bs)"
  proof -
    from that have "uint a + 256 * le_int as = uint b + 256 * le_int bs" by simp
    then have "take_bit 8 (uint a + 256 * le_int as) = take_bit 8 (uint b + 256 * le_int bs)"
      "drop_bit 8 (uint a + 256 * le_int as) = drop_bit 8 (uint b + 256 * le_int bs)"
      by (simp_all only:)
    then show ?thesis by (simp only: byte_split [OF uint_byte] simp_thms)
  qed
  moreover have "uint a = uint b \<Longrightarrow> a = b" by (simp add: word_uint_eq_iff)
  ultimately show ?case using Cons.IH by blast
qed simp

lemma le_word_inject: "length as = length bs \<Longrightarrow> length as \<le> 8 \<Longrightarrow> le_word as = le_word bs \<longleftrightarrow> as = bs"
  using uint_le_word [of as] uint_le_word [of bs] le_int_inject [of as bs]
  by (simp add: word_uint_eq_iff)

lemma uint_zero_bits:
  assumes "length bs = 8"
  shows "uint (NOT (le_word bs) AND (le_word bs - LOWS) AND HIGHS) = zero_bits bs"
proof -
  have b: "uint (le_word bs) = le_int bs" using uint_le_word [of bs] assms by simp
  have ones: "ones 8 = 0x0101010101010101" by (simp add: numeral_eq_Suc)
  have high: "take_bit 64 (128 * ones 8) = 128 * ones 8"
    by (simp add: ones take_bit_eq_mod)
  have bound: "0 \<le> zero_bits bs" "zero_bits bs \<le> 128 * ones 8"
    using assms by (simp_all add: zero_bits_def ones AND_upper2')
  have "uint (NOT (le_word bs) AND (le_word bs - LOWS) AND HIGHS) =
      take_bit 64 (NOT (le_int bs)) AND take_bit 64 (le_int bs - ones 8) AND
      take_bit 64 (128 * ones 8)"
    unfolding high
    by (simp add: unsigned_and_eq unsigned_not_eq uint_word_ariths b LOWS_def HIGHS_def ones
        take_bit_eq_mod)
  also have "\<dots> = take_bit 64 (zero_bits bs)"
    using assms by (simp add: zero_bits_def take_bit_and)
  also have "\<dots> = zero_bits bs"
    using bound by (simp add: take_bit_int_eq_self_iff ones)
  finally show ?thesis .
qed

text \<open>One turn of the loops, on bytes.\<close>

lemma zero_byte_test:
  assumes "length bs = 8"
  shows "NOT (le_word bs) AND (le_word bs - LOWS) AND HIGHS \<noteq> 0 \<longleftrightarrow> 0 \<in> set bs"
proof (cases "0 \<in> set bs")
  case True
  with zero_bits_first [of bs] obtain w where
    "zero_bits bs = 2 ^ (8 * length (takeWhile (\<lambda>b. b \<noteq> 0) bs) + 7) * (2 * w + 1)" by auto
  moreover have "2 * w + 1 \<noteq> (0 :: int)" by presburger
  ultimately have "zero_bits bs \<noteq> 0" by simp
  with True uint_zero_bits [OF assms] show ?thesis by (auto simp: word_uint_eq_iff)
next
  case False
  with uint_zero_bits [OF assms] show ?thesis
    by (simp add: zero_bits_none uint_0_iff)
qed

lemma fs_has_zero_iff: "length bs = 8 \<Longrightarrow> fs_has_zero (le_word bs) \<longleftrightarrow> 0 \<in> set bs"
  using zero_byte_test [of bs] by (simp add: fs_has_zero_def ac_simps)

lemma nul_index: "0 \<in> set bs \<Longrightarrow> length (takeWhile (\<lambda>b. b \<noteq> 0) bs) < length bs"
  by (induction bs) auto

lemma lowest_mask:
  assumes "length bs = 8" "0 \<in> set bs"
  defines "z \<equiv> NOT (le_word bs) AND (le_word bs - LOWS) AND HIGHS"
  shows "drop_bit 7 (z AND (NOT z + 1)) - 1 = mask (8 * length (takeWhile (\<lambda>b. b \<noteq> 0) bs))"
proof -
  let ?k = "length (takeWhile (\<lambda>b. b \<noteq> 0) bs)"
  from zero_bits_first [OF assms(2)] obtain w where
    w: "zero_bits bs = 2 ^ (8 * ?k + 7) * (2 * w + 1)" by auto
  have z: "uint z = zero_bits bs" unfolding z_def by (rule uint_zero_bits [OF assms(1)])
  have k: "?k < 8"
    using nul_index [OF assms(2)] assms(1) by simp
  have neg: "NOT z + 1 = - z" by (simp add: minus_eq_not_plus_1)
  have "uint (z AND - z) = uint z AND take_bit 64 (- uint z)"
    by (simp add: unsigned_and_eq uint_word_ariths take_bit_eq_mod)
  also have "\<dots> = take_bit 64 (uint z AND - uint z)"
  proof -
    have "take_bit 64 (uint z) = uint z" using uint_lt2p [of z] by (simp add: take_bit_int_eq_self_iff)
    then show ?thesis by (simp add: take_bit_and)
  qed
  also have "\<dots> = 2 ^ (8 * ?k + 7)"
    unfolding z w lowest_bit using k by (simp add: take_bit_of_exp)
  finally have "uint (z AND - z) = 2 ^ (8 * ?k + 7)" .
  then have "word_of_int (uint (z AND - z)) = (word_of_int (2 ^ (8 * ?k + 7)) :: u64)"
    by (simp only:)
  then have "z AND - z = 2 ^ (8 * ?k + 7)" by simp
  then have "drop_bit 7 (z AND - z) = 2 ^ (8 * ?k)"
    using k by (simp add: drop_bit_exp_eq)
  then show ?thesis by (simp add: neg mask_eq_exp_minus_1)
qed

lemma masked_words_equal:
  assumes "length as = 8" "length bs = 8"
  shows "le_word as AND mask (8 * k) = le_word bs AND mask (8 * k) \<longleftrightarrow> take k as = take k bs"
proof -
  have "le_word as AND mask (8 * k) = le_word bs AND mask (8 * k) \<longleftrightarrow>
      take_bit (8 * k) (uint (le_word as)) = take_bit (8 * k) (uint (le_word bs))"
    by (simp add: take_bit_eq_mask [symmetric] word_uint_eq_iff unsigned_take_bit_eq)
  also have "\<dots> \<longleftrightarrow> le_int (take k as) = le_int (take k bs)"
    using assms uint_le_word [of as] uint_le_word [of bs] by (simp add: take_bit_le_int)
  also have "\<dots> \<longleftrightarrow> take k as = take k bs"
    using assms by (intro le_int_inject) simp
  finally show ?thesis .
qed

section \<open>The loops compare strings\<close>

text \<open>The string a NUL-terminated buffer holds.\<close>

definition c_str :: "bytes \<Rightarrow> bytes" where
  "c_str b = takeWhile (\<lambda>x. x \<noteq> 0) b"

lemma c_str_pad [simp]: "0 \<notin> set s \<Longrightarrow> c_str (s @ replicate n 0) = s"
  by (induction s) (auto simp: c_str_def takeWhile_eq_Nil_iff intro: hd_replicate)

lemma c_str_chunk: "0 \<notin> set (take 8 b) \<Longrightarrow> 8 \<le> length b \<Longrightarrow> c_str b = take 8 b @ c_str (drop 8 b)"
  unfolding c_str_def
  using takeWhile_append2 [of "take 8 b" "\<lambda>x. x \<noteq> 0" "drop 8 b"] by auto

lemma c_str_first: "0 \<in> set (take 8 b) \<Longrightarrow> c_str b = takeWhile (\<lambda>x. x \<noteq> 0) (take 8 b)"
  unfolding c_str_def
  using takeWhile_append1 [of 0 "take 8 b" "\<lambda>x. x \<noteq> 0" "drop 8 b"] by simp

lemma prefix_loop_iff:
  "length path \<ge> 8 * n \<Longrightarrow> length prefix = 8 * n \<Longrightarrow> 0 \<in> set prefix \<Longrightarrow>
     prefix_loop n path prefix \<longleftrightarrow> take (length (c_str prefix)) path = c_str prefix"
proof (induction n arbitrary: path prefix)
  case (Suc n)
  let ?a = "take 8 path" and ?b = "take 8 prefix"
  have len: "length ?a = 8" "length ?b = 8" using Suc.prems by simp_all
  show ?case
  proof (cases "0 \<in> set ?b")
    case True
    let ?k = "length (takeWhile (\<lambda>b. b \<noteq> 0) ?b)"
    have c: "c_str prefix = takeWhile (\<lambda>b. b \<noteq> 0) ?b" "?k \<le> 8"
      using c_str_first [OF True] nul_index [OF True] len by simp_all
    have "prefix_loop (Suc n) path prefix \<longleftrightarrow> take ?k ?a = take ?k ?b"
      using True
      by (simp only: prefix_loop.simps Let_def load_u64_def zero_byte_test [OF len(2)]
          lowest_mask [OF len(2) True] if_True masked_words_equal [OF len])
    also have "take ?k ?b = c_str prefix" 
      unfolding c(1) by (rule takeWhile_eq_take [symmetric])
    finally show ?thesis using c by (simp add: min_def)
  next
    case False
    have c: "c_str prefix = ?b @ c_str (drop 8 prefix)"
      using False Suc.prems by (intro c_str_chunk) simp_all
    have tail: "0 \<in> set (drop 8 prefix)"
      using Suc.prems(3) False by (metis Un_iff append_take_drop_id set_append)
    have "take (length (c_str prefix)) path = c_str prefix \<longleftrightarrow>
        ?a = ?b \<and> take (length (c_str (drop 8 prefix))) (drop 8 path) = c_str (drop 8 prefix)"
    proof -
      have "take (length (c_str prefix)) path =
          ?a @ take (length (c_str (drop 8 prefix))) (drop 8 path)"
        using len by (simp add: c take_add)
      then show ?thesis using len unfolding c by simp
    qed
    moreover have "prefix_loop (Suc n) path prefix \<longleftrightarrow>
        ?a = ?b \<and> prefix_loop n (drop 8 path) (drop 8 prefix)"
      using False le_word_inject [of ?a ?b] len
      by (simp add: Let_def load_u64_def zero_byte_test [OF len(2), unfolded not_not])
    ultimately show ?thesis using Suc.IH [of "drop 8 path" "drop 8 prefix"] Suc.prems tail by simp
  qed
qed simp

lemma take_8_add:
  "length (take 8 p) = 8 \<Longrightarrow> length (take 8 t) = 8 \<Longrightarrow>
     take (8 + m) p = take (8 + m) t \<longleftrightarrow>
       take 8 p = take 8 t \<and> take m (drop 8 p) = take m (drop 8 t)"
  by (simp add: take_add)

lemma exact_loop_iff:
  "length path \<ge> 8 * n \<Longrightarrow> length target = 8 * n \<Longrightarrow> 0 \<in> set target \<Longrightarrow>
     exact_loop n path target \<longleftrightarrow>
       (let w = 8 * (length (c_str target) div 8 + 1) in take w path = take w target)"
proof (induction n arbitrary: path target)
  case (Suc n)
  let ?a = "take 8 path" and ?b = "take 8 target"
  have len: "length ?a = 8" "length ?b = 8" using Suc.prems by simp_all
  have eq: "load_u64 path = load_u64 target \<longleftrightarrow> ?a = ?b"
    using le_word_inject [of ?a ?b] len by (simp add: load_u64_def)
  show ?case
  proof (cases "0 \<in> set ?b")
    case True
    then have "length (c_str target) div 8 = 0"
      using c_str_first [OF True] nul_index [OF True] len by simp
    moreover have "exact_loop (Suc n) path target \<longleftrightarrow> ?a = ?b"
      using True eq fs_has_zero_iff [OF len(1)] by (auto simp: load_u64_def)
    ultimately show ?thesis by simp
  next
    case False
    have c: "c_str target = ?b @ c_str (drop 8 target)"
      using False Suc.prems by (intro c_str_chunk) simp_all
    have tail: "0 \<in> set (drop 8 target)"
      using Suc.prems(3) False by (metis Un_iff append_take_drop_id set_append)
    have step: "exact_loop (Suc n) path target \<longleftrightarrow>
        ?a = ?b \<and> exact_loop n (drop 8 path) (drop 8 target)"
      using False eq fs_has_zero_iff [OF len(1)] by (auto simp: load_u64_def simp del: take_all)
    have div: "length (c_str target) div 8 = length (c_str (drop 8 target)) div 8 + 1"
      using len unfolding c by simp
    let ?m = "8 * (length (c_str (drop 8 target)) div 8 + 1)"
    have split: "take (8 + ?m) path = take (8 + ?m) target \<longleftrightarrow>
        ?a = ?b \<and> take ?m (drop 8 path) = take ?m (drop 8 target)"
      using len by (rule take_8_add)
    have IH: "exact_loop n (drop 8 path) (drop 8 target) \<longleftrightarrow>
        take ?m (drop 8 path) = take ?m (drop 8 target)"
      using Suc.IH [of "drop 8 path" "drop 8 target"] Suc.prems tail by (simp only: Let_def) simp
    have "8 * (length (c_str target) div 8 + 1) = 8 + ?m" using div by simp
    then show ?thesis by (simp only: step IH split Let_def)
  qed
qed simp

lemma prefix_match_iff:
  "length path \<ge> 256 \<Longrightarrow> length prefix = 256 \<Longrightarrow> 0 \<in> set prefix \<Longrightarrow>
     fs_path_prefix_match path prefix \<longleftrightarrow> take (length (c_str prefix)) path = c_str prefix"
  by (simp add: fs_path_prefix_match_def prefix_loop_iff)

lemma exact_match_iff:
  "length path \<ge> 256 \<Longrightarrow> length target = 256 \<Longrightarrow> 0 \<in> set target \<Longrightarrow>
     fs_path_exact_match path target \<longleftrightarrow>
       (let w = 8 * (length (c_str target) div 8 + 1) in take w path = take w target)"
  by (simp add: fs_path_exact_match_def exact_loop_iff)

end
