(* ===== verification/SecKernel.thy ===== *)
theory SecKernel
  imports SecCompile SecWords
begin

text \<open>
  The kernel programs of the sandbox (\<^verbatim>\<open>security/src/bpf/*.bpf.c\<close>) as functions of the maps the
  loader writes: the filesystem hooks, the capability hook, the connect hook and the recording of
  flows.  Kernel helpers are arguments: what \<open>bpf_d_path\<close>, \<open>get_source\<close> or the socket address give
  as a path, and whether the ring buffer had room for an event.  Machine words are little-endian.
\<close>

section \<open>Maps\<close>

text \<open>
  One loaded object and its maps.  Every object has instances of its own of the maps of
  \<open>common.bpf.h\<close>; \<open>ko_maps\<close> holds the hash maps by name, \<open>ko_proxy\<close> the entry of
  \<open>proxy_config_map\<close> when the object has the map, \<open>ko_flow_map\<close> the instance of
  \<open>cgroup_lookup_map\<close>, \<open>ko_ring\<close> the pending items of \<open>event_ringbuf\<close>; \<open>ko_programs\<close> are the names
  of its programs, the functions of the C file.
\<close>

record sock_block_entry =
  sbe_path :: bytes

record bpf_proxy_config =
  bpc_proxy_ip :: u32
  bpc_proxy_port :: u16
  bpc_model_route_port :: u16
  bpc_container_ip :: u32

datatype map_value =
    MvPolicy policy_value
  | MvCap cap_path_rules
  | MvFs fs_path_rules
  | MvNet network_rules_bpf
  | MvSock sock_block_entry

record kobj =
  ko_programs :: "string list"
  ko_maps :: "string \<rightharpoonup> (u64 \<rightharpoonup> map_value)"
  ko_proxy :: "bpf_proxy_config option"
  ko_flow_map :: "nat option"
  ko_ring :: "bytes list option"

text \<open>\<open>bpf_map_lookup_elem\<close>.\<close>

definition map_lookup :: "kobj \<Rightarrow> string \<Rightarrow> u64 \<Rightarrow> map_value option" where
  "map_lookup ko name k = (case ko_maps ko name of None \<Rightarrow> None | Some m \<Rightarrow> m k)"

definition policy_of :: "kobj \<Rightarrow> u64 \<Rightarrow> policy_value option" where
  "policy_of ko cid = (case map_lookup ko ''policy_map'' cid of Some (MvPolicy v) \<Rightarrow> Some v | _ \<Rightarrow> None)"

definition cap_rules_of :: "kobj \<Rightarrow> u64 \<Rightarrow> cap_path_rules option" where
  "cap_rules_of ko cid =
     (case map_lookup ko ''cap_path_rules_map'' cid of Some (MvCap v) \<Rightarrow> Some v | _ \<Rightarrow> None)"

definition fs_rules_of :: "kobj \<Rightarrow> u64 \<Rightarrow> fs_path_rules option" where
  "fs_rules_of ko cid =
     (case map_lookup ko ''fs_path_rules_map'' cid of Some (MvFs v) \<Rightarrow> Some v | _ \<Rightarrow> None)"

definition net_rules_of :: "kobj \<Rightarrow> u64 \<Rightarrow> network_rules_bpf option" where
  "net_rules_of ko cid =
     (case map_lookup ko ''network_rules_map'' cid of Some (MvNet v) \<Rightarrow> Some v | _ \<Rightarrow> None)"

definition sock_block_of :: "kobj \<Rightarrow> u64 \<Rightarrow> sock_block_entry option" where
  "sock_block_of ko cid =
     (case map_lookup ko ''sock_block_map'' cid of Some (MvSock v) \<Rightarrow> Some v | _ \<Rightarrow> None)"

section \<open>Events\<close>

record sec_event =
  se_cgroup_id :: u64
  se_event_type :: string
  se_action :: string
  se_result :: string
  se_pid :: u32

definition EPERM :: int where "EPERM = 1"
definition EACCES :: int where "EACCES = 13"

text \<open>The answer of a hook and the event it submits, if any.\<close>

definition emit_fs_event :: "bool \<Rightarrow> u64 \<Rightarrow> u32 \<Rightarrow> u8 \<Rightarrow> int \<times> sec_event option" where
  "emit_fs_event room cid pid mode =
     (if \<not> room then (if mode = 0 then - EACCES else 0, None)
      else if mode = 0 then
        (- EACCES, Some \<lparr>se_cgroup_id = cid, se_event_type = ''filesystem_access'',
                         se_action = ''block'', se_result = ''blocked'', se_pid = pid\<rparr>)
      else (0, Some \<lparr>se_cgroup_id = cid, se_event_type = ''filesystem_access'',
                     se_action = ''alert'', se_result = ''logged'', se_pid = pid\<rparr>))"

definition emit_event :: "bool \<Rightarrow> u64 \<Rightarrow> u32 \<Rightarrow> u8 \<Rightarrow> int \<times> sec_event option" where
  "emit_event room cid pid mode =
     (if \<not> room then (if mode = 0 then - EPERM else 0, None)
      else if mode = 0 then
        (- EPERM, Some \<lparr>se_cgroup_id = cid, se_event_type = ''privilege_escalation'',
                        se_action = ''block'', se_result = ''blocked'', se_pid = pid\<rparr>)
      else (0, Some \<lparr>se_cgroup_id = cid, se_event_type = ''privilege_escalation'',
                     se_action = ''alert'', se_result = ''logged'', se_pid = pid\<rparr>))"

definition emit_net_event :: "bool \<Rightarrow> u64 \<Rightarrow> u32 \<Rightarrow> u8 \<Rightarrow> sec_event option" where
  "emit_net_event room cid pid action =
     (if \<not> room then None
      else Some \<lparr>se_cgroup_id = cid, se_event_type = ''network'',
                 se_action = (if action = NET_ACTION_BLOCK then ''block''
                              else if action = NET_ACTION_REDIRECT then ''redirect'' else ''allow''),
                 se_result = (if action = NET_ACTION_BLOCK then ''blocked''
                              else if action = NET_ACTION_REDIRECT then ''redirected'' else ''allowed''),
                 se_pid = pid\<rparr>)"

section \<open>Filesystem hooks\<close>

definition fmode_to_perm :: "u32 \<Rightarrow> u8" where
  "fmode_to_perm fmode =
     (if fmode AND 1 \<noteq> 0 then FS_PERM_READ else 0) OR
     (if fmode AND 2 \<noteq> 0 then FS_PERM_WRITE else 0) OR
     (if fmode AND 4 \<noteq> 0 then FS_PERM_EXEC else 0)"

text \<open>The rule loop stops at \<open>count\<close>, at most at \<open>MAX_FS_PATH_RULES\<close>: -1 no rule matched, else 1 or 0.\<close>

fun fs_rules_loop :: "fs_path_rule list \<Rightarrow> u8 \<Rightarrow> bytes \<Rightarrow> int" where
  "fs_rules_loop [] requested_perm path = - 1"
| "fs_rules_loop (rule # rules) requested_perm path =
     (if \<not> (if fpr_match_type rule = PATH_MATCH_PREFIX
            then fs_path_prefix_match path (fpr_path rule)
            else fs_path_exact_match path (fpr_path rule))
      then fs_rules_loop rules requested_perm path
      else if fpr_perm_mask rule AND requested_perm \<noteq> requested_perm then 1 else 0)"

definition used_rules :: "'r rule_table \<Rightarrow> 'r list" where
  "used_rules t = take (unat (rt_count t)) (rt_rules t)"

definition check_fs_path_rules :: "kobj \<Rightarrow> u64 \<Rightarrow> u8 \<Rightarrow> bytes \<Rightarrow> int" where
  "check_fs_path_rules ko cid requested_perm path =
     (case fs_rules_of ko cid of
        None \<Rightarrow> - 1
      | Some rules \<Rightarrow> fs_rules_loop (take MAX_FS_PATH_RULES (used_rules rules)) requested_perm path)"

text \<open>\<open>d_path\<close> is the buffer \<open>bpf_d_path\<close> fills, \<open>None\<close> when it fails.\<close>

definition handle_file_open ::
  "bool \<Rightarrow> kobj \<Rightarrow> u64 \<Rightarrow> u32 \<Rightarrow> bytes option \<Rightarrow> u32 \<Rightarrow> int \<times> sec_event option" where
  "handle_file_open room ko cid pid d_path f_mode =
     (case policy_of ko cid of
        None \<Rightarrow> (0, None)
      | Some pv \<Rightarrow>
          let sock_blocked =
                (case (sock_block_of ko cid, d_path) of
                   (Some e, Some path) \<Rightarrow> fs_path_exact_match path (sbe_path e) | _ \<Rightarrow> False);
              requested_perm = fmode_to_perm f_mode;
              blocked = (case d_path of None \<Rightarrow> - 1
                         | Some path \<Rightarrow> check_fs_path_rules ko cid requested_perm path)
          in if sock_blocked then emit_fs_event room cid pid (pv_enforcement_mode pv)
             else if requested_perm = 0 then (0, None)
             else if blocked = 0 then (0, None)
             else if blocked < 0 \<and> pv_default_action pv = NET_ACTION_ALLOW then (0, None)
             else emit_fs_event room cid pid (pv_enforcement_mode pv))"

definition handle_bprm_exec ::
  "bool \<Rightarrow> kobj \<Rightarrow> u64 \<Rightarrow> u32 \<Rightarrow> bytes option \<Rightarrow> int \<times> sec_event option" where
  "handle_bprm_exec room ko cid tgid d_path =
     (case d_path of
        None \<Rightarrow> (0, None)
      | Some path \<Rightarrow>
          (case policy_of ko cid of
             None \<Rightarrow> (0, None)
           | Some pv \<Rightarrow>
               let blocked = check_fs_path_rules ko cid FS_PERM_EXEC path
               in if blocked = 0 \<or> (blocked < 0 \<and> pv_default_action pv = NET_ACTION_ALLOW)
                  then (0, None)
                  else emit_fs_event room cid tgid (pv_enforcement_mode pv)))"

text \<open>
  \<open>sun_path\<close>: the path of the listening socket, copied into a zeroed buffer; \<open>None\<close> when there is no
  peer, no address, no buffer or the copy fails.
\<close>

definition handle_unix_stream_connect ::
  "bool \<Rightarrow> kobj \<Rightarrow> u64 \<Rightarrow> u32 \<Rightarrow> bytes option \<Rightarrow> int \<times> sec_event option" where
  "handle_unix_stream_connect room ko cid pid sun_path =
     (case sock_block_of ko cid of
        None \<Rightarrow> (0, None)
      | Some blocked \<Rightarrow>
          (case sun_path of
             None \<Rightarrow> (0, None)
           | Some path \<Rightarrow>
               if fs_path_exact_match path (sbe_path blocked)
               then emit_fs_event room cid pid
                      (case policy_of ko cid of Some pv \<Rightarrow> pv_enforcement_mode pv | None \<Rightarrow> 0)
               else (0, None)))"

section \<open>Capability hook\<close>

fun cap_rules_loop :: "cap_path_rule list \<Rightarrow> u64 \<Rightarrow> bytes \<Rightarrow> bool" where
  "cap_rules_loop [] cap_bit path = False"
| "cap_rules_loop (rule # rules) cap_bit path =
     (if \<not> (if cpr_match_type rule = PATH_MATCH_PREFIX
            then fs_path_prefix_match path (cpr_path rule)
            else fs_path_exact_match path (cpr_path rule))
      then cap_rules_loop rules cap_bit path
      else if cpr_cap_mask rule AND cap_bit \<noteq> 0 then True
      else cap_rules_loop rules cap_bit path)"

definition check_path_rules :: "kobj \<Rightarrow> u64 \<Rightarrow> nat \<Rightarrow> bytes option \<Rightarrow> bool" where
  "check_path_rules ko cid cap source =
     (case (cap_rules_of ko cid, source) of
        (Some rules, Some exe_path) \<Rightarrow>
          cap_rules_loop (take MAX_CAP_PATH_RULES (used_rules rules)) (push_bit cap 1) exe_path
      | _ \<Rightarrow> False)"

definition handle_capable ::
  "bool \<Rightarrow> kobj \<Rightarrow> u64 \<Rightarrow> u32 \<Rightarrow> int \<Rightarrow> bytes option \<Rightarrow> int \<times> sec_event option" where
  "handle_capable room ko cid pid cap source =
     (if cap < 0 \<or> cap \<ge> 64 then (0, None)
      else (case policy_of ko cid of
              None \<Rightarrow> (0, None)
            | Some pv \<Rightarrow>
                let matched = (pv_cap_mask pv AND push_bit (nat cap) 1 \<noteq> 0) \<or>
                      (pv_has_path_rules pv \<noteq> 0 \<and> check_path_rules ko cid (nat cap) source)
                in if \<not> matched then
                     (if pv_default_action pv = NET_ACTION_BLOCK
                      then emit_event room cid pid (pv_enforcement_mode pv) else (0, None))
                   else emit_event room cid pid (pv_enforcement_mode pv)))"

section \<open>Connect hook\<close>

definition match_network_rule :: "network_rule_bpf \<Rightarrow> u32 \<Rightarrow> u16 \<Rightarrow> u8 \<Rightarrow> bool" where
  "match_network_rule rule dst_ip dst_port protocol =
     (if dst_ip AND nrb_target_mask rule \<noteq> nrb_target_ip rule AND nrb_target_mask rule then False
      else if nrb_port rule \<noteq> 0 \<and> nrb_port rule \<noteq> dst_port then False
      else if nrb_protocol rule \<noteq> NET_PROTOCOL_ANY \<and> nrb_protocol rule \<noteq> protocol then False
      else True)"

fun net_rules_loop :: "network_rule_bpf list \<Rightarrow> u32 \<Rightarrow> u16 \<Rightarrow> u8 \<Rightarrow> u8 \<Rightarrow> u8" where
  "net_rules_loop [] dst_ip dst_port protocol dflt = dflt"
| "net_rules_loop (r # rs) dst_ip dst_port protocol dflt =
     (if match_network_rule r dst_ip dst_port protocol then nrb_action r
      else net_rules_loop rs dst_ip dst_port protocol dflt)"

definition check_network_rules :: "kobj \<Rightarrow> u64 \<Rightarrow> u32 \<Rightarrow> u16 \<Rightarrow> u8 \<Rightarrow> u8 \<Rightarrow> u8" where
  "check_network_rules ko cid dst_ip dst_port protocol dflt =
     (case net_rules_of ko cid of
        None \<Rightarrow> dflt
      | Some rules \<Rightarrow>
          net_rules_loop (take MAX_NETWORK_RULES (used_rules rules)) dst_ip dst_port protocol
            dflt)"

text \<open>\<open>bpf_ntohs\<close> and \<open>bpf_htons\<close> swap the two bytes.\<close>

definition bswap16 :: "u16 \<Rightarrow> u16" where
  "bswap16 w = push_bit 8 w OR drop_bit 8 w"

text \<open>The context: destination in network byte order, port in network byte order, protocol.\<close>

record sock_addr =
  sa_user_ip4 :: u32
  sa_user_port :: u32
  sa_protocol :: u32

definition handle_connect4 ::
  "bool \<Rightarrow> kobj \<Rightarrow> u64 \<Rightarrow> u32 \<Rightarrow> sock_addr \<Rightarrow> int \<times> sock_addr \<times> sec_event option" where
  "handle_connect4 room ko cid pid ctx =
     (case policy_of ko cid of
        None \<Rightarrow> (1, ctx, None)
      | Some pv \<Rightarrow>
          let dst_ip = sa_user_ip4 ctx;
              dst_port = bswap16 (ucast (sa_user_port ctx));
              protocol = (ucast (sa_protocol ctx) :: u8);
              to = (\<lambda>c port. ctx\<lparr>sa_user_ip4 := bpc_proxy_ip c, sa_user_port := ucast (bswap16 port)\<rparr>)
          in if pv_container_port pv \<noteq> 0 \<and> dst_port = pv_container_port pv \<and>
                (case ko_proxy ko of None \<Rightarrow> False | Some c \<Rightarrow> dst_ip = bpc_container_ip c)
             then (1,
                   (case ko_proxy ko of
                      Some c \<Rightarrow> if bpc_model_route_port c \<noteq> 0 then to c (bpc_model_route_port c) else ctx
                    | None \<Rightarrow> ctx),
                   emit_net_event room cid pid NET_ACTION_REDIRECT)
             else
               let action = check_network_rules ko cid dst_ip dst_port protocol (pv_default_action pv)
               in if action = NET_ACTION_BLOCK then
                    (0, ctx, emit_net_event room cid pid NET_ACTION_BLOCK)
                  else if action = NET_ACTION_REDIRECT then
                    (1,
                     (case ko_proxy ko of
                        Some c \<Rightarrow> if bpc_proxy_port c \<noteq> 0 then to c (bpc_proxy_port c) else ctx
                      | None \<Rightarrow> ctx),
                     emit_net_event room cid pid NET_ACTION_REDIRECT)
                  else (1, ctx, emit_net_event room cid pid NET_ACTION_ALLOW))"

section \<open>Recording of flows\<close>

text \<open>
  \<open>struct bpf_sock_ops\<close>: addresses in network byte order, the local port in host byte order, the
  remote port in network byte order in the upper half of its word.
\<close>

record sock_ops =
  so_family :: u32
  so_local_ip4 :: u32
  so_remote_ip4 :: u32
  so_local_ip6 :: "u32 list"
  so_remote_ip6 :: "u32 list"
  so_local_port :: u32
  so_remote_port :: u32

definition flow_key_of :: "sock_ops \<Rightarrow> flow_key" where
  "flow_key_of ctx =
     (if so_family ctx = 2
      then \<lparr>fk_family = AF_INET, fk_protocol = NET_PROTOCOL_TCP,
            fk_src_ip = to_le_bytes (so_local_ip4 ctx) @ replicate 12 0,
            fk_dst_ip = to_le_bytes (so_remote_ip4 ctx) @ replicate 12 0,
            fk_src_port = ucast (so_local_port ctx),
            fk_dst_port = bswap16 (ucast (drop_bit 16 (so_remote_port ctx)))\<rparr>
      else \<lparr>fk_family = AF_INET6, fk_protocol = NET_PROTOCOL_TCP,
            fk_src_ip = concat (map to_le_bytes (so_local_ip6 ctx)),
            fk_dst_ip = concat (map to_le_bytes (so_remote_ip6 ctx)),
            fk_src_port = ucast (so_local_port ctx),
            fk_dst_port = bswap16 (ucast (drop_bit 16 (so_remote_port ctx)))\<rparr>)"

text \<open>\<open>BPF_SOCK_OPS_ACTIVE_ESTABLISHED_CB\<close> is 4; every other operation is ignored.\<close>

definition handle_sockops :: "nat \<Rightarrow> u64 \<Rightarrow> sock_ops \<Rightarrow> (flow_key \<rightharpoonup> u64) \<Rightarrow> (flow_key \<rightharpoonup> u64)" where
  "handle_sockops op cid ctx flows = (if op = 4 then flows(flow_key_of ctx \<mapsto> cid) else flows)"

section \<open>Paths as strings\<close>

text \<open>
  What \<open>bpf_d_path\<close> promises of its buffer: the path and its NUL; what lies after the NUL is not
  said.
\<close>

definition path_string :: "string \<Rightarrow> bytes \<Rightarrow> bool" where
  "path_string s buf \<longleftrightarrow>
     256 \<le> length buf \<and> length s < 256 \<and> take (length s + 1) buf = str_bytes s @ [0]"

text \<open>
  A clean path buffer: the string, then zeros up to the end of its last 8-byte word, then anything,
  256 bytes at least, as \<open>bpf_probe_read_kernel_str\<close> leaves a buffer that was zero before.
\<close>

definition path_buffer :: "string \<Rightarrow> bytes \<Rightarrow> bool" where
  "path_buffer s buf \<longleftrightarrow>
     256 \<le> length buf \<and> length s < 256 \<and>
     take (8 * (length s div 8 + 1)) buf = str_bytes s @ replicate (8 - length s mod 8) 0"

definition nul_free :: "string \<Rightarrow> bool" where
  "nul_free s \<longleftrightarrow> 0 \<notin> set (str_bytes s)"

lemma str_bytes_inject: "str_bytes s = str_bytes t \<longleftrightarrow> s = t"
proof
  have inj: "(of_nat (of_char c) :: u8) = of_nat (of_char d) \<Longrightarrow> c = d" for c d :: char
  proof -
    assume "(of_nat (of_char c) :: u8) = of_nat (of_char d)"
    then have "(of_char c :: nat) mod 2 ^ 8 = (of_char d :: nat) mod 2 ^ 8"
      by (simp add: of_nat_eq_iff word_of_nat_eq_iff take_bit_eq_mod)
    then have "(of_char c :: nat) = of_char d" by simp
    then show "c = d" by simp
  qed
  assume "str_bytes s = str_bytes t"
  then show "s = t"
    unfolding str_bytes_def by (rule map_injective) (auto intro: injI dest: inj)
qed simp

lemma str_bytes_append: "str_bytes (a @ b) = str_bytes a @ str_bytes b"
  by (simp add: str_bytes_def)

lemma str_bytes_take: "str_bytes (take n s) = take n (str_bytes s)"
  by (simp add: str_bytes_def take_map)

lemma starts_with_bytes: "starts_with s p \<longleftrightarrow> take (length p) (str_bytes s) = str_bytes p"
  by (metis starts_with_def str_bytes_inject str_bytes_take)

lemma path_string_nth:
  assumes "path_string s buf" "i \<le> length s"
  shows "buf ! i = (if i < length s then str_bytes s ! i else 0)"
proof -
  have "buf ! i = take (length s + 1) buf ! i" using assms(2) by simp
  also have "\<dots> = (str_bytes s @ [0]) ! i" using assms(1) by (simp add: path_string_def)
  finally show ?thesis using assms(2) by (auto simp: nth_append)
qed

lemma path_string_take: "path_string s buf \<Longrightarrow> n \<le> length s \<Longrightarrow> take n buf = take n (str_bytes s)"
  by (intro nth_equalityI) (auto simp: path_string_nth path_string_def)

lemma path_string_long:
  assumes "path_string s buf" "nul_free p" "length s < length p" "length p \<le> length buf"
  shows "take (length p) buf \<noteq> str_bytes p"
proof
  assume eq: "take (length p) buf = str_bytes p"
  have "str_bytes p ! length s = take (length p) buf ! length s" by (simp only: eq)
  also have "\<dots> = 0" using assms path_string_nth [OF assms(1), of "length s"] by simp
  finally show False
    using assms(2,3) nth_mem [of "length s" "str_bytes p"] by (simp add: nul_free_def)
qed

lemma path_buffer_string: "path_buffer s buf \<Longrightarrow> path_string s buf"
proof -
  assume b: "path_buffer s buf"
  let ?n = "8 * (length s div 8 + 1)"
  have n: "length s + 1 \<le> ?n" "8 - length s mod 8 = Suc (7 - length s mod 8)" by presburger+
  have "take (length s + 1) buf = take (length s + 1) (take ?n buf)" using n(1) by (simp add: min_def)
  also have "\<dots> = str_bytes s @ [0]" using b n(2) by (simp add: path_buffer_def)
  finally show ?thesis using b by (simp add: path_string_def path_buffer_def)
qed

lemma fill_path_c_str:
  "fill_path p = Some b \<Longrightarrow> nul_free p \<Longrightarrow> length b = 256 \<and> 0 \<in> set b \<and> c_str b = str_bytes p"
  by (auto simp: fill_path_Some nul_free_def)

lemma kernel_prefix_match:
  assumes "fill_path p = Some pat" "nul_free p" "path_string s buf"
  shows "fs_path_prefix_match buf pat \<longleftrightarrow> starts_with s p"
proof -
  have "fs_path_prefix_match buf pat \<longleftrightarrow> take (length p) buf = str_bytes p"
    using fill_path_c_str [OF assms(1,2)] assms(3) by (simp add: prefix_match_iff path_string_def)
  also have "\<dots> \<longleftrightarrow> starts_with s p"
  proof (cases "length p \<le> length s")
    case True
    then show ?thesis using path_string_take [OF assms(3)] by (simp add: starts_with_bytes)
  next
    case False
    moreover have "length p \<le> length buf"
      using assms(1,3) by (simp add: fill_path_Some path_string_def)
    moreover have "\<not> starts_with s p" using False by (auto simp: starts_with_iff)
    ultimately show ?thesis using path_string_long [OF assms(3,2)] by simp
  qed
  finally show ?thesis .
qed

lemma kernel_exact_string:
  assumes "fill_path p = Some pat" "nul_free p" "path_string s buf" "nul_free s"
  shows "fs_path_exact_match buf pat \<longleftrightarrow> s = p \<and> path_buffer s buf"
proof -
  let ?w = "8 * (length p div 8 + 1)"
  have pat: "pat = str_bytes p @ replicate (256 - length p) 0" "length p < 256"
    using assms(1) by (simp_all add: fill_path_Some)
  have w: "length p < ?w" "?w \<le> 256" using pat(2) by presburger+
  have takepat: "take ?w pat = str_bytes p @ replicate (8 - length p mod 8) 0"
  proof -
    have "?w - length p = 8 - length p mod 8" by presburger
    then show ?thesis using w by (simp add: pat(1) min_def)
  qed
  have "fs_path_exact_match buf pat \<longleftrightarrow> take ?w buf = take ?w pat"
    using fill_path_c_str [OF assms(1,2)] assms(3)
    by (simp add: exact_match_iff path_string_def Let_def)
  also have "\<dots> \<longleftrightarrow> s = p \<and> path_buffer s buf"
  proof
    assume eq: "take ?w buf = take ?w pat"
    have "take (length p) (take ?w buf) = str_bytes p" by (simp only: eq takepat) simp
    then have front: "take (length p) buf = str_bytes p" using w by (simp add: min_def)
    have "buf ! length p = take ?w buf ! length p" using w by simp
    also have "\<dots> = 0" by (simp only: eq takepat) (simp add: nth_append)
    finally have nul: "buf ! length p = 0" .
    have "length p \<le> length s"
      using front path_string_long [OF assms(3,2)] pat(2) assms(3)
      by (force simp: path_string_def not_le)
    moreover have "\<not> length p < length s"
    proof
      assume "length p < length s"
      then have "str_bytes s ! length p = 0" using nul path_string_nth [OF assms(3)] by simp
      with \<open>length p < length s\<close> assms(4) nth_mem [of "length p" "str_bytes s"]
      show False by (simp add: nul_free_def)
    qed
    ultimately have "length s = length p" by simp
    with front path_string_take [OF assms(3), of "length p"] have "s = p"
      by (simp add: str_bytes_inject)
    with eq takepat assms(3) show "s = p \<and> path_buffer s buf"
      by (simp add: path_buffer_def path_string_def)
  next
    assume "s = p \<and> path_buffer s buf"
    with takepat show "take ?w buf = take ?w pat" by (auto simp: path_buffer_def)
  qed
  finally show ?thesis .
qed

lemma kernel_exact_match:
  assumes "fill_path p = Some pat" "nul_free p" "path_buffer s buf" "nul_free s"
  shows "fs_path_exact_match buf pat \<longleftrightarrow> s = p"
  using kernel_exact_string [OF assms(1,2) path_buffer_string [OF assms(3)] assms(4)] assms(3) by simp

end
