(* ===== verification/SecLoader.thy ===== *)
theory SecLoader
  imports SecKernel
begin

text \<open>
  The eBPF loader (\<open>EbpfLoader\<close>, second half of \<^verbatim>\<open>security/src/ebpf/mod.rs\<close>): loading the kernel
  programs, writing a policy to the maps of every loaded object and to the loader's own tables,
  snapshots, restoring, removal, the socket block, events and the flow lookup.  The aya crate and
  the kernel are arguments: whether a map accepts an entry, what loading, attaching and pinning
  answer.  A lock held by one thread at a time is a sequence of operations; no operation panics
  while it holds one (\<open>update_never_panics\<close>), so locks are never poisoned.
\<close>

section \<open>State\<close>

text \<open>What an operation returns: a value, an error of the code, or a panic.\<close>

datatype 'a outcome = Done 'a | Fail ebpf_error | Panic

record loader =
  ld_bpf :: "kobj list"
  ld_policy :: "u64 \<rightharpoonup> policy_value"
  ld_cap :: "u64 \<rightharpoonup> cap_path_rules"
  ld_fs :: "u64 \<rightharpoonup> fs_path_rules"
  ld_net :: "u64 \<rightharpoonup> network_rules_bpf"
  ld_sock :: "u64 \<rightharpoonup> sock_block_entry"
  ld_proxy :: "bpf_proxy_config option"
  ld_loaded :: bool
  ld_lookup :: "nat option"

definition ebpf_loader_new :: loader where
  "ebpf_loader_new =
     \<lparr>ld_bpf = [], ld_policy = Map.empty, ld_cap = Map.empty, ld_fs = Map.empty, ld_net = Map.empty,
      ld_sock = Map.empty, ld_proxy = None, ld_loaded = False, ld_lookup = None\<rparr>"

definition then_do ::
  "('s \<Rightarrow> 'a outcome \<times> 's) \<Rightarrow> ('a \<Rightarrow> 's \<Rightarrow> 'b outcome \<times> 's) \<Rightarrow> 's \<Rightarrow> 'b outcome \<times> 's" where
  "then_do m f s =
     (case m s of
        (Done x, s') \<Rightarrow> f x s'
      | (Fail e, s') \<Rightarrow> (Fail e, s')
      | (Panic, s') \<Rightarrow> (Panic, s'))"

section \<open>Loading\<close>

definition all_programs :: "string list" where
  "all_programs = [''network'', ''sockops'', ''filesystem'', ''capability'']"

definition ALL_PROGRAM_NAMES :: "string list" where
  "ALL_PROGRAM_NAMES = [''capability'', ''filesystem'', ''network'', ''sockops'']"

text \<open>\<open>program_by_name\<close> over the embedded objects \<open>code\<close>.\<close>

definition program_by_name :: "(string \<Rightarrow> bytes) \<Rightarrow> string \<Rightarrow> bytes option" where
  "program_by_name code name =
     map_option code (List.find (\<lambda>n. n = name) all_programs)"

definition CGROUP_LOOKUP_MAP_PIN_PATH :: string where
  "CGROUP_LOOKUP_MAP_PIN_PATH = ''/sys/fs/bpf/agentsandbox/cgroup_lookup_map''"

text \<open>
  What the machine answers while programs are loaded: the embedded object code, the kernel's type
  information, \<open>aya::Ebpf::load\<close>, the root cgroup, loading and attaching one program, creating the pin directory, and pinning.
\<close>

record boot_kernel =
  bk_code :: "string \<Rightarrow> bytes"
  bk_btf :: "string + unit"
  bk_load :: "string \<Rightarrow> string + kobj"
  bk_cgroup :: "string + unit"
  bk_attach :: "string \<Rightarrow> string + unit"
  bk_mkdir :: bool
  bk_pin :: bool

definition attach_prog :: "boot_kernel \<Rightarrow> kobj \<Rightarrow> string \<Rightarrow> ebpf_error + unit" where
  "attach_prog bk ko prog =
     (if prog \<notin> set (ko_programs ko) then Inl (LoadError (prog @ '' not found''))
      else (case bk_attach bk prog of Inl e \<Rightarrow> Inl (LoadError e) | Inr _ \<Rightarrow> Inr ()))"

definition attach_program :: "boot_kernel \<Rightarrow> kobj \<Rightarrow> string \<Rightarrow> bool \<Rightarrow> ebpf_error + unit" where
  "attach_program bk ko name btf =
     (if name = ''capability'' \<or> name = ''filesystem'' then
        if \<not> btf then Inl (LoadError ''kernel BTF unavailable'')
        else for_each (attach_prog bk ko)
               (if name = ''capability'' then [''handle_capable'']
                else [''handle_file_open'', ''handle_bprm_exec'', ''handle_unix_stream_connect''])
      else if name = ''network'' \<or> name = ''sockops'' then
        (case bk_cgroup bk of
           Inl e \<Rightarrow> Inl (LoadError e)
         | Inr _ \<Rightarrow> attach_prog bk ko (if name = ''network'' then ''handle_connect4'' else ''handle_sockops''))
      else Inr ())"

text \<open>\<open>pinned\<close>: the map instance found at a path of the BPF file system.\<close>

definition pin_lookup_map :: "boot_kernel \<Rightarrow> kobj \<Rightarrow> (string \<rightharpoonup> nat) \<Rightarrow> (string \<rightharpoonup> nat)" where
  "pin_lookup_map bk ko pinned =
     (case ko_flow_map ko of
        None \<Rightarrow> pinned
      | Some i \<Rightarrow> if \<not> bk_mkdir bk then pinned
                  else if bk_pin bk then pinned(CGROUP_LOOKUP_MAP_PIN_PATH \<mapsto> i)
                  else pinned(CGROUP_LOOKUP_MAP_PIN_PATH := None))"

fun load_each ::
  "boot_kernel \<Rightarrow> bool \<Rightarrow> string list \<Rightarrow> kobj list \<times> (string \<rightharpoonup> nat) \<Rightarrow>
     (ebpf_error + unit) \<times> kobj list \<times> (string \<rightharpoonup> nat)" where
  "load_each bk btf [] st = (Inr (), st)"
| "load_each bk btf (name # names) (bpf, pinned) =
     (if bk_code bk name = [] then load_each bk btf names (bpf, pinned)
      else (case bk_load bk name of
              Inl e \<Rightarrow> (Inl (LoadError (name @ '': '' @ e)), bpf, pinned)
            | Inr ko \<Rightarrow>
                (case attach_program bk ko name btf of
                   Inl e \<Rightarrow> (Inl e, bpf, pinned)
                 | Inr _ \<Rightarrow>
                     load_each bk btf names
                       (bpf @ [ko],
                        if name = ''sockops'' then pin_lookup_map bk ko pinned else pinned))))"

definition load_programs ::
  "boot_kernel \<Rightarrow> string list option \<Rightarrow> loader \<times> (string \<rightharpoonup> nat) \<Rightarrow>
     unit outcome \<times> loader \<times> (string \<rightharpoonup> nat)" where
  "load_programs bk names st =
     (case st of (ld, pinned) \<Rightarrow>
        let new_names = filter (\<lambda>n. case names of None \<Rightarrow> True | Some l \<Rightarrow> n \<in> set l) all_programs;
            kept = filter (\<lambda>b. list_all (\<lambda>n. n \<notin> set new_names) (ko_programs b)) (ld_bpf ld);
            needs_lsm = list_ex (\<lambda>n. n = ''capability'' \<or> n = ''filesystem'') new_names
        in (case (if needs_lsm then bk_btf bk else Inr ()) of
              Inl e \<Rightarrow> (Fail (LoadError e), ld\<lparr>ld_bpf := kept\<rparr>, pinned)
            | Inr _ \<Rightarrow>
                (case load_each bk needs_lsm new_names (kept, pinned) of
                   (Inl e, bpf, pinned') \<Rightarrow> (Fail e, ld\<lparr>ld_bpf := bpf\<rparr>, pinned')
                 | (Inr _, bpf, pinned') \<Rightarrow>
                     (Done (), ld\<lparr>ld_bpf := bpf, ld_loaded := True\<rparr>, pinned'))))"

section \<open>Kernel maps\<close>

text \<open>Whether the map of that name, with these entries, takes an entry under the key.\<close>

type_synonym acceptor = "string \<Rightarrow> (u64 \<rightharpoonup> map_value) \<Rightarrow> u64 \<Rightarrow> bool"

fun write_objs :: "acceptor \<Rightarrow> string \<Rightarrow> u64 \<Rightarrow> map_value \<Rightarrow> kobj list \<Rightarrow> bool \<times> kobj list" where
  "write_objs acc name k v [] = (True, [])"
| "write_objs acc name k v (b # bs) =
     (case ko_maps b name of
        None \<Rightarrow> (case write_objs acc name k v bs of (ok, bs') \<Rightarrow> (ok, b # bs'))
      | Some m \<Rightarrow>
          if acc name m k then
            (case write_objs acc name k v bs of (ok, bs') \<Rightarrow>
               (ok, b\<lparr>ko_maps := (ko_maps b)(name \<mapsto> m(k \<mapsto> v))\<rparr> # bs'))
          else (False, b # bs))"

definition write_kernel_hash ::
  "acceptor \<Rightarrow> string \<Rightarrow> u64 \<Rightarrow> map_value \<Rightarrow> loader \<Rightarrow> unit outcome \<times> loader" where
  "write_kernel_hash acc name k v ld =
     (case write_objs acc name k v (ld_bpf ld) of (ok, bpf) \<Rightarrow>
        (if ok then Done () else Fail (MapError ''bpf_map_update_elem''), ld\<lparr>ld_bpf := bpf\<rparr>))"

definition delete_from_obj :: "string \<Rightarrow> u64 \<Rightarrow> kobj \<Rightarrow> kobj" where
  "delete_from_obj name k b =
     (case ko_maps b name of
        None \<Rightarrow> b
      | Some m \<Rightarrow> b\<lparr>ko_maps := (ko_maps b)(name \<mapsto> m(k := None))\<rparr>)"

definition delete_kernel_hash :: "string \<Rightarrow> u64 \<Rightarrow> loader \<Rightarrow> unit outcome \<times> loader" where
  "delete_kernel_hash name k ld =
     (Done (), ld\<lparr>ld_bpf := map (delete_from_obj name k) (ld_bpf ld)\<rparr>)"

text \<open>The loader's own tables, each under its lock.\<close>

definition modify :: "('s \<Rightarrow> 's) \<Rightarrow> 's \<Rightarrow> unit outcome \<times> 's" where
  "modify f s = (Done (), f s)"

section \<open>Writing a policy\<close>

definition set_proxy :: "u32 \<Rightarrow> u16 \<Rightarrow> u16 \<Rightarrow> u32 \<Rightarrow> loader \<Rightarrow> unit outcome \<times> loader" where
  "set_proxy ip proxy_port model_route_port container_ip ld =
     (if \<not> ld_loaded ld then (Fail NotLoadedError, ld)
      else let cfg = \<lparr>bpc_proxy_ip = ip, bpc_proxy_port = proxy_port,
                      bpc_model_route_port = model_route_port, bpc_container_ip = container_ip\<rparr>
           in (Done (),
               ld\<lparr>ld_bpf := map (\<lambda>b. case ko_proxy b of None \<Rightarrow> b | Some _ \<Rightarrow> b\<lparr>ko_proxy := Some cfg\<rparr>)
                               (ld_bpf ld),
                  ld_proxy := Some cfg\<rparr>))"

definition get_proxy :: "loader \<Rightarrow> (u32 \<times> u16 \<times> u16 \<times> u32) option" where
  "get_proxy ld =
     map_option (\<lambda>c. (bpc_proxy_ip c, bpc_proxy_port c, bpc_model_route_port c, bpc_container_ip c))
       (ld_proxy ld)"

definition apply_cap_path_rules ::
  "acceptor \<Rightarrow> u64 \<Rightarrow> cap_path_rules \<Rightarrow> loader \<Rightarrow> unit outcome \<times> loader" where
  "apply_cap_path_rules acc cid rules =
     (if rt_count rules > 0
      then then_do (write_kernel_hash acc ''cap_path_rules_map'' cid (MvCap rules))
             (\<lambda>_. modify (\<lambda>ld. ld\<lparr>ld_cap := (ld_cap ld)(cid \<mapsto> rules)\<rparr>))
      else then_do (delete_kernel_hash ''cap_path_rules_map'' cid)
             (\<lambda>_. modify (\<lambda>ld. ld\<lparr>ld_cap := (ld_cap ld)(cid := None)\<rparr>)))"

definition update_cap_path_rules ::
  "acceptor \<Rightarrow> u64 \<Rightarrow> security_policy \<Rightarrow> loader \<Rightarrow> unit outcome \<times> loader" where
  "update_cap_path_rules acc cid policy ld =
     (case aggregate_cap_path_rules policy of (path_order, path_to_mask) \<Rightarrow>
        (case build_cap_path_rules path_order path_to_mask of
           None \<Rightarrow> (Panic, ld)
         | Some rules \<Rightarrow> apply_cap_path_rules acc cid rules ld))"

fun build_fs_rules :: "filesystem_rule list \<Rightarrow> fs_path_rules \<Rightarrow> fs_path_rules option" where
  "build_fs_rules [] fs_rules = Some fs_rules"
| "build_fs_rules (r # rs) fs_rules =
     (case fs_path_rule_new (fsr_attrs r) (fsr_path_prefix r) of
        None \<Rightarrow> None
      | Some None \<Rightarrow> build_fs_rules rs fs_rules
      | Some (Some rule) \<Rightarrow>
          (case push_rule rule fs_rules of
             None \<Rightarrow> None
           | Some fs_rules' \<Rightarrow> build_fs_rules rs fs_rules'))"

definition update_fs_path_rules ::
  "acceptor \<Rightarrow> u64 \<Rightarrow> security_policy \<Rightarrow> loader \<Rightarrow> unit outcome \<times> loader" where
  "update_fs_path_rules acc cid policy ld =
     (case build_fs_rules (sp_filesystem_access_rules policy) fs_path_rules_default of
        None \<Rightarrow> (Panic, ld)
      | Some fs_rules \<Rightarrow>
          (if rt_count fs_rules > 0
           then then_do (write_kernel_hash acc ''fs_path_rules_map'' cid (MvFs fs_rules))
                  (\<lambda>_. modify (\<lambda>ld. ld\<lparr>ld_fs := (ld_fs ld)(cid \<mapsto> fs_rules)\<rparr>)) ld
           else then_do (delete_kernel_hash ''fs_path_rules_map'' cid)
                  (\<lambda>_. modify (\<lambda>ld. ld\<lparr>ld_fs := (ld_fs ld)(cid := None)\<rparr>)) ld))"

fun build_net_rules :: "network_rule list \<Rightarrow> network_rules_bpf \<Rightarrow> network_rules_bpf outcome" where
  "build_net_rules [] net_rules = Done net_rules"
| "build_net_rules (r # rs) net_rules =
     (case from_rule r of
        Inl e \<Rightarrow> Fail e
      | Inr rule \<Rightarrow>
          (case push_rule rule net_rules of
             None \<Rightarrow> Panic
           | Some net_rules' \<Rightarrow> build_net_rules rs net_rules'))"

definition update_network_rules ::
  "acceptor \<Rightarrow> u64 \<Rightarrow> security_policy \<Rightarrow> loader \<Rightarrow> unit outcome \<times> loader" where
  "update_network_rules acc cid policy ld =
     (case build_net_rules (sp_network_rules policy) network_rules_default of
        Fail e \<Rightarrow> (Fail e, ld)
      | Panic \<Rightarrow> (Panic, ld)
      | Done net_rules \<Rightarrow>
          (if rt_count net_rules > 0
           then then_do (write_kernel_hash acc ''network_rules_map'' cid (MvNet net_rules))
                  (\<lambda>_. modify (\<lambda>ld. ld\<lparr>ld_net := (ld_net ld)(cid \<mapsto> net_rules)\<rparr>)) ld
           else then_do (delete_kernel_hash ''network_rules_map'' cid)
                  (\<lambda>_. modify (\<lambda>ld. ld\<lparr>ld_net := (ld_net ld)(cid := None)\<rparr>)) ld))"

text \<open>The checks before the first write: numbers of rules, then lengths of paths.\<close>

definition exceeds :: "string \<Rightarrow> ebpf_error" where
  "exceeds what = MapError (what @ '' exceed max 32 entries'')"

definition too_long :: "string \<Rightarrow> string \<Rightarrow> ebpf_error" where
  "too_long what p = MapError (what @ '' exceeds max 256 bytes: '' @ p)"

definition check_limits :: "security_policy \<Rightarrow> ebpf_error + unit" where
  "check_limits policy =
     (if length (remdups (map (\<lambda>r. the (cap_path_pattern r))
           (filter has_path (sp_privilege_escalation_rules policy)))) > MAX_CAP_PATH_RULES
      then Inl (exceeds ''cap_path_rules'')
      else if length (sp_filesystem_access_rules policy) > MAX_FS_PATH_RULES
      then Inl (exceeds ''fs_path_rules'')
      else if length (sp_network_rules policy) > MAX_NETWORK_RULES
      then Inl (exceeds ''network_rules'')
      else rbind (for_each (\<lambda>r. case cap_path_pattern r of
                      None \<Rightarrow> Inr ()
                    | Some p \<Rightarrow> if p = [] \<or> p = ''*'' then Inr ()
                                else if length p \<ge> MAX_PATH_PATTERN_LEN
                                then Inl (too_long ''path_pattern'' p) else Inr ())
                  (sp_privilege_escalation_rules policy))
             (\<lambda>_. for_each (\<lambda>r. if length (fsr_path_prefix r) \<ge> MAX_PATH_PATTERN_LEN
                                then Inl (too_long ''path_prefix'' (fsr_path_prefix r)) else Inr ())
                    (sp_filesystem_access_rules policy)))"

definition update_from_security_policy ::
  "acceptor \<Rightarrow> u64 \<Rightarrow> security_policy \<Rightarrow> u16 \<Rightarrow> loader \<Rightarrow> unit outcome \<times> loader" where
  "update_from_security_policy acc cid policy container_port ld =
     (if \<not> ld_loaded ld then (Fail NotLoadedError, ld)
      else (case check_limits policy of
              Inl e \<Rightarrow> (Fail e, ld)
            | Inr _ \<Rightarrow>
                let pv = from_policy policy container_port in
                then_do (write_kernel_hash acc ''policy_map'' cid (MvPolicy pv)) (\<lambda>_.
                then_do (modify (\<lambda>ld. ld\<lparr>ld_policy := (ld_policy ld)(cid \<mapsto> pv)\<rparr>)) (\<lambda>_.
                then_do (update_cap_path_rules acc cid policy) (\<lambda>_.
                then_do (update_fs_path_rules acc cid policy) (\<lambda>_.
                update_network_rules acc cid policy)))) ld))"

section \<open>Snapshots, removal, the socket block\<close>

record policy_snapshot =
  ps_policy_value :: "policy_value option"
  ps_cap_path_rules :: "cap_path_rules option"
  ps_fs_path_rules :: "fs_path_rules option"
  ps_network_rules :: "network_rules_bpf option"

definition snapshot_policy :: "u64 \<Rightarrow> loader \<Rightarrow> policy_snapshot" where
  "snapshot_policy cid ld =
     \<lparr>ps_policy_value = ld_policy ld cid, ps_cap_path_rules = ld_cap ld cid,
      ps_fs_path_rules = ld_fs ld cid, ps_network_rules = ld_net ld cid\<rparr>"

definition restore_rules ::
  "acceptor \<Rightarrow> string \<Rightarrow> u64 \<Rightarrow> map_value option \<Rightarrow> loader \<Rightarrow> unit outcome \<times> loader" where
  "restore_rules acc name cid rules =
     (case rules of
        Some r \<Rightarrow> write_kernel_hash acc name cid r
      | None \<Rightarrow> delete_kernel_hash name cid)"

definition restore_snapshot ::
  "acceptor \<Rightarrow> u64 \<Rightarrow> policy_snapshot \<Rightarrow> loader \<Rightarrow> unit outcome \<times> loader" where
  "restore_snapshot acc cid snap ld =
     (if \<not> ld_loaded ld then (Fail NotLoadedError, ld)
      else then_do (restore_rules acc ''policy_map'' cid (map_option MvPolicy (ps_policy_value snap))) (\<lambda>_.
           then_do (modify (\<lambda>ld. ld\<lparr>ld_policy := (ld_policy ld)(cid := ps_policy_value snap)\<rparr>)) (\<lambda>_.
           then_do (restore_rules acc ''cap_path_rules_map'' cid
                      (map_option MvCap (ps_cap_path_rules snap))) (\<lambda>_.
           then_do (restore_rules acc ''fs_path_rules_map'' cid
                      (map_option MvFs (ps_fs_path_rules snap))) (\<lambda>_.
           restore_rules acc ''network_rules_map'' cid
             (map_option MvNet (ps_network_rules snap)))))) ld)"

definition remove_policy :: "u64 \<Rightarrow> loader \<Rightarrow> unit outcome \<times> loader" where
  "remove_policy cid ld =
     (if \<not> ld_loaded ld then (Fail NotLoadedError, ld)
      else then_do (delete_kernel_hash ''policy_map'' cid) (\<lambda>_.
           then_do (modify (\<lambda>ld. ld\<lparr>ld_policy := (ld_policy ld)(cid := None)\<rparr>)) (\<lambda>_.
           then_do (delete_kernel_hash ''cap_path_rules_map'' cid) (\<lambda>_.
           then_do (modify (\<lambda>ld. ld\<lparr>ld_cap := (ld_cap ld)(cid := None)\<rparr>)) (\<lambda>_.
           then_do (delete_kernel_hash ''fs_path_rules_map'' cid) (\<lambda>_.
           then_do (modify (\<lambda>ld. ld\<lparr>ld_fs := (ld_fs ld)(cid := None)\<rparr>)) (\<lambda>_.
           then_do (delete_kernel_hash ''network_rules_map'' cid) (\<lambda>_.
           then_do (modify (\<lambda>ld. ld\<lparr>ld_net := (ld_net ld)(cid := None)\<rparr>)) (\<lambda>_.
           then_do (delete_kernel_hash ''sock_block_map'' cid) (\<lambda>_.
           modify (\<lambda>ld. ld\<lparr>ld_sock := (ld_sock ld)(cid := None)\<rparr>)))))))))) ld)"

definition block_sock_access ::
  "acceptor \<Rightarrow> u64 \<Rightarrow> string \<Rightarrow> loader \<Rightarrow> unit outcome \<times> loader" where
  "block_sock_access acc cid sock_path ld =
     (if \<not> ld_loaded ld then (Fail NotLoadedError, ld)
      else if length sock_path \<ge> MAX_PATH_PATTERN_LEN
      then (Fail (MapError ''sock path exceeds max 256 bytes''), ld)
      else (case fill_path sock_path of
              None \<Rightarrow> (Panic, ld)
            | Some path \<Rightarrow>
                let entry = \<lparr>sbe_path = path\<rparr> in
                then_do (write_kernel_hash acc ''sock_block_map'' cid (MvSock entry))
                  (\<lambda>_. modify (\<lambda>ld. ld\<lparr>ld_sock := (ld_sock ld)(cid \<mapsto> entry)\<rparr>)) ld))"

definition unblock_sock_access :: "u64 \<Rightarrow> loader \<Rightarrow> unit outcome \<times> loader" where
  "unblock_sock_access cid ld =
     (if \<not> ld_loaded ld then (Fail NotLoadedError, ld)
      else then_do (delete_kernel_hash ''sock_block_map'' cid)
             (\<lambda>_. modify (\<lambda>ld. ld\<lparr>ld_sock := (ld_sock ld)(cid := None)\<rparr>)) ld)"

definition unload_programs :: "loader \<Rightarrow> unit outcome \<times> loader" where
  "unload_programs ld = (Done (), ebpf_loader_new)"

definition policy_count :: "loader \<Rightarrow> nat" where
  "policy_count ld = card (dom (ld_policy ld))"

section \<open>The flow lookup\<close>

text \<open>
  \<open>insts\<close>: the contents of every instance of the lookup map now; \<open>pinned\<close> as above.  An instance
  lives as long as somebody holds it, whether or not it is still pinned.
\<close>

definition open_pinned_map :: "(string \<rightharpoonup> nat) \<Rightarrow> string \<Rightarrow> ebpf_error + nat" where
  "open_pinned_map pinned pin_path =
     (case pinned pin_path of
        None \<Rightarrow> Inl (MapError (''open pinned '' @ pin_path))
      | Some i \<Rightarrow> Inr i)"

definition open_pinned_lookup_map ::
  "(string \<rightharpoonup> nat) \<Rightarrow> string \<Rightarrow> loader \<Rightarrow> unit outcome \<times> loader" where
  "open_pinned_lookup_map pinned pin_path ld =
     (case open_pinned_map pinned pin_path of
        Inl e \<Rightarrow> (Fail e, ld)
      | Inr i \<Rightarrow> (Done (), ld\<lparr>ld_lookup := Some i\<rparr>))"

fun first_hit :: "(nat \<Rightarrow> flow_key \<rightharpoonup> u64) \<Rightarrow> flow_key \<Rightarrow> kobj list \<Rightarrow> u64 option" where
  "first_hit insts k [] = None"
| "first_hit insts k (b # bs) =
     (case ko_flow_map b of
        None \<Rightarrow> first_hit insts k bs
      | Some i \<Rightarrow> (case insts i k of None \<Rightarrow> first_hit insts k bs | Some cid \<Rightarrow> Some cid))"

definition lookup_cgroup_by_flow ::
  "(nat \<Rightarrow> flow_key \<rightharpoonup> u64) \<Rightarrow> (string \<rightharpoonup> nat) \<Rightarrow> flow_key \<Rightarrow> loader \<Rightarrow> u64 option \<times> loader" where
  "lookup_cgroup_by_flow insts pinned k ld =
     (case (case ld_lookup ld of None \<Rightarrow> None | Some i \<Rightarrow> insts i k) of
        Some cid \<Rightarrow> (Some cid, ld)
      | None \<Rightarrow>
          (case open_pinned_map pinned CGROUP_LOOKUP_MAP_PIN_PATH of
             Inr i \<Rightarrow>
               let ld' = ld\<lparr>ld_lookup := Some i\<rparr> in
               (case insts i k of
                  Some cid \<Rightarrow> (Some cid, ld')
                | None \<Rightarrow> (if ld_loaded ld then first_hit insts k (ld_bpf ld) else None, ld'))
           | Inl _ \<Rightarrow> (if ld_loaded ld then first_hit insts k (ld_bpf ld) else None, ld)))"

end
