(* ===== verification/SecFilters.thy ===== *)
theory SecFilters
  imports SecConfig
begin

text \<open>
  The user-space filters of the sandbox (\<^verbatim>\<open>security/src/filters\<close>), documented as mirrors of the
  kernel programs: capability rules with their glob matcher (\<open>capability.rs\<close>), filesystem rules
  (\<open>filesystem.rs\<close>) and network rules (\<open>network.rs\<close>).  The backtracking loop of \<open>glob_match\<close> is
  proved to terminate and to decide the language of the pattern.
\<close>

datatype filter_decision = FAllow | FBlock | FAlert | FRedirect

definition mode_decision :: "string \<Rightarrow> filter_decision" where
  "mode_decision enforcement_mode =
     (if enforcement_mode = ''block'' then FBlock
      else if enforcement_mode = ''alert'' then FAlert
      else FBlock)"

section \<open>The glob matcher\<close>

abbreviation star_char :: char where "star_char \<equiv> CHR ''*''"

text \<open>
  The state of the loop is \<open>pi\<close>, \<open>ti\<close>, \<open>star_pi\<close> and \<open>star_ti\<close>; the value is that of \<open>return\<close> or of the
  expression after the loop.  Each turn moves the last star's start, the text position or the
  pattern position forward, in this order of significance.
\<close>

function skip_stars :: "string \<Rightarrow> nat \<Rightarrow> nat" where
  "skip_stars pattern pi =
     (if pi < length pattern \<and> pattern ! pi = star_char then skip_stars pattern (pi + 1) else pi)"
  by pat_completeness auto
termination by (relation "measure (\<lambda>(pattern, pi). length pattern - pi)") auto

function glob_loop :: "string \<Rightarrow> string \<Rightarrow> nat \<Rightarrow> nat \<Rightarrow> nat option \<Rightarrow> nat \<Rightarrow> bool" where
  "glob_loop pattern txt pi ti star_pi star_ti =
     (if ti < length txt then
        if pi < length pattern \<and> pattern ! pi = star_char
        then glob_loop pattern txt (pi + 1) ti (Some pi) ti
        else if pi < length pattern \<and> pattern ! pi = txt ! ti
        then glob_loop pattern txt (pi + 1) (ti + 1) star_pi star_ti
        else (case star_pi of
                Some spi \<Rightarrow> glob_loop pattern txt (spi + 1) (star_ti + 1) star_pi (star_ti + 1)
              | None \<Rightarrow> False)
      else skip_stars pattern pi = length pattern)"
  by pat_completeness auto
termination
  by (relation "measures
        [\<lambda>(pattern, txt, pi, ti, star_pi, star_ti). if ti < star_ti then 1 else 0,
         \<lambda>(pattern, txt, pi, ti, star_pi, star_ti). length txt - star_ti,
         \<lambda>(pattern, txt, pi, ti, star_pi, star_ti). length txt - ti,
         \<lambda>(pattern, txt, pi, ti, star_pi, star_ti). length pattern - pi]") auto

declare skip_stars.simps [simp del] glob_loop.simps [simp del]

definition glob_match_inner :: "string \<Rightarrow> string \<Rightarrow> bool" where
  "glob_match_inner pattern txt = glob_loop pattern txt 0 0 None 0"

definition glob_match :: "string \<Rightarrow> string \<Rightarrow> bool" where
  "glob_match pattern txt = glob_match_inner pattern txt"

subsection \<open>The language of a pattern\<close>

text \<open>A star stands for any sequence of bytes, every other byte for itself.\<close>

fun glob_lang :: "string \<Rightarrow> string \<Rightarrow> bool" where
  "glob_lang [] t \<longleftrightarrow> t = []"
| "glob_lang (c # p) t \<longleftrightarrow>
     (if c = star_char then \<exists>k \<le> length t. glob_lang p (drop k t)
      else t \<noteq> [] \<and> hd t = c \<and> glob_lang p (tl t))"

lemma glob_lang_literal:
  "star_char \<notin> set lit \<Longrightarrow> glob_lang (lit @ p) t \<longleftrightarrow> (\<exists>r. t = lit @ r \<and> glob_lang p r)"
proof (induction lit arbitrary: t)
  case (Cons c lit)
  then show ?case by (cases t) auto
qed simp

lemma drop_nth: "i < length p \<Longrightarrow> p ! i = c \<Longrightarrow> drop i p = c # drop (i + 1) p"
  using Cons_nth_drop_Suc [of i p] by simp

lemma glob_lang_mismatch:
  "ti < length t \<Longrightarrow> \<not> (pi < length p \<and> p ! pi = star_char) \<Longrightarrow>
     \<not> (pi < length p \<and> p ! pi = t ! ti) \<Longrightarrow> \<not> glob_lang (drop pi p) (drop ti t)"
  by (cases "pi < length p") (auto simp: drop_nth [OF _ refl] hd_drop_conv_nth)

lemma glob_lang_star_drop:
  "glob_lang (star_char # p) (drop i t) \<longleftrightarrow> (\<exists>j. i \<le> j \<and> j \<le> max i (length t) \<and> glob_lang p (drop j t))"
proof
  assume "glob_lang (star_char # p) (drop i t)"
  then obtain k where "k \<le> length t - i" "glob_lang p (drop (k + i) t)" by auto
  then show "\<exists>j. i \<le> j \<and> j \<le> max i (length t) \<and> glob_lang p (drop j t)"
    by (intro exI [of _ "k + i"]) auto
next
  assume "\<exists>j. i \<le> j \<and> j \<le> max i (length t) \<and> glob_lang p (drop j t)"
  then obtain j where "i \<le> j" "j \<le> max i (length t)" "glob_lang p (drop j t)" by auto
  then show "glob_lang (star_char # p) (drop i t)"
    by (auto intro!: exI [of _ "j - i"])
qed

lemma skip_stars_end:
  "pi \<le> length p \<Longrightarrow> skip_stars p pi = length p \<longleftrightarrow> glob_lang (drop pi p) []"
proof (induction p pi rule: skip_stars.induct)
  case (1 p pi)
  show ?case
  proof (cases "pi < length p \<and> p ! pi = star_char")
    case True
    then have "drop pi p = star_char # drop (pi + 1) p" by (simp add: drop_nth del: Suc_eq_plus1)
    with True 1 show ?thesis by (subst skip_stars.simps) simp
  next
    case False
    then have "skip_stars p pi = pi" by (subst skip_stars.simps) auto
    moreover have "glob_lang (drop pi p) [] \<longleftrightarrow> pi = length p"
    proof (cases "pi < length p")
      case True
      then have "drop pi p = p ! pi # drop (Suc pi) p" by (simp add: Cons_nth_drop_Suc)
      with True False show ?thesis by simp
    qed (use 1 in simp)
    ultimately show ?thesis by simp
  qed
qed

text \<open>
  The invariant with a star: since the star at \<open>spi\<close> the literal between it and \<open>pi\<close> has matched the
  text from \<open>star_ti\<close> up to \<open>ti\<close>.
\<close>

definition since_star :: "string \<Rightarrow> string \<Rightarrow> nat \<Rightarrow> nat \<Rightarrow> nat \<Rightarrow> nat \<Rightarrow> bool" where
  "since_star p t pi ti spi sti \<longleftrightarrow>
     (\<exists>lit. star_char \<notin> set lit \<and> drop (spi + 1) p = lit @ drop pi p \<and> drop sti t = lit @ drop ti t \<and>
        ti = sti + length lit \<and> pi = spi + 1 + length lit \<and> pi \<le> length p \<and> ti \<le> length t)"

definition some_suffix :: "string \<Rightarrow> string \<Rightarrow> nat \<Rightarrow> nat \<Rightarrow> bool" where
  "some_suffix p t spi sti \<longleftrightarrow>
     (\<exists>k. sti \<le> k \<and> k \<le> length t \<and> glob_lang (drop (spi + 1) p) (drop k t))"

lemma drop_eq_appendD: "drop i t = lit @ r \<Longrightarrow> drop (i + length lit) t = r"
  by (metis add.commute append_eq_conv_conj drop_drop)

lemma some_suffix_star:
  assumes "since_star p t pi ti spi sti" and "pi < length p" "p ! pi = star_char"
  shows "some_suffix p t spi sti \<longleftrightarrow> some_suffix p t pi ti"
proof -
  obtain lit where lit: "star_char \<notin> set lit" "drop (spi + 1) p = lit @ drop pi p"
      "drop sti t = lit @ drop ti t" "ti = sti + length lit" "ti \<le> length t"
    using assms(1) by (auto simp: since_star_def)
  have pi: "drop pi p = star_char # drop (pi + 1) p" using assms(2,3) by (rule drop_nth)
  show ?thesis
  proof
    assume "some_suffix p t spi sti"
    then obtain k r where k: "sti \<le> k" "k \<le> length t" "drop k t = lit @ r" "glob_lang (drop pi p) r"
      using lit by (auto simp: some_suffix_def glob_lang_literal)
    then have r: "r = drop (k + length lit) t" by (simp add: drop_eq_appendD)
    have "length lit \<le> length (drop k t)" using k by simp
    then have len: "k + length lit \<le> length t" using k(2) by simp
    obtain j where "k + length lit \<le> j" "j \<le> length t" "glob_lang (drop (pi + 1) p) (drop j t)"
      using k(4) len unfolding r pi by (subst (asm) glob_lang_star_drop) (auto simp: max_def)
    with k(1) lit(4) show "some_suffix p t pi ti" by (auto simp: some_suffix_def intro!: exI [of _ j])
  next
    assume "some_suffix p t pi ti"
    then have "glob_lang (drop pi p) (drop ti t)"
      unfolding pi by (subst glob_lang_star_drop) (use lit(5) in \<open>auto simp: some_suffix_def\<close>)
    then show "some_suffix p t spi sti"
      using lit by (auto simp: some_suffix_def glob_lang_literal intro!: exI [of _ sti])
  qed
qed

lemma some_suffix_step:
  assumes "since_star p t pi ti spi sti" and "ti < length t"
    and "\<not> (pi < length p \<and> p ! pi = star_char)" "\<not> (pi < length p \<and> p ! pi = t ! ti)"
  shows "some_suffix p t spi sti \<longleftrightarrow> some_suffix p t spi (sti + 1)"
proof -
  obtain lit where lit: "star_char \<notin> set lit" "drop (spi + 1) p = lit @ drop pi p"
      "drop sti t = lit @ drop ti t"
    using assms(1) by (auto simp: since_star_def)
  have "\<not> glob_lang (drop pi p) (drop ti t)" using assms(2-4) by (rule glob_lang_mismatch)
  then have "\<not> glob_lang (drop (spi + 1) p) (drop sti t)"
    using lit by (simp add: glob_lang_literal)
  then show ?thesis
    unfolding some_suffix_def by (metis Suc_eq_plus1 Suc_leD le_antisym not_less_eq_eq)
qed

lemma some_suffix_end:
  assumes "since_star p t pi ti spi sti" and "\<not> ti < length t"
  shows "some_suffix p t spi sti \<longleftrightarrow> glob_lang (drop pi p) []"
proof -
  obtain lit where lit: "star_char \<notin> set lit" "drop (spi + 1) p = lit @ drop pi p"
      "drop sti t = lit @ drop ti t" "ti = sti + length lit" "ti \<le> length t"
    using assms(1) by (auto simp: since_star_def)
  have t: "drop sti t = lit" "length t = sti + length lit" using lit assms(2) by auto
  have "k = sti" if "sti \<le> k" "k \<le> length t" "drop k t = lit @ r" for k r
  proof -
    have "length t - k = length lit + length r" using arg_cong [OF that(3), of length] by simp
    with that t(2) show ?thesis by simp
  qed
  then have "some_suffix p t spi sti \<longleftrightarrow> (\<exists>r. drop sti t = lit @ r \<and> glob_lang (drop pi p) r)"
    unfolding some_suffix_def lit(2) glob_lang_literal [OF lit(1)]
    by (metis le_add1 t(2) order_refl)
  then show ?thesis using t(1) by auto
qed

lemma since_star_match:
  assumes "since_star p t pi ti spi sti" and "ti < length t" "pi < length p" "p ! pi = t ! ti"
    and "p ! pi \<noteq> star_char"
  shows "since_star p t (pi + 1) (ti + 1) spi sti"
proof -
  obtain lit where lit: "star_char \<notin> set lit" "drop (spi + 1) p = lit @ drop pi p"
      "drop sti t = lit @ drop ti t" "ti = sti + length lit" "pi = spi + 1 + length lit"
    using assms(1) by (auto simp: since_star_def)
  have "drop pi p = p ! pi # drop (pi + 1) p" "drop ti t = p ! pi # drop (ti + 1) t"
    using assms by (simp_all only: drop_nth)
  with lit assms show ?thesis
    unfolding since_star_def by (intro exI [of _ "lit @ [p ! pi]"]) simp
qed

lemma since_star_new: "pi < length p \<Longrightarrow> ti \<le> length t \<Longrightarrow> since_star p t (pi + 1) ti pi ti"
  by (simp add: since_star_def exI [of _ "[]"])

lemma glob_loop_correct:
  "case star_pi of
     Some spi \<Rightarrow> since_star p t pi ti spi sti \<longrightarrow>
       (glob_loop p t pi ti star_pi sti \<longleftrightarrow> some_suffix p t spi sti)
   | None \<Rightarrow> pi \<le> length p \<and> ti \<le> length t \<longrightarrow>
       (glob_loop p t pi ti star_pi sti \<longleftrightarrow> glob_lang (drop pi p) (drop ti t))"
proof (induction p t pi ti star_pi sti rule: glob_loop.induct)
  case (1 p t pi ti star_pi sti)
  consider (finish) "\<not> ti < length t"
    | (star) "ti < length t" "pi < length p \<and> p ! pi = star_char"
    | (same) "ti < length t" "\<not> (pi < length p \<and> p ! pi = star_char)"
        "pi < length p \<and> p ! pi = t ! ti"
    | (other) "ti < length t" "\<not> (pi < length p \<and> p ! pi = star_char)"
        "\<not> (pi < length p \<and> p ! pi = t ! ti)"
    by blast
  then show ?case
  proof cases
    case finish
    then have "glob_loop p t pi ti star_pi sti \<longleftrightarrow> skip_stars p pi = length p"
      by (subst glob_loop.simps) simp
    with finish skip_stars_end [of pi p] some_suffix_end [of p t pi ti] show ?thesis
      by (auto split: option.split) (auto simp: since_star_def)
  next
    case star
    then have eq: "glob_loop p t pi ti star_pi sti \<longleftrightarrow> glob_loop p t (pi + 1) ti (Some pi) ti"
      by (subst glob_loop.simps) simp
    have "since_star p t (pi + 1) ti pi ti" using star by (intro since_star_new) simp_all
    with 1(1) [OF star] eq
    have new: "glob_loop p t pi ti star_pi sti \<longleftrightarrow> some_suffix p t pi ti" by simp
    have "some_suffix p t pi ti \<longleftrightarrow> glob_lang (drop pi p) (drop ti t)"
      using star glob_lang_star_drop [of "drop (pi + 1) p" ti t] drop_nth [of pi p star_char]
      by (auto simp: some_suffix_def max_def)
    with new star some_suffix_star [of p t pi ti _ sti] show ?thesis
      by (auto split: option.split)
  next
    case same
    then have eq: "glob_loop p t pi ti star_pi sti \<longleftrightarrow>
        glob_loop p t (pi + 1) (ti + 1) star_pi sti"
      by (subst glob_loop.simps) simp
    have "drop pi p = p ! pi # drop (pi + 1) p" "drop ti t = p ! pi # drop (ti + 1) t"
      using same by (simp_all only: drop_nth)
    with 1(2) [OF same] same eq since_star_match [of p t pi ti _ sti] show ?thesis
      by (auto split: option.splits)
  next
    case other
    show ?thesis
    proof (cases star_pi)
      case None
      then have "\<not> glob_loop p t pi ti star_pi sti"
        using other by (subst glob_loop.simps) (simp only: if_True if_False option.case simp_thms)
      with None glob_lang_mismatch [OF other] show ?thesis by simp
    next
      case (Some spi)
      then have eq: "glob_loop p t pi ti star_pi sti \<longleftrightarrow>
          glob_loop p t (spi + 1) (sti + 1) star_pi (sti + 1)"
        using other
        by (subst glob_loop.simps) (simp only: if_True if_False option.case simp_thms)
      have "since_star p t (spi + 1) (sti + 1) spi (sti + 1)" if "since_star p t pi ti spi sti"
        using that other(1) by (intro since_star_new) (auto simp: since_star_def)
      with 1(3) [OF other Some] eq Some some_suffix_step [of p t pi ti spi sti] other
      show ?thesis by auto
    qed
  qed
qed

lemma glob_match_decides: "glob_match p t \<longleftrightarrow> glob_lang p t"
  using glob_loop_correct [where star_pi = None and p = p and t = t and pi = 0 and ti = 0 and sti = 0]
  by (simp add: glob_match_def glob_match_inner_def)

text \<open>
  The glob matcher's loop returns for every pattern and text, and decides whether the text is
  in the language of the pattern, where each star stands for any bytes and every other byte for
  itself, however many stars there are.
\<close>

theorem glob_match_decides_language: "glob_match pattern txt \<longleftrightarrow> glob_lang pattern txt"
  by (rule glob_match_decides)

section \<open>Capability rules\<close>

definition cap_path_match :: "string option \<Rightarrow> string option \<Rightarrow> bool" where
  "cap_path_match path_pattern process_path =
     (case (path_pattern, process_path) of
        (None, _) \<Rightarrow> True
      | (Some pattern, None) \<Rightarrow> pattern = [] \<or> pattern = ''*''
      | (Some pattern, Some path) \<Rightarrow> glob_match pattern path)"

fun cap_evaluate ::
  "string \<Rightarrow> string option \<Rightarrow> capability_rule list \<Rightarrow> string \<Rightarrow> filter_decision" where
  "cap_evaluate capability process_path [] enforcement_mode = FAllow"
| "cap_evaluate capability process_path (r # rules) enforcement_mode =
     (if \<not> list_ex (\<lambda>c. c = capability) (cap_capabilities r)
      then cap_evaluate capability process_path rules enforcement_mode
      else if \<not> cap_path_match (cap_path_pattern r) process_path
      then cap_evaluate capability process_path rules enforcement_mode
      else mode_decision enforcement_mode)"

definition cap_should_block :: "string \<Rightarrow> capability_rule list \<Rightarrow> bool" where
  "cap_should_block capability rules =
     list_ex (\<lambda>r. list_ex (\<lambda>c. c = capability) (cap_capabilities r)) rules"

definition cap_should_block_path :: "string \<Rightarrow> string \<Rightarrow> capability_rule list \<Rightarrow> bool" where
  "cap_should_block_path capability process_path rules =
     list_ex (\<lambda>r. list_ex (\<lambda>c. c = capability) (cap_capabilities r) \<and>
        (case cap_path_pattern r of
           None \<Rightarrow> True
         | Some p \<Rightarrow> p = [] \<or> p = ''*'' \<or> glob_match p process_path)) rules"

lemma glob_match_star [simp]: "glob_match ''*'' t"
  by (auto simp: glob_match_decides intro: exI [of _ "length t"])

lemma glob_match_empty [simp]: "glob_match [] t \<longleftrightarrow> t = []"
  by (simp add: glob_match_decides)

lemma mode_decision_neq [simp]: "mode_decision m \<noteq> FAllow"
  by (simp add: mode_decision_def)

lemma cap_evaluate_iff:
  "cap_evaluate c p rules m =
     (if \<exists>r \<in> set rules. c \<in> set (cap_capabilities r) \<and> cap_path_match (cap_path_pattern r) p
      then mode_decision m else FAllow)"
  by (induction rules) (auto simp: list_ex_iff)

section \<open>Filesystem rules\<close>

definition PERM_READ :: u8 where "PERM_READ = 1"
definition PERM_WRITE :: u8 where "PERM_WRITE = 2"
definition PERM_EXEC :: u8 where "PERM_EXEC = 4"

fun perm_mask_from :: "u8 \<Rightarrow> string \<Rightarrow> u8" where
  "perm_mask_from m [] = m"
| "perm_mask_from m (c # cs) =
     perm_mask_from
       (if c = CHR ''r'' \<or> c = CHR ''R'' then m OR PERM_READ
        else if c = CHR ''w'' \<or> c = CHR ''W'' then m OR PERM_WRITE
        else if c = CHR ''x'' \<or> c = CHR ''X'' then m OR PERM_EXEC
        else m) cs"

definition attrs_to_perm_mask :: "string \<Rightarrow> u8" where
  "attrs_to_perm_mask attrs = perm_mask_from 0 attrs"

definition fs_rule_blocks :: "string \<Rightarrow> u8 \<Rightarrow> filesystem_rule \<Rightarrow> bool" where
  "fs_rule_blocks path requested_perm r =
     (let p = fsr_path_prefix r;
          path_matched =
            (if ends_with p ''*'' then starts_with path (take (length p - 1) p) else path = p);
          allowed = attrs_to_perm_mask (fsr_attrs r)
      in path_matched \<and> allowed AND requested_perm \<noteq> requested_perm)"

definition fs_should_block :: "string \<Rightarrow> u8 \<Rightarrow> filesystem_rule list \<Rightarrow> bool" where
  "fs_should_block path requested_perm rules = list_ex (fs_rule_blocks path requested_perm) rules"

definition fs_evaluate :: "string \<Rightarrow> u8 \<Rightarrow> filesystem_rule list \<Rightarrow> string \<Rightarrow> filter_decision" where
  "fs_evaluate path requested_perm rules enforcement_mode =
     (if \<not> fs_should_block path requested_perm rules then FAllow
      else mode_decision enforcement_mode)"

section \<open>Network rules\<close>

definition action_to_decision :: "string \<Rightarrow> filter_decision" where
  "action_to_decision action =
     (if action = ''block'' then FBlock
      else if action = ''redirect_to_proxy'' then FRedirect
      else FAllow)"

definition match_target :: "string \<Rightarrow> string \<Rightarrow> bool" where
  "match_target pattern target =
     (if pattern = ''*'' then True
      else (case split_once (CHR ''/'') pattern of
              Some (ip, _) \<Rightarrow> starts_with target ip
            | None \<Rightarrow> pattern = target))"

definition match_field :: "string \<Rightarrow> string \<Rightarrow> bool" where
  "match_field pattern v \<longleftrightarrow> pattern = ''*'' \<or> pattern = v"

fun net_evaluate :: "string \<Rightarrow> string \<Rightarrow> string \<Rightarrow> network_rule list \<Rightarrow> filter_decision" where
  "net_evaluate target port protocol [] = FAllow"
| "net_evaluate target port protocol (rule # rules) =
     (if nr_operation rule \<noteq> ''connect'' \<or> \<not> match_target (nr_target rule) target \<or>
         \<not> match_field (nr_port rule) port \<or> \<not> match_field (nr_protocol rule) protocol
      then net_evaluate target port protocol rules
      else action_to_decision (nr_action rule))"

definition evaluate_connect :: "string \<Rightarrow> string \<Rightarrow> string \<Rightarrow> network_rule list \<Rightarrow> string" where
  "evaluate_connect target port protocol rules =
     (case net_evaluate target port protocol rules of
        FAllow \<Rightarrow> ''allow'' | FBlock \<Rightarrow> ''block'' | FRedirect \<Rightarrow> ''redirect_to_proxy'' | FAlert \<Rightarrow> ''allow'')"

end
