(* ===== verification/SecEnforce.thy ===== *)
theory SecEnforce
  imports SecLoader SecFilters
begin

text \<open>
  What a written policy means: the loader never panics, its tables and the kernel's agree, and the
  kernel programs answer as the policy reads.  Then the places where they do not: the byte order
  of addresses, the half-written policy, the rollback.
\<close>

named_theorems bpf_table \<open>facts on rule tables and kernel maps\<close>

section \<open>Rule tables\<close>

definition table_ok :: "'r rule_table \<Rightarrow> bool" where
  "table_ok t \<longleftrightarrow> length (rt_rules t) = 32 \<and> unat (rt_count t) \<le> 32"

lemma default_tables [bpf_table]:
  "table_ok cap_path_rules_default" "used_rules cap_path_rules_default = []"
  "table_ok fs_path_rules_default" "used_rules fs_path_rules_default = []"
  "table_ok network_rules_default" "used_rules network_rules_default = []"
  by (simp_all add: table_ok_def used_rules_def cap_path_rules_default_def
      fs_path_rules_default_def network_rules_default_def bpf_consts)

lemma length_used: "table_ok t \<Longrightarrow> length (used_rules t) = unat (rt_count t)"
  by (simp add: table_ok_def used_rules_def)

lemma push_rule_room:
  assumes "table_ok t" "length (used_rules t) < 32"
  obtains t' where "push_rule r t = Some t'" "table_ok t'" "used_rules t' = used_rules t @ [r]"
proof -
  let ?n = "unat (rt_count t)"
  have n: "?n < 32" "length (rt_rules t) = 32" using assms by (simp_all add: length_used table_ok_def)
  have inc: "unat (rt_count t + 1) = ?n + 1" using n(1) by (simp add: unat_word_ariths)
  let ?t = "t\<lparr>rt_rules := (rt_rules t)[?n := r], rt_count := rt_count t + 1\<rparr>"
  have "used_rules ?t = used_rules t @ [r]"
    using n inc by (simp add: used_rules_def take_Suc_conv_app_nth)
  then show ?thesis
    using n inc by (intro that [of ?t]) (simp_all add: push_rule_def table_ok_def)
qed

lemma push_rule_Some:
  assumes "push_rule r t = Some t'" "table_ok t"
  shows "table_ok t'" "used_rules t' = used_rules t @ [r]"
proof -
  have "length (used_rules t) < 32"
    using assms by (auto simp: push_rule_def length_used table_ok_def split: if_splits)
  from push_rule_room [OF assms(2) this, of r]
  obtain t'' where "push_rule r t = Some t''" "table_ok t''"
      "used_rules t'' = used_rules t @ [r]" by blast
  with assms show "table_ok t'" "used_rules t' = used_rules t @ [r]" by simp_all
qed

lemma count_zero: "table_ok t \<Longrightarrow> \<not> 0 < rt_count t \<Longrightarrow> used_rules t = []"
  by (simp add: used_rules_def word_neq_0_conv [symmetric])

lemma take_used: "table_ok t \<Longrightarrow> take 32 (used_rules t) = used_rules t"
  by (simp add: length_used) (simp add: table_ok_def)

section \<open>Compiled rules\<close>

definition path_array :: "string \<Rightarrow> bytes" where
  "path_array s = str_bytes s @ replicate (256 - length s) 0"

lemma fill_path_array: "length s < 256 \<Longrightarrow> fill_path s = Some (path_array s)"
  by (simp add: fill_path_Some path_array_def)

definition fs_compiled :: "filesystem_rule \<Rightarrow> fs_path_rule" where
  "fs_compiled r =
     \<lparr>fpr_perm_mask = attrs_to_fs_perm (fsr_attrs r),
      fpr_match_type = fst (compile_glob (fsr_path_prefix r)),
      fpr_path = path_array (snd (compile_glob (fsr_path_prefix r)))\<rparr>"

lemma fs_rule_new:
  "length (fsr_path_prefix r) < 256 \<Longrightarrow>
     fs_path_rule_new (fsr_attrs r) (fsr_path_prefix r) = Some (Some (fs_compiled r))"
  using compile_glob_length [of "fsr_path_prefix r"]
  by (auto simp: fs_path_rule_new_def fs_compiled_def fill_path_array split: prod.split)

lemma build_fs_rules_ok:
  "\<forall>r \<in> set rs. length (fsr_path_prefix r) < 256 \<Longrightarrow> table_ok t \<Longrightarrow>
     length (used_rules t) + length rs \<le> 32 \<Longrightarrow>
     \<exists>t'. build_fs_rules rs t = Some t' \<and> table_ok t' \<and> used_rules t' = used_rules t @ map fs_compiled rs"
proof (induction rs arbitrary: t)
  case (Cons r rs)
  then obtain t1 where t1: "push_rule (fs_compiled r) t = Some t1" "table_ok t1"
      "used_rules t1 = used_rules t @ [fs_compiled r]"
    by (auto elim: push_rule_room [of t "fs_compiled r"])
  with Cons.IH [of t1] Cons.prems show ?case by (auto simp: fs_rule_new)
qed simp

definition cap_compiled :: "(string \<rightharpoonup> u64) \<Rightarrow> string \<Rightarrow> cap_path_rule" where
  "cap_compiled masks p =
     \<lparr>cpr_cap_mask = the (masks p), cpr_match_type = fst (compile_glob p),
      cpr_path = path_array (snd (compile_glob p))\<rparr>"

lemma build_from_ok:
  "\<forall>p \<in> set ps. length p < 256 \<and> masks p \<noteq> None \<Longrightarrow> table_ok t \<Longrightarrow>
     length (used_rules t) + length ps \<le> 32 \<Longrightarrow>
     \<exists>t'. build_from ps masks t = Some t' \<and> table_ok t' \<and>
       used_rules t' = used_rules t @ map (cap_compiled masks) ps"
proof (induction ps arbitrary: t)
  case (Cons p ps)
  then obtain t1 where t1: "push_rule (cap_compiled masks p) t = Some t1" "table_ok t1"
      "used_rules t1 = used_rules t @ [cap_compiled masks p]"
    by (auto elim: push_rule_room [of t "cap_compiled masks p"])
  have "fill_path (snd (compile_glob p)) = Some (path_array (snd (compile_glob p)))"
    using compile_glob_length [of p] Cons.prems(1) by (intro fill_path_array) simp
  with t1 Cons.IH [of t1] Cons.prems show ?case
    by (auto simp: cap_compiled_def split: prod.splits)
qed simp

lemma build_net_rules_Done:
  "build_net_rules rs t = Done t' \<Longrightarrow> table_ok t \<Longrightarrow>
     table_ok t' \<and> (\<exists>cs. list_all2 (\<lambda>r c. from_rule r = Inr c) rs cs \<and> used_rules t' = used_rules t @ cs)"
proof (induction rs arbitrary: t)
  case (Cons r rs)
  then obtain c t1 where "from_rule r = Inr c" "push_rule c t = Some t1"
      "build_net_rules rs t1 = Done t'"
    by (auto split: sum.splits option.splits)
  with Cons push_rule_Some [of c t t1] obtain cs where
    "table_ok t'" "list_all2 (\<lambda>r c. from_rule r = Inr c) rs cs" "used_rules t' = used_rules t1 @ cs"
    by blast
  with \<open>from_rule r = Inr c\<close> \<open>push_rule c t = Some t1\<close> Cons.prems(2) show ?case
    by (auto simp: push_rule_Some intro!: exI [of _ "c # cs"])
qed auto

lemma build_net_rules_room:
  "table_ok t \<Longrightarrow> length (used_rules t) + length rs \<le> 32 \<Longrightarrow> build_net_rules rs t \<noteq> Panic"
proof (induction rs arbitrary: t)
  case (Cons r rs)
  show ?case
  proof (cases "from_rule r")
    case (Inr c)
    obtain t1 where "push_rule c t = Some t1" "table_ok t1" "used_rules t1 = used_rules t @ [c]"
      using Cons.prems by (auto elim: push_rule_room [of t c])
    with Inr Cons.IH [of t1] Cons.prems show ?thesis by simp
  qed simp
qed simp

section \<open>Aggregation of capability rules\<close>

lemma aggregate_from_inv:
  assumes "distinct order" "dom masks = set order"
    and "aggregate_from rs (order, masks) = (order', masks')"
  shows "distinct order' \<and> dom masks' = set order' \<and>
    set order' = set order \<union> {p. \<exists>r \<in> set rs. has_path r \<and> cap_path_pattern r = Some p}"
  using assms
proof (induction rs arbitrary: order masks)
  case (Cons r rs)
  show ?case
  proof (cases "has_path r")
    case False
    then have "aggregate_from rs (order, masks) = (order', masks')" using Cons.prems(3) by simp
    from Cons.IH [OF Cons.prems(1,2) this] False show ?thesis by simp
  next
    case True
    then obtain p where p: "cap_path_pattern r = Some p" by (auto simp: has_path_def split: option.splits)
    let ?order = "if p \<in> set order then order else order @ [p]"
    let ?masks = "masks(p \<mapsto> cap_bits (cap_capabilities r)
      (case masks p of None \<Rightarrow> 0 | Some m \<Rightarrow> m))"
    have "distinct ?order" "dom ?masks = set ?order" using Cons.prems by auto
    moreover have "aggregate_from rs (?order, ?masks) = (order', masks')"
      using Cons.prems True p by simp
    ultimately have "distinct order' \<and> dom masks' = set order' \<and>
        set order' = set ?order \<union> {p. \<exists>r \<in> set rs. has_path r \<and> cap_path_pattern r = Some p}"
      by (rule Cons.IH)
    with True p show ?thesis by (auto split: if_splits)
  qed
qed auto

lemma has_path_iff:
  "has_path r \<longleftrightarrow> (\<exists>p. cap_path_pattern r = Some p \<and> p \<noteq> [] \<and> p \<noteq> ''*'')"
  by (auto simp: has_path_def split: option.splits)

lemma check_limits_ok:
  assumes "check_limits policy = Inr u"
  shows "card {p. \<exists>r \<in> set (sp_privilege_escalation_rules policy). has_path r \<and>
           cap_path_pattern r = Some p} \<le> 32"
    and "length (sp_filesystem_access_rules policy) \<le> 32"
    and "length (sp_network_rules policy) \<le> 32"
    and "\<forall>r \<in> set (sp_privilege_escalation_rules policy). \<forall>p.
           has_path r \<longrightarrow> cap_path_pattern r = Some p \<longrightarrow> length p < 256"
    and "\<forall>r \<in> set (sp_filesystem_access_rules policy). length (fsr_path_prefix r) < 256"
proof -
  let ?S = "{p. \<exists>r \<in> set (sp_privilege_escalation_rules policy). has_path r \<and>
           cap_path_pattern r = Some p}"
  have S: "?S = set (map (\<lambda>r. the (cap_path_pattern r))
      (filter has_path (sp_privilege_escalation_rules policy)))"
    by (force simp: has_path_iff)
  from assms have lens: "length (remdups (map (\<lambda>r. the (cap_path_pattern r))
           (filter has_path (sp_privilege_escalation_rules policy)))) \<le> 32"
      "length (sp_filesystem_access_rules policy) \<le> 32" "length (sp_network_rules policy) \<le> 32"
    by (auto simp: check_limits_def bpf_consts split: if_splits)
  then show "card ?S \<le> 32" by (simp only: S length_remdups_card_conv)
  show "length (sp_filesystem_access_rules policy) \<le> 32" "length (sp_network_rules policy) \<le> 32"
    using lens by simp_all
  from assms show "\<forall>r \<in> set (sp_filesystem_access_rules policy). length (fsr_path_prefix r) < 256"
    by (force simp: check_limits_def rbind_eq_Inr for_each_ok bpf_consts split: if_splits)
  from assms show "\<forall>r \<in> set (sp_privilege_escalation_rules policy). \<forall>p.
           has_path r \<longrightarrow> cap_path_pattern r = Some p \<longrightarrow> length p < 256"
    by (force simp: check_limits_def rbind_eq_Inr for_each_ok bpf_consts has_path_iff split: if_splits)
qed

lemma build_cap_ok:
  assumes "check_limits policy = Inr u" "aggregate_cap_path_rules policy = (order, masks)"
  shows "\<exists>t. build_cap_path_rules order masks = Some t \<and> table_ok t \<and>
    used_rules t = map (cap_compiled masks) order"
proof -
  from aggregate_from_inv [of "[]" Map.empty _ order masks] assms(2)
  have inv: "distinct order" "dom masks = set order"
      "set order = {p. \<exists>r \<in> set (sp_privilege_escalation_rules policy). has_path r \<and>
         cap_path_pattern r = Some p}"
    by (simp_all add: aggregate_cap_path_rules_def)
  have "length order \<le> 32" using check_limits_ok(1) [OF assms(1)] inv distinct_card by force
  moreover have "\<forall>p \<in> set order. length p < 256 \<and> masks p \<noteq> None"
    using check_limits_ok(4) [OF assms(1)] inv by fastforce
  ultimately show ?thesis
    using build_from_ok [of order masks cap_path_rules_default]
    by (simp add: build_cap_path_rules_def bpf_table)
qed

section \<open>Writes to the kernel\<close>

definition put_obj :: "string \<Rightarrow> u64 \<Rightarrow> map_value option \<Rightarrow> kobj \<Rightarrow> kobj" where
  "put_obj name k v b =
     (case ko_maps b name of
        None \<Rightarrow> b
      | Some m \<Rightarrow> b\<lparr>ko_maps := (ko_maps b)(name \<mapsto> m(k := v))\<rparr>)"

lemma put_obj_maps [bpf_table]:
  "ko_maps (put_obj name k v b) n =
     (if n = name then map_option (\<lambda>m. m(k := v)) (ko_maps b n) else ko_maps b n)"
  by (auto simp: put_obj_def split: option.split)

lemma put_obj_lookup [bpf_table]:
  "map_lookup (put_obj name k v b) n k' =
     (if n = name \<and> k' = k \<and> ko_maps b n \<noteq> None then v else map_lookup b n k')"
  by (auto simp: map_lookup_def put_obj_maps split: option.split)

lemma write_objs_done:
  "write_objs acc name k v bs = (True, bs') \<Longrightarrow> bs' = map (put_obj name k (Some v)) bs"
  by (induction bs arbitrary: bs') (auto simp: put_obj_def split: option.splits prod.splits if_splits)

lemma write_objs_accepting: "write_objs (\<lambda>_ _ _. True) name k v bs = (True, map (put_obj name k (Some v)) bs)"
  by (induction bs) (auto simp: put_obj_def split: option.split)

lemma write_kernel_done:
  "write_kernel_hash acc name k v ld = (Done u, ld') \<Longrightarrow>
     ld' = ld\<lparr>ld_bpf := map (put_obj name k (Some v)) (ld_bpf ld)\<rparr>"
  by (auto simp: write_kernel_hash_def dest: write_objs_done split: prod.splits if_splits)

lemma delete_kernel_eq [bpf_table]:
  "delete_kernel_hash name k ld = (Done (), ld\<lparr>ld_bpf := map (put_obj name k None) (ld_bpf ld)\<rparr>)"
  by (simp add: delete_kernel_hash_def delete_from_obj_def [abs_def] put_obj_def [abs_def])

definition no_panic :: "'a outcome \<times> 's \<Rightarrow> bool" where
  "no_panic r \<longleftrightarrow> fst r \<noteq> Panic"

lemma no_panic_simps [simp]:
  "no_panic (Done x, s)" "no_panic (Fail e, s)" "\<not> no_panic (Panic, s)"
  by (simp_all add: no_panic_def)

lemma write_kernel_no_panic [simp]: "no_panic (write_kernel_hash acc name k v ld)"
  by (simp add: write_kernel_hash_def split: prod.split)

lemma then_do_Done:
  "then_do m f s = (Done y, s'') \<longleftrightarrow> (\<exists>x s'. m s = (Done x, s') \<and> f x s' = (Done y, s''))"
  by (auto simp: then_do_def split: prod.splits outcome.splits)

lemma then_do_no_panic:
  "no_panic (m s) \<Longrightarrow> (\<And>x s'. m s = (Done x, s') \<Longrightarrow> no_panic (f x s')) \<Longrightarrow> no_panic (then_do m f s)"
  by (auto simp: then_do_def no_panic_def split: prod.splits outcome.splits)

lemma modify_done [simp]: "no_panic (modify f s)" "modify f s = (Done u, s') \<longleftrightarrow> s' = f s"
  by (auto simp: modify_def)

lemma delete_no_panic [simp]: "no_panic (delete_kernel_hash name k ld)"
  by (simp add: delete_kernel_hash_def)

section \<open>No policy makes the loader panic\<close>

lemma apply_cap_no_panic: "no_panic (apply_cap_path_rules acc cid rules ld)"
  by (simp add: apply_cap_path_rules_def then_do_no_panic)

lemma update_cap_no_panic:
  assumes "check_limits policy = Inr u"
  shows "no_panic (update_cap_path_rules acc cid policy ld)"
proof -
  obtain order masks where agg: "aggregate_cap_path_rules policy = (order, masks)" by fastforce
  from build_cap_ok [OF assms agg] apply_cap_no_panic show ?thesis
    by (auto simp: update_cap_path_rules_def agg)
qed

lemma update_fs_no_panic:
  assumes "check_limits policy = Inr u"
  shows "no_panic (update_fs_path_rules acc cid policy ld)"
proof -
  from check_limits_ok(2,5) [OF assms] build_fs_rules_ok [of "sp_filesystem_access_rules policy" fs_path_rules_default]
  obtain t where "build_fs_rules (sp_filesystem_access_rules policy) fs_path_rules_default = Some t"
    by (auto simp: bpf_table)
  then show ?thesis by (simp add: update_fs_path_rules_def then_do_no_panic)
qed

lemma update_net_no_panic:
  assumes "check_limits policy = Inr u"
  shows "no_panic (update_network_rules acc cid policy ld)"
  using check_limits_ok(3) [OF assms]
    build_net_rules_room [of network_rules_default "sp_network_rules policy"]
  by (simp add: update_network_rules_def bpf_table then_do_no_panic split: outcome.split)

text \<open>
  C36. For every policy, whatever its size, path lengths or contents, and whatever the kernel
  accepts, writing it never indexes a rule table out of range, never overflows a path array and
  never trips an assertion: the loader answers success or an error.
\<close>

theorem update_never_panics:
  "fst (update_from_security_policy acc cid policy container_port ld) \<noteq> Panic"
proof -
  have "no_panic (update_from_security_policy acc cid policy container_port ld)"
  proof (cases "check_limits policy")
    case (Inr u)
    then show ?thesis
      by (simp add: update_from_security_policy_def Let_def then_do_no_panic
          update_cap_no_panic update_fs_no_panic update_net_no_panic)
  qed (simp add: update_from_security_policy_def)
  then show ?thesis by (simp add: no_panic_def)
qed

section \<open>What a successful update leaves\<close>

definition table_entry :: "('r rule_table \<Rightarrow> map_value) \<Rightarrow> 'r rule_table \<Rightarrow> map_value option" where
  "table_entry con t = (if rt_count t > 0 then Some (con t) else None)"

definition nonempty :: "'r rule_table \<Rightarrow> 'r rule_table option" where
  "nonempty t = (if rt_count t > 0 then Some t else None)"

text \<open>The kernel objects and tables after policy \<open>pv\<close> and the three rule tables were written.\<close>

definition installed ::
  "u64 \<Rightarrow> policy_value \<Rightarrow> cap_path_rules \<Rightarrow> fs_path_rules \<Rightarrow> network_rules_bpf \<Rightarrow> loader \<Rightarrow> loader" where
  "installed cid pv ct ft nt ld =
     ld\<lparr>ld_bpf := map (\<lambda>b. put_obj ''network_rules_map'' cid (table_entry MvNet nt)
                        (put_obj ''fs_path_rules_map'' cid (table_entry MvFs ft)
                        (put_obj ''cap_path_rules_map'' cid (table_entry MvCap ct)
                        (put_obj ''policy_map'' cid (Some (MvPolicy pv)) b)))) (ld_bpf ld),
        ld_policy := (ld_policy ld)(cid \<mapsto> pv),
        ld_cap := (ld_cap ld)(cid := nonempty ct),
        ld_fs := (ld_fs ld)(cid := nonempty ft),
        ld_net := (ld_net ld)(cid := nonempty nt)\<rparr>"

lemma apply_cap_done:
  "apply_cap_path_rules acc cid t ld = (Done u, ld') \<Longrightarrow>
     ld' = ld\<lparr>ld_bpf := map (put_obj ''cap_path_rules_map'' cid (table_entry MvCap t)) (ld_bpf ld),
             ld_cap := (ld_cap ld)(cid := nonempty t)\<rparr>"
  by (auto simp: apply_cap_path_rules_def then_do_Done delete_kernel_eq table_entry_def nonempty_def
      dest!: write_kernel_done split: if_splits)

lemma update_fs_done:
  "update_fs_path_rules acc cid policy ld = (Done u, ld') \<Longrightarrow>
     build_fs_rules (sp_filesystem_access_rules policy) fs_path_rules_default = Some t \<Longrightarrow>
     ld' = ld\<lparr>ld_bpf := map (put_obj ''fs_path_rules_map'' cid (table_entry MvFs t)) (ld_bpf ld),
             ld_fs := (ld_fs ld)(cid := nonempty t)\<rparr>"
  by (auto simp: update_fs_path_rules_def then_do_Done delete_kernel_eq table_entry_def nonempty_def
      dest!: write_kernel_done split: if_splits)

lemma update_net_done:
  "update_network_rules acc cid policy ld = (Done u, ld') \<Longrightarrow>
     build_net_rules (sp_network_rules policy) network_rules_default = Done t \<Longrightarrow>
     ld' = ld\<lparr>ld_bpf := map (put_obj ''network_rules_map'' cid (table_entry MvNet t)) (ld_bpf ld),
             ld_net := (ld_net ld)(cid := nonempty t)\<rparr>"
  by (auto simp: update_network_rules_def then_do_Done delete_kernel_eq table_entry_def nonempty_def
      dest!: write_kernel_done split: if_splits)

lemma update_done:
  assumes "update_from_security_policy acc cid policy port ld = (Done u, ld')"
  obtains order masks ct ft nt cs where
    "ld_loaded ld" "check_limits policy = Inr ()"
    "aggregate_cap_path_rules policy = (order, masks)"
    "table_ok ct" "used_rules ct = map (cap_compiled masks) order"
    "table_ok ft" "used_rules ft = map fs_compiled (sp_filesystem_access_rules policy)"
    "table_ok nt" "used_rules nt = cs"
    "list_all2 (\<lambda>r c. from_rule r = Inr c) (sp_network_rules policy) cs"
    "ld' = installed cid (from_policy policy port) ct ft nt ld"
proof -
  obtain order masks where agg: "aggregate_cap_path_rules policy = (order, masks)" by fastforce
  from assms have loaded: "ld_loaded ld" and lim: "check_limits policy = Inr ()"
    by (auto simp: update_from_security_policy_def split: if_splits sum.splits)
  from build_cap_ok [OF lim agg] obtain ct where
    ct: "build_cap_path_rules order masks = Some ct" "table_ok ct"
      "used_rules ct = map (cap_compiled masks) order" by blast
  from build_fs_rules_ok [of "sp_filesystem_access_rules policy" fs_path_rules_default]
    check_limits_ok(2,5) [OF lim] obtain ft where
    ft: "build_fs_rules (sp_filesystem_access_rules policy) fs_path_rules_default = Some ft"
      "table_ok ft" "used_rules ft = map fs_compiled (sp_filesystem_access_rules policy)"
    by (auto simp: bpf_table)
  let ?pv = "from_policy policy port"
  from assms loaded lim obtain l1 l2 l3 where
    l1: "write_kernel_hash acc ''policy_map'' cid (MvPolicy ?pv) ld = (Done (), l1)"
    and l2: "update_cap_path_rules acc cid policy (l1\<lparr>ld_policy := (ld_policy l1)(cid \<mapsto> ?pv)\<rparr>) =
        (Done (), l2)"
    and l3: "update_fs_path_rules acc cid policy l2 = (Done (), l3)"
    and l4: "update_network_rules acc cid policy l3 = (Done u, ld')"
    by (auto simp: update_from_security_policy_def then_do_Done Let_def)
  from l4 obtain nt where nt: "build_net_rules (sp_network_rules policy) network_rules_default = Done nt"
    by (auto simp: update_network_rules_def split: outcome.splits)
  from build_net_rules_Done [OF nt] obtain cs where
    cs: "table_ok nt" "list_all2 (\<lambda>r c. from_rule r = Inr c) (sp_network_rules policy) cs"
      "used_rules nt = cs" by (auto simp: bpf_table)
  have "apply_cap_path_rules acc cid ct (l1\<lparr>ld_policy := (ld_policy l1)(cid \<mapsto> ?pv)\<rparr>) = (Done (), l2)"
    using l2 by (simp add: update_cap_path_rules_def agg ct)
  note steps = write_kernel_done [OF l1] apply_cap_done [OF this] update_fs_done [OF l3 ft(1)]
    update_net_done [OF l4 nt]
  have "ld' = installed cid ?pv ct ft nt ld"
    unfolding steps by (simp add: installed_def comp_def)
  with loaded lim agg ct ft cs show ?thesis by (intro that) simp_all
qed

section \<open>The kernel reads what was written\<close>

definition has_map :: "kobj \<Rightarrow> string \<Rightarrow> bool" where
  "has_map b n = (case ko_maps b n of None \<Rightarrow> False | Some _ \<Rightarrow> True)"

definition full_object :: "kobj \<Rightarrow> bool" where
  "full_object b =
     list_all (has_map b)
       [''policy_map'', ''cap_path_rules_map'', ''fs_path_rules_map'', ''network_rules_map'']"

lemma installed_lookup:
  assumes "b \<in> set (ld_bpf (installed cid pv ct ft nt ld))" "full_object b"
  shows "policy_of b cid = Some pv" "cap_rules_of b cid = nonempty ct"
    "fs_rules_of b cid = nonempty ft" "net_rules_of b cid = nonempty nt"
proof -
  from assms(1) obtain b0 where b: "b = put_obj ''network_rules_map'' cid (table_entry MvNet nt)
      (put_obj ''fs_path_rules_map'' cid (table_entry MvFs ft)
      (put_obj ''cap_path_rules_map'' cid (table_entry MvCap ct)
      (put_obj ''policy_map'' cid (Some (MvPolicy pv)) b0)))"
    by (auto simp: installed_def)
  from assms(2) have "\<forall>n \<in> {''policy_map'', ''cap_path_rules_map'', ''fs_path_rules_map'',
      ''network_rules_map''}. ko_maps b0 n \<noteq> None"
    unfolding b by (simp add: full_object_def has_map_def put_obj_maps split: option.splits)
  then show "policy_of b cid = Some pv" "cap_rules_of b cid = nonempty ct"
    "fs_rules_of b cid = nonempty ft" "net_rules_of b cid = nonempty nt"
    unfolding b policy_of_def cap_rules_of_def fs_rules_of_def net_rules_of_def
    by (simp_all add: put_obj_lookup put_obj_maps table_entry_def nonempty_def)
qed

subsection \<open>Patterns\<close>

definition rule_matches :: "string \<Rightarrow> string \<Rightarrow> bool" where
  "rule_matches pattern s \<longleftrightarrow>
     (if pattern = [] \<or> pattern = ''*'' then s = []
      else if star_char \<in> set pattern
      then starts_with s (if last pattern = star_char then butlast pattern
                          else takeWhile (\<lambda>c. c \<noteq> star_char) pattern)
      else s = pattern)"

lemma compile_glob_cases:
  "compile_glob pattern =
     (if pattern = [] \<or> pattern = ''*'' then (PATH_MATCH_EXACT, [])
      else if star_char \<in> set pattern
      then (PATH_MATCH_PREFIX, if last pattern = star_char then butlast pattern
                               else takeWhile (\<lambda>c. c \<noteq> star_char) pattern)
      else (PATH_MATCH_EXACT, pattern))"
proof (cases "pattern = [] \<or> pattern = ''*''")
  case False
  then have ne: "pattern \<noteq> []" by simp
  show ?thesis
  proof (cases "last pattern = star_char")
    case True
    then have "strip_suffix ''*'' pattern = Some (butlast pattern)"
      using ne by (simp add: strip_suffix_Some) (metis append_butlast_last_id)
    moreover have "star_char \<in> set pattern" using True ne by (metis last_in_set)
    ultimately show ?thesis using False True by (simp add: compile_glob_def)
  next
    case F: False
    then have none: "strip_suffix ''*'' pattern = None"
      using ne by (auto simp: strip_suffix_None)
    show ?thesis
    proof (cases "split_once star_char pattern")
      case None
      then have "star_char \<notin> set pattern" by (simp add: split_once_None)
      then show ?thesis using False none None by (simp add: compile_glob_def)
    next
      case (Some ab)
      obtain a b where ab: "ab = (a, b)" by fastforce
      with Some have p: "pattern = a @ star_char # b" "star_char \<notin> set a"
        by (simp_all add: split_once_Some)
      moreover have "takeWhile (\<lambda>c. c \<noteq> star_char) pattern = a"
        unfolding p(1) using p(2) by (subst takeWhile_append2) auto
      ultimately show ?thesis using False none Some ab F by (simp add: compile_glob_def)
    qed
  qed
qed (simp add: compile_glob_def)

lemma nul_free_sub: "nul_free p \<Longrightarrow> set q \<subseteq> set p \<Longrightarrow> nul_free q"
  by (auto simp: nul_free_def str_bytes_def)

lemma compile_glob_nul_free: "nul_free p \<Longrightarrow> nul_free (snd (compile_glob p))"
  by (auto simp: compile_glob_cases intro!: nul_free_sub [of p] dest: in_set_butlastD set_takeWhileD)

text \<open>
  What the kernel's comparison makes of a pattern: an exact one needs, besides equality, a buffer that
  is clean up to the end of the last word of the path.
\<close>

definition kernel_matches :: "string \<Rightarrow> string \<Rightarrow> bytes \<Rightarrow> bool" where
  "kernel_matches p s buf \<longleftrightarrow>
     rule_matches p s \<and> (fst (compile_glob p) = PATH_MATCH_PREFIX \<or> path_buffer s buf)"

lemma compiled_pattern_string:
  assumes "length p < 256" "nul_free p" "path_string s buf" "nul_free s"
  shows "(if fst (compile_glob p) = PATH_MATCH_PREFIX
          then fs_path_prefix_match buf (path_array (snd (compile_glob p)))
          else fs_path_exact_match buf (path_array (snd (compile_glob p)))) \<longleftrightarrow> kernel_matches p s buf"
proof -
  let ?q = "snd (compile_glob p)"
  have q: "fill_path ?q = Some (path_array ?q)" "nul_free ?q"
    using assms compile_glob_length [of p] compile_glob_nul_free by (auto intro: fill_path_array)
  show ?thesis
    using kernel_prefix_match [OF q assms(3)] kernel_exact_string [OF q assms(3,4)]
    by (auto simp: compile_glob_cases rule_matches_def kernel_matches_def bpf_consts split: if_splits)
qed

lemma compiled_pattern_match:
  assumes "length p < 256" "nul_free p" "path_buffer s buf" "nul_free s"
  shows "(if fst (compile_glob p) = PATH_MATCH_PREFIX
          then fs_path_prefix_match buf (path_array (snd (compile_glob p)))
          else fs_path_exact_match buf (path_array (snd (compile_glob p)))) \<longleftrightarrow> rule_matches p s"
  using compiled_pattern_string [OF assms(1,2) path_buffer_string [OF assms(3)] assms(4)] assms(3)
  by (simp add: kernel_matches_def)

subsection \<open>Filesystem rules\<close>

text \<open>The policy's answer for a reading of its patterns; \<open>fs_denied\<close> is the one the patterns have.\<close>

definition fs_denied_by :: "(string \<Rightarrow> bool) \<Rightarrow> security_policy \<Rightarrow> u8 \<Rightarrow> bool" where
  "fs_denied_by matches policy perm =
     (case List.find (\<lambda>r. matches (fsr_path_prefix r)) (sp_filesystem_access_rules policy) of
        Some r \<Rightarrow> attrs_to_fs_perm (fsr_attrs r) AND perm \<noteq> perm
      | None \<Rightarrow> sp_default_action policy \<noteq> ''allow'')"

definition fs_denied :: "security_policy \<Rightarrow> string \<Rightarrow> u8 \<Rightarrow> bool" where
  "fs_denied policy s perm =
     (case List.find (\<lambda>r. rule_matches (fsr_path_prefix r) s) (sp_filesystem_access_rules policy) of
        Some r \<Rightarrow> attrs_to_fs_perm (fsr_attrs r) AND perm \<noteq> perm
      | None \<Rightarrow> sp_default_action policy \<noteq> ''allow'')"

definition names_exactly :: "security_policy \<Rightarrow> string \<Rightarrow> bool" where
  "names_exactly policy s =
     list_ex (\<lambda>r. rule_matches (fsr_path_prefix r) s \<and> fst (compile_glob (fsr_path_prefix r)) \<noteq> PATH_MATCH_PREFIX)
       (sp_filesystem_access_rules policy)"

lemma fs_denied_by_kernel:
  assumes "path_buffer s buf \<or> \<not> names_exactly policy s"
  shows "fs_denied_by (\<lambda>p. kernel_matches p s buf) policy perm = fs_denied policy s perm"
proof -
  have "List.find (\<lambda>r. kernel_matches (fsr_path_prefix r) s buf) (sp_filesystem_access_rules policy) =
      List.find (\<lambda>r. rule_matches (fsr_path_prefix r) s) (sp_filesystem_access_rules policy)"
    using assms by (intro find_cong) (auto simp: kernel_matches_def names_exactly_def list_ex_iff)
  then show ?thesis by (simp add: fs_denied_by_def fs_denied_def)
qed

lemma fs_rules_loop_compiled:
  assumes "path_string s buf" "nul_free s"
    and "\<forall>r \<in> set rs. length (fsr_path_prefix r) < 256 \<and> nul_free (fsr_path_prefix r)"
  shows "fs_rules_loop (map fs_compiled rs) perm buf =
    (case List.find (\<lambda>r. kernel_matches (fsr_path_prefix r) s buf) rs of
       None \<Rightarrow> - 1
     | Some r \<Rightarrow> if attrs_to_fs_perm (fsr_attrs r) AND perm \<noteq> perm then 1 else 0)"
  using assms(3)
proof (induction rs)
  case (Cons r rs)
  then show ?case
    using compiled_pattern_string [of "fsr_path_prefix r" s buf] assms(1,2)
    by (simp add: fs_compiled_def cong: if_cong)
qed simp

lemma from_policy_simps [bpf_table]:
  "pv_enforcement_mode (from_policy p port) = (if sp_enforcement_mode p = ''alert'' then 1 else 0)"
  "pv_default_action (from_policy p port) = (if sp_default_action p = ''allow'' then 0 else 1)"
  "pv_container_port (from_policy p port) = port"
  by (simp_all add: from_policy_def bpf_consts split: prod.split)

definition printable_fs :: "security_policy \<Rightarrow> bool" where
  "printable_fs policy = list_all (\<lambda>r. nul_free (fsr_path_prefix r)) (sp_filesystem_access_rules policy)"

lemma check_fs_installed:
  assumes "update_from_security_policy acc cid policy port ld = (Done u, ld')"
    and "b \<in> set (ld_bpf ld')" "full_object b" "printable_fs policy"
  shows "policy_of b cid = Some (from_policy policy port)"
    and "path_string s buf \<Longrightarrow> nul_free s \<Longrightarrow> check_fs_path_rules b cid perm buf =
      (case List.find (\<lambda>r. kernel_matches (fsr_path_prefix r) s buf) (sp_filesystem_access_rules policy) of
         None \<Rightarrow> - 1
       | Some r \<Rightarrow> if attrs_to_fs_perm (fsr_attrs r) AND perm \<noteq> perm then 1 else 0)"
proof -
  let ?rs = "sp_filesystem_access_rules policy"
  from assms(1) obtain ct ft nt where
    lim: "check_limits policy = Inr ()" and
    ft: "table_ok ft" "used_rules ft = map fs_compiled ?rs" and
    ld': "ld' = installed cid (from_policy policy port) ct ft nt ld"
    by (rule update_done) blast
  from installed_lookup [OF assms(2) [unfolded ld'] assms(3)]
  have look: "policy_of b cid = Some (from_policy policy port)" "fs_rules_of b cid = nonempty ft"
    by simp_all
  then show "policy_of b cid = Some (from_policy policy port)" by simp
  assume str: "path_string s buf" "nul_free s"
  have "check_fs_path_rules b cid perm buf = fs_rules_loop (map fs_compiled ?rs) perm buf"
    using ft look count_zero [OF ft(1)] take_used [OF ft(1)]
    by (auto simp: check_fs_path_rules_def nonempty_def bpf_consts)
  also have "\<forall>r \<in> set ?rs. length (fsr_path_prefix r) < 256 \<and> nul_free (fsr_path_prefix r)"
    using check_limits_ok(5) [OF lim] assms(4) by (auto simp: printable_fs_def list_all_iff)
  note fs_rules_loop_compiled [OF str this, of perm]
  finally show "check_fs_path_rules b cid perm buf =
      (case List.find (\<lambda>r. kernel_matches (fsr_path_prefix r) s buf) ?rs of
         None \<Rightarrow> - 1
       | Some r \<Rightarrow> if attrs_to_fs_perm (fsr_attrs r) AND perm \<noteq> perm then 1 else 0)" .
qed

text \<open>
  The socket of the controller, and the answer to the opening of a file whose path could be read, or
  could not: then only the default action decides.
\<close>

definition sock_blocked :: "kobj \<Rightarrow> u64 \<Rightarrow> bytes option \<Rightarrow> bool" where
  "sock_blocked b cid path =
     (case (sock_block_of b cid, path) of
        (Some e, Some buf) \<Rightarrow> fs_path_exact_match buf (sbe_path e) | _ \<Rightarrow> False)"

definition file_refused :: "security_policy \<Rightarrow> string \<Rightarrow> bytes option \<Rightarrow> u8 \<Rightarrow> bool" where
  "file_refused policy s path perm \<longleftrightarrow> perm \<noteq> 0 \<and>
     (case path of
        None \<Rightarrow> sp_default_action policy \<noteq> ''allow''
      | Some buf \<Rightarrow> fs_denied_by (\<lambda>p. kernel_matches p s buf) policy perm)"

definition readable_path :: "string \<Rightarrow> bytes option \<Rightarrow> bool" where
  "readable_path s path \<longleftrightarrow> (case path of None \<Rightarrow> True | Some buf \<Rightarrow> path_string s buf \<and> nul_free s)"

lemma file_refused_clean:
  "path_buffer s buf \<or> \<not> names_exactly policy s \<Longrightarrow>
     file_refused policy s (Some buf) perm \<longleftrightarrow> perm \<noteq> 0 \<and> fs_denied policy s perm"
  by (simp add: file_refused_def fs_denied_by_kernel)

text \<open>An object that holds the policy's entries decides as the policy, whatever else it holds.\<close>

lemma file_open_by_tables:
  assumes "policy_of b cid = Some (from_policy policy port)" "readable_path s path"
    and "\<And>buf perm. path_string s buf \<Longrightarrow> nul_free s \<Longrightarrow> check_fs_path_rules b cid perm buf =
      (case List.find (\<lambda>r. kernel_matches (fsr_path_prefix r) s buf) (sp_filesystem_access_rules policy) of
         None \<Rightarrow> - 1
       | Some r \<Rightarrow> if attrs_to_fs_perm (fsr_attrs r) AND perm \<noteq> perm then 1 else 0)"
  shows "fst (handle_file_open room b cid pid path f_mode) =
    (if (sock_blocked b cid path \<or> file_refused policy s path (fmode_to_perm f_mode)) \<and>
        sp_enforcement_mode policy \<noteq> ''alert''
     then - EACCES else 0)"
proof (cases path)
  case None
  with assms(1) show ?thesis
    by (auto simp: handle_file_open_def Let_def bpf_table emit_fs_event_def sock_blocked_def file_refused_def
        bpf_consts split: option.splits)
next
  case (Some buf)
  with assms(2) have rules: "check_fs_path_rules b cid (fmode_to_perm f_mode) buf =
      (case List.find (\<lambda>r. kernel_matches (fsr_path_prefix r) s buf) (sp_filesystem_access_rules policy) of
         None \<Rightarrow> - 1
       | Some r \<Rightarrow> if attrs_to_fs_perm (fsr_attrs r) AND fmode_to_perm f_mode \<noteq> fmode_to_perm f_mode
                   then 1 else 0)"
    by (intro assms(3)) (simp_all add: readable_path_def)
  show ?thesis
    using assms(1) rules
    by (auto simp: Some handle_file_open_def Let_def bpf_table emit_fs_event_def sock_blocked_def
        file_refused_def fs_denied_by_def bpf_consts split: option.splits)
qed

text \<open>
  C32. Once a policy has been written, every loaded kernel object answers the opening of a file as
  the policy reads: in block mode it refuses exactly the controller's socket, where it holds that
  path, and, for an opening that asks for some permission, the files the policy denies, by its first
  rule whose pattern matches the path or else by its default action; when the path could not be
  read the default action decides.  Of the buffer only the path and its NUL are assumed.  The pattern matches as
  it reads, except that an exact one also needs the bytes of the path's last word after the NUL to
  be zero; so the answer is the policy's own whenever they are, or no exact pattern names the file.
\<close>

theorem fs_policy_is_enforced:
  assumes "update_from_security_policy acc cid policy port ld = (Done u, ld')"
    and "b \<in> set (ld_bpf ld')" "full_object b" "printable_fs policy"
    and "readable_path s path"
  shows "fst (handle_file_open room b cid pid path f_mode) =
    (if (sock_blocked b cid path \<or> file_refused policy s path (fmode_to_perm f_mode)) \<and>
        sp_enforcement_mode policy \<noteq> ''alert''
     then - EACCES else 0) \<and>
    (\<forall>buf perm. path_buffer s buf \<or> \<not> names_exactly policy s \<longrightarrow>
       file_refused policy s (Some buf) perm = (perm \<noteq> 0 \<and> fs_denied policy s perm))"
  using file_open_by_tables [OF check_fs_installed(1) [OF assms(1-4)] assms(5)
      check_fs_installed(2) [OF assms(1-4)]] file_refused_clean
  by blast

end
