(* ===== verification/SecDecide.thy ===== *)
theory SecDecide
  imports SecEnforce
begin

text \<open>
  Capability and network decisions of a written policy, and what the loader's tables are worth:
  they agree with the kernel under every operation but a rollback, a rejected network rule leaves
  half a policy behind, and addresses of network rules are compiled in the wrong byte order.
\<close>

section \<open>Capability rules\<close>

lemma and_exp_neq_0: "(m :: u64) AND push_bit n 1 \<noteq> 0 \<longleftrightarrow> bit m n"
  by (simp add: push_bit_of_1 and_exp_eq_0_iff_not_bit)

definition lists_cap :: "nat \<Rightarrow> string list \<Rightarrow> bool" where
  "lists_cap n caps \<longleftrightarrow> (\<exists>c \<in> set caps. cap_name_to_bit c = Some n)"

lemma bit_push_1: "n < 64 \<Longrightarrow> bit ((2 :: u64) ^ k) n \<longleftrightarrow> k = n"
  by (auto simp: bit_exp_iff)

lemma bit_cap_bits: "n < 64 \<Longrightarrow> bit (cap_bits caps m) n \<longleftrightarrow> bit m n \<or> lists_cap n caps"
  by (induction caps arbitrary: m)
     (auto simp: cap_bits_def lists_cap_def bit_or_iff bit_push_1 split: option.splits)

lemma scan_caps_iff:
  "n < 64 \<Longrightarrow> scan_caps hp caps (m, h) = (m', h') \<Longrightarrow>
     (bit m' n \<longleftrightarrow> bit m n \<or> (\<not> hp \<and> lists_cap n caps)) \<and>
     (h' \<longleftrightarrow> h \<or> (hp \<and> (\<exists>k. lists_cap k caps)))"
proof (induction caps arbitrary: m h)
  case (Cons c caps)
  show ?case
  proof (cases "cap_name_to_bit c")
    case None
    with Cons.IH [of m h] Cons.prems show ?thesis by (auto simp: lists_cap_def)
  next
    case (Some k)
    let ?m = "if hp then m else m OR push_bit k 1"
    have "scan_caps hp caps (?m, h \<or> hp) = (m', h')" using Cons.prems(2) Some by (cases hp) auto
    from Cons.IH [OF Cons.prems(1) this] Some Cons.prems(1) show ?thesis
      by (auto simp: lists_cap_def bit_or_iff bit_push_1)
  qed
qed (simp add: lists_cap_def)

lemma scan_cap_rules_iff:
  "n < 64 \<Longrightarrow> scan_cap_rules rs (m, h) = (m', h') \<Longrightarrow>
     (bit m' n \<longleftrightarrow> bit m n \<or> (\<exists>r \<in> set rs. \<not> has_path r \<and> lists_cap n (cap_capabilities r))) \<and>
     (h' \<longleftrightarrow> h \<or> (\<exists>r \<in> set rs. has_path r \<and> (\<exists>k. lists_cap k (cap_capabilities r))))"
proof (induction rs arbitrary: m h)
  case (Cons r rs)
  obtain m1 h1 where st: "scan_caps (has_path r) (cap_capabilities r) (m, h) = (m1, h1)" by fastforce
  from Cons.IH [OF Cons.prems(1), of m1 h1] Cons.prems st scan_caps_iff [OF Cons.prems(1) st]
  show ?case by auto
qed simp

lemma from_policy_caps:
  assumes "n < 64"
  shows "bit (pv_cap_mask (from_policy p port)) n \<longleftrightarrow>
      (\<exists>r \<in> set (sp_privilege_escalation_rules p). \<not> has_path r \<and> lists_cap n (cap_capabilities r))"
    and "pv_has_path_rules (from_policy p port) \<noteq> 0 \<longleftrightarrow>
      (\<exists>r \<in> set (sp_privilege_escalation_rules p). has_path r \<and> (\<exists>k. lists_cap k (cap_capabilities r)))"
proof -
  obtain m h where s: "scan_cap_rules (sp_privilege_escalation_rules p) (0, False) = (m, h)" by fastforce
  show "bit (pv_cap_mask (from_policy p port)) n \<longleftrightarrow>
      (\<exists>r \<in> set (sp_privilege_escalation_rules p). \<not> has_path r \<and> lists_cap n (cap_capabilities r))"
    and "pv_has_path_rules (from_policy p port) \<noteq> 0 \<longleftrightarrow>
      (\<exists>r \<in> set (sp_privilege_escalation_rules p). has_path r \<and> (\<exists>k. lists_cap k (cap_capabilities r)))"
    using scan_cap_rules_iff [OF assms s] by (auto simp: from_policy_def s)
qed

lemma aggregate_bits:
  assumes "n < 64"
  shows "aggregate_from rs (order, masks) = (order', masks') \<Longrightarrow>
    (case masks' p of None \<Rightarrow> False | Some m \<Rightarrow> bit m n) \<longleftrightarrow>
      (case masks p of None \<Rightarrow> False | Some m \<Rightarrow> bit m n) \<or>
      (\<exists>r \<in> set rs. has_path r \<and> cap_path_pattern r = Some p \<and> lists_cap n (cap_capabilities r))"
proof (induction rs arbitrary: order masks)
  case (Cons r rs)
  show ?case
  proof (cases "has_path r")
    case False
    then have "aggregate_from rs (order, masks) = (order', masks')" using Cons.prems by simp
    from Cons.IH [OF this] False show ?thesis by simp
  next
    case True
    then obtain q where q: "cap_path_pattern r = Some q" by (auto simp: has_path_iff)
    from Cons.prems True q have
      "aggregate_from rs (if q \<in> set order then order else order @ [q],
         masks(q \<mapsto> cap_bits (cap_capabilities r) (case masks q of None \<Rightarrow> 0 | Some m \<Rightarrow> m))) =
       (order', masks')" by simp
    from Cons.IH [OF this] True q assms show ?thesis
      by (auto simp: bit_cap_bits split: option.splits if_splits)
  qed
qed simp

lemma cap_rules_loop_compiled:
  assumes "path_buffer s buf" "nul_free s" "n < 64"
    and "\<forall>p \<in> set ps. length p < 256 \<and> nul_free p"
  shows "cap_rules_loop (map (cap_compiled masks) ps) (push_bit n 1) buf \<longleftrightarrow>
    (\<exists>p \<in> set ps. rule_matches p s \<and> bit (the (masks p)) n)"
  using assms(4)
proof (induction ps)
  case (Cons p ps)
  then show ?case
    using compiled_pattern_match [of p s buf] assms(1,2) and_exp_neq_0 [of "the (masks p)" n]
    by (auto simp: cap_compiled_def cong: if_cong)
qed simp

text \<open>A capability is denied to an executable by a rule for every path, by one for its path, or by default.\<close>

definition cap_denied :: "security_policy \<Rightarrow> nat \<Rightarrow> string \<Rightarrow> bool" where
  "cap_denied policy n exe \<longleftrightarrow>
     (\<exists>r \<in> set (sp_privilege_escalation_rules policy). lists_cap n (cap_capabilities r) \<and>
        (case cap_path_pattern r of
           None \<Rightarrow> True
         | Some p \<Rightarrow> p = [] \<or> p = ''*'' \<or> rule_matches p exe)) \<or>
     sp_default_action policy \<noteq> ''allow''"

definition printable_caps :: "security_policy \<Rightarrow> bool" where
  "printable_caps policy =
     list_all (\<lambda>r. case cap_path_pattern r of None \<Rightarrow> True | Some p \<Rightarrow> nul_free p)
       (sp_privilege_escalation_rules policy)"

text \<open>
  C33. Once a policy has been written, every loaded kernel object answers a capability check as the
  policy reads: a capability is refused to an executable when a rule without a path, or a rule
  whose pattern matches the executable, lists its name, or when the default action is not allow;
  the bit masks, the merged path table and the flag agree on this.  The buffer is clean after the
  path, as \<open>get_source\<close> leaves it: it builds the path in the lower half of a buffer whose upper half
  is never written.
\<close>

theorem cap_policy_is_enforced:
  assumes "update_from_security_policy acc cid policy port ld = (Done u, ld')"
    and "b \<in> set (ld_bpf ld')" "full_object b" "printable_caps policy"
    and "path_buffer exe buf" "nul_free exe" "n < 64"
  shows "fst (handle_capable room b cid pid (int n) (Some buf)) =
    (if cap_denied policy n exe \<and> sp_enforcement_mode policy \<noteq> ''alert'' then - EPERM else 0)"
proof -
  let ?rs = "sp_privilege_escalation_rules policy" and ?pv = "from_policy policy port"
  from assms(1) obtain order masks ct ft nt where
    lim: "check_limits policy = Inr ()" and agg: "aggregate_cap_path_rules policy = (order, masks)" and
    ct: "table_ok ct" "used_rules ct = map (cap_compiled masks) order" and
    ld': "ld' = installed cid ?pv ct ft nt ld"
    by (rule update_done) blast
  from installed_lookup [OF assms(2) [unfolded ld'] assms(3)]
  have look: "policy_of b cid = Some ?pv" "cap_rules_of b cid = nonempty ct" by simp_all
  from agg have agg': "aggregate_from ?rs ([], Map.empty) = (order, masks)"
    by (simp add: aggregate_cap_path_rules_def)
  from aggregate_from_inv [OF _ _ agg']
  have order: "dom masks = set order"
      "set order = {p. \<exists>r \<in> set ?rs. has_path r \<and> cap_path_pattern r = Some p}" by simp_all
  have pats: "\<forall>p \<in> set order. length p < 256 \<and> nul_free p"
    using check_limits_ok(4) [OF lim] assms(4) unfolding order
    by (force simp: printable_caps_def list_all_iff)
  have bits: "p \<in> set order \<Longrightarrow> bit (the (masks p)) n \<longleftrightarrow>
      (\<exists>r \<in> set ?rs. has_path r \<and> cap_path_pattern r = Some p \<and> lists_cap n (cap_capabilities r))" for p
    using aggregate_bits [OF assms(7) agg', of p] order(1) by (auto split: option.splits)
  have "check_path_rules b cid n (Some buf) \<longleftrightarrow>
      cap_rules_loop (map (cap_compiled masks) order) (push_bit n 1) buf"
    using ct look count_zero [OF ct(1)] take_used [OF ct(1)]
    by (auto simp: check_path_rules_def nonempty_def bpf_consts)
  also have "\<dots> \<longleftrightarrow> (\<exists>p \<in> set order. rule_matches p exe \<and> bit (the (masks p)) n)"
    by (rule cap_rules_loop_compiled [OF assms(5-7) pats])
  also have "\<dots> \<longleftrightarrow> (\<exists>r \<in> set ?rs. has_path r \<and> lists_cap n (cap_capabilities r) \<and>
      (\<exists>p. cap_path_pattern r = Some p \<and> rule_matches p exe))"
    using bits unfolding order by blast
  finally have paths: "check_path_rules b cid n (Some buf) \<longleftrightarrow>
      (\<exists>r \<in> set ?rs. has_path r \<and> lists_cap n (cap_capabilities r) \<and>
        (\<exists>p. cap_path_pattern r = Some p \<and> rule_matches p exe))" .
  have matched: "(pv_cap_mask ?pv AND push_bit n 1 \<noteq> 0 \<or>
      pv_has_path_rules ?pv \<noteq> 0 \<and> check_path_rules b cid n (Some buf)) \<longleftrightarrow>
      (\<exists>r \<in> set ?rs. lists_cap n (cap_capabilities r) \<and>
        (case cap_path_pattern r of None \<Rightarrow> True
         | Some p \<Rightarrow> p = [] \<or> p = ''*'' \<or> rule_matches p exe))"
    unfolding and_exp_neq_0 from_policy_caps [OF assms(7)] paths
    by (auto simp: has_path_def split: option.splits) (metis option.inject)+
  show ?thesis
    using assms(7) look matched
    by (auto simp: handle_capable_def Let_def cap_denied_def bpf_table emit_event_def bpf_consts)
qed

section \<open>Addresses of network rules\<close>

lemma masked_eq_iff:
  "(x :: u32) AND NOT (mask k) = y AND NOT (mask k) \<longleftrightarrow> drop_bit k x = drop_bit k y"
proof
  assume eq: "x AND NOT (mask k) = y AND NOT (mask k)"
  have "bit x (k + n) = bit y (k + n)" for n
    using arg_cong [OF eq, of "\<lambda>w. bit w (k + n)"] bit_imp_le_length [of x "k + n"]
      bit_imp_le_length [of y "k + n"]
    by (auto simp: bit_and_iff bit_not_iff bit_mask_iff)
  then show "drop_bit k x = drop_bit k y"
    by (intro bit_word_eqI) (simp add: bit_drop_bit_eq)
next
  assume eq: "drop_bit k x = drop_bit k y"
  show "x AND NOT (mask k) = y AND NOT (mask k)"
  proof (rule bit_word_eqI)
    fix n
    have "bit x n = bit y n" if "k \<le> n"
      using arg_cong [OF eq, of "\<lambda>w. bit w (n - k)"] that by (simp add: bit_drop_bit_eq)
    then show "bit (x AND NOT (mask k)) n = bit (y AND NOT (mask k)) n"
      by (auto simp: bit_and_iff bit_not_iff bit_mask_iff)
  qed
qed

lemma and_ones [simp]: "(x :: u32) AND 0xFFFFFFFF = x"
proof -
  have "x AND mask 32 = x" by (simp add: take_bit_word_eq_self flip: take_bit_eq_mask)
  then show ?thesis by (simp add: mask_eq_exp_minus_1)
qed

lemma cidr_mask:
  "n \<le> 32 \<Longrightarrow> n \<noteq> 0 \<Longrightarrow>
     (if n \<ge> 32 then 0xFFFFFFFF else push_bit (32 - n) (push_bit n 1 - 1)) = (NOT (mask (32 - n)) :: u32)"
proof -
  assume n: "n \<le> 32" "n \<noteq> 0"
  have "push_bit (32 - n) (push_bit n 1 - 1) = (NOT (mask (32 - n)) :: u32)" if "n < 32"
  proof -
    have "push_bit n 1 - 1 = (mask n :: u32)" by (simp add: mask_eq_exp_minus_1)
    then show ?thesis using that by (auto intro!: bit_word_eqI simp: bit_simps)
  qed
  with n show ?thesis by auto
qed

text \<open>
  The base and mask compiled from a target have the form of a prefix: the mask has its first
  bits set, the base has no bit outside the mask, and the kernel's test on them is equality of the
  first bits; a target outside 0 to 32 bits or with an octet above 255 does not compile.
\<close>

theorem parse_target_is_prefix:
  assumes "parse_target target = Inr (ip, m)"
  shows "\<exists>n \<le> 32. m = NOT (mask (32 - n)) \<and> ip AND m = ip \<and>
    (\<forall>x. x AND m = ip AND m \<longleftrightarrow> drop_bit (32 - n) x = drop_bit (32 - n) ip)"
proof -
  have full: "NOT (mask 32) = (0 :: u32)" by (simp add: mask_eq_exp_minus_1)
  have "\<exists>n \<le> 32. m = NOT (mask (32 - n)) \<and> ip AND m = ip"
  proof (cases "target = ''*'' \<or> target = []")
    case True
    with assms full show ?thesis by (auto simp: parse_target_def intro!: exI [of _ 0])
  next
    case False
    show ?thesis
    proof (cases "split_once (CHR ''/'') target")
      case None
      with assms False show ?thesis
        by (auto simp: parse_target_def intro!: exI [of _ 32] split: sum.splits)
    next
      case (Some ab)
      obtain a b where ab: "ab = (a, b)" by fastforce
      from assms False Some ab obtain ip0 n where
        n: "parse_uint 4294967295 b = Some n" "n \<le> 32" "parse_ipv4 a = Inr ip0" and
        im: "(ip, m) = (if n = 0 then (0, 0)
          else (let m = (if n \<ge> 32 then 0xFFFFFFFF else push_bit (32 - n) (push_bit n 1 - 1))
                in (ip0 AND m, m)))"
        by (auto simp: parse_target_def Let_def split: sum.splits option.splits if_splits)
      show ?thesis
      proof (cases "n = 0")
        case True
        with im full show ?thesis by (auto intro!: exI [of _ 0])
      next
        case False
        with im cidr_mask [OF n(2)] have "m = NOT (mask (32 - n))" "ip = ip0 AND m"
          by (simp_all add: Let_def)
        with n(2) show ?thesis by (auto intro!: exI [of _ n] simp: and.assoc)
      qed
    qed
  qed
  then show ?thesis using masked_eq_iff by metis
qed

lemma parse_target_is_prefix_witness:
  "parse_target ''10.1.2.3/16'' = Inr (0x0A010000, 0xFFFF0000) \<and>
   (\<exists>n \<le> 32. (0xFFFF0000 :: u32) = NOT (mask (32 - n)) \<and> 0x0A010000 AND 0xFFFF0000 = (0x0A010000 :: u32) \<and>
    (\<forall>x. x AND 0xFFFF0000 = 0x0A010000 AND (0xFFFF0000 :: u32) \<longleftrightarrow>
       drop_bit (32 - n) x = drop_bit (32 - n) 0x0A010000))"
proof -
  have p: "parse_target ''10.1.2.3/16'' = Inr (0x0A010000, 0xFFFF0000)"
    by (simp add: parse_target_def parse_ipv4_def parse_uint_def digit_val_def Let_def)
  show ?thesis by (rule conjI [OF p parse_target_is_prefix [OF p]])
qed

subsection \<open>Byte order\<close>

text \<open>
  An address as a number has its first octet on top; the kernel hands out addresses in network
  byte order, which a little-endian machine reads with the octets reversed.
\<close>

definition bswap32 :: "u32 \<Rightarrow> u32" where
  "bswap32 w = from_le_bytes (ucast (drop_bit 24 w)) (ucast (drop_bit 16 w)) (ucast (drop_bit 8 w)) (ucast w)"

lemma bswap32_bswap32 [simp]: "bswap32 (bswap32 w) = w"
proof -
  have "to_le_bytes (bswap32 w) = [ucast (drop_bit 24 w), ucast (drop_bit 16 w), ucast (drop_bit 8 w), ucast w]"
    unfolding bswap32_def by (rule to_from_le_bytes)
  then have "bswap32 (bswap32 w) = from_le_bytes (ucast w) (ucast (drop_bit 8 w)) (ucast (drop_bit 16 w)) (ucast (drop_bit 24 w))"
    by (simp add: bswap32_def [of "bswap32 w"] to_le_bytes_def)
  then show ?thesis by simp
qed

lemma bswap32_eq: "bswap32 a = b \<longleftrightarrow> a = bswap32 b"
  by (metis bswap32_bswap32)

lemma split_char_end: "c \<notin> set p \<Longrightarrow> split_char c acc p = [rev acc @ p]"
  by (induction p arbitrary: acc) auto

lemma split_char_cons: "c \<notin> set p \<Longrightarrow> split_char c acc (p @ c # s) = (rev acc @ p) # split_char c [] s"
  by (induction p arbitrary: acc) auto

lemma dec_string_no_dot: "CHR ''.'' \<notin> set (dec_string n)"
proof
  assume "CHR ''.'' \<in> set (dec_string n)"
  then obtain d where "d < 10" "CHR ''.'' = digit_char d" using dec_string_digits by blast
  then have "(of_char (CHR ''.'') :: nat) = 48 + d" by (simp add: digit_char_code)
  then show False by simp
qed

lemma split_v4: "split_char (CHR ''.'') [] (v4_string w) =
    map (\<lambda>k. dec_string (unat (drop_bit k w AND 0xFF))) [24, 16, 8, 0]"
  by (simp add: v4_string_def split_char_cons split_char_end dec_string_no_dot)

lemma octet_less: "unat ((w :: u32) AND 0xFF) \<le> 255"
proof -
  have "w AND 0xFF \<le> 0xFF" by (rule word_and_le1)
  then show ?thesis by (simp add: word_le_nat_alt)
qed

lemma octets_join:
  "push_bit 8 (push_bit 8 (push_bit 8 (push_bit 8 0 OR drop_bit 24 w AND 0xFF) OR
     drop_bit 16 w AND 0xFF) OR drop_bit 8 w AND 0xFF) OR (w AND 0xFF) = (w :: u32)"
proof -
  have mask: "(0xFF :: u32) = mask 8" by (simp add: mask_eq_exp_minus_1)
  show ?thesis
    unfolding mask
  proof (rule bit_word_eqI)
    fix n :: nat
    assume "n < LENGTH(32)"
    consider "n < 8" | "8 \<le> n" "n < 16" | "16 \<le> n" "n < 24" | "24 \<le> n" by linarith
    then show "bit (push_bit 8 (push_bit 8 (push_bit 8 (push_bit 8 0 OR drop_bit 24 w AND mask 8) OR
        drop_bit 16 w AND mask 8) OR drop_bit 8 w AND mask 8) OR (w AND mask 8)) n = bit w n"
      using \<open>n < LENGTH(32)\<close> by cases (auto simp: bit_simps)
  qed
qed

lemma parse_ipv4_string: "parse_ipv4 (v4_string w) = Inr w"
proof -
  have o: "parse_uint 4294967295 (dec_string (unat ((x :: u32) AND 0xFF))) = Some (unat (x AND 0xFF))" for x
    using octet_less [of x] by (intro parse_uint_dec) simp
  have lt: "\<not> 255 < unat ((x :: u32) AND 0xFF)" for x using octet_less [of x] by simp
  have "parse_ipv4 (v4_string w) = Inr (push_bit 8 (push_bit 8 (push_bit 8 (push_bit 8 0 OR drop_bit 24 w AND 0xFF) OR
     drop_bit 16 w AND 0xFF) OR drop_bit 8 w AND 0xFF) OR (w AND 0xFF))"
    unfolding parse_ipv4_def Let_def split_v4 by (simp add: o lt)
  then show ?thesis by (simp only: octets_join)
qed

lemma v4_string_no_slash: "CHR ''/'' \<notin> set (v4_string w)"
  using dec_string_digits digit_char_neq(3) by (fastforce simp: v4_string_def)

lemma v4_string_proper: "v4_string w \<noteq> ''*''" "v4_string w \<noteq> []"
proof -
  have "length (v4_string w) \<ge> 3" by (simp add: v4_string_def)
  then show "v4_string w \<noteq> ''*''" "v4_string w \<noteq> []" by auto
qed

lemma parse_target_address: "parse_target (v4_string w) = Inr (w, 0xFFFFFFFF)"
  using v4_string_no_slash [of w] v4_string_proper [of w]
  by (simp add: parse_target_def split_once_None [THEN iffD2] parse_ipv4_string)

definition address_rule :: "u32 \<Rightarrow> string \<Rightarrow> network_rule" where
  "address_rule ip action =
     \<lparr>nr_operation = ''connect'', nr_target = v4_string ip, nr_port = ''*'', nr_protocol = ''*'',
      nr_action = action\<rparr>"

lemma from_address_rule:
  "from_rule (address_rule ip ''block'') =
     Inr \<lparr>nrb_target_ip = ip, nrb_target_mask = 0xFFFFFFFF, nrb_port = 0, nrb_protocol = 0, nrb_action = 1\<rparr>"
  by (simp add: from_rule_def address_rule_def parse_target_address parse_port_def parse_protocol_def
      Let_def bpf_consts) (simp add: ascii_lower_def)

text \<open>
  C37. A policy that allows by default and blocks one IPv4 address blocks, on a little-endian
  machine, exactly the address with the octets in reverse order: connections to the address of
  the rule go through unless it reads the same backwards.
\<close>

theorem address_rule_blocks_reversed_address:
  assumes "update_from_security_policy acc cid policy 0 ld = (Done u, ld')"
    and "b \<in> set (ld_bpf ld')" "full_object b"
    and "sp_default_action policy = ''allow''" "sp_network_rules policy = [address_rule ip ''block'']"
    and "sa_user_ip4 ctx = bswap32 dst"
  shows "fst (handle_connect4 room b cid pid ctx) = (if dst = bswap32 ip then 0 else 1)"
proof -
  let ?c = "\<lparr>nrb_target_ip = ip, nrb_target_mask = 0xFFFFFFFF, nrb_port = 0, nrb_protocol = 0,
      nrb_action = 1\<rparr>"
  from assms(1) obtain ct ft nt cs where
    nt: "table_ok nt" "used_rules nt = cs"
      "list_all2 (\<lambda>r c. from_rule r = Inr c) (sp_network_rules policy) cs" and
    ld': "ld' = installed cid (from_policy policy 0) ct ft nt ld"
    by (rule update_done) blast
  have cs: "cs = [?c]"
    using nt(3) by (auto simp: assms(5) list_all2_Cons1 from_address_rule)
  from installed_lookup [OF assms(2) [unfolded ld'] assms(3)]
  have look: "policy_of b cid = Some (from_policy policy 0)" "net_rules_of b cid = nonempty nt"
    by simp_all
  have "0 < rt_count nt" using count_zero [OF nt(1)] nt(2) cs by auto
  then have rules: "net_rules_of b cid = Some nt" using look by (simp add: nonempty_def)
  have "check_network_rules b cid (bswap32 dst) port proto 0 = (if bswap32 dst = ip then 1 else 0)"
    for port proto
    using take_used [OF nt(1)] rules
    by (simp add: check_network_rules_def nt(2) cs match_network_rule_def bpf_consts)
  then show ?thesis
    using look assms(4,6) bswap32_eq [of dst ip]
    by (auto simp: handle_connect4_def Let_def bpf_table bpf_consts)
qed

section \<open>Updates the kernel accepts\<close>

abbreviation accept_all :: acceptor where "accept_all \<equiv> \<lambda>_ _ _. True"

lemma write_accepted [bpf_table]:
  "write_kernel_hash accept_all name k v ld =
     (Done (), ld\<lparr>ld_bpf := map (put_obj name k (Some v)) (ld_bpf ld)\<rparr>)"
  by (simp add: write_kernel_hash_def write_objs_accepting)

lemma then_do_done [simp]: "m s = (Done x, s') \<Longrightarrow> then_do m f s = f x s'"
  by (simp add: then_do_def)

lemma modify_apply: "modify f s = (Done (), f s)"
  by (simp add: modify_def)

lemma apply_cap_accepted:
  "apply_cap_path_rules accept_all cid t ld =
     (Done (), ld\<lparr>ld_bpf := map (put_obj ''cap_path_rules_map'' cid (table_entry MvCap t)) (ld_bpf ld),
                  ld_cap := (ld_cap ld)(cid := nonempty t)\<rparr>)"
  by (simp add: apply_cap_path_rules_def then_do_def modify_apply write_accepted delete_kernel_eq
      table_entry_def nonempty_def)

lemma update_fs_accepted:
  "build_fs_rules (sp_filesystem_access_rules policy) fs_path_rules_default = Some t \<Longrightarrow>
     update_fs_path_rules accept_all cid policy ld =
       (Done (), ld\<lparr>ld_bpf := map (put_obj ''fs_path_rules_map'' cid (table_entry MvFs t)) (ld_bpf ld),
                    ld_fs := (ld_fs ld)(cid := nonempty t)\<rparr>)"
  by (simp add: update_fs_path_rules_def then_do_def modify_apply write_accepted delete_kernel_eq
      table_entry_def nonempty_def)

lemma update_net_accepted:
  "build_net_rules (sp_network_rules policy) network_rules_default = Done t \<Longrightarrow>
     update_network_rules accept_all cid policy ld =
       (Done (), ld\<lparr>ld_bpf := map (put_obj ''network_rules_map'' cid (table_entry MvNet t)) (ld_bpf ld),
                    ld_net := (ld_net ld)(cid := nonempty t)\<rparr>)"
  by (simp add: update_network_rules_def then_do_def modify_apply write_accepted delete_kernel_eq
      table_entry_def nonempty_def)

text \<open>The objects and tables after everything but the network rules was written.\<close>

definition half_installed ::
  "u64 \<Rightarrow> policy_value \<Rightarrow> cap_path_rules \<Rightarrow> fs_path_rules \<Rightarrow> loader \<Rightarrow> loader" where
  "half_installed cid pv ct ft ld =
     ld\<lparr>ld_policy := (ld_policy ld)(cid \<mapsto> pv),
        ld_cap := (ld_cap ld)(cid := nonempty ct),
        ld_bpf := map (\<lambda>b. put_obj ''fs_path_rules_map'' cid (table_entry MvFs ft)
                        (put_obj ''cap_path_rules_map'' cid (table_entry MvCap ct)
                        (put_obj ''policy_map'' cid (Some (MvPolicy pv)) b))) (ld_bpf ld),
        ld_fs := (ld_fs ld)(cid := nonempty ft)\<rparr>"

lemma update_accepted:
  assumes "ld_loaded ld" "check_limits policy = Inr ()"
  obtains order masks ct ft where
    "aggregate_cap_path_rules policy = (order, masks)"
    "table_ok ct" "used_rules ct = map (cap_compiled masks) order"
    "table_ok ft" "used_rules ft = map fs_compiled (sp_filesystem_access_rules policy)"
    "update_from_security_policy accept_all cid policy port ld =
       update_network_rules accept_all cid policy
         (half_installed cid (from_policy policy port) ct ft ld)"
proof -
  obtain order masks where agg: "aggregate_cap_path_rules policy = (order, masks)" by fastforce
  from build_cap_ok [OF assms(2) agg] obtain ct where
    ct: "build_cap_path_rules order masks = Some ct" "table_ok ct"
      "used_rules ct = map (cap_compiled masks) order" by blast
  from build_fs_rules_ok [of "sp_filesystem_access_rules policy" fs_path_rules_default]
    check_limits_ok(2,5) [OF assms(2)] obtain ft where
    ft: "build_fs_rules (sp_filesystem_access_rules policy) fs_path_rules_default = Some ft"
      "table_ok ft" "used_rules ft = map fs_compiled (sp_filesystem_access_rules policy)"
    by (auto simp: bpf_table)
  have "update_from_security_policy accept_all cid policy port ld =
       update_network_rules accept_all cid policy
         (half_installed cid (from_policy policy port) ct ft ld)"
    using assms ct(1)
    by (simp add: update_from_security_policy_def Let_def write_accepted modify_apply
        update_cap_path_rules_def agg apply_cap_accepted update_fs_accepted [OF ft(1)]
        half_installed_def comp_def)
  with agg ct ft show ?thesis by (intro that) simp_all
qed

lemma half_then_net:
  "(half_installed cid pv ct ft ld)
     \<lparr>ld_bpf := map (put_obj ''network_rules_map'' cid (table_entry MvNet nt))
                  (ld_bpf (half_installed cid pv ct ft ld)),
      ld_net := (ld_net (half_installed cid pv ct ft ld))(cid := nonempty nt)\<rparr> =
   installed cid pv ct ft nt ld"
  by (simp add: half_installed_def installed_def comp_def)

lemma update_accepted_done:
  assumes "ld_loaded ld" "check_limits policy = Inr ()"
    and "build_net_rules (sp_network_rules policy) network_rules_default = Done nt"
  shows "\<exists>ct ft. update_from_security_policy accept_all cid policy port ld =
    (Done (), installed cid (from_policy policy port) ct ft nt ld)"
  using update_net_accepted [OF assms(3)]
  by (rule_tac update_accepted [OF assms(1,2), of cid port]) (auto simp: half_then_net)

lemma full_installed:
  "full_object b \<Longrightarrow> b \<in> set (ld_bpf ld) \<Longrightarrow>
     \<exists>b' \<in> set (ld_bpf (installed cid pv ct ft nt ld)). full_object b'"
  by (auto simp: installed_def full_object_def has_map_def put_obj_maps split: option.splits
      intro!: bexI [of _ b])

definition demo_object :: kobj where
  "demo_object =
     \<lparr>ko_programs = [],
      ko_maps = [''policy_map'' \<mapsto> Map.empty, ''cap_path_rules_map'' \<mapsto> Map.empty,
                 ''fs_path_rules_map'' \<mapsto> Map.empty, ''network_rules_map'' \<mapsto> Map.empty,
                 ''sock_block_map'' \<mapsto> Map.empty],
      ko_proxy = None, ko_flow_map = None, ko_ring = None\<rparr>"

definition demo_loader :: loader where
  "demo_loader = ebpf_loader_new\<lparr>ld_bpf := [demo_object], ld_loaded := True\<rparr>"

lemma demo_full: "full_object demo_object"
  by (simp add: demo_object_def full_object_def has_map_def)

text \<open>A policy the demo loader takes, and the object it leaves.\<close>

lemma demo_update:
  assumes "check_limits policy = Inr ()"
    and "build_net_rules (sp_network_rules policy) network_rules_default = Done nt"
  obtains ld' b where
    "update_from_security_policy accept_all cid policy port demo_loader = (Done (), ld')"
    "b \<in> set (ld_bpf ld')" "full_object b" "sock_block_of b cid' = None"
proof -
  have "ld_loaded demo_loader" "demo_object \<in> set (ld_bpf demo_loader)"
    by (simp_all add: demo_loader_def)
  from update_accepted_done [OF this(1) assms, of cid port] obtain ct ft where
    u: "update_from_security_policy accept_all cid policy port demo_loader =
      (Done (), installed cid (from_policy policy port) ct ft nt demo_loader)" by blast
  let ?b = "put_obj ''network_rules_map'' cid (table_entry MvNet nt)
      (put_obj ''fs_path_rules_map'' cid (table_entry MvFs ft)
      (put_obj ''cap_path_rules_map'' cid (table_entry MvCap ct)
      (put_obj ''policy_map'' cid (Some (MvPolicy (from_policy policy port))) demo_object)))"
  have "?b \<in> set (ld_bpf (installed cid (from_policy policy port) ct ft nt demo_loader))"
    by (simp add: installed_def demo_loader_def)
  moreover have "full_object ?b"
    by (simp add: full_object_def has_map_def put_obj_maps demo_object_def)
  moreover have "sock_block_of ?b cid' = None"
    by (simp add: sock_block_of_def put_obj_lookup) (simp add: map_lookup_def demo_object_def)
  ultimately show ?thesis by (rule that [OF u])
qed

definition demo_buffer :: "string \<Rightarrow> bytes" where
  "demo_buffer s = str_bytes s @ replicate (256 - length s) 0"

lemma demo_path_buffer: "length s < 256 \<Longrightarrow> path_buffer s (demo_buffer s)"
proof -
  assume s: "length s < 256"
  have "8 * (length s div 8 + 1) - length s = 8 - length s mod 8" "8 * (length s div 8 + 1) \<le> 256"
    using s by presburger+
  with s show ?thesis
    by (simp add: path_buffer_def demo_buffer_def min_def)
qed

definition demo_policy :: security_policy where
  "demo_policy =
     \<lparr>sp_enforcement_mode = ''block'', sp_default_action = ''allow'',
      sp_privilege_escalation_rules =
        [\<lparr>cap_capabilities = [''cap_sys_admin''], cap_path_pattern = None\<rparr>,
         \<lparr>cap_capabilities = [''CAP_NET_RAW'', ''cap_unknown''], cap_path_pattern = Some ''/usr/bin/*''\<rparr>],
      sp_filesystem_access_rules =
        [\<lparr>fsr_path_prefix = ''/etc/*'', fsr_attrs = ''r''\<rparr>,
         \<lparr>fsr_path_prefix = ''/etc/shadow'', fsr_attrs = []\<rparr>],
      sp_network_rules = [address_rule 0x0A000001 ''block'']\<rparr>"

lemma demo_limits: "check_limits demo_policy = Inr ()"
  by (simp add: check_limits_def demo_policy_def bpf_consts has_path_def)

lemma demo_net: "\<exists>nt. build_net_rules (sp_network_rules demo_policy) network_rules_default = Done nt"
proof -
  have "from_rule (address_rule 0x0A000001 ''block'') = Inr \<lparr>nrb_target_ip = 0x0A000001,
      nrb_target_mask = 0xFFFFFFFF, nrb_port = 0, nrb_protocol = 0, nrb_action = 1\<rparr>"
    by (rule from_address_rule)
  then show ?thesis by (simp add: demo_policy_def push_rule_def network_rules_default_def bpf_consts)
qed

lemma demo_updated:
  obtains ld' b where
    "update_from_security_policy accept_all 7 demo_policy 0 demo_loader = (Done (), ld')"
    "b \<in> set (ld_bpf ld')" "full_object b" "sock_block_of b 7 = None"
  using demo_net demo_update [OF demo_limits, of _ 7 0 7] by blast

lemma nul_free_code: "nul_free s \<longleftrightarrow> list_all (\<lambda>c. of_char c \<noteq> (0 :: nat)) s"
proof -
  have "(of_nat (of_char c) :: u8) = 0 \<longleftrightarrow> (of_char c :: nat) = 0" for c :: char
  proof
    assume "(of_nat (of_char c) :: u8) = 0"
    then have "256 dvd (of_char c :: nat)" by (simp add: word_of_nat_eq_0_iff)
    then have "(of_char c :: nat) mod 256 = 0" by (simp only: dvd_eq_mod_eq_0)
    then show "(of_char c :: nat) = 0" by simp
  qed simp
  then show ?thesis by (force simp: nul_free_def str_bytes_def list_all_iff)
qed

lemma fs_policy_is_enforced_witness:
  "\<exists>b. policy_of b 7 \<noteq> None \<and>
     fst (handle_file_open True b 7 1 (Some (demo_buffer ''/etc/passwd'')) 2) = - EACCES"
proof (rule demo_updated)
  fix ld' b
  assume u: "update_from_security_policy accept_all 7 demo_policy 0 demo_loader = (Done (), ld')"
    "b \<in> set (ld_bpf ld')" "full_object b" "sock_block_of b 7 = None"
  have perm: "fmode_to_perm 2 = 2" by (simp add: fmode_to_perm_def bpf_consts)
  have nf: "nul_free ''/etc/passwd''" "printable_fs demo_policy"
    by (simp_all add: nul_free_code printable_fs_def demo_policy_def)
  have denied: "fs_denied demo_policy ''/etc/passwd'' 2"
    by (simp add: fs_denied_def demo_policy_def rule_matches_def starts_with_def attrs_to_fs_perm_def
        bpf_consts)
  have clean: "path_buffer ''/etc/passwd'' (demo_buffer ''/etc/passwd'')" by (rule demo_path_buffer) simp
  then have path: "readable_path ''/etc/passwd'' (Some (demo_buffer ''/etc/passwd''))"
    using nf(1) by (simp add: readable_path_def path_buffer_string)
  have "fst (handle_file_open True b 7 1 (Some (demo_buffer ''/etc/passwd'')) 2) = - EACCES"
    using fs_policy_is_enforced [OF u(1-3) nf(2) path, of True 1 2] denied perm file_refused_clean [OF disjI1 [OF clean]]
    by simp (simp add: demo_policy_def)
  moreover have "policy_of b 7 \<noteq> None"
    using check_fs_installed(1) [OF u(1-3) nf(2)] by simp
  ultimately show ?thesis by blast
qed

lemma cap_policy_is_enforced_witness:
  "\<exists>b. fst (handle_capable True b 7 1 13 (Some (demo_buffer ''/usr/bin/ping''))) = - EPERM \<and>
       fst (handle_capable True b 7 1 13 (Some (demo_buffer ''/bin/sh''))) = 0"
proof (rule demo_updated)
  fix ld' b
  assume u: "update_from_security_policy accept_all 7 demo_policy 0 demo_loader = (Done (), ld')"
    "b \<in> set (ld_bpf ld')" "full_object b" "sock_block_of b 7 = None"
  have nf: "nul_free ''/usr/bin/ping''" "nul_free ''/bin/sh''" "printable_caps demo_policy"
    by (simp_all add: nul_free_code printable_caps_def demo_policy_def)
  have "cap_name_to_bit ''CAP_NET_RAW'' = Some 13" "cap_name_to_bit ''cap_sys_admin'' = Some 21"
    "cap_name_to_bit ''cap_unknown'' = None"
    by code_simp+
  then have d: "cap_denied demo_policy 13 ''/usr/bin/ping''" "\<not> cap_denied demo_policy 13 ''/bin/sh''"
    by (simp_all add: cap_denied_def demo_policy_def lists_cap_def rule_matches_def starts_with_def)
  show ?thesis
    using cap_policy_is_enforced [OF u(1-3) nf(3) demo_path_buffer nf(1), of 13 True 1]
      cap_policy_is_enforced [OF u(1-3) nf(3) demo_path_buffer nf(2), of 13 True 1] d
    by (intro exI [of _ b]) (simp, simp add: demo_policy_def)
qed

lemma address_rule_blocks_reversed_address_witness:
  "\<exists>b. fst (handle_connect4 True b 7 1 \<lparr>sa_user_ip4 = bswap32 0x0A000001, sa_user_port = 0, sa_protocol = 6\<rparr>) = 1 \<and>
       fst (handle_connect4 True b 7 1 \<lparr>sa_user_ip4 = bswap32 0x0100000A, sa_user_port = 0, sa_protocol = 6\<rparr>) = 0"
proof (rule demo_updated)
  fix ld' b
  assume u: "update_from_security_policy accept_all 7 demo_policy 0 demo_loader = (Done (), ld')"
    "b \<in> set (ld_bpf ld')" "full_object b" "sock_block_of b 7 = None"
  have p: "sp_default_action demo_policy = ''allow''"
    "sp_network_rules demo_policy = [address_rule 0x0A000001 ''block'']"
    by (simp_all add: demo_policy_def)
  have "bswap32 0x0A000001 = 0x0100000A" by (simp add: bswap32_def from_le_bytes_def)
  then show ?thesis
    using address_rule_blocks_reversed_address [OF u(1-3) p, where room = True and pid = 1]
    by (intro exI [of _ b]) simp
qed

end
