(* ===== verification/SecTables.thy ===== *)
theory SecTables
  imports SecDecide
begin

text \<open>
  The loader over time: its tables agree with the kernel's under every operation but a rollback, a
  rollback restores the kernel exactly but not the tables (so the next one reinstalls what was
  rejected), a policy with a bad network rule is half installed, the user-space filesystem filter
  answers differently from the kernel, and the flow lookup can answer from a map nobody writes to.
\<close>

section \<open>Agreement of the tables\<close>

text \<open>What the loader believes a kernel map holds.\<close>

definition believed :: "loader \<Rightarrow> string \<Rightarrow> (u64 \<rightharpoonup> map_value) option" where
  "believed ld name =
     (if name = ''policy_map'' then Some (\<lambda>c. map_option MvPolicy (ld_policy ld c))
      else if name = ''cap_path_rules_map'' then Some (\<lambda>c. map_option MvCap (ld_cap ld c))
      else if name = ''fs_path_rules_map'' then Some (\<lambda>c. map_option MvFs (ld_fs ld c))
      else if name = ''network_rules_map'' then Some (\<lambda>c. map_option MvNet (ld_net ld c))
      else if name = ''sock_block_map'' then Some (\<lambda>c. map_option MvSock (ld_sock ld c))
      else None)"

definition agrees :: "loader \<Rightarrow> bool" where
  "agrees ld \<longleftrightarrow>
     (\<forall>b \<in> set (ld_bpf ld). \<forall>name t m.
        believed ld name = Some t \<longrightarrow> ko_maps b name = Some m \<longrightarrow> m = t)"

text \<open>A write to a kernel map followed by the same write to the table.\<close>

lemma agrees_put:
  assumes "agrees ld" "ld_bpf ld' = map (put_obj name k v) (ld_bpf ld)"
    and "\<And>n. believed ld' n = (if n = name then map_option (\<lambda>t. t(k := v)) (believed ld n) else believed ld n)"
  shows "agrees ld'"
  unfolding agrees_def
proof (intro ballI allI impI)
  fix b n t m
  assume b: "b \<in> set (ld_bpf ld')" and t: "believed ld' n = Some t" and m: "ko_maps b n = Some m"
  from b assms(2) obtain b0 where b0: "b0 \<in> set (ld_bpf ld)" "b = put_obj name k v b0" by auto
  show "m = t"
  proof (cases "n = name")
    case True
    from t assms(3) [of n] True obtain t0 where "believed ld n = Some t0" "t = t0(k := v)"
      by (cases "believed ld n") simp_all
    moreover from m b0 True obtain m0 where "ko_maps b0 n = Some m0" "m = m0(k := v)"
      by (cases "ko_maps b0 n") (simp_all add: put_obj_maps)
    ultimately show ?thesis using assms(1) b0 by (auto simp: agrees_def)
  next
    case False
    with t m b0 assms(1,3) show ?thesis by (auto simp: agrees_def put_obj_maps)
  qed
qed

lemma table_entry_nonempty: "table_entry con t = map_option con (nonempty t)"
  by (simp add: table_entry_def nonempty_def)

lemma agrees_policy:
  "agrees ld \<Longrightarrow> agrees (ld\<lparr>ld_bpf := map (put_obj ''policy_map'' k (map_option MvPolicy v)) (ld_bpf ld),
     ld_policy := (ld_policy ld)(k := v)\<rparr>)"
  by (rule agrees_put [of ld _ "''policy_map''" k "map_option MvPolicy v"]) (simp_all add: believed_def fun_eq_iff)

lemma agrees_cap:
  "agrees ld \<Longrightarrow> agrees (ld\<lparr>ld_bpf := map (put_obj ''cap_path_rules_map'' k (map_option MvCap v)) (ld_bpf ld),
     ld_cap := (ld_cap ld)(k := v)\<rparr>)"
  by (rule agrees_put [of ld _ "''cap_path_rules_map''" k "map_option MvCap v"]) (simp_all add: believed_def fun_eq_iff)

lemma agrees_fs:
  "agrees ld \<Longrightarrow> agrees (ld\<lparr>ld_bpf := map (put_obj ''fs_path_rules_map'' k (map_option MvFs v)) (ld_bpf ld),
     ld_fs := (ld_fs ld)(k := v)\<rparr>)"
  by (rule agrees_put [of ld _ "''fs_path_rules_map''" k "map_option MvFs v"]) (simp_all add: believed_def fun_eq_iff)

lemma agrees_net:
  "agrees ld \<Longrightarrow> agrees (ld\<lparr>ld_bpf := map (put_obj ''network_rules_map'' k (map_option MvNet v)) (ld_bpf ld),
     ld_net := (ld_net ld)(k := v)\<rparr>)"
  by (rule agrees_put [of ld _ "''network_rules_map''" k "map_option MvNet v"]) (simp_all add: believed_def fun_eq_iff)

lemma agrees_sock:
  "agrees ld \<Longrightarrow> agrees (ld\<lparr>ld_bpf := map (put_obj ''sock_block_map'' k (map_option MvSock v)) (ld_bpf ld),
     ld_sock := (ld_sock ld)(k := v)\<rparr>)"
  by (rule agrees_put [of ld _ "''sock_block_map''" k "map_option MvSock v"]) (simp_all add: believed_def fun_eq_iff)

lemmas agrees_writes = agrees_policy agrees_cap agrees_fs agrees_net agrees_sock

lemma half_installed_agrees: "agrees ld \<Longrightarrow> agrees (half_installed cid pv ct ft ld)"
proof -
  assume "agrees ld"
  from agrees_fs [OF agrees_cap [OF agrees_policy [OF this, of cid "Some pv"], of cid "nonempty ct"],
      of cid "nonempty ft"]
  show ?thesis by (simp add: half_installed_def table_entry_nonempty comp_def)
qed

lemma update_network_agrees:
  "agrees ld \<Longrightarrow> agrees (snd (update_network_rules accept_all cid policy ld))"
  using agrees_net [of ld cid]
  by (cases "build_net_rules (sp_network_rules policy) network_rules_default")
     (simp_all add: update_net_accepted table_entry_nonempty, simp_all add: update_network_rules_def)

lemma update_agrees:
  assumes "agrees ld"
  shows "agrees (snd (update_from_security_policy accept_all cid policy port ld))"
proof (cases "ld_loaded ld \<and> check_limits policy = Inr ()")
  case True
  then obtain ct ft where "update_from_security_policy accept_all cid policy port ld =
      update_network_rules accept_all cid policy (half_installed cid (from_policy policy port) ct ft ld)"
    using update_accepted [of ld policy cid port] by metis
  with assms show ?thesis by (simp add: update_network_agrees half_installed_agrees)
next
  case False
  with assms show ?thesis
    by (cases "check_limits policy") (auto simp: update_from_security_policy_def)
qed

lemma remove_agrees: "agrees ld \<Longrightarrow> agrees (snd (remove_policy cid ld))"
  using agrees_sock [OF agrees_net [OF agrees_fs [OF agrees_cap [OF agrees_policy]]],
      of ld cid None cid None cid None cid None cid None]
  by (simp add: remove_policy_def delete_kernel_eq modify_apply comp_def)

lemma block_sock_agrees: "agrees ld \<Longrightarrow> agrees (snd (block_sock_access accept_all cid path ld))"
proof -
  assume a: "agrees ld"
  have "agrees (ld\<lparr>ld_bpf := map (put_obj ''sock_block_map'' cid (Some (MvSock e))) (ld_bpf ld),
     ld_sock := (ld_sock ld)(cid \<mapsto> e)\<rparr>)" for e
    using agrees_sock [OF a, of cid "Some e"] by simp
  with a show ?thesis
    by (simp add: block_sock_access_def Let_def write_accepted modify_apply split: option.split)
qed

lemma unblock_sock_agrees: "agrees ld \<Longrightarrow> agrees (snd (unblock_sock_access cid ld))"
  using agrees_sock [of ld cid None]
  by (simp add: unblock_sock_access_def delete_kernel_eq modify_apply)

lemma set_proxy_agrees: "agrees ld \<Longrightarrow> agrees (snd (set_proxy ip pp mp ci ld))"
proof -
  assume a: "agrees ld"
  have maps: "ko_maps (case ko_proxy b of None \<Rightarrow> b | Some _ \<Rightarrow> b\<lparr>ko_proxy := c\<rparr>) = ko_maps b" for b c
    by (simp split: option.split)
  let ?ld = "snd (set_proxy ip pp mp ci ld)"
  have bel: "believed ?ld n = believed ld n" for n
    by (simp add: set_proxy_def Let_def believed_def cong: if_cong)
  have "\<exists>b0 \<in> set (ld_bpf ld). ko_maps b = ko_maps b0" if "b \<in> set (ld_bpf ?ld)" for b
    using that by (auto simp: set_proxy_def Let_def maps split: if_splits)
  with a show ?thesis unfolding agrees_def bel by metis
qed

datatype loader_op =
    OpUpdate u64 security_policy u16
  | OpRemove u64
  | OpBlock u64 string
  | OpUnblock u64
  | OpProxy u32 u16 u16 u32
  | OpUnload

fun run_op :: "acceptor \<Rightarrow> loader_op \<Rightarrow> loader \<Rightarrow> loader" where
  "run_op acc (OpUpdate cid policy port) ld = snd (update_from_security_policy acc cid policy port ld)"
| "run_op acc (OpRemove cid) ld = snd (remove_policy cid ld)"
| "run_op acc (OpBlock cid path) ld = snd (block_sock_access acc cid path ld)"
| "run_op acc (OpUnblock cid) ld = snd (unblock_sock_access cid ld)"
| "run_op acc (OpProxy ip pp mp ci) ld = snd (set_proxy ip pp mp ci ld)"
| "run_op acc OpUnload ld = snd (unload_programs ld)"

text \<open>
  C34. As long as the kernel takes what it is given, every sequence of updates, removals, socket
  blocks, proxy settings and unloads, successful or refused by the loader's own checks, keeps the
  loader's tables equal to the kernel maps of every loaded object: what a snapshot records is what
  the kernel enforces.
\<close>

theorem tables_agree_with_kernel:
  assumes "agrees ld"
  shows "agrees (fold (run_op accept_all) ops ld)"
  using assms
proof (induction ops arbitrary: ld)
  case (Cons op ops)
  have "agrees (run_op accept_all op ld)"
    using Cons.prems
    by (cases op) (simp_all add: update_agrees remove_agrees block_sock_agrees unblock_sock_agrees
        set_proxy_agrees, simp add: unload_programs_def agrees_def ebpf_loader_new_def)
  with Cons.IH show ?case by simp
qed simp

lemma demo_agrees: "agrees demo_loader"
  by (auto simp: agrees_def demo_loader_def demo_object_def believed_def ebpf_loader_new_def
      split: if_splits)

lemma tables_agree_with_kernel_witness:
  "agrees (fold (run_op accept_all) [OpUpdate 7 demo_policy 0, OpBlock 7 ''/run/hc.sock'', OpRemove 7]
     demo_loader)"
  by (rule tables_agree_with_kernel [OF demo_agrees])

section \<open>Rollback\<close>

lemma put_back:
  assumes "\<And>m. ko_maps b name = Some m \<Longrightarrow> m k = v"
  shows "put_obj name k v (put_obj name k w b) = b"
proof (cases "ko_maps b name")
  case (Some m)
  have "(ko_maps b)(name \<mapsto> m(k := v)) = ko_maps b"
    using Some assms [OF Some] by (simp add: fun_upd_idem)
  with Some show ?thesis by (simp add: put_obj_def)
qed (simp add: put_obj_def)

lemma put_obj_commute:
  "n \<noteq> n' \<Longrightarrow> put_obj n k v (put_obj n' k' v' b) = put_obj n' k' v' (put_obj n k v b)"
  by (auto simp: put_obj_def fun_upd_twist split: option.splits)

definition restored_obj :: "u64 \<Rightarrow> policy_snapshot \<Rightarrow> kobj \<Rightarrow> kobj" where
  "restored_obj cid snap b =
     put_obj ''network_rules_map'' cid (map_option MvNet (ps_network_rules snap))
       (put_obj ''fs_path_rules_map'' cid (map_option MvFs (ps_fs_path_rules snap))
       (put_obj ''cap_path_rules_map'' cid (map_option MvCap (ps_cap_path_rules snap))
       (put_obj ''policy_map'' cid (map_option MvPolicy (ps_policy_value snap)) b)))"

lemma restore_rules_done:
  "restore_rules acc name cid r ld = (Done u, ld') \<Longrightarrow> ld' = ld\<lparr>ld_bpf := map (put_obj name cid r) (ld_bpf ld)\<rparr>"
  by (auto simp: restore_rules_def delete_kernel_eq dest: write_kernel_done split: option.splits)

lemma restore_snapshot_done:
  assumes "restore_snapshot acc cid snap ld = (Done u, ld')"
  shows "ld' = ld\<lparr>ld_bpf := map (restored_obj cid snap) (ld_bpf ld),
                  ld_policy := (ld_policy ld)(cid := ps_policy_value snap)\<rparr>"
proof -
  from assms obtain l1 l2 l3 where
    l1: "restore_rules acc ''policy_map'' cid (map_option MvPolicy (ps_policy_value snap)) ld = (Done (), l1)" and
    l2: "restore_rules acc ''cap_path_rules_map'' cid (map_option MvCap (ps_cap_path_rules snap))
           (l1\<lparr>ld_policy := (ld_policy l1)(cid := ps_policy_value snap)\<rparr>) = (Done (), l2)" and
    l3: "restore_rules acc ''fs_path_rules_map'' cid (map_option MvFs (ps_fs_path_rules snap)) l2 = (Done (), l3)" and
    l4: "restore_rules acc ''network_rules_map'' cid (map_option MvNet (ps_network_rules snap)) l3 = (Done u, ld')"
    by (auto simp: restore_snapshot_def then_do_Done split: if_splits)
  note steps = restore_rules_done [OF l1] restore_rules_done [OF l2] restore_rules_done [OF l3]
    restore_rules_done [OF l4]
  show ?thesis unfolding steps by (simp add: restored_obj_def comp_def)
qed

lemma restored_installed:
  assumes "agrees ld" "b \<in> set (ld_bpf ld)"
  shows "restored_obj cid (snapshot_policy cid ld)
     (put_obj ''network_rules_map'' cid n (put_obj ''fs_path_rules_map'' cid f
       (put_obj ''cap_path_rules_map'' cid c (put_obj ''policy_map'' cid p b)))) = b"
proof -
  have m: "ko_maps b name = Some m \<Longrightarrow> believed ld name = Some t \<Longrightarrow> m cid = t cid" for name m t
    using assms by (auto simp: agrees_def)
  let ?s = "snapshot_policy cid ld"
  have p: "put_obj ''policy_map'' cid (map_option MvPolicy (ps_policy_value ?s)) (put_obj ''policy_map'' cid p b) = b"
    by (rule put_back) (drule m, auto simp: believed_def snapshot_policy_def)
  have c: "put_obj ''cap_path_rules_map'' cid (map_option MvCap (ps_cap_path_rules ?s)) (put_obj ''cap_path_rules_map'' cid c b) = b"
    by (rule put_back) (drule m, auto simp: believed_def snapshot_policy_def)
  have f: "put_obj ''fs_path_rules_map'' cid (map_option MvFs (ps_fs_path_rules ?s)) (put_obj ''fs_path_rules_map'' cid f b) = b"
    by (rule put_back) (drule m, auto simp: believed_def snapshot_policy_def)
  have n: "put_obj ''network_rules_map'' cid (map_option MvNet (ps_network_rules ?s)) (put_obj ''network_rules_map'' cid n b) = b"
    by (rule put_back) (drule m, auto simp: believed_def snapshot_policy_def)
  show ?thesis
    unfolding restored_obj_def
    by (simp add: put_obj_commute [of "''policy_map''"] p
        put_obj_commute [of "''cap_path_rules_map''" "''fs_path_rules_map''"]
        put_obj_commute [of "''cap_path_rules_map''" "''network_rules_map''"] c
        put_obj_commute [of "''fs_path_rules_map''" "''network_rules_map''"] f n)
qed

lemma restore_after_update:
  assumes "agrees ld"
    and "update_from_security_policy acc cid policy port ld = (Done u, ld1)"
    and "restore_snapshot acc cid (snapshot_policy cid ld) ld1 = (Done u', ld2)"
  shows "ld_bpf ld2 = ld_bpf ld \<and> ld_policy ld2 = ld_policy ld"
proof -
  from assms(2) obtain ct ft nt where ld1: "ld1 = installed cid (from_policy policy port) ct ft nt ld"
    by (rule update_done) blast
  have "ld_bpf ld2 = map (restored_obj cid (snapshot_policy cid ld)) (ld_bpf ld1)"
    "ld_policy ld2 = (ld_policy ld1)(cid := ld_policy ld cid)"
    unfolding restore_snapshot_done [OF assms(3)] by (simp_all add: snapshot_policy_def)
  moreover have "map (restored_obj cid (snapshot_policy cid ld)) (ld_bpf ld1) = ld_bpf ld"
    unfolding ld1 by (auto simp: installed_def restored_installed [OF assms(1)] intro!: map_idI)
  ultimately show ?thesis by (simp add: ld1 installed_def)
qed

text \<open>
  C35. Rolling back to the snapshot taken before an update puts every kernel map back exactly as it
  was, in every loaded object, when the update and the rollback succeed and the loader's tables agreed
  with the maps before.  They do from the loader's start on, but a rollback ends that (see the next
  theorem), so the guarantee is for the first one.
\<close>

theorem rollback_restores_kernel:
  assumes "agrees ld"
    and "update_from_security_policy acc cid policy port ld = (Done u, ld1)"
    and "restore_snapshot acc cid (snapshot_policy cid ld) ld1 = (Done u', ld2)"
  shows "ld_bpf ld2 = ld_bpf ld \<and> ld_policy ld2 = ld_policy ld"
  by (rule restore_after_update [OF assms])

text \<open>
  A rollback does not touch the loader's own rule tables, so a second one is wrong: when two
  updates of a container are rolled back one after the other, the kernel ends with the summary of
  the original policy and the rule tables of the first rejected policy.
\<close>

theorem second_rollback_installs_rejected_rules:
  assumes "agrees ld"
    and "update_from_security_policy acc cid p1 port1 ld = (Done u1, ld1)"
    and "restore_snapshot acc cid (snapshot_policy cid ld) ld1 = (Done u2, ld2)"
    and "update_from_security_policy acc cid p2 port2 ld2 = (Done u3, ld3)"
    and "restore_snapshot acc cid (snapshot_policy cid ld2) ld3 = (Done u4, ld4)"
    and "b \<in> set (ld_bpf ld4)" "full_object b"
  shows "policy_of b cid = ld_policy ld cid \<and>
    fs_rules_of b cid = ld_fs ld1 cid \<and> cap_rules_of b cid = ld_cap ld1 cid \<and>
    net_rules_of b cid = ld_net ld1 cid"
proof -
  have ld2: "ld_fs ld2 = ld_fs ld1" "ld_cap ld2 = ld_cap ld1" "ld_net ld2 = ld_net ld1"
    "ld_policy ld2 cid = ld_policy ld cid"
    unfolding restore_snapshot_done [OF assms(3)] by (simp_all add: snapshot_policy_def)
  from assms(6) obtain b3 where b: "b = restored_obj cid (snapshot_policy cid ld2) b3"
    unfolding restore_snapshot_done [OF assms(5)] by auto
  have "\<forall>n \<in> {''policy_map'', ''cap_path_rules_map'', ''fs_path_rules_map'', ''network_rules_map''}.
      ko_maps b3 n \<noteq> None"
    using assms(7) unfolding b
    by (simp add: full_object_def has_map_def restored_obj_def put_obj_maps split: option.splits)
  then show ?thesis
    unfolding b policy_of_def fs_rules_of_def cap_rules_of_def net_rules_of_def
    by (simp add: restored_obj_def put_obj_lookup put_obj_maps snapshot_policy_def ld2
        split: option.split)
qed

subsection \<open>Instances\<close>

lemma restore_accepted:
  "ld_loaded ld \<Longrightarrow> \<exists>ld'. restore_snapshot accept_all cid snap ld = (Done (), ld')"
  by (simp add: restore_snapshot_def restore_rules_def write_accepted delete_kernel_eq modify_apply
      split: option.split)

lemma update_keeps_loaded [bpf_table]: "ld_loaded (installed cid pv ct ft nt ld) = ld_loaded ld"
  by (simp add: installed_def)

lemma demo_twice:
  obtains ld1 ld2 ld3 ld4 b where
    "update_from_security_policy accept_all 7 demo_policy 0 demo_loader = (Done (), ld1)"
    "restore_snapshot accept_all 7 (snapshot_policy 7 demo_loader) ld1 = (Done (), ld2)"
    "update_from_security_policy accept_all 7 demo_policy 0 ld2 = (Done (), ld3)"
    "restore_snapshot accept_all 7 (snapshot_policy 7 ld2) ld3 = (Done (), ld4)"
    "b \<in> set (ld_bpf ld4)" "full_object b" "ld_fs ld1 7 \<noteq> None"
proof -
  obtain nt where nt: "build_net_rules (sp_network_rules demo_policy) network_rules_default = Done nt"
    using demo_net by blast
  have loaded: "ld_loaded demo_loader" by (simp add: demo_loader_def)
  from update_accepted_done [OF loaded demo_limits nt, of 7 0] obtain ct ft where
    u1: "update_from_security_policy accept_all 7 demo_policy 0 demo_loader =
      (Done (), installed 7 (from_policy demo_policy 0) ct ft nt demo_loader)" by blast
  let ?ld1 = "installed 7 (from_policy demo_policy 0) ct ft nt demo_loader"
  have l1: "ld_loaded ?ld1" by (simp add: update_keeps_loaded loaded)
  from restore_accepted [OF l1] obtain ld2 where
    r1: "restore_snapshot accept_all 7 (snapshot_policy 7 demo_loader) ?ld1 = (Done (), ld2)" by blast
  have bpf2: "ld_bpf ld2 = ld_bpf demo_loader"
    using restore_after_update [OF demo_agrees u1 r1] by simp
  have l2: "ld_loaded ld2" using l1 by (simp add: restore_snapshot_done [OF r1])
  from update_accepted_done [OF l2 demo_limits nt, of 7 0] obtain ct' ft' where
    u2: "update_from_security_policy accept_all 7 demo_policy 0 ld2 =
      (Done (), installed 7 (from_policy demo_policy 0) ct' ft' nt ld2)" by blast
  let ?ld3 = "installed 7 (from_policy demo_policy 0) ct' ft' nt ld2"
  from restore_accepted [of ?ld3] l2 obtain ld4 where
    r2: "restore_snapshot accept_all 7 (snapshot_policy 7 ld2) ?ld3 = (Done (), ld4)"
    by (auto simp: update_keeps_loaded)
  have "demo_object \<in> set (ld_bpf ld2)" by (simp add: bpf2 demo_loader_def)
  from full_installed [OF demo_full this] obtain b3 where
    b3: "b3 \<in> set (ld_bpf ?ld3)" "full_object b3" by blast
  let ?b = "restored_obj 7 (snapshot_policy 7 ld2) b3"
  have "?b \<in> set (ld_bpf ld4)" using b3(1) by (simp add: restore_snapshot_done [OF r2])
  moreover have "full_object ?b"
    using b3(2) by (simp add: full_object_def has_map_def restored_obj_def put_obj_maps split: option.splits)
  moreover have "ld_fs ?ld1 7 \<noteq> None"
  proof
    assume "ld_fs ?ld1 7 = None"
    then have z: "\<not> 0 < rt_count ft" by (simp add: installed_def nonempty_def split: if_splits)
    from update_done [OF u1] obtain ct0 ft0 nt0 where
      ft0: "table_ok ft0" "used_rules ft0 = map fs_compiled (sp_filesystem_access_rules demo_policy)"
      and eq: "?ld1 = installed 7 (from_policy demo_policy 0) ct0 ft0 nt0 demo_loader" by metis
    have "nonempty ft = nonempty ft0"
      using arg_cong [OF eq, of "\<lambda>l. ld_fs l 7"] by (simp add: installed_def)
    with z have "\<not> 0 < rt_count ft0" by (simp add: nonempty_def split: if_splits)
    with count_zero [OF ft0(1)] ft0(2) show False by (simp add: demo_policy_def)
  qed
  ultimately show ?thesis by (rule that [OF u1 r1 u2 r2])
qed

lemma rollback_restores_kernel_witness:
  "\<exists>ld1 ld2. update_from_security_policy accept_all 7 demo_policy 0 demo_loader = (Done (), ld1) \<and>
     restore_snapshot accept_all 7 (snapshot_policy 7 demo_loader) ld1 = (Done (), ld2) \<and>
     ld_bpf ld2 = ld_bpf demo_loader"
proof (rule demo_twice)
  fix ld1 ld2
  assume "update_from_security_policy accept_all 7 demo_policy 0 demo_loader = (Done (), ld1)"
    "restore_snapshot accept_all 7 (snapshot_policy 7 demo_loader) ld1 = (Done (), ld2)"
  with rollback_restores_kernel [OF demo_agrees this] show ?thesis by blast
qed

lemma second_rollback_installs_rejected_rules_witness:
  "\<exists>b. policy_of b 7 = ld_policy demo_loader 7 \<and> ld_fs demo_loader 7 = None \<and> fs_rules_of b 7 \<noteq> None"
proof (rule demo_twice)
  fix ld1 ld2 ld3 ld4 b
  assume u: "update_from_security_policy accept_all 7 demo_policy 0 demo_loader = (Done (), ld1)"
    "restore_snapshot accept_all 7 (snapshot_policy 7 demo_loader) ld1 = (Done (), ld2)"
    "update_from_security_policy accept_all 7 demo_policy 0 ld2 = (Done (), ld3)"
    "restore_snapshot accept_all 7 (snapshot_policy 7 ld2) ld3 = (Done (), ld4)"
    "b \<in> set (ld_bpf ld4)" "full_object b" "ld_fs ld1 7 \<noteq> None"
  from second_rollback_installs_rejected_rules [OF demo_agrees u(1-6)] u(7)
  show ?thesis by (intro exI [of _ b]) (simp add: demo_loader_def ebpf_loader_new_def)
qed

section \<open>A policy with a bad network rule\<close>

lemma half_lookup:
  assumes "b \<in> set (ld_bpf (half_installed cid pv ct ft ld))" "full_object b" "agrees ld"
  shows "policy_of b cid = Some pv" "fs_rules_of b cid = nonempty ft"
    "net_rules_of b cid = ld_net ld cid"
proof -
  from assms(1) obtain b0 where b0: "b0 \<in> set (ld_bpf ld)" and
    b: "b = put_obj ''fs_path_rules_map'' cid (table_entry MvFs ft)
      (put_obj ''cap_path_rules_map'' cid (table_entry MvCap ct)
      (put_obj ''policy_map'' cid (Some (MvPolicy pv)) b0))"
    by (auto simp: half_installed_def)
  from assms(2) have full: "\<forall>n \<in> {''policy_map'', ''cap_path_rules_map'', ''fs_path_rules_map'',
      ''network_rules_map''}. ko_maps b0 n \<noteq> None"
    unfolding b by (simp add: full_object_def has_map_def put_obj_maps split: option.splits)
  then obtain m where m: "ko_maps b0 ''network_rules_map'' = Some m" by auto
  have "believed ld ''network_rules_map'' = Some (\<lambda>c. map_option MvNet (ld_net ld c))"
    by (simp add: believed_def)
  with assms(3) b0 m have "m = (\<lambda>c. map_option MvNet (ld_net ld c))" unfolding agrees_def by blast
  then show "net_rules_of b cid = ld_net ld cid"
    using m unfolding b net_rules_of_def
    by (simp add: put_obj_lookup map_lookup_def put_obj_maps split: option.split)
  show "policy_of b cid = Some pv" "fs_rules_of b cid = nonempty ft"
    using full unfolding b policy_of_def fs_rules_of_def
    by (simp_all add: put_obj_lookup put_obj_maps table_entry_def nonempty_def)
qed

text \<open>
  A policy that passes the limits but has a network rule that does not compile is refused with
  the rule's error after half of it is in force: the kernel already has the new summary (with its
  default action and mode) and the new filesystem rules, still has the old network rules, and
  nothing undoes it.
\<close>

theorem bad_network_rule_installs_half:
  assumes "agrees ld" "ld_loaded ld" "check_limits policy = Inr ()"
    and "build_net_rules (sp_network_rules policy) network_rules_default = Fail e"
  shows "\<exists>ld'. update_from_security_policy accept_all cid policy port ld = (Fail e, ld') \<and>
    (\<forall>b \<in> set (ld_bpf ld'). full_object b \<longrightarrow>
       policy_of b cid = Some (from_policy policy port) \<and>
       (case fs_rules_of b cid of None \<Rightarrow> [] | Some t \<Rightarrow> used_rules t) =
         map fs_compiled (sp_filesystem_access_rules policy) \<and>
       net_rules_of b cid = ld_net ld cid)"
proof (rule update_accepted [OF assms(2,3), of cid port])
  fix order masks ct ft
  assume ft: "table_ok ft" "used_rules ft = map fs_compiled (sp_filesystem_access_rules policy)"
    and u: "update_from_security_policy accept_all cid policy port ld =
      update_network_rules accept_all cid policy (half_installed cid (from_policy policy port) ct ft ld)"
  let ?ld' = "half_installed cid (from_policy policy port) ct ft ld"
  have "update_from_security_policy accept_all cid policy port ld = (Fail e, ?ld')"
    unfolding u by (simp add: update_network_rules_def assms(4))
  moreover have "(case nonempty ft of None \<Rightarrow> [] | Some t \<Rightarrow> used_rules t) = used_rules ft"
    using count_zero [OF ft(1)] by (simp add: nonempty_def)
  ultimately show ?thesis
    using half_lookup [OF _ _ assms(1), of _ cid "from_policy policy port" ct ft] ft(2)
    by (intro exI [of _ ?ld']) simp
qed

definition bad_policy :: security_policy where
  "bad_policy = demo_policy\<lparr>sp_network_rules :=
     [\<lparr>nr_operation = ''connect'', nr_target = ''db.internal'', nr_port = ''*'', nr_protocol = ''tcp'',
       nr_action = ''block''\<rparr>]\<rparr>"

lemma bad_network_rule_installs_half_witness:
  "list_all valid_network_rule (sp_network_rules bad_policy) \<and>
   fst (update_from_security_policy accept_all 7 bad_policy 0 demo_loader) =
     Fail (MapError ''invalid ip: db.internal'') \<and>
   (\<exists>b. policy_of b 7 = Some (from_policy bad_policy 0))"
proof -
  have lim: "check_limits bad_policy = Inr ()"
    by (simp add: check_limits_def bad_policy_def demo_policy_def bpf_consts has_path_def)
  have net: "build_net_rules (sp_network_rules bad_policy) network_rules_default =
      Fail (MapError ''invalid ip: db.internal'')"
    by (simp add: bad_policy_def from_rule_def parse_target_def parse_ipv4_def)
  have "ld_loaded demo_loader" by (simp add: demo_loader_def)
  from bad_network_rule_installs_half [OF demo_agrees this lim net, of 7 0] obtain ld' where
    u: "update_from_security_policy accept_all 7 bad_policy 0 demo_loader =
      (Fail (MapError ''invalid ip: db.internal''), ld')" and
    b: "\<forall>b \<in> set (ld_bpf ld'). full_object b \<longrightarrow> policy_of b 7 = Some (from_policy bad_policy 0)"
    by blast
  have "\<exists>b \<in> set (ld_bpf ld'). full_object b"
  proof (rule update_accepted [OF \<open>ld_loaded demo_loader\<close> lim, of 7 0])
    fix order masks ct ft
    assume "update_from_security_policy accept_all 7 bad_policy 0 demo_loader =
      update_network_rules accept_all 7 bad_policy (half_installed 7 (from_policy bad_policy 0) ct ft demo_loader)"
    then have "ld' = half_installed 7 (from_policy bad_policy 0) ct ft demo_loader"
      using u by (simp add: update_network_rules_def net)
    then show ?thesis
      by (simp add: half_installed_def demo_loader_def full_object_def has_map_def put_obj_maps demo_object_def)
  qed
  moreover have "list_all valid_network_rule (sp_network_rules bad_policy)"
    by (simp add: bad_policy_def valid_network_rule_def)
  ultimately show ?thesis using u b by auto
qed

section \<open>The user-space filter\<close>

text \<open>
  The filesystem filter documented as a mirror of the kernel is not one: the kernel stops at
  the first rule that matches, the filter asks every rule, so a file the first rule grants and a
  later one denies is opened by the kernel and blocked by the filter.
\<close>

theorem fs_filter_contradicts_kernel:
  assumes "update_from_security_policy acc cid policy port ld = (Done u, ld')"
    and "b \<in> set (ld_bpf ld')" "full_object b" "printable_fs policy"
    and "path_buffer s buf" "nul_free s" "\<not> sock_blocked b cid (Some buf)"
    and "fmode_to_perm f_mode \<noteq> 0"
    and "List.find (\<lambda>r. rule_matches (fsr_path_prefix r) s) (sp_filesystem_access_rules policy) = Some r"
    and "attrs_to_fs_perm (fsr_attrs r) AND fmode_to_perm f_mode = fmode_to_perm f_mode"
    and "r' \<in> set (sp_filesystem_access_rules policy)" "fs_rule_blocks s (fmode_to_perm f_mode) r'"
  shows "fst (handle_file_open room b cid pid (Some buf) f_mode) = 0 \<and>
    fs_evaluate s (fmode_to_perm f_mode) (sp_filesystem_access_rules policy) mode \<noteq> FAllow"
proof -
  have "readable_path s (Some buf)" using assms(5,6) by (simp add: readable_path_def path_buffer_string)
  note decided = file_open_by_tables [OF check_fs_installed(1) [OF assms(1-4)] this
      check_fs_installed(2) [OF assms(1-4)], of room pid f_mode]
  have "\<not> fs_denied policy s (fmode_to_perm f_mode)" using assms(9,10) by (simp add: fs_denied_def)
  then show ?thesis
    using decided assms(5,7,8,11,12)
    by (auto simp: file_refused_clean fs_evaluate_def fs_should_block_def list_ex_iff)
qed

lemma fs_filter_contradicts_kernel_witness:
  "\<exists>b. fst (handle_file_open True b 7 1 (Some (demo_buffer ''/etc/shadow'')) 1) = 0 \<and>
     fs_evaluate ''/etc/shadow'' 1 (sp_filesystem_access_rules demo_policy) ''block'' \<noteq> FAllow"
proof (rule demo_updated)
  fix ld' b
  assume u: "update_from_security_policy accept_all 7 demo_policy 0 demo_loader = (Done (), ld')"
    "b \<in> set (ld_bpf ld')" "full_object b" "sock_block_of b 7 = None"
  let ?r = "\<lparr>fsr_path_prefix = ''/etc/*'', fsr_attrs = ''r''\<rparr>"
  let ?r' = "\<lparr>fsr_path_prefix = ''/etc/shadow'', fsr_attrs = []\<rparr>"
  have perm: "fmode_to_perm 1 = 1" by (simp add: fmode_to_perm_def bpf_consts)
  have nf: "nul_free ''/etc/shadow''" "printable_fs demo_policy"
    by (simp_all add: nul_free_code printable_fs_def demo_policy_def)
  have sock: "\<not> sock_blocked b 7 (Some (demo_buffer ''/etc/shadow''))" using u(4) by (simp add: sock_blocked_def)
  have find: "List.find (\<lambda>r. rule_matches (fsr_path_prefix r) ''/etc/shadow'')
      (sp_filesystem_access_rules demo_policy) = Some ?r"
    by (simp add: demo_policy_def rule_matches_def starts_with_def)
  have "attrs_to_fs_perm (fsr_attrs ?r) AND fmode_to_perm 1 = fmode_to_perm 1"
    by (simp add: attrs_to_fs_perm_def perm bpf_consts)
  moreover have "?r' \<in> set (sp_filesystem_access_rules demo_policy)" by (simp add: demo_policy_def)
  moreover have "fs_rule_blocks ''/etc/shadow'' (fmode_to_perm 1) ?r'"
    by (simp add: fs_rule_blocks_def ends_with_def attrs_to_perm_mask_def perm)
  ultimately show ?thesis
    using fs_filter_contradicts_kernel [OF u(1-3) nf(2) demo_path_buffer nf(1) sock _ find,
      where room = True and pid = 1 and r' = "?r'" and mode = "''block''" and f_mode = 1]
    by (intro exI [of _ b]) (simp add: perm)
qed

end
