(* ===== verification/SecManager.thy ===== *)
theory SecManager
  imports SecTables
begin

text \<open>
  The layer between the controller and the loader: \<open>SecurityPolicyManager\<close> (\<^verbatim>\<open>security/src/policy.rs\<close>)
  with its \<open>ContainerIntegration\<close> facade (\<^verbatim>\<open>integration.rs\<close>), and the way of an event from the record
  a kernel program writes into the ring buffer (\<^verbatim>\<open>security/src/bpf\<close>) through \<open>poll_events\<close>
  (\<^verbatim>\<open>ebpf/mod.rs\<close>) into the log (\<^verbatim>\<open>plugins/agentsandbox/log/src\<close>).  The clock, serde and the file
  system calls are parameters; the log files are a map from paths to their lines.
\<close>

section \<open>Policy management\<close>

datatype policy_error =
    UpdateError string
  | RemoveError string
  | RefreshError string
  | EventProcessError string
  | PolicyLogWriteError string
  | PolicyNotLoaded

fun ebpf_error_string :: "ebpf_error \<Rightarrow> string" where
  "ebpf_error_string (LoadError m) = ''eBPF program load failed: '' @ m"
| "ebpf_error_string (MapError m) = ''BPF map operation failed: '' @ m"
| "ebpf_error_string (RingBufferError m) = ''ring buffer read failed: '' @ m"
| "ebpf_error_string NotFoundError = ''cgroup_id not found in policy map''"
| "ebpf_error_string NotLoadedError = ''eBPF programs not loaded''"

fun policy_error_from :: "ebpf_error \<Rightarrow> policy_error" where
  "policy_error_from (MapError m) = UpdateError m"
| "policy_error_from (RingBufferError m) = EventProcessError m"
| "policy_error_from NotFoundError = UpdateError ''not found''"
| "policy_error_from NotLoadedError = PolicyNotLoaded"
| "policy_error_from (LoadError m) = UpdateError (ebpf_error_string (LoadError m))"

text \<open>\<open>None\<close> is a panic.\<close>

fun policy_result :: "'a outcome \<Rightarrow> (policy_error + 'a) option" where
  "policy_result (Done x) = Some (Inr x)"
| "policy_result (Fail e) = Some (Inl (policy_error_from e))"
| "policy_result Panic = None"

type_synonym 'a policy_op = "loader \<Rightarrow> (policy_error + 'a) option \<times> loader"

definition policy_update :: "acceptor \<Rightarrow> u64 \<Rightarrow> security_policy \<Rightarrow> u16 \<Rightarrow> unit policy_op" where
  "policy_update acc cid policy port ld =
     (case update_from_security_policy acc cid policy port ld of (r, ld') \<Rightarrow> (policy_result r, ld'))"

definition update_with_rollback ::
  "acceptor \<Rightarrow> u64 \<Rightarrow> security_policy \<Rightarrow> u16 \<Rightarrow> policy_snapshot policy_op" where
  "update_with_rollback acc cid policy port ld =
     (let snapshot = snapshot_policy cid ld in
      case update_from_security_policy acc cid policy port ld of
        (r, ld') \<Rightarrow> (map_option (map_sum id (\<lambda>_. snapshot)) (policy_result r), ld'))"

definition policy_remove :: "u64 \<Rightarrow> unit policy_op" where
  "policy_remove cid ld = (case remove_policy cid ld of (r, ld') \<Rightarrow> (policy_result r, ld'))"

definition policy_refresh :: "acceptor \<Rightarrow> u64 \<Rightarrow> security_policy \<Rightarrow> u16 \<Rightarrow> unit policy_op" where
  "policy_refresh = policy_update"

definition get_policy_value :: "u64 \<Rightarrow> loader \<Rightarrow> policy_snapshot" where
  "get_policy_value cid ld = snapshot_policy cid ld"

definition restore_policy :: "acceptor \<Rightarrow> u64 \<Rightarrow> policy_snapshot \<Rightarrow> unit policy_op" where
  "restore_policy acc cid snapshot ld =
     (case restore_snapshot acc cid snapshot ld of (r, ld') \<Rightarrow> (policy_result r, ld'))"

definition policy_block_sock :: "acceptor \<Rightarrow> u64 \<Rightarrow> string \<Rightarrow> unit policy_op" where
  "policy_block_sock acc cid path ld =
     (case block_sock_access acc cid path ld of (r, ld') \<Rightarrow> (policy_result r, ld'))"

definition policy_unblock_sock :: "u64 \<Rightarrow> unit policy_op" where
  "policy_unblock_sock cid ld =
     (case unblock_sock_access cid ld of (r, ld') \<Rightarrow> (policy_result r, ld'))"

definition active_count :: "loader \<Rightarrow> nat" where
  "active_count = policy_count"

definition policy_unload :: "unit policy_op" where
  "policy_unload ld = (case unload_programs ld of (r, ld') \<Rightarrow> (policy_result r, ld'))"

section \<open>The record in the ring buffer\<close>

text \<open>
  What a kernel program leaves in the reserved record: the whole record is cleared first, the texts
  are copied without a length, \<open>operation_detail\<close> is never written; four bytes of padding at the end.
\<close>

definition le_image :: "nat \<Rightarrow> u64 \<Rightarrow> bytes" where
  "le_image n w = map (\<lambda>i. ucast (drop_bit (8 * i) w)) [0..<n]"

definition char_field :: "nat \<Rightarrow> string \<Rightarrow> bytes" where
  "char_field n s = str_bytes s @ replicate (n - length s) 0"

definition event_image :: "u64 \<Rightarrow> bytes \<Rightarrow> sec_event \<Rightarrow> bytes" where
  "event_image ktime comm ev =
     le_image 8 ktime @ le_image 8 (se_cgroup_id ev) @ char_field 32 (se_event_type ev) @
     char_field 128 [] @ char_field 16 (se_action ev) @ char_field 16 (se_result ev) @ comm @
     le_image 4 (ucast (se_pid ev)) @ replicate 4 0"

definition BPF_SECURITY_EVENT_SIZE :: nat where "BPF_SECURITY_EVENT_SIZE = 232"

record security_event =
  sv_timestamp :: string
  sv_cgroup_id :: string
  sv_group_id :: string
  sv_event_type :: string
  sv_operation_detail :: string
  sv_action :: string
  sv_result :: string
  sv_process_name :: string
  sv_pid :: u32

definition byte_string :: "bytes \<Rightarrow> string" where
  "byte_string bs = map (\<lambda>b. char_of (unat b)) bs"

definition cstr_to_string :: "bytes \<Rightarrow> string" where
  "cstr_to_string bs = utf8_lossy (byte_string (takeWhile (\<lambda>b. b \<noteq> 0) bs))"

definition field_at :: "nat \<Rightarrow> nat \<Rightarrow> bytes \<Rightarrow> bytes" where
  "field_at off n data = take n (drop off data)"

definition parse_security_event :: "nat \<Rightarrow> bytes \<Rightarrow> security_event option" where
  "parse_security_event now_secs data =
     (if length data < BPF_SECURITY_EVENT_SIZE then None
      else
        let cid = dec_string (unat (le_word (field_at 8 8 data))) in
        Some \<lparr>sv_timestamp = dec_string now_secs, sv_cgroup_id = cid, sv_group_id = cid,
              sv_event_type = cstr_to_string (field_at 16 32 data),
              sv_operation_detail = cstr_to_string (field_at 48 128 data),
              sv_action = cstr_to_string (field_at 176 16 data),
              sv_result = cstr_to_string (field_at 192 16 data),
              sv_process_name = cstr_to_string (field_at 208 16 data),
              sv_pid = ucast (le_word (field_at 224 4 data))\<rparr>)"

text \<open>
  Draining the ring buffers, object by object.  \<open>ring_error\<close> is what \<open>RingBuf::try_from\<close> answers for
  the map of an object: an error text, or \<open>None\<close> for success.
\<close>

fun drain_rings ::
  "nat \<Rightarrow> (kobj \<Rightarrow> string option) \<Rightarrow> kobj list \<Rightarrow> (string + security_event list) \<times> kobj list" where
  "drain_rings now_secs ring_error [] = (Inr [], [])"
| "drain_rings now_secs ring_error (b # bs) =
     (case ko_ring b of
        None \<Rightarrow> (case drain_rings now_secs ring_error bs of (r, bs') \<Rightarrow> (r, b # bs'))
      | Some items \<Rightarrow>
          (case ring_error b of
             Some m \<Rightarrow> (Inl m, b # bs)
           | None \<Rightarrow>
               (case drain_rings now_secs ring_error bs of
                  (r, bs') \<Rightarrow>
                    (map_sum id (\<lambda>evs. List.map_filter (parse_security_event now_secs) items @ evs) r,
                     b\<lparr>ko_ring := Some []\<rparr> # bs'))))"

definition poll_events ::
  "nat \<Rightarrow> (kobj \<Rightarrow> string option) \<Rightarrow> loader \<Rightarrow> (ebpf_error + security_event list) \<times> loader" where
  "poll_events now_secs ring_error ld =
     (if \<not> ld_loaded ld then (Inl NotLoadedError, ld)
      else (case drain_rings now_secs ring_error (ld_bpf ld) of
              (r, bs) \<Rightarrow> (map_sum RingBufferError id r, ld\<lparr>ld_bpf := bs\<rparr>)))"

section \<open>The log\<close>

record log_config =
  log_dir :: string
  debug_level :: string

definition log_config_default :: log_config where
  "log_config_default = \<lparr>log_dir = ''/var/log/agentsandbox'', debug_level = ''INFO''\<rparr>"

datatype log_error = LogWriteFailed | LogLockFailed

fun log_error_string :: "log_error \<Rightarrow> string" where
  "log_error_string LogWriteFailed = ''write_error''"
| "log_error_string LogLockFailed = ''lock_error''"

text \<open>A handle shared by threads; a poisoned lock answers the default and ignores updates.\<close>

record log_handle =
  lh_config :: log_config
  lh_poisoned :: bool

definition log_handle_config :: "log_handle \<Rightarrow> log_config" where
  "log_handle_config h = (if lh_poisoned h then log_config_default else lh_config h)"

definition log_handle_set_config :: "log_config \<Rightarrow> log_handle \<Rightarrow> log_handle" where
  "log_handle_set_config c h = (if lh_poisoned h then h else h\<lparr>lh_config := c\<rparr>)"

text \<open>What the calls of one write answer, in order; a write that fails is taken to leave nothing behind.\<close>

record log_io =
  li_mkdir :: bool
  li_open :: bool
  li_flock :: bool
  li_write :: bool

type_synonym log_files = "string \<Rightarrow> string list"

definition log_path :: "string \<Rightarrow> log_config \<Rightarrow> string" where
  "log_path log_type cfg =
     (if ends_with (log_dir cfg) ''/'' \<or> log_dir cfg = [] then log_dir cfg else log_dir cfg @ ''/'') @
     log_type @ ''.log''"

definition write_line ::
  "log_io \<Rightarrow> string \<Rightarrow> string \<Rightarrow> log_config \<Rightarrow> log_files \<Rightarrow> (log_error + unit) \<times> log_files" where
  "write_line io log_type json_line cfg files =
     (if \<not> li_mkdir io then (Inl LogWriteFailed, files)
      else if \<not> li_open io then (Inl LogWriteFailed, files)
      else if \<not> li_flock io then (Inl LogLockFailed, files)
      else if \<not> li_write io then (Inl LogWriteFailed, files)
      else (let p = log_path log_type cfg in (Inr (), files(p := files p @ [json_line]))))"

text \<open>\<open>to_json\<close> is \<open>serde_json::to_string\<close> for the entry.\<close>

definition write_audit_log ::
  "('e \<Rightarrow> string option) \<Rightarrow> log_io \<Rightarrow> 'e \<Rightarrow> log_config \<Rightarrow> log_files \<Rightarrow> (log_error + unit) \<times> log_files" where
  "write_audit_log to_json io e cfg files =
     (case to_json e of
        None \<Rightarrow> (Inl LogWriteFailed, files)
      | Some j \<Rightarrow> write_line io ''audit'' j cfg files)"

definition write_security_log ::
  "(security_event \<Rightarrow> string option) \<Rightarrow> log_io \<Rightarrow> security_event \<Rightarrow> log_config \<Rightarrow> log_files \<Rightarrow>
     (log_error + unit) \<times> log_files" where
  "write_security_log to_json io e cfg files =
     (case to_json e of
        None \<Rightarrow> (Inl LogWriteFailed, files)
      | Some j \<Rightarrow> write_line io ''security'' j cfg files)"

definition LEVELS :: "string list" where
  "LEVELS = [''TRACE'', ''DEBUG'', ''INFO'', ''WARN'', ''ERROR'']"

definition level_idx :: "string \<Rightarrow> nat" where
  "level_idx lvl = (let i = length (takeWhile (\<lambda>l. l \<noteq> lvl) LEVELS) in if i < length LEVELS then i else 2)"

record 'v debug_entry =
  de_timestamp :: string
  de_level :: string
  de_module :: string
  de_message :: string
  de_context :: "'v option"

text \<open>\<open>upper\<close> is \<open>str::to_uppercase\<close>.\<close>

definition write_debug_log ::
  "(string \<Rightarrow> string) \<Rightarrow> ('v debug_entry \<Rightarrow> string option) \<Rightarrow> nat \<Rightarrow> log_io \<Rightarrow> string \<Rightarrow> string \<Rightarrow> string \<Rightarrow>
     'v option \<Rightarrow> log_config \<Rightarrow> log_files \<Rightarrow> (log_error + unit) \<times> log_files" where
  "write_debug_log upper to_json now_secs io lvl mod_name msg ctx cfg files =
     (if level_idx (upper lvl) < level_idx (upper (debug_level cfg)) then (Inr (), files)
      else
        case to_json \<lparr>de_timestamp = dec_string now_secs, de_level = upper lvl,
                      de_module = mod_name, de_message = msg, de_context = ctx\<rparr> of
          None \<Rightarrow> (Inl LogWriteFailed, files)
        | Some j \<Rightarrow> write_line io ''debug'' j cfg files)"

text \<open>\<open>process_events\<close>: the write of the \<open>i\<close>-th event gets the answers \<open>io i\<close>.\<close>

fun write_events ::
  "(security_event \<Rightarrow> string option) \<Rightarrow> (nat \<Rightarrow> log_io) \<Rightarrow> log_config \<Rightarrow> nat \<Rightarrow> security_event list \<Rightarrow>
     log_files \<Rightarrow> (policy_error + unit) \<times> log_files" where
  "write_events to_json io cfg i [] files = (Inr (), files)"
| "write_events to_json io cfg i (e # es) files =
     (case write_security_log to_json (io i) e cfg files of
        (Inl err, files') \<Rightarrow> (Inl (PolicyLogWriteError (log_error_string err)), files')
      | (Inr _, files') \<Rightarrow> write_events to_json io cfg (Suc i) es files')"

definition process_events ::
  "(security_event \<Rightarrow> string option) \<Rightarrow> (nat \<Rightarrow> log_io) \<Rightarrow> log_config \<Rightarrow> nat \<Rightarrow> (kobj \<Rightarrow> string option) \<Rightarrow>
     loader \<Rightarrow> log_files \<Rightarrow> (policy_error + unit) \<times> loader \<times> log_files" where
  "process_events to_json io cfg now_secs ring_error ld files =
     (case poll_events now_secs ring_error ld of
        (Inl err, ld') \<Rightarrow> (Inl (policy_error_from err), ld', files)
      | (Inr events, ld') \<Rightarrow>
          (case write_events to_json io cfg 0 events files of (r, files') \<Rightarrow> (r, ld', files')))"

section \<open>From the kernel to the log\<close>

lemma le_image_Suc: "le_image (Suc n) w = ucast w # le_image n (drop_bit 8 w)"
proof -
  have "map (\<lambda>i. ucast (drop_bit (8 * i) w) :: u8) [0..<Suc n] =
      map (\<lambda>i. ucast (drop_bit (8 * i) w)) (0 # map Suc [0..<n])"
    by (simp add: upt_conv_Cons map_Suc_upt del: upt_Suc)
  then show ?thesis by (simp add: le_image_def comp_def drop_bit_drop_bit add.commute del: upt_Suc)
qed

lemma length_le_image [simp]: "length (le_image n w) = n"
  by (simp add: le_image_def)

lemma le_word_image: "le_word (le_image n w) = take_bit (8 * n) w"
proof (induction n arbitrary: w)
  case 0
  then show ?case by (simp add: le_image_def)
next
  case (Suc n)
  show ?case
    by (rule bit_word_eqI) (auto simp: le_image_Suc Suc.IH bit_simps)
qed

lemma length_char_field [simp]: "length s \<le> n \<Longrightarrow> length (char_field n s) = n"
  by (simp add: char_field_def)

lemma byte_string_str_bytes [simp]: "byte_string (str_bytes s) = s"
proof -
  have "char_of (unat (of_nat (of_char c) :: u8)) = c" for c
    using nat_of_char_less_256 [of c] by (simp add: unat_of_nat)
  then show ?thesis by (simp add: byte_string_def str_bytes_def comp_def)
qed

definition ascii_text :: "string \<Rightarrow> bool" where
  "ascii_text s \<longleftrightarrow> list_all (\<lambda>c. 0 < (of_char c :: nat) \<and> (of_char c :: nat) < 128) s"

lemma ascii_no_zero: "ascii_text s \<Longrightarrow> b \<in> set (str_bytes s) \<Longrightarrow> b \<noteq> 0"
proof -
  assume a: "ascii_text s" and "b \<in> set (str_bytes s)"
  then obtain c where c: "c \<in> set s" "b = of_nat (of_char c)" by (auto simp: str_bytes_def)
  with a have "0 < (of_char c :: nat)" "(of_char c :: nat) < 256" by (auto simp: ascii_text_def list_all_iff)
  then have "\<not> 256 dvd (of_char c :: nat)" by (rule nat_dvd_not_less)
  then show "b \<noteq> 0" using c(2) by (simp add: word_of_nat_eq_0_iff)
qed

lemma cstr_char_field:
  assumes "ascii_text s"
  shows "cstr_to_string (char_field n s) = s"
proof -
  have "takeWhile (\<lambda>b. b \<noteq> 0) (char_field n s) = str_bytes s"
    using ascii_no_zero [OF assms]
    by (auto simp: char_field_def takeWhile_append2 takeWhile_replicate)
  with assms show ?thesis
    by (simp add: cstr_to_string_def utf8_lossy_ascii ascii_text_def list_all_iff)
qed


text \<open>The texts the kernel programs write, with room for the terminating byte.\<close>

definition event_fits :: "sec_event \<Rightarrow> bool" where
  "event_fits ev \<longleftrightarrow>
     ascii_text (se_event_type ev) \<and> length (se_event_type ev) < 32 \<and>
     ascii_text (se_action ev) \<and> length (se_action ev) < 16 \<and>
     ascii_text (se_result ev) \<and> length (se_result ev) < 16"

lemma emitted_events_fit:
  "emit_event room cid pid mode = (r, Some ev) \<Longrightarrow> event_fits ev"
  "emit_fs_event room cid pid mode = (r, Some ev) \<Longrightarrow> event_fits ev"
  "emit_net_event room cid pid action = Some ev \<Longrightarrow> event_fits ev"
  by (auto simp: emit_event_def emit_fs_event_def emit_net_event_def event_fits_def ascii_text_def
      split: if_splits)

definition logged_event :: "nat \<Rightarrow> bytes \<Rightarrow> sec_event \<Rightarrow> security_event" where
  "logged_event now_secs comm ev =
     (let cid = dec_string (unat (se_cgroup_id ev)) in
      \<lparr>sv_timestamp = dec_string now_secs, sv_cgroup_id = cid, sv_group_id = cid,
       sv_event_type = se_event_type ev, sv_operation_detail = [], sv_action = se_action ev,
       sv_result = se_result ev, sv_process_name = cstr_to_string comm, sv_pid = se_pid ev\<rparr>)"

lemma field_at_skip: "length xs = k \<Longrightarrow> k \<le> off \<Longrightarrow> field_at off n (xs @ ys) = field_at (off - k) n ys"
  by (simp add: field_at_def)

lemma field_at_here: "length xs = n \<Longrightarrow> field_at 0 n (xs @ ys) = xs"
  by (simp add: field_at_def)

lemma pid_image: "ucast (take_bit 32 (ucast (p :: u32) :: u64)) = p"
  by (rule bit_word_eqI) (simp add: bit_simps)

lemma parse_event_image:
  assumes "event_fits ev" "length comm = 16"
  shows "parse_security_event now_secs (event_image ktime comm ev) = Some (logged_event now_secs comm ev)"
proof -
  let ?d = "event_image ktime comm ev"
  note fits = assms(1) [unfolded event_fits_def]
  have len: "length ?d = 232"
    using fits assms(2) by (simp add: event_image_def)
  have f: "field_at 8 8 ?d = le_image 8 (se_cgroup_id ev)"
    "field_at 16 32 ?d = char_field 32 (se_event_type ev)"
    "field_at 48 128 ?d = char_field 128 []"
    "field_at 176 16 ?d = char_field 16 (se_action ev)"
    "field_at 192 16 ?d = char_field 16 (se_result ev)"
    "field_at 208 16 ?d = comm"
    "field_at 224 4 ?d = le_image 4 (ucast (se_pid ev))"
    using fits assms(2)
    by (simp_all add: event_image_def field_at_skip [of _ 8] field_at_skip [of _ 32] field_at_skip [of _ 128]
        field_at_skip [of _ 16] field_at_skip [of _ 4] field_at_here less_imp_le)
  have "ascii_text []" by (simp add: ascii_text_def)
  with fits len show ?thesis
    by (simp add: parse_security_event_def f BPF_SECURITY_EVENT_SIZE_def Let_def cstr_char_field
        le_word_image take_bit_word_eq_self pid_image logged_event_def)
qed


text \<open>
  Draining and writing without a failure.  \<open>pend\<close> names the events that wait in the ring buffer of
  each object, with their kernel time and command.
\<close>

type_synonym pending = "kobj \<Rightarrow> (u64 \<times> bytes \<times> sec_event) list option"

definition well_pending :: "pending \<Rightarrow> kobj list \<Rightarrow> bool" where
  "well_pending pend bs \<longleftrightarrow>
     (\<forall>b \<in> set bs. ko_ring b = map_option (map (\<lambda>(t, comm, ev). event_image t comm ev)) (pend b) \<and>
        (\<forall>es. pend b = Some es \<longrightarrow> (\<forall>(t, comm, ev) \<in> set es. event_fits ev \<and> length comm = 16)))"

definition pending_events :: "pending \<Rightarrow> kobj list \<Rightarrow> (u64 \<times> bytes \<times> sec_event) list" where
  "pending_events pend bs = concat (map (\<lambda>b. case pend b of None \<Rightarrow> [] | Some es \<Rightarrow> es) bs)"

definition drained :: "kobj \<Rightarrow> kobj" where
  "drained b = b\<lparr>ko_ring := map_option (\<lambda>_. []) (ko_ring b)\<rparr>"

definition records_of :: "nat \<Rightarrow> pending \<Rightarrow> kobj list \<Rightarrow> security_event list" where
  "records_of now_secs pend bs = map (\<lambda>(t, comm, ev). logged_event now_secs comm ev) (pending_events pend bs)"

lemma map_filter_images:
  "\<forall>(t, comm, ev) \<in> set es. event_fits ev \<and> length comm = 16 \<Longrightarrow>
   List.map_filter (parse_security_event now_secs) (map (\<lambda>(t, comm, ev). event_image t comm ev) es) =
     map (\<lambda>(t, comm, ev). logged_event now_secs comm ev) es"
  by (induction es) (auto simp: List.map_filter_simps parse_event_image)

lemma drain_pending:
  "well_pending pend bs \<Longrightarrow> drain_rings now_secs (\<lambda>_. None) bs = (Inr (records_of now_secs pend bs), map drained bs)"
proof (induction bs)
  case (Cons b bs)
  then have IH: "drain_rings now_secs (\<lambda>_. None) bs = (Inr (records_of now_secs pend bs), map drained bs)"
    by (simp add: well_pending_def)
  show ?case
  proof (cases "pend b")
    case None
    with Cons.prems IH show ?thesis
      by (simp add: well_pending_def records_of_def pending_events_def drained_def)
  next
    case (Some es)
    with Cons.prems have "ko_ring b = Some (map (\<lambda>(t, comm, ev). event_image t comm ev) es)"
      "\<forall>(t, comm, ev) \<in> set es. event_fits ev \<and> length comm = 16"
      by (simp_all add: well_pending_def)
    with IH Some show ?thesis
      by (simp add: map_filter_images records_of_def pending_events_def drained_def)
  qed
qed (simp add: records_of_def pending_events_def)

definition io_fine :: "log_io \<Rightarrow> bool" where
  "io_fine io \<longleftrightarrow> li_mkdir io \<and> li_open io \<and> li_flock io \<and> li_write io"

lemma write_security_fine:
  "io_fine io \<Longrightarrow> write_security_log (\<lambda>e. Some (json e)) io e cfg files =
     (Inr (), files(log_path ''security'' cfg := files (log_path ''security'' cfg) @ [json e]))"
  by (simp add: write_security_log_def write_line_def io_fine_def Let_def)

lemma write_events_fine:
  "(\<And>j. j < i + length es \<Longrightarrow> io_fine (io j)) \<Longrightarrow> write_events (\<lambda>e. Some (json e)) io cfg i es files =
     (Inr (), files(log_path ''security'' cfg := files (log_path ''security'' cfg) @ map json es))"
proof (induction es arbitrary: i files)
  case (Cons e es)
  then show ?case by (simp add: write_security_fine fun_eq_iff)
qed simp

lemma write_events_stop:
  assumes "\<And>j. j < k \<Longrightarrow> io_fine (io j)" "\<not> li_open (io k)" "li_mkdir (io k)"
  shows "k - i < length es \<Longrightarrow> i \<le> k \<Longrightarrow> write_events (\<lambda>e. Some (json e)) io cfg i es files =
    (Inl (PolicyLogWriteError ''write_error''),
     files(log_path ''security'' cfg := files (log_path ''security'' cfg) @ take (k - i) (map json es)))"
proof (induction es arbitrary: i files)
  case (Cons e es)
  show ?case
  proof (cases "i = k")
    case True
    with assms show ?thesis by (simp add: write_security_log_def write_line_def)
  next
    case False
    with Cons.prems have "i < k" by simp
    with Cons.prems Cons.IH [of "Suc i"] assms(1) [of i] show ?thesis
      by (simp add: write_security_fine take_Cons' fun_eq_iff)
  qed
qed simp

lemma process_pending:
  assumes "ld_loaded ld" "well_pending pend (ld_bpf ld)"
  shows "process_events to_json io cfg now_secs (\<lambda>_. None) ld files =
    (case write_events to_json io cfg 0 (records_of now_secs pend (ld_bpf ld)) files of
       (r, files') \<Rightarrow> (r, ld\<lparr>ld_bpf := map drained (ld_bpf ld)\<rparr>, files'))"
  using assms by (simp add: process_events_def poll_events_def drain_pending)

text \<open>
  C31. Every event a kernel program submits reaches the log, once and in order: when the calls
  succeed, one round of \<open>process_events\<close> appends to the security log exactly one record per event
  that waits in the ring buffers of the loaded objects, object by object, with the container, the
  kind, the action, the result, the process and the pid the kernel wrote, and empties the rings.
  The operation detail is empty in every record: no program ever writes it.
\<close>

theorem kernel_events_are_logged:
  assumes "ld_loaded ld" "well_pending pend (ld_bpf ld)"
    and "\<And>j. j < length (pending_events pend (ld_bpf ld)) \<Longrightarrow> io_fine (io j)"
  shows "process_events (\<lambda>e. Some (json e)) io cfg now_secs (\<lambda>_. None) ld files =
    (Inr (), ld\<lparr>ld_bpf := map drained (ld_bpf ld)\<rparr>,
     files(log_path ''security'' cfg :=
       files (log_path ''security'' cfg) @
       map (\<lambda>(t, comm, ev). json (logged_event now_secs comm ev)) (pending_events pend (ld_bpf ld))))"
proof -
  have "write_events (\<lambda>e. Some (json e)) io cfg 0 (records_of now_secs pend (ld_bpf ld)) files =
      (Inr (), files(log_path ''security'' cfg :=
         files (log_path ''security'' cfg) @ map json (records_of now_secs pend (ld_bpf ld))))"
    using assms(3) by (intro write_events_fine) (simp add: records_of_def)
  moreover have "map json (records_of now_secs pend (ld_bpf ld)) =
      map (\<lambda>(t, comm, ev). json (logged_event now_secs comm ev)) (pending_events pend (ld_bpf ld))"
    by (auto simp: records_of_def)
  ultimately show ?thesis by (simp add: process_pending [OF assms(1,2)])
qed

text \<open>
  When the write of one event fails, the events after it are neither written nor left in the ring
  buffers: they are lost.
\<close>

lemma log_failure_loses_events:
  assumes "ld_loaded ld" "well_pending pend (ld_bpf ld)"
    and "k < length (pending_events pend (ld_bpf ld))"
    and "\<And>j. j < k \<Longrightarrow> io_fine (io j)" "\<not> li_open (io k)" "li_mkdir (io k)"
  shows "process_events (\<lambda>e. Some (json e)) io cfg now_secs (\<lambda>_. None) ld files =
    (Inl (PolicyLogWriteError ''write_error''), ld\<lparr>ld_bpf := map drained (ld_bpf ld)\<rparr>,
     files(log_path ''security'' cfg := files (log_path ''security'' cfg) @
       take k (map json (records_of now_secs pend (ld_bpf ld)))))"
  using write_events_stop [of k io 0 "records_of now_secs pend (ld_bpf ld)" json cfg files] assms(3-6)
  by (simp add: process_pending [OF assms(1,2)] records_of_def del: map_map)

definition demo_block_event :: sec_event where
  "demo_block_event = \<lparr>se_cgroup_id = 42, se_event_type = ''network'', se_action = ''block'',
     se_result = ''blocked'', se_pid = 7\<rparr>"

definition demo_ring_object :: kobj where
  "demo_ring_object = \<lparr>ko_programs = [], ko_maps = Map.empty, ko_proxy = None, ko_flow_map = None,
     ko_ring = Some [event_image 5 (replicate 16 0) demo_block_event]\<rparr>"

lemma kernel_events_are_logged_witness:
  "process_events (\<lambda>e. Some (sv_cgroup_id e @ sv_event_type e @ sv_action e))
     (\<lambda>_. \<lparr>li_mkdir = True, li_open = True, li_flock = True, li_write = True\<rparr>) log_config_default 1000
     (\<lambda>_. None) (ebpf_loader_new\<lparr>ld_bpf := [demo_ring_object], ld_loaded := True\<rparr>) (\<lambda>_. []) =
   (Inr (), ebpf_loader_new\<lparr>ld_bpf := [drained demo_ring_object], ld_loaded := True\<rparr>,
    (\<lambda>_. [])(''/var/log/agentsandbox/security.log'' := [''42networkblock'']))"
proof -
  let ?ld = "ebpf_loader_new\<lparr>ld_bpf := [demo_ring_object], ld_loaded := True\<rparr>"
  let ?pend = "\<lambda>_ :: kobj. Some [(5 :: u64, replicate 16 (0 :: u8), demo_block_event)]"
  have "event_fits demo_block_event" by (simp add: event_fits_def demo_block_event_def ascii_text_def)
  then have "well_pending ?pend (ld_bpf ?ld)"
    by (simp add: well_pending_def demo_ring_object_def)
  moreover have "log_path ''security'' log_config_default = ''/var/log/agentsandbox/security.log''" by code_simp
  moreover have "dec_string 42 = ''42''" by code_simp
  ultimately show ?thesis
    using kernel_events_are_logged [of ?ld ?pend
        "\<lambda>_. \<lparr>li_mkdir = True, li_open = True, li_flock = True, li_write = True\<rparr>"
        "\<lambda>e. sv_cgroup_id e @ sv_event_type e @ sv_action e" log_config_default 1000 "\<lambda>_. []"]
    by (simp add: io_fine_def logged_event_def pending_events_def demo_block_event_def Let_def)
qed

end
