(* ===== verification/SandboxControl.thy ===== *)
theory SandboxControl
  imports PolicyWire SecManager "HOL-Library.AList"
begin

text \<open>
  The controller (\<^verbatim>\<open>controller/src\<close>): the watch on configuration files (\<open>config_monitor.rs\<close>), the
  lifecycle messages (\<open>sock_listener.rs\<close>), the policy messages to the proxy process
  (\<open>messaging.rs\<close>) and the management that ties them to the kernel policy (\<open>management.rs\<close>).

  The state is one record; the peer at the other end of the policy socket is a component of it, of
  any type, stepped by the parameter \<open>ce_send\<close>.  A hash map is an association list, iterated in an
  order that the parameter \<open>ce_order\<close> chooses.  A poisoned lock is a flag of the state.
\<close>

section \<open>Watching configuration files\<close>

text \<open>Modification times count from the epoch.\<close>

record watch_inner =
  wi_paths :: "(string \<times> nat) list"
  wi_started :: bool
  wi_poisoned :: bool

definition monitor_new :: watch_inner where
  "monitor_new = \<lparr>wi_paths = [], wi_started = False, wi_poisoned = False\<rparr>"

definition monitor_start :: "watch_inner \<Rightarrow> (unit + unit) \<times> watch_inner" where
  "monitor_start w =
     (if wi_poisoned w then (Inl (), w)
      else if wi_started w then (Inr (), w)
      else (Inr (), w\<lparr>wi_started := True\<rparr>))"

datatype watch_error = WatchPoisoned | MonitorNotStarted

definition add_watch :: "(string \<Rightarrow> nat option) \<Rightarrow> string \<Rightarrow> watch_inner \<Rightarrow> (watch_error + unit) \<times> watch_inner" where
  "add_watch mtime path w =
     (if wi_poisoned w then (Inl WatchPoisoned, w)
      else if \<not> wi_started w then (Inl MonitorNotStarted, w)
      else if map_of (wi_paths w) path \<noteq> None then (Inr (), w)
      else (Inr (), w\<lparr>wi_paths := AList.update path
              (case mtime path of None \<Rightarrow> 0 | Some t \<Rightarrow> t) (wi_paths w)\<rparr>))"

definition remove_watch :: "string \<Rightarrow> watch_inner \<Rightarrow> watch_inner" where
  "remove_watch path w = (if wi_poisoned w then w else w\<lparr>wi_paths := AList.delete path (wi_paths w)\<rparr>)"

text \<open>
  One path of a round of the poll loop: the lock is taken to read the old time and again to store
  the new one, so other threads may come in between two paths.
\<close>

definition check_path :: "(string \<Rightarrow> nat option) \<Rightarrow> string \<Rightarrow> watch_inner \<Rightarrow> bool \<times> watch_inner" where
  "check_path mtime path w =
     (case mtime path of
        None \<Rightarrow> (False, w)
      | Some t \<Rightarrow>
          let prev = (if wi_poisoned w then None else map_of (wi_paths w) path) in
          (case prev of None \<Rightarrow> True | Some p \<Rightarrow> t \<noteq> p,
           if wi_poisoned w then w else w\<lparr>wi_paths := AList.update path t (wi_paths w)\<rparr>))"

fun check_paths :: "(string \<Rightarrow> nat option) \<Rightarrow> string list \<Rightarrow> watch_inner \<Rightarrow> string list \<times> watch_inner" where
  "check_paths mtime [] w = ([], w)"
| "check_paths mtime (p # ps) w =
     (case check_path mtime p w of
        (changed, w1) \<Rightarrow>
          (case check_paths mtime ps w1 of (cs, w2) \<Rightarrow> (if changed then p # cs else cs, w2)))"

text \<open>An undisturbed round; the keys are read in the order of the hash map.\<close>

definition check_changes ::
  "(string \<Rightarrow> nat option) \<Rightarrow> (string list \<Rightarrow> string list) \<Rightarrow> watch_inner \<Rightarrow> string list \<times> watch_inner" where
  "check_changes mtime order w =
     check_paths mtime (if wi_poisoned w then [] else order (map fst (wi_paths w))) w"

section \<open>Lifecycle messages\<close>

datatype container_action = Register | Unregister

record container_message =
  cm_action :: container_action
  cm_container_id :: container_id
  cm_config_path :: "string option"

text \<open>\<open>SockListener::parse_message\<close> on the parsed text.\<close>

definition parse_message :: "(string \<Rightarrow> json option) \<Rightarrow> string \<Rightarrow> container_message option" where
  "parse_message from_str msg =
     Option.bind (from_str msg) (\<lambda>parsed.
     Option.bind (json_get ''container_id'' parsed) (\<lambda>c.
     Option.bind (container_id_of_json c) (\<lambda>cid.
     Option.bind (json_get ''msg_type'' parsed) (\<lambda>t.
     Option.bind (as_str t) (\<lambda>msg_type.
       if msg_type = ''register'' then
         Option.bind (json_get ''config_path'' parsed) (\<lambda>p.
         Option.bind (as_str p) (\<lambda>config_path.
         Some \<lparr>cm_action = Register, cm_container_id = cid, cm_config_path = Some config_path\<rparr>))
       else if msg_type = ''unregister'' then
         Some \<lparr>cm_action = Unregister, cm_container_id = cid, cm_config_path = None\<rparr>
       else None)))))"

section \<open>Messages to the proxy process\<close>

text \<open>\<open>UnixSocketSender::send\<close> over a link that takes the bytes sent and gives the bytes read.\<close>

definition unix_send ::
  "json_lib \<Rightarrow> (bytes \<Rightarrow> 'p \<Rightarrow> (string + bytes) \<times> 'p) \<Rightarrow> management_message \<Rightarrow> 'p \<Rightarrow>
     (string + management_response) \<times> 'p" where
  "unix_send jl link msg p =
     (case link (jl_print jl (management_message_json msg) @ [10]) p of
        (Inl e, p') \<Rightarrow> (Inl e, p')
      | (Inr buf, p') \<Rightarrow>
          (case jl_parse jl buf of
             Inl e \<Rightarrow> Inl e
           | Inr j \<Rightarrow> (case management_response_of_json j of
                         None \<Rightarrow> Inl (jl_shape_error jl j) | Some r \<Rightarrow> Inr r), p'))"

text \<open>A connection to the receiver of the proxy process.\<close>

definition proxy_link :: "proc_env \<Rightarrow> bool \<Rightarrow> bytes \<Rightarrow> facade_state \<Rightarrow> (string + bytes) \<times> facade_state" where
  "proxy_link e reachable buf s =
     (if \<not> reachable then (Inl ''connect'', s)
      else (case handle_connection e buf s of (out, s') \<Rightarrow> (Inr out, s')))"

section \<open>Management\<close>

definition LOOPBACK_IP_BE :: u32 where "LOOPBACK_IP_BE = 0x0100007F"
definition PROXY_PORT :: u16 where "PROXY_PORT = 8443"
definition MODEL_ROUTE_LISTEN_PORT :: u16 where "MODEL_ROUTE_LISTEN_PORT = 9090"

record 'p management =
  mg_watch :: watch_inner
  mg_loader :: loader
  mg_registered :: "container_id list"
  mg_configs :: "(container_id \<times> string) list"
  mg_sock_path :: string
  mg_registered_poisoned :: bool
  mg_configs_poisoned :: bool
  mg_peer :: 'p

record 'p ctrl_env =
  ce_read :: "string \<Rightarrow> string option"
  ce_toml :: toml_decoder
  ce_mtime :: "string \<Rightarrow> nat option"
  ce_accept :: acceptor
  ce_millis :: nat
  ce_send :: "management_message \<Rightarrow> 'p \<Rightarrow> (string + management_response) \<times> 'p"
  ce_order :: "(container_id \<times> string) list \<Rightarrow> (container_id \<times> string) list"

definition request_id :: "string \<Rightarrow> container_id \<Rightarrow> nat \<Rightarrow> string" where
  "request_id kind cid millis = kind @ ''-'' @ container_as_key cid @ ''-'' @ dec_string millis"

definition refresh_payload :: "container_id \<Rightarrow> hc_filter_config \<Rightarrow> json" where
  "refresh_payload cid cfg =
     JObject [(''container_id'', container_id_json cid), (''filter_config'', hc_filter_config_json cfg)]"

definition send_filter_config_to_proxy ::
  "'p ctrl_env \<Rightarrow> container_id \<Rightarrow> hc_filter_config \<Rightarrow> 'p management \<Rightarrow> bool \<times> 'p management" where
  "send_filter_config_to_proxy env cid cfg mg =
     (case ce_send env \<lparr>mm_msg_type = MSG_REFRESH_POLICY, mm_payload = refresh_payload cid cfg,
                        mm_request_id = request_id ''config'' cid (ce_millis env)\<rparr> (mg_peer mg) of
        (Inr resp, p) \<Rightarrow> (mr_status resp = ''ok'', mg\<lparr>mg_peer := p\<rparr>)
      | (Inl _, p) \<Rightarrow> (False, mg\<lparr>mg_peer := p\<rparr>))"

definition send_remove_container_to_proxy ::
  "'p ctrl_env \<Rightarrow> container_id \<Rightarrow> 'p management \<Rightarrow> 'p management" where
  "send_remove_container_to_proxy env cid mg =
     mg\<lparr>mg_peer := snd (ce_send env
          \<lparr>mm_msg_type = MSG_REMOVE_CONTAINER,
           mm_payload = JObject [(''container_id'', container_id_json cid)],
           mm_request_id = request_id ''remove'' cid (ce_millis env)\<rparr> (mg_peer mg))\<rparr>"

definition rollback_ebpf ::
  "'p ctrl_env \<Rightarrow> container_id \<Rightarrow> policy_snapshot \<Rightarrow> 'p management \<Rightarrow> 'p management" where
  "rollback_ebpf env cid old mg =
     mg\<lparr>mg_loader := snd (restore_policy (ce_accept env) (cgroup_id cid) old (mg_loader mg))\<rparr>"

text \<open>How one application of a configuration ends; the code only logs it.\<close>

datatype apply_result =
    Applied | ReadFailed | NoPolicy | KernelRefused policy_error | ProxyRefused | TrackingFailed | ApplyPanic

definition register_kernel_policy ::
  "'p ctrl_env \<Rightarrow> container_id \<Rightarrow> security_policy option \<Rightarrow> u16 \<Rightarrow> 'p management \<Rightarrow>
     apply_result option \<times> 'p management" where
  "register_kernel_policy env cid sp port mg =
     (case sp of
        None \<Rightarrow> (None, mg)
      | Some policy \<Rightarrow>
          (case update_with_rollback (ce_accept env) (cgroup_id cid) policy port (mg_loader mg) of
             (r, ld) \<Rightarrow>
               (case r of None \<Rightarrow> Some ApplyPanic | Some (Inl e) \<Rightarrow> Some (KernelRefused e) | Some (Inr _) \<Rightarrow> None,
                mg\<lparr>mg_loader := ld\<rparr>)))"

definition track_container :: "'p ctrl_env \<Rightarrow> string \<Rightarrow> container_id \<Rightarrow> 'p management \<Rightarrow> 'p management" where
  "track_container env path cid mg =
     (let mg1 = mg\<lparr>mg_registered := List.insert cid (mg_registered mg)\<rparr>;
          mg2 = (if mg_configs_poisoned mg1 then mg1
                 else mg1\<lparr>mg_configs := AList.update cid path (mg_configs mg1)\<rparr>);
          mg3 = mg2\<lparr>mg_watch := snd (add_watch (ce_mtime env) path (mg_watch mg2))\<rparr>
      in mg3\<lparr>mg_loader := snd (policy_block_sock (ce_accept env) (cgroup_id cid) (mg_sock_path mg3)
                               (mg_loader mg3))\<rparr>)"

definition apply_container_config ::
  "'p ctrl_env \<Rightarrow> string \<Rightarrow> container_id \<Rightarrow> 'p management \<Rightarrow> apply_result \<times> 'p management" where
  "apply_container_config env path cid mg =
     (case ce_read env path of
        None \<Rightarrow> (ReadFailed, mg)
      | Some content \<Rightarrow>
          let sp = (case parse_security_policy (ce_toml env) content of Inl _ \<Rightarrow> None | Inr p \<Rightarrow> Some p);
              fc = (case parse_proxy_policy (ce_toml env) content of Inl _ \<Rightarrow> None | Inr c \<Rightarrow> Some c);
              port = (case parse_container_port (ce_toml env) content of Inl _ \<Rightarrow> 0 | Inr p \<Rightarrow> p)
          in if sp = None \<and> fc = None then (NoPolicy, mg)
             else
               let old = get_policy_value (cgroup_id cid) (mg_loader mg) in
               (case register_kernel_policy env cid sp port mg of
                  (Some r, mg1) \<Rightarrow> (r, mg1)
                | (None, mg1) \<Rightarrow>
                    (case (case fc of None \<Rightarrow> (True, mg1)
                                    | Some cfg \<Rightarrow> send_filter_config_to_proxy env cid cfg mg1) of
                       (False, mg2) \<Rightarrow> (ProxyRefused, rollback_ebpf env cid old mg2)
                     | (True, mg2) \<Rightarrow>
                         if mg_registered_poisoned mg2
                         then (TrackingFailed, rollback_ebpf env cid old mg2)
                         else (Applied, track_container env path cid mg2))))"

text \<open>A changed file: \<open>apply_config_to_container\<close> and the closure of \<open>start_config_monitor\<close>.\<close>

definition apply_config_to_container ::
  "'p ctrl_env \<Rightarrow> hc_filter_config option \<Rightarrow> security_policy option \<Rightarrow> u16 \<Rightarrow> container_id \<Rightarrow>
     'p management \<Rightarrow> apply_result \<times> 'p management" where
  "apply_config_to_container env fc sp port cid mg =
     (let old = get_policy_value (cgroup_id cid) (mg_loader mg) in
      case register_kernel_policy env cid sp port mg of
        (Some r, mg1) \<Rightarrow> (r, mg1)
      | (None, mg1) \<Rightarrow>
          (case fc of
             None \<Rightarrow> (Applied, mg1)
           | Some cfg \<Rightarrow>
               (case send_filter_config_to_proxy env cid cfg mg1 of
                  (True, mg2) \<Rightarrow> (Applied, mg2)
                | (False, mg2) \<Rightarrow> (ProxyRefused, rollback_ebpf env cid old mg2))))"

definition parse_file ::
  "'p ctrl_env \<Rightarrow> string \<Rightarrow> (hc_filter_config option \<times> security_policy option \<times> u16) option" where
  "parse_file env path =
     (case ce_read env path of
        None \<Rightarrow> None
      | Some content \<Rightarrow>
          Some (case parse_proxy_policy (ce_toml env) content of Inl _ \<Rightarrow> None | Inr c \<Rightarrow> Some c,
                case parse_security_policy (ce_toml env) content of Inl _ \<Rightarrow> None | Inr p \<Rightarrow> Some p,
                case parse_container_port (ce_toml env) content of Inl _ \<Rightarrow> 0 | Inr p \<Rightarrow> p))"

definition on_config_change ::
  "'p ctrl_env \<Rightarrow> string \<Rightarrow> 'p management \<Rightarrow> (container_id \<times> apply_result) option \<times> 'p management" where
  "on_config_change env path mg =
     (case parse_file env path of
        None \<Rightarrow> (None, mg)
      | Some (fc, sp, port) \<Rightarrow>
          (case (if mg_configs_poisoned mg then None
                 else List.find (\<lambda>(_, p). p = path) (ce_order env (mg_configs mg))) of
             None \<Rightarrow> (None, mg)
           | Some (cid, _) \<Rightarrow>
               (case apply_config_to_container env fc sp port cid mg of
                  (r, mg') \<Rightarrow> (Some (cid, r), mg'))))"

definition unregister_container :: "'p ctrl_env \<Rightarrow> container_id \<Rightarrow> 'p management \<Rightarrow> 'p management" where
  "unregister_container env cid mg =
     (let mg1 = mg\<lparr>mg_loader := snd (policy_remove (cgroup_id cid) (mg_loader mg))\<rparr>;
          mg2 = send_remove_container_to_proxy env cid mg1;
          mg3 = (if mg_configs_poisoned mg2 then mg2
                 else (case map_of (mg_configs mg2) cid of
                         None \<Rightarrow> mg2
                       | Some path \<Rightarrow>
                           mg2\<lparr>mg_configs := AList.delete cid (mg_configs mg2),
                               mg_watch := remove_watch path (mg_watch mg2)\<rparr>))
      in if mg_registered_poisoned mg3 then mg3
         else mg3\<lparr>mg_registered := removeAll cid (mg_registered mg3)\<rparr>)"

text \<open>The answer every parsed message gets.\<close>

definition sock_answer :: string where
  "sock_answer = ''{'' @ [CHR 0x22] @ ''status'' @ [CHR 0x22] @ '':'' @ [CHR 0x22] @ ''ok'' @ [CHR 0x22] @ ''}'' @ [CHR 0x0A]"

definition handle_lifecycle ::
  "'p ctrl_env \<Rightarrow> (string \<Rightarrow> json option) \<Rightarrow> string \<Rightarrow> 'p management \<Rightarrow> string option \<times> 'p management" where
  "handle_lifecycle env from_str buf mg =
     (case parse_message from_str buf of
        None \<Rightarrow> (None, mg)
      | Some msg \<Rightarrow>
          (Some sock_answer,
           case cm_action msg of
             Register \<Rightarrow>
               (case cm_config_path msg of
                  None \<Rightarrow> mg
                | Some path \<Rightarrow> snd (apply_container_config env path (cm_container_id msg) mg))
           | Unregister \<Rightarrow> unregister_container env (cm_container_id msg) mg))"

end
