(* ===== verification/LaunchCli.thy ===== *)
theory LaunchCli
  imports RustNet
begin

text \<open>
  The command line of the virtual-machine launcher (\<^verbatim>\<open>launcher/src/cli.rs\<close>): the argument types,
  the validators of the option values, the option loop with its two spellings \<open>--name=value\<close> and
  \<open>--name value\<close>, and the subcommands.  Whether a path exists and is a directory is an argument.
\<close>

section \<open>Data\<close>

datatype help_type = HelpGlobal | HelpRun

record virtiofs_bind =
  vb_host_path :: string
  vb_guest_path :: string

record port_forward_value =
  pf_host_ip :: u32
  pf_host_port :: u16
  pf_guest_port :: u16

record volume_value =
  vv_host_dir :: string
  vv_guest_dir :: string

record run_args =
  ra_help :: bool
  ra_runtime :: "string option"
  ra_kernel :: "string option"
  ra_payload :: "string option"
  ra_volume :: "volume_value list"
  ra_virtiofs :: "virtiofs_bind list"
  ra_app_conf :: "string option"
  ra_port_forward :: "port_forward_value list"
  ra_mem :: "u64 option"
  ra_smp :: "u16 option"
  ra_cid :: "u32 option"

definition run_args_default :: run_args where
  "run_args_default =
     \<lparr>ra_help = False, ra_runtime = None, ra_kernel = None, ra_payload = None, ra_volume = [],
      ra_virtiofs = [], ra_app_conf = None, ra_port_forward = [], ra_mem = None, ra_smp = None,
      ra_cid = None\<rparr>"

datatype sub_command = SubRun run_args | SubHelp help_type

datatype cli_error =
    UnknownSubCommand string
  | UnknownOption string
  | MissingValue string
  | EmptyValue string
  | InvalidVirtiofsFormat string
  | InvalidPortForwardFormat string
  | InvalidIp string
  | InvalidPort string
  | InvalidMemValue string
  | InvalidSmpValue string
  | InvalidCidValue string
  | InvalidVolumeFormat string
  | InvalidVolumeGuestPath string
  | InvalidVolumeHostPath string

text \<open>\<open>Display for CliError\<close>; \<open>ge_sign\<close> is U+2265 in UTF-8.\<close>

definition ge_sign :: string where "ge_sign = [CHR 0xE2, CHR 0x89, CHR 0xA5]"

fun cli_error_string :: "cli_error \<Rightarrow> string" where
  "cli_error_string (UnknownSubCommand c) = ''Unknown subcommand: '' @ c"
| "cli_error_string (UnknownOption v) = ''Unknown option: '' @ v"
| "cli_error_string (MissingValue v) =
     ''Option '' @ [CHR 0x27] @ v @ [CHR 0x27] @ '' missing required value''"
| "cli_error_string (EmptyValue v) =
     ''Option '' @ [CHR 0x27] @ v @ [CHR 0x27] @ '' cannot have an empty value''"
| "cli_error_string (InvalidVirtiofsFormat v) = ''Invalid --virtiofs format (expected xxx:xxx): '' @ v"
| "cli_error_string (InvalidPortForwardFormat v) =
     ''Invalid --port-forward format (expected [hostip:]hostport:guestport): '' @ v"
| "cli_error_string (InvalidIp v) = ''Invalid IPv4 address for --port-forward: '' @ v"
| "cli_error_string (InvalidPort v) = ''Invalid port (must be 0-65535):'' @ v"
| "cli_error_string (InvalidMemValue v) =
     ''Invalid --mem value (must be a positive integer, e.g., 2048): '' @ v"
| "cli_error_string (InvalidSmpValue v) =
     ''Invalid --smp value (must be integer '' @ ge_sign @ '' 1, e.g., 2): '' @ v"
| "cli_error_string (InvalidCidValue v) =
     ''Invalid --cid value (must be integer '' @ ge_sign @ '' 3, e.g., 3): '' @ v"
| "cli_error_string (InvalidVolumeFormat v) =
     ''Invalid --volume-format (expected hostdir:guestdir): '' @ v"
| "cli_error_string (InvalidVolumeHostPath v) =
     ''Invalid hostdir path (expected absolute directory path of the existence.): '' @ v"
| "cli_error_string (InvalidVolumeGuestPath v) =
     ''Invalid guestdir path (expected absolute directory path.): '' @ v"

section \<open>Option values\<close>

text \<open>What the file system answers for a path: \<open>Path::exists\<close> and \<open>Path::is_dir\<close>.\<close>

record path_view =
  pv_exists :: "string \<Rightarrow> bool"
  pv_is_dir :: "string \<Rightarrow> bool"

definition is_absolute :: "string \<Rightarrow> bool" where
  "is_absolute p \<longleftrightarrow> starts_with p ''/''"

text \<open>\<open>str::split\<close> on a character.\<close>

fun str_split :: "char \<Rightarrow> string \<Rightarrow> string list" where
  "str_split c [] = [[]]"
| "str_split c (x # xs) =
     (if x = c then [] # str_split c xs
      else (case str_split c xs of [] \<Rightarrow> [[x]] | p # ps \<Rightarrow> (x # p) # ps))"

definition validate_non_empty :: "string \<Rightarrow> string \<Rightarrow> cli_error + string" where
  "validate_non_empty opt_name v = (if v = [] then Inl (EmptyValue opt_name) else Inr v)"

definition validate_mem :: "string \<Rightarrow> cli_error + u64" where
  "validate_mem s =
     (case parse_uint (2 ^ 64 - 1) s of
        None \<Rightarrow> Inl (InvalidMemValue s)
      | Some mem \<Rightarrow> if mem > 0 then Inr (of_nat mem) else Inl (InvalidMemValue s))"

definition validate_smp :: "string \<Rightarrow> cli_error + u16" where
  "validate_smp s =
     (case parse_uint 65535 s of
        None \<Rightarrow> Inl (InvalidSmpValue s)
      | Some smp \<Rightarrow> if smp \<ge> 1 then Inr (of_nat smp) else Inl (InvalidSmpValue s))"

definition validate_cid :: "string \<Rightarrow> cli_error + u32" where
  "validate_cid s =
     (case parse_uint (2 ^ 32 - 1) s of
        None \<Rightarrow> Inl (InvalidCidValue s)
      | Some cid \<Rightarrow> if cid \<ge> 3 then Inr (of_nat cid) else Inl (InvalidCidValue s))"

definition validate_port :: "string \<Rightarrow> cli_error + u16" where
  "validate_port s =
     (case parse_uint 65535 s of None \<Rightarrow> Inl (InvalidPort s) | Some p \<Rightarrow> Inr (of_nat p))"

text \<open>\<open>split(':')\<close> with the empty parts dropped.\<close>

definition colon_parts :: "string \<Rightarrow> string list" where
  "colon_parts v = filter (\<lambda>s. s \<noteq> []) (str_split (CHR '':'') v)"

definition parse_virtiofs :: "string \<Rightarrow> cli_error + virtiofs_bind" where
  "parse_virtiofs v =
     (case colon_parts v of
        [h, g] \<Rightarrow> Inr \<lparr>vb_host_path = h, vb_guest_path = g\<rparr>
      | _ \<Rightarrow> Inl (InvalidVirtiofsFormat v))"

text \<open>\<open>Ipv4Addr::from_str\<close>.\<close>

definition parse_ipv4_addr :: "string \<Rightarrow> u32 option" where
  "parse_ipv4_addr s =
     (case read_ipv4 s of Some (os, rest) \<Rightarrow> if rest = [] then Some (be_word 256 os) else None
      | None \<Rightarrow> None)"

definition parse_port_forward :: "string \<Rightarrow> cli_error + port_forward_value" where
  "parse_port_forward v =
     (case colon_parts v of
        [hp, gp] \<Rightarrow>
          rbind (validate_port hp) (\<lambda>host_port.
          rbind (validate_port gp) (\<lambda>guest_port.
          Inr \<lparr>pf_host_ip = 0, pf_host_port = host_port, pf_guest_port = guest_port\<rparr>))
      | [ip, hp, gp] \<Rightarrow>
          (case parse_ipv4_addr ip of
             None \<Rightarrow> Inl (InvalidIp ip)
           | Some host_ip \<Rightarrow>
               rbind (validate_port hp) (\<lambda>host_port.
               rbind (validate_port gp) (\<lambda>guest_port.
               Inr \<lparr>pf_host_ip = host_ip, pf_host_port = host_port, pf_guest_port = guest_port\<rparr>)))
      | _ \<Rightarrow> Inl (InvalidPortForwardFormat v))"

definition validate_host_dir :: "path_view \<Rightarrow> string \<Rightarrow> cli_error + string" where
  "validate_host_dir fs d =
     (if is_absolute d \<and> pv_exists fs d \<and> pv_is_dir fs d then Inr d
      else Inl (InvalidVolumeHostPath d))"

definition validate_guest_dir :: "string \<Rightarrow> cli_error + string" where
  "validate_guest_dir d = (if is_absolute d then Inr d else Inl (InvalidVolumeGuestPath d))"

definition parse_volume :: "path_view \<Rightarrow> string \<Rightarrow> cli_error + volume_value" where
  "parse_volume fs v =
     (case colon_parts v of
        [h, g] \<Rightarrow>
          rbind (validate_host_dir fs h) (\<lambda>host_dir.
          rbind (validate_guest_dir g) (\<lambda>guest_dir.
          Inr \<lparr>vv_host_dir = host_dir, vv_guest_dir = guest_dir\<rparr>))
      | _ \<Rightarrow> Inl (InvalidVolumeFormat v))"

section \<open>The option loop\<close>

text \<open>
  One expansion of \<open>handle_option!\<close> or \<open>handle_option_vec!\<close>: the option's name and how its value
  changes the arguments.  The expansions are tried in this order, by prefix.
\<close>

type_synonym option_handler = "string \<Rightarrow> run_args \<Rightarrow> cli_error + run_args"

definition set_with :: "('v \<Rightarrow> run_args \<Rightarrow> run_args) \<Rightarrow> (string \<Rightarrow> cli_error + 'v) \<Rightarrow> option_handler" where
  "set_with f handler v a = rbind (handler v) (\<lambda>x. Inr (f x a))"

definition run_options :: "path_view \<Rightarrow> (string \<times> option_handler) list" where
  "run_options fs =
     [(''runtime'', set_with (\<lambda>x a. a\<lparr>ra_runtime := Some x\<rparr>) (validate_non_empty ''--runtime'')),
      (''kernel'', set_with (\<lambda>x a. a\<lparr>ra_kernel := Some x\<rparr>) (validate_non_empty ''--kernel'')),
      (''payload'', set_with (\<lambda>x a. a\<lparr>ra_payload := Some x\<rparr>) (validate_non_empty ''--payload'')),
      (''volume'', set_with (\<lambda>x a. a\<lparr>ra_volume := ra_volume a @ [x]\<rparr>) (parse_volume fs)),
      (''app-conf'', set_with (\<lambda>x a. a\<lparr>ra_app_conf := Some x\<rparr>) (validate_non_empty ''--app-conf'')),
      (''virtiofs'', set_with (\<lambda>x a. a\<lparr>ra_virtiofs := ra_virtiofs a @ [x]\<rparr>) parse_virtiofs),
      (''port-forward'',
         set_with (\<lambda>x a. a\<lparr>ra_port_forward := ra_port_forward a @ [x]\<rparr>) parse_port_forward),
      (''mem'', set_with (\<lambda>x a. a\<lparr>ra_mem := Some x\<rparr>) validate_mem),
      (''smp'', set_with (\<lambda>x a. a\<lparr>ra_smp := Some x\<rparr>) validate_smp),
      (''cid'', set_with (\<lambda>x a. a\<lparr>ra_cid := Some x\<rparr>) validate_cid)]"

text \<open>The value of an option: after the first \<open>=\<close>, else the next argument.\<close>

definition take_value :: "string \<Rightarrow> string \<Rightarrow> string list \<Rightarrow> cli_error + (string \<times> string list)" where
  "take_value name arg rest =
     (case split_once (CHR ''='') arg of
        Some (_, v) \<Rightarrow> Inr (v, rest)
      | None \<Rightarrow> (case rest of [] \<Rightarrow> Inl (MissingValue (''--'' @ name)) | v # rest' \<Rightarrow> Inr (v, rest')))"

lemma take_value_length: "take_value name arg rest = Inr (v, rest') \<Longrightarrow> length rest' \<le> length rest"
  by (auto simp: take_value_def split: option.splits list.splits)

function run_loop :: "path_view \<Rightarrow> run_args \<Rightarrow> string list \<Rightarrow> cli_error + run_args" where
  "run_loop fs a [] = Inr a"
| "run_loop fs a (arg # rest) =
     (if arg = ''-h'' \<or> arg = ''--help'' then run_loop fs (a\<lparr>ra_help := True\<rparr>) rest
      else if starts_with arg ''--'' then
        (case List.find (\<lambda>(name, h). starts_with arg (''--'' @ name)) (run_options fs) of
           None \<Rightarrow> run_loop fs a rest
         | Some (name, handler) \<Rightarrow>
             (case take_value name arg rest of
                Inl e \<Rightarrow> Inl e
              | Inr (v, rest') \<Rightarrow>
                  (case handler v a of Inl e \<Rightarrow> Inl e | Inr a' \<Rightarrow> run_loop fs a' rest')))
      else Inl (UnknownOption arg))"
  by pat_completeness auto
termination
  by (relation "measure (\<lambda>(fs, a, args). length args)") (auto dest: take_value_length)

definition parse_run_args :: "path_view \<Rightarrow> string list \<Rightarrow> cli_error + sub_command" where
  "parse_run_args fs args =
     (case args of
        next_arg # _ \<Rightarrow>
          if next_arg = ''-h'' \<or> next_arg = ''--help'' then Inr (SubHelp HelpRun)
          else map_sum id SubRun (run_loop fs run_args_default args)
      | [] \<Rightarrow> map_sum id SubRun (run_loop fs run_args_default args))"

definition parse_subcmd_args :: "path_view \<Rightarrow> string list \<Rightarrow> cli_error + sub_command" where
  "parse_subcmd_args fs args =
     (case args of
        [] \<Rightarrow> Inr (SubHelp HelpGlobal)
      | cmd # rest \<Rightarrow>
          if cmd = ''help'' then Inr (SubHelp HelpGlobal)
          else if cmd = ''run'' then parse_run_args fs rest
          else Inl (UnknownSubCommand cmd))"

text \<open>\<open>argv\<close> without the program name.\<close>

definition parse_args :: "path_view \<Rightarrow> string list \<Rightarrow> cli_error + sub_command" where
  "parse_args fs argv =
     (if argv = [''-h''] \<or> argv = [''--help''] then Inr (SubHelp HelpGlobal)
      else parse_subcmd_args fs argv)"

section \<open>What an accepted command line holds\<close>

definition no_colon :: "string \<Rightarrow> bool" where
  "no_colon s \<longleftrightarrow> s \<noteq> [] \<and> CHR '':'' \<notin> set s"

definition valid_volume :: "path_view \<Rightarrow> volume_value \<Rightarrow> bool" where
  "valid_volume fs v \<longleftrightarrow>
     no_colon (vv_host_dir v) \<and> no_colon (vv_guest_dir v) \<and>
     is_absolute (vv_host_dir v) \<and> pv_exists fs (vv_host_dir v) \<and> pv_is_dir fs (vv_host_dir v) \<and>
     is_absolute (vv_guest_dir v)"

definition valid_virtiofs :: "virtiofs_bind \<Rightarrow> bool" where
  "valid_virtiofs b \<longleftrightarrow> no_colon (vb_host_path b) \<and> no_colon (vb_guest_path b)"

definition opt_all :: "('v \<Rightarrow> bool) \<Rightarrow> 'v option \<Rightarrow> bool" where
  "opt_all P v \<longleftrightarrow> (case v of None \<Rightarrow> True | Some x \<Rightarrow> P x)"

lemma opt_all_simps [simp]: "opt_all P None" "opt_all P (Some x) = P x"
  by (simp_all add: opt_all_def)

definition valid_run_args :: "path_view \<Rightarrow> run_args \<Rightarrow> bool" where
  "valid_run_args fs a \<longleftrightarrow>
     list_all (opt_all (\<lambda>s. s \<noteq> [])) [ra_runtime a, ra_kernel a, ra_payload a, ra_app_conf a] \<and>
     list_all (valid_volume fs) (ra_volume a) \<and> list_all valid_virtiofs (ra_virtiofs a) \<and>
     opt_all (\<lambda>m. 0 < m) (ra_mem a) \<and> opt_all (\<lambda>n. 1 \<le> n) (ra_smp a) \<and>
     opt_all (\<lambda>c. 3 \<le> c) (ra_cid a)"

named_theorems cli_value \<open>what a validator accepts\<close>

lemma validate_non_empty_Inr [cli_value]: "validate_non_empty opt v = Inr x \<longleftrightarrow> v \<noteq> [] \<and> x = v"
  by (auto simp: validate_non_empty_def)

lemma word_of_nat_pos: "0 < n \<Longrightarrow> n < 2 ^ LENGTH('w) \<Longrightarrow> 0 < (of_nat n :: 'w::len word)"
  by (simp add: word_less_nat_alt unat_of_nat)

lemma word_of_nat_ge:
  "k \<le> n \<Longrightarrow> n < 2 ^ LENGTH('w) \<Longrightarrow> (of_nat k :: 'w::len word) \<le> of_nat n"
  by (simp add: word_le_nat_alt unat_of_nat)

lemma validate_mem_Inr [cli_value]: "validate_mem s = Inr m \<Longrightarrow> 0 < m"
  using parse_uint_bound [of "2 ^ 64 - 1" s]
  by (auto simp: validate_mem_def split: option.splits if_splits intro!: word_of_nat_pos)

lemma validate_smp_Inr [cli_value]: "validate_smp s = Inr n \<Longrightarrow> 1 \<le> n"
  using parse_uint_bound [of 65535 s] word_of_nat_ge [where k = 1 and 'w = 16]
  by (auto simp: validate_smp_def split: option.splits if_splits)

lemma validate_cid_Inr [cli_value]: "validate_cid s = Inr c \<Longrightarrow> 3 \<le> c"
  using parse_uint_bound [of "2 ^ 32 - 1" s] word_of_nat_ge [where k = 3 and 'w = 32]
  by (auto simp: validate_cid_def split: option.splits if_splits)

lemma str_split_sep_free: "p \<in> set (str_split c s) \<Longrightarrow> c \<notin> set p"
proof (induction s arbitrary: p)
  case (Cons x xs)
  then show ?case by (auto split: if_splits list.splits)
qed simp

lemma colon_parts_free: "p \<in> set (colon_parts v) \<Longrightarrow> no_colon p"
  using str_split_sep_free by (fastforce simp: colon_parts_def no_colon_def)

lemma parse_virtiofs_Inr [cli_value]: "parse_virtiofs v = Inr b \<Longrightarrow> valid_virtiofs b"
  using colon_parts_free [of _ v]
  by (auto simp: parse_virtiofs_def valid_virtiofs_def split: list.splits)

lemma parse_volume_Inr [cli_value]: "parse_volume fs v = Inr w \<Longrightarrow> valid_volume fs w"
  using colon_parts_free [of _ v]
  by (auto simp: parse_volume_def valid_volume_def validate_host_dir_def validate_guest_dir_def
      split: list.splits if_splits)

lemma handler_valid:
  assumes "(name, handler) \<in> set (run_options fs)" "handler v a = Inr a'" "valid_run_args fs a"
  shows "valid_run_args fs a'"
  using assms
  by (auto simp: run_options_def set_with_def rbind_eq_Inr valid_run_args_def dest!: cli_value(2-6))
     (auto simp: cli_value(1))

lemma run_loop_valid:
  "run_loop fs a args = Inr a' \<Longrightarrow> valid_run_args fs a \<Longrightarrow> valid_run_args fs a'"
proof (induction fs a args rule: run_loop.induct)
  case (2 fs a arg rest)
  from "2.prems"(2) have dflt: "valid_run_args fs (a\<lparr>ra_help := True\<rparr>)" by (simp add: valid_run_args_def)
  show ?case
  proof (cases "arg = ''-h'' \<or> arg = ''--help''")
    case True
    with "2.IH"(1) "2.prems" dflt show ?thesis by auto
  next
    case False
    with "2.prems"(1) have opt: "starts_with arg ''--''" by (auto split: if_splits)
    show ?thesis
    proof (cases "List.find (\<lambda>(name, h). starts_with arg (''--'' @ name)) (run_options fs)")
      case None
      with "2.IH"(2) "2.prems" False opt show ?thesis by auto
    next
      case (Some nh)
      then obtain name handler where nh: "nh = (name, handler)" "(name, handler) \<in> set (run_options fs)"
        by (metis find_Some_iff nth_mem surj_pair)
      with "2.prems"(1) False opt Some obtain v rest' a1 where
        v: "take_value name arg rest = Inr (v, rest')" "handler v a = Inr a1"
          "run_loop fs a1 rest' = Inr a'"
        by (auto split: sum.splits)
      have "valid_run_args fs a1" using handler_valid [OF nh(2) v(2) "2.prems"(2)] .
      with "2.IH"(3) False opt Some nh v show ?thesis by blast
    qed
  qed
qed simp

text \<open>
  A command line that is accepted as a run holds only values that satisfy the documented rules:
  no empty name, positive memory, at least one processor, a guest context identifier from 3 on,
  shared directories that are absolute and exist, bindings of two non-empty parts.
\<close>

theorem accepted_run_is_valid:
  "parse_args fs argv = Inr (SubRun a) \<Longrightarrow> valid_run_args fs a"
proof -
  assume a: "parse_args fs argv = Inr (SubRun a)"
  have loop: "map_sum id SubRun (run_loop fs run_args_default args) = Inr (SubRun a) \<Longrightarrow>
      valid_run_args fs a" for args
  proof -
    have "valid_run_args fs run_args_default" by (simp add: valid_run_args_def run_args_default_def)
    moreover assume "map_sum id SubRun (run_loop fs run_args_default args) = Inr (SubRun a)"
    ultimately show ?thesis
      using run_loop_valid by (cases "run_loop fs run_args_default args") auto
  qed
  from a show ?thesis
    by (auto simp: parse_args_def parse_subcmd_args_def parse_run_args_def simp del: run_loop.simps
        dest!: loop split: if_splits list.splits)
qed

lemma accepted_run_is_valid_witness:
  "\<exists>a. parse_args \<lparr>pv_exists = \<lambda>_. True, pv_is_dir = \<lambda>_. True\<rparr>
     [''run'', ''--mem=512'', ''--volume'', ''/srv:/data''] = Inr (SubRun a) \<and>
     valid_run_args \<lparr>pv_exists = \<lambda>_. True, pv_is_dir = \<lambda>_. True\<rparr> a \<and> ra_volume a \<noteq> []"
proof -
  let ?fs = "\<lparr>pv_exists = \<lambda>_. True, pv_is_dir = \<lambda>_. True\<rparr>"
  let ?a = "run_args_default\<lparr>ra_mem := Some 512, ra_volume := [\<lparr>vv_host_dir = ''/srv'', vv_guest_dir = ''/data''\<rparr>]\<rparr>"
  have p: "parse_args ?fs [''run'', ''--mem=512'', ''--volume'', ''/srv:/data''] = Inr (SubRun ?a)"
    by (simp add: parse_args_def parse_subcmd_args_def parse_run_args_def run_options_def set_with_def
        take_value_def starts_with_def validate_mem_def parse_uint_def digit_val_def Let_def
        parse_volume_def colon_parts_def validate_host_dir_def validate_guest_dir_def is_absolute_def
        run_args_default_def)
  show ?thesis
    by (intro exI [of _ ?a] conjI p accepted_run_is_valid [OF p]) simp
qed

section \<open>Printing a run and reading it back\<close>

definition render_option :: "string \<Rightarrow> string \<Rightarrow> string" where
  "render_option name v = ''--'' @ name @ ''='' @ v"

definition render_opt :: "string \<Rightarrow> ('v \<Rightarrow> string) \<Rightarrow> 'v option \<Rightarrow> string list" where
  "render_opt name shw v = (case v of None \<Rightarrow> [] | Some x \<Rightarrow> [render_option name (shw x)])"

definition volume_string :: "volume_value \<Rightarrow> string" where
  "volume_string v = vv_host_dir v @ '':'' @ vv_guest_dir v"

text \<open>\<open>Display for VirtiofsBind\<close>.\<close>

definition virtiofs_string :: "virtiofs_bind \<Rightarrow> string" where
  "virtiofs_string b = vb_host_path b @ '':'' @ vb_guest_path b"

definition port_forward_string :: "port_forward_value \<Rightarrow> string" where
  "port_forward_string p =
     v4_string (pf_host_ip p) @ '':'' @ dec_string (unat (pf_host_port p)) @ '':'' @
     dec_string (unat (pf_guest_port p))"

definition num_string :: "'w::len word \<Rightarrow> string" where
  "num_string w = dec_string (unat w)"

definition render_args :: "run_args \<Rightarrow> string list" where
  "render_args a =
     render_opt ''runtime'' id (ra_runtime a) @ render_opt ''kernel'' id (ra_kernel a) @
     render_opt ''payload'' id (ra_payload a) @ map (render_option ''volume'' \<circ> volume_string) (ra_volume a) @
     render_opt ''app-conf'' id (ra_app_conf a) @
     map (render_option ''virtiofs'' \<circ> virtiofs_string) (ra_virtiofs a) @
     map (render_option ''port-forward'' \<circ> port_forward_string) (ra_port_forward a) @
     render_opt ''mem'' num_string (ra_mem a) @ render_opt ''smp'' num_string (ra_smp a) @
     render_opt ''cid'' num_string (ra_cid a)"

lemma str_split_cons: "c \<notin> set p \<Longrightarrow> str_split c (p @ c # s) = p # str_split c s"
  by (induction p) auto

lemma str_split_single: "c \<notin> set p \<Longrightarrow> str_split c p = [p]"
  by (induction p) auto

lemma colon_parts_cons: "no_colon p \<Longrightarrow> colon_parts (p @ CHR '':'' # s) = p # colon_parts s"
  by (simp add: colon_parts_def no_colon_def str_split_cons)

lemma colon_parts_single: "no_colon p \<Longrightarrow> colon_parts p = [p]"
  by (simp add: colon_parts_def no_colon_def str_split_single)

lemmas colon_parts_render = colon_parts_cons colon_parts_single

lemma dec_string_char: "c \<in> set (dec_string n) \<Longrightarrow> 48 \<le> (of_char c :: nat) \<and> (of_char c :: nat) \<le> 57"
  using dec_string_digits [of c n] digit_char_code by fastforce

lemma no_colon_dec [simp]: "no_colon (dec_string n)"
  using dec_string_char [of "CHR '':''" n] by (auto simp: no_colon_def)

lemma no_colon_v4 [simp]: "no_colon (v4_string w)"
  using dec_string_char [of "CHR '':''"] by (fastforce simp: no_colon_def v4_string_def)

lemma to_digit_char: "d < 10 \<Longrightarrow> to_digit 10 (digit_char d) = Some d"
  by (simp add: to_digit_def digit_char_code Let_def)

lemma digit_char_zero:
  assumes "d < 10"
  shows "digit_char d = CHR ''0'' \<longleftrightarrow> d = 0"
proof
  assume "digit_char d = CHR ''0''"
  then have "(of_char (digit_char d) :: nat) = 48" by simp
  then show "d = 0" using digit_char_code [OF assms] by simp
qed (simp add: digit_char_def char_of_def bit_iff_odd)

definition stops :: "string \<Rightarrow> bool" where
  "stops r \<longleftrightarrow> (case r of [] \<Rightarrow> True | c # _ \<Rightarrow> to_digit 10 c = None)"

lemma read_digits_stops: "stops r \<Longrightarrow> read_digits 10 m cnt acc r = Some (acc, cnt, r)"
  by (cases r) (auto simp: stops_def)

lemma read_number_dec:
  assumes "n \<le> 255" "stops r"
  shows "read_number 10 3 False 255 (dec_string n @ r) = Some (n, r)"
proof -
  consider "n < 10" | "10 \<le> n" "n < 100" | "100 \<le> n" by linarith
  then show ?thesis
  proof cases
    case 1
    then show ?thesis
      by (simp add: dec_string.simps [of n] read_number_def to_digit_char read_digits_stops [OF assms(2)])
  next
    case 2
    then have "dec_string n = [digit_char (n div 10), digit_char (n mod 10)]"
      by (simp add: dec_string.simps [of n] dec_string.simps [of "n div 10"])
    moreover have "n div 10 < 10" "n div 10 \<noteq> 0" "n mod 10 < 10" using 2 by auto
    ultimately show ?thesis using assms(1)
      by (simp add: read_number_def to_digit_char read_digits_stops [OF assms(2)] digit_char_zero)
  next
    case 3
    have lt: "n div 100 < 10" "n div 10 mod 10 < 10" "n mod 10 < 10" "n div 100 \<noteq> 0"
      using 3 assms(1) by auto
    have tens: "n div 10 div 10 = n div 100" by (simp only: div_mult2_eq [symmetric]) simp
    have "dec_string n = dec_string (n div 10) @ [digit_char (n mod 10)]"
      using 3 by (subst dec_string.simps) simp
    also have "dec_string (n div 10) = dec_string (n div 100) @ [digit_char (n div 10 mod 10)]"
      using 3 by (subst dec_string.simps) (simp add: tens)
    also have "dec_string (n div 100) = [digit_char (n div 100)]"
      using lt(1) by (subst dec_string.simps) simp
    finally have "dec_string n = [digit_char (n div 100), digit_char (n div 10 mod 10), digit_char (n mod 10)]"
      by simp
    moreover have "100 * (n div 100) + 10 * (n div 10 mod 10) + n mod 10 = n"
      using div_mult_mod_eq [of n 10] div_mult_mod_eq [of "n div 10" 10] unfolding tens by linarith
    ultimately show ?thesis using assms(1) lt
      by (simp add: read_number_def to_digit_char read_digits_stops [OF assms(2)] digit_char_zero)
  qed
qed

lemma stops_dot [simp]: "stops (CHR ''.'' # r)" "stops []"
  by (simp_all add: stops_def to_digit_def)

lemma octet_bound [simp]: "unat (drop_bit k (w :: u32) AND 0xFF) \<le> 255"
proof -
  have "drop_bit k w AND 0xFF \<le> 0xFF" by (rule word_and_le1)
  then show ?thesis by (simp add: word_le_nat_alt)
qed

lemma octets_word:
  "be_word 256 (map (\<lambda>k. unat (drop_bit k w AND 0xFF)) [24, 16, 8, 0]) = (w :: u32)"
proof -
  have step: "x * 256 + y = push_bit 8 x OR y" if "y AND 0xFF = y" for x y :: u32
  proof -
    have y: "y AND mask 8 = y" using that by (simp add: mask_eq_exp_minus_1)
    have "push_bit 8 x AND y = 0"
      by (subst y [symmetric]) (auto intro!: bit_word_eqI simp: bit_simps)
    then have "push_bit 8 x + y = push_bit 8 x OR y" by (rule disjunctive_add_eq_or)
    then show ?thesis by (simp add: push_bit_eq_mult mult.commute)
  qed
  have "be_word 256 (map (\<lambda>k. unat (drop_bit k w AND 0xFF)) [24, 16, 8, 0]) =
      push_bit 8 (push_bit 8 (push_bit 8 (drop_bit 24 w AND 0xFF) OR (drop_bit 16 w AND 0xFF)) OR
        (drop_bit 8 w AND 0xFF)) OR (w AND 0xFF)"
    by (simp add: be_word_def step and.assoc)
  also have "\<dots> = push_bit 8 (push_bit 8 (push_bit 8 (drop_bit 24 w AND mask 8) OR (drop_bit 16 w AND mask 8)) OR
        (drop_bit 8 w AND mask 8)) OR (w AND mask 8)"
    by (simp add: mask_eq_exp_minus_1)
  also have "\<dots> = w"
  proof (rule bit_word_eqI)
    fix n :: nat
    assume n: "n < LENGTH(32)"
    consider "n < 8" | "8 \<le> n" "n < 16" | "16 \<le> n" "n < 24" | "24 \<le> n" by linarith
    then show "bit (push_bit 8 (push_bit 8 (push_bit 8 (drop_bit 24 w AND mask 8) OR (drop_bit 16 w AND mask 8)) OR
        (drop_bit 8 w AND mask 8)) OR (w AND mask 8)) n = bit w n"
      using n by cases (auto simp: bit_simps)
  qed
  finally show ?thesis .
qed

lemma parse_ipv4_addr_string: "parse_ipv4_addr (v4_string w) = Some w"
proof -
  have four: "(4 :: nat) = Suc (Suc (Suc (Suc 0)))" by simp
  have "read_ipv4 (v4_string w) =
      Some (map (\<lambda>k. unat (drop_bit k w AND 0xFF)) [24, 16, 8, 0], [])"
    using read_number_dec [OF octet_bound stops_dot(2), of 0 w]
    unfolding read_ipv4_def four read_octets.simps
    by (simp add: v4_string_def read_separator_def read_number_dec)
  then show ?thesis using octets_word [of w] by (simp add: parse_ipv4_addr_def)
qed

lemma option_found:
  assumes "(name, handler) \<in> set (run_options fs)"
  shows "List.find (\<lambda>(n, h). starts_with (render_option name v) (''--'' @ n)) (run_options fs) =
    Some (name, handler)"
  using assms
  unfolding run_options_def list.set insert_iff empty_iff prod.inject
  by (elim disjE conjE FalseE; hypsubst) (simp_all add: starts_with_def render_option_def)

lemma option_name:
  assumes "(name, handler) \<in> set (run_options fs)"
  shows "CHR ''='' \<notin> set name" "name \<noteq> ''help''" 
  using assms
  unfolding run_options_def list.set insert_iff empty_iff prod.inject
  by (elim disjE conjE FalseE; hypsubst; simp)+

lemma run_loop_option:
  assumes "(name, handler) \<in> set (run_options fs)"
  shows "run_loop fs a (render_option name v # rest) =
    (case handler v a of Inl e \<Rightarrow> Inl e | Inr a' \<Rightarrow> run_loop fs a' rest)"
proof -
  have "split_once (CHR ''='') (render_option name v) = Some (''--'' @ name, v)"
    using option_name(1) [OF assms] by (simp add: render_option_def)
  then have "take_value name (render_option name v) rest = Inr (v, rest)" by (simp add: take_value_def)
  moreover have "render_option name v \<noteq> ''-h''" "starts_with (render_option name v) ''--''"
    by (simp_all add: render_option_def starts_with_def)
  moreover have "render_option name v \<noteq> ''--help''"
  proof
    assume "render_option name v = ''--help''"
    then have "CHR ''='' \<in> set ''--help''" by (metis render_option_def in_set_conv_decomp append.assoc append_Cons append_Nil)
    then show False by simp
  qed
  ultimately show ?thesis using option_found [OF assms, of v] by simp
qed

lemma run_loop_opt:
  assumes "(name, set_with f h) \<in> set (run_options fs)" "\<And>x. v = Some x \<Longrightarrow> h (shw x) = Inr x"
  shows "run_loop fs a (render_opt name shw v @ rest) =
    run_loop fs (case v of None \<Rightarrow> a | Some x \<Rightarrow> f x a) rest"
  using assms run_loop_option [OF assms(1)]
  by (cases v) (auto simp: render_opt_def set_with_def)

lemma run_loop_many:
  assumes "(name, set_with f h) \<in> set (run_options fs)" "list_all (\<lambda>x. h (shw x) = Inr x) vs"
  shows "run_loop fs a (map (render_option name \<circ> shw) vs @ rest) = run_loop fs (fold f vs a) rest"
  using assms(2) run_loop_option [OF assms(1)]
  by (induction vs arbitrary: a) (auto simp: set_with_def)

lemma parse_uint_word: "hi = 2 ^ LENGTH('w) - 1 \<Longrightarrow> parse_uint hi (num_string (w :: 'w::len word)) = Some (unat w)"
  using unsigned_less [of w, where 'a = nat] by (simp add: num_string_def parse_uint_dec less_eq_Suc_le)

lemma validate_mem_num: "0 < m \<Longrightarrow> validate_mem (num_string m) = Inr m"
  by (simp add: validate_mem_def parse_uint_word [where 'w = 64] unat_gt_0)

lemma validate_smp_num: "1 \<le> n \<Longrightarrow> validate_smp (num_string n) = Inr n"
  by (simp add: validate_smp_def parse_uint_word [where 'w = 16] word_le_nat_alt)

lemma validate_cid_num: "3 \<le> c \<Longrightarrow> validate_cid (num_string c) = Inr c"
  by (simp add: validate_cid_def parse_uint_word [where 'w = 32] word_le_nat_alt)

lemma validate_port_num: "validate_port (dec_string (unat p)) = Inr p"
  using unsigned_less [of p, where 'a = nat] by (simp add: validate_port_def parse_uint_dec)

lemma parse_volume_string: "valid_volume fs v \<Longrightarrow> parse_volume fs (volume_string v) = Inr v"
  by (simp add: parse_volume_def volume_string_def valid_volume_def colon_parts_render
      validate_host_dir_def validate_guest_dir_def)

lemma parse_virtiofs_string: "valid_virtiofs b \<Longrightarrow> parse_virtiofs (virtiofs_string b) = Inr b"
  by (simp add: parse_virtiofs_def virtiofs_string_def valid_virtiofs_def colon_parts_render)

lemma parse_port_forward_string: "parse_port_forward (port_forward_string p) = Inr p"
  by (simp add: parse_port_forward_def port_forward_string_def colon_parts_render
      parse_ipv4_addr_string validate_port_num)

lemma fold_push:
  "fold (\<lambda>x a. a\<lparr>ra_volume := ra_volume a @ [x]\<rparr>) vs a = a\<lparr>ra_volume := ra_volume a @ vs\<rparr>"
  "fold (\<lambda>x a. a\<lparr>ra_virtiofs := ra_virtiofs a @ [x]\<rparr>) bs a = a\<lparr>ra_virtiofs := ra_virtiofs a @ bs\<rparr>"
  "fold (\<lambda>x a. a\<lparr>ra_port_forward := ra_port_forward a @ [x]\<rparr>) ps a =
     a\<lparr>ra_port_forward := ra_port_forward a @ ps\<rparr>"
  by (induction vs arbitrary: a, simp_all) (induction bs arbitrary: a, simp_all,
      induction ps arbitrary: a, simp_all)

lemma option_member:
  "(''runtime'', set_with (\<lambda>x a. a\<lparr>ra_runtime := Some x\<rparr>) (validate_non_empty ''--runtime'')) \<in> set (run_options fs)"
  "(''kernel'', set_with (\<lambda>x a. a\<lparr>ra_kernel := Some x\<rparr>) (validate_non_empty ''--kernel'')) \<in> set (run_options fs)"
  "(''payload'', set_with (\<lambda>x a. a\<lparr>ra_payload := Some x\<rparr>) (validate_non_empty ''--payload'')) \<in> set (run_options fs)"
  "(''app-conf'', set_with (\<lambda>x a. a\<lparr>ra_app_conf := Some x\<rparr>) (validate_non_empty ''--app-conf'')) \<in> set (run_options fs)"
  "(''mem'', set_with (\<lambda>x a. a\<lparr>ra_mem := Some x\<rparr>) validate_mem) \<in> set (run_options fs)"
  "(''smp'', set_with (\<lambda>x a. a\<lparr>ra_smp := Some x\<rparr>) validate_smp) \<in> set (run_options fs)"
  "(''cid'', set_with (\<lambda>x a. a\<lparr>ra_cid := Some x\<rparr>) validate_cid) \<in> set (run_options fs)"
  "(''volume'', set_with (\<lambda>x a. a\<lparr>ra_volume := ra_volume a @ [x]\<rparr>) (parse_volume fs)) \<in> set (run_options fs)"
  "(''virtiofs'', set_with (\<lambda>x a. a\<lparr>ra_virtiofs := ra_virtiofs a @ [x]\<rparr>) parse_virtiofs) \<in> set (run_options fs)"
  "(''port-forward'', set_with (\<lambda>x a. a\<lparr>ra_port_forward := ra_port_forward a @ [x]\<rparr>) parse_port_forward) \<in> set (run_options fs)"
  unfolding run_options_def by (auto intro: list.set_intros)

lemma run_loop_render:
  assumes "valid_run_args fs a"
  shows "run_loop fs run_args_default (render_args a) = Inr (a\<lparr>ra_help := False\<rparr>)"
proof -
  note v = assms [unfolded valid_run_args_def, simplified]
  have last: "run_loop fs b (render_opt ''cid'' num_string (ra_cid a)) =
      run_loop fs (case ra_cid a of None \<Rightarrow> b | Some x \<Rightarrow> b\<lparr>ra_cid := Some x\<rparr>) []" for b
  proof -
    have "validate_cid (num_string x) = Inr x" if "ra_cid a = Some x" for x
      using v that by (simp add: validate_cid_num)
    from run_loop_opt [where v = "ra_cid a" and shw = num_string and a = b and rest = "[]" and fs = fs,
        OF option_member(7) this]
    show ?thesis by (simp only: append_Nil2)
  qed
  have lists: "list_all (\<lambda>x. parse_volume fs (volume_string x) = Inr x) (ra_volume a)"
    "list_all (\<lambda>x. parse_virtiofs (virtiofs_string x) = Inr x) (ra_virtiofs a)"
    "list_all (\<lambda>x. parse_port_forward (port_forward_string x) = Inr x) (ra_port_forward a)"
    using v by (auto simp: list_all_iff parse_volume_string parse_virtiofs_string parse_port_forward_string)
  have scalars: "x \<noteq> [] \<Longrightarrow> validate_non_empty n x = Inr x" for n x
    by (simp add: cli_value(1))
  have ra_runtime: "run_loop fs b (render_opt ''runtime'' id (ra_runtime a) @ rest) =
      run_loop fs (case ra_runtime a of None \<Rightarrow> b | Some x \<Rightarrow> b\<lparr>ra_runtime := Some x\<rparr>) rest" for b rest
    by (rule run_loop_opt [OF option_member(1)]) (use v in \<open>simp add: scalars\<close>)
  have ra_kernel: "run_loop fs b (render_opt ''kernel'' id (ra_kernel a) @ rest) =
      run_loop fs (case ra_kernel a of None \<Rightarrow> b | Some x \<Rightarrow> b\<lparr>ra_kernel := Some x\<rparr>) rest" for b rest
    by (rule run_loop_opt [OF option_member(2)]) (use v in \<open>simp add: scalars\<close>)
  have ra_payload: "run_loop fs b (render_opt ''payload'' id (ra_payload a) @ rest) =
      run_loop fs (case ra_payload a of None \<Rightarrow> b | Some x \<Rightarrow> b\<lparr>ra_payload := Some x\<rparr>) rest" for b rest
    by (rule run_loop_opt [OF option_member(3)]) (use v in \<open>simp add: scalars\<close>)
  have ra_app_conf: "run_loop fs b (render_opt ''app-conf'' id (ra_app_conf a) @ rest) =
      run_loop fs (case ra_app_conf a of None \<Rightarrow> b | Some x \<Rightarrow> b\<lparr>ra_app_conf := Some x\<rparr>) rest" for b rest
    by (rule run_loop_opt [OF option_member(4)]) (use v in \<open>simp add: scalars\<close>)
  have ra_mem: "run_loop fs b (render_opt ''mem'' num_string (ra_mem a) @ rest) =
      run_loop fs (case ra_mem a of None \<Rightarrow> b | Some x \<Rightarrow> b\<lparr>ra_mem := Some x\<rparr>) rest" for b rest
    by (rule run_loop_opt [OF option_member(5)]) (use v in \<open>simp add: validate_mem_num\<close>)
  have ra_smp: "run_loop fs b (render_opt ''smp'' num_string (ra_smp a) @ rest) =
      run_loop fs (case ra_smp a of None \<Rightarrow> b | Some x \<Rightarrow> b\<lparr>ra_smp := Some x\<rparr>) rest" for b rest
    by (rule run_loop_opt [OF option_member(6)]) (use v in \<open>simp add: validate_smp_num\<close>)
  have "run_loop fs run_args_default (render_args a) = run_loop fs (a\<lparr>ra_help := False\<rparr>) []"
    unfolding render_args_def ra_runtime ra_kernel ra_payload ra_app_conf ra_mem ra_smp last
      run_loop_many [OF option_member(8) lists(1)] run_loop_many [OF option_member(9) lists(2)]
      run_loop_many [OF option_member(10) lists(3)] fold_push
    by (rule arg_cong [where f = "\<lambda>b. run_loop fs b []"], cases a)
       (simp add: run_args_default_def split: option.splits)
  then show ?thesis by simp
qed

text \<open>
  C38. Every valid description of a run can be written as a command line, and reading that line gives
  the description back: the separators of the option values never get confused with the values.
\<close>

theorem render_parse_run:
  assumes "valid_run_args fs a" "\<not> ra_help a"
  shows "parse_args fs (''run'' # render_args a) = Inr (SubRun a)"
proof -
  have "a\<lparr>ra_help := False\<rparr> = a" using assms(2) by (cases a) simp
  then have loop: "run_loop fs run_args_default (render_args a) = Inr a"
    using run_loop_render [OF assms(1)] by simp
  have first: "x \<noteq> ''-h'' \<and> x \<noteq> ''--help''" if "render_args a = x # xs" for x xs
  proof (rule ccontr)
    assume "\<not> (x \<noteq> ''-h'' \<and> x \<noteq> ''--help'')"
    then have no: "CHR ''='' \<notin> set x" by auto
    have "x \<in> set (render_args a)" using that by simp
    then show False using no
      by (auto simp: render_args_def render_opt_def render_option_def split: option.splits)
  qed
  show ?thesis
    using loop first
    by (auto simp: parse_args_def parse_subcmd_args_def parse_run_args_def simp del: run_loop.simps
        split: list.split)
qed

lemma render_parse_run_witness:
  "parse_args \<lparr>pv_exists = \<lambda>_. True, pv_is_dir = \<lambda>_. True\<rparr>
     [''run'', ''--kernel=/boot/Image'', ''--volume=/srv:/data'', ''--port-forward=10.0.0.1:8080:80'', ''--cid=7''] =
   Inr (SubRun (run_args_default
     \<lparr>ra_kernel := Some ''/boot/Image'', ra_volume := [\<lparr>vv_host_dir = ''/srv'', vv_guest_dir = ''/data''\<rparr>],
      ra_port_forward := [\<lparr>pf_host_ip = 0x0A000001, pf_host_port = 8080, pf_guest_port = 80\<rparr>],
      ra_cid := Some 7\<rparr>))"
proof -
  let ?fs = "\<lparr>pv_exists = \<lambda>_. True, pv_is_dir = \<lambda>_. True\<rparr>"
  let ?a = "run_args_default
     \<lparr>ra_kernel := Some ''/boot/Image'', ra_volume := [\<lparr>vv_host_dir = ''/srv'', vv_guest_dir = ''/data''\<rparr>],
      ra_port_forward := [\<lparr>pf_host_ip = 0x0A000001, pf_host_port = 8080, pf_guest_port = 80\<rparr>],
      ra_cid := Some 7\<rparr>"
  have "valid_run_args ?fs ?a" "\<not> ra_help ?a"
    by (simp_all add: valid_run_args_def valid_volume_def no_colon_def is_absolute_def starts_with_def
        run_args_default_def)
  moreover have "render_args ?a = [''--kernel=/boot/Image'', ''--volume=/srv:/data'',
      ''--port-forward=10.0.0.1:8080:80'', ''--cid=7'']"
    by (simp add: render_args_def render_opt_def render_option_def volume_string_def port_forward_string_def
        num_string_def v4_string_def dec_string.simps digit_char_def char_of_def bit_iff_odd
        run_args_default_def)
  ultimately show ?thesis using render_parse_run [of ?fs ?a] by simp
qed

end
