(* ===== verification/LaunchQemu.thy ===== *)
theory LaunchQemu
  imports LaunchCli
begin

text \<open>
  Starting the virtual machine (\<^verbatim>\<open>launcher/src/utils.rs\<close>, \<^verbatim>\<open>dispatcher.rs\<close>, \<^verbatim>\<open>qemu.rs\<close> and
  \<^verbatim>\<open>main.rs\<close>): the tools found in \<open>PATH\<close>, the two sources of the launch options, the QEMU command
  line built step by step, the virtiofs daemons and the run of QEMU, as a trace of events.  The
  file system, the processes' answers, JSON decoding and the random bytes are a record of answers.
\<close>

section \<open>The machine\<close>

record launcher_config =
  lc_certdir :: string
  lc_image :: string
  lc_payload :: string
  lc_memory :: u64
  lc_cid :: u32
  lc_qemu_args :: "string option"

text \<open>What starting one virtiofs daemon ends in: no process, an exit within 250 ms, or a running process.\<close>

datatype daemon_answer = SpawnFailed string | ExitedEarly string | Running

record vm_host =
  vh_view :: path_view
  vh_env :: "string \<Rightarrow> string option"
  vh_read :: "string \<Rightarrow> string + string"
  vh_json :: "string \<Rightarrow> string + launcher_config"
  vh_metadata :: "string \<Rightarrow> (bool \<times> u32) option"
  vh_unshare :: "string + (bool \<times> string \<times> string)"
  vh_urandom :: "string + bytes"
  vh_mkdir :: "string \<Rightarrow> string + unit"
  vh_metadata_dir :: "string \<Rightarrow> string + bool"
  vh_write :: "string \<Rightarrow> string + unit"
  vh_virtiofsd :: "nat \<Rightarrow> daemon_answer"
  vh_spawn :: "string + unit"
  vh_wait :: "string + bool"

text \<open>What the launcher does, in order.\<close>

datatype vm_event =
    EvMkdir string
  | EvWrite string string
  | EvVirtiofsd nat "string list"
  | EvKill nat
  | EvQemu "string list"
  | EvHelp help_type

section \<open>Paths and names\<close>

text \<open>\<open>Path::join\<close>.\<close>

definition path_join :: "string \<Rightarrow> string \<Rightarrow> string" where
  "path_join a b =
     (if is_absolute b then b else if a = [] \<or> ends_with a ''/'' then a @ b else a @ ''/'' @ b)"

definition hex_digit :: "nat \<Rightarrow> char" where
  "hex_digit d = (if d < 10 then digit_char d else char_of (87 + d))"

definition hex2 :: "nat \<Rightarrow> string" where
  "hex2 n = [hex_digit (n div 16), hex_digit (n mod 16)]"

definition generate_12hex_random_id :: "vm_host \<Rightarrow> string + string" where
  "generate_12hex_random_id h =
     (case vh_urandom h of Inl e \<Rightarrow> Inl e | Inr bs \<Rightarrow> Inr (concat (map (\<lambda>b. hex2 (unat b)) (take 6 bs))))"

definition create_vm_work_dir :: "vm_host \<Rightarrow> (string + string) \<times> vm_event list" where
  "create_vm_work_dir h =
     (case vh_env h ''HOME'' of
        None \<Rightarrow> (Inl ''Failed to find home directory'', [])
      | Some home \<Rightarrow>
          let base = path_join (path_join (path_join home ''.local'') ''share'') ''trt_launcher'' in
          (case vh_mkdir h base of
             Inl e \<Rightarrow> (Inl (''Failed to create base dir '' @ base @ '':'' @ e), [])
           | Inr _ \<Rightarrow>
               (case generate_12hex_random_id h of
                  Inl e \<Rightarrow> (Inl e, [EvMkdir base])
                | Inr rid \<Rightarrow>
                    let work = path_join base rid in
                    (case vh_mkdir h work of
                       Inl e \<Rightarrow> (Inl (''Failed to create work dir '' @ work @ '':'' @ e), [EvMkdir base])
                     | Inr _ \<Rightarrow> (Inr work, [EvMkdir base, EvMkdir work])))))"

text \<open>\<open>trim_matches('/')\<close>, the filter that drops repeated slashes, and the escape of one byte.\<close>

definition trim_slashes :: "string \<Rightarrow> string" where
  "trim_slashes s = rev (dropWhile (\<lambda>c. c = CHR ''/'') (rev (dropWhile (\<lambda>c. c = CHR ''/'') s)))"

fun squeeze :: "bool \<Rightarrow> string \<Rightarrow> string" where
  "squeeze slash_seq [] = []"
| "squeeze slash_seq (c # cs) =
     (if c = CHR ''/'' \<and> slash_seq then squeeze True cs else c # squeeze (c = CHR ''/'') cs)"

definition in_range :: "char \<Rightarrow> char \<Rightarrow> char \<Rightarrow> bool" where
  "in_range lo hi c \<longleftrightarrow> (of_char lo :: nat) \<le> of_char c \<and> (of_char c :: nat) \<le> of_char hi"

definition plain_char :: "char \<Rightarrow> bool" where
  "plain_char c \<longleftrightarrow>
     c = CHR '':'' \<or> c = CHR ''_'' \<or> in_range (CHR ''0'') (CHR ''9'') c \<or>
     in_range (CHR ''a'') (CHR ''z'') c \<or> in_range (CHR ''A'') (CHR ''Z'') c"

definition backslash :: char where "backslash = CHR 0x5C"

definition escape_byte :: "nat \<Rightarrow> char \<Rightarrow> string" where
  "escape_byte n c =
     (if c = CHR ''/'' then ''-''
      else if plain_char c then [c]
      else if c = CHR ''.'' \<and> n > 0 then [c]
      else backslash # CHR ''x'' # hex2 (of_char c))"

definition escape_path :: "string \<Rightarrow> string" where
  "escape_path path =
     (let trimmed = trim_slashes path in
      if trimmed = [] then ''-''
      else let s = squeeze False trimmed in concat (map2 escape_byte [0..<length s] s))"

definition virtiofs_tag :: "virtiofs_bind \<Rightarrow> string" where
  "virtiofs_tag b = escape_path (vb_guest_path b)"

definition socket_name :: "virtiofs_bind \<Rightarrow> string" where
  "socket_name b = virtiofs_tag b @ ''.sock''"

section \<open>Tools\<close>

record executable_paths =
  ep_qemu_path :: string
  ep_virtiofsd_path :: "string option"

definition EXECUTE_MASK :: u32 where "EXECUTE_MASK = 0x49"

definition find_executable :: "vm_host \<Rightarrow> string \<Rightarrow> string option" where
  "find_executable h bin =
     (case vh_env h ''PATH'' of
        None \<Rightarrow> None
      | Some path_env \<Rightarrow>
          map_option (\<lambda>dir. path_join dir bin)
            (List.find (\<lambda>dir. dir \<noteq> [] \<and>
               (case vh_metadata h (path_join dir bin) of
                  None \<Rightarrow> False | Some (is_file, mode) \<Rightarrow> is_file \<and> mode AND EXECUTE_MASK \<noteq> 0))
               (str_split (CHR '':'') path_env)))"

definition check_unshare :: "vm_host \<Rightarrow> string + unit" where
  "check_unshare h =
     (case vh_unshare h of
        Inl e \<Rightarrow> Inl e
      | Inr (success, out, err) \<Rightarrow>
          if \<not> success
          then Inl (''Failed to command '' @ [CHR 0x27] @ ''unshare -r id'' @ [CHR 0x27] @ '', stdout : '' @ out @
                    '' , stderr: '' @ err)
          else if \<not> starts_with out ''uid=0(root) gid=0(root) groups=0(root)''
          then Inl (''Expected output to start with '' @ [CHR 0x27] @
                    ''uid=0(root) gid=0(root) groups=0(root)'' @ [CHR 0x27] @ '' but got '' @ out)
          else Inr ())"

definition find_required_tools :: "vm_host \<Rightarrow> string + executable_paths" where
  "find_required_tools h =
     (case find_executable h ''qemu-system-aarch64'' of
        None \<Rightarrow> Inl ''qemu-system-aarch64 not found in $PATH''
      | Some qemu \<Rightarrow>
          (case find_executable h ''virtiofsd'' of
             Some p \<Rightarrow> rbind (check_unshare h) (\<lambda>_. Inr \<lparr>ep_qemu_path = qemu, ep_virtiofsd_path = Some p\<rparr>)
           | None \<Rightarrow> Inr \<lparr>ep_qemu_path = qemu, ep_virtiofsd_path = None\<rparr>))"

section \<open>Launch options\<close>

definition DEFAULT_MEM :: u64 where "DEFAULT_MEM = 2048 + 128"
definition DEFAULT_SMP :: u16 where "DEFAULT_SMP = 2"
definition DEFAULT_CID :: u32 where "DEFAULT_CID = 3"

record run_config =
  rc_image_path :: string
  rc_payload_path :: string
  rc_cert_dir :: "string option"
  rc_mem :: u32
  rc_cid :: u32
  rc_qemu_args :: "string option"

record qemu_launch_opts =
  qo_virtiofs_vols :: "virtiofs_bind list"
  qo_published_ports :: "port_forward_value list"
  qo_image_path :: string
  qo_qemu_args :: "string option"
  qo_payload :: "string option"
  qo_cert_dir :: "string option"
  qo_vol_9p_paths :: "volume_value list"
  qo_mem :: u32
  qo_smp :: u32
  qo_cid :: u32

definition validate_launcher_config :: "path_view \<Rightarrow> launcher_config \<Rightarrow> string + unit" where
  "validate_launcher_config fs c =
     (case List.find (\<lambda>f. \<not> pv_exists fs f) [lc_image c, lc_payload c] of
        Some f \<Rightarrow> Inl (''Config required file not found: '' @ f)
      | None \<Rightarrow>
          if \<not> pv_exists fs (lc_certdir c) \<or> \<not> pv_is_dir fs (lc_certdir c)
          then Inl (''Certificate required directory not found or not a directory: '' @ lc_certdir c)
          else Inr ())"

definition check_param_exists :: "path_view \<Rightarrow> string option \<Rightarrow> string \<Rightarrow> string + string" where
  "check_param_exists fs v arg_name =
     (case v of
        None \<Rightarrow> Inl (cli_error_string (MissingValue arg_name))
      | Some path \<Rightarrow>
          if pv_exists fs path then Inr path
          else Inl (''File does not exist for '' @ arg_name @ '': '' @ path))"

definition config_custom :: "vm_host \<Rightarrow> string \<Rightarrow> string + run_config" where
  "config_custom h config_path =
     rbind (vh_read h config_path) (\<lambda>content.
     rbind (vh_json h content) (\<lambda>c.
     rbind (validate_launcher_config (vh_view h) c) (\<lambda>_.
     Inr \<lparr>rc_image_path = lc_image c, rc_payload_path = lc_payload c, rc_cert_dir = Some (lc_certdir c),
          rc_mem = ucast (lc_memory c), rc_cid = lc_cid c, rc_qemu_args = lc_qemu_args c\<rparr>)))"

definition unwrap_or :: "'a option \<Rightarrow> 'a \<Rightarrow> 'a" where
  "unwrap_or v d = (case v of None \<Rightarrow> d | Some x \<Rightarrow> x)"

definition analyze_required_args :: "vm_host \<Rightarrow> run_args \<Rightarrow> string + run_config" where
  "analyze_required_args h a =
     (case ra_app_conf a of
        Some conf \<Rightarrow>
          if pv_exists (vh_view h) conf then config_custom h conf
          else Inl (''Config file not found for --app-conf: '' @ conf)
      | None \<Rightarrow>
          rbind (check_param_exists (vh_view h) (ra_payload a) ''--payload'') (\<lambda>payload.
          rbind (check_param_exists (vh_view h) (ra_kernel a) ''--kernel'') (\<lambda>image.
          Inr \<lparr>rc_image_path = image, rc_payload_path = payload, rc_cert_dir = None,
               rc_mem = ucast (unwrap_or (ra_mem a) DEFAULT_MEM),
               rc_cid = unwrap_or (ra_cid a) DEFAULT_CID, rc_qemu_args = None\<rparr>)))"

definition cli_args_to_qemu_opts :: "vm_host \<Rightarrow> run_args \<Rightarrow> string + qemu_launch_opts" where
  "cli_args_to_qemu_opts h a =
     rbind (analyze_required_args h a) (\<lambda>config.
     Inr \<lparr>qo_virtiofs_vols = ra_virtiofs a, qo_published_ports = ra_port_forward a,
          qo_image_path = rc_image_path config, qo_qemu_args = rc_qemu_args config,
          qo_payload = Some (rc_payload_path config), qo_cert_dir = rc_cert_dir config,
          qo_vol_9p_paths = ra_volume a, qo_mem = rc_mem config,
          qo_smp = ucast (unwrap_or (ra_smp a) DEFAULT_SMP), qo_cid = rc_cid config\<rparr>)"

section \<open>The command line of QEMU\<close>

definition needs_escape :: "string \<Rightarrow> bool" where
  "needs_escape arg \<longleftrightarrow>
     contains_whitespace arg \<or> (\<exists>c \<in> set arg. c \<in> {backslash, CHR 0x22, CHR ''$'', CHR 0x60, CHR 0x7C})"

definition escape_arg :: "string \<Rightarrow> string" where
  "escape_arg arg =
     (if needs_escape arg
      then CHR 0x22 # concat (map (\<lambda>c. if c = backslash \<or> c = CHR 0x22 then [backslash, c] else [c]) arg) @
           [CHR 0x22]
      else arg)"

definition command_as_string :: "string \<Rightarrow> string list \<Rightarrow> string" where
  "command_as_string program args = program @ '' '' @ join_with '' '' (map escape_arg args)"

text \<open>The builder: arguments so far and events so far; a step ends in an error or a value.\<close>

record qemu_build =
  qb_args :: "string list"
  qb_events :: "vm_event list"

type_synonym 'a build_step = "qemu_build \<Rightarrow> (string + 'a) \<times> qemu_build"

definition then_step :: "'a build_step \<Rightarrow> ('a \<Rightarrow> 'b build_step) \<Rightarrow> 'b build_step" where
  "then_step m f b = (case m b of (Inl e, b') \<Rightarrow> (Inl e, b') | (Inr x, b') \<Rightarrow> f x b')"

definition add_args :: "string list \<Rightarrow> unit build_step" where
  "add_args as b = (Inr (), b\<lparr>qb_args := qb_args b @ as\<rparr>)"

definition add_event :: "vm_event \<Rightarrow> unit build_step" where
  "add_event e b = (Inr (), b\<lparr>qb_events := qb_events b @ [e]\<rparr>)"

definition lift_answer :: "string + 'a \<Rightarrow> 'a build_step" where
  "lift_answer r b = (r, b)"

definition basic_args :: "qemu_launch_opts \<Rightarrow> string list" where
  "basic_args o' =
     [''-machine'', ''virt,acpi=on,accel=kvm,gic-version=3,confidential-guest-support=rme0'',
      ''-enable-kvm'',
      ''-cpu'', ''host'',
      ''-m'', ''size='' @ num_string (qo_mem o') @ ''M'',
      ''-overcommit'', ''mem-lock=on'',
      ''-smp'', num_string (qo_smp o'),
      ''-append'', ''rdinit=init console=ttyAMA0 rodata=full nosoftlockup rcupdate.rcu_cpu_stall_timeout=3000'',
      ''-nographic'',
      ''-object'', ''rme-guest,id=rme0,measurement-algorithm=sha512,hisi-cca-enable=off'',
      ''-device'', ''vhost-vsock-pci,guest-cid='' @ num_string (qo_cid o')]"

definition configure_basic_qemu_command :: "qemu_launch_opts \<Rightarrow> unit build_step" where
  "configure_basic_qemu_command o' = add_args (basic_args o')"

definition kernel_args :: "qemu_launch_opts \<Rightarrow> string list" where
  "kernel_args o' =
     [''-kernel'', qo_image_path o', ''-initrd'', unwrap_or (qo_payload o') ''/mnt/out-br/images/rootfs.cpio'']"

definition configure_kernel_and_payload :: "qemu_launch_opts \<Rightarrow> unit build_step" where
  "configure_kernel_and_payload o' = add_args (kernel_args o')"

definition fsdev_arg :: "nat \<Rightarrow> string \<Rightarrow> string" where
  "fsdev_arg i path = ''local,security_model=passthrough,id=fsdev'' @ dec_string i @ '',path='' @ path"

definition share_device_arg :: "nat \<Rightarrow> string \<Rightarrow> string" where
  "share_device_arg i mount_tag = ''virtio-9p-pci,fsdev=fsdev'' @ dec_string i @ '',mount_tag='' @ mount_tag"

definition share_args :: "nat \<Rightarrow> string \<Rightarrow> string \<Rightarrow> string list" where
  "share_args i path mount_tag =
     [''-fsdev'', fsdev_arg i path, ''-device'', share_device_arg i mount_tag]"

definition configure_virtio_9p_single ::
  "vm_host \<Rightarrow> string \<Rightarrow> string \<Rightarrow> nat \<Rightarrow> unit build_step" where
  "configure_virtio_9p_single h path mount_tag fsdev_id =
     (case vh_metadata_dir h path of
        Inl e \<Rightarrow> lift_answer (Inl (''Could not access target path'' @ path @ '', error:'' @ e))
      | Inr is_dir \<Rightarrow>
          if \<not> is_dir
          then lift_answer (Inl (''virtio9p sharing directory '' @ path @ '' is not a folder '' @ [CHR 0x0A]))
          else add_args (share_args fsdev_id path mount_tag))"

definition hostfwd :: "port_forward_value \<Rightarrow> string" where
  "hostfwd p = '',hostfwd=:'' @ v4_string (pf_host_ip p) @ '':'' @ num_string (pf_host_port p) @ ''-:'' @
     num_string (pf_guest_port p)"

definition port_args :: "qemu_launch_opts \<Rightarrow> string list" where
  "port_args o' =
     [''-netdev'', ''user,id=net0'' @ concat (map hostfwd (qo_published_ports o')),
      ''-device'', ''virtio-net-pci,netdev=net0,rombar=0'']"

definition configure_port_forwarding :: "qemu_launch_opts \<Rightarrow> unit build_step" where
  "configure_port_forwarding o' = add_args (port_args o')"

text \<open>
  \<open>launch_virtiofsd\<close>: the socket of every daemon is \<open>virtiofs.sock\<close> in the run directory.  A
  child is killed when its handle is dropped (\<open>kill_on_drop\<close>).
\<close>

definition virtiofsd_command :: "string \<Rightarrow> string \<Rightarrow> virtiofs_bind \<Rightarrow> string list" where
  "virtiofsd_command virtiofsd_path run_dir b =
     [''unshare'', ''-r'', ''--'', virtiofsd_path, ''--socket-path'', path_join run_dir ''virtiofs.sock'',
      ''--shared-dir'', vb_host_path b, ''--cache=auto'']"

definition launch_virtiofsd ::
  "vm_host \<Rightarrow> nat \<Rightarrow> string \<Rightarrow> string \<Rightarrow> virtiofs_bind \<Rightarrow> unit build_step" where
  "launch_virtiofsd h i virtiofsd_path run_dir b =
     (case vh_virtiofsd h i of
        SpawnFailed e \<Rightarrow> lift_answer (Inl e)
      | ExitedEarly err \<Rightarrow> lift_answer (Inl (''Virtiofsd failed: '' @ err))
      | Running \<Rightarrow> add_event (EvVirtiofsd i (virtiofsd_command virtiofsd_path run_dir b)))"

fun drop_handles :: "nat list \<Rightarrow> unit build_step" where
  "drop_handles [] b = (Inr (), b)"
| "drop_handles (i # is) b = then_step (add_event (EvKill i)) (\<lambda>_. drop_handles is) b"

definition virtiofs_args :: "nat \<Rightarrow> string \<Rightarrow> virtiofs_bind \<Rightarrow> string list" where
  "virtiofs_args i run_dir b =
     [''-chardev'', ''socket,id=char'' @ dec_string i @ '',path='' @ path_join run_dir (socket_name b),
      ''-device'', ''vhost-user-fs-pci,chardev=char'' @ dec_string i @ '',tag='' @ virtiofs_tag b @
        '',iommu_platform=false'']"

text \<open>
  The loop over the bindings with the handles so far; leaving it by an error drops them.  The fstab
  entries it collects are never used.
\<close>

fun configure_virtiofsd ::
  "vm_host \<Rightarrow> string option \<Rightarrow> string \<Rightarrow> nat \<Rightarrow> virtiofs_bind list \<Rightarrow> nat list \<Rightarrow> nat list build_step" where
  "configure_virtiofsd h tool run_dir i [] handles st = (Inr handles, st)"
| "configure_virtiofsd h tool run_dir i (b # bs) handles st =
     (case tool of
        None \<Rightarrow> (Inr handles, st)
      | Some p \<Rightarrow>
          (case launch_virtiofsd h i p run_dir b st of
             (Inl e, st') \<Rightarrow>
               (case drop_handles handles st' of (_, st'') \<Rightarrow>
                  (Inl (''Failed to launch virtiofsd_path for '' @ virtiofs_string b @ '': '' @ e), st''))
           | (Inr _, st') \<Rightarrow>
               then_step (add_args (virtiofs_args i run_dir b))
                 (\<lambda>_. configure_virtiofsd h tool run_dir (Suc i) bs (handles @ [i])) st'))"

definition custom_args :: "qemu_launch_opts \<Rightarrow> string list" where
  "custom_args o' =
     (case qo_qemu_args o' of None \<Rightarrow> [] | Some s \<Rightarrow> split_whitespace s)"

definition configure_custom_qemu_args :: "qemu_launch_opts \<Rightarrow> unit build_step" where
  "configure_custom_qemu_args o' = add_args (custom_args o')"

definition fstab_line :: "nat \<Rightarrow> volume_value \<Rightarrow> string" where
  "fstab_line i v =
     ''usrshare'' @ dec_string i @ ''  '' @ vv_guest_dir v @
     ''  9p  trans=virtio,version=9p2000.L,_netdev,noatime,nodiratime 0 0'' @ [CHR 0x0A]"

fun volumes_loop :: "vm_host \<Rightarrow> nat \<Rightarrow> volume_value list \<Rightarrow> string \<Rightarrow> string build_step" where
  "volumes_loop h i [] mount_config st = (Inr mount_config, st)"
| "volumes_loop h i (v # vs) mount_config st =
     then_step (configure_virtio_9p_single h (vv_host_dir v) (''usrshare'' @ dec_string i) (i + 2))
       (\<lambda>_. volumes_loop h (Suc i) vs (mount_config @ fstab_line i v)) st"

definition configure_9p_volumes :: "vm_host \<Rightarrow> qemu_launch_opts \<Rightarrow> string \<Rightarrow> unit build_step" where
  "configure_9p_volumes h o' run_dir =
     then_step (volumes_loop h 0 (qo_vol_9p_paths o') []) (\<lambda>mount_config.
     then_step (lift_answer (vh_write h (path_join run_dir ''fstab''))) (\<lambda>_.
     add_event (EvWrite (path_join run_dir ''fstab'') mount_config)))"

definition make_work_dir :: "vm_host \<Rightarrow> string build_step" where
  "make_work_dir h b =
     (case create_vm_work_dir h of (r, evs) \<Rightarrow> (r, b\<lparr>qb_events := qb_events b @ evs\<rparr>))"

definition configure_cert_share :: "vm_host \<Rightarrow> qemu_launch_opts \<Rightarrow> unit build_step" where
  "configure_cert_share h o' =
     (case qo_cert_dir o' of
        None \<Rightarrow> lift_answer (Inr ())
      | Some d \<Rightarrow> configure_virtio_9p_single h d ''certshare'' 1)"

definition configure_qemu_all :: "vm_host \<Rightarrow> qemu_launch_opts \<Rightarrow> executable_paths \<Rightarrow> unit build_step" where
  "configure_qemu_all h o' tools =
     then_step (make_work_dir h) (\<lambda>run_dir.
     then_step (configure_basic_qemu_command o') (\<lambda>_.
     then_step (configure_kernel_and_payload o') (\<lambda>_.
     then_step (configure_virtio_9p_single h run_dir ''ccashare'' 0) (\<lambda>_.
     then_step (configure_cert_share h o') (\<lambda>_.
     then_step (configure_9p_volumes h o' run_dir) (\<lambda>_.
     then_step (configure_port_forwarding o') (\<lambda>_.
     then_step (configure_virtiofsd h (ep_virtiofsd_path tools) run_dir 0 (qo_virtiofs_vols o') []) (\<lambda>handles.
     then_step (configure_custom_qemu_args o') (\<lambda>_.
     drop_handles handles)))))))))"

section \<open>The run\<close>

text \<open>Everything printed to standard error is logged; how QEMU exits only changes the log.\<close>

definition launch_qemu :: "vm_host \<Rightarrow> executable_paths \<Rightarrow> qemu_launch_opts \<Rightarrow> (string + unit) \<times> vm_event list" where
  "launch_qemu h tools o' =
     (case configure_qemu_all h o' tools \<lparr>qb_args = [], qb_events = []\<rparr> of
        (Inl e, b) \<Rightarrow> (Inl e, qb_events b)
      | (Inr _, b) \<Rightarrow>
          (case vh_spawn h of
             Inl e \<Rightarrow> (Inl e, qb_events b)
           | Inr _ \<Rightarrow>
               ((case vh_wait h of Inl e \<Rightarrow> Inl e | Inr _ \<Rightarrow> Inr ()),
                qb_events b @ [EvQemu (ep_qemu_path tools # qb_args b)])))"

definition dispatch_to_qemu :: "vm_host \<Rightarrow> run_args \<Rightarrow> (string + unit) \<times> vm_event list" where
  "dispatch_to_qemu h a =
     (case find_required_tools h of
        Inl e \<Rightarrow> (Inl e, [])
      | Inr tools \<Rightarrow>
          (case cli_args_to_qemu_opts h a of
             Inl e \<Rightarrow> (Inr (), [EvHelp HelpRun])
           | Inr opts \<Rightarrow> (Inr (), snd (launch_qemu h tools opts))))"

definition run_vm :: "vm_host \<Rightarrow> run_args \<Rightarrow> (string + unit) \<times> vm_event list" where
  "run_vm h a =
     (case ra_runtime a of
        None \<Rightarrow> (Inl (cli_error_string (MissingValue ''--runtime'')), [])
      | Some runtime \<Rightarrow>
          if runtime = ''qemu'' then dispatch_to_qemu h a
          else (Inl (cli_error_string (UnknownOption (''Unsupported runtime: '' @ runtime))), []))"

text \<open>\<open>main\<close> after the logger: the exit code and what happened.\<close>

definition launcher_main :: "vm_host \<Rightarrow> string list \<Rightarrow> nat \<times> vm_event list" where
  "launcher_main h argv =
     (case parse_args (vh_view h) argv of
        Inl e \<Rightarrow> (1, [])
      | Inr (SubHelp t) \<Rightarrow> (0, [EvHelp t])
      | Inr (SubRun a) \<Rightarrow>
          (case run_vm h (if ra_runtime a = None then a\<lparr>ra_runtime := Some ''qemu''\<rparr> else a) of
             (Inl e, evs) \<Rightarrow> (1, evs)
           | (Inr _, evs) \<Rightarrow> (0, evs)))"

section \<open>The whole command line\<close>

named_theorems step_simps \<open>the builder's steps on a state\<close>

lemma then_step_Inr:
  "then_step m f b = (Inr y, b') \<longleftrightarrow> (\<exists>x b1. m b = (Inr x, b1) \<and> f x b1 = (Inr y, b'))"
  by (auto simp: then_step_def split: prod.splits sum.splits)

lemma add_args_Inr [step_simps]: "add_args as b = (Inr u, b') \<longleftrightarrow> b' = b\<lparr>qb_args := qb_args b @ as\<rparr>"
  by (auto simp: add_args_def)

lemma add_event_Inr [step_simps]: "add_event e b = (Inr u, b') \<longleftrightarrow> b' = b\<lparr>qb_events := qb_events b @ [e]\<rparr>"
  by (auto simp: add_event_def)

lemma lift_answer_Inr [step_simps]: "lift_answer r b = (Inr x, b') \<longleftrightarrow> r = Inr x \<and> b' = b"
  by (auto simp: lift_answer_def)

lemma single_Inr [step_simps]:
  "configure_virtio_9p_single h path tag i b = (Inr u, b') \<longleftrightarrow>
     vh_metadata_dir h path = Inr True \<and> b' = b\<lparr>qb_args := qb_args b @ share_args i path tag\<rparr>"
  by (auto simp: configure_virtio_9p_single_def step_simps split: sum.splits)

definition cert_args :: "qemu_launch_opts \<Rightarrow> string list" where
  "cert_args o' = (case qo_cert_dir o' of None \<Rightarrow> [] | Some d \<Rightarrow> share_args 1 d ''certshare'')"

lemma cert_Inr:
  "configure_cert_share h o' b = (Inr u, b') \<Longrightarrow> b' = b\<lparr>qb_args := qb_args b @ cert_args o'\<rparr>"
  by (auto simp: configure_cert_share_def cert_args_def step_simps split: option.splits)

definition volume_args :: "nat \<Rightarrow> volume_value list \<Rightarrow> string list" where
  "volume_args n vs =
     concat (map (\<lambda>(i, v). share_args (i + 2) (vv_host_dir v) (''usrshare'' @ dec_string i)) (enumerate n vs))"

definition fstab_content :: "nat \<Rightarrow> volume_value list \<Rightarrow> string" where
  "fstab_content n vs = concat (map (\<lambda>(i, v). fstab_line i v) (enumerate n vs))"

lemma volumes_loop_Inr:
  "volumes_loop h n vs content b = (Inr content', b') \<Longrightarrow>
     content' = content @ fstab_content n vs \<and> b' = b\<lparr>qb_args := qb_args b @ volume_args n vs\<rparr>"
proof (induction vs arbitrary: n content b)
  case (Cons v vs)
  from Cons.prems have "volumes_loop h (Suc n) vs (content @ fstab_line n v)
      (b\<lparr>qb_args := qb_args b @ share_args (n + 2) (vv_host_dir v) (''usrshare'' @ dec_string n)\<rparr>) =
      (Inr content', b')"
    by (auto simp: then_step_Inr step_simps)
  from Cons.IH [OF this] show ?case by (simp add: volume_args_def fstab_content_def)
qed (simp add: volume_args_def fstab_content_def)

definition daemon_events :: "string \<Rightarrow> string \<Rightarrow> nat \<Rightarrow> virtiofs_bind list \<Rightarrow> vm_event list" where
  "daemon_events p run_dir n bs =
     map (\<lambda>(i, b). EvVirtiofsd i (virtiofsd_command p run_dir b)) (enumerate n bs)"

definition all_virtiofs_args :: "string \<Rightarrow> nat \<Rightarrow> virtiofs_bind list \<Rightarrow> string list" where
  "all_virtiofs_args run_dir n bs = concat (map (\<lambda>(i, b). virtiofs_args i run_dir b) (enumerate n bs))"

lemma configure_virtiofsd_Inr:
  "configure_virtiofsd h (Some p) run_dir n bs handles b = (Inr handles', b') \<Longrightarrow>
     handles' = handles @ [n..<n + length bs] \<and>
     b' = b\<lparr>qb_args := qb_args b @ all_virtiofs_args run_dir n bs,
            qb_events := qb_events b @ daemon_events p run_dir n bs\<rparr>"
proof (induction bs arbitrary: n handles b)
  case (Cons v vs)
  from Cons.prems have "configure_virtiofsd h (Some p) run_dir (Suc n) vs (handles @ [n])
      (b\<lparr>qb_events := qb_events b @ [EvVirtiofsd n (virtiofsd_command p run_dir v)],
         qb_args := qb_args b @ virtiofs_args n run_dir v\<rparr>) = (Inr handles', b')"
    by (auto simp: then_step_Inr step_simps launch_virtiofsd_def lift_answer_def add_event_def
        split: daemon_answer.splits prod.splits)
  from Cons.IH [OF this] show ?case
    by (simp add: all_virtiofs_args_def daemon_events_def upt_conv_Cons del: upt_Suc)
qed (simp add: all_virtiofs_args_def daemon_events_def)

lemma configure_virtiofsd_None:
  "configure_virtiofsd h None run_dir n bs handles b = (Inr handles, b)"
  by (cases bs) auto

lemma drop_handles_Inr: "drop_handles hs b = (Inr (), b\<lparr>qb_events := qb_events b @ map EvKill hs\<rparr>)"
  by (induction hs arbitrary: b) (auto simp: then_step_def add_event_def)

text \<open>The arguments of QEMU, in closed form.\<close>

definition qemu_arguments :: "executable_paths \<Rightarrow> qemu_launch_opts \<Rightarrow> string \<Rightarrow> string list" where
  "qemu_arguments tools o' run_dir =
     basic_args o' @ kernel_args o' @ share_args 0 run_dir ''ccashare'' @
     cert_args o' @ volume_args 0 (qo_vol_9p_paths o') @ port_args o' @
     (if ep_virtiofsd_path tools = None then [] else all_virtiofs_args run_dir 0 (qo_virtiofs_vols o')) @
     custom_args o'"

definition launch_events :: "executable_paths \<Rightarrow> qemu_launch_opts \<Rightarrow> string \<Rightarrow> vm_event list" where
  "launch_events tools o' run_dir =
     EvWrite (path_join run_dir ''fstab'') (fstab_content 0 (qo_vol_9p_paths o')) #
     (case ep_virtiofsd_path tools of
        None \<Rightarrow> []
      | Some p \<Rightarrow> daemon_events p run_dir 0 (qo_virtiofs_vols o') @
                  map EvKill [0..<length (qo_virtiofs_vols o')])"

lemma configure_qemu_all_Inr:
  assumes "configure_qemu_all h o' tools \<lparr>qb_args = [], qb_events = []\<rparr> = (Inr (), b)"
  shows "\<exists>base run_dir. b = \<lparr>qb_args = qemu_arguments tools o' run_dir,
    qb_events = [EvMkdir base, EvMkdir run_dir] @ launch_events tools o' run_dir\<rparr>"
proof -
  from assms obtain run_dir dirs content handles b1 b2 where
    dir: "create_vm_work_dir h = (Inr run_dir, dirs)" and
    vol: "volumes_loop h 0 (qo_vol_9p_paths o') [] \<lparr>qb_args = basic_args o' @ kernel_args o' @
        share_args 0 run_dir ''ccashare'' @
        cert_args o', qb_events = dirs\<rparr> =
      (Inr content, b1)" and
    vfs: "configure_virtiofsd h (ep_virtiofsd_path tools) run_dir 0 (qo_virtiofs_vols o') []
      (b1\<lparr>qb_events := qb_events b1 @ [EvWrite (path_join run_dir ''fstab'') content],
          qb_args := qb_args b1 @ port_args o'\<rparr>) = (Inr handles, b2)" and
    fin: "b = b2\<lparr>qb_args := qb_args b2 @ custom_args o', qb_events := qb_events b2 @ map EvKill handles\<rparr>"
    unfolding configure_qemu_all_def then_step_Inr configure_basic_qemu_command_def
      configure_kernel_and_payload_def configure_port_forwarding_def configure_custom_qemu_args_def
      configure_9p_volumes_def drop_handles_Inr step_simps make_work_dir_def
    by (auto dest!: cert_Inr split: prod.splits)
  from dir obtain base where dirs: "dirs = [EvMkdir base, EvMkdir run_dir]"
    by (auto simp: create_vm_work_dir_def Let_def split: option.splits sum.splits)
  from volumes_loop_Inr [OF vol] have
    c: "content = fstab_content 0 (qo_vol_9p_paths o')" and
    b1: "b1 = \<lparr>qb_args = basic_args o' @ kernel_args o' @ share_args 0 run_dir ''ccashare'' @
        cert_args o' @ volume_args 0 (qo_vol_9p_paths o'), qb_events = dirs\<rparr>" by simp_all
  show ?thesis
  proof (cases "ep_virtiofsd_path tools")
    case None
    with vfs have "handles = []" "b2 = b1\<lparr>qb_events := qb_events b1 @ [EvWrite (path_join run_dir ''fstab'') content],
        qb_args := qb_args b1 @ port_args o'\<rparr>"
      by (simp_all add: configure_virtiofsd_None)
    with None show ?thesis
      by (intro exI [of _ base] exI [of _ run_dir])
         (simp add: fin b1 dirs c qemu_arguments_def launch_events_def)
  next
    case (Some p)
    with configure_virtiofsd_Inr [OF vfs [unfolded Some]] show ?thesis
      by (intro exI [of _ base] exI [of _ run_dir])
         (simp add: fin b1 dirs c qemu_arguments_def launch_events_def)
  qed
qed

text \<open>No step of the builder starts QEMU.\<close>

definition quiet :: "'a build_step \<Rightarrow> bool" where
  "quiet m \<longleftrightarrow> (\<forall>b argv. EvQemu argv \<in> set (qb_events (snd (m b))) \<longrightarrow> EvQemu argv \<in> set (qb_events b))"

named_theorems quiet_intros

lemma quiet_then [quiet_intros]: "quiet m \<Longrightarrow> (\<And>x. quiet (f x)) \<Longrightarrow> quiet (then_step m f)"
proof -
  assume m: "quiet m" and f: "\<And>x. quiet (f x)"
  show ?thesis
    unfolding quiet_def
  proof (intro allI impI)
    fix b argv
    assume ev: "EvQemu argv \<in> set (qb_events (snd (then_step m f b)))"
    obtain r b1 where m1: "m b = (r, b1)" by (cases "m b")
    have "EvQemu argv \<in> set (qb_events b1)"
    proof (cases r)
      case (Inl e)
      with ev m1 show ?thesis by (simp add: then_step_def)
    next
      case (Inr x)
      with ev m1 f [of x] show ?thesis by (simp add: then_step_def quiet_def)
    qed
    with m m1 show "EvQemu argv \<in> set (qb_events b)" unfolding quiet_def by (metis snd_conv)
  qed
qed

lemma quiet_basic [quiet_intros]:
  "quiet (add_args as)" "quiet (lift_answer r)" "(\<And>argv. e \<noteq> EvQemu argv) \<Longrightarrow> quiet (add_event e)"
  by (auto simp: quiet_def add_args_def lift_answer_def add_event_def)

lemma quiet_single [quiet_intros]: "quiet (configure_virtio_9p_single h path tag i)"
  unfolding configure_virtio_9p_single_def by (auto intro: quiet_intros split: sum.splits)

lemma quiet_volumes [quiet_intros]: "quiet (volumes_loop h n vs content)"
proof (induction vs arbitrary: n content)
  case (Cons v vs)
  have "volumes_loop h n (v # vs) content =
      then_step (configure_virtio_9p_single h (vv_host_dir v) (''usrshare'' @ dec_string n) (n + 2))
        (\<lambda>_. volumes_loop h (Suc n) vs (content @ fstab_line n v))" by (rule ext) simp
  then show ?case by (simp only:) (intro quiet_intros Cons.IH)
qed (simp add: quiet_def)

lemma quiet_drop [quiet_intros]: "quiet (drop_handles hs)"
  unfolding quiet_def drop_handles_Inr by auto

lemma quiet_launch [quiet_intros]: "quiet (launch_virtiofsd h i p d v)"
  unfolding launch_virtiofsd_def by (auto intro: quiet_intros split: daemon_answer.splits)

lemma quiet_virtiofsd [quiet_intros]: "quiet (configure_virtiofsd h tool d n vs handles)"
proof (induction vs arbitrary: n handles)
  case (Cons v vs)
  show ?case
  proof (cases tool)
    case (Some p)
    show ?thesis
      unfolding quiet_def
    proof (intro allI impI)
      fix b argv
      assume ev: "EvQemu argv \<in> set (qb_events (snd (configure_virtiofsd h tool d n (v # vs) handles b)))"
      obtain r st where l: "launch_virtiofsd h n p d v b = (r, st)" by (cases "launch_virtiofsd h n p d v b")
      have "EvQemu argv \<in> set (qb_events st)"
      proof (cases r)
        case (Inl e)
        with ev Some l show ?thesis by (auto simp: drop_handles_Inr)
      next
        case (Inr u)
        have "quiet (then_step (add_args (virtiofs_args n d v))
            (\<lambda>_. configure_virtiofsd h tool d (Suc n) vs (handles @ [n])))"
          by (intro quiet_intros Cons.IH)
        with ev Some l Inr show ?thesis unfolding quiet_def by auto
      qed
      moreover have "quiet (launch_virtiofsd h n p d v)" by (rule quiet_launch)
      ultimately show "EvQemu argv \<in> set (qb_events b)" using l unfolding quiet_def by (metis snd_conv)
    qed
  qed (simp add: quiet_def)
qed (simp add: quiet_def)

lemma quiet_work_dir [quiet_intros]: "quiet (make_work_dir h)"
proof -
  have "EvQemu argv \<notin> set evs" if "create_vm_work_dir h = (r, evs)" for r evs argv
    using that by (auto simp: create_vm_work_dir_def Let_def split: option.splits sum.splits)
  then show ?thesis by (auto simp: quiet_def make_work_dir_def split: prod.splits)
qed

lemma quiet_cert [quiet_intros]: "quiet (configure_cert_share h o')"
  unfolding configure_cert_share_def by (auto intro: quiet_intros split: option.splits)

lemma quiet_all: "quiet (configure_qemu_all h o' tools)"
  unfolding configure_qemu_all_def configure_basic_qemu_command_def configure_kernel_and_payload_def
    configure_port_forwarding_def configure_custom_qemu_args_def configure_9p_volumes_def
  by (intro quiet_intros) simp

lemma launch_trace:
  assumes "launch_qemu h tools o' = (r, evs)" "EvQemu argv \<in> set evs"
  shows "\<exists>base run_dir. argv = ep_qemu_path tools # qemu_arguments tools o' run_dir \<and>
    evs = [EvMkdir base, EvMkdir run_dir] @ launch_events tools o' run_dir @ [EvQemu argv]"
proof (cases "configure_qemu_all h o' tools \<lparr>qb_args = [], qb_events = []\<rparr>")
  case (Pair res b)
  have quiet: "EvQemu argv \<notin> set (qb_events b)"
    using quiet_all [of h o' tools] Pair unfolding quiet_def by (metis list.set(1) empty_iff select_convs(2) snd_conv)
  show ?thesis
  proof (cases res)
    case (Inl e)
    with assms Pair quiet show ?thesis by (auto simp: launch_qemu_def)
  next
    case (Inr u)
    with Pair configure_qemu_all_Inr [of h o' tools b] obtain base run_dir where
      b: "b = \<lparr>qb_args = qemu_arguments tools o' run_dir,
        qb_events = [EvMkdir base, EvMkdir run_dir] @ launch_events tools o' run_dir\<rparr>" by auto
    from assms Pair Inr quiet have "evs = qb_events b @ [EvQemu argv]"
      "argv = ep_qemu_path tools # qb_args b"
      by (auto simp: launch_qemu_def split: sum.splits)
    with b show ?thesis by auto
  qed
qed

text \<open>
  Whenever QEMU is started, its command line is the documented one, in closed form: the fixed
  machine, the kernel and payload, the run directory, certificate directory and volumes shared under
  consecutive identifiers, the forwarded ports, one socket per virtiofs binding and the passed-through
  arguments; and the file that tells the guest what to mount has one line per volume.
\<close>

theorem qemu_command_line:
  assumes "launch_qemu h tools o' = (r, evs)" "EvQemu argv \<in> set evs"
  shows "\<exists>base run_dir. argv = ep_qemu_path tools # qemu_arguments tools o' run_dir \<and>
    evs = [EvMkdir base, EvMkdir run_dir] @ launch_events tools o' run_dir @ [EvQemu argv]"
  by (rule launch_trace [OF assms])

section \<open>The virtiofs daemons\<close>

text \<open>The daemons running after a trace.\<close>

fun alive :: "vm_event list \<Rightarrow> nat list \<Rightarrow> nat list" where
  "alive [] l = l"
| "alive (e # es) l =
     alive es (case e of EvVirtiofsd i _ \<Rightarrow> l @ [i] | EvKill i \<Rightarrow> filter (\<lambda>j. j \<noteq> i) l | _ \<Rightarrow> l)"

lemma alive_append: "alive (xs @ ys) l = alive ys (alive xs l)"
  by (induction xs arbitrary: l) auto

lemma alive_daemons: "alive (daemon_events p d n bs) l = l @ [n..<n + length bs]"
proof (induction bs arbitrary: n l)
  case (Cons v bs)
  then show ?case by (simp add: daemon_events_def upt_conv_Cons del: upt_Suc)
qed (simp add: daemon_events_def)

lemma alive_kills: "alive (map EvKill is) l = filter (\<lambda>j. j \<notin> set is) l"
proof (induction "is" arbitrary: l)
  case (Cons i "is")
  then show ?case by (auto intro: filter_cong)
qed simp

lemma no_slash_hex2 [simp]: "n < 256 \<Longrightarrow> CHR ''/'' \<notin> set (hex2 n)"
proof -
  assume n: "n < 256"
  have "CHR ''/'' \<noteq> hex_digit d" if "d < 16" for d
    using that by (auto dest: arg_cong [where f = "of_char :: char \<Rightarrow> nat"]
        simp: hex_digit_def digit_char_code)
  with n show ?thesis by (auto simp: hex2_def)
qed

lemma escape_byte_no_slash: "CHR ''/'' \<notin> set (escape_byte n c)"
  by (auto simp: escape_byte_def plain_char_def backslash_def)

lemma tag_no_slash: "CHR ''/'' \<notin> set (escape_path p)"
  by (auto simp: escape_path_def Let_def escape_byte_no_slash set_zip)

lemma socket_differs:
  assumes "virtiofs_tag b \<noteq> ''virtiofs''"
  shows "path_join d (socket_name b) \<noteq> path_join d ''virtiofs.sock''"
proof -
  have "\<not> is_absolute (socket_name b)"
    using tag_no_slash [of "vb_guest_path b"]
    by (cases "virtiofs_tag b") (auto simp: is_absolute_def socket_name_def starts_with_def virtiofs_tag_def)
  moreover have "\<not> is_absolute ''virtiofs.sock''" by (simp add: is_absolute_def starts_with_def)
  moreover have "socket_name b \<noteq> ''virtiofs.sock''"
  proof
    assume "socket_name b = ''virtiofs.sock''"
    then have "virtiofs_tag b @ ''.sock'' = ''virtiofs'' @ ''.sock''" by (simp add: socket_name_def)
    with assms show False by (simp only: append_same_eq)
  qed
  ultimately show ?thesis by (simp add: path_join_def)
qed

lemma before_last: "pre @ x # post = xs @ [x] \<Longrightarrow> x \<notin> set xs \<Longrightarrow> pre = xs"
proof (induction pre arbitrary: xs)
  case (Cons y pre)
  then show ?case by (cases xs) auto
next
  case Nil
  then show ?case by (cases xs) auto
qed

text \<open>
  C40. The virtiofs shares never work: when QEMU is started every daemon launched for a share has
  already been killed, and each share's device is connected to a socket no daemon ever served,
  unless the guest directory is named virtiofs.
\<close>

theorem virtiofs_daemons_are_dead:
  assumes "launch_qemu h tools o' = (r, pre @ EvQemu argv # post)"
    and "ep_virtiofsd_path tools = Some p" "i < length (qo_virtiofs_vols o')"
  shows "\<exists>run_dir. EvVirtiofsd i (virtiofsd_command p run_dir (qo_virtiofs_vols o' ! i)) \<in> set pre \<and>
    set (virtiofs_args i run_dir (qo_virtiofs_vols o' ! i)) \<subseteq> set argv \<and> alive pre [] = [] \<and>
    (virtiofs_tag (qo_virtiofs_vols o' ! i) \<noteq> ''virtiofs'' \<longrightarrow>
       path_join run_dir (socket_name (qo_virtiofs_vols o' ! i)) \<noteq> path_join run_dir ''virtiofs.sock'')"
proof -
  let ?vs = "qo_virtiofs_vols o'"
  from launch_trace [OF assms(1), of argv] obtain base run_dir where
    argv: "argv = ep_qemu_path tools # qemu_arguments tools o' run_dir" and
    evs: "pre @ EvQemu argv # post =
      [EvMkdir base, EvMkdir run_dir] @ launch_events tools o' run_dir @ [EvQemu argv]" by auto
  have "EvQemu argv \<notin> set ([EvMkdir base, EvMkdir run_dir] @ launch_events tools o' run_dir)"
    by (auto simp: launch_events_def daemon_events_def split: option.splits)
  with evs have pre: "pre = [EvMkdir base, EvMkdir run_dir] @ launch_events tools o' run_dir"
    by (intro before_last [of pre "EvQemu argv" post]) simp_all
  have mem: "(i, ?vs ! i) \<in> set (enumerate 0 ?vs)"
    using assms(3) by (auto simp: in_set_enumerate_eq)
  have "EvVirtiofsd i (virtiofsd_command p run_dir (?vs ! i)) \<in> set pre"
    using mem assms(2) by (auto simp: pre launch_events_def daemon_events_def intro!: image_eqI)
  moreover have "set (virtiofs_args i run_dir (?vs ! i)) \<subseteq> set argv"
    using mem assms(2) by (auto simp: argv qemu_arguments_def all_virtiofs_args_def intro!: bexI)
  moreover have "alive pre [] = []"
    using assms(2) by (auto simp: pre alive_append launch_events_def alive_daemons alive_kills)
  ultimately show ?thesis using socket_differs [of "?vs ! i" run_dir] by blast
qed

section \<open>Names of shares\<close>

text \<open>The components of a path, without regard to leading, trailing and repeated slashes.\<close>

definition path_components :: "string \<Rightarrow> string list" where
  "path_components p = filter (\<lambda>s. s \<noteq> []) (str_split (CHR ''/'') p)"

definition hex_val :: "char \<Rightarrow> nat" where
  "hex_val c = (if (of_char c :: nat) < 97 then of_char c - 48 else of_char c - 87)"

fun unescape :: "string \<Rightarrow> string" where
  "unescape [] = []"
| "unescape (c # cs) =
     (if c = CHR ''-'' then CHR ''/'' # unescape cs
      else if c = backslash then
        (case cs of x # a # b # r \<Rightarrow> char_of (16 * hex_val a + hex_val b) # unescape r | _ \<Rightarrow> [])
      else c # unescape cs)"

lemma hex_val_digit: "d < 16 \<Longrightarrow> hex_val (hex_digit d) = d"
  by (auto simp: hex_val_def hex_digit_def digit_char_code)

lemma unescape_hex2: "unescape (backslash # CHR ''x'' # hex2 (of_char c) @ s) = c # unescape s"
proof -
  have "(of_char c :: nat) < 256" by (rule nat_of_char_less_256)
  then have "(of_char c :: nat) div 16 < 16" by (intro less_mult_imp_div_less) simp
  then show ?thesis by (simp add: hex2_def hex_val_digit backslash_def)
qed

lemma unescape_byte: "unescape (escape_byte n c @ s) = c # unescape s"
proof -
  have "plain_char c \<Longrightarrow> c \<noteq> CHR ''-'' \<and> c \<noteq> backslash" by (auto simp: plain_char_def in_range_def backslash_def)
  moreover have "unescape (backslash # CHR ''x'' # hex2 (of_char c) @ s) = c # unescape s"
    by (rule unescape_hex2)
  ultimately show ?thesis by (auto simp: escape_byte_def simp del: unescape.simps(2)) (simp_all add: backslash_def)
qed

lemma unescape_bytes: "length ns = length s \<Longrightarrow> unescape (concat (map2 escape_byte ns s)) = s"
  by (induction ns s rule: list_induct2) (simp_all add: unescape_byte del: unescape.simps(2))

lemma str_split_nonempty [simp]: "str_split c s \<noteq> []"
  by (induction s) (auto split: list.splits)

lemma str_split_Cons:
  "x \<noteq> c \<Longrightarrow> str_split c (x # xs) = (x # hd (str_split c xs)) # tl (str_split c xs)"
  by (cases "str_split c xs") auto

lemma str_split_sep: "str_split c (c # xs) = [] # str_split c xs"
  by simp

lemma join_str_split: "join_with [c] (str_split c s) = s"
proof (induction s)
  case (Cons x s)
  obtain p ps where "str_split c s = p # ps" by (cases "str_split c s") auto
  with Cons show ?case by (cases ps) auto
qed simp

lemma str_split_snoc: "str_split c (s @ [c]) = str_split c s @ [[]]"
  by (induction s) (auto split: list.splits)

lemma components_slash [simp]: "path_components (CHR ''/'' # s) = path_components s"
  "path_components (s @ ''/'') = path_components s"
  by (simp_all add: path_components_def str_split_snoc)

lemma components_trim: "path_components (trim_slashes p) = path_components p"
proof -
  have front: "path_components (dropWhile (\<lambda>c. c = CHR ''/'') s) = path_components s" for s
    by (induction s) auto
  have rear: "path_components (rev (dropWhile (\<lambda>c. c = CHR ''/'') (rev s))) = path_components s" for s
    by (induction s rule: rev_induct) auto
  show ?thesis by (simp add: trim_slashes_def front rear)
qed

lemma components_squeeze:
  "path_components (squeeze True s) = path_components s \<and>
   hd (str_split (CHR ''/'') (squeeze False s)) = hd (str_split (CHR ''/'') s) \<and>
   filter (\<lambda>x. x \<noteq> []) (tl (str_split (CHR ''/'') (squeeze False s))) =
     filter (\<lambda>x. x \<noteq> []) (tl (str_split (CHR ''/'') s))"
proof (induction s)
  case (Cons c s)
  show ?case
  proof (cases "c = CHR ''/''")
    case True
    with Cons show ?thesis by (simp add: path_components_def)
  next
    case False
    with Cons show ?thesis
      by (simp add: path_components_def str_split_Cons del: str_split.simps(2))
  qed
qed simp

lemma squeeze_no_empty_part:
  assumes "s \<noteq> []" "last s \<noteq> CHR ''/''"
  shows "[] \<notin> set (str_split (CHR ''/'') (squeeze True s)) \<and>
    [] \<notin> set (tl (str_split (CHR ''/'') (squeeze False s))) \<and>
    (hd s \<noteq> CHR ''/'' \<longrightarrow> [] \<notin> set (str_split (CHR ''/'') (squeeze False s)))"
  using assms
proof (induction s)
  case (Cons c s)
  show ?case
  proof (cases "s = []")
    case True
    with Cons.prems show ?thesis by simp
  next
    case False
    with Cons.prems Cons.IH have ih: "[] \<notin> set (str_split (CHR ''/'') (squeeze True s))"
      "[] \<notin> set (tl (str_split (CHR ''/'') (squeeze False s)))" by auto
    then show ?thesis
      by (cases "c = CHR ''/''") (simp_all add: str_split_Cons str_split_sep del: str_split.simps(2))
  qed
qed simp

lemma hd_drop_slashes:
  "dropWhile (\<lambda>c. c = CHR ''/'') s = a \<Longrightarrow> a \<noteq> [] \<Longrightarrow> hd a \<noteq> CHR ''/''"
  using hd_dropWhile [of "\<lambda>c. c = CHR ''/''" s] by blast

lemma trim_ends:
  assumes "trim_slashes p \<noteq> []"
  shows "hd (trim_slashes p) \<noteq> CHR ''/''" "last (trim_slashes p) \<noteq> CHR ''/''"
proof -
  define a where "a = dropWhile (\<lambda>c. c = CHR ''/'') p"
  define b where "b = dropWhile (\<lambda>c. c = CHR ''/'') (rev a)"
  have t: "trim_slashes p = rev b" by (simp only: trim_slashes_def a_def b_def)
  with assms have b: "b \<noteq> []" by simp
  then have "hd b \<noteq> CHR ''/''" by (rule hd_drop_slashes [OF b_def [symmetric]])
  then show "last (trim_slashes p) \<noteq> CHR ''/''" unfolding t last_rev .
  obtain u where "rev a = u @ b" unfolding b_def by (metis takeWhile_dropWhile_id)
  then have a: "a = rev b @ rev u" by (metis rev_append rev_rev_ident)
  with b have "a \<noteq> []" "hd a = hd (rev b)" by simp_all
  with hd_drop_slashes [OF a_def [symmetric]] show "hd (trim_slashes p) \<noteq> CHR ''/''"
    unfolding t by metis
qed

lemma components_hd_tl:
  "path_components s =
     (let parts = str_split (CHR ''/'') s
      in (if hd parts = [] then [] else [hd parts]) @ filter (\<lambda>x. x \<noteq> []) (tl parts))"
  by (cases "str_split (CHR ''/'') s") (simp_all add: path_components_def Let_def)

lemma squeezed_is_joined:
  assumes "trim_slashes p \<noteq> []"
  shows "squeeze False (trim_slashes p) = join_with ''/'' (path_components p)" (is ?join)
    and "path_components p \<noteq> []" (is ?some)
    and "path_components p = str_split (CHR ''/'') (join_with ''/'' (path_components p))" (is ?parts)
proof -
  let ?t = "trim_slashes p" and ?split = "\<lambda>s. str_split (CHR ''/'') s"
  have "[] \<notin> set (?split (squeeze False ?t))"
    by (rule squeeze_no_empty_part [OF assms trim_ends(2) [OF assms], THEN conjunct2, THEN conjunct2,
          THEN mp, OF trim_ends(1) [OF assms]])
  then have "path_components (squeeze False ?t) = ?split (squeeze False ?t)"
    unfolding path_components_def filter_id_conv by auto
  moreover have "path_components (squeeze False ?t) = path_components ?t"
    unfolding components_hd_tl [of "squeeze False ?t"] components_hd_tl [of ?t]
    using components_squeeze [of ?t] by (simp only: Let_def)
  ultimately have p: "path_components p = ?split (squeeze False ?t)" by (simp only: components_trim)
  then show j: ?join by (simp only: join_str_split)
  show ?some unfolding p by simp
  show ?parts using p j by metis
qed

lemma components_empty: "trim_slashes p = [] \<Longrightarrow> path_components p = []"
  using components_trim [of p] by (simp add: path_components_def)

lemma unescape_tag:
  "trim_slashes p \<noteq> [] \<Longrightarrow> unescape (escape_path p) = join_with ''/'' (path_components p)"
  by (simp add: escape_path_def Let_def unescape_bytes squeezed_is_joined(1))

lemmas components_join = squeezed_is_joined(3)

text \<open>
  The name under which a guest directory is shared identifies it: two guest paths get the same
  name exactly when they have the same components.
\<close>

theorem tags_identify_directories:
  "escape_path p = escape_path q \<longleftrightarrow> path_components p = path_components q"
proof (cases "trim_slashes p = [] \<or> trim_slashes q = []")
  case False
  then have p: "trim_slashes p \<noteq> []" and q: "trim_slashes q \<noteq> []" by simp_all
  show ?thesis
  proof
    assume "escape_path p = escape_path q"
    then have "join_with ''/'' (path_components p) = join_with ''/'' (path_components q)"
      by (simp only: unescape_tag [OF p, symmetric] unescape_tag [OF q, symmetric])
    then show "path_components p = path_components q"
      by (metis components_join [OF p] components_join [OF q])
  next
    assume "path_components p = path_components q"
    then have "squeeze False (trim_slashes p) = squeeze False (trim_slashes q)"
      by (simp only: squeezed_is_joined(1) [OF p] squeezed_is_joined(1) [OF q])
    with p q show "escape_path p = escape_path q" by (simp add: escape_path_def Let_def)
  qed
next
  case True
  have one: "escape_path r = ''-'' \<longleftrightarrow> trim_slashes r = []" for r
  proof
    assume dash: "escape_path r = ''-''"
    show "trim_slashes r = []"
    proof (rule ccontr)
      assume ne: "trim_slashes r \<noteq> []"
      with dash unescape_tag [of r] have "join_with ''/'' (path_components r) = ''/''" by simp
      with components_join [OF ne] have "path_components r = [[], []]" by simp
      moreover have "[] \<notin> set (path_components r)" by (simp add: path_components_def)
      ultimately show False by simp
    qed
  qed (simp add: escape_path_def)
  have two: "path_components r = [] \<longleftrightarrow> trim_slashes r = []" for r
    using components_empty [of r] squeezed_is_joined(2) [of r] by blast
  show ?thesis using True one [of p] one [of q] two [of p] two [of q] by metis
qed

section \<open>Sizes\<close>

text \<open>
  The memory given on the command line is cut to 32 bits: a valid size of 2^32 MiB or more
  starts a machine with the size modulo 2^32, down to a machine of size 0.
\<close>

theorem memory_is_cut_to_32_bits:
  assumes "cli_args_to_qemu_opts h a = Inr o'" "ra_app_conf a = None" "ra_mem a = Some m"
  shows "unat (qo_mem o') = unat m mod 2 ^ 32 \<and>
    ''size='' @ dec_string (unat m mod 2 ^ 32) @ ''M'' \<in> set (basic_args o')"
proof -
  from assms have "qo_mem o' = ucast m"
    by (auto simp: cli_args_to_qemu_opts_def analyze_required_args_def rbind_eq_Inr unwrap_or_def)
  moreover have "unat (ucast m :: u32) = unat m mod 2 ^ 32"
    by (simp add: unsigned_ucast_eq take_bit_eq_mod)
  ultimately show ?thesis by (simp add: basic_args_def num_string_def)
qed

section \<open>Instances\<close>

definition demo_host :: vm_host where
  "demo_host = \<lparr>vh_view = \<lparr>pv_exists = \<lambda>_. True, pv_is_dir = \<lambda>_. True\<rparr>,
     vh_env = (\<lambda>k. if k = ''HOME'' then Some ''/root'' else Some ''/usr/bin''),
     vh_read = (\<lambda>_. Inl ''not found''), vh_json = (\<lambda>_. Inl ''no document''),
     vh_metadata = (\<lambda>_. Some (True, 0x1ED)),
     vh_unshare = Inr (True, ''uid=0(root) gid=0(root) groups=0(root)'', []),
     vh_urandom = Inr [1, 2, 3, 4, 5, 6], vh_mkdir = (\<lambda>_. Inr ()), vh_metadata_dir = (\<lambda>_. Inr True),
     vh_write = (\<lambda>_. Inr ()), vh_virtiofsd = (\<lambda>_. Running), vh_spawn = Inr (), vh_wait = Inr True\<rparr>"

definition demo_tools :: executable_paths where
  "demo_tools = \<lparr>ep_qemu_path = ''/usr/bin/qemu-system-aarch64'', ep_virtiofsd_path = Some ''/usr/bin/virtiofsd''\<rparr>"

definition demo_opts :: qemu_launch_opts where
  "demo_opts = \<lparr>qo_virtiofs_vols = [\<lparr>vb_host_path = ''/srv'', vb_guest_path = ''/data''\<rparr>],
     qo_published_ports = [], qo_image_path = ''/boot/Image'', qo_qemu_args = None,
     qo_payload = Some ''/boot/rootfs.cpio'', qo_cert_dir = None, qo_vol_9p_paths = [],
     qo_mem = 2176, qo_smp = 2, qo_cid = 3\<rparr>"

lemma demo_launch:
  "\<exists>argv pre. launch_qemu demo_host demo_tools demo_opts = (Inr (), pre @ EvQemu argv # [])"
proof -
  obtain run_dir evs where d: "create_vm_work_dir demo_host = (Inr run_dir, evs)"
    by (simp add: create_vm_work_dir_def demo_host_def generate_12hex_random_id_def Let_def)
  have h: "vh_metadata_dir demo_host x = Inr True" "vh_write demo_host x = Inr ()"
    "vh_virtiofsd demo_host i = Running" "vh_spawn demo_host = Inr ()" "vh_wait demo_host = Inr True" for x i
    by (simp_all add: demo_host_def)
  have v: "qo_vol_9p_paths demo_opts = []" "qo_cert_dir demo_opts = None"
    "qo_virtiofs_vols demo_opts = [\<lparr>vb_host_path = ''/srv'', vb_guest_path = ''/data''\<rparr>]"
    "ep_virtiofsd_path demo_tools = Some ''/usr/bin/virtiofsd''"
    by (simp_all add: demo_opts_def demo_tools_def)
  have "\<exists>b. configure_qemu_all demo_host demo_opts demo_tools \<lparr>qb_args = [], qb_events = []\<rparr> = (Inr (), b)"
    by (simp add: configure_qemu_all_def then_step_def make_work_dir_def d configure_basic_qemu_command_def
        configure_kernel_and_payload_def configure_port_forwarding_def configure_custom_qemu_args_def
        configure_9p_volumes_def configure_cert_share_def configure_virtio_9p_single_def add_args_def
        add_event_def lift_answer_def launch_virtiofsd_def drop_handles_Inr h v)
  then show ?thesis by (auto simp: launch_qemu_def h)
qed

lemma qemu_command_line_witness:
  "\<exists>argv run_dir. argv = ep_qemu_path demo_tools # qemu_arguments demo_tools demo_opts run_dir"
proof -
  obtain argv pre where "launch_qemu demo_host demo_tools demo_opts = (Inr (), pre @ EvQemu argv # [])"
    using demo_launch by blast
  from qemu_command_line [OF this, of argv] show ?thesis by auto
qed

lemma virtiofs_daemons_are_dead_witness:
  "\<exists>pre argv run_dir. EvVirtiofsd 0 (virtiofsd_command ''/usr/bin/virtiofsd'' run_dir
      \<lparr>vb_host_path = ''/srv'', vb_guest_path = ''/data''\<rparr>) \<in> set pre \<and> alive pre [] = [] \<and>
    (''-chardev'' :: string) \<in> set argv"
proof -
  obtain argv pre where l: "launch_qemu demo_host demo_tools demo_opts = (Inr (), pre @ EvQemu argv # [])"
    using demo_launch by blast
  from virtiofs_daemons_are_dead [OF l, of "''/usr/bin/virtiofsd''" 0]
  show ?thesis by (auto simp: demo_opts_def demo_tools_def virtiofs_args_def)
qed

lemma memory_is_cut_to_32_bits_witness:
  "\<exists>o'. cli_args_to_qemu_opts demo_host (run_args_default\<lparr>ra_kernel := Some ''/boot/Image'',
       ra_payload := Some ''/boot/rootfs.cpio'', ra_mem := Some 0x100000000\<rparr>) = Inr o' \<and>
     ''size=0M'' \<in> set (basic_args o')"
proof -
  let ?a = "run_args_default\<lparr>ra_kernel := Some ''/boot/Image'',
       ra_payload := Some ''/boot/rootfs.cpio'', ra_mem := Some 0x100000000\<rparr>"
  obtain o' where o: "cli_args_to_qemu_opts demo_host ?a = Inr o'"
    by (simp add: cli_args_to_qemu_opts_def analyze_required_args_def check_param_exists_def demo_host_def
        run_args_default_def)
  have "dec_string 0 = ''0''" by (simp add: dec_string.simps digit_char_def char_of_def bit_iff_odd)
  with memory_is_cut_to_32_bits [OF o, of "0x100000000"] o show ?thesis
    by (auto simp: run_args_default_def)
qed

end
