(* ===== verification/SandboxProcs.thy ===== *)
theory SandboxProcs
  imports SandboxControl LaunchQemu
begin

text \<open>
  The processes around the policy: the container hook (\<^verbatim>\<open>hook/src/main.rs\<close>), the start of the
  controller (\<^verbatim>\<open>controller/src/main.rs\<close>, \<open>Management::new\<close>) and the start of the proxy process
  (\<^verbatim>\<open>proxy_proc/src/main.rs\<close>) with its resolver (\<^verbatim>\<open>ebpf_resolver.rs\<close>).  Environment variables, files
  and processes are answers of records; where an error text only names a mode or a serde message it is
  shortened.
\<close>

section \<open>The hook\<close>

record hook_env =
  hk_var :: "string \<Rightarrow> string option"
  hk_cgroup_file :: "string + string"
  hk_inode :: "string \<Rightarrow> string + u64"
  hk_print :: "json \<Rightarrow> string"
  hk_parse :: "string \<Rightarrow> string + json"

definition read_cgroup_id :: "hook_env \<Rightarrow> string + u64" where
  "read_cgroup_id hk =
     rbind (hk_cgroup_file hk) (\<lambda>content.
     rbind (case str_lines content of [] \<Rightarrow> Inl ''empty cgroup file'' | l # _ \<Rightarrow> Inr l) (\<lambda>line.
     rbind (case str_split (CHR '':'') line of
              [hier, subsys, path] \<Rightarrow> Inr (hier, subsys, path)
            | _ \<Rightarrow> Inl ''invalid cgroup file'') (\<lambda>(hier, subsys, path).
     hk_inode hk (if hier = ''0'' \<and> subsys = [] then ''/sys/fs/cgroup'' @ path
                  else ''/sys/fs/cgroup/'' @ subsys @ path))))"

definition register_message_json :: "container_id \<Rightarrow> string \<Rightarrow> json" where
  "register_message_json cid config_path =
     JObject [(''msg_type'', JString ''register''), (''container_id'', container_id_json cid),
              (''config_path'', JString config_path)]"

definition register_response_of_json :: "json \<Rightarrow> string option" where
  "register_response_of_json j =
     Option.bind (struct_fields [''status''] j) (\<lambda>f. required as_str (f ''status''))"

text \<open>
  \<open>link\<close>: the connection to the listener, the bytes sent and the bytes read to the end; a listener
  that closes without an answer gives the empty text.
\<close>

definition send_registration ::
  "hook_env \<Rightarrow> (string \<Rightarrow> string \<Rightarrow> 's \<Rightarrow> (string + string) \<times> 's) \<Rightarrow> string \<Rightarrow> container_id \<Rightarrow> string \<Rightarrow> 's \<Rightarrow>
     (string + string) \<times> 's" where
  "send_registration hk link sock_path cid config_path s =
     (case link sock_path (hk_print hk (register_message_json cid config_path) @ [CHR 0x0A]) s of
        (Inl e, s') \<Rightarrow> (Inl e, s')
      | (Inr buf, s') \<Rightarrow>
          (rbind (hk_parse hk buf) (\<lambda>j.
             case register_response_of_json j of None \<Rightarrow> Inl ''response'' | Some st \<Rightarrow> Inr st), s'))"

definition hook_run ::
  "hook_env \<Rightarrow> (string \<Rightarrow> string \<Rightarrow> 's \<Rightarrow> (string + string) \<times> 's) \<Rightarrow> 's \<Rightarrow> (string + unit) \<times> 's" where
  "hook_run hk link s =
     (case hk_var hk ''AGENTSANDBOX_SOCK_PATH'' of
        None \<Rightarrow> (Inl ''AGENTSANDBOX_SOCK_PATH not set'', s)
      | Some sock_path \<Rightarrow>
          (case hk_var hk ''AGENTSANDBOX_CONFIG_PATH'' of
             None \<Rightarrow> (Inl ''AGENTSANDBOX_CONFIG_PATH not set'', s)
           | Some config_path \<Rightarrow>
               (case read_cgroup_id hk of
                  Inl e \<Rightarrow> (Inl e, s)
                | Inr cgroup \<Rightarrow>
                    (case send_registration hk link sock_path \<lparr>cgroup_id = cgroup\<rparr> config_path s of
                       (Inl e, s') \<Rightarrow> (Inl e, s')
                     | (Inr status, s') \<Rightarrow>
                         (if status \<noteq> ''ok''
                          then Inl (''HiController rejected registration: status='' @ status)
                          else Inr (), s')))))"

text \<open>The listener of the controller as the other end.\<close>

definition controller_link ::
  "'p ctrl_env \<Rightarrow> (string \<Rightarrow> json option) \<Rightarrow> string \<Rightarrow> string \<Rightarrow> 'p management \<Rightarrow> (string + string) \<times> 'p management" where
  "controller_link env from_str sock_path buf mg =
     (case handle_lifecycle env from_str buf mg of
        (None, mg') \<Rightarrow> (Inr [], mg') | (Some answer, mg') \<Rightarrow> (Inr answer, mg'))"

text \<open>\<open>main\<close>: the exit status.\<close>

definition hook_main ::
  "hook_env \<Rightarrow> (string \<Rightarrow> string \<Rightarrow> 's \<Rightarrow> (string + string) \<times> 's) \<Rightarrow> 's \<Rightarrow> nat \<times> 's" where
  "hook_main hk link s = (case hook_run hk link s of (Inl _, s') \<Rightarrow> (1, s') | (Inr _, s') \<Rightarrow> (0, s'))"

section \<open>Starting the controller\<close>

definition require_env :: "(string \<Rightarrow> string option) \<Rightarrow> string \<Rightarrow> string + string" where
  "require_env var key =
     (case var key of
        None \<Rightarrow> Inl (''environment variable '' @ key @ '' is required'')
      | Some v \<Rightarrow> if trim v = [] then Inl (''environment variable '' @ key @ '' must not be empty'')
                  else Inr (trim v))"

definition VALID_LOG_LEVELS :: "string list" where
  "VALID_LOG_LEVELS = [''TRACE'', ''DEBUG'', ''INFO'', ''WARN'', ''ERROR'']"

definition SECURE_DIR_MODE :: u32 where "SECURE_DIR_MODE = 0x1E8"

text \<open>\<open>upper\<close> is \<open>str::to_uppercase\<close>.\<close>

definition validate_log_level :: "(string \<Rightarrow> string) \<Rightarrow> string \<Rightarrow> string \<Rightarrow> string + unit" where
  "validate_log_level upper key v =
     (if upper v \<notin> set VALID_LOG_LEVELS
      then Inl (''environment variable '' @ key @ '' must be one of ['' @
                join_with '', '' (map (\<lambda>l. [CHR 0x22] @ l @ [CHR 0x22]) VALID_LOG_LEVELS) @ ''], got: '' @ v)
      else Inr ())"

text \<open>
  What the file system answers; it may depend on the directories created so far.  \<open>fv_socket\<close>: the
  type of an existing file, or an error of the call.
\<close>

record fs_view =
  fv_exists :: "string list \<Rightarrow> string \<Rightarrow> bool"
  fv_is_dir :: "string list \<Rightarrow> string \<Rightarrow> bool"
  fv_realpath :: "string list \<Rightarrow> string \<Rightarrow> string + string"
  fv_create :: "string \<Rightarrow> string + unit"
  fv_chmod :: "string \<Rightarrow> u32 \<Rightarrow> string + unit"
  fv_socket :: "string \<Rightarrow> string + bool"

definition realpath :: "fs_view \<Rightarrow> string list \<Rightarrow> string \<Rightarrow> string + string" where
  "realpath fv made path =
     (case fv_realpath fv made path of
        Inl e \<Rightarrow> Inl (''realpath failed for '' @ path @ '': '' @ e) | Inr p \<Rightarrow> Inr p)"

definition create_secure_dir :: "fs_view \<Rightarrow> string \<Rightarrow> string \<Rightarrow> string + unit" where
  "create_secure_dir fv key path =
     (case fv_create fv path of
        Inl e \<Rightarrow> Inl (key @ '': cannot create directory '' @ path @ '': '' @ e)
      | Inr _ \<Rightarrow>
          (case fv_chmod fv path SECURE_DIR_MODE of
             Inl e \<Rightarrow> Inl (key @ '': cannot set permissions on '' @ path @ '': '' @ e)
           | Inr _ \<Rightarrow> Inr ()))"

definition resolve_dir ::
  "fs_view \<Rightarrow> string \<Rightarrow> string \<Rightarrow> bool \<Rightarrow> bool \<Rightarrow> string list \<Rightarrow> (string + string) \<times> string list" where
  "resolve_dir fv key path must_exist create_if_missing made =
     (let created = (if fv_exists fv made path then Inr made
                     else if create_if_missing then
                       rbind (create_secure_dir fv key path) (\<lambda>_. Inr (made @ [path]))
                     else if must_exist then Inl (key @ '': directory does not exist: '' @ path)
                     else Inr made)
      in case created of
           Inl e \<Rightarrow> (Inl e, made)
         | Inr made' \<Rightarrow>
             (if fv_exists fv made' path \<and> \<not> fv_is_dir fv made' path
              then Inl (key @ '': path is not a directory: '' @ path)
              else rbind (realpath fv made' path) (\<lambda>resolved.
                if \<not> fv_is_dir fv made' resolved
                then Inl (key @ '': realpath is not a directory: '' @ resolved)
                else Inr resolved), made'))"

text \<open>
  \<open>Path::parent\<close> and \<open>Path::file_name\<close> on the components of a path: the root, a leading dot, and
  the names between slashes; other dots and empty parts are dropped.
\<close>

definition path_parts :: "string \<Rightarrow> string list" where
  "path_parts p =
     (let names = filter (\<lambda>s. s \<noteq> [] \<and> s \<noteq> ''.'') (str_split (CHR ''/'') p)
      in if is_absolute p then ''/'' # names
         else if hd (str_split (CHR ''/'') p) = ''.'' then ''.'' # names else names)"

fun parts_path :: "string list \<Rightarrow> string" where
  "parts_path [] = []"
| "parts_path (d # ds) = (if d = ''/'' then ''/'' @ join_with ''/'' ds else join_with ''/'' (d # ds))"

definition path_parent :: "string \<Rightarrow> string option" where
  "path_parent p = (case path_parts p of [] \<Rightarrow> None | [d] \<Rightarrow> if d = ''/'' then None else Some [] | ds \<Rightarrow> Some (parts_path (butlast ds)))"

definition path_file_name :: "string \<Rightarrow> string option" where
  "path_file_name p =
     (case path_parts p of [] \<Rightarrow> None
      | ds \<Rightarrow> if last ds = ''/'' \<or> last ds = ''.'' \<or> last ds = ''..'' then None else Some (last ds))"

definition resolve_file_path :: "fs_view \<Rightarrow> string list \<Rightarrow> string \<Rightarrow> string \<Rightarrow> string + string" where
  "resolve_file_path fv made key path =
     (let parent = (case path_parent path of None \<Rightarrow> ''/'' | Some d \<Rightarrow> d) in
      if \<not> fv_is_dir fv made parent
      then Inl (key @ '': parent directory does not exist or not a dir: '' @ parent)
      else rbind (realpath fv made parent) (\<lambda>resolved_parent.
           rbind (if fv_exists fv made path then
                    rbind (fv_socket fv path) (\<lambda>sock.
                      if \<not> sock then Inl (key @ '': path exists but is not a regular file: '' @ path) else Inr ())
                  else Inr ()) (\<lambda>_.
           case path_file_name path of
             Some name \<Rightarrow> Inr (path_join resolved_parent name)
           | None \<Rightarrow> Inl (key @ '': cannot extract file name from path: '' @ path))))"

record ctrl_config =
  cc_config_dir :: string
  cc_sock_path :: string
  cc_proxy_sock :: string
  cc_log_dir :: string
  cc_log_level :: string

definition ctrl_from_env ::
  "(string \<Rightarrow> string) \<Rightarrow> (string \<Rightarrow> string option) \<Rightarrow> fs_view \<Rightarrow> (string + ctrl_config) \<times> string list" where
  "ctrl_from_env upper var fv =
     (case rbind (require_env var ''AGENTSANDBOX_CONFIG_DIR'') (\<lambda>d.
             fst (resolve_dir fv ''AGENTSANDBOX_CONFIG_DIR'' d True False [])) of
        Inl e \<Rightarrow> (Inl e, [])
      | Inr config_dir \<Rightarrow>
          (case rbind (require_env var ''AGENTSANDBOX_SOCK_PATH'') (resolve_file_path fv [] ''AGENTSANDBOX_SOCK_PATH'') of
             Inl e \<Rightarrow> (Inl e, [])
           | Inr sock_path \<Rightarrow>
               (case rbind (require_env var ''AGENTSANDBOX_PROXY_SOCK'') (resolve_file_path fv [] ''AGENTSANDBOX_PROXY_SOCK'') of
                  Inl e \<Rightarrow> (Inl e, [])
                | Inr proxy_sock \<Rightarrow>
                    (case require_env var ''AGENTSANDBOX_LOG_DIR'' of
                       Inl e \<Rightarrow> (Inl e, [])
                     | Inr l \<Rightarrow>
                         (case resolve_dir fv ''AGENTSANDBOX_LOG_DIR'' l True True [] of
                            (Inl e, made) \<Rightarrow> (Inl e, made)
                          | (Inr ldir, made) \<Rightarrow>
                              (rbind (require_env var ''AGENTSANDBOX_LOG_LEVEL'') (\<lambda>log_level.
                               rbind (validate_log_level upper ''AGENTSANDBOX_LOG_LEVEL'' log_level) (\<lambda>_.
                               Inr \<lparr>cc_config_dir = config_dir, cc_sock_path = sock_path,
                                    cc_proxy_sock = proxy_sock, cc_log_dir = ldir,
                                    cc_log_level = log_level\<rparr>)), made))))))"

datatype mgmt_error = MgmtEbpfError string | MgmtConfigError

text \<open>\<open>Management::new\<close>; a panic is \<open>None\<close>.\<close>

definition outcome_error :: "unit outcome \<Rightarrow> (mgmt_error + unit) option" where
  "outcome_error r =
     (case r of Done _ \<Rightarrow> Some (Inr ()) | Fail e \<Rightarrow> Some (Inl (MgmtEbpfError (ebpf_error_string e))) | Panic \<Rightarrow> None)"

definition management_new ::
  "boot_kernel \<Rightarrow> (string \<rightharpoonup> nat) \<Rightarrow> string \<Rightarrow> 'p \<Rightarrow> (mgmt_error + 'p management) option \<times> (string \<rightharpoonup> nat)" where
  "management_new bk pinned sock_path peer =
     (case load_programs bk None (ebpf_loader_new, pinned) of
        (r, ld, pinned') \<Rightarrow>
          (case outcome_error r of
             None \<Rightarrow> (None, pinned')
           | Some (Inl e) \<Rightarrow> (Some (Inl e), pinned')
           | Some (Inr _) \<Rightarrow>
               (case set_proxy LOOPBACK_IP_BE PROXY_PORT MODEL_ROUTE_LISTEN_PORT LOOPBACK_IP_BE ld of
                  (r2, ld2) \<Rightarrow>
                    (case outcome_error r2 of
                       None \<Rightarrow> (None, pinned')
                     | Some (Inl e) \<Rightarrow> (Some (Inl e), pinned')
                     | Some (Inr _) \<Rightarrow>
                         (case monitor_start monitor_new of
                            (Inl _, _) \<Rightarrow> (Some (Inl MgmtConfigError), pinned')
                          | (Inr _, w) \<Rightarrow>
                              (Some (Inr \<lparr>mg_watch = w, mg_loader = ld2, mg_registered = [], mg_configs = [],
                                          mg_sock_path = sock_path, mg_registered_poisoned = False,
                                          mg_configs_poisoned = False, mg_peer = peer\<rparr>), pinned'))))))"

definition management_shutdown :: "'p management \<Rightarrow> 'p management" where
  "management_shutdown mg = mg\<lparr>mg_loader := snd (policy_unload (mg_loader mg))\<rparr>"


section \<open>Starting the proxy process\<close>

record proxy_proc_config =
  pp_proxy_sock :: string
  pp_ca_cert_path :: string
  pp_ca_key_path :: string
  pp_listen_ip :: ip_addr
  pp_listen_port :: u16
  pp_inference_route :: "inference_route option"
  pp_api_key :: "api_key_request option"
  pp_agent_router_config_dir :: "string option"

definition parse_agent_router_config_dir :: "(string \<Rightarrow> string option) \<Rightarrow> string + string option" where
  "parse_agent_router_config_dir var =
     (case var ''AGENT_ROUTER_CONFIG_DIR'' of
        None \<Rightarrow> Inr None
      | Some raw \<Rightarrow>
          if trim raw = [] then Inr None
          else if \<not> starts_with (trim raw) ''/'' then Inl ''AGENT_ROUTER_CONFIG_DIR must be an absolute path''
          else Inr (Some (trim raw)))"

fun parse_pairs :: "string list \<Rightarrow> string + api_key_item list" where
  "parse_pairs [] = Inr []"
| "parse_pairs (p # ps) =
     (if trim p = [] then parse_pairs ps
      else (case split_once (CHR '':'') (trim p) of
              None \<Rightarrow> Inl (''AGENTSANDBOX_API_KEY: pair missing '' @ [CHR 0x27] @ '':'' @ [CHR 0x27] @
                           '' separator: use model_id:api_key'')
            | Some (m, k) \<Rightarrow>
                if trim m = [] \<or> trim k = []
                then Inl ''AGENTSANDBOX_API_KEY: model_id and api_key must be non-empty''
                else rbind (parse_pairs ps) (\<lambda>items. Inr (\<lparr>key_model_id = trim m, key_value = trim k\<rparr> # items))))"

definition parse_api_key :: "(string \<Rightarrow> string option) \<Rightarrow> string + api_key_request option" where
  "parse_api_key var =
     (case var ''AGENTSANDBOX_API_KEY'' of
        None \<Rightarrow> Inr None
      | Some raw \<Rightarrow>
          if trim raw = [] then Inr None
          else rbind (parse_pairs (str_split (CHR '','') (trim raw))) (\<lambda>items.
               if items = [] then Inr None
               else Inr (Some \<lparr>key_action = KeySet, key_items = items\<rparr>)))"

text \<open>\<open>from_str\<close>: serde for \<open>InferenceRoute\<close>.\<close>

definition parse_inference_route ::
  "(string \<Rightarrow> string option) \<Rightarrow> (string \<Rightarrow> string + inference_route) \<Rightarrow> string + inference_route option" where
  "parse_inference_route var from_str =
     (case var ''AGENTSANDBOX_INFERENCE_ROUTE'' of
        None \<Rightarrow> Inr None
      | Some raw \<Rightarrow>
          if trim raw = [] then Inr None
          else (case from_str (trim raw) of
                  Inl e \<Rightarrow> Inl (''AGENTSANDBOX_INFERENCE_ROUTE parse error: '' @ e)
                | Inr route \<Rightarrow>
                    if route_host route = [] \<or> route_url route = []
                    then Inl ''AGENTSANDBOX_INFERENCE_ROUTE: host and url must be non-empty''
                    else Inr (Some route)))"

definition absolute_env :: "(string \<Rightarrow> string option) \<Rightarrow> string \<Rightarrow> string + string" where
  "absolute_env var key =
     rbind (require_env var key) (\<lambda>p.
       if \<not> starts_with p ''/'' then Inl (key @ '' must be an absolute path: '' @ p) else Inr p)"

definition proxy_from_env ::
  "(string \<Rightarrow> string option) \<Rightarrow> (string \<Rightarrow> string + inference_route) \<Rightarrow> string + proxy_proc_config" where
  "proxy_from_env var from_str =
     rbind (require_env var ''AGENTSANDBOX_PROXY_LISTEN_ADDR'') (\<lambda>listen_addr.
     rbind (case var ''AGENTSANDBOX_PROXY_LISTEN_PORT'' of
              None \<Rightarrow> Inl ''AGENTSANDBOX_PROXY_LISTEN_PORT is required''
            | Some v \<Rightarrow> (case parse_u16 v of
                          None \<Rightarrow> Inl ''AGENTSANDBOX_PROXY_LISTEN_PORT must be a valid u16'' | Some n \<Rightarrow> Inr n)) (\<lambda>port.
     rbind (case parse_ip listen_addr of
              None \<Rightarrow> Inl (''invalid listen address: '' @ listen_addr) | Some ip \<Rightarrow> Inr ip) (\<lambda>ip.
     rbind (require_env var ''AGENTSANDBOX_PROXY_SOCK'') (\<lambda>sock.
     rbind (if starts_with sock ''tcp://'' \<or> starts_with sock ''http''
            then Inl ''AGENTSANDBOX_PROXY_SOCK must be a Unix socket path, not a network URL'' else Inr ()) (\<lambda>_.
     rbind (absolute_env var ''AGENTSANDBOX_CA_CERT_PATH'') (\<lambda>cert.
     rbind (absolute_env var ''AGENTSANDBOX_CA_KEY_PATH'') (\<lambda>key.
     rbind (parse_inference_route var from_str) (\<lambda>route.
     rbind (parse_api_key var) (\<lambda>api.
     rbind (parse_agent_router_config_dir var) (\<lambda>dir.
     Inr \<lparr>pp_proxy_sock = sock, pp_ca_cert_path = cert, pp_ca_key_path = key, pp_listen_ip = ip,
          pp_listen_port = of_nat port, pp_inference_route = route, pp_api_key = api,
          pp_agent_router_config_dir = dir\<rparr>))))))))))"

text \<open>What \<open>metadata\<close> tells of a file: regular, its length, its mode.\<close>

record file_meta =
  fm_is_file :: bool
  fm_len :: nat
  fm_mode :: u32

record proc_host =
  ph_metadata :: "string \<Rightarrow> string + file_meta"
  ph_read :: "string \<Rightarrow> string + bytes"
  ph_exists :: "string \<Rightarrow> bool"
  ph_bind_uds :: "string \<Rightarrow> string + unit"

definition read_ca_file :: "proc_host \<Rightarrow> string \<Rightarrow> (file_meta \<Rightarrow> bool) \<Rightarrow> string \<Rightarrow> string + bytes" where
  "read_ca_file h what mode_ok path =
     (case ph_metadata h path of
        Inl e \<Rightarrow> Inl (what @ '' file not accessible '' @ path @ '': '' @ e)
      | Inr meta \<Rightarrow>
          if \<not> fm_is_file meta then Inl (what @ '' must be a regular file: '' @ path)
          else if fm_len meta = 0 then Inl (what @ '' file is empty: '' @ path)
          else if \<not> mode_ok meta then Inl (what @ '' file is group/world readable'')
          else (case ph_read h path of
                  Inl e \<Rightarrow> Inl (''failed to read '' @ what @ '' '' @ path @ '': '' @ e) | Inr b \<Rightarrow> Inr b))"

definition read_cert_file :: "proc_host \<Rightarrow> string \<Rightarrow> string + bytes" where
  "read_cert_file h path = read_ca_file h ''CA cert'' (\<lambda>_. True) path"

text \<open>\<open>S_IRGRP | S_IROTH\<close> is octal 44.\<close>

definition read_key_file :: "proc_host \<Rightarrow> string \<Rightarrow> string + bytes" where
  "read_key_file h path = read_ca_file h ''CA key'' (\<lambda>m. fm_mode m AND 0x24 = 0) path"

definition load_ca :: "proc_host \<Rightarrow> proxy_proc_config \<Rightarrow> string + ca_cert" where
  "load_ca h cfg =
     rbind (read_cert_file h (pp_ca_cert_path cfg)) (\<lambda>cert.
     rbind (read_key_file h (pp_ca_key_path cfg)) (\<lambda>key.
     Inr \<lparr>cert_pem = cert, key_pem = key\<rparr>))"

text \<open>The resolver: octets of addresses, the key, the lookup.\<close>

definition octets4 :: "u32 \<Rightarrow> bytes" where
  "octets4 a = rev (to_le_bytes a)"

definition octets16 :: "u128 \<Rightarrow> bytes" where
  "octets16 a = map (\<lambda>i. ucast (drop_bit (8 * (15 - i)) a)) [0..<16]"

definition build_flow_key :: "socket_addr \<Rightarrow> socket_addr \<Rightarrow> flow_key option" where
  "build_flow_key source target =
     (case (source, target) of
        ((V4 s, sp), (V4 d, dp)) \<Rightarrow> Some (from_ipv4 (octets4 s) sp (octets4 d) dp NET_PROTOCOL_TCP)
      | ((V6 s, sp), (V6 d, dp)) \<Rightarrow> Some (from_ipv6 (octets16 s) sp (octets16 d) dp NET_PROTOCOL_TCP)
      | _ \<Rightarrow> None)"

definition ebpf_resolve ::
  "(nat \<Rightarrow> flow_key \<rightharpoonup> u64) \<Rightarrow> (string \<rightharpoonup> nat) \<Rightarrow> socket_addr \<Rightarrow> socket_addr \<Rightarrow> loader \<Rightarrow>
     resolver_output option \<times> loader" where
  "ebpf_resolve insts pinned source target ld =
     (case build_flow_key source target of
        None \<Rightarrow> (None, ld)
      | Some key \<Rightarrow>
          (case lookup_cgroup_by_flow insts pinned key ld of
             (None, ld') \<Rightarrow> (None, ld')
           | (Some c, ld') \<Rightarrow>
               (Some \<lparr>ro_container_id = container_as_key \<lparr>cgroup_id = c\<rparr>, ro_binary_path = []\<rparr>, ld')))"

text \<open>The start-up, as the list of what has happened when it ends.\<close>

datatype proc_event =
    EvCaLoaded ca_cert
  | EvLookupOpened bool
  | EvResolver
  | EvLogSink
  | EvProxyStarted
  | EvApiKey api_key_request bool
  | EvListening string

definition start_proxy :: "init_env \<Rightarrow> proxy_proc_config \<Rightarrow> init_state \<Rightarrow> (string + unit) \<times> init_state" where
  "start_proxy env cfg st =
     (if (case pp_listen_ip cfg of V4 a \<Rightarrow> a = 0 | V6 a \<Rightarrow> a = 0)
      then (Inl (case pp_listen_ip cfg of
                   V4 _ \<Rightarrow> ''listen address must not be 0.0.0.0 (bind to loopback)''
                 | V6 _ \<Rightarrow> ''listen address must not be :: (bind to loopback)''), st)
      else if (case pp_listen_ip cfg of V4 a \<Rightarrow> a = 0xFFFFFFFF | V6 _ \<Rightarrow> False)
      then (Inl ''listen address must not be broadcast'', st)
      else (case proxy_init env
                   \<lparr>forwarding = \<lparr>ep_ip = pp_listen_ip cfg, ep_port = pp_listen_port cfg\<rparr>,
                    inference_routes = (case pp_inference_route cfg of None \<Rightarrow> [] | Some r \<Rightarrow> [r]),
                    router_config_dir = pp_agent_router_config_dir cfg\<rparr> st of
              (Inl e, st') \<Rightarrow> (Inl ''proxy_init failed'', st')
            | (Inr _, st') \<Rightarrow> (Inr (), st')))"

definition start_config_receiver :: "proc_host \<Rightarrow> proxy_proc_config \<Rightarrow> string + unit" where
  "start_config_receiver h cfg =
     (if \<not> starts_with (pp_proxy_sock cfg) ''/''
      then Inl (''AGENTSANDBOX_PROXY_SOCK must be an absolute path: '' @ pp_proxy_sock cfg)
      else (case path_parent (pp_proxy_sock cfg) of
              None \<Rightarrow> Inl ''AGENTSANDBOX_PROXY_SOCK has no parent directory''
            | Some parent \<Rightarrow>
                if \<not> ph_exists h parent
                then Inl (''AGENTSANDBOX_PROXY_SOCK parent directory does not exist: '' @ parent)
                else (case ph_bind_uds h (pp_proxy_sock cfg) of
                        Inl e \<Rightarrow> Inl (''config receiver listen on '' @ pp_proxy_sock cfg @ '' failed: '' @ e)
                      | Inr _ \<Rightarrow> Inr ())))"

text \<open>
  \<open>run\<close>: \<open>pinned\<close> tells whether the lookup map can be opened now, \<open>deliver\<close> what \<open>set_api_key\<close>
  answers.
\<close>

definition proxy_run ::
  "(string \<Rightarrow> string option) \<Rightarrow> (string \<Rightarrow> string + inference_route) \<Rightarrow> proc_host \<Rightarrow> (string \<rightharpoonup> nat) \<Rightarrow>
     init_env \<Rightarrow> (api_key_request \<Rightarrow> api_key_error + unit) \<Rightarrow> init_state \<Rightarrow>
     (string + unit) \<times> init_state \<times> proc_event list" where
  "proxy_run var from_str h pinned ienv deliver st =
     (case proxy_from_env var from_str of
        Inl e \<Rightarrow> (Inl e, st, [])
      | Inr cfg \<Rightarrow>
          (case load_ca h cfg of
             Inl e \<Rightarrow> (Inl e, st, [])
           | Inr ca \<Rightarrow>
               let opened = (case open_pinned_map pinned CGROUP_LOOKUP_MAP_PIN_PATH of Inl _ \<Rightarrow> False | Inr _ \<Rightarrow> True);
                   before = [EvCaLoaded ca, EvLookupOpened opened, EvResolver, EvLogSink]
               in (case start_proxy ienv cfg st of
                     (Inl e, st') \<Rightarrow> (Inl e, st', before)
                   | (Inr _, st') \<Rightarrow>
                       let keys = (case pp_api_key cfg of None \<Rightarrow> []
                                   | Some req \<Rightarrow> [EvApiKey req (case deliver req of Inl _ \<Rightarrow> False | Inr _ \<Rightarrow> True)])
                       in (case start_config_receiver h cfg of
                             Inl e \<Rightarrow> (Inl e, st', before @ [EvProxyStarted] @ keys)
                           | Inr _ \<Rightarrow> (Inr (), st', before @ [EvProxyStarted] @ keys @ [EvListening (pp_proxy_sock cfg)])))))"

end
