(* ===== verification/ControlProps.thy ===== *)
theory ControlProps
  imports SandboxProcs
begin

text \<open>
  What the controller guarantees and what it does not: a refused configuration leaves the kernel as
  it was, an applied one confines the container, a registration is acknowledged whatever became of
  it, policies reach the proxy without their rules, and containers that share a file interfere.
\<close>

section \<open>The steps of one application\<close>

lemma policy_result_Done: "policy_result r = Some (Inr x) \<longleftrightarrow> r = Done x"
  by (cases r) simp_all

lemma update_with_rollback_Done:
  "update_with_rollback acc cid p port ld = (Some (Inr snap), ld') \<longleftrightarrow>
     update_from_security_policy acc cid p port ld = (Done (), ld') \<and> snap = snapshot_policy cid ld"
  by (cases "update_from_security_policy acc cid p port ld"; cases "fst (update_from_security_policy acc cid p port ld)")
     (auto simp: update_with_rollback_def Let_def)

definition kernel_updated :: "'p ctrl_env \<Rightarrow> container_id \<Rightarrow> security_policy option \<Rightarrow> u16 \<Rightarrow> loader \<Rightarrow> loader \<Rightarrow> bool" where
  "kernel_updated env cid sp port ld ld1 =
     (case sp of
        None \<Rightarrow> ld1 = ld
      | Some p \<Rightarrow> update_from_security_policy (ce_accept env) (cgroup_id cid) p port ld = (Done (), ld1))"

lemma register_kernel_None:
  "register_kernel_policy env cid sp port mg = (None, mg1) \<longleftrightarrow>
     (\<exists>ld1. kernel_updated env cid sp port (mg_loader mg) ld1 \<and> mg1 = mg\<lparr>mg_loader := ld1\<rparr>)"
proof (cases sp)
  case (Some p)
  obtain r ld1 where "update_from_security_policy (ce_accept env) (cgroup_id cid) p port (mg_loader mg) = (r, ld1)"
    by fastforce
  then show ?thesis
    by (cases r) (auto simp: register_kernel_policy_def kernel_updated_def Some update_with_rollback_def Let_def)
qed (auto simp: register_kernel_policy_def kernel_updated_def)

lemma send_filter_frame:
  "send_filter_config_to_proxy env cid cfg mg = (ok, mg') \<Longrightarrow> \<exists>p. mg' = mg\<lparr>mg_peer := p\<rparr>"
  by (auto simp: send_filter_config_to_proxy_def split: prod.splits sum.splits)

lemma put_same:
  assumes "\<And>m. ko_maps b name = Some m \<Longrightarrow> m k = v"
  shows "put_obj name k v b = b"
proof (cases "ko_maps b name")
  case (Some m)
  have "(ko_maps b)(name \<mapsto> m(k := v)) = ko_maps b"
    using Some assms [OF Some] by (simp add: fun_upd_idem)
  with Some show ?thesis by (simp add: put_obj_def)
qed (simp add: put_obj_def)

lemma restored_same:
  assumes "agrees ld" "b \<in> set (ld_bpf ld)"
  shows "restored_obj cid (snapshot_policy cid ld) b = b"
proof -
  have m: "ko_maps b name = Some m \<Longrightarrow> believed ld name = Some t \<Longrightarrow> m cid = t cid" for name m t
    using assms by (auto simp: agrees_def)
  let ?s = "snapshot_policy cid ld"
  have "put_obj ''policy_map'' cid (map_option MvPolicy (ps_policy_value ?s)) b = b"
    "put_obj ''cap_path_rules_map'' cid (map_option MvCap (ps_cap_path_rules ?s)) b = b"
    "put_obj ''fs_path_rules_map'' cid (map_option MvFs (ps_fs_path_rules ?s)) b = b"
    "put_obj ''network_rules_map'' cid (map_option MvNet (ps_network_rules ?s)) b = b"
    by (rule put_same, drule m, auto simp: believed_def snapshot_policy_def)+
  then show ?thesis by (simp add: restored_obj_def)
qed

lemma rollback_kernel:
  assumes "agrees ld" "ce_accept env = accept_all" "kernel_updated env cid sp port ld ld1"
  shows "ld_bpf (snd (restore_policy accept_all (cgroup_id cid) (snapshot_policy (cgroup_id cid) ld) ld1)) = ld_bpf ld"
proof (cases "ld_loaded ld1")
  case True
  let ?c = "cgroup_id cid" and ?s = "snapshot_policy (cgroup_id cid) ld"
  from restore_accepted [OF True, of ?c ?s] obtain ld2 where
    r: "restore_snapshot accept_all ?c ?s ld1 = (Done (), ld2)" by blast
  have "ld_bpf ld2 = ld_bpf ld"
  proof (cases sp)
    case None
    with assms(3) have "ld1 = ld" by (simp add: kernel_updated_def)
    with restore_snapshot_done [OF r] show ?thesis
      by (simp add: restored_same [OF assms(1)] cong: map_cong)
  next
    case (Some p)
    with assms(2,3) have "update_from_security_policy accept_all ?c p port ld = (Done (), ld1)"
      by (simp add: kernel_updated_def)
    from restore_after_update [OF assms(1) this r] show ?thesis by simp
  qed
  with r show ?thesis by (simp add: restore_policy_def)
next
  case False
  have "ld1 = ld"
  proof (cases sp)
    case (Some p)
    with assms(3) have "update_from_security_policy (ce_accept env) (cgroup_id cid) p port ld = (Done (), ld1)"
      by (simp add: kernel_updated_def)
    then have "ld_loaded ld1" by (rule update_done) (simp add: update_keeps_loaded)
    with False show ?thesis by simp
  qed (use assms(3) in \<open>simp add: kernel_updated_def\<close>)
  with False show ?thesis by (simp add: restore_policy_def restore_snapshot_def)
qed

section \<open>Refused configurations\<close>

lemma apply_container_config_cases:
  assumes "apply_container_config env path cid mg = (r, mg')"
  obtains (unread) "r \<in> {ReadFailed, NoPolicy}" "mg' = mg"
  | (kernel) sp port where "register_kernel_policy env cid sp port mg = (Some r, mg')"
  | (rolled) sp port ld1 p where "r \<in> {ProxyRefused, TrackingFailed}"
      "kernel_updated env cid sp port (mg_loader mg) ld1"
      "mg' = rollback_ebpf env cid (snapshot_policy (cgroup_id cid) (mg_loader mg))
               (mg\<lparr>mg_loader := ld1, mg_peer := p\<rparr>)"
  | (applied) content ld1 p where "r = Applied" "ce_read env path = Some content"
      "kernel_updated env cid
         (case parse_security_policy (ce_toml env) content of Inl _ \<Rightarrow> None | Inr p \<Rightarrow> Some p)
         (case parse_container_port (ce_toml env) content of Inl _ \<Rightarrow> 0 | Inr p \<Rightarrow> p) (mg_loader mg) ld1"
      "case parse_proxy_policy (ce_toml env) content of
         Inl _ \<Rightarrow> p = mg_peer mg
       | Inr cfg \<Rightarrow> send_filter_config_to_proxy env cid cfg (mg\<lparr>mg_loader := ld1\<rparr>) =
                      (True, mg\<lparr>mg_loader := ld1, mg_peer := p\<rparr>)"
      "mg' = track_container env path cid (mg\<lparr>mg_loader := ld1, mg_peer := p\<rparr>)"
proof (cases "ce_read env path")
  case None
  with assms show ?thesis by (intro unread) (simp_all add: apply_container_config_def)
next
  case (Some content)
  let ?sp = "case parse_security_policy (ce_toml env) content of Inl _ \<Rightarrow> None | Inr p \<Rightarrow> Some p"
  let ?fc = "case parse_proxy_policy (ce_toml env) content of Inl _ \<Rightarrow> None | Inr c \<Rightarrow> Some c"
  let ?port = "case parse_container_port (ce_toml env) content of Inl _ \<Rightarrow> 0 | Inr p \<Rightarrow> p"
  obtain r0 mg1 where reg: "register_kernel_policy env cid ?sp ?port mg = (r0, mg1)" by fastforce
  obtain ok mg2 where send: "(case ?fc of None \<Rightarrow> (True, mg1)
      | Some cfg \<Rightarrow> send_filter_config_to_proxy env cid cfg mg1) = (ok, mg2)" by fastforce
  show ?thesis
  proof (cases "?sp = None \<and> ?fc = None")
    case True
    with assms Some show ?thesis by (intro unread) (simp_all add: apply_container_config_def)
  next
    case some: False
    show ?thesis
    proof (cases r0)
      case (Some r')
      with assms \<open>ce_read env path = Some content\<close> some reg have "r' = r" "mg1 = mg'"
        by (simp_all add: apply_container_config_def Let_def)
      with reg Some show ?thesis by (intro kernel [of ?sp ?port]) simp
    next
      case None
      with reg obtain ld1 where ld1: "kernel_updated env cid ?sp ?port (mg_loader mg) ld1"
        "mg1 = mg\<lparr>mg_loader := ld1\<rparr>" by (auto simp: register_kernel_None)
      from send have "\<exists>p. mg2 = mg1\<lparr>mg_peer := p\<rparr>"
        by (cases ?fc) (auto dest: send_filter_frame intro: exI [of _ "mg_peer mg1"])
      then obtain p where mg2: "mg2 = mg\<lparr>mg_loader := ld1, mg_peer := p\<rparr>" using ld1(2) by auto
      have res: "(r, mg') = (if ok then if mg_registered_poisoned mg2
           then (TrackingFailed, rollback_ebpf env cid (snapshot_policy (cgroup_id cid) (mg_loader mg)) mg2)
           else (Applied, track_container env path cid mg2)
         else (ProxyRefused, rollback_ebpf env cid (snapshot_policy (cgroup_id cid) (mg_loader mg)) mg2))"
        using assms Some some reg None send
        by (cases ok) (simp_all add: apply_container_config_def Let_def get_policy_value_def)
      show ?thesis
      proof (cases "ok \<and> \<not> mg_registered_poisoned mg2")
        case True
        have "case parse_proxy_policy (ce_toml env) content of
            Inl _ \<Rightarrow> p = mg_peer mg
          | Inr cfg \<Rightarrow> send_filter_config_to_proxy env cid cfg (mg\<lparr>mg_loader := ld1\<rparr>) =
                         (True, mg\<lparr>mg_loader := ld1, mg_peer := p\<rparr>)"
          using send True ld1(2) mg2
          by (cases "parse_proxy_policy (ce_toml env) content") (auto dest: arg_cong [where f = mg_peer])
        with True res ld1 mg2 Some show ?thesis by (intro applied [of content ld1 p]) simp_all
      next
        case False
        with res ld1 mg2 show ?thesis by (intro rolled [of ?sp ?port ld1 p]) (auto split: if_splits)
      qed
    qed
  qed
qed


text \<open>
  C26. A configuration that is refused after it was read leaves everything as it was: when the proxy
  rejects it or the container cannot be tracked, the kernel maps of every loaded object are exactly
  those before, and neither the registrations nor the watched files change; an unreadable file or
  one without a valid section changes nothing at all.  The kernel is one that takes every map write,
  and the loader's tables agree with its maps: so they do from its start on, but only until a first
  rollback, which does not restore the tables, so that a second refused configuration may put rules
  of the first in force.
\<close>

theorem refused_configuration_restores_kernel:
  assumes "agrees (mg_loader mg)" "ce_accept env = accept_all"
    and "apply_container_config env path cid mg = (r, mg')"
    and "r \<in> {ReadFailed, NoPolicy, ProxyRefused, TrackingFailed}"
  shows "ld_bpf (mg_loader mg') = ld_bpf (mg_loader mg) \<and> mg_registered mg' = mg_registered mg \<and>
    mg_configs mg' = mg_configs mg \<and> mg_watch mg' = mg_watch mg"
  using assms(3)
proof (cases rule: apply_container_config_cases)
  case (kernel sp port)
  with assms(4) show ?thesis
    by (auto simp: register_kernel_policy_def split: option.splits prod.splits sum.splits)
next
  case (rolled sp port ld1 p)
  with rollback_kernel [OF assms(1,2) rolled(2)] assms(2) show ?thesis by (simp add: rollback_ebpf_def)
next
  case (applied content ld1 p)
  with assms(4) show ?thesis by simp
qed simp

section \<open>Applied configurations\<close>

lemma restored_map_lookup:
  "n \<noteq> ''sock_block_map'' \<Longrightarrow> map_lookup (put_obj ''sock_block_map'' cid v b) n k = map_lookup b n k"
  by (simp add: put_obj_lookup)

lemma track_loader:
  "mg_loader (track_container env path cid mg) =
     snd (policy_block_sock (ce_accept env) (cgroup_id cid) (mg_sock_path mg) (mg_loader mg))"
  by (simp add: track_container_def Let_def)

lemma block_sock_Done:
  assumes "ld_loaded ld" "length path < 256"
  shows "\<exists>pat. fill_path path = Some pat \<and> block_sock_access accept_all cid path ld =
    (Done (), ld\<lparr>ld_bpf := map (put_obj ''sock_block_map'' cid (Some (MvSock \<lparr>sbe_path = pat\<rparr>))) (ld_bpf ld),
                 ld_sock := (ld_sock ld)(cid \<mapsto> \<lparr>sbe_path = pat\<rparr>)\<rparr>)"
proof -
  from fill_path_ok [OF assms(2)] obtain pat where "fill_path path = Some pat" by blast
  with assms show ?thesis
    by (simp add: block_sock_access_def bpf_consts Let_def write_accepted modify_apply)
qed

lemma block_sock_objects:
  assumes "b \<in> set (ld_bpf (snd (block_sock_access acc cid path ld)))"
  obtains b0 where "b0 \<in> set (ld_bpf ld)" "b = b0 \<or> (\<exists>v. b = put_obj ''sock_block_map'' cid v b0)"
proof -
  have written: "b \<in> set (snd (write_objs acc name cid v bs)) \<Longrightarrow>
      \<exists>b0 \<in> set bs. b = b0 \<or> b = put_obj name cid (Some v) b0" for name v bs
  proof (induction acc name cid v bs rule: write_objs.induct)
    case (2 acc name cid v b' bs)
    then show ?case by (auto simp: put_obj_def split: option.splits if_splits prod.splits)
  qed simp
  have "b \<in> set (ld_bpf ld) \<or> (\<exists>e. b \<in> set (snd (write_objs acc ''sock_block_map'' cid (MvSock e) (ld_bpf ld))))"
    using assms
    by (auto simp: block_sock_access_def write_kernel_hash_def then_do_def modify_def Let_def case_prod_unfold
        split: if_splits option.splits)
  with written show thesis using that by blast
qed

lemma put_sock_tables:
  "policy_of (put_obj ''sock_block_map'' cid v b) c = policy_of b c"
  "check_fs_path_rules (put_obj ''sock_block_map'' cid v b) c perm buf = check_fs_path_rules b c perm buf"
  "full_object (put_obj ''sock_block_map'' cid v b) = full_object b"
  by (simp_all add: policy_of_def check_fs_path_rules_def fs_rules_of_def restored_map_lookup full_object_def
      has_map_def put_obj_maps split: option.split)

text \<open>
  C25. A container whose registration is applied is confined by the security section of its file:
  unless the mode is alert, every loaded kernel object refuses the opening of the files the policy
  denies, whichever writes the kernel refused on the way, and grants the rest, but for the
  controller's own socket.  That one it refuses, when the kernel takes every map write and the
  path fits its table; a failure to write that entry is not noticed, the registration is applied all
  the same.  As to the pattern of a path and the bytes after its NUL, the answer is that of \<open>file_refused\<close>:
  the policy's own when the bytes are clean or no exact pattern names the file.
\<close>

theorem registered_container_is_confined:
  assumes "apply_container_config env path cid mg = (Applied, mg')"
    and "ce_read env path = Some content" "parse_security_policy (ce_toml env) content = Inr policy"
    and "b \<in> set (ld_bpf (mg_loader mg'))" "full_object b"
    and "printable_fs policy" "readable_path s file"
  shows "fst (handle_file_open room b (cgroup_id cid) pid file f_mode) =
      (if (sock_blocked b (cgroup_id cid) file \<or> file_refused policy s file (fmode_to_perm f_mode)) \<and>
          sp_enforcement_mode policy \<noteq> ''alert''
       then - EACCES else 0) \<and>
    (ce_accept env = accept_all \<and> has_map b ''sock_block_map'' \<and>
       length (mg_sock_path mg) < 256 \<and> nul_free (mg_sock_path mg) \<longrightarrow>
     sock_blocked b (cgroup_id cid) file = (\<exists>buf. file = Some buf \<and> s = mg_sock_path mg \<and> path_buffer s buf))"
  using assms(1)
proof (cases rule: apply_container_config_cases)
  case (applied content' ld1 p)
  let ?c = "cgroup_id cid"
  obtain port where u: "update_from_security_policy (ce_accept env) ?c policy port (mg_loader mg) = (Done (), ld1)"
    using applied(2,3) assms(2,3) by (auto simp: kernel_updated_def)
  then have l: "ld_loaded ld1" by (rule update_done) (simp add: update_keeps_loaded)
  have ld': "mg_loader mg' = snd (block_sock_access (ce_accept env) ?c (mg_sock_path mg) ld1)"
    using applied(5) by (simp add: track_loader policy_block_sock_def split: prod.split)
  with assms(4) obtain b0 where b0: "b0 \<in> set (ld_bpf ld1)"
    "b = b0 \<or> (\<exists>v. b = put_obj ''sock_block_map'' ?c v b0)"
    by (metis block_sock_objects)
  then have same: "policy_of b ?c = policy_of b0 ?c" "full_object b0"
    "check_fs_path_rules b ?c perm buf = check_fs_path_rules b0 ?c perm buf" for perm buf
    using assms(5) by (auto simp: put_sock_tables)
  note facts = check_fs_installed [OF u b0(1) same(2) assms(6)]
  have "fst (handle_file_open room b ?c pid file f_mode) =
      (if (sock_blocked b ?c file \<or> file_refused policy s file (fmode_to_perm f_mode)) \<and>
          sp_enforcement_mode policy \<noteq> ''alert''
       then - EACCES else 0)"
    using facts by (intro file_open_by_tables [OF _ assms(7)]) (simp_all add: same)
  moreover have "sock_blocked b ?c file = (\<exists>buf. file = Some buf \<and> s = mg_sock_path mg \<and> path_buffer s buf)"
    if "ce_accept env = accept_all" "has_map b ''sock_block_map''" "length (mg_sock_path mg) < 256"
      "nul_free (mg_sock_path mg)"
  proof -
    from block_sock_Done [OF l that(3), of ?c] obtain pat where
      pat: "fill_path (mg_sock_path mg) = Some pat" and
      "ld_bpf (snd (block_sock_access accept_all ?c (mg_sock_path mg) ld1)) =
        map (put_obj ''sock_block_map'' ?c (Some (MvSock \<lparr>sbe_path = pat\<rparr>))) (ld_bpf ld1)"
      by fastforce
    with assms(4) ld' that(1) obtain b1 where b1: "b = put_obj ''sock_block_map'' ?c (Some (MvSock \<lparr>sbe_path = pat\<rparr>)) b1"
      by auto
    have "sock_block_of b ?c = Some \<lparr>sbe_path = pat\<rparr>"
      using that(2) unfolding b1 by (simp add: sock_block_of_def put_obj_lookup has_map_def put_obj_maps split: option.splits)
    then show ?thesis
      using kernel_exact_string [OF pat that(4)] assms(7)
      by (auto simp: sock_blocked_def readable_path_def split: option.splits)
  qed
  ultimately show ?thesis by blast
next
  case (kernel sp port)
  then show ?thesis
    by (auto simp: register_kernel_policy_def split: option.splits prod.splits sum.splits)
qed simp_all

text \<open>
  The failure to guard the socket goes unnoticed: the container counts as registered, the kernel is
  left as the failed write left it.
\<close>

lemma socket_block_failure_is_ignored:
  assumes "policy_block_sock (ce_accept env) (cgroup_id cid) (mg_sock_path mg) (mg_loader mg) = (Some (Inl e), ld')"
  shows "cid \<in> set (mg_registered (track_container env path cid mg)) \<and> mg_loader (track_container env path cid mg) = ld'"
  using assms by (simp add: track_container_def Let_def)

section \<open>Acknowledgements\<close>

text \<open>
  Registration is acknowledged whatever becomes of it: the listener answers ok to every message
  it can parse, also when the configuration cannot be read, has no valid section, or is refused by
  the kernel or by the proxy; the hook that waits for the answer then lets the container start.
\<close>

theorem registration_is_always_acknowledged:
  assumes "parse_message from_str buf =
      Some \<lparr>cm_action = Register, cm_container_id = cid, cm_config_path = Some path\<rparr>"
  shows "handle_lifecycle env from_str buf mg = (Some sock_answer, snd (apply_container_config env path cid mg)) \<and>
    (ce_read env path = None \<longrightarrow> handle_lifecycle env from_str buf mg = (Some sock_answer, mg))"
  using assms by (simp add: handle_lifecycle_def apply_container_config_def)


text \<open>
  C28. A container whose registration failed starts all the same: when the controller cannot read
  the configuration the hook names, the hook ends with status 0, and the controller's state, the
  kernel maps included, is what it was before, so nothing confines the container.
\<close>

theorem failed_registration_starts_container:
  assumes "hk_var hk ''AGENTSANDBOX_SOCK_PATH'' = Some sock" "hk_var hk ''AGENTSANDBOX_CONFIG_PATH'' = Some path"
    and "read_cgroup_id hk = Inr cg"
    and "from_str (hk_print hk (register_message_json \<lparr>cgroup_id = cg\<rparr> path) @ [CHR 0x0A]) =
           Some (register_message_json \<lparr>cgroup_id = cg\<rparr> path)"
    and "hk_parse hk sock_answer = Inr (JObject [(''status'', JString ''ok'')])"
    and "ce_read env path = None"
  shows "hook_main hk (controller_link env from_str) mg = (0, mg)"
proof -
  have "container_id_of_json (container_id_json \<lparr>cgroup_id = cg\<rparr>) = Some \<lparr>cgroup_id = cg\<rparr>"
    by (simp add: container_id_of_json_def container_id_json_def wire)
  then have "parse_message from_str (hk_print hk (register_message_json \<lparr>cgroup_id = cg\<rparr> path) @ [CHR 0x0A]) =
      Some \<lparr>cm_action = Register, cm_container_id = \<lparr>cgroup_id = cg\<rparr>, cm_config_path = Some path\<rparr>"
    using assms(4) by (simp add: parse_message_def register_message_json_def)
  then have "controller_link env from_str sock
      (hk_print hk (register_message_json \<lparr>cgroup_id = cg\<rparr> path) @ [CHR 0x0A]) mg = (Inr sock_answer, mg)"
    using assms(6) by (simp add: controller_link_def handle_lifecycle_def apply_container_config_def)
  with assms(1-3,5) show ?thesis
    by (simp add: hook_main_def hook_run_def send_registration_def register_response_of_json_def wire)
qed

section \<open>Flows\<close>

text \<open>
  The socket as the kernel shows it to the socket program: addresses in network order, the local
  port in host order, the remote port in network order in the upper half of its word.
\<close>

definition sock_ops_v4 :: "u32 \<Rightarrow> u16 \<Rightarrow> u32 \<Rightarrow> u16 \<Rightarrow> sock_ops" where
  "sock_ops_v4 a p b q =
     \<lparr>so_family = 2, so_local_ip4 = bswap32 a, so_remote_ip4 = bswap32 b, so_local_ip6 = [],
      so_remote_ip6 = [], so_local_port = ucast p, so_remote_port = push_bit 16 (ucast (bswap16 q))\<rparr>"

definition ip6_words :: "u128 \<Rightarrow> u32 list" where
  "ip6_words a = map (\<lambda>i. bswap32 (ucast (drop_bit (96 - 32 * i) a))) [0..<4]"

definition sock_ops_v6 :: "u128 \<Rightarrow> u16 \<Rightarrow> u128 \<Rightarrow> u16 \<Rightarrow> sock_ops" where
  "sock_ops_v6 a p b q =
     \<lparr>so_family = 10, so_local_ip4 = 0, so_remote_ip4 = 0, so_local_ip6 = ip6_words a,
      so_remote_ip6 = ip6_words b, so_local_port = ucast p, so_remote_port = push_bit 16 (ucast (bswap16 q))\<rparr>"

fun sock_ops_of :: "socket_addr \<Rightarrow> socket_addr \<Rightarrow> sock_ops option" where
  "sock_ops_of (V4 a, p) (V4 b, q) = Some (sock_ops_v4 a p b q)"
| "sock_ops_of (V6 a, p) (V6 b, q) = Some (sock_ops_v6 a p b q)"
| "sock_ops_of _ _ = None"

lemma bswap16_bswap16: "bswap16 (bswap16 q) = q"
  unfolding bswap16_def by (rule bit_word_eqI) (auto simp: bit_simps)

lemma remote_port: "bswap16 (ucast (drop_bit 16 (push_bit 16 (ucast (bswap16 q) :: u32)))) = q"
proof -
  have "ucast (drop_bit 16 (push_bit 16 (ucast (w :: u16) :: u32))) = w" for w
    by (rule bit_word_eqI) (auto simp: bit_simps)
  then show ?thesis by (simp add: bswap16_bswap16)
qed

lemma local_port: "ucast (ucast (p :: u16) :: u32) = p"
  by (rule bit_word_eqI) (simp add: bit_simps)

lemma le_bytes_bswap: "to_le_bytes (bswap32 a) = rev (to_le_bytes a)"
  unfolding bswap32_def to_from_le_bytes by (simp add: to_le_bytes_def)

lemma ip6_bytes: "concat (map to_le_bytes (ip6_words a)) = octets16 a"
proof -
  have b: "(ucast (drop_bit k (ucast (drop_bit m a) :: u32)) :: u8) = ucast (drop_bit (m + k) a)" if "k \<le> 24" for k m
    using that by (intro bit_word_eqI) (auto simp: bit_simps ac_simps)
  have "map to_le_bytes (ip6_words a) = map (\<lambda>i. rev (to_le_bytes (ucast (drop_bit (96 - 32 * i) a)))) [0..<4]"
    by (simp add: ip6_words_def le_bytes_bswap comp_def)
  then show ?thesis
    by (simp add: octets16_def upt_conv_Cons to_le_bytes_def b b [of 0, simplified])
qed

lemma flow_keys_agree: "sock_ops_of src dst = Some ctx \<Longrightarrow> build_flow_key src dst = Some (flow_key_of ctx)"
  by (cases "(src, dst)" rule: sock_ops_of.cases)
     (auto simp: build_flow_key_def flow_key_of_def sock_ops_v4_def sock_ops_v6_def from_ipv4_def from_ipv6_def
       octets4_def le_bytes_bswap ip6_bytes remote_port local_port)


text \<open>
  C30. The proxy process finds the container behind a connection: once the socket program has
  recorded an established flow in an instance of the lookup map, a resolver that holds this instance
  answers, for the same pair of IPv4 or IPv6 addresses and ports, the container of that cgroup; the
  key built from the socket addresses is bit for bit the key the kernel program wrote.
\<close>

theorem recorded_flow_is_resolved:
  assumes "sock_ops_of source target = Some ctx"
    and "insts i = handle_sockops 4 cg ctx flows" "ld_lookup ld = Some i"
  shows "ebpf_resolve insts pinned source target ld =
    (Some \<lparr>ro_container_id = container_as_key \<lparr>cgroup_id = cg\<rparr>, ro_binary_path = []\<rparr>, ld)"
  using assms flow_keys_agree [OF assms(1)]
  by (simp add: ebpf_resolve_def lookup_cgroup_by_flow_def handle_sockops_def)


section \<open>The proxy as a peer\<close>

definition refresh_message :: "container_id \<Rightarrow> hc_filter_config \<Rightarrow> string \<Rightarrow> management_message" where
  "refresh_message cid cfg rid =
     \<lparr>mm_msg_type = MSG_REFRESH_POLICY, mm_payload = refresh_payload cid cfg, mm_request_id = rid\<rparr>"

definition remove_message :: "container_id \<Rightarrow> string \<Rightarrow> management_message" where
  "remove_message cid rid =
     \<lparr>mm_msg_type = MSG_REMOVE_CONTAINER, mm_payload = JObject [(''container_id'', container_id_json cid)],
      mm_request_id = rid\<rparr>"

text \<open>
  What the controller expects of the process that holds the policies: a removal forgets one
  container, a refresh touches one container, a refused refresh touches none.
\<close>

locale policy_peer =
  fixes send :: "management_message \<Rightarrow> 'p \<Rightarrow> (string + management_response) \<times> 'p"
    and held :: "'p \<Rightarrow> string \<Rightarrow> filter_config option"
  assumes removal: "held (snd (send (remove_message c rid) p)) = (held p)(container_as_key c := None)"
    and refresh_frame:
      "k \<noteq> container_as_key c \<Longrightarrow> held (snd (send (refresh_message c cfg rid) p)) k = held p k"
    and refused: "fst (send (refresh_message c cfg rid) p) = Inr r \<Longrightarrow> mr_status r \<noteq> ''ok'' \<Longrightarrow>
      held (snd (send (refresh_message c cfg rid) p)) = held p"
begin

lemma unregistered_gone:
  "ce_send env = send \<Longrightarrow>
     held (mg_peer (unregister_container env cid mg)) = (held (mg_peer mg))(container_as_key cid := None)"
  using removal
  by (simp add: unregister_container_def send_remove_container_to_proxy_def Let_def remove_message_def
      split: option.split)

lemma send_filter_held:
  assumes "ce_send env = send" "k \<noteq> container_as_key cid"
  shows "held (mg_peer (snd (send_filter_config_to_proxy env cid cfg mg))) k = held (mg_peer mg) k"
  using refresh_frame [OF assms(2)] assms(1)
  by (simp add: send_filter_config_to_proxy_def refresh_message_def split: prod.split sum.split)
     (metis snd_conv)

lemma reload_touches_one:
  assumes "ce_send env = send" "on_config_change env path mg = (res, mg')"
  shows "\<exists>c. \<forall>k. k \<noteq> container_as_key c \<longrightarrow> held (mg_peer mg') k = held (mg_peer mg) k"
proof -
  have apply_frame: "held (mg_peer (snd (apply_config_to_container env fc sp port c mg))) k = held (mg_peer mg) k"
    if "k \<noteq> container_as_key c" for fc sp port c k
  proof -
    obtain r mg1 where reg: "register_kernel_policy env c sp port mg = (r, mg1)" by fastforce
    have "mg_peer mg1 = mg_peer mg"
      using reg by (auto simp: register_kernel_policy_def split: option.splits prod.splits)
    with send_filter_held [OF assms(1) that, of _ mg1] reg show ?thesis
      by (auto simp: apply_config_to_container_def Let_def rollback_ebpf_def
          split: option.split prod.split bool.split)
         (metis snd_conv)+
  qed
  with assms(2) show ?thesis
    by (auto simp: on_config_change_def split: option.splits prod.splits) (metis snd_conv)
qed

end

text \<open>The receiver of the proxy process, reached directly; over the socket it is the same.\<close>

definition direct_send ::
  "proc_env \<Rightarrow> management_message \<Rightarrow> facade_state \<Rightarrow> (string + management_response) \<times> facade_state" where
  "direct_send e msg s = (case handle_message e msg s of (r, s') \<Rightarrow> (Inr r, s'))"

definition held_policy :: "facade_state \<Rightarrow> string \<Rightarrow> filter_config option" where
  "held_policy s = config_for (fs_registry s)"


lemma container_id_wire [wire]: "container_id_of_json (container_id_json c) = Some c"
  by (cases c) (simp add: container_id_of_json_def container_id_json_def wire)

lemma set_ca_keeps_policies:
  "held_policy (snd (facade_set_container_ca pk cid ca s)) = held_policy s"
  "reg_config_validator (fs_registry (snd (facade_set_container_ca pk cid ca s))) =
     reg_config_validator (fs_registry s)"
  by (auto simp: facade_set_container_ca_def held_policy_def config_for_def set_container_ca_def fun_eq_iff
      split: prod.splits sum.splits option.splits if_splits)

lemma set_config_held:
  "held_policy (snd (facade_set_container_config cid fc s)) =
     (case facade_set_container_config cid fc s of
        (Inl _, _) \<Rightarrow> held_policy s
      | (Inr _, _) \<Rightarrow> (held_policy s)(cid \<mapsto> normalize_rule_order fc))"
  by (auto simp: facade_set_container_config_def held_policy_def config_for_def set_container_config_def fun_eq_iff
      split: prod.splits sum.splits option.splits if_splits)

lemma direct_remove: "held_policy (snd (direct_send e (remove_message c rid) s)) = (held_policy s)(container_as_key c := None)"
  by (auto simp: direct_send_def handle_message_def remove_message_def MSG_REFRESH_POLICY_def MSG_REMOVE_CONTAINER_def
      handle_remove_container_def remove_container_payload_of_json_def wire facade_remove_container_policy_def
      remove_container_policy_def held_policy_def config_for_def fun_eq_iff split: prod.splits sum.splits option.splits)

text \<open>A refresh as the proxy sees it: the decoded payload, the CA, the configuration.\<close>

lemma direct_refresh:
  assumes "filter_config_of_json (hc_filter_config_json cfg) = Some fc"
  shows "direct_send e (refresh_message c cfg rid) s =
    (let s1 = (case pe_ca e of None \<Rightarrow> s
               | Some ca \<Rightarrow> snd (facade_set_container_ca (pe_pki e) (container_as_key c) ca s))
     in case facade_set_container_config (container_as_key c) fc s1 of
          (Inr _, s2) \<Rightarrow>
            (Inr \<lparr>mr_status = ''ok'', mr_detail = Some (JObject [(''container_id'', container_id_json c)]),
                  mr_request_id = rid\<rparr>, s2)
        | (Inl err, s2) \<Rightarrow> (Inr (error_response (''set_container_config: '' @ config_error_debug err) rid), s2))"
  using assms
  by (simp add: direct_send_def handle_message_def refresh_message_def handle_refresh_policy_def refresh_payload_def
      refresh_policy_payload_of_json_def wire Let_def split: prod.split sum.split)

lemma direct_refresh_bad:
  assumes "filter_config_of_json (hc_filter_config_json cfg) = None"
  shows "\<exists>d. direct_send e (refresh_message c cfg rid) s = (Inr (error_response d rid), s)"
  using assms
  by (intro exI [of _ "''payload: '' @ jl_shape_error (pe_json e) (refresh_payload c cfg)"])
     (simp add: direct_send_def handle_message_def refresh_message_def handle_refresh_policy_def refresh_payload_def
      refresh_policy_payload_of_json_def wire)

lemma refresh_held:
  "held_policy (snd (direct_send e (refresh_message c cfg rid) s)) =
     (if mr_status (projr (fst (direct_send e (refresh_message c cfg rid) s))) = ''ok''
      then (held_policy s)(container_as_key c \<mapsto>
              normalize_rule_order (the (filter_config_of_json (hc_filter_config_json cfg))))
      else held_policy s)"
proof (cases "filter_config_of_json (hc_filter_config_json cfg)")
  case None
  then show ?thesis using direct_refresh_bad [OF None, of e c rid s] by (auto simp: error_response_def)
next
  case (Some fc)
  let ?s1 = "case pe_ca e of None \<Rightarrow> s
    | Some ca \<Rightarrow> snd (facade_set_container_ca (pe_pki e) (container_as_key c) ca s)"
  have "held_policy ?s1 = held_policy s" by (simp add: set_ca_keeps_policies split: option.split)
  with set_config_held [of "container_as_key c" fc ?s1] Some show ?thesis
    by (auto simp: direct_refresh [OF Some] Let_def error_response_def split: prod.split sum.split)
qed

interpretation proxy_process: policy_peer "direct_send e" held_policy for e
proof
  fix c rid p
  show "held_policy (snd (direct_send e (remove_message c rid) p)) = (held_policy p)(container_as_key c := None)"
    by (rule direct_remove)
next
  fix k c cfg rid p assume "k \<noteq> container_as_key c"
  then show "held_policy (snd (direct_send e (refresh_message c cfg rid) p)) k = held_policy p k"
    by (simp add: refresh_held)
next
  fix c cfg rid p r
  assume "fst (direct_send e (refresh_message c cfg rid) p) = Inr r" "mr_status r \<noteq> ''ok''"
  then show "held_policy (snd (direct_send e (refresh_message c cfg rid) p)) = held_policy p"
    by (simp add: refresh_held)
qed

text \<open>Over the socket: when JSON text round-trips, the same answers and states.\<close>

definition json_round_trips :: "json_lib \<Rightarrow> bool" where
  "json_round_trips jl \<longleftrightarrow> (\<forall>j. jl_parse jl (jl_print jl j) = Inr j \<and> jl_parse jl (jl_print jl j @ [10]) = Inr j)"

lemma management_message_wire: "management_message_of_json (management_message_json m) = Some m"
  by (simp add: management_message_of_json_def management_message_json_def wire)

lemma management_response_wire:
  "mr_detail r \<noteq> Some JNull \<Longrightarrow> management_response_of_json (management_response_json r) = Some r"
  by (cases r; cases "mr_detail r")
     (auto simp: management_response_of_json_def management_response_json_def option_of_json_def wire)

lemma detail_not_null: "mr_detail (fst (handle_message e m s)) \<noteq> Some JNull"
  by (auto simp: handle_message_def handle_refresh_policy_def handle_remove_container_def handle_set_api_key_def
      error_response_def Let_def split: option.split prod.split sum.split)

lemma socket_is_direct:
  "json_round_trips (pe_json e) \<Longrightarrow> unix_send (pe_json e) (proxy_link e True) m s = direct_send e m s"
  using management_response_wire [OF detail_not_null [of e m s]]
  by (cases "handle_message e m s")
     (simp add: json_round_trips_def unix_send_def proxy_link_def handle_connection_def management_message_wire
      direct_send_def)


section \<open>Policies lose their rules\<close>

lemma arrived_policy:
  assumes "valid_policy cfg"
  shows "filter_config_of_json (hc_filter_config_json cfg) =
    Some \<lparr>default_policy = policy_named (hcf_default_policy cfg), rule_list = []\<rparr>"
  using policy_wire_rules [OF assms, of "''ruleset''"] by (simp add: hc_filter_config_json_def)

lemma accepted_refresh_held:
  assumes "valid_policy cfg" "send_filter_config_to_proxy env cid cfg mg = (True, mg')"
    and "ce_send env = direct_send e"
  shows "held_policy (mg_peer mg') (container_as_key cid) =
    Some \<lparr>default_policy = policy_named (hcf_default_policy cfg), rule_list = []\<rparr>"
proof -
  let ?rid = "request_id ''config'' cid (ce_millis env)"
  obtain resp p where r: "direct_send e (refresh_message cid cfg ?rid) (mg_peer mg) = (Inr resp, p)"
    by (cases "handle_message e (refresh_message cid cfg ?rid) (mg_peer mg)") (simp add: direct_send_def)
  with assms(2,3) have "mr_status resp = ''ok''" "mg_peer mg' = p"
    by (auto simp: send_filter_config_to_proxy_def refresh_message_def [symmetric])
  with refresh_held [of e cid cfg ?rid "mg_peer mg"] r show ?thesis
    by (simp add: arrived_policy [OF assms(1)] normalize_rule_order_def)
qed

text \<open>
  C27. No rule of a container's filter policy ever takes effect: the controller sends the rules under
  the name \<open>ruleset\<close>, the proxy reads \<open>rule_list\<close> and takes a missing list for an empty one.  After a
  registration that is reported as applied, the proxy decides every request of the container by the
  default policy alone, whatever the rules say; under the right name the same rules would arrive
  exactly.
\<close>

theorem policies_arrive_without_rules:
  assumes "apply_container_config env path cid mg = (Applied, mg')"
    and "ce_read env path = Some content" "parse_proxy_policy (ce_toml env) content = Inr cfg"
    and "ce_send env = direct_send e"
  shows "held_policy (mg_peer mg') (container_as_key cid) =
      Some \<lparr>default_policy = policy_named (hcf_default_policy cfg), rule_list = []\<rparr> \<and>
    evaluate build g domain meth url bin ips tport (the (held_policy (mg_peer mg') (container_as_key cid))) =
      default_decision (policy_named (hcf_default_policy cfg)) \<and>
    filter_config_of_json (filter_config_json_as ''rule_list'' cfg) =
      Some \<lparr>default_policy = policy_named (hcf_default_policy cfg),
            rule_list = map translate_rule_set (hcf_rule_list cfg)\<rparr>"
proof -
  have v: "valid_policy cfg" by (rule parsed_policy_valid [OF assms(3)])
  have held: "held_policy (mg_peer mg') (container_as_key cid) =
      Some \<lparr>default_policy = policy_named (hcf_default_policy cfg), rule_list = []\<rparr>"
    using assms(1)
  proof (cases rule: apply_container_config_cases)
    case (applied content' ld1 p)
    with assms(2,3) have "send_filter_config_to_proxy env cid cfg (mg\<lparr>mg_loader := ld1\<rparr>) =
        (True, mg\<lparr>mg_loader := ld1, mg_peer := p\<rparr>)" by simp
    from accepted_refresh_held [OF v this assms(4)] applied(5) show ?thesis
      by (simp add: track_container_def Let_def)
  next
    case (kernel sp port)
    then show ?thesis by (auto simp: register_kernel_policy_def split: option.splits prod.splits sum.splits)
  qed simp_all
  with policy_wire_rules [OF v, of "''rule_list''"] show ?thesis
    by (simp add: evaluate_def)
qed

section \<open>Leaving\<close>

definition policy_maps :: "string list" where
  "policy_maps = [''policy_map'', ''cap_path_rules_map'', ''fs_path_rules_map'', ''network_rules_map'', ''sock_block_map'']"

lemma remove_policy_loaded:
  "ld_loaded ld \<Longrightarrow> snd (remove_policy cid ld) =
     ld\<lparr>ld_bpf := map (\<lambda>b. put_obj ''sock_block_map'' cid None (put_obj ''network_rules_map'' cid None
           (put_obj ''fs_path_rules_map'' cid None (put_obj ''cap_path_rules_map'' cid None
           (put_obj ''policy_map'' cid None b))))) (ld_bpf ld),
        ld_policy := (ld_policy ld)(cid := None), ld_cap := (ld_cap ld)(cid := None),
        ld_fs := (ld_fs ld)(cid := None), ld_net := (ld_net ld)(cid := None), ld_sock := (ld_sock ld)(cid := None)\<rparr>"
  by (simp add: remove_policy_def delete_kernel_eq modify_apply comp_def)

lemma put_none_lookup:
  "map_lookup (put_obj n k None b) n' k' = (if n' = n \<and> k' = k then None else map_lookup b n' k')"
  by (cases "n' = n"; cases "ko_maps b n'") (simp_all add: map_lookup_def put_obj_maps)

text \<open>
  C29. A container that is unregistered leaves nothing behind in the kernel, in the loader's tables, in
  the controller's registrations and files, or in the policies of the proxy, and every entry of any
  other container in any of these is as it was; the watch of its file ends, also where another
  container shares the file.  The programs are loaded, the locks are not poisoned, and messages reach
  the proxy.
\<close>

theorem unregistered_container_leaves_nothing:
  assumes "ld_loaded (mg_loader mg)" "ce_send env = direct_send e"
    and "\<not> mg_registered_poisoned mg" "\<not> mg_configs_poisoned mg"
    and "mg' = unregister_container env cid mg"
  shows "list_all (\<lambda>b. list_all (\<lambda>n. map_lookup b n (cgroup_id cid) = None) policy_maps) (ld_bpf (mg_loader mg')) \<and>
    snapshot_policy (cgroup_id cid) (mg_loader mg') =
      \<lparr>ps_policy_value = None, ps_cap_path_rules = None, ps_fs_path_rules = None, ps_network_rules = None\<rparr> \<and>
    ld_sock (mg_loader mg') (cgroup_id cid) = None \<and>
    set (mg_registered mg') = set (mg_registered mg) - {cid} \<and>
    map_of (mg_configs mg') = (map_of (mg_configs mg))(cid := None) \<and>
    held_policy (mg_peer mg') = (held_policy (mg_peer mg))(container_as_key cid := None) \<and>
    mg_watch mg' =
      (case map_of (mg_configs mg) cid of None \<Rightarrow> mg_watch mg | Some path \<Rightarrow> remove_watch path (mg_watch mg)) \<and>
    (\<forall>c k. c = cgroup_id cid \<or>
       map (\<lambda>b. map_lookup b k c) (ld_bpf (mg_loader mg')) = map (\<lambda>b. map_lookup b k c) (ld_bpf (mg_loader mg)) \<and>
       snapshot_policy c (mg_loader mg') = snapshot_policy c (mg_loader mg) \<and>
       ld_sock (mg_loader mg') c = ld_sock (mg_loader mg) c)"
proof -
  have ld: "mg_loader mg' = snd (remove_policy (cgroup_id cid) (mg_loader mg))"
    using assms(5)
    by (simp add: unregister_container_def send_remove_container_to_proxy_def Let_def policy_remove_def
        split: prod.split option.split)
  have cfg: "map_of (mg_configs mg') = (map_of (mg_configs mg))(cid := None)"
    "set (mg_registered mg') = set (mg_registered mg) - {cid}"
    "mg_watch mg' =
      (case map_of (mg_configs mg) cid of None \<Rightarrow> mg_watch mg | Some path \<Rightarrow> remove_watch path (mg_watch mg))"
    using assms(3-5)
    by (auto simp: unregister_container_def send_remove_container_to_proxy_def Let_def AList.delete_conv'
        fun_upd_idem split: option.split)
  have held: "held_policy (mg_peer mg') = (held_policy (mg_peer mg))(container_as_key cid := None)"
    unfolding assms(5) by (rule proxy_process.unregistered_gone [OF assms(2)])
  show ?thesis
    using cfg held unfolding ld remove_policy_loaded [OF assms(1)]
    by (auto simp: policy_maps_def list_all_iff put_none_lookup snapshot_policy_def)
qed

section \<open>Shared configuration files\<close>

lemma check_paths_subset: "set (fst (check_paths mtime ps w)) \<subseteq> set ps"
proof (induction ps arbitrary: w)
  case (Cons p ps)
  from Cons [of "snd (check_path mtime p w)"] show ?case by (auto simp: case_prod_unfold)
qed simp

text \<open>
  Two containers may be registered with one configuration file; then unregistering one stops the
  watch for both: the other stays registered under the file, but no later round of the monitor ever
  reports a change of it, so its policy is not reloaded any more.
\<close>

theorem unregistering_stops_a_shared_watch:
  assumes "c1 \<noteq> c2" "map_of (mg_configs mg) c1 = Some path" "map_of (mg_configs mg) c2 = Some path"
    and "\<not> mg_configs_poisoned mg" "\<not> wi_poisoned (mg_watch mg)"
    and "\<And>xs. set (order xs) = set xs"
  shows "map_of (mg_configs (unregister_container env c1 mg)) c2 = Some path \<and>
    path \<notin> set (fst (check_changes mtime order (mg_watch (unregister_container env c1 mg))))"
proof -
  let ?mg = "unregister_container env c1 mg"
  have "map_of (mg_configs ?mg) c2 = Some path" "wi_paths (mg_watch ?mg) = AList.delete path (wi_paths (mg_watch mg))"
    using assms(1-5)
    by (simp_all add: unregister_container_def send_remove_container_to_proxy_def Let_def remove_watch_def
        AList.delete_conv')
  moreover have "path \<notin> fst ` set (AList.delete path xs)" for xs :: "(string \<times> nat) list"
    by (auto simp: AList.delete_eq)
  ultimately have c2: "map_of (mg_configs ?mg) c2 = Some path"
    and "path \<notin> set (map fst (wi_paths (mg_watch ?mg)))" by simp_all
  then have no: "path \<notin> set (order (map fst (wi_paths (mg_watch ?mg))))" by (simp only: assms(6) not_False_eq_True)
  have "path \<notin> set (fst (check_paths mtime ps (mg_watch ?mg)))" if "path \<notin> set ps" for ps
    using check_paths_subset [of mtime ps "mg_watch ?mg"] that by blast
  with no c2 show ?thesis by (simp add: check_changes_def)
qed

text \<open>
  A change of a file reaches one container only, the first that the map of configurations yields,
  however many are registered with the file: the proxy's policies of all others stay as they were.
\<close>

theorem reload_touches_one_container:
  assumes "ce_send env = direct_send e" "on_config_change env path mg = (res, mg')"
  shows "\<exists>c. \<forall>k. k \<noteq> container_as_key c \<longrightarrow> held_policy (mg_peer mg') k = held_policy (mg_peer mg) k"
  by (rule proxy_process.reload_touches_one [OF assms])

end
