(* ===== verification/ControlInv.thy ===== *)
theory ControlInv
  imports ControlProps
begin

text \<open>
  Invariants of the controller: every operation on the kernel maps touches the entries of one
  container only, whatever the kernel answers; under any sequence of lifecycle messages and file
  changes the registered containers are those with a file, and each of them stays locked out of the
  controller's socket.
\<close>

section \<open>What an operation may touch\<close>

definition obj_touched :: "(string \<Rightarrow> u64 \<Rightarrow> bool) \<Rightarrow> kobj \<Rightarrow> kobj \<Rightarrow> bool" where
  "obj_touched A b b' \<longleftrightarrow>
     ko_proxy b' = ko_proxy b \<and> (\<forall>n. (ko_maps b' n = None) = (ko_maps b n = None)) \<and>
     (\<forall>n k. A n k \<or> map_lookup b' n k = map_lookup b n k)"

definition touches :: "(string \<Rightarrow> u64 \<Rightarrow> bool) \<Rightarrow> loader \<Rightarrow> loader \<Rightarrow> bool" where
  "touches A ld ld' \<longleftrightarrow>
     ld_loaded ld' = ld_loaded ld \<and> list_all2 (obj_touched A) (ld_bpf ld) (ld_bpf ld')"

named_theorems touch \<open>which entries an operation touches\<close>

lemma obj_touched_refl [simp]: "obj_touched A b b"
  by (simp add: obj_touched_def)

lemma obj_touched_trans: "obj_touched A a b \<Longrightarrow> obj_touched A b c \<Longrightarrow> obj_touched A a c"
  unfolding obj_touched_def by metis

lemma touches_refl: "touches A ld ld"
  by (simp add: touches_def list_all2_refl)

lemma touches_trans: "touches A l1 l2 \<Longrightarrow> touches A l2 l3 \<Longrightarrow> touches A l1 l3"
  unfolding touches_def using list_all2_trans [of "obj_touched A" "obj_touched A" "obj_touched A"] obj_touched_trans
  by metis

lemma touches_mono:
  assumes "touches A ld ld'" "\<And>n k. A n k \<Longrightarrow> B n k"
  shows "touches B ld ld'"
proof -
  have "obj_touched A b b' \<Longrightarrow> obj_touched B b b'" for b b'
    unfolding obj_touched_def using assms(2) by blast
  with assms(1) show ?thesis by (auto simp: touches_def intro: list_all2_mono)
qed

definition step_touches :: "(string \<Rightarrow> u64 \<Rightarrow> bool) \<Rightarrow> (loader \<Rightarrow> 'a outcome \<times> loader) \<Rightarrow> bool" where
  "step_touches A m \<longleftrightarrow> (\<forall>ld. touches A ld (snd (m ld)))"

lemma step_then_do [touch]:
  assumes "step_touches A m" "\<And>x. step_touches A (f x)"
  shows "step_touches A (then_do m f)"
  unfolding step_touches_def
proof
  fix ld
  obtain r ld' where r: "m ld = (r, ld')" by fastforce
  with assms(1) have "touches A ld ld'" by (metis step_touches_def snd_conv)
  with r assms(2) show "touches A ld (snd (then_do m f ld))"
    by (cases r) (auto simp: then_do_def step_touches_def intro: touches_trans)
qed

lemma put_touches: "A name k \<Longrightarrow> obj_touched A b (put_obj name k v b)"
proof -
  have "ko_proxy (put_obj name k v b) = ko_proxy b" by (simp add: put_obj_def split: option.split)
  then show "A name k \<Longrightarrow> obj_touched A b (put_obj name k v b)"
    by (auto simp: obj_touched_def put_obj_maps put_obj_lookup)
qed

lemma write_touches [touch]:
  assumes "A name k"
  shows "step_touches A (write_kernel_hash acc name k v)"
proof -
  have "list_all2 (obj_touched A) bs (snd (write_objs acc name k v bs))" for bs
  proof (induction bs)
    case (Cons b bs)
    have "b\<lparr>ko_maps := (ko_maps b)(name \<mapsto> m(k \<mapsto> v))\<rparr> = put_obj name k (Some v) b"
      if "ko_maps b name = Some m" for m using that by (simp add: put_obj_def)
    with put_touches [of A, OF assms, of b "Some v"] Cons show ?case
      by (cases "ko_maps b name") (simp_all add: case_prod_unfold list_all2_refl)
  qed simp
  then show ?thesis
    by (simp add: step_touches_def touches_def write_kernel_hash_def case_prod_unfold)
qed

lemma delete_touches [touch]: "A name k \<Longrightarrow> step_touches A (delete_kernel_hash name k)"
  by (simp add: step_touches_def touches_def delete_kernel_eq list_all2_map2 list_all2_refl put_touches)

lemma modify_touches [touch]:
  "(\<And>ld. ld_bpf (f ld) = ld_bpf ld \<and> ld_loaded (f ld) = ld_loaded ld) \<Longrightarrow> step_touches A (modify f)"
  by (simp add: step_touches_def touches_def modify_apply list_all2_refl)

lemma step_cases [touch]:
  "step_touches A (\<lambda>ld. (r, ld))"
  "(\<And>y. step_touches A (f y)) \<Longrightarrow> step_touches A (\<lambda>ld. case x of None \<Rightarrow> (r, ld) | Some y \<Rightarrow> f y ld)"
  "step_touches A m \<Longrightarrow> step_touches A m' \<Longrightarrow> step_touches A (\<lambda>ld. if c ld then m ld else m' ld)"
  "step_touches A m \<Longrightarrow> step_touches A m' \<Longrightarrow> step_touches A (if d then m else m')"
  "(\<And>y. step_touches A (f y)) \<Longrightarrow> step_touches A (\<lambda>ld. case z of Inl e \<Rightarrow> (Fail e, ld) | Inr y \<Rightarrow> f y ld)"
  "(\<And>y. step_touches A (f y)) \<Longrightarrow>
     step_touches A (\<lambda>ld. case w of Done y \<Rightarrow> f y ld | Fail e \<Rightarrow> (Fail e, ld) | Panic \<Rightarrow> (Panic, ld))"
  by (auto simp: step_touches_def touches_refl split: option.split sum.split outcome.split)

definition rules_of :: "u64 \<Rightarrow> string \<Rightarrow> u64 \<Rightarrow> bool" where
  "rules_of cid n k \<longleftrightarrow> k = cid \<and> n \<noteq> ''sock_block_map''"

definition entries_of :: "u64 \<Rightarrow> string \<Rightarrow> u64 \<Rightarrow> bool" where
  "entries_of cid n k \<longleftrightarrow> k = cid"

lemma update_touches: "step_touches (rules_of cid) (update_from_security_policy acc cid policy port)"
proof -
  let ?A = "rules_of cid"
  have a: "?A ''policy_map'' cid" "?A ''cap_path_rules_map'' cid" "?A ''fs_path_rules_map'' cid"
    "?A ''network_rules_map'' cid" by (simp_all add: rules_of_def)
  obtain order masks where agg: "aggregate_cap_path_rules policy = (order, masks)" by fastforce
  have "step_touches ?A (apply_cap_path_rules acc cid rules)" for rules
    unfolding apply_cap_path_rules_def by (intro touch a) simp_all
  then have c: "step_touches ?A (update_cap_path_rules acc cid policy)"
    unfolding update_cap_path_rules_def [abs_def] agg prod.case by (intro touch)
  have f: "step_touches ?A (update_fs_path_rules acc cid policy)"
    unfolding update_fs_path_rules_def [abs_def] by (intro touch a) simp_all
  have n: "step_touches ?A (update_network_rules acc cid policy)"
    unfolding update_network_rules_def [abs_def] by (intro touch a) simp_all
  show ?thesis
    unfolding update_from_security_policy_def [abs_def] Let_def
    by (intro touch a c f n) simp_all
qed

lemma restore_touches: "step_touches (rules_of cid) (restore_snapshot acc cid snap)"
proof -
  let ?A = "rules_of cid"
  have a: "?A ''policy_map'' cid" "?A ''cap_path_rules_map'' cid" "?A ''fs_path_rules_map'' cid"
    "?A ''network_rules_map'' cid" by (simp_all add: rules_of_def)
  have r: "?A name cid \<Longrightarrow> step_touches ?A (restore_rules acc name cid rules)" for name rules
    unfolding restore_rules_def by (cases rules) (simp_all add: write_touches delete_touches)
  show ?thesis
    unfolding restore_snapshot_def [abs_def] by (intro touch r a) simp_all
qed

lemma remove_touches: "step_touches (entries_of cid) (remove_policy cid)"
  unfolding remove_policy_def [abs_def] by (intro touch) (simp_all add: entries_of_def)

lemma block_touches: "step_touches (\<lambda>n k. n = ''sock_block_map'' \<and> k = cid) (block_sock_access acc cid path)"
  unfolding block_sock_access_def [abs_def] Let_def by (intro touch) simp_all


section \<open>The controller's operations\<close>

lemma touched_pair:
  assumes "touches A ld ld'" "b' \<in> set (ld_bpf ld')"
  obtains b where "b \<in> set (ld_bpf ld)" "obj_touched A b b'"
proof -
  from assms(2) obtain i where i: "i < length (ld_bpf ld')" "b' = ld_bpf ld' ! i" by (auto simp: in_set_conv_nth)
  moreover have "list_all2 (obj_touched A) (ld_bpf ld) (ld_bpf ld')" using assms(1) by (simp add: touches_def)
  ultimately show ?thesis
    by (intro that [of "ld_bpf ld ! i"]) (auto simp: list_all2_conv_all_nth)
qed

lemma rules_are_entries: "rules_of cid n k \<Longrightarrow> entries_of cid n k"
  by (simp add: rules_of_def entries_of_def)

lemma register_touches:
  assumes "register_kernel_policy env cid sp port mg = (r, mg1)"
  shows "touches (rules_of (cgroup_id cid)) (mg_loader mg) (mg_loader mg1) \<and>
    mg_registered mg1 = mg_registered mg \<and> mg_configs mg1 = mg_configs mg \<and> mg_sock_path mg1 = mg_sock_path mg"
proof (cases sp)
  case None
  with assms show ?thesis by (simp add: register_kernel_policy_def touches_refl)
next
  case (Some p)
  have "touches (rules_of (cgroup_id cid)) (mg_loader mg)
    (snd (update_from_security_policy (ce_accept env) (cgroup_id cid) p port (mg_loader mg)))"
    using update_touches by (simp add: step_touches_def)
  with assms Some show ?thesis
    by (auto simp: register_kernel_policy_def update_with_rollback_def Let_def split: prod.splits)
qed

lemma rollback_touches:
  "touches (rules_of (cgroup_id cid)) (mg_loader mg) (mg_loader (rollback_ebpf env cid old mg))"
proof -
  have "touches (rules_of (cgroup_id cid)) (mg_loader mg)
    (snd (restore_snapshot (ce_accept env) (cgroup_id cid) old (mg_loader mg)))"
    using restore_touches by (simp add: step_touches_def)
  then show ?thesis by (auto simp: rollback_ebpf_def restore_policy_def split: prod.splits)
qed

lemma kernel_updated_touches:
  assumes "kernel_updated env cid sp port ld ld1"
  shows "touches (rules_of (cgroup_id cid)) ld ld1"
proof (cases sp)
  case None
  with assms show ?thesis by (simp add: kernel_updated_def touches_refl)
next
  case (Some p)
  have "touches (rules_of (cgroup_id cid)) ld
    (snd (update_from_security_policy (ce_accept env) (cgroup_id cid) p port ld))"
    using update_touches by (simp add: step_touches_def)
  with assms Some show ?thesis by (simp add: kernel_updated_def)
qed

lemma send_keeps:
  "send_filter_config_to_proxy env cid cfg mg = (ok, mg') \<Longrightarrow>
     mg_loader mg' = mg_loader mg \<and> mg_registered mg' = mg_registered mg \<and> mg_configs mg' = mg_configs mg \<and>
     mg_sock_path mg' = mg_sock_path mg"
  by (drule send_filter_frame) auto

text \<open>Until a container is tracked only its rules are touched; tracking touches its socket entry.\<close>

lemma apply_touches:
  assumes "apply_container_config env path cid mg = (r, mg')"
  obtains (rules) "r \<noteq> Applied" "touches (rules_of (cgroup_id cid)) (mg_loader mg) (mg_loader mg')"
      "mg_registered mg' = mg_registered mg" "mg_configs mg' = mg_configs mg" "mg_sock_path mg' = mg_sock_path mg"
  | (tracked) mg1 where "r = Applied" "touches (rules_of (cgroup_id cid)) (mg_loader mg) (mg_loader mg1)"
      "mg_registered mg1 = mg_registered mg" "mg_configs mg1 = mg_configs mg" "mg_sock_path mg1 = mg_sock_path mg"
      "mg_configs_poisoned mg1 = mg_configs_poisoned mg"
      "mg' = track_container env path cid mg1"
  using assms
proof (cases rule: apply_container_config_cases)
  case unread
  then show ?thesis by (intro rules) (auto simp: touches_refl)
next
  case (kernel sp port)
  then have "r \<noteq> Applied" by (auto simp: register_kernel_policy_def split: option.splits prod.splits sum.splits)
  with register_touches [OF kernel] show ?thesis by (intro rules) simp_all
next
  case (rolled sp port ld1 p)
  have "touches (rules_of (cgroup_id cid)) (mg_loader mg) (mg_loader mg')"
    using touches_trans [OF kernel_updated_touches [OF rolled(2)],
        of "mg_loader mg'"] rollback_touches [of cid "mg\<lparr>mg_loader := ld1, mg_peer := p\<rparr>" env] rolled(3)
    by simp
  with rolled show ?thesis by (intro rules) (auto simp: rollback_ebpf_def)
next
  case (applied content ld1 p)
  with kernel_updated_touches [OF applied(3)] show ?thesis
    by (intro tracked [of "mg\<lparr>mg_loader := ld1, mg_peer := p\<rparr>"]) simp_all
qed

lemma block_loader_touches:
  "touches (\<lambda>n k. n = ''sock_block_map'' \<and> k = cid) ld (snd (policy_block_sock acc cid path ld))"
proof -
  have "touches (\<lambda>n k. n = ''sock_block_map'' \<and> k = cid) ld (snd (block_sock_access acc cid path ld))"
    using block_touches by (simp add: step_touches_def)
  then show ?thesis by (auto simp: policy_block_sock_def split: prod.split)
qed

lemma apply_to_touches:
  assumes "apply_config_to_container env fc sp port c mg = (r, m')"
  shows "touches (rules_of (cgroup_id c)) (mg_loader mg) (mg_loader m') \<and> mg_registered m' = mg_registered mg \<and>
      mg_configs m' = mg_configs mg \<and> mg_sock_path m' = mg_sock_path mg"
proof -
  obtain r0 mg1 where reg: "register_kernel_policy env c sp port mg = (r0, mg1)" by fastforce
  note t1 = register_touches [OF reg]
  show ?thesis
  proof (cases "r0 = None \<and> fc \<noteq> None")
    case True
    then obtain cfg where cfg: "fc = Some cfg" by blast
    obtain ok mg2 where send: "send_filter_config_to_proxy env c cfg mg1 = (ok, mg2)" by fastforce
    note k = send_keeps [OF send]
    have t2: "touches (rules_of (cgroup_id c)) (mg_loader mg) (mg_loader mg2)" using t1 k by simp
    show ?thesis
    proof (cases ok)
      case True
      with assms reg \<open>r0 = None \<and> fc \<noteq> None\<close> cfg send t1 k show ?thesis
        by (simp add: apply_config_to_container_def Let_def)
    next
      case False
      with assms reg \<open>r0 = None \<and> fc \<noteq> None\<close> cfg send have
        "m' = rollback_ebpf env c (get_policy_value (cgroup_id c) (mg_loader mg)) mg2"
        by (simp add: apply_config_to_container_def Let_def)
      with touches_trans [OF t2 rollback_touches] t1 k show ?thesis by (simp add: rollback_ebpf_def)
    qed
  next
    case False
    with assms reg t1 show ?thesis
      by (cases r0) (auto simp: apply_config_to_container_def Let_def)
  qed
qed

lemma reload_touches:
  assumes "on_config_change env path mg = (res, mg')"
  shows "case res of
      None \<Rightarrow> mg' = mg
    | Some (c, _) \<Rightarrow>
        touches (rules_of (cgroup_id c)) (mg_loader mg) (mg_loader mg') \<and> mg_registered mg' = mg_registered mg \<and>
        mg_configs mg' = mg_configs mg \<and> mg_sock_path mg' = mg_sock_path mg"
  using assms
  by (auto simp: on_config_change_def dest: apply_to_touches split: option.splits prod.splits)

lemma unregister_facts:
  "touches (entries_of (cgroup_id cid)) (mg_loader mg) (mg_loader (unregister_container env cid mg))"
  "mg_sock_path (unregister_container env cid mg) = mg_sock_path mg"
  "\<not> mg_registered_poisoned mg \<Longrightarrow>
     mg_registered (unregister_container env cid mg) = removeAll cid (mg_registered mg)"
  "\<not> mg_configs_poisoned mg \<Longrightarrow>
     mg_configs (unregister_container env cid mg) = AList.delete cid (mg_configs mg)"
proof -
  have "mg_loader (unregister_container env cid mg) = snd (remove_policy (cgroup_id cid) (mg_loader mg))"
    by (simp add: unregister_container_def send_remove_container_to_proxy_def Let_def policy_remove_def
        split: prod.split option.split)
  then show "touches (entries_of (cgroup_id cid)) (mg_loader mg) (mg_loader (unregister_container env cid mg))"
    using remove_touches by (simp add: step_touches_def)
  show "mg_sock_path (unregister_container env cid mg) = mg_sock_path mg"
    "\<not> mg_registered_poisoned mg \<Longrightarrow>
     mg_registered (unregister_container env cid mg) = removeAll cid (mg_registered mg)"
    by (simp_all add: unregister_container_def send_remove_container_to_proxy_def Let_def split: option.split)
  show "\<not> mg_configs_poisoned mg \<Longrightarrow>
     mg_configs (unregister_container env cid mg) = AList.delete cid (mg_configs mg)"
    by (auto simp: unregister_container_def send_remove_container_to_proxy_def Let_def map_of_eq_None_iff
        AList.delete_id split: option.split)
qed


section \<open>Events of the controller\<close>

text \<open>
  What drives the controller: a message on its socket and a change that a round of the monitor
  reports, each met with the files, clock and peer of its moment.
\<close>

datatype ctrl_event = LifecycleMessage string | FileChanged string

fun ctrl_step :: "(string \<Rightarrow> json option) \<Rightarrow> 'p ctrl_env \<times> ctrl_event \<Rightarrow> 'p management \<Rightarrow> 'p management" where
  "ctrl_step from_str (env, LifecycleMessage buf) mg = snd (handle_lifecycle env from_str buf mg)"
| "ctrl_step from_str (env, FileChanged path) mg = snd (on_config_change env path mg)"

fun event_target :: "(string \<Rightarrow> json option) \<Rightarrow> 'p ctrl_env \<times> ctrl_event \<Rightarrow> 'p management \<Rightarrow> container_id option" where
  "event_target from_str (env, LifecycleMessage buf) mg = map_option cm_container_id (parse_message from_str buf)"
| "event_target from_str (env, FileChanged path) mg = map_option fst (fst (on_config_change env path mg))"

text \<open>The kernel programs decide the same for a container.\<close>

definition same_decisions :: "u64 \<Rightarrow> kobj \<Rightarrow> kobj \<Rightarrow> bool" where
  "same_decisions k b b' \<longleftrightarrow>
     (\<forall>room pid path. handle_bprm_exec room b' k pid path = handle_bprm_exec room b k pid path \<and>
        handle_unix_stream_connect room b' k pid path = handle_unix_stream_connect room b k pid path \<and>
        (\<forall>mode. handle_file_open room b' k pid path mode = handle_file_open room b k pid path mode) \<and>
        (\<forall>cap. handle_capable room b' k pid cap path = handle_capable room b k pid cap path) \<and>
        (\<forall>ctx. handle_connect4 room b' k pid ctx = handle_connect4 room b k pid ctx))"

lemma untouched_decisions:
  assumes "obj_touched A b b'" "\<And>n. \<not> A n k"
  shows "same_decisions k b b'"
proof -
  have l: "map_lookup b' n k = map_lookup b n k" for n using assms by (auto simp: obj_touched_def)
  have p: "ko_proxy b' = ko_proxy b" using assms(1) by (simp add: obj_touched_def)
  show ?thesis
    unfolding same_decisions_def handle_bprm_exec_def handle_unix_stream_connect_def handle_file_open_def
      handle_capable_def handle_connect4_def check_path_rules_def check_fs_path_rules_def check_network_rules_def
      policy_of_def cap_rules_of_def fs_rules_of_def net_rules_of_def sock_block_of_def l p
    by simp
qed

lemma touches_decisions:
  "touches A ld ld' \<Longrightarrow> (\<And>n. \<not> A n k) \<Longrightarrow> list_all2 (same_decisions k) (ld_bpf ld) (ld_bpf ld')"
  unfolding touches_def by (auto elim!: list_all2_mono intro: untouched_decisions)

lemma track_touches:
  "touches (entries_of (cgroup_id cid)) (mg_loader mg) (mg_loader (track_container env path cid mg))"
  unfolding track_loader by (rule touches_mono [OF block_loader_touches]) (simp add: entries_of_def)

lemma application_touches:
  assumes "apply_container_config env path cid mg = (r, mg')"
  shows "touches (entries_of (cgroup_id cid)) (mg_loader mg) (mg_loader mg')"
  using assms
proof (cases rule: apply_touches)
  case rules
  from rules(2) rules_are_entries show ?thesis by (rule touches_mono)
next
  case (tracked mg1)
  have "touches (entries_of (cgroup_id cid)) (mg_loader mg) (mg_loader mg1)"
    using tracked(2) rules_are_entries by (rule touches_mono)
  from touches_trans [OF this track_touches] tracked(7) show ?thesis by simp
qed

lemma event_touches:
  "case event_target from_str (env, ev) mg of
     None \<Rightarrow> ctrl_step from_str (env, ev) mg = mg
   | Some c \<Rightarrow> touches (entries_of (cgroup_id c)) (mg_loader mg) (mg_loader (ctrl_step from_str (env, ev) mg))"
proof (cases ev)
  case (LifecycleMessage buf)
  show ?thesis
  proof (cases "parse_message from_str buf")
    case (Some msg)
    let ?c = "cm_container_id msg"
    have "touches (entries_of (cgroup_id ?c)) (mg_loader mg) (mg_loader (snd (apply_container_config env path ?c mg)))"
      for path by (cases "apply_container_config env path ?c mg") (simp add: application_touches)
    with Some LifecycleMessage unregister_facts(1) [of ?c mg env] show ?thesis
      by (simp add: handle_lifecycle_def touches_refl split: container_action.split option.split)
  qed (simp add: LifecycleMessage handle_lifecycle_def)
next
  case (FileChanged path)
  obtain res mg' where r: "on_config_change env path mg = (res, mg')" by fastforce
  have "touches (rules_of (cgroup_id c)) (mg_loader mg) (mg_loader mg') \<Longrightarrow>
      touches (entries_of (cgroup_id c)) (mg_loader mg) (mg_loader mg')" for c :: container_id
    by (erule touches_mono) (rule rules_are_entries)
  with reload_touches [OF r] r FileChanged show ?thesis by (auto split: option.splits)
qed

text \<open>
  C24. One container's configuration never weakens another's: whatever message the controller takes,
  whatever file change it follows and whatever the kernel accepts or refuses on the way, every
  program of every loaded object goes on deciding exactly as before for each cgroup that is not the
  one the event names.
\<close>

theorem containers_are_isolated:
  assumes "\<And>c. event_target from_str (env, ev) mg = Some c \<Longrightarrow> cgroup_id c \<noteq> k"
  shows "list_all2 (same_decisions k) (ld_bpf (mg_loader mg))
    (ld_bpf (mg_loader (ctrl_step from_str (env, ev) mg)))"
proof (cases "event_target from_str (env, ev) mg")
  case None
  with event_touches [of from_str env ev mg] show ?thesis
    by (simp add: list_all2_refl same_decisions_def)
next
  case (Some c)
  with event_touches [of from_str env ev mg]
  have "touches (entries_of (cgroup_id c)) (mg_loader mg) (mg_loader (ctrl_step from_str (env, ev) mg))" by simp
  then show ?thesis by (rule touches_decisions) (use assms [OF Some] in \<open>auto simp: entries_of_def\<close>)
qed


section \<open>The registered containers\<close>

text \<open>
  The invariant: the lists of containers agree and name each container once, and the socket entries
  of every kernel object are those of the registered containers, all for the controller's socket.
\<close>

definition sock_entry :: "string \<Rightarrow> container_id list \<Rightarrow> u64 \<Rightarrow> map_value option" where
  "sock_entry path cs k =
     (if list_ex (\<lambda>c. cgroup_id c = k) cs
      then map_option (\<lambda>pat. MvSock \<lparr>sbe_path = pat\<rparr>) (fill_path path) else None)"

definition socket_guarded :: "'p management \<Rightarrow> bool" where
  "socket_guarded mg \<longleftrightarrow>
     ld_loaded (mg_loader mg) \<and> length (mg_sock_path mg) < 256 \<and>
     \<not> mg_registered_poisoned mg \<and> \<not> mg_configs_poisoned mg \<and>
     set (mg_registered mg) = fst ` set (mg_configs mg) \<and>
     (\<forall>b \<in> set (ld_bpf (mg_loader mg)). has_map b ''sock_block_map'' \<and>
        (\<forall>k. map_lookup b ''sock_block_map'' k = sock_entry (mg_sock_path mg) (mg_registered mg) k))"

lemma sock_entry_cong: "set cs = set ds \<Longrightarrow> sock_entry path cs = sock_entry path ds"
  by (simp add: fun_eq_iff sock_entry_def list_ex_iff)

lemma cgroup_id_inject: "cgroup_id c = cgroup_id d \<longleftrightarrow> c = (d :: container_id)"
  by (cases c; cases d) simp

lemma rules_keep_socket:
  assumes "touches (rules_of k) ld ld'" "b' \<in> set (ld_bpf ld')"
  obtains b where "b \<in> set (ld_bpf ld)" "has_map b' ''sock_block_map'' = has_map b ''sock_block_map''"
    "\<forall>i. map_lookup b' ''sock_block_map'' i = map_lookup b ''sock_block_map'' i"
proof -
  from touched_pair [OF assms] obtain b where b: "b \<in> set (ld_bpf ld)" "obj_touched (rules_of k) b b'" .
  from b(2) have "(ko_maps b' ''sock_block_map'' = None) = (ko_maps b ''sock_block_map'' = None)"
    by (simp add: obj_touched_def)
  then have "has_map b' ''sock_block_map'' = has_map b ''sock_block_map''"
    by (auto simp: has_map_def split: option.split)
  moreover have "\<forall>i. map_lookup b' ''sock_block_map'' i = map_lookup b ''sock_block_map'' i"
    using b(2) by (auto simp: obj_touched_def rules_of_def)
  ultimately show ?thesis by (rule that [OF b(1)])
qed

lemma guarded_rules:
  assumes "socket_guarded mg" "touches (rules_of k) (mg_loader mg) (mg_loader mg')"
    and "mg_registered mg' = mg_registered mg" "mg_configs mg' = mg_configs mg" "mg_sock_path mg' = mg_sock_path mg"
    and "mg_registered_poisoned mg' = mg_registered_poisoned mg" "mg_configs_poisoned mg' = mg_configs_poisoned mg"
  shows "socket_guarded mg'"
proof -
  have "ld_loaded (mg_loader mg')" using assms(1,2) by (simp add: socket_guarded_def touches_def)
  moreover have "has_map b' ''sock_block_map'' \<and>
      (\<forall>i. map_lookup b' ''sock_block_map'' i = sock_entry (mg_sock_path mg) (mg_registered mg) i)"
    if b': "b' \<in> set (ld_bpf (mg_loader mg'))" for b'
  proof -
    from rules_keep_socket [OF assms(2) b'] obtain b where b: "b \<in> set (ld_bpf (mg_loader mg))"
      "has_map b' ''sock_block_map'' = has_map b ''sock_block_map''"
      "\<forall>i. map_lookup b' ''sock_block_map'' i = map_lookup b ''sock_block_map'' i" .
    with assms(1) show ?thesis by (simp add: socket_guarded_def)
  qed
  ultimately show ?thesis using assms(1,3-7) by (simp add: socket_guarded_def)
qed

lemma guarded_track:
  assumes "socket_guarded mg" "ce_accept env = accept_all"
  shows "socket_guarded (track_container env path cid mg)"
proof -
  let ?mg' = "track_container env path cid mg"
  have l: "ld_loaded (mg_loader mg)" "length (mg_sock_path mg) < 256" using assms(1) by (simp_all add: socket_guarded_def)
  from block_sock_Done [OF l, of "cgroup_id cid"] obtain pat where pat: "fill_path (mg_sock_path mg) = Some pat"
    and blk: "block_sock_access accept_all (cgroup_id cid) (mg_sock_path mg) (mg_loader mg) =
      (Done (), (mg_loader mg)\<lparr>ld_bpf := map (put_obj ''sock_block_map'' (cgroup_id cid)
                    (Some (MvSock \<lparr>sbe_path = pat\<rparr>))) (ld_bpf (mg_loader mg)),
         ld_sock := (ld_sock (mg_loader mg))(cgroup_id cid \<mapsto> \<lparr>sbe_path = pat\<rparr>)\<rparr>)" by blast
  have ld: "mg_loader ?mg' = snd (block_sock_access accept_all (cgroup_id cid) (mg_sock_path mg) (mg_loader mg))"
    by (simp add: track_loader assms(2) policy_block_sock_def split: prod.split)
  have fields: "mg_registered ?mg' = List.insert cid (mg_registered mg)" "mg_sock_path ?mg' = mg_sock_path mg"
    "\<not> mg_registered_poisoned ?mg'" "\<not> mg_configs_poisoned ?mg'"
    "mg_configs ?mg' = AList.update cid path (mg_configs mg)"
    using assms(1) by (simp_all add: track_container_def Let_def socket_guarded_def)
  have keys: "fst ` set (AList.update cid path (mg_configs mg)) = insert cid (fst ` set (mg_configs mg))"
    using dom_update [of cid path "mg_configs mg"] by (simp add: dom_map_of_conv_image_fst)
  have entry: "sock_entry (mg_sock_path mg) (List.insert cid (mg_registered mg)) k =
      (if k = cgroup_id cid then Some (MvSock \<lparr>sbe_path = pat\<rparr>) else sock_entry (mg_sock_path mg) (mg_registered mg) k)" for k
    by (auto simp: sock_entry_def list_ex_iff pat)
  have "has_map b' ''sock_block_map'' \<and> (\<forall>k. map_lookup b' ''sock_block_map'' k =
      sock_entry (mg_sock_path mg) (List.insert cid (mg_registered mg)) k)"
    if b': "b' \<in> set (ld_bpf (mg_loader ?mg'))" for b'
  proof -
    from b' ld blk obtain b where b: "b \<in> set (ld_bpf (mg_loader mg))"
      "b' = put_obj ''sock_block_map'' (cgroup_id cid) (Some (MvSock \<lparr>sbe_path = pat\<rparr>)) b" by auto
    from assms(1) b(1) have "has_map b ''sock_block_map''"
      "\<forall>k. map_lookup b ''sock_block_map'' k = sock_entry (mg_sock_path mg) (mg_registered mg) k"
      by (simp_all add: socket_guarded_def)
    then show ?thesis
      unfolding b(2) entry by (auto simp: has_map_def put_obj_maps put_obj_lookup split: option.splits)
  qed
  moreover have "ld_loaded (mg_loader ?mg')" using ld blk l by simp
  ultimately show ?thesis
    using fields keys assms(1) by (simp add: socket_guarded_def)
qed

lemma guarded_unregister:
  assumes "socket_guarded mg"
  shows "socket_guarded (unregister_container env cid mg)"
proof -
  let ?mg' = "unregister_container env cid mg"
  have ok: "\<not> mg_registered_poisoned mg" "\<not> mg_configs_poisoned mg" "ld_loaded (mg_loader mg)"
    using assms by (simp_all add: socket_guarded_def)
  note f = unregister_facts [where cid = cid and mg = mg and env = env]
  have p: "\<not> mg_registered_poisoned ?mg'" "\<not> mg_configs_poisoned ?mg'"
    using ok by (simp_all add: unregister_container_def send_remove_container_to_proxy_def Let_def split: option.split)
  have ld: "mg_loader ?mg' = snd (remove_policy (cgroup_id cid) (mg_loader mg))"
    by (simp add: unregister_container_def send_remove_container_to_proxy_def Let_def policy_remove_def
        split: prod.split option.split)
  have entry: "sock_entry (mg_sock_path mg) (removeAll cid (mg_registered mg)) k =
      (if k = cgroup_id cid then None else sock_entry (mg_sock_path mg) (mg_registered mg) k)" for k
    by (auto simp: sock_entry_def list_ex_iff cgroup_id_inject)
  have "has_map b' ''sock_block_map'' \<and> (\<forall>k. map_lookup b' ''sock_block_map'' k =
      sock_entry (mg_sock_path mg) (removeAll cid (mg_registered mg)) k)"
    if b': "b' \<in> set (ld_bpf (mg_loader ?mg'))" for b'
  proof -
    from touched_pair [OF f(1) b'] obtain b where b: "b \<in> set (ld_bpf (mg_loader mg))"
      "obj_touched (entries_of (cgroup_id cid)) b b'" .
    from b' have "map_lookup b' ''sock_block_map'' (cgroup_id cid) = None"
      unfolding ld remove_policy_loaded [OF ok(3)] by (auto simp: put_none_lookup)
    moreover from b(2) have "k \<noteq> cgroup_id cid \<Longrightarrow>
        map_lookup b' ''sock_block_map'' k = map_lookup b ''sock_block_map'' k" for k
      by (auto simp: obj_touched_def entries_of_def)
    moreover have "has_map b' ''sock_block_map'' = has_map b ''sock_block_map''"
    proof -
      from b(2) have "(ko_maps b' ''sock_block_map'' = None) = (ko_maps b ''sock_block_map'' = None)"
        by (simp add: obj_touched_def)
      then show ?thesis by (auto simp: has_map_def split: option.split)
    qed
    ultimately show ?thesis using assms b(1) unfolding entry by (simp add: socket_guarded_def)
  qed
  moreover have "ld_loaded (mg_loader ?mg')" using f(1) ok(3) by (simp add: touches_def)
  moreover have "set (removeAll cid (mg_registered mg)) = fst ` set (AList.delete cid (mg_configs mg))"
    using assms by (auto simp: socket_guarded_def AList.delete_eq)
  ultimately show ?thesis
    using f(2-4) ok p assms by (simp add: socket_guarded_def)
qed

lemma application_poison:
  "mg_registered_poisoned (snd (apply_container_config env path cid mg)) = mg_registered_poisoned mg \<and>
   mg_configs_poisoned (snd (apply_container_config env path cid mg)) = mg_configs_poisoned mg"
proof (cases "apply_container_config env path cid mg")
  case (Pair r mg')
  from this show ?thesis
  proof (cases rule: apply_container_config_cases)
    case (kernel sp port)
    with Pair show ?thesis by (auto simp: register_kernel_policy_def split: option.splits prod.splits)
  qed (use Pair in \<open>auto simp: rollback_ebpf_def track_container_def Let_def\<close>)
qed

lemma guarded_application:
  assumes "socket_guarded mg" "ce_accept env = accept_all"
  shows "socket_guarded (snd (apply_container_config env path cid mg))"
proof (cases "apply_container_config env path cid mg")
  case (Pair r mg')
  note poison = application_poison [of env path cid mg, unfolded Pair, simplified]
  from Pair show ?thesis
  proof (cases rule: apply_touches)
    case rules
    with guarded_rules [OF assms(1) rules(2-5)] poison Pair show ?thesis by simp
  next
    case (tracked mg1)
    have "socket_guarded mg1"
      using guarded_rules [OF assms(1) tracked(2-5)] tracked(6,7) poison
      by (simp add: track_container_def Let_def split: if_splits)
    from guarded_track [OF this assms(2)] tracked(7) Pair show ?thesis by simp
  qed
qed

lemma guarded_reload:
  assumes "socket_guarded mg"
  shows "socket_guarded (snd (on_config_change env path mg))"
proof (cases "on_config_change env path mg")
  case (Pair res mg')
  have p: "mg_registered_poisoned mg' = mg_registered_poisoned mg" "mg_configs_poisoned mg' = mg_configs_poisoned mg"
    using Pair by (auto simp: on_config_change_def apply_config_to_container_def register_kernel_policy_def Let_def
        rollback_ebpf_def dest!: send_filter_frame split: option.splits prod.splits bool.splits)
  show ?thesis
  proof (cases res)
    case (Some cr)
    then obtain c r where "res = Some (c, r)" by (cases cr) simp
    with reload_touches [OF Pair] guarded_rules [OF assms(1), of "cgroup_id c" mg'] p Pair show ?thesis by simp
  qed (use reload_touches [OF Pair] assms Pair in simp)
qed

lemma guarded_step:
  assumes "socket_guarded mg" "ce_accept (fst ee) = accept_all"
  shows "socket_guarded (ctrl_step from_str ee mg)"
  using assms
  by (cases ee; cases "snd ee")
     (auto simp: handle_lifecycle_def guarded_application guarded_unregister guarded_reload
      split: option.split container_action.split)

lemma guarded_run:
  assumes "socket_guarded mg" "list_all (\<lambda>ee. ce_accept (fst ee) = accept_all) evs"
  shows "socket_guarded (fold (ctrl_step from_str) evs mg)"
  using assms by (induction evs arbitrary: mg) (simp_all add: guarded_step)

lemma step_sock_path: "mg_sock_path (ctrl_step from_str ee mg) = mg_sock_path mg"
proof -
  obtain env ev where ee: "ee = (env, ev)" by fastforce
  have app: "mg_sock_path (snd (apply_container_config env path cid mg)) = mg_sock_path mg" for path cid
  proof (cases "apply_container_config env path cid mg")
    case (Pair r mg')
    from this show ?thesis
      by (cases rule: apply_touches) (use Pair in \<open>auto simp: track_container_def Let_def\<close>)
  qed
  have rel: "mg_sock_path (snd (on_config_change env path mg)) = mg_sock_path mg" for path
    using reload_touches [of env path mg] by (cases "on_config_change env path mg") (auto split: option.splits)
  show ?thesis
    by (cases ev) (auto simp: ee handle_lifecycle_def app rel unregister_facts(2) split: option.split container_action.split)
qed

lemma run_sock_path: "mg_sock_path (fold (ctrl_step from_str) evs mg) = mg_sock_path mg"
  by (induction evs arbitrary: mg) (simp_all add: step_sock_path)

text \<open>The controller as it starts: the objects come with an empty socket map each.\<close>

definition no_sock_entries :: "kobj \<Rightarrow> bool" where
  "no_sock_entries b \<longleftrightarrow> ko_maps b ''sock_block_map'' = Some Map.empty"

definition fresh_kernel :: "boot_kernel \<Rightarrow> bool" where
  "fresh_kernel bk \<longleftrightarrow> (\<forall>name ko. bk_load bk name = Inr ko \<longrightarrow> no_sock_entries ko)"

lemma loaded_objects:
  assumes "load_each bk btf names (bpf, pinned) = (r, bpf', pinned')" "fresh_kernel bk" "list_all no_sock_entries bpf"
  shows "list_all no_sock_entries bpf'"
  using assms
  by (induction names arbitrary: bpf pinned) (auto simp: fresh_kernel_def split: if_splits sum.splits)

lemma programs_loaded:
  assumes "load_programs bk names (ebpf_loader_new, pinned) = (Done (), ld, pinned')" "fresh_kernel bk"
  shows "ld_loaded ld \<and> list_all no_sock_entries (ld_bpf ld)"
  using assms(1) loaded_objects [OF _ assms(2)]
  by (auto simp: load_programs_def Let_def ebpf_loader_new_def split: sum.splits prod.splits)

lemma started_guarded:
  assumes "management_new bk pinned path peer = (Some (Inr mg), pinned')" "fresh_kernel bk" "length path < 256"
  shows "socket_guarded mg \<and> mg_sock_path mg = path"
proof -
  obtain r ld p1 where l: "load_programs bk None (ebpf_loader_new, pinned) = (r, ld, p1)"
    by (cases "load_programs bk None (ebpf_loader_new, pinned)") auto
  from assms(1) l have r: "r = Done ()"
    by (cases r) (simp_all add: management_new_def outcome_error_def)
  note ld = programs_loaded [OF l [unfolded r] assms(2)]
  let ?set = "\<lambda>b. case ko_proxy b of None \<Rightarrow> b | Some _ \<Rightarrow> b\<lparr>ko_proxy :=
    Some \<lparr>bpc_proxy_ip = LOOPBACK_IP_BE, bpc_proxy_port = PROXY_PORT, bpc_model_route_port = MODEL_ROUTE_LISTEN_PORT,
          bpc_container_ip = LOOPBACK_IP_BE\<rparr>\<rparr>"
  have mg: "ld_bpf (mg_loader mg) = map ?set (ld_bpf ld)" "ld_loaded (mg_loader mg)" "mg_registered mg = []"
    "mg_configs mg = []" "mg_sock_path mg = path" "\<not> mg_registered_poisoned mg" "\<not> mg_configs_poisoned mg"
    using assms(1) l r ld
    by (auto simp: management_new_def outcome_error_def set_proxy_def Let_def monitor_start_def monitor_new_def)
  have "has_map b ''sock_block_map'' \<and> (\<forall>k. map_lookup b ''sock_block_map'' k = None)"
    if b: "b \<in> set (ld_bpf (mg_loader mg))" for b
  proof -
    from b mg(1) obtain b0 where "b0 \<in> set (ld_bpf ld)" "ko_maps b = ko_maps b0" by (auto split: option.splits)
    with ld show ?thesis by (simp add: list_all_iff no_sock_entries_def has_map_def map_lookup_def)
  qed
  with mg assms(3) show ?thesis by (simp add: socket_guarded_def sock_entry_def)
qed

text \<open>
  C23. The controller's own socket stays out of reach of the containers: from the start of the
  controller on, after any sequence of lifecycle messages and file changes, refused and failed ones
  included, a container that is registered gets its connection to the socket refused by every kernel
  object, unless its installed policy is in alert mode, and a cgroup that is not registered is not
  affected.  The kernel is one that takes every map write (a refused write is only logged by the
  code, and the container stays registered), and the path of the socket fits its table entry.
\<close>

theorem controller_socket_is_guarded:
  assumes "management_new bk pinned path peer = (Some (Inr mg0), pinned')" "fresh_kernel bk"
    and "length path < 256" "nul_free path"
    and "list_all (\<lambda>ee. ce_accept (fst ee) = accept_all) evs"
    and "mg = fold (ctrl_step from_str) evs mg0"
    and "b \<in> set (ld_bpf (mg_loader mg))" "path_buffer s buf" "nul_free s"
  shows "fst (handle_unix_stream_connect room b (cgroup_id c) pid (Some buf)) =
    (if c \<in> set (mg_registered mg) \<and> s = path \<and>
        (case policy_of b (cgroup_id c) of None \<Rightarrow> True | Some pv \<Rightarrow> pv_enforcement_mode pv = 0)
     then - EACCES else 0)"
proof -
  note start = started_guarded [OF assms(1-3)]
  have g: "socket_guarded mg" unfolding assms(6) by (rule guarded_run) (use start assms(5) in simp_all)
  have path: "mg_sock_path mg = path" unfolding assms(6) using start by (simp add: run_sock_path)
  from fill_path_ok [OF assms(3)] obtain pat where pat: "fill_path path = Some pat" by blast
  note exact = kernel_exact_match [OF pat assms(4,8,9)]
  have reg: "list_ex (\<lambda>d. cgroup_id d = cgroup_id c) (mg_registered mg) \<longleftrightarrow> c \<in> set (mg_registered mg)"
    by (auto simp: list_ex_iff cgroup_id_inject)
  have "sock_block_of b (cgroup_id c) = (if c \<in> set (mg_registered mg) then Some \<lparr>sbe_path = pat\<rparr> else None)"
    using g assms(7) by (simp add: socket_guarded_def sock_block_of_def sock_entry_def path pat reg)
  then show ?thesis
    by (auto simp: handle_unix_stream_connect_def exact emit_fs_event_def split: option.split)
qed

end
