(* ===== verification/ControlDemo.thy ===== *)
theory ControlDemo
  imports ControlInv
begin

text \<open>
  The controller at work on small inputs: one kernel object, one file, the proxy process as peer.
  Each lemma applies a theorem of \<open>ControlProps\<close> or \<open>ControlInv\<close> to a run.
\<close>

definition demo_proc :: proc_env where
  "demo_proc =
     \<lparr>pe_json = \<lparr>jl_print = (\<lambda>_. []), jl_parse = (\<lambda>_. Inl ''EOF while parsing''), jl_shape_error = (\<lambda>_. ''shape'')\<rparr>,
      pe_pki = demo_pki, pe_ca = None, pe_getenv = (\<lambda>_. None), pe_uds_api_key = (\<lambda>_ _. None),
      pe_apply_api_key = (\<lambda>_. Inr ())\<rparr>"

definition demo_rule_set :: rule_set_config where
  "demo_rule_set =
     \<lparr>rsc_name = ''api'', rsc_host = \<lparr>hrc_type = ''ip'', hrc_addr = Some ''10.0.0.0/8'', hrc_context = None, hrc_prio = 1\<rparr>,
      rsc_targetrules = [\<lparr>trc_method = ''GET'', trc_path = ''/admin'', trc_action = ''deny''\<rparr>],
      rsc_binaryrules = [], rsc_port = Some 443\<rparr>"

definition demo_filter :: "string \<Rightarrow> hc_filter_config" where
  "demo_filter p =
     \<lparr>hcf_default_policy = p, hcf_audit_enabled = True, hcf_policy_change_strategy = ''drain'',
      hcf_rule_list = [demo_rule_set]\<rparr>"

definition demo_files :: "string \<Rightarrow> toml_config option" where
  "demo_files content =
     (if content = ''security'' then
        Some \<lparr>tc_version = 1, tc_proxy = None, tc_model_route = None, tc_security = Some demo_policy\<rparr>
      else if content = ''proxy'' then
        Some \<lparr>tc_version = 1, tc_proxy = Some (demo_filter ''allow''), tc_model_route = None, tc_security = None\<rparr>
      else if content = ''both'' then
        Some \<lparr>tc_version = 1, tc_proxy = Some (demo_filter ''allow''), tc_model_route = None, tc_security = Some demo_policy\<rparr>
      else None)"

text \<open>A file holds its own name.\<close>

definition demo_env :: "facade_state ctrl_env" where
  "demo_env =
     \<lparr>ce_read = (\<lambda>p. if p \<in> {''security'', ''proxy'', ''both''} then Some p else None), ce_toml = demo_files, ce_mtime = (\<lambda>_. Some 1),
      ce_accept = accept_all, ce_millis = 0, ce_send = direct_send demo_proc, ce_order = (\<lambda>xs. xs)\<rparr>"

definition demo_mg :: "facade_state management" where
  "demo_mg =
     \<lparr>mg_watch = \<lparr>wi_paths = [], wi_started = True, wi_poisoned = False\<rparr>, mg_loader = demo_loader,
      mg_registered = [], mg_configs = [], mg_sock_path = ''/run/hc.sock'', mg_registered_poisoned = False,
      mg_configs_poisoned = False, mg_peer = production_components\<rparr>"

lemmas demo_defs = demo_env_def demo_mg_def demo_files_def

lemma demo_read_security:
  "ce_read demo_env ''security'' = Some ''security''" "ce_accept demo_env = accept_all"
  "parse_security_policy (ce_toml demo_env) ''security'' = Inr demo_policy"
  "parse_proxy_policy (ce_toml demo_env) ''security'' = Inl (MissingField ''proxy'')"
  "parse_container_port (ce_toml demo_env) ''security'' = Inr 0"
  by (simp_all add: demo_defs parse_security_policy_def parse_proxy_policy_def parse_container_port_def
      parse_toml_def demo_policy_def address_rule_def check_network_rule_def)

lemma demo_applied:
  obtains ld' where
    "update_from_security_policy accept_all 7 demo_policy 0 demo_loader = (Done (), ld')"
    "apply_container_config demo_env ''security'' \<lparr>cgroup_id = 7\<rparr> demo_mg =
       (Applied, track_container demo_env ''security'' \<lparr>cgroup_id = 7\<rparr> (demo_mg\<lparr>mg_loader := ld'\<rparr>))"
    "\<exists>b \<in> set (ld_bpf ld'). full_object b"
proof (rule demo_updated)
  fix ld' b
  assume u: "update_from_security_policy accept_all 7 demo_policy 0 demo_loader = (Done (), ld')"
    "b \<in> set (ld_bpf ld')" "full_object b"
  have "register_kernel_policy demo_env \<lparr>cgroup_id = 7\<rparr> (Some demo_policy) 0 demo_mg = (None, demo_mg\<lparr>mg_loader := ld'\<rparr>)"
    unfolding register_kernel_None
    by (intro exI [of _ ld']) (simp add: kernel_updated_def u(1) demo_read_security(2), simp add: demo_mg_def u(1))
  then have "apply_container_config demo_env ''security'' \<lparr>cgroup_id = 7\<rparr> demo_mg =
       (Applied, track_container demo_env ''security'' \<lparr>cgroup_id = 7\<rparr> (demo_mg\<lparr>mg_loader := ld'\<rparr>))"
    by (simp add: apply_container_config_def demo_read_security Let_def demo_mg_def)
  with u show ?thesis by (intro that) auto
qed

section \<open>Applied and refused configurations\<close>

lemma demo_tracked:
  obtains mg' b where "apply_container_config demo_env ''security'' \<lparr>cgroup_id = 7\<rparr> demo_mg = (Applied, mg')"
    "b \<in> set (ld_bpf (mg_loader mg'))" "full_object b" "has_map b ''sock_block_map''"
    "policy_of b 7 = Some (from_policy demo_policy 0)" "mg_registered mg' = [\<lparr>cgroup_id = 7\<rparr>]"
proof (rule demo_applied)
  fix ld'
  assume u: "update_from_security_policy accept_all 7 demo_policy 0 demo_loader = (Done (), ld')"
    "apply_container_config demo_env ''security'' \<lparr>cgroup_id = 7\<rparr> demo_mg =
       (Applied, track_container demo_env ''security'' \<lparr>cgroup_id = 7\<rparr> (demo_mg\<lparr>mg_loader := ld'\<rparr>))"
    "\<exists>b \<in> set (ld_bpf ld'). full_object b"
  let ?mg' = "track_container demo_env ''security'' \<lparr>cgroup_id = 7\<rparr> (demo_mg\<lparr>mg_loader := ld'\<rparr>)"
  have t: "touches (rules_of 7) demo_loader ld'"
    using update_touches [of 7 accept_all demo_policy 0] u(1) by (metis step_touches_def snd_conv)
  then have l: "ld_loaded ld'" by (simp add: touches_def demo_loader_def)
  have len: "length (mg_sock_path demo_mg) < 256" by (simp add: demo_mg_def)
  from block_sock_Done [OF l len, of 7] obtain pat where
    "block_sock_access accept_all 7 (mg_sock_path demo_mg) ld' =
      (Done (), ld'\<lparr>ld_bpf := map (put_obj ''sock_block_map'' 7 (Some (MvSock \<lparr>sbe_path = pat\<rparr>))) (ld_bpf ld'),
                    ld_sock := (ld_sock ld')(7 \<mapsto> \<lparr>sbe_path = pat\<rparr>)\<rparr>)" by blast
  then have bpf: "ld_bpf (mg_loader ?mg') =
      map (put_obj ''sock_block_map'' 7 (Some (MvSock \<lparr>sbe_path = pat\<rparr>))) (ld_bpf ld')"
    by (simp add: track_loader demo_read_security(2) policy_block_sock_def demo_mg_def split: prod.split)
  from u(3) obtain b where b: "b \<in> set (ld_bpf ld')" "full_object b" by blast
  let ?b = "put_obj ''sock_block_map'' 7 (Some (MvSock \<lparr>sbe_path = pat\<rparr>)) b"
  from touched_pair [OF t b(1)] obtain b0 where "b0 \<in> set (ld_bpf demo_loader)" "obj_touched (rules_of 7) b0 b" .
  then have "ko_maps b ''sock_block_map'' \<noteq> None" by (simp add: obj_touched_def demo_loader_def demo_object_def)
  with b have full: "full_object ?b" "has_map ?b ''sock_block_map''"
    by (auto simp: full_object_def has_map_def put_obj_maps split: option.splits)
  have nf: "nul_free ''/''" "printable_fs demo_policy"
    by (simp_all add: nul_free_code printable_fs_def demo_policy_def)
  have "policy_of b 7 = Some (from_policy demo_policy 0)"
    by (rule check_fs_installed(1) [OF u(1) b nf(2)])
  then have "policy_of ?b 7 = Some (from_policy demo_policy 0)"
    by (simp add: policy_of_def restored_map_lookup)
  moreover have "?b \<in> set (ld_bpf (mg_loader ?mg'))" using bpf b(1) by simp
  moreover have "mg_registered ?mg' = [\<lparr>cgroup_id = 7\<rparr>]" by (simp add: track_container_def Let_def demo_mg_def)
  ultimately show ?thesis using full by (intro that [OF u(2)])
qed

lemma registered_container_is_confined_witness:
  "\<exists>mg' b. apply_container_config demo_env ''security'' \<lparr>cgroup_id = 7\<rparr> demo_mg = (Applied, mg') \<and>
     b \<in> set (ld_bpf (mg_loader mg')) \<and>
     fst (handle_file_open True b 7 1 (Some (demo_buffer ''/etc/passwd'')) 2) = - EACCES"
proof (rule demo_tracked)
  fix mg' b
  assume u: "apply_container_config demo_env ''security'' \<lparr>cgroup_id = 7\<rparr> demo_mg = (Applied, mg')"
    "b \<in> set (ld_bpf (mg_loader mg'))" "full_object b" "has_map b ''sock_block_map''"
  have perm: "fmode_to_perm 2 = 2" by (simp add: fmode_to_perm_def bpf_consts)
  have nf: "nul_free ''/etc/passwd''" "printable_fs demo_policy"
    by (simp_all add: nul_free_code printable_fs_def demo_policy_def)
  have clean: "path_buffer ''/etc/passwd'' (demo_buffer ''/etc/passwd'')" by (rule demo_path_buffer) simp
  then have opened: "readable_path ''/etc/passwd'' (Some (demo_buffer ''/etc/passwd''))"
    using nf(1) by (simp add: readable_path_def path_buffer_string)
  have denied: "fs_denied demo_policy ''/etc/passwd'' 2" "sp_enforcement_mode demo_policy = ''block''"
    by (simp_all add: fs_denied_def demo_policy_def rule_matches_def starts_with_def attrs_to_fs_perm_def bpf_consts)
  have "fst (handle_file_open True b (cgroup_id \<lparr>cgroup_id = 7\<rparr>) 1 (Some (demo_buffer ''/etc/passwd'')) 2) = - EACCES"
    using registered_container_is_confined [OF u(1) demo_read_security(1,3) u(2,3) nf(2) opened, of True 1 2]
      denied perm file_refused_clean [OF disjI1 [OF clean]] by simp
  with u show ?thesis by auto
qed

definition deaf_env :: "facade_state ctrl_env" where
  "deaf_env = demo_env\<lparr>ce_send := (\<lambda>_ p. (Inl ''connect'', p))\<rparr>"

lemma refused_configuration_restores_kernel_witness:
  "fst (apply_container_config deaf_env ''both'' \<lparr>cgroup_id = 7\<rparr> demo_mg) = ProxyRefused \<and>
   ld_bpf (mg_loader (snd (apply_container_config deaf_env ''both'' \<lparr>cgroup_id = 7\<rparr> demo_mg))) = [demo_object]"
proof (rule demo_updated)
  fix ld' b
  assume u: "update_from_security_policy accept_all 7 demo_policy 0 demo_loader = (Done (), ld')"
  have p: "ce_read deaf_env ''both'' = Some ''both''"
    "parse_security_policy (ce_toml deaf_env) ''both'' = Inr demo_policy"
    "parse_proxy_policy (ce_toml deaf_env) ''both'' = Inr (demo_filter ''allow'')"
    "parse_container_port (ce_toml deaf_env) ''both'' = Inr 0" "ce_accept deaf_env = accept_all"
    by (simp_all add: deaf_env_def demo_defs parse_security_policy_def parse_proxy_policy_def
        parse_container_port_def parse_toml_def demo_policy_def address_rule_def check_network_rule_def
        demo_filter_def demo_rule_set_def check_rule_set_def host_ok_def some_nonempty_def addr_host_def
        check_target_rule_def is_valid_action_def)
  have "register_kernel_policy deaf_env \<lparr>cgroup_id = 7\<rparr> (Some demo_policy) 0 demo_mg = (None, demo_mg\<lparr>mg_loader := ld'\<rparr>)"
    unfolding register_kernel_None
    by (intro exI [of _ ld']) (simp add: kernel_updated_def p(5), simp add: demo_mg_def u)
  then have r: "fst (apply_container_config deaf_env ''both'' \<lparr>cgroup_id = 7\<rparr> demo_mg) = ProxyRefused"
    by (simp add: apply_container_config_def p Let_def send_filter_config_to_proxy_def) (simp add: deaf_env_def)
  obtain mg' where "apply_container_config deaf_env ''both'' \<lparr>cgroup_id = 7\<rparr> demo_mg = (ProxyRefused, mg')"
    using r by (metis prod.collapse)
  with refused_configuration_restores_kernel [of demo_mg deaf_env "''both''" "\<lparr>cgroup_id = 7\<rparr>" ProxyRefused mg'] p(5)
  show ?thesis by (simp add: demo_mg_def demo_agrees) (simp add: demo_loader_def)
qed

lemma policies_arrive_without_rules_witness:
  "fst (apply_container_config demo_env ''proxy'' \<lparr>cgroup_id = 7\<rparr> demo_mg) = Applied \<and>
   held_policy (mg_peer (snd (apply_container_config demo_env ''proxy'' \<lparr>cgroup_id = 7\<rparr> demo_mg))) ''7'' =
     Some \<lparr>default_policy = PolicyAllow, rule_list = []\<rparr>"
proof -
  have p: "ce_read demo_env ''proxy'' = Some ''proxy''"
    "parse_proxy_policy (ce_toml demo_env) ''proxy'' = Inr (demo_filter ''allow'')"
    "ce_send demo_env = direct_send demo_proc" "container_as_key \<lparr>cgroup_id = 7\<rparr> = ''7''"
    by (simp_all add: demo_defs parse_proxy_policy_def parse_toml_def demo_filter_def demo_rule_set_def
        check_rule_set_def host_ok_def some_nonempty_def addr_host_def check_target_rule_def is_valid_action_def
        container_as_key_def) code_simp
  have "fst (apply_container_config demo_env ''proxy'' \<lparr>cgroup_id = 7\<rparr> demo_mg) = Applied"
    by code_simp
  then obtain mg' where a: "apply_container_config demo_env ''proxy'' \<lparr>cgroup_id = 7\<rparr> demo_mg = (Applied, mg')"
    by (metis prod.collapse)
  with policies_arrive_without_rules [OF a p(1-3)] p(4) show ?thesis
    by (simp add: demo_filter_def policy_named_def)
qed

section \<open>Registration, flows, leaving\<close>

definition demo_hook :: hook_env where
  "demo_hook =
     \<lparr>hk_var = [''AGENTSANDBOX_SOCK_PATH'' \<mapsto> ''/run/hc.sock'', ''AGENTSANDBOX_CONFIG_PATH'' \<mapsto> ''/nowhere''],
      hk_cgroup_file = Inr ''0::/agents/a1'', hk_inode = (\<lambda>_. Inr 7), hk_print = (\<lambda>_. ''register''),
      hk_parse = (\<lambda>_. Inr (JObject [(''status'', JString ''ok'')]))\<rparr>"

lemma failed_registration_starts_container_witness:
  "hook_main demo_hook (controller_link demo_env (\<lambda>_. Some (register_message_json \<lparr>cgroup_id = 7\<rparr> ''/nowhere'')))
     demo_mg = (0, demo_mg)"
proof (rule failed_registration_starts_container)
  show "read_cgroup_id demo_hook = Inr 7"
    by (simp add: demo_hook_def read_cgroup_id_def) code_simp
  show "ce_read demo_env ''/nowhere'' = None" by code_simp
qed (simp_all add: demo_hook_def)

lemma recorded_flow_is_resolved_witness:
  "fst (ebpf_resolve (\<lambda>_. handle_sockops 4 7 (sock_ops_v4 0x0A000002 40000 0x08080404 443) Map.empty) Map.empty
     (V4 0x0A000002, 40000) (V4 0x08080404, 443) (demo_loader\<lparr>ld_lookup := Some 0\<rparr>)) =
   Some \<lparr>ro_container_id = container_as_key \<lparr>cgroup_id = 7\<rparr>, ro_binary_path = []\<rparr>"
  using recorded_flow_is_resolved [of "(V4 0x0A000002, 40000)" "(V4 0x08080404, 443)"
      "sock_ops_v4 0x0A000002 40000 0x08080404 443"
      "\<lambda>_. handle_sockops 4 7 (sock_ops_v4 0x0A000002 40000 0x08080404 443) Map.empty" 0 7 Map.empty
      "demo_loader\<lparr>ld_lookup := Some 0\<rparr>" Map.empty]
  by simp

definition demo_two :: "facade_state management" where
  "demo_two = demo_mg\<lparr>mg_registered := [\<lparr>cgroup_id = 7\<rparr>, \<lparr>cgroup_id = 8\<rparr>],
     mg_configs := [(\<lparr>cgroup_id = 7\<rparr>, ''security''), (\<lparr>cgroup_id = 8\<rparr>, ''security'')],
     mg_watch := \<lparr>wi_paths = [(''security'', 1)], wi_started = True, wi_poisoned = False\<rparr>\<rparr>"

lemma unregistered_container_leaves_nothing_witness:
  "set (mg_registered (unregister_container demo_env \<lparr>cgroup_id = 7\<rparr> demo_two)) = set (mg_registered demo_two) - {\<lparr>cgroup_id = 7\<rparr>} \<and>
   held_policy (mg_peer (unregister_container demo_env \<lparr>cgroup_id = 7\<rparr> demo_two)) (container_as_key \<lparr>cgroup_id = 7\<rparr>) = None"
proof -
  have "ld_loaded (mg_loader demo_two)" "ce_send demo_env = direct_send demo_proc"
    "\<not> mg_registered_poisoned demo_two" "\<not> mg_configs_poisoned demo_two"
    by (simp_all add: demo_two_def demo_mg_def demo_env_def demo_loader_def)
  from unregistered_container_leaves_nothing [OF this, of _ "\<lparr>cgroup_id = 7\<rparr>"] show ?thesis by auto
qed

lemma unregistering_stops_a_shared_watch_witness:
  "map_of (mg_configs (unregister_container demo_env \<lparr>cgroup_id = 7\<rparr> demo_two)) \<lparr>cgroup_id = 8\<rparr> = Some ''security'' \<and>
   ''security'' \<notin> set (fst (check_changes (\<lambda>_. Some 2) rev
     (mg_watch (unregister_container demo_env \<lparr>cgroup_id = 7\<rparr> demo_two))))"
  by (rule unregistering_stops_a_shared_watch [of "\<lparr>cgroup_id = 7\<rparr>" "\<lparr>cgroup_id = 8\<rparr>"])
     (simp_all add: demo_two_def demo_mg_def)

lemma containers_are_isolated_witness:
  "list_all2 (same_decisions 8) [demo_object]
     (ld_bpf (mg_loader (ctrl_step (\<lambda>_. Some (JObject [(''msg_type'', JString ''register''),
        (''container_id'', container_id_json \<lparr>cgroup_id = 7\<rparr>), (''config_path'', JString ''security'')]))
       (demo_env, LifecycleMessage ''m'') demo_mg)))"
proof -
  let ?j = "JObject [(''msg_type'', JString ''register''), (''container_id'', container_id_json \<lparr>cgroup_id = 7\<rparr>),
    (''config_path'', JString ''security'')]"
  have "event_target (\<lambda>_. Some ?j) (demo_env, LifecycleMessage ''m'') demo_mg = Some \<lparr>cgroup_id = 7\<rparr>"
    by (simp add: parse_message_def wire)
  then have "list_all2 (same_decisions 8) (ld_bpf (mg_loader demo_mg))
      (ld_bpf (mg_loader (ctrl_step (\<lambda>_. Some ?j) (demo_env, LifecycleMessage ''m'') demo_mg)))"
    by (intro containers_are_isolated) (simp only: option.inject, auto)
  then show ?thesis by (simp add: demo_mg_def demo_loader_def)
qed

text \<open>A controller that starts, and a container that registers with a file without a security section.\<close>

definition demo_programs :: kobj where
  "demo_programs = demo_object\<lparr>ko_programs := [''handle_connect4'', ''handle_sockops'', ''handle_file_open'',
     ''handle_bprm_exec'', ''handle_unix_stream_connect'', ''handle_capable'']\<rparr>"

definition demo_boot :: boot_kernel where
  "demo_boot =
     \<lparr>bk_code = (\<lambda>_. [1]), bk_btf = Inr (), bk_load = (\<lambda>_. Inr demo_programs), bk_cgroup = Inr (),
      bk_attach = (\<lambda>_. Inr ()), bk_mkdir = True, bk_pin = True\<rparr>"

definition demo_started :: "facade_state management" where
  "demo_started = demo_mg\<lparr>mg_loader := ebpf_loader_new\<lparr>ld_bpf := replicate 4 demo_programs, ld_loaded := True,
     ld_proxy := Some \<lparr>bpc_proxy_ip = LOOPBACK_IP_BE, bpc_proxy_port = PROXY_PORT,
                       bpc_model_route_port = MODEL_ROUTE_LISTEN_PORT, bpc_container_ip = LOOPBACK_IP_BE\<rparr>\<rparr>\<rparr>"

lemma demo_starts:
  "management_new demo_boot Map.empty ''/run/hc.sock'' production_components = (Some (Inr demo_started), Map.empty)"
proof -
  have a: "attach_program demo_boot demo_programs name True = Inr ()" if "name \<in> set all_programs" for name
    using that by (auto simp: attach_program_def attach_prog_def demo_boot_def demo_programs_def all_programs_def)
  have k: "bk_code demo_boot n \<noteq> []" "bk_load demo_boot n = Inr demo_programs" "bk_btf demo_boot = Inr ()"
    "pin_lookup_map demo_boot demo_programs p = p" "ko_proxy demo_programs = None" for n p
    by (simp_all add: demo_boot_def demo_programs_def demo_object_def pin_lookup_map_def)
  have "load_each demo_boot True all_programs ([], Map.empty) = (Inr (), replicate 4 demo_programs, Map.empty)"
    using a by (simp add: all_programs_def k numeral_eq_Suc)
  moreover have lsm: "list_ex (\<lambda>n. n = ''capability'' \<or> n = ''filesystem'') all_programs" by (simp add: all_programs_def)
  ultimately have "load_programs demo_boot None (ebpf_loader_new, Map.empty) =
      (Done (), ebpf_loader_new\<lparr>ld_bpf := replicate 4 demo_programs, ld_loaded := True\<rparr>, Map.empty)"
    using lsm by (simp add: load_programs_def Let_def k ebpf_loader_new_def)
  then show ?thesis
    by (simp add: management_new_def outcome_error_def set_proxy_def Let_def monitor_start_def monitor_new_def
        demo_started_def demo_mg_def k ebpf_loader_new_def)
qed

lemma controller_socket_is_guarded_witness:
  "\<exists>mg b. mg = fold (ctrl_step (\<lambda>_. Some (register_message_json \<lparr>cgroup_id = 7\<rparr> ''proxy'')))
       [(demo_env, LifecycleMessage ''m'')] demo_started \<and> b \<in> set (ld_bpf (mg_loader mg)) \<and>
     fst (handle_unix_stream_connect True b 7 1 (Some (demo_buffer ''/run/hc.sock''))) = - EACCES"
proof -
  let ?f = "\<lambda>_ :: string. Some (register_message_json \<lparr>cgroup_id = 7\<rparr> ''proxy'')"
  let ?evs = "[(demo_env, LifecycleMessage ''m'')]"
  let ?mg = "fold (ctrl_step ?f) ?evs demo_started"
  have p: "parse_message ?f ''m'' =
      Some \<lparr>cm_action = Register, cm_container_id = \<lparr>cgroup_id = 7\<rparr>, cm_config_path = Some ''proxy''\<rparr>"
    by (simp add: parse_message_def register_message_json_def wire)
  have "fst (apply_container_config demo_env ''proxy'' \<lparr>cgroup_id = 7\<rparr> demo_started) = Applied" by code_simp
  then obtain mg' where a: "apply_container_config demo_env ''proxy'' \<lparr>cgroup_id = 7\<rparr> demo_started = (Applied, mg')"
    by (metis prod.collapse)
  with p have mg: "?mg = mg'" by (simp add: handle_lifecycle_def)
  have sp: "parse_security_policy (ce_toml demo_env) ''proxy'' = Inl (MissingField ''security'')"
    "ce_read demo_env ''proxy'' = Some ''proxy''" "ce_accept demo_env = accept_all"
    by (simp_all add: demo_defs parse_security_policy_def parse_toml_def)
  from a obtain q where q: "mg' = track_container demo_env ''proxy'' \<lparr>cgroup_id = 7\<rparr>
      (demo_started\<lparr>mg_loader := mg_loader demo_started, mg_peer := q\<rparr>)"
    by (cases rule: apply_container_config_cases)
       (auto simp: sp kernel_updated_def register_kernel_policy_def split: option.splits prod.splits sum.splits)
  have reg: "\<lparr>cgroup_id = 7\<rparr> \<in> set (mg_registered ?mg)" unfolding mg q by (simp add: track_container_def Let_def)
  let ?b = "put_obj ''sock_block_map'' 7 (Some (MvSock \<lparr>sbe_path = the (fill_path ''/run/hc.sock'')\<rparr>)) demo_programs"
  have l: "ld_loaded (mg_loader demo_started)" "length (mg_sock_path demo_started) < 256"
    "mg_sock_path demo_started = ''/run/hc.sock''"
    by (simp_all add: demo_started_def demo_mg_def)
  have pb: "snd (policy_block_sock accept_all 7 path ld) = snd (block_sock_access accept_all 7 path ld)" for path ld
    by (simp add: policy_block_sock_def split: prod.split)
  have mem: "demo_programs \<in> set (ld_bpf (mg_loader demo_started))" by (simp add: demo_started_def)
  from block_sock_Done [OF l(1,2), of 7] have "ld_bpf (snd (block_sock_access accept_all 7 ''/run/hc.sock'' (mg_loader demo_started)))
      = map (put_obj ''sock_block_map'' 7 (Some (MvSock \<lparr>sbe_path = the (fill_path ''/run/hc.sock'')\<rparr>)))
          (ld_bpf (mg_loader demo_started))"
    unfolding l(3) by auto
  then have "?b \<in> set (ld_bpf (mg_loader ?mg))"
    unfolding mg q by (simp add: track_loader sp l(3) pb mem)
  moreover have "policy_of ?b 7 = None"
    by (simp add: policy_of_def put_obj_lookup) (simp add: map_lookup_def demo_programs_def demo_object_def)
  moreover have "nul_free ''/run/hc.sock''" by (simp add: nul_free_code)
  moreover have "fresh_kernel demo_boot"
    by (simp add: fresh_kernel_def no_sock_entries_def demo_boot_def demo_programs_def demo_object_def)
  moreover have "list_all (\<lambda>ee. ce_accept (fst ee) = accept_all) ?evs" by (simp add: sp)
  ultimately have "fst (handle_unix_stream_connect True ?b (cgroup_id \<lparr>cgroup_id = 7\<rparr>) 1 (Some (demo_buffer ''/run/hc.sock''))) = - EACCES"
    using controller_socket_is_guarded [OF demo_starts, of ?evs ?mg ?f ?b "''/run/hc.sock''" "demo_buffer ''/run/hc.sock''"
        True "\<lparr>cgroup_id = 7\<rparr>" 1] reg demo_path_buffer [of "''/run/hc.sock''"] by simp
  with \<open>?b \<in> set (ld_bpf (mg_loader ?mg))\<close> show ?thesis by auto
qed

end
