(* ===== verification/Mitm.thy ===== *)
theory Mitm
  imports ServerPipeline
begin

text \<open>
  The TLS termination of the proxy (\<^verbatim>\<open>proxy/src/mitm/mod.rs\<close>): the certificate resolver that rustls
  calls once it has the ClientHello, and the context read after the handshake.  rustls is the
  parameters \<open>sign\<close>, which builds a signer from a leaf key, and \<open>finish\<close>, which runs the rest of the
  handshake with the chosen key and the offered protocols: the negotiated protocol, or \<open>None\<close> when it
  fails.  The last section is the other side, the trust anchors of outbound connections (\<^verbatim>\<open>facade/mod.rs\<close>).
\<close>

record mitm_context =
  mh_sni :: string
  mh_alpn :: "bytes option"

record certified_key =
  ck_chain :: "bytes list"
  ck_signer :: bytes

datatype mitm_error = CaMissing | NoSni | CertIssue | HandshakeFailed

fun mitm_error_string :: "mitm_error \<Rightarrow> string" where
  "mitm_error_string CaMissing = ''ca_error''"
| "mitm_error_string NoSni = ''config_not_found''"
| "mitm_error_string CertIssue = ''cert_error''"
| "mitm_error_string HandshakeFailed = ''tls_handshake_failed''"

definition build_certified_key :: "(bytes \<Rightarrow> bytes option) \<Rightarrow> issued_cert \<Rightarrow> certified_key option" where
  "build_certified_key sign issued =
     (case sign (ic_key issued) of
        None \<Rightarrow> None
      | Some signer \<Rightarrow> Some \<lparr>ck_chain = ic_chain issued, ck_signer = signer\<rparr>)"

text \<open>
  \<open>SniResolvingCert::resolve\<close>: \<open>slot\<close> is the captured name of this connection, \<open>certificate_for\<close> what
  the certificate service answers.
\<close>

definition resolve_sni ::
  "(bytes \<Rightarrow> bytes option) \<Rightarrow> (string \<Rightarrow> cert_error + issued_cert) \<Rightarrow> string option \<Rightarrow> string option \<Rightarrow>
     certified_key option \<times> string option" where
  "resolve_sni sign certificate_for server_name slot =
     (case server_name of
        None \<Rightarrow> (None, slot)
      | Some sni \<Rightarrow>
          (case certificate_for sni of
             Inl _ \<Rightarrow> (None, slot)
           | Inr issued \<Rightarrow> (build_certified_key sign issued, Some sni)))"

text \<open>The protocols of \<open>server_config\<close>, most preferred first.\<close>

definition mitm_alpn :: "bytes list" where
  "mitm_alpn = [[104, 50], [104, 116, 116, 112, 47, 49, 46, 49]]"

definition precheck_ca :: "cert_service \<Rightarrow> mitm_error + unit" where
  "precheck_ca s = (if has_ca s then Inr () else Inl CaMissing)"

definition handshake_context :: "string option \<Rightarrow> bytes option \<Rightarrow> mitm_error + mitm_context" where
  "handshake_context slot alpn =
     (case slot of None \<Rightarrow> Inl NoSni | Some sni \<Rightarrow> Inr \<lparr>mh_sni = sni, mh_alpn = alpn\<rparr>)"

text \<open>The handshake of one connection in \<open>serve_tls\<close>: a fresh slot, the resolver, the rest, the context.\<close>

definition mitm_accept ::
  "(bytes \<Rightarrow> bytes option) \<Rightarrow> (string \<Rightarrow> cert_error + issued_cert) \<Rightarrow>
     (certified_key \<Rightarrow> bytes list \<Rightarrow> bytes option option) \<Rightarrow> string option \<Rightarrow>
     mitm_error + (mitm_context \<times> certified_key)" where
  "mitm_accept sign certificate_for finish server_name =
     (case resolve_sni sign certificate_for server_name None of
        (None, _) \<Rightarrow> Inl HandshakeFailed
      | (Some key, slot) \<Rightarrow>
          (case finish key mitm_alpn of
             None \<Rightarrow> Inl HandshakeFailed
           | Some alpn \<Rightarrow> rbind (handshake_context slot alpn) (\<lambda>h. Inr (h, key))))"

text \<open>As \<open>serve_tls\<close> sees it: the name a successful handshake captured.\<close>

definition mitm_sni_of ::
  "(bytes \<Rightarrow> bytes option) \<Rightarrow> (cert_service \<Rightarrow> string \<Rightarrow> cert_error + issued_cert) \<Rightarrow>
     (certified_key \<Rightarrow> bytes list \<Rightarrow> bytes option option) \<Rightarrow> string option \<Rightarrow> cert_service \<Rightarrow> string option" where
  "mitm_sni_of sign certificate_for finish server_name svc =
     (case mitm_accept sign (certificate_for svc) finish server_name of
        Inl _ \<Rightarrow> None | Inr (h, _) \<Rightarrow> Some (mh_sni h))"

section \<open>Name and certificate belong together\<close>

lemma mitm_accept_Inr:
  "mitm_accept sign certificate_for finish server_name = Inr (h, key) \<longleftrightarrow>
     (\<exists>issued signer alpn. server_name = Some (mh_sni h) \<and> certificate_for (mh_sni h) = Inr issued \<and>
        sign (ic_key issued) = Some signer \<and> key = \<lparr>ck_chain = ic_chain issued, ck_signer = signer\<rparr> \<and>
        finish key mitm_alpn = Some alpn \<and> h = \<lparr>mh_sni = mh_sni h, mh_alpn = alpn\<rparr>)"
  by (auto simp: mitm_accept_def resolve_sni_def build_certified_key_def handshake_context_def rbind_def
      split: option.splits sum.splits)

lemma returned_is_issued:
  assumes "length (ca_history (cert_run pk capacity evs)) < 2 ^ 64"
    and "svc_calls (cert_run pk capacity evs) t = Some (Returned d (Inr c))"
  shows "\<exists>ca \<in> set (ca_history (cert_run pk capacity evs)). issued_for pk ca d c"
proof -
  have "service_inv pk (cert_run pk capacity evs)"
    unfolding cert_run_def by (rule cert_run_inv [OF service_inv_new]) (use assms(1) in \<open>simp add: cert_run_def\<close>)
  then have "svc_calls (cert_run pk capacity evs) t = Some p \<Longrightarrow> phase_ok pk (cert_run pk capacity evs) p" for p
    by (simp add: service_inv_def)
  from this [OF assms(2)] show ?thesis by simp
qed

text \<open>
  C39. A connection that is terminated is served under the name for which it was shown a certificate:
  the domain that the policy is evaluated on and that is audited is the server name of the
  ClientHello, and the chain and key presented were issued for exactly this name by a CA that was set
  for the container, in any interleaving with other connections and CA replacements.
\<close>

theorem terminated_connection_is_certified:
  assumes "sc_cert_services ctx cid = Some svc"
    and "length (ca_history (cert_run pk capacity evs)) < 2 ^ 64"
    and "\<And>d c. certificate_for svc d = Inr c \<Longrightarrow>
          \<exists>t. svc_calls (cert_run pk capacity evs) t = Some (Returned d (Inr c))"
    and "serve_tls (mitm_sni_of sign certificate_for finish server_name) ctx peer cid bin = Some conn"
  shows "\<exists>sni h key c. \<exists>ca \<in> set (ca_history (cert_run pk capacity evs)).
    server_name = Some sni \<and> cc_sni conn = Some sni \<and>
    mitm_accept sign (certificate_for svc) finish server_name = Inr (h, key) \<and>
    issued_for pk ca sni c \<and> ck_chain key = ic_chain c \<and> sign (ic_key c) = Some (ck_signer key)"
proof (cases "mitm_accept sign (certificate_for svc) finish server_name")
  case (Inl e)
  with assms(1,4) show ?thesis by (simp add: serve_tls_def mitm_sni_of_def)
next
  case (Inr hk)
  obtain h key where hk: "hk = (h, key)" by fastforce
  note acc = Inr [unfolded hk]
  then obtain issued where i: "server_name = Some (mh_sni h)" "certificate_for svc (mh_sni h) = Inr issued"
    "ck_chain key = ic_chain issued" "sign (ic_key issued) = Some (ck_signer key)"
    by (auto simp: mitm_accept_Inr)
  from assms(3) [OF i(2)] returned_is_issued [OF assms(2)] obtain ca where
    ca: "ca \<in> set (ca_history (cert_run pk capacity evs))" "issued_for pk ca (mh_sni h) issued" by blast
  have "cc_sni conn = Some (mh_sni h)"
    using assms(1,4) acc by (auto simp: serve_tls_def mitm_sni_of_def)
  with acc i ca show ?thesis by blast
qed

definition demo_answers :: "cert_service \<Rightarrow> string \<Rightarrow> cert_error + issued_cert" where
  "demo_answers svc d =
     (if d = ''a.com'' then Inr \<lparr>ic_chain = [[7, 1], [1]], ic_key = [7]\<rparr> else Inl CertError)"

definition demo_mitm_ctx :: serve_context where
  "demo_mitm_ctx = serve_context_new registry_new (\<lambda>_. Some (cert_service_new 4))"

lemma terminated_connection_is_certified_witness:
  "\<exists>c ca. issued_for demo_pki ca ''a.com'' c \<and> ic_chain c = [[7, 1], [1]]"
proof -
  let ?run = "cert_run demo_pki 4 demo_cert_events" and ?svc = "cert_service_new 4"
  let ?sni = "mitm_sni_of Some demo_answers (\<lambda>_ ps. Some (Some (hd ps))) (Some ''a.com'')"
  have len: "length (ca_history ?run) < 2 ^ 64"
  proof -
    have "length (ca_history ?run) = 2" by code_simp
    then show ?thesis by simp
  qed
  have ctx: "sc_cert_services demo_mitm_ctx ''c1'' = Some ?svc" by (simp add: demo_mitm_ctx_def serve_context_new_def)
  have "svc_calls ?run 0 = Some (Returned ''a.com'' (Inr \<lparr>ic_chain = [[7, 1], [1]], ic_key = [7]\<rparr>))" by code_simp
  then have answers: "\<exists>t. svc_calls ?run t = Some (Returned d (Inr c))" if "demo_answers ?svc d = Inr c" for d c
    using that by (intro exI [of _ 0]) (simp add: demo_answers_def split: if_splits)
  have acc: "mitm_accept Some (demo_answers ?svc) (\<lambda>_ ps. Some (Some (hd ps))) (Some ''a.com'') =
      Inr (\<lparr>mh_sni = ''a.com'', mh_alpn = Some (hd mitm_alpn)\<rparr>, \<lparr>ck_chain = [[7, 1], [1]], ck_signer = [7]\<rparr>)"
    by (simp add: mitm_accept_def resolve_sni_def demo_answers_def build_certified_key_def handshake_context_def)
  then have conn: "serve_tls ?sni demo_mitm_ctx (V4 0x7F000001, 40000) ''c1'' None = Some
      \<lparr>cc_container_id = ''c1'', cc_binary_path = None, cc_sni = Some ''a.com'', cc_plaintext = False,
       cc_peer = (V4 0x7F000001, 40000)\<rparr>"
    by (simp add: serve_tls_def ctx mitm_sni_of_def)
  from terminated_connection_is_certified [where certificate_for = demo_answers, OF ctx len answers conn] acc
  show ?thesis by auto
qed

section \<open>Trust anchors of outbound connections\<close>

definition root_bundle_paths :: "string list" where
  "root_bundle_paths =
     [''/etc/ssl/certs/ca-certificates.crt'', ''/etc/pki/tls/certs/ca-bundle.crt'', ''/etc/ssl/ca-bundle.pem'']"

text \<open>
  \<open>rustls_native_roots\<close>: \<open>read\<close> a bundle, \<open>pem\<close> its certificates with the broken ones as errors, \<open>accepted\<close>
  what the root store takes.  The roots are the certificates taken, in order.
\<close>

fun native_roots_loop ::
  "(string \<Rightarrow> bytes option) \<Rightarrow> (bytes \<Rightarrow> (unit + bytes) list) \<Rightarrow> (bytes \<Rightarrow> bool) \<Rightarrow> string list \<Rightarrow> nat \<Rightarrow>
     bytes list \<Rightarrow> (string + nat) \<times> bytes list" where
  "native_roots_loop read pem accepted [] n roots = (Inl ''no system root store found'', roots)"
| "native_roots_loop read pem accepted (path # paths) n roots =
     (case read path of
        None \<Rightarrow> native_roots_loop read pem accepted paths n roots
      | Some buf \<Rightarrow>
          let new = filter accepted (List.map_filter (\<lambda>r. case r of Inl _ \<Rightarrow> None | Inr c \<Rightarrow> Some c) (pem buf));
              m = n + length new
          in if m > 0 then (Inr m, roots @ new)
             else native_roots_loop read pem accepted paths m (roots @ new))"

definition load_system_roots ::
  "(string \<Rightarrow> bytes option) \<Rightarrow> (bytes \<Rightarrow> (unit + bytes) list) \<Rightarrow> (bytes \<Rightarrow> bool) \<Rightarrow> (string + unit) \<times> bytes list" where
  "load_system_roots read pem accepted =
     (case native_roots_loop read pem accepted root_bundle_paths 0 [] of
        (Inl e, roots) \<Rightarrow> (Inl e, roots) | (Inr _, roots) \<Rightarrow> (Inr (), roots))"

lemma native_roots_one_bundle:
  "snd (native_roots_loop read pem accepted paths 0 []) =
     (case List.find (\<lambda>new. new \<noteq> []) (map (\<lambda>path. case read path of
          None \<Rightarrow> []
        | Some buf \<Rightarrow> filter accepted (List.map_filter (\<lambda>r. case r of Inl _ \<Rightarrow> None | Inr c \<Rightarrow> Some c) (pem buf))) paths)
      of None \<Rightarrow> [] | Some new \<Rightarrow> new)"
  by (induction paths) (auto simp: Let_def split: option.split)

text \<open>
  The anchors are the usable certificates of the first bundle that has any; there is an error exactly
  when there are none, and then no target with a certificate is trusted.
\<close>

lemma system_roots_come_from_one_bundle:
  "(fst (load_system_roots read pem accepted) = Inr ()) = (snd (load_system_roots read pem accepted) \<noteq> [])"
proof -
  have "(case native_roots_loop read pem accepted paths 0 [] of (Inl e, roots) \<Rightarrow> roots = [] | (Inr k, roots) \<Rightarrow> roots \<noteq> [])"
    for paths by (induction paths) (auto simp: Let_def split: option.split)
  from this [of root_bundle_paths] show ?thesis
    by (auto simp: load_system_roots_def split: prod.splits sum.splits)
qed

end
