(* ===== verification/Certs.thy ===== *)
theory Certs
  imports TR_Prelude
begin

text \<open>
  \<^verbatim>\<open>rust/framework/src/cert/mod.rs\<close>: loading certificates, keys and revocation lists from
  validated paths, checking a revocation list, and reading the extensions the services rely on.

  OpenSSL and the file system are parameters.  Certificates, keys, revocation lists and CMS
  messages are opaque OpenSSL objects, named by numbers as a pointer names them; the record
  \<open>ossl\<close> holds the library functions the sources call on them.  The fields for CMS are used by the
  signing plugin; \<open>chain_events\<close> is the sequence of calls of the verification callback with its
  arguments (whether this step succeeded, the error code, the depth in the chain).
\<close>

section \<open>The library\<close>

type_synonym x509 = nat
type_synonym x509_crl = nat
type_synonym pkey = nat
type_synonym cms = nat
type_synonym asn1_time = int

datatype curve = P256 | OtherCurve
datatype digest = Sha256 | OtherDigest

record ossl =
  x509_from_pem :: "bytes \<Rightarrow> x509 option"
  x509_from_der :: "bytes \<Rightarrow> x509 option"
  key_from_pem :: "bytes \<Rightarrow> pkey option"
  key_from_der :: "bytes \<Rightarrow> pkey option"
  key_from_pem_passphrase :: "bytes \<Rightarrow> string \<Rightarrow> pkey option"
  key_from_pkcs8_passphrase :: "bytes \<Rightarrow> string \<Rightarrow> pkey option"
  crl_from_pem :: "bytes \<Rightarrow> x509_crl option"
  crl_from_der :: "bytes \<Rightarrow> x509_crl option"
  crl_next_update :: "x509_crl \<Rightarrow> asn1_time option"
  crl_verify :: "x509_crl \<Rightarrow> pkey \<Rightarrow> bool option"
  crl_issuer_eq :: "x509_crl \<Rightarrow> x509 \<Rightarrow> bool option"
  crl_revoked :: "x509_crl \<Rightarrow> int list option"
  current_time :: "asn1_time option"
  not_after :: "x509 \<Rightarrow> asn1_time"
  not_before :: "x509 \<Rightarrow> asn1_time"
  serial_number :: "x509 \<Rightarrow> int"
  subject_key_id :: "x509 \<Rightarrow> bytes option"
  public_key :: "x509 \<Rightarrow> pkey option"
  public_key_pem :: "pkey \<Rightarrow> bytes option"
  is_ec :: "pkey \<Rightarrow> bool"
  ec_curve :: "pkey \<Rightarrow> curve option"
  key_usage_ext :: "x509 \<Rightarrow> bytes option"
  ext_key_usage_ext :: "x509 \<Rightarrow> string option list option"
  store_accepts :: "x509 \<Rightarrow> bool"
  cms_from_der :: "bytes \<Rightarrow> cms option"
  chain_events :: "cms \<Rightarrow> x509 \<Rightarrow> (bool \<times> int \<times> int) list"
  cms_signature_ok :: "cms \<Rightarrow> bytes \<Rightarrow> bool"
  cms_signers :: "cms \<Rightarrow> x509 option list option"
  cms_certs :: "cms \<Rightarrow> x509 option list option"
  cms_digest :: "cms \<Rightarrow> digest option"
  cms_sign_der :: "x509 \<Rightarrow> pkey \<Rightarrow> bytes \<Rightarrow> bytes option"
  err_peek_error :: u64

record file_system =
  is_symlink :: "string \<Rightarrow> bool"
  canonicalize :: "string \<Rightarrow> string option"
  read_file :: "string \<Rightarrow> bytes option"

section \<open>Paths\<close>

datatype cert_load_error =
  IoErr | OpenSslErr | InvalidFormat | SecurityErr string | CrlVerificationErr string

definition ALLOWED_CERT_DIRS :: "string list" where
  "ALLOWED_CERT_DIRS = [''/etc/cert/'']"

text \<open>\<open>Path::to_str\<close>: the path when it is well-formed UTF-8.\<close>

definition path_to_str :: "string \<Rightarrow> string option" where
  "path_to_str p = (if utf8_lossy p = p then Some p else None)"

definition validate_cert_path :: "bool \<Rightarrow> file_system \<Rightarrow> string \<Rightarrow> cert_load_error + string" where
  "validate_cert_path debug fs path =
     (if debug then (case canonicalize fs path of None \<Rightarrow> Inl IoErr | Some c \<Rightarrow> Inr c)
      else if is_symlink fs path then Inl (SecurityErr ''symlink not allowed'')
      else case canonicalize fs path of
        None \<Rightarrow> Inl IoErr
      | Some canonical \<Rightarrow>
          (case path_to_str canonical of
             None \<Rightarrow> Inl (SecurityErr ''invalid path encoding'')
           | Some s \<Rightarrow>
               if \<not> list_ex (\<lambda>dir. starts_with s dir) ALLOWED_CERT_DIRS
               then Inl (SecurityErr ''path outside allowed dirs'')
               else Inr canonical))"

definition read_validated :: "bool \<Rightarrow> file_system \<Rightarrow> string \<Rightarrow> cert_load_error + bytes" where
  "read_validated debug fs path =
     rbind (validate_cert_path debug fs path)
       (\<lambda>p. case read_file fs p of None \<Rightarrow> Inl IoErr | Some d \<Rightarrow> Inr d)"

section \<open>Loading\<close>

definition opt_or_else :: "'a option \<Rightarrow> 'a option \<Rightarrow> 'e \<Rightarrow> 'e + 'a" where
  "opt_or_else a b e = (case a of Some x \<Rightarrow> Inr x | None \<Rightarrow> (case b of Some x \<Rightarrow> Inr x | None \<Rightarrow> Inl e))"

definition load_x509 :: "ossl \<Rightarrow> bool \<Rightarrow> file_system \<Rightarrow> string \<Rightarrow> cert_load_error + x509" where
  "load_x509 lib debug fs path =
     rbind (read_validated debug fs path)
       (\<lambda>d. opt_or_else (x509_from_pem lib d) (x509_from_der lib d) InvalidFormat)"

definition load_private_key ::
  "ossl \<Rightarrow> bool \<Rightarrow> file_system \<Rightarrow> string \<Rightarrow> string option \<Rightarrow> cert_load_error + pkey" where
  "load_private_key lib debug fs path password =
     rbind (read_validated debug fs path)
       (\<lambda>d. case password of
          Some pass \<Rightarrow>
            opt_or_else (key_from_pem_passphrase lib d pass) (key_from_pkcs8_passphrase lib d pass)
              OpenSslErr
        | None \<Rightarrow> opt_or_else (key_from_pem lib d) (key_from_der lib d) InvalidFormat)"

definition load_crl :: "ossl \<Rightarrow> bool \<Rightarrow> file_system \<Rightarrow> string \<Rightarrow> cert_load_error + x509_crl" where
  "load_crl lib debug fs path =
     rbind (read_validated debug fs path)
       (\<lambda>d. opt_or_else (crl_from_pem lib d) (crl_from_der lib d) InvalidFormat)"

section \<open>Validity\<close>

definition is_crl_expired :: "ossl \<Rightarrow> x509_crl \<Rightarrow> bool" where
  "is_crl_expired lib crl =
     (case crl_next_update lib crl of
        Some next \<Rightarrow> (case current_time lib of Some now \<Rightarrow> next < now | None \<Rightarrow> True)
      | None \<Rightarrow> False)"

definition is_expired :: "ossl \<Rightarrow> x509 \<Rightarrow> bool" where
  "is_expired lib cert =
     (case current_time lib of Some now \<Rightarrow> not_after lib cert < now | None \<Rightarrow> True)"

definition is_not_yet_valid :: "ossl \<Rightarrow> x509 \<Rightarrow> bool" where
  "is_not_yet_valid lib cert =
     (case current_time lib of Some now \<Rightarrow> not_before lib cert > now | None \<Rightarrow> True)"

definition verify_crl :: "ossl \<Rightarrow> x509_crl \<Rightarrow> x509 \<Rightarrow> cert_load_error + unit" where
  "verify_crl lib crl ca_cert =
     (case public_key lib ca_cert of
        None \<Rightarrow> Inl (CrlVerificationErr ''failed to get CA public key'')
      | Some ca_pubkey \<Rightarrow>
          (case crl_verify lib crl ca_pubkey of
             None \<Rightarrow> Inl (CrlVerificationErr ''CRL signature verification failed'')
           | Some False \<Rightarrow> Inl (CrlVerificationErr ''CRL signature is invalid'')
           | Some True \<Rightarrow>
               (case crl_issuer_eq lib crl ca_cert of
                  Some True \<Rightarrow>
                    if is_crl_expired lib crl then Inl (CrlVerificationErr ''CRL has expired'')
                    else Inr ()
                | Some False \<Rightarrow>
                    Inl (CrlVerificationErr ''CRL issuer does not match CA certificate subject'')
                | None \<Rightarrow> Inl (CrlVerificationErr ''failed to compare issuer names''))))"

definition load_and_verify_crl ::
  "ossl \<Rightarrow> bool \<Rightarrow> file_system \<Rightarrow> string \<Rightarrow> x509 \<Rightarrow> cert_load_error + x509_crl" where
  "load_and_verify_crl lib debug fs crl_path ca_cert =
     rbind (load_crl lib debug fs crl_path)
       (\<lambda>crl. rbind (verify_crl lib crl ca_cert) (\<lambda>_. Inr crl))"

section \<open>Extensions\<close>

definition extract_subject_key_id :: "ossl \<Rightarrow> x509 \<Rightarrow> cert_load_error + bytes" where
  "extract_subject_key_id lib cert =
     (case subject_key_id lib cert of Some ski \<Rightarrow> Inr ski | None \<Rightarrow> Inl InvalidFormat)"

definition DIGITAL_SIGNATURE :: u32 where "DIGITAL_SIGNATURE = 0x80"
definition KEY_ENCIPHERMENT :: u32 where "KEY_ENCIPHERMENT = 0x20"
definition DECIPHER_ONLY :: u32 where "DECIPHER_ONLY = 0x8000"

definition extract_key_usage_flags :: "ossl \<Rightarrow> x509 \<Rightarrow> cert_load_error + u32" where
  "extract_key_usage_flags lib cert =
     (case key_usage_ext lib cert of
        None \<Rightarrow> Inl InvalidFormat
      | Some usage_bytes \<Rightarrow>
          if usage_bytes = [] then Inl InvalidFormat
          else if length usage_bytes > 1 then Inl InvalidFormat
          else Inr (ucast (hd usage_bytes)))"

unbundle bit_operations_syntax

definition check_key_usage_contains :: "ossl \<Rightarrow> x509 \<Rightarrow> u32 \<Rightarrow> cert_load_error + unit" where
  "check_key_usage_contains lib cert required =
     rbind (extract_key_usage_flags lib cert)
       (\<lambda>actual. if actual AND required \<noteq> required then Inl InvalidFormat else Inr ())"

definition check_key_usage_exact :: "ossl \<Rightarrow> x509 \<Rightarrow> u32 \<Rightarrow> cert_load_error + unit" where
  "check_key_usage_exact lib cert required =
     rbind (extract_key_usage_flags lib cert)
       (\<lambda>actual. if actual \<noteq> required then Inl InvalidFormat else Inr ())"

definition OID_MAPPINGS :: "(string \<times> string \<times> string) list" where
  "OID_MAPPINGS =
     [(''serverAuth'', ''TLS Web Server Authentication'', ''1.3.6.1.5.5.7.3.1''),
      (''clientAuth'', ''TLS Web Client Authentication'', ''1.3.6.1.5.5.7.3.2'')]"

definition get_oid_aliases :: "string \<Rightarrow> string list" where
  "get_oid_aliases required =
     foldl (\<lambda>aliases (short, long, oid).
        if short = required then aliases @ [long, oid]
        else if long = required then aliases @ [short, oid]
        else if oid = required then aliases @ [short, long]
        else aliases) [required] OID_MAPPINGS"

text \<open>The texts of the stack's objects; a null element or an empty text is skipped.\<close>

definition extract_eku_oids :: "string option list \<Rightarrow> string list" where
  "extract_eku_oids eku =
     List.map_filter (\<lambda>obj. case obj of Some t \<Rightarrow> if t = [] then None else Some t | None \<Rightarrow> None) eku"

definition check_extended_key_usage :: "ossl \<Rightarrow> x509 \<Rightarrow> string \<Rightarrow> cert_load_error + unit" where
  "check_extended_key_usage lib cert required =
     (case ext_key_usage_ext lib cert of
        None \<Rightarrow> Inl InvalidFormat
      | Some eku \<Rightarrow>
          if list_ex (\<lambda>oid. List.member (get_oid_aliases required) oid) (extract_eku_oids eku)
          then Inr () else Inl InvalidFormat)"

section \<open>Lemmas\<close>

lemma opt_or_else_Inr:
  "opt_or_else a b e = Inr x \<longleftrightarrow> a = Some x \<or> a = None \<and> b = Some x"
  by (auto simp: opt_or_else_def split: option.splits)

lemma validate_cert_path_release:
  "validate_cert_path False fs path = Inr p \<longleftrightarrow>
     \<not> is_symlink fs path \<and> canonicalize fs path = Some p \<and> utf8_lossy p = p \<and>
     starts_with p ''/etc/cert/''"
  by (auto simp: validate_cert_path_def path_to_str_def ALLOWED_CERT_DIRS_def split: option.splits if_splits)

lemma read_validated_release:
  "read_validated False fs path = Inr d \<longleftrightarrow>
     (\<exists>p. \<not> is_symlink fs path \<and> canonicalize fs path = Some p \<and> utf8_lossy p = p \<and>
        starts_with p ''/etc/cert/'' \<and> read_file fs p = Some d)"
  by (auto simp: read_validated_def rbind_eq_Inr validate_cert_path_release split: option.splits)

lemma extract_key_usage_flags_Inr:
  "extract_key_usage_flags lib cert = Inr f \<longleftrightarrow>
     (\<exists>b. key_usage_ext lib cert = Some [b] \<and> f = ucast b)"
proof -
  have "(\<exists>b. us = [b] \<and> f = ucast b) \<longleftrightarrow> us \<noteq> [] \<and> \<not> length us > 1 \<and> f = ucast (hd us)" for us :: bytes
    by (cases us) auto
  then show ?thesis
    by (auto simp: extract_key_usage_flags_def split: option.splits if_splits)
qed

lemma ucast_u8_eq: "(ucast (b :: u8) :: u32) = 0x80 \<longleftrightarrow> b = 0x80"
proof -
  have "uint b < 2 ^ 8" using uint_bounded [of b] by simp
  then have "take_bit 32 (uint b) = uint b" by (simp add: take_bit_int_eq_self)
  then have "uint (ucast b :: u32) = uint b" by (simp add: unsigned_ucast_eq)
  then show ?thesis by (auto simp: word_uint_eq_iff)
qed

lemma key_usage_exact_signature:
  "extract_key_usage_flags lib cert = Inr DIGITAL_SIGNATURE \<longleftrightarrow> key_usage_ext lib cert = Some [0x80]"
  by (auto simp: extract_key_usage_flags_Inr DIGITAL_SIGNATURE_def ucast_u8_eq [symmetric] dest: sym)

lemma verify_crl_Inr:
  "verify_crl lib crl ca = Inr () \<longleftrightarrow>
     (\<exists>k. public_key lib ca = Some k \<and> crl_verify lib crl k = Some True) \<and>
     crl_issuer_eq lib crl ca = Some True \<and> \<not> is_crl_expired lib crl"
  by (auto simp: verify_crl_def split: option.splits bool.splits if_splits)

section \<open>A concrete library\<close>

text \<open>
  One certificate (1, key 1, id \<open>[7]\<close>) and one peer's message: the DER bytes \<open>[1]\<close>, signed by
  certificate 2 over the text \<open>a\<close> followed by the id \<open>[9]\<close>.
\<close>

definition demo_ossl :: ossl where
  "demo_ossl =
     \<lparr>x509_from_pem = (\<lambda>_. Some 1), x509_from_der = (\<lambda>_. None), key_from_pem = (\<lambda>_. Some 1),
      key_from_der = (\<lambda>_. None), key_from_pem_passphrase = (\<lambda>_ _. None),
      key_from_pkcs8_passphrase = (\<lambda>_ _. None), crl_from_pem = (\<lambda>_. Some 1),
      crl_from_der = (\<lambda>_. None), crl_next_update = (\<lambda>_. Some 100), crl_verify = (\<lambda>_ _. Some True),
      crl_issuer_eq = (\<lambda>_ _. Some True), crl_revoked = (\<lambda>_. Some [3]), current_time = Some 50,
      not_after = (\<lambda>_. 90), not_before = (\<lambda>_. 10), serial_number = int,
      subject_key_id = (\<lambda>_. Some [7]), public_key = Some, public_key_pem = (\<lambda>k. Some [of_nat k]),
      is_ec = (\<lambda>_. True), ec_curve = (\<lambda>_. Some P256), key_usage_ext = (\<lambda>_. Some [0x80]),
      ext_key_usage_ext = (\<lambda>_. None), store_accepts = (\<lambda>_. True),
      cms_from_der = (\<lambda>d. if d = [1] then Some 1 else None),
      chain_events = (\<lambda>_ _. [(False, 10, 0), (True, 0, 1)]),
      cms_signature_ok = (\<lambda>_ b. b = [0x61, 9]), cms_signers = (\<lambda>_. Some [Some 2]),
      cms_certs = (\<lambda>_. Some [Some 2]), cms_digest = (\<lambda>_. Some Sha256),
      cms_sign_der = (\<lambda>_ _ b. Some (0 # b)), err_peek_error = 0\<rparr>"

definition demo_fs :: file_system where
  "demo_fs = \<lparr>is_symlink = (\<lambda>_. False), canonicalize = Some, read_file = (\<lambda>_. Some [1])\<rparr>"

end
