(* ===== verification/VsockMessage.thy ===== *)
theory VsockMessage
  imports TR_Prelude
begin

text \<open>
  \<^verbatim>\<open>rust/framework/src/message/mod.rs\<close>: the 16-byte little-endian header, the complete message,
  \<open>VsockMessage::new\<close>, \<open>serialize\<close>, \<open>to_bytes\<close> and \<open>parse\<close>.  The lemmas give the codec contract:
  the encoder is inverted by the parser on every message whose length fits the header, the parser
  accepts exactly the byte strings whose length field is truthful, and it is injective.  The
  contract is stated once as the locale \<open>framing_codec\<close> and interpreted on the code's functions.
\<close>

section \<open>Data\<close>

record vsock_header =
  seq :: u32
  version :: u32
  msg_type :: u32
  len :: u32

record vsock_message =
  header :: vsock_header
  data :: bytes

datatype message_error = IncompleteHeader | IncompleteData

section \<open>Operations\<close>

text \<open>\<open>data.len() as u32\<close> keeps the low 32 bits of the length, as \<^const>\<open>of_nat\<close> does.\<close>

definition message_new :: "u32 \<Rightarrow> u32 \<Rightarrow> u32 \<Rightarrow> bytes \<Rightarrow> vsock_message" where
  "message_new s v t d =
     \<lparr>header = \<lparr>seq = s, version = v, msg_type = t, len = of_nat (length d)\<rparr>, data = d\<rparr>"

definition serialize :: "vsock_message \<Rightarrow> bytes" where
  "serialize m =
     to_le_bytes (seq (header m)) @ to_le_bytes (version (header m)) @
     to_le_bytes (msg_type (header m)) @ to_le_bytes (len (header m)) @ data m"

definition to_bytes :: "vsock_message \<Rightarrow> bytes" where
  "to_bytes m = serialize m"

text \<open>\<open>u32::from_le_bytes([b[i], b[i+1], b[i+2], b[i+3]])\<close>; every caller has checked the length.\<close>

definition le_field :: "bytes \<Rightarrow> nat \<Rightarrow> u32" where
  "le_field b i = from_le_bytes (b ! i) (b ! (i + 1)) (b ! (i + 2)) (b ! (i + 3))"

definition parse :: "bytes \<Rightarrow> message_error + vsock_message" where
  "parse b =
     (if length b < 16 then Inl IncompleteHeader
      else let s = le_field b 0; v = le_field b 4; t = le_field b 8; l = le_field b 12
           in if length b \<noteq> 16 + unat l then Inl IncompleteData
              else Inr \<lparr>header = \<lparr>seq = s, version = v, msg_type = t, len = l\<rparr>, data = drop 16 b\<rparr>)"

section \<open>Well-formed messages\<close>

text \<open>The header's length field tells the truth.\<close>

definition message_wf :: "vsock_message \<Rightarrow> bool" where
  "message_wf m \<longleftrightarrow> length (data m) = unat (len (header m))"

lemma message_new_sel [simp]:
  "seq (header (message_new s v t d)) = s" "version (header (message_new s v t d)) = v"
  "msg_type (header (message_new s v t d)) = t" "data (message_new s v t d) = d"
  "len (header (message_new s v t d)) = of_nat (length d)"
  by (simp_all add: message_new_def)

lemma message_new_wf: "length d < 2 ^ 32 \<Longrightarrow> message_wf (message_new s v t d)"
  by (simp add: message_wf_def unat_of_nat)

lemma length_serialize: "length (serialize m) = 16 + length (data m)"
  by (simp add: serialize_def)

lemma serialize_fields:
  "le_field (serialize m) 0 = seq (header m)"
  "le_field (serialize m) 4 = version (header m)"
  "le_field (serialize m) 8 = msg_type (header m)"
  "le_field (serialize m) 12 = len (header m)"
  by (simp_all add: le_field_def serialize_def to_le_bytes_def)

lemma drop_serialize: "drop 16 (serialize m) = data m"
  by (simp add: serialize_def to_le_bytes_def)

lemma parse_serialize_wf: "message_wf m \<Longrightarrow> parse (serialize m) = Inr m"
  by (cases m) (simp add: parse_def Let_def serialize_fields drop_serialize length_serialize
      message_wf_def)

lemma parse_serialize_not_wf: "\<not> message_wf m \<Longrightarrow> parse (serialize m) = Inl IncompleteData"
  by (simp add: parse_def Let_def serialize_fields length_serialize message_wf_def)

lemma take4_le_field:
  assumes "i + 4 \<le> length b"
  shows "to_le_bytes (le_field b i) = take 4 (drop i b)"
proof -
  have "take 4 (drop i b) = [b ! i, b ! (i + 1), b ! (i + 2), b ! (i + 3)]"
    using assms by (intro nth_equalityI) (auto simp: nth_Cons' less_Suc_eq numeral_eq_Suc)
  then show ?thesis by (simp add: le_field_def)
qed

lemma serialize_parse:
  assumes "parse b = Inr m"
  shows "serialize m = b" and "message_wf m"
proof -
  from assms have len: "16 \<le> length b" "length b = 16 + unat (le_field b 12)"
    and m: "m = \<lparr>header = \<lparr>seq = le_field b 0, version = le_field b 4, msg_type = le_field b 8,
                 len = le_field b 12\<rparr>, data = drop 16 b\<rparr>"
    by (auto simp: parse_def Let_def split: if_splits)
  have "serialize m = take 4 b @ take 4 (drop 4 b) @ take 4 (drop 8 b) @ take 4 (drop 12 b) @ drop 16 b"
    using len(1) take4_le_field [of 0 b] take4_le_field [of 4 b] take4_le_field [of 8 b]
      take4_le_field [of 12 b]
    by (simp add: m serialize_def)
  also have "\<dots> = b"
    using append_take_drop_id [of 4 b] append_take_drop_id [of 4 "drop 4 b"]
      append_take_drop_id [of 4 "drop 8 b"] append_take_drop_id [of 4 "drop 12 b"]
    by simp
  finally show "serialize m = b" .
  show "message_wf m" using len by (simp add: m message_wf_def)
qed

lemma parse_IncompleteHeader_iff: "parse b = Inl IncompleteHeader \<longleftrightarrow> length b < 16"
  by (simp add: parse_def Let_def)

lemma parse_IncompleteData_iff:
  "parse b = Inl IncompleteData \<longleftrightarrow> 16 \<le> length b \<and> length b \<noteq> 16 + unat (le_field b 12)"
  by (auto simp: parse_def Let_def)

section \<open>The codec contract\<close>

text \<open>
  What a client of the codec relies on: valid messages survive a round trip, accepted input is the
  encoding of a valid message, and the size is known from the message.
\<close>

locale framing_codec =
  fixes encode :: "'m \<Rightarrow> bytes"
    and decode :: "bytes \<Rightarrow> 'e + 'm"
    and valid :: "'m \<Rightarrow> bool"
  assumes decode_encode: "valid m \<Longrightarrow> decode (encode m) = Inr m"
    and encode_decode: "decode b = Inr m \<Longrightarrow> encode m = b \<and> valid m"
begin

lemma accepted_iff: "(\<exists>m. decode b = Inr m) \<longleftrightarrow> (\<exists>m. valid m \<and> encode m = b)"
  using decode_encode encode_decode by blast

lemma encode_inj: "valid m \<Longrightarrow> valid m' \<Longrightarrow> encode m = encode m' \<Longrightarrow> m = m'"
  by (metis decode_encode sum.inject(2))

lemma decode_inj: "decode b = Inr m \<Longrightarrow> decode b' = Inr m \<Longrightarrow> b = b'"
  using encode_decode by metis

end

interpretation vsock_codec: framing_codec serialize parse message_wf
  by unfold_locales (auto simp: parse_serialize_wf dest: serialize_parse)

section \<open>Properties\<close>

text \<open>
  A message built by \<open>VsockMessage::new\<close> from at most 4 GiB of data, serialized and parsed
  back, is the same message: sequence number, version, type, length and data all survive.
\<close>

theorem new_serialize_parse_roundtrip:
  assumes "length d < 2 ^ 32"
  shows "parse (serialize (message_new s v t d)) = Inr (message_new s v t d)"
  by (rule vsock_codec.decode_encode [OF message_new_wf [OF assms]])

theorem new_serialize_parse_roundtrip_witness:
  "parse (serialize (message_new 1 0xFFFF0400 0x10 [104, 105])) =
     Inr (message_new 1 0xFFFF0400 0x10 [104, 105])"
  using new_serialize_parse_roundtrip [of "[104, 105]"] by simp

text \<open>
  C16. \<open>VsockMessage::parse\<close> accepts exactly the encodings of well-formed messages, and no two byte
  strings parse to the same message: the wire format has one encoding per message.
\<close>

theorem parse_accepts_exactly_encodings:
  "((\<exists>m. parse b = Inr m) \<longleftrightarrow> (\<exists>m. message_wf m \<and> serialize m = b)) \<and>
   (\<forall>m b'. \<not> (parse b = Inr m \<and> parse b' = Inr m \<and> b \<noteq> b'))"
  using vsock_codec.accepted_iff [of b] vsock_codec.decode_inj [of b] by blast

end
