(* ===== verification/VsockConnection.thy ===== *)
theory VsockConnection
  imports VsockMessage
begin

text \<open>
  \<^verbatim>\<open>rust/framework/src/communication/vsock_server/{error,connection,mod}.rs\<close>: protocol constants,
  the handler table behind its lock (\<open>register_handler\<close>), \<open>read_message\<close>, \<open>process_message\<close>,
  \<open>create_error_response\<close> and the loop \<open>handle_connection_blocking\<close>.

  The TLS stream is OpenSSL's; what the loop sees of it is the sequence of results of its reads, a
  list of \<open>io\<close> events (a byte, a read timeout of the socket, an error); the end of the list is
  end-of-file.  Replies are the sequence of messages given to \<open>write_all\<close>, whose result the code
  discards.  A business handler (\<open>DataHandler::handle\<close>) is a parameter: it panics or returns an
  optional response.  The shutdown flag and the clock are read once per iteration, so they are
  functions of the iteration number; the loop ends because each iteration that continues has
  consumed at least one event.
\<close>

section \<open>Constants\<close>

definition ERROR_HANDLER_PANIC :: u32 where "ERROR_HANDLER_PANIC = 0x00"
definition ERROR_PROTOCOL :: u32 where "ERROR_PROTOCOL = 0x01"
definition ERROR_MESSAGE_TOO_LONG :: u32 where "ERROR_MESSAGE_TOO_LONG = 0x02"
definition ERROR_TIMEOUT :: u32 where "ERROR_TIMEOUT = 0x05"
definition ERROR_CONNECTION_CLOSED :: u32 where "ERROR_CONNECTION_CLOSED = 0xFF"
definition PROTOCOL_VERSION :: u32 where "PROTOCOL_VERSION = 0xFFFF0400"
definition MAX_MESSAGE_SIZE :: u32 where "MAX_MESSAGE_SIZE = 10240"
definition HEADER_SIZE :: nat where "HEADER_SIZE = 16"
definition MAX_IDLE_SECS :: nat where "MAX_IDLE_SECS = 60"

lemmas error_code_defs = ERROR_HANDLER_PANIC_def ERROR_PROTOCOL_def ERROR_MESSAGE_TOO_LONG_def
  ERROR_TIMEOUT_def ERROR_CONNECTION_CLOSED_def

section \<open>Handlers\<close>

datatype handler_result = HandlerPanic | HandlerReturn "bytes option"

type_synonym data_handler = "bytes \<Rightarrow> handler_result"

record handler_lock =
  poisoned :: bool
  handlers :: "u32 \<Rightarrow> data_handler option"

definition register_handler :: "u32 \<Rightarrow> data_handler \<Rightarrow> handler_lock \<Rightarrow> handler_lock" where
  "register_handler t h lk =
     (if poisoned lk then lk else lk\<lparr>handlers := (handlers lk)(t \<mapsto> h)\<rparr>)"

interpretation handler_store: keyed_store handlers register_handler "\<lambda>lk. \<not> poisoned lk"
  by unfold_locales (auto simp: register_handler_def)

definition process_message :: "vsock_message \<Rightarrow> handler_lock \<Rightarrow> u32 + bytes" where
  "process_message m lk =
     (if poisoned lk then Inl ERROR_HANDLER_PANIC
      else case handlers lk (msg_type (header m)) of
             Some h \<Rightarrow>
               (case h (data m) of
                  HandlerReturn (Some resp) \<Rightarrow> Inr resp
                | HandlerReturn None \<Rightarrow> Inl ERROR_PROTOCOL
                | HandlerPanic \<Rightarrow> Inl ERROR_HANDLER_PANIC)
           | None \<Rightarrow> Inl ERROR_PROTOCOL)"

definition create_error_response :: "u32 \<Rightarrow> u32 \<Rightarrow> u32 \<Rightarrow> vsock_message" where
  "create_error_response s v e = message_new s v e []"

section \<open>Reading\<close>

datatype io = RdByte u8 | RdBlock | RdErr

datatype io_error = WouldBlock | UnexpectedEof | OtherIo

text \<open>\<open>Read::read_exact\<close>: bytes read before the error are gone.\<close>

fun read_exact :: "nat \<Rightarrow> io list \<Rightarrow> (io_error + bytes) \<times> io list" where
  "read_exact 0 inp = (Inr [], inp)"
| "read_exact (Suc n) [] = (Inl UnexpectedEof, [])"
| "read_exact (Suc n) (RdByte b # inp) =
     (case read_exact n inp of
        (Inr bs, rest) \<Rightarrow> (Inr (b # bs), rest)
      | (Inl e, rest) \<Rightarrow> (Inl e, rest))"
| "read_exact (Suc n) (RdBlock # inp) = (Inl WouldBlock, inp)"
| "read_exact (Suc n) (RdErr # inp) = (Inl OtherIo, inp)"

text \<open>
  The result, the error responses written to the stream on the way, and the unread input.  The
  full buffer is the header followed by the body, which \<open>VsockMessage::parse\<close> reads again.
\<close>

definition read_message ::
  "io list \<Rightarrow> (u32 + vsock_message) \<times> vsock_message list \<times> io list" where
  "read_message inp =
     (case read_exact HEADER_SIZE inp of
        (Inl e, rest) \<Rightarrow>
          (Inl (if e = WouldBlock then ERROR_TIMEOUT else ERROR_CONNECTION_CLOSED), [], rest)
      | (Inr hdr, rest) \<Rightarrow>
          (let s = le_field hdr 0; v = le_field hdr 4; l = le_field hdr 12 in
           if v \<noteq> PROTOCOL_VERSION
           then (Inl ERROR_PROTOCOL, [create_error_response s v ERROR_PROTOCOL], rest)
           else if l > MAX_MESSAGE_SIZE
           then (Inl ERROR_MESSAGE_TOO_LONG, [create_error_response s v ERROR_MESSAGE_TOO_LONG], rest)
           else
             (case (if l > 0 then read_exact (unat l) rest else (Inr [], rest)) of
                (Inl e, rest') \<Rightarrow>
                  (Inl ERROR_PROTOCOL, [create_error_response s v ERROR_PROTOCOL], rest')
              | (Inr body, rest') \<Rightarrow>
                  (case parse (hdr @ body) of
                     Inr m \<Rightarrow> (Inr m, [], rest')
                   | Inl e \<Rightarrow>
                       (Inl ERROR_PROTOCOL, [create_error_response s v ERROR_PROTOCOL], rest')))))"

section \<open>The connection loop\<close>

datatype close_reason = ClosedByShutdown | ClosedIdle | ClosedByRead u32

text \<open>The message written for a request: \<open>msg_type + 1\<close> wraps as in a release build.\<close>

definition reply :: "handler_lock \<Rightarrow> vsock_message \<Rightarrow> vsock_message" where
  "reply lk m =
     (case process_message m lk of
        Inr resp \<Rightarrow> message_new (seq (header m)) (version (header m)) (msg_type (header m) + 1) resp
      | Inl e \<Rightarrow> create_error_response (seq (header m)) (version (header m)) e)"

definition push_writes ::
  "vsock_message list \<Rightarrow> vsock_message list \<times> close_reason \<times> io list
     \<Rightarrow> vsock_message list \<times> close_reason \<times> io list" where
  "push_writes ws r = (ws @ fst r, snd r)"

lemma read_exact_length:
  "read_exact n inp = (r, rest) \<Longrightarrow> length rest \<le> length inp"
  by (induction n inp arbitrary: r rest rule: read_exact.induct)
     (fastforce split: prod.splits sum.splits)+

lemma read_exact_Inr:
  "read_exact n inp = (Inr bs, rest) \<Longrightarrow> length bs = n \<and> inp = map RdByte bs @ rest"
  by (induction n inp arbitrary: bs rest rule: read_exact.induct)
     (fastforce split: prod.splits sum.splits)+

lemma read_exact_WouldBlock:
  "read_exact n inp = (Inl WouldBlock, rest) \<Longrightarrow> length rest < length inp"
  by (induction n inp arbitrary: rest rule: read_exact.induct)
     (fastforce split: prod.splits sum.splits)+


lemma le_field_append: "i + 4 \<le> length hdr \<Longrightarrow> le_field (hdr @ body) i = le_field hdr i"
  by (simp add: le_field_def nth_append)

lemma read_message_Inr:
  assumes "read_message inp = (Inr m, ws, rest)"
  shows "inp = map RdByte (serialize m) @ rest" and "message_wf m" and "ws = []"
    and "version (header m) = PROTOCOL_VERSION" and "len (header m) \<le> MAX_MESSAGE_SIZE"
proof -
  from assms obtain hdr rest1 where h: "read_exact HEADER_SIZE inp = (Inr hdr, rest1)"
    by (auto simp: read_message_def split: prod.splits sum.splits)
  let ?l = "le_field hdr 12"
  from assms h have v: "le_field hdr 4 = PROTOCOL_VERSION" and l: "?l \<le> MAX_MESSAGE_SIZE"
    by (auto simp: read_message_def Let_def not_less split: if_splits)
  with assms h obtain body where
    b: "(if ?l > 0 then read_exact (unat ?l) rest1 else (Inr [], rest1)) = (Inr body, rest)"
    and m: "parse (hdr @ body) = Inr m" and ws: "ws = []"
    by (auto simp: read_message_def Let_def not_less split: prod.splits sum.splits if_splits)
  from read_exact_Inr [OF h] have hdr: "length hdr = 16" "inp = map RdByte hdr @ rest1"
    by (simp_all add: HEADER_SIZE_def)
  from b read_exact_Inr have "rest1 = map RdByte body @ rest"
    by (fastforce split: if_splits)
  with hdr serialize_parse(1) [OF m] show "inp = map RdByte (serialize m) @ rest" by simp
  show "message_wf m" by (rule serialize_parse(2) [OF m])
  show "ws = []" by (rule ws)
  have "version (header m) = le_field (hdr @ body) 4" "len (header m) = le_field (hdr @ body) 12"
    using serialize_parse(1) [OF m] by (metis serialize_fields)+
  with v l hdr show "version (header m) = PROTOCOL_VERSION" "len (header m) \<le> MAX_MESSAGE_SIZE"
    by (simp_all add: le_field_append)
qed

lemma read_message_Inl_codes:
  assumes "read_message inp = (Inl e, ws, rest)"
  shows "(e = ERROR_TIMEOUT \<and> ws = [] \<and> length rest < length inp) \<or>
         (e = ERROR_CONNECTION_CLOSED \<and> ws = []) \<or>
         (e \<in> {ERROR_PROTOCOL, ERROR_MESSAGE_TOO_LONG} \<and>
          (\<exists>s v. ws = [create_error_response s v e]))"
  using assms
  by (auto simp: read_message_def Let_def dest: read_exact_WouldBlock
      split: prod.splits sum.splits if_splits)

lemma read_message_length: "read_message inp = (r, ws, rest) \<Longrightarrow> length rest \<le> length inp"
  by (fastforce simp: read_message_def Let_def dest: read_exact_length
      split: prod.splits sum.splits if_splits)

lemma read_message_progress:
  assumes "read_message inp = (r, ws, rest)" and "r = Inl ERROR_TIMEOUT \<or> (\<exists>m. r = Inr m)"
  shows "length rest < length inp"
proof (cases r)
  case (Inl e)
  with assms read_message_Inl_codes [of inp e ws rest] show ?thesis
    by (auto simp: error_code_defs)
next
  case (Inr m)
  with assms(1) have "inp = map RdByte (serialize m) @ rest" by (simp add: read_message_Inr(1))
  then show ?thesis by (simp add: length_serialize)
qed

text \<open>
  \<open>handle_connection_blocking\<close>: the writes, why the loop ended, and the unread input.
  \<open>sd i\<close> is the shutdown flag at the start of iteration \<open>i\<close>, \<open>clk i\<close> the monotonic clock after
  its read in nanoseconds (\<open>Duration::as_secs\<close> rounds down).
\<close>

function serve_conn ::
  "handler_lock \<Rightarrow> (nat \<Rightarrow> bool) \<Rightarrow> (nat \<Rightarrow> nat) \<Rightarrow> nat \<Rightarrow> nat option \<Rightarrow> io list
     \<Rightarrow> vsock_message list \<times> close_reason \<times> io list" where
  "serve_conn lk sd clk i idle inp =
     (if sd i then ([], ClosedByShutdown, inp)
      else case read_message inp of
        (Inr m, ws, rest) \<Rightarrow>
          push_writes (ws @ [reply lk m]) (serve_conn lk sd clk (Suc i) None rest)
      | (Inl e, ws, rest) \<Rightarrow>
          (if e = ERROR_TIMEOUT
           then (let start = (case idle of Some t \<Rightarrow> t | None \<Rightarrow> clk i)
                 in if (clk i - start) div 10 ^ 9 \<ge> MAX_IDLE_SECS then (ws, ClosedIdle, rest)
                    else push_writes ws (serve_conn lk sd clk (Suc i) (Some start) rest))
           else (ws, ClosedByRead e, rest)))"
  by pat_completeness auto
termination
  by (relation "measure (\<lambda>(lk, sd, clk, i, idle, inp). length inp)")
     (auto dest!: read_message_progress [OF sym])

declare serve_conn.simps [simp del]

text \<open>A connection starts at iteration 0 with no idle period running.\<close>

definition handle_connection_blocking ::
  "handler_lock \<Rightarrow> (nat \<Rightarrow> bool) \<Rightarrow> (nat \<Rightarrow> nat) \<Rightarrow> io list
     \<Rightarrow> vsock_message list \<times> close_reason \<times> io list" where
  "handle_connection_blocking lk sd clk inp = serve_conn lk sd clk 0 None inp"

section \<open>Reading what a client sent\<close>

abbreviation frame :: "vsock_message \<Rightarrow> io list" where
  "frame m \<equiv> map RdByte (serialize m)"

text \<open>A request the protocol admits: truthful length, right version, at most 10 KiB.\<close>

definition admissible :: "vsock_message \<Rightarrow> bool" where
  "admissible m \<longleftrightarrow> message_wf m \<and> version (header m) = PROTOCOL_VERSION
     \<and> len (header m) \<le> MAX_MESSAGE_SIZE"

lemma read_exact_bytes:
  "n = length bs \<Longrightarrow> read_exact n (map RdByte bs @ rest) = (Inr bs, rest)"
  by (induction bs arbitrary: n) auto

lemma read_exact_short_block:
  "length bs < n \<Longrightarrow> read_exact n (map RdByte bs @ RdBlock # rest) = (Inl WouldBlock, rest)"
proof (induction bs arbitrary: n)
  case Nil
  then show ?case by (cases n) auto
next
  case (Cons b bs)
  then show ?case by (cases n) auto
qed

lemma read_exact_consumes:
  "read_exact n inp = (r, rest) \<Longrightarrow> length inp \<le> length rest + n"
  by (induction n inp arbitrary: r rest rule: read_exact.induct)
     (fastforce split: prod.splits sum.splits)+

lemma serialize_split:
  obtains hdr where "serialize m = hdr @ data m" "length hdr = 16"
    "le_field hdr 0 = seq (header m)" "le_field hdr 4 = version (header m)"
    "le_field hdr 12 = len (header m)"
proof -
  let ?h = "take 16 (serialize m)"
  have "serialize m = ?h @ data m" by (metis append_take_drop_id drop_serialize)
  moreover have l: "length ?h = 16" by (simp add: length_serialize)
  moreover have "le_field (?h @ data m) 0 = le_field ?h 0" "le_field (?h @ data m) 4 = le_field ?h 4"
    "le_field (?h @ data m) 12 = le_field ?h 12"
    using l by (simp_all add: le_field_append)
  ultimately show ?thesis
    using that [of ?h] serialize_fields [of m] by simp
qed

lemma read_message_frame:
  assumes "admissible m"
  shows "read_message (frame m @ rest) = (Inr m, [], rest)"
proof -
  obtain hdr where hdr: "serialize m = hdr @ data m" "length hdr = 16"
    "le_field hdr 0 = seq (header m)" "le_field hdr 4 = version (header m)"
    "le_field hdr 12 = len (header m)"
    by (rule serialize_split)
  have d: "length (data m) = unat (len (header m))"
    using assms by (simp add: admissible_def message_wf_def)
  have p: "parse (hdr @ data m) = Inr m"
    using assms hdr(1) by (metis admissible_def parse_serialize_wf)
  have body: "(if len (header m) > 0
       then read_exact (unat (len (header m))) (map RdByte (data m) @ rest)
       else (Inr [], map RdByte (data m) @ rest)) = (Inr (data m), rest)"
    using d by (auto simp: read_exact_bytes word_gt_0 unat_eq_0)
  show ?thesis
    using assms hdr d p body
    by (simp add: read_message_def read_exact_bytes HEADER_SIZE_def admissible_def not_less Let_def)
qed

lemma read_message_consumes:
  assumes "read_message inp = (r, ws, rest)"
  shows "length inp \<le> length rest + 10256"
proof -
  obtain h rest1 where h: "read_exact HEADER_SIZE inp = (h, rest1)" by fastforce
  have 1: "length inp \<le> length rest1 + 16"
    using read_exact_consumes [OF h] by (simp add: HEADER_SIZE_def)
  have "length rest1 \<le> length rest + 10240"
  proof (cases h)
    case (Inl e)
    with assms h show ?thesis by (simp add: read_message_def)
  next
    case (Inr hdr)
    let ?l = "le_field hdr 12"
    show ?thesis
    proof (cases "le_field hdr 4 = PROTOCOL_VERSION \<and> 0 < ?l \<and> ?l \<le> MAX_MESSAGE_SIZE")
      case True
      obtain b rest2 where b: "read_exact (unat ?l) rest1 = (b, rest2)" by fastforce
      have "unat ?l \<le> 10240"
        using True by (simp add: MAX_MESSAGE_SIZE_def word_le_nat_alt)
      moreover have "rest = rest2"
        using assms h b Inr True
        by (auto simp: read_message_def Let_def not_less split: sum.splits if_splits)
      ultimately show ?thesis using read_exact_consumes [OF b] by simp
    next
      case False
      then have "rest = rest1"
        using assms h Inr
        by (auto simp: read_message_def Let_def not_less split: sum.splits if_splits)
      then show ?thesis by simp
    qed
  qed
  with 1 show ?thesis by simp
qed

lemma read_message_split_header:
  "length bs < HEADER_SIZE \<Longrightarrow>
     read_message (map RdByte bs @ RdBlock # rest) = (Inl ERROR_TIMEOUT, [], rest)"
  by (simp add: read_message_def read_exact_short_block)

lemma read_message_bad_version:
  assumes "length hdr = HEADER_SIZE" and "le_field hdr 4 \<noteq> PROTOCOL_VERSION"
  shows "read_message (map RdByte hdr @ rest) =
    (Inl ERROR_PROTOCOL, [create_error_response (le_field hdr 0) (le_field hdr 4) ERROR_PROTOCOL], rest)"
  using assms by (simp add: read_message_def read_exact_bytes Let_def)

lemma read_message_too_long:
  assumes "length hdr = HEADER_SIZE" and "le_field hdr 4 = PROTOCOL_VERSION"
    and "le_field hdr 12 > MAX_MESSAGE_SIZE"
  shows "read_message (map RdByte hdr @ rest) =
    (Inl ERROR_MESSAGE_TOO_LONG,
     [create_error_response (le_field hdr 0) PROTOCOL_VERSION ERROR_MESSAGE_TOO_LONG], rest)"
  using assms by (simp add: read_message_def read_exact_bytes Let_def)

section \<open>One iteration\<close>

lemma push_writes_simps [simp]:
  "fst (push_writes ws r) = ws @ fst r" "snd (push_writes ws r) = snd r"
  "push_writes [] r = r" "push_writes ws (push_writes ws' r) = push_writes (ws @ ws') r"
  by (simp_all add: push_writes_def)

lemma serve_conn_shutdown: "sd i \<Longrightarrow> serve_conn lk sd clk i idle inp = ([], ClosedByShutdown, inp)"
  by (simp add: serve_conn.simps)

lemma serve_conn_frame:
  assumes "admissible m" and "\<not> sd i"
  shows "serve_conn lk sd clk i idle (frame m @ rest) =
    push_writes [reply lk m] (serve_conn lk sd clk (Suc i) None rest)"
  by (simp add: serve_conn.simps [of lk sd clk i] assms read_message_frame)

lemma read_exact_eof: "0 < n \<Longrightarrow> read_exact n [] = (Inl UnexpectedEof, [])"
  by (cases n) auto

lemma read_message_eof: "read_message [] = (Inl ERROR_CONNECTION_CLOSED, [], [])"
  by (simp add: read_message_def HEADER_SIZE_def read_exact_eof)

lemma serve_conn_eof: "\<not> sd i \<Longrightarrow>
    serve_conn lk sd clk i idle [] = ([], ClosedByRead ERROR_CONNECTION_CLOSED, [])"
  by (simp add: serve_conn.simps [of lk sd clk i] read_message_eof,
      simp add: error_code_defs)

lemma serve_conn_rejected:
  assumes "\<not> sd i" and "read_message inp = (Inl e, ws, rest)" and "e \<noteq> ERROR_TIMEOUT"
  shows "serve_conn lk sd clk i idle inp = (ws, ClosedByRead e, rest)"
  by (simp add: serve_conn.simps [of lk sd clk i] assms)

lemma serve_conn_frames:
  assumes "\<And>m. m \<in> set ms \<Longrightarrow> admissible m" and "\<And>j. i \<le> j \<Longrightarrow> j < i + length ms \<Longrightarrow> \<not> sd j"
  shows "serve_conn lk sd clk i idle (concat (map frame ms) @ rest) =
    push_writes (map (reply lk) ms)
      (serve_conn lk sd clk (i + length ms) (if ms = [] then idle else None) rest)"
  using assms
proof (induction ms arbitrary: i idle)
  case Nil
  then show ?case by simp
next
  case (Cons m ms)
  from Cons.prems have "admissible m" "\<not> sd i" by auto
  then have "serve_conn lk sd clk i idle (concat (map frame (m # ms)) @ rest) =
      push_writes [reply lk m] (serve_conn lk sd clk (Suc i) None (concat (map frame ms) @ rest))"
    by (simp add: serve_conn_frame)
  also have "serve_conn lk sd clk (Suc i) None (concat (map frame ms) @ rest) =
      push_writes (map (reply lk) ms)
        (serve_conn lk sd clk (Suc i + length ms) (if ms = [] then None else None) rest)"
    using Cons.prems by (intro Cons.IH) auto
  finally show ?case by (simp add: push_writes_def)
qed

section \<open>Pauses and shutdown\<close>

text \<open>A client's input: requests, each after some read timeouts, and some before it closes.\<close>

definition paced :: "(nat \<times> vsock_message) list \<Rightarrow> nat \<Rightarrow> io list" where
  "paced reqs k = concat (map (\<lambda>(n, m). replicate n RdBlock @ frame m) reqs) @ replicate k RdBlock"

text \<open>No \<open>g\<close> timeouts in a row last as long as the idle limit.\<close>

definition patient :: "(nat \<Rightarrow> nat) \<Rightarrow> nat \<Rightarrow> bool" where
  "patient clk g \<longleftrightarrow> (\<forall>i j. i \<le> j \<and> j < i + g \<longrightarrow> (clk j - clk i) div 10 ^ 9 < MAX_IDLE_SECS)"

lemma serve_conn_block:
  assumes "\<not> sd i" "(clk i - (case idle of Some t \<Rightarrow> t | None \<Rightarrow> clk i)) div 10 ^ 9 < MAX_IDLE_SECS"
  shows "serve_conn lk sd clk i idle (RdBlock # rest) =
    serve_conn lk sd clk (Suc i) (Some (case idle of Some t \<Rightarrow> t | None \<Rightarrow> clk i)) rest"
  using assms read_message_split_header [of "[]" rest]
  by (simp add: serve_conn.simps [of lk sd clk i] HEADER_SIZE_def Let_def)

lemma serve_conn_blocks:
  assumes "patient clk g" "i0 \<le> i" "i + k \<le> i0 + g"
  shows "(\<exists>j rest. sd j \<and> serve_conn lk sd clk i (Some (clk i0)) (replicate k RdBlock @ inp) = ([], ClosedByShutdown, rest)) \<or>
    serve_conn lk sd clk i (Some (clk i0)) (replicate k RdBlock @ inp) = serve_conn lk sd clk (i + k) (Some (clk i0)) inp"
  using assms(2,3)
proof (induction k arbitrary: i)
  case (Suc k)
  show ?case
  proof (cases "sd i")
    case True
    then show ?thesis by (auto simp: serve_conn_shutdown)
  next
    case False
    have "(clk i - clk i0) div 10 ^ 9 < MAX_IDLE_SECS"
      using assms(1) Suc.prems by (simp add: patient_def)
    then have "serve_conn lk sd clk i (Some (clk i0)) (replicate (Suc k) RdBlock @ inp) =
        serve_conn lk sd clk (Suc i) (Some (clk i0)) (replicate k RdBlock @ inp)"
      using False by (simp add: serve_conn_block)
    then show ?thesis using Suc.IH [of "Suc i"] Suc.prems by simp
  qed
qed simp

lemma serve_conn_gap:
  assumes "patient clk g" "k \<le> g"
  shows "(\<exists>j rest. sd j \<and> serve_conn lk sd clk i None (replicate k RdBlock @ inp) = ([], ClosedByShutdown, rest)) \<or>
    (\<exists>idle. serve_conn lk sd clk i None (replicate k RdBlock @ inp) = serve_conn lk sd clk (i + k) idle inp)"
proof (cases k)
  case (Suc n)
  show ?thesis
  proof (cases "sd i")
    case True
    then show ?thesis by (auto simp: serve_conn_shutdown)
  next
    case False
    then have "serve_conn lk sd clk i None (replicate k RdBlock @ inp) =
        serve_conn lk sd clk (Suc i) (Some (clk i)) (replicate n RdBlock @ inp)"
      by (simp add: Suc serve_conn_block MAX_IDLE_SECS_def)
    then show ?thesis
      using serve_conn_blocks [OF assms(1), of i "Suc i" n sd lk inp] assms(2) Suc by auto
  qed
qed auto

lemma serve_conn_paced:
  assumes "patient clk g" "\<forall>(n, m) \<in> set reqs. n \<le> g \<and> admissible m" "k \<le> g"
  shows "\<exists>n \<le> length reqs. \<exists>why rest.
    serve_conn lk sd clk i None (paced reqs k) = (map (reply lk \<circ> snd) (take n reqs), why, rest) \<and>
    (why = ClosedByShutdown \<and> (\<exists>j. sd j) \<or> why = ClosedByRead ERROR_CONNECTION_CLOSED \<and> n = length reqs)"
  using assms(2)
proof (induction reqs arbitrary: i)
  case Nil
  have "\<exists>why rest. serve_conn lk sd clk j idle [] = ([], why, rest) \<and>
      (why = ClosedByShutdown \<and> (\<exists>j. sd j) \<or> why = ClosedByRead ERROR_CONNECTION_CLOSED)" for j idle
    by (cases "sd j") (auto simp: serve_conn_shutdown serve_conn_eof)
  with serve_conn_gap [OF assms(1,3), of sd lk i "[]"] show ?case by (fastforce simp: paced_def)
next
  case (Cons req reqs)
  obtain n m where req: "req = (n, m)" by fastforce
  with Cons.prems have n: "n \<le> g" "admissible m"
    and reqs: "\<forall>(n, m) \<in> set reqs. n \<le> g \<and> admissible m" by auto
  have split: "paced (req # reqs) k = replicate n RdBlock @ frame m @ paced reqs k"
    by (simp add: paced_def req)
  from serve_conn_gap [OF assms(1) n(1), of sd lk i "frame m @ paced reqs k"]
  consider j rest where "sd j" "serve_conn lk sd clk i None (paced (req # reqs) k) = ([], ClosedByShutdown, rest)"
    | idle where "serve_conn lk sd clk i None (paced (req # reqs) k) =
        serve_conn lk sd clk (i + n) idle (frame m @ paced reqs k)"
    unfolding split by blast
  then show ?case
  proof cases
    case 1
    then show ?thesis by (intro exI [of _ 0]) auto
  next
    case 2
    show ?thesis
    proof (cases "sd (i + n)")
      case True
      with 2 show ?thesis by (intro exI [of _ 0]) (auto simp: serve_conn_shutdown)
    next
      case False
      obtain l why rest where l: "l \<le> length reqs"
        "serve_conn lk sd clk (Suc (i + n)) None (paced reqs k) = (map (reply lk \<circ> snd) (take l reqs), why, rest)"
        "why = ClosedByShutdown \<and> (\<exists>j. sd j) \<or> why = ClosedByRead ERROR_CONNECTION_CLOSED \<and> l = length reqs"
        using Cons.IH [OF reqs, of "Suc (i + n)"] by blast
      have "serve_conn lk sd clk i None (paced (req # reqs) k) =
          (map (reply lk \<circ> snd) (take (Suc l) (req # reqs)), why, rest)"
        using 2 serve_conn_frame [where sd = sd and i = "i + n", OF n(2) False] l(2) by (simp add: req push_writes_def)
      with l show ?thesis by (intro exI [of _ "Suc l"]) auto
    qed
  qed
qed

section \<open>Everything written is a reply or a protocol error\<close>

definition legit_write :: "handler_lock \<Rightarrow> vsock_message \<Rightarrow> bool" where
  "legit_write lk w \<longleftrightarrow>
     (\<exists>s v e. e \<in> {ERROR_HANDLER_PANIC, ERROR_PROTOCOL, ERROR_MESSAGE_TOO_LONG} \<and>
        w = create_error_response s v e) \<or>
     (\<exists>m h resp. admissible m \<and> handlers lk (msg_type (header m)) = Some h \<and>
        h (data m) = HandlerReturn (Some resp) \<and>
        w = message_new (seq (header m)) PROTOCOL_VERSION (msg_type (header m) + 1) resp)"

lemma legit_write_error:
  "e \<in> {ERROR_HANDLER_PANIC, ERROR_PROTOCOL, ERROR_MESSAGE_TOO_LONG} \<Longrightarrow>
     legit_write lk (create_error_response s v e)"
  unfolding legit_write_def by blast

lemma process_message_Inl:
  "process_message m lk = Inl e \<Longrightarrow> e \<in> {ERROR_HANDLER_PANIC, ERROR_PROTOCOL}"
  by (auto simp: process_message_def split: if_splits option.splits handler_result.splits)

lemma process_message_Inr:
  "process_message m lk = Inr resp \<Longrightarrow>
     \<exists>h. handlers lk (msg_type (header m)) = Some h \<and> h (data m) = HandlerReturn (Some resp)"
  by (auto simp: process_message_def split: if_splits option.splits handler_result.splits)

lemma reply_legit: "admissible m \<Longrightarrow> legit_write lk (reply lk m)"
proof (cases "process_message m lk")
  case (Inl e)
  then show ?thesis
    using process_message_Inl [OF Inl] by (auto simp: reply_def intro!: legit_write_error)
next
  case (Inr resp)
  moreover assume "admissible m"
  ultimately show ?thesis
    using process_message_Inr [OF Inr] unfolding legit_write_def reply_def admissible_def by auto
qed

lemma read_message_writes_legit:
  "read_message inp = (r, ws, rest) \<Longrightarrow> w \<in> set ws \<Longrightarrow> legit_write lk w"
proof (cases r)
  case (Inl e)
  moreover assume "read_message inp = (r, ws, rest)" "w \<in> set ws"
  ultimately show ?thesis
    using read_message_Inl_codes [of inp e ws rest] by (auto intro!: legit_write_error)
next
  case (Inr m)
  moreover assume "read_message inp = (r, ws, rest)" "w \<in> set ws"
  ultimately show ?thesis using read_message_Inr(3) by fastforce
qed

lemma serve_conn_writes_legit: "w \<in> set (fst (serve_conn lk sd clk i idle inp)) \<Longrightarrow> legit_write lk w"
proof (induction lk sd clk i idle inp rule: serve_conn.induct)
  case (1 lk sd clk i idle inp)
  obtain r ws rest where r: "read_message inp = (r, ws, rest)" by (metis prod_cases3)
  show ?case
  proof (cases "sd i")
    case True
    with "1.prems" show ?thesis by (simp add: serve_conn_shutdown)
  next
    case False
    show ?thesis
    proof (cases r)
      case (Inr m)
      with r have "admissible m" using read_message_Inr [of inp m ws rest] by (simp add: admissible_def)
      with "1.IH"(2) [OF False r [symmetric] Inr refl] "1.prems" r Inr False show ?thesis
        by (auto simp: serve_conn.simps [of lk sd clk i] reply_legit
            dest: read_message_writes_legit [OF r])
    next
      case (Inl e)
      with "1.IH"(1) [OF False r [symmetric] Inl refl _ refl] "1.prems" r False show ?thesis
        by (auto simp: serve_conn.simps [of lk sd clk i] Let_def
            dest: read_message_writes_legit [OF r] split: if_splits)
    qed
  qed
qed

section \<open>Properties\<close>

text \<open>A concrete table for the witnesses: an echo handler for 0x10, a panicking one for 0x14.\<close>

definition demo_lock :: handler_lock where
  "demo_lock = register_handler 0x14 (\<lambda>_. HandlerPanic)
     (register_handler 0x10 (\<lambda>d. HandlerReturn (Some d))
        \<lparr>poisoned = False, handlers = (\<lambda>_. None)\<rparr>)"

definition demo_request :: vsock_message where
  "demo_request = message_new 7 PROTOCOL_VERSION 0x10 [1, 2]"

lemma demo_facts:
  "admissible demo_request" "length (serialize demo_request) = 18"
  "reply demo_lock demo_request = message_new 7 PROTOCOL_VERSION 0x11 [1, 2]"
  "reply demo_lock (message_new 8 PROTOCOL_VERSION 0x14 []) =
     create_error_response 8 PROTOCOL_VERSION ERROR_HANDLER_PANIC"
  "admissible (message_new 8 PROTOCOL_VERSION 0x14 [])"
  by (simp_all add: demo_request_def demo_lock_def admissible_def message_wf_def length_serialize
      MAX_MESSAGE_SIZE_def reply_def process_message_def register_handler_def)

lemma handle_connection_frames:
  assumes "\<forall>m \<in> set ms. admissible m" and "\<forall>j \<le> length ms. \<not> sd j"
  shows "handle_connection_blocking lk sd clk (concat (map frame ms)) =
    (map (reply lk) ms, ClosedByRead ERROR_CONNECTION_CLOSED, [])"
proof -
  have "serve_conn lk sd clk 0 None (concat (map frame ms) @ []) =
      push_writes (map (reply lk) ms)
        (serve_conn lk sd clk (0 + length ms) (if ms = [] then None else None) [])"
    using assms by (intro serve_conn_frames) auto
  with assms(2) show ?thesis
    by (simp add: handle_connection_blocking_def serve_conn_eof push_writes_def)
qed

text \<open>
  Request/response refinement.  On a connection over which a client sends any sequence of
  admissible requests and then closes, with no shutdown, the loop writes exactly one reply per
  request, in order, each the reply of the dispatcher to that request alone, and then closes.
\<close>

theorem connection_replies_in_order:
  assumes "\<forall>m \<in> set ms. admissible m" and "\<forall>j \<le> length ms. \<not> sd j"
  shows "handle_connection_blocking lk sd clk (concat (map frame ms)) =
    (map (reply lk) ms, ClosedByRead ERROR_CONNECTION_CLOSED, [])"
  using assms by (rule handle_connection_frames)

theorem connection_replies_in_order_witness:
  "handle_connection_blocking demo_lock (\<lambda>_. False) id
     (concat (map frame [demo_request, message_new 8 PROTOCOL_VERSION 0x14 []])) =
   ([message_new 7 PROTOCOL_VERSION 0x11 [1, 2],
     create_error_response 8 PROTOCOL_VERSION ERROR_HANDLER_PANIC],
    ClosedByRead ERROR_CONNECTION_CLOSED, [])"
  using connection_replies_in_order
    [of "[demo_request, message_new 8 PROTOCOL_VERSION 0x14 []]" "\<lambda>_. False" demo_lock id]
  by (simp add: demo_facts)

text \<open>
  Whatever bytes, timeouts and errors the peer produces, everything the loop writes is either
  an empty message whose type is one of the three public error codes, or the response a registered
  handler returned for an admissible request, under that request's sequence number and type + 1.
  The internal codes (read timeout, connection closed) are never sent.
\<close>

theorem connection_writes_only_replies_or_errors:
  assumes "w \<in> set (fst (handle_connection_blocking lk sd clk inp))"
  shows "legit_write lk w"
  using assms unfolding handle_connection_blocking_def by (rule serve_conn_writes_legit)

theorem connection_writes_only_replies_or_errors_witness:
  "legit_write demo_lock (message_new 7 PROTOCOL_VERSION 0x11 [1, 2])"
  using connection_writes_only_replies_or_errors
    [of "message_new 7 PROTOCOL_VERSION 0x11 [1, 2]" demo_lock "\<lambda>_. False" id "frame demo_request @ []"]
  by (simp add: demo_facts serve_conn_frame serve_conn_eof handle_connection_blocking_def
      del: append_Nil2)

text \<open>
  Rejection.  After any number of admissible requests, a header with a wrong version or a
  length above 10240 is answered with one empty error message carrying the header's sequence
  number and version and the matching code; the loop then closes without reading any further.
\<close>

theorem connection_rejects_bad_header:
  assumes "\<forall>m \<in> set ms. admissible m" and "\<forall>j \<le> length ms. \<not> sd j" and "length hdr = 16"
    and "le_field hdr 4 \<noteq> PROTOCOL_VERSION \<and> e = ERROR_PROTOCOL \<or>
         le_field hdr 4 = PROTOCOL_VERSION \<and> le_field hdr 12 > MAX_MESSAGE_SIZE
           \<and> e = ERROR_MESSAGE_TOO_LONG"
  shows "handle_connection_blocking lk sd clk (concat (map frame ms) @ map RdByte hdr @ rest) =
    (map (reply lk) ms @ [create_error_response (le_field hdr 0) (le_field hdr 4) e],
     ClosedByRead e, rest)"
proof -
  let ?inp = "map RdByte hdr @ rest"
  have r: "read_message ?inp =
      (Inl e, [create_error_response (le_field hdr 0) (le_field hdr 4) e], rest)"
    using assms(3,4) by (auto simp: read_message_bad_version read_message_too_long HEADER_SIZE_def)
  have "serve_conn lk sd clk 0 None (concat (map frame ms) @ ?inp) =
      push_writes (map (reply lk) ms)
        (serve_conn lk sd clk (0 + length ms) (if ms = [] then None else None) ?inp)"
    using assms(1,2) by (intro serve_conn_frames) auto
  moreover have "e \<noteq> ERROR_TIMEOUT" using assms(4) by (auto simp: error_code_defs)
  ultimately show ?thesis
    using assms(2) r by (simp add: handle_connection_blocking_def serve_conn_rejected push_writes_def)
qed

theorem connection_rejects_bad_header_witness:
  "handle_connection_blocking demo_lock (\<lambda>_. False) id
     (concat (map frame [demo_request]) @
      map RdByte (to_le_bytes 9 @ to_le_bytes 5 @ to_le_bytes 0x10 @ to_le_bytes 0) @ [RdByte 3]) =
   ([message_new 7 PROTOCOL_VERSION 0x11 [1, 2], create_error_response 9 5 ERROR_PROTOCOL],
    ClosedByRead ERROR_PROTOCOL, [RdByte 3])"
proof -
  let ?h = "to_le_bytes 9 @ to_le_bytes 5 @ to_le_bytes 0x10 @ to_le_bytes 0"
  have f: "le_field ?h 0 = 9" "le_field ?h 4 = 5"
    by (simp_all add: le_field_def to_le_bytes_def from_le_bytes_def)
  show ?thesis
    using connection_rejects_bad_header [of "[demo_request]" "\<lambda>_. False" ?h ERROR_PROTOCOL
        demo_lock id "[RdByte 3]"]
    unfolding f by (simp add: demo_facts PROTOCOL_VERSION_def)
qed

text \<open>
  Resource bound: one call of \<open>read_message\<close> consumes at most 16 + 10240 bytes of the stream,
  so a client cannot make the server buffer more than one maximal message.
\<close>

theorem read_message_bounded:
  "length inp \<le> length (snd (snd (read_message inp))) + 10256 \<and>
   length (snd (snd (read_message inp))) \<le> length inp"
  using read_message_consumes [of inp] read_message_length [of inp]
  by (metis prod.collapse)

text \<open>
  A read timeout in the middle of a header is handled as an idle poll: the header bytes already
  read are discarded and the loop goes on with what follows, so the rest of the same request is
  then read as if a new message started there.  The outcome does not depend on the lost bytes.
\<close>

theorem timeout_inside_header_drops_bytes:
  assumes "length part < 16" and "\<not> sd 0"
  shows "handle_connection_blocking lk sd clk (map RdByte part @ RdBlock # rest) =
    serve_conn lk sd clk 1 (Some (clk 0)) rest"
  using assms
  by (simp add: handle_connection_blocking_def serve_conn.simps [of lk sd clk 0]
      read_message_split_header HEADER_SIZE_def MAX_IDLE_SECS_def)

theorem timeout_inside_header_drops_bytes_witness:
  "handle_connection_blocking demo_lock (\<lambda>_. False) id
     (map RdByte (take 8 (serialize demo_request)) @ RdBlock #
      map RdByte (drop 8 (serialize demo_request))) =
   ([], ClosedByRead ERROR_CONNECTION_CLOSED, [])"
proof -
  have l: "length (take 8 (serialize demo_request)) < 16" by simp
  have r: "read_message (map RdByte (drop 8 (serialize demo_request))) =
      (Inl ERROR_CONNECTION_CLOSED, [], [])"
    by (simp add: demo_request_def serialize_def to_le_bytes_def read_message_def HEADER_SIZE_def
        numeral_eq_Suc)
  have "ERROR_CONNECTION_CLOSED \<noteq> ERROR_TIMEOUT" by (simp add: error_code_defs)
  with r show ?thesis
    by (simp add: timeout_inside_header_drops_bytes [OF l] serve_conn_rejected)
qed

end
