(* ===== verification/Lifecycle.thy ===== *)
theory Lifecycle
  imports TR_Prelude
begin

text \<open>
  \<^verbatim>\<open>rust/framework/src/core/daemon.rs\<close> (the daemon's states and its systemd notifications) and
  \<^verbatim>\<open>rust/framework/src/plugin_manager/mod.rs\<close> (initialisation in order, shutdown in reverse).

  The \<open>sd_notify\<close> crate and the process environment are parameters: \<open>has_socket\<close> says whether
  \<open>NOTIFY_SOCKET\<close> is set and \<open>sd_notify\<close> sends a notification and says whether that succeeded,
  both on an environment of any type.
\<close>

section \<open>The daemon\<close>

datatype daemon_state = Initializing | Ready | Stopping | Stopped

datatype daemon_error =
    InvalidTransition daemon_state daemon_state
  | CannotStop daemon_state
  | NotifyFailed

datatype notify_state = NotifyReady | NotifyStopping | NotifyStatus string

record 'e systemd =
  has_socket :: "'e \<Rightarrow> bool"
  sd_notify :: "bool \<Rightarrow> notify_state list \<Rightarrow> 'e \<Rightarrow> bool \<times> 'e"

type_synonym 'e daemon_result = "(daemon_error + unit) \<times> daemon_state \<times> 'e"

definition daemon_new :: daemon_state where
  "daemon_new = Initializing"

definition send_notify ::
  "'e systemd \<Rightarrow> bool \<Rightarrow> notify_state list \<Rightarrow> 'e \<Rightarrow> (daemon_error + unit) \<times> 'e" where
  "send_notify sd unset_env states env =
     (if has_socket sd env
      then (case sd_notify sd unset_env states env of
              (ok, env') \<Rightarrow> (if ok then Inr () else Inl NotifyFailed, env'))
      else (Inr (), env))"

fun transition_to :: "daemon_state \<Rightarrow> daemon_state \<Rightarrow> (daemon_error + unit) \<times> daemon_state" where
  "transition_to Initializing Ready = (Inr (), Ready)"
| "transition_to Ready Stopping = (Inr (), Stopping)"
| "transition_to Stopping Stopped = (Inr (), Stopped)"
| "transition_to s t = (Inl (InvalidTransition s t), s)"

definition notify_ready :: "'e systemd \<Rightarrow> daemon_state \<Rightarrow> 'e \<Rightarrow> 'e daemon_result" where
  "notify_ready sd st env =
     (case transition_to st Ready of
        (Inl e, st') \<Rightarrow> (Inl e, st', env)
      | (Inr _, st') \<Rightarrow>
          (case send_notify sd False [NotifyReady] env of (r, env') \<Rightarrow> (r, st', env')))"

definition notify_stopping :: "'e systemd \<Rightarrow> daemon_state \<Rightarrow> 'e \<Rightarrow> 'e daemon_result" where
  "notify_stopping sd st env =
     (if st \<noteq> Ready then (Inl (CannotStop st), st, env)
      else case send_notify sd True [NotifyStopping] env of
             (Inl e, env') \<Rightarrow> (Inl e, Stopping, env')
           | (Inr _, env') \<Rightarrow> (Inr (), Stopped, env'))"

definition notify_status :: "'e systemd \<Rightarrow> string \<Rightarrow> daemon_state \<Rightarrow> 'e \<Rightarrow> 'e daemon_result" where
  "notify_status sd status st env =
     (case send_notify sd False [NotifyStatus status] env of (r, env') \<Rightarrow> (r, st, env'))"

text \<open>The public operations as a step relation on the daemon and its environment.\<close>

inductive daemon_step :: "'e systemd \<Rightarrow> daemon_state \<times> 'e \<Rightarrow> daemon_state \<times> 'e \<Rightarrow> bool"
  for sd :: "'e systemd" where
  ready: "notify_ready sd st env = (r, st', env') \<Longrightarrow> daemon_step sd (st, env) (st', env')"
| stopping: "notify_stopping sd st env = (r, st', env') \<Longrightarrow> daemon_step sd (st, env) (st', env')"
| status: "notify_status sd msg st env = (r, st', env') \<Longrightarrow> daemon_step sd (st, env) (st', env')"

inductive_cases daemon_stepE: "daemon_step sd (st, env) (st', env')"

inductive daemon_reach :: "'e systemd \<Rightarrow> 'e \<Rightarrow> daemon_state \<times> 'e \<Rightarrow> daemon_state \<times> 'e \<Rightarrow> bool"
  for sd :: "'e systemd" and env0 :: 'e where
  refl: "daemon_reach sd env0 s s"
| step: "daemon_reach sd env0 s t \<Longrightarrow> daemon_step sd t u \<Longrightarrow> daemon_reach sd env0 s u"

fun rank :: "daemon_state \<Rightarrow> nat" where
  "rank Initializing = 0" | "rank Ready = 1" | "rank Stopping = 2" | "rank Stopped = 3"

lemma transition_to_cases:
  "transition_to s t = (r, s') \<Longrightarrow>
     (r = Inr () \<and> s' = t \<and> rank t = Suc (rank s)) \<or>
     (r = Inl (InvalidTransition s t) \<and> s' = s \<and> rank t \<noteq> Suc (rank s))"
  by (cases s; cases t) auto

lemma notify_ready_cases:
  "notify_ready sd st env = (r, st', env') \<Longrightarrow> (st = Initializing \<and> st' = Ready) \<or> (st' = st \<and> env' = env)"
  by (cases st) (auto simp: notify_ready_def split: prod.splits sum.splits)

lemma notify_stopping_cases:
  "notify_stopping sd st env = (r, st', env') \<Longrightarrow>
     (st = Ready \<and> r = Inr () \<and> st' = Stopped) \<or> (st = Ready \<and> r = Inl NotifyFailed \<and> st' = Stopping) \<or>
     (st \<noteq> Ready \<and> r = Inl (CannotStop st) \<and> st' = st \<and> env' = env)"
  by (auto simp: notify_stopping_def send_notify_def split: prod.splits sum.splits if_splits)

lemma notify_status_state: "notify_status sd msg st env = (r, st', env') \<Longrightarrow> st' = st"
  by (auto simp: notify_status_def split: prod.splits)

lemma daemon_step_state:
  assumes "daemon_step sd (st, env) (st', env')"
  shows "st' = st \<or> (st = Initializing \<and> st' = Ready) \<or> (st = Ready \<and> st' \<in> {Stopping, Stopped})"
  using assms
  by (elim daemon_stepE) (auto dest: notify_ready_cases notify_stopping_cases notify_status_state)

lemma daemon_reach_state:
  "daemon_reach sd e0 s t \<Longrightarrow> rank (fst s) \<le> rank (fst t) \<and>
     (fst s \<in> {Stopping, Stopped} \<longrightarrow> fst t = fst s) \<and>
     (fst s = Initializing \<and> fst t \<noteq> Initializing \<longrightarrow> (\<exists>e. daemon_reach sd e0 s (Ready, e)))"
proof (induction rule: daemon_reach.induct)
  case (refl s)
  then show ?case by simp
next
  case (step s t u)
  obtain st env where t: "t = (st, env)" by fastforce
  obtain st' env' where u: "u = (st', env')" by fastforce
  from step(2) t u have "st' = st \<or> (st = Initializing \<and> st' = Ready) \<or> (st = Ready \<and> st' \<in> {Stopping, Stopped})"
    by (auto dest: daemon_step_state)
  moreover have "daemon_reach sd e0 s u" using step.hyps by (rule daemon_reach.step)
  ultimately show ?case using step t u by fastforce
qed

section \<open>Plugins\<close>

text \<open>
  A plugin's \<open>init\<close> and \<open>shutdown\<close> act on a world of any type (the transport they register their
  handlers on, their own state) and may fail.
\<close>

datatype plugin_error = InitFailed string | ShutdownFailed string

record 'w plugin =
  plugin_name :: string
  plugin_init :: "'w \<Rightarrow> (plugin_error + unit) \<times> 'w"
  plugin_shutdown :: "'w \<Rightarrow> (plugin_error + unit) \<times> 'w"

definition add_plugin :: "'w plugin \<Rightarrow> 'w plugin list \<Rightarrow> 'w plugin list" where
  "add_plugin p ps = ps @ [p]"

fun init_all :: "'w plugin list \<Rightarrow> 'w \<Rightarrow> (plugin_error + unit) \<times> 'w" where
  "init_all [] w = (Inr (), w)"
| "init_all (p # ps) w =
     (case plugin_init p w of
        (Inl e, w') \<Rightarrow> (Inl e, w')
      | (Inr _, w') \<Rightarrow> init_all ps w')"

text \<open>The loop pops the last plugin; what is left of the list is part of the result.\<close>

function shutdown_all ::
  "'w plugin list \<Rightarrow> 'w \<Rightarrow> (plugin_error + unit) \<times> 'w plugin list \<times> 'w" where
  "shutdown_all ps w =
     (if ps = [] then (Inr (), [], w)
      else case plugin_shutdown (last ps) w of
             (Inl e, w') \<Rightarrow> (Inl e, butlast ps, w')
           | (Inr _, w') \<Rightarrow> shutdown_all (butlast ps) w')"
  by pat_completeness auto
termination
  by (relation "measure (\<lambda>(ps, w). length ps)") auto

declare shutdown_all.simps [simp del]

lemma shutdown_all_Nil [simp]: "shutdown_all [] w = (Inr (), [], w)"
  by (simp add: shutdown_all.simps)

lemma shutdown_all_snoc [simp]:
  "shutdown_all (ps @ [p]) w =
     (case plugin_shutdown p w of
        (Inl e, w') \<Rightarrow> (Inl e, ps, w')
      | (Inr _, w') \<Rightarrow> shutdown_all ps w')"
  by (subst shutdown_all.simps) (auto split: prod.split sum.split)

text \<open>The sequence of calls, for any list of plugin operations, up to and including the first failure.\<close>

fun run_until_error :: "('w \<Rightarrow> ('e + unit) \<times> 'w) list \<Rightarrow> 'w \<Rightarrow> ('e + unit) \<times> nat \<times> 'w" where
  "run_until_error [] w = (Inr (), 0, w)"
| "run_until_error (f # fs) w =
     (case f w of
        (Inl e, w') \<Rightarrow> (Inl e, 0, w')
      | (Inr _, w') \<Rightarrow> (case run_until_error fs w' of (r, n, w'') \<Rightarrow> (r, Suc n, w'')))"

lemma run_until_error_le: "run_until_error fs w = (r, n, w') \<Longrightarrow> n \<le> length fs"
  by (induction fs w arbitrary: r n w' rule: run_until_error.induct)
     (fastforce split: prod.splits sum.splits)+

lemma run_until_error_ok: "run_until_error fs w = (Inr (), n, w') \<Longrightarrow> n = length fs"
  by (induction fs w arbitrary: n w' rule: run_until_error.induct)
     (fastforce split: prod.splits sum.splits)+

lemma init_all_run:
  "init_all ps w = (case run_until_error (map plugin_init ps) w of (r, n, w') \<Rightarrow> (r, w'))"
  by (induction ps w rule: init_all.induct) (auto split: prod.splits sum.splits)

lemma shutdown_all_run:
  "shutdown_all ps w =
     (case run_until_error (map plugin_shutdown (rev ps)) w of
        (Inl e, n, w') \<Rightarrow> (Inl e, take (length ps - Suc n) ps, w')
      | (Inr _, n, w') \<Rightarrow> (Inr (), [], w'))"
proof (induction ps arbitrary: w rule: rev_induct)
  case Nil
  then show ?case by simp
next
  case (snoc p ps)
  show ?case
    by (auto simp: snoc.IH split: prod.splits sum.splits)
qed

section \<open>Properties\<close>

text \<open>A systemd whose \<open>STOPPING=1\<close> notification can be made to fail, for the witnesses.\<close>

definition demo_systemd :: "bool \<Rightarrow> notify_state list systemd" where
  "demo_systemd stop_ok =
     \<lparr>has_socket = (\<lambda>_. True),
      sd_notify = (\<lambda>_ ns log. (stop_ok \<or> NotifyStopping \<notin> set ns, log @ ns))\<rparr>"

text \<open>
  Daemon state machine.  Whatever sequence of public operations is applied to a new daemon and
  whatever systemd answers, its state only moves forward (Initializing, Ready, Stopping, Stopped),
  no state but Initializing is reached without passing through Ready, and once it is Stopping or
  Stopped no operation changes it.
\<close>

theorem daemon_moves_forward:
  assumes "daemon_reach sd env (daemon_new, env) (st, env1)"
    and "daemon_reach sd env (st, env1) (st', env2)"
  shows "rank st \<le> rank st' \<and>
     (st = Initializing \<or> (\<exists>e. daemon_reach sd env (daemon_new, env) (Ready, e))) \<and>
     (st \<notin> {Stopping, Stopped} \<or> st' = st)"
  using daemon_reach_state [OF assms(1)] daemon_reach_state [OF assms(2)]
  by (auto simp: daemon_new_def)

theorem daemon_moves_forward_witness:
  "daemon_reach (demo_systemd True) [] (daemon_new, []) (Ready, [NotifyReady]) \<and>
   daemon_reach (demo_systemd True) [] (Ready, [NotifyReady]) (Stopped, [NotifyReady, NotifyStopping]) \<and>
   rank Ready \<le> rank Stopped"
proof -
  have 1: "daemon_reach (demo_systemd True) [] (daemon_new, []) (Ready, [NotifyReady])"
    by (rule daemon_reach.step [OF daemon_reach.refl], rule daemon_step.ready)
       (simp add: notify_ready_def send_notify_def demo_systemd_def daemon_new_def)
  have 2: "daemon_reach (demo_systemd True) [] (Ready, [NotifyReady])
      (Stopped, [NotifyReady, NotifyStopping])"
    by (rule daemon_reach.step [OF daemon_reach.refl], rule daemon_step.stopping)
       (simp add: notify_stopping_def send_notify_def demo_systemd_def)
  show ?thesis using daemon_moves_forward [OF 1 2] 1 2 by simp
qed

text \<open>
  A failed stop is final.  If \<open>notify_stopping\<close> cannot deliver \<open>STOPPING=1\<close> it returns an error
  with the daemon left in Stopping, and from there every operation leaves it in Stopping: the
  daemon never reaches Stopped, and a retry of \<open>notify_stopping\<close> is refused.
\<close>

theorem failed_stop_is_final:
  assumes "notify_stopping sd Ready env = (Inl e, st, env1)"
    and "daemon_reach sd env (st, env1) (st', env2)"
  shows "st = Stopping \<and> st' = Stopping \<and>
    fst (notify_stopping sd st' env2) = Inl (CannotStop Stopping)"
proof -
  have "st = Stopping" using notify_stopping_cases [OF assms(1)] by auto
  with daemon_reach_state [OF assms(2)] show ?thesis by (simp add: notify_stopping_def)
qed

theorem failed_stop_is_final_witness:
  "fst (snd (notify_stopping (demo_systemd False) Ready [])) = Stopping \<and>
   fst (notify_stopping (demo_systemd False) Stopping [NotifyStopping]) = Inl (CannotStop Stopping)"
proof -
  have n: "notify_stopping (demo_systemd False) Ready [] = (Inl NotifyFailed, Stopping, [NotifyStopping])"
    by (simp add: notify_stopping_def send_notify_def demo_systemd_def)
  show ?thesis using failed_stop_is_final [OF n daemon_reach.refl] n by simp
qed

text \<open>
  C37. Plugin lifecycle.  \<open>init_all\<close> calls the plugins' \<open>init\<close> in the order they were added and
  \<open>shutdown_all\<close> their \<open>shutdown\<close> in the reverse order, each on the world the previous call left,
  up to and including the first failure; after a complete shutdown no plugin is left, after a
  failed one exactly the plugins added before the failing one are.
\<close>

theorem plugin_manager_order:
  "init_all ps w = (case run_until_error (map plugin_init ps) w of (r, n, w') \<Rightarrow> (r, w')) \<and>
   shutdown_all ps w =
     (case run_until_error (map plugin_shutdown (rev ps)) w of
        (Inl e, n, w') \<Rightarrow> (Inl e, take (length ps - Suc n) ps, w')
      | (Inr _, n, w') \<Rightarrow> (Inr (), [], w'))"
  by (rule conjI [OF init_all_run shutdown_all_run])

end
