(* ===== verification/Trustring.thy ===== *)
theory Trustring
  imports Certs VsockConnection Lifecycle
begin

text \<open>
  The CMS signing plugin, \<^verbatim>\<open>rust/plugins/trustring/src\<close>: \<open>cert_loader.rs\<close>, \<open>sign.rs\<close>,
  \<open>verify.rs\<close>, \<open>error_code_mapper.rs\<close> and \<open>handler.rs\<close>.  OpenSSL is the parameter \<open>ossl\<close> of the
  certificate theory; the JSON and base64 crates are the parameter \<open>codec\<close>.
\<close>

section \<open>Certificates and signing\<close>

record cms_certificate =
  cc_cert :: x509
  cc_key :: pkey
  cc_cert_id :: bytes

definition cms_certificate_load ::
  "ossl \<Rightarrow> bool \<Rightarrow> file_system \<Rightarrow> string \<Rightarrow> string \<Rightarrow> cert_load_error + cms_certificate" where
  "cms_certificate_load lib debug fs cert_path key_path =
     rbind (load_x509 lib debug fs cert_path) (\<lambda>cert.
     rbind (load_private_key lib debug fs key_path None) (\<lambda>key.
     rbind (extract_key_usage_flags lib cert) (\<lambda>actual_flags.
       if actual_flags \<noteq> DIGITAL_SIGNATURE then Inl InvalidFormat
       else rbind (extract_subject_key_id lib cert) (\<lambda>cert_id.
         Inr \<lparr>cc_cert = cert, cc_key = key, cc_cert_id = cert_id\<rparr>))))"

definition ca_certificate_load ::
  "ossl \<Rightarrow> bool \<Rightarrow> file_system \<Rightarrow> string \<Rightarrow> cert_load_error + x509" where
  "ca_certificate_load lib debug fs path = load_x509 lib debug fs path"

definition crl_load ::
  "ossl \<Rightarrow> bool \<Rightarrow> file_system \<Rightarrow> string \<Rightarrow> x509 \<Rightarrow> cert_load_error + x509_crl" where
  "crl_load lib debug fs path ca_cert = load_and_verify_crl lib debug fs path ca_cert"

datatype sign_error = SignOpenSslError

record signer =
  sg_cert :: x509
  sg_key :: pkey
  sg_cert_id :: bytes

definition signer_new :: "cms_certificate \<Rightarrow> signer" where
  "signer_new c = \<lparr>sg_cert = cc_cert c, sg_key = cc_key c, sg_cert_id = cc_cert_id c\<rparr>"

definition sign_with_input :: "ossl \<Rightarrow> signer \<Rightarrow> bytes \<Rightarrow> bytes \<Rightarrow> sign_error + bytes" where
  "sign_with_input lib sg d i =
     (case cms_sign_der lib (sg_cert sg) (sg_key sg) (d @ i) of
        None \<Rightarrow> Inl SignOpenSslError | Some der \<Rightarrow> Inr der)"

definition sign :: "ossl \<Rightarrow> signer \<Rightarrow> bytes \<Rightarrow> sign_error + bytes" where
  "sign lib sg d = sign_with_input lib sg d (sg_cert_id sg)"

definition sign_with_id :: "ossl \<Rightarrow> signer \<Rightarrow> bytes \<Rightarrow> bytes \<Rightarrow> sign_error + bytes" where
  "sign_with_id lib sg d external_id = sign_with_input lib sg d external_id"

section \<open>Verification\<close>

datatype verify_error =
    OpenSslError | CertificateChainInvalid | CertificateRevoked | SignatureMismatch
  | FormatError | InvalidKeyUsage | InvalidAlgorithm

datatype verify_outcome = SameNode | OtherNode | IdentityConflict

definition X509_V_ERR_CERT_HAS_EXPIRED :: int where "X509_V_ERR_CERT_HAS_EXPIRED = 10"
definition X509_V_ERR_UNABLE_TO_GET_ISSUER_CERT :: int where "X509_V_ERR_UNABLE_TO_GET_ISSUER_CERT = 2"
definition X509_V_ERR_CERT_SIGNATURE_FAILURE :: int where "X509_V_ERR_CERT_SIGNATURE_FAILURE = 7"
definition X509_V_ERR_DEPTH_ZERO_SELF_SIGNED_CERT :: int where
  "X509_V_ERR_DEPTH_ZERO_SELF_SIGNED_CERT = 18"
definition X509_V_ERR_SELF_SIGNED_CERT_IN_CHAIN :: int where
  "X509_V_ERR_SELF_SIGNED_CERT_IN_CHAIN = 19"
definition X509_V_ERR_UNABLE_TO_GET_ISSUER_CERT_LOCALLY :: int where
  "X509_V_ERR_UNABLE_TO_GET_ISSUER_CERT_LOCALLY = 20"
definition X509_V_ERR_CERT_REVOKED :: int where "X509_V_ERR_CERT_REVOKED = 23"
definition X509_V_ERR_CERT_UNTRUSTED :: int where "X509_V_ERR_CERT_UNTRUSTED = 27"
definition X509_V_ERR_CERT_REJECTED :: int where "X509_V_ERR_CERT_REJECTED = 28"

lemmas x509_codes = X509_V_ERR_CERT_HAS_EXPIRED_def X509_V_ERR_UNABLE_TO_GET_ISSUER_CERT_def
  X509_V_ERR_CERT_SIGNATURE_FAILURE_def X509_V_ERR_DEPTH_ZERO_SELF_SIGNED_CERT_def
  X509_V_ERR_SELF_SIGNED_CERT_IN_CHAIN_def X509_V_ERR_UNABLE_TO_GET_ISSUER_CERT_LOCALLY_def
  X509_V_ERR_CERT_REVOKED_def X509_V_ERR_CERT_UNTRUSTED_def X509_V_ERR_CERT_REJECTED_def

definition map_x509_error_to_verify_error :: "int \<Rightarrow> verify_error" where
  "map_x509_error_to_verify_error code =
     (if code \<in> {X509_V_ERR_UNABLE_TO_GET_ISSUER_CERT, X509_V_ERR_DEPTH_ZERO_SELF_SIGNED_CERT,
                  X509_V_ERR_SELF_SIGNED_CERT_IN_CHAIN,
                  X509_V_ERR_UNABLE_TO_GET_ISSUER_CERT_LOCALLY, X509_V_ERR_CERT_UNTRUSTED,
                  X509_V_ERR_CERT_REJECTED}
      then CertificateChainInvalid
      else if code = X509_V_ERR_CERT_REVOKED then CertificateRevoked
      else if code = X509_V_ERR_CERT_SIGNATURE_FAILURE then SignatureMismatch
      else SignatureMismatch)"

text \<open>The callback: its answer, and the thread-local error code after it.\<close>

definition verify_callback :: "bool \<Rightarrow> int \<Rightarrow> int \<Rightarrow> int \<Rightarrow> bool \<times> int" where
  "verify_callback ok error depth code =
     (if \<not> ok then
        (if error = X509_V_ERR_CERT_HAS_EXPIRED then (depth = 0, error) else (False, error))
      else (True, code))"

text \<open>OpenSSL builds the chain while the callback answers 1 and gives up when it answers 0.\<close>

fun run_callbacks :: "(bool \<times> int \<times> int) list \<Rightarrow> int \<Rightarrow> bool \<times> int" where
  "run_callbacks [] code = (True, code)"
| "run_callbacks ((ok, error, depth) # evs) code =
     (case verify_callback ok error depth code of
        (True, code') \<Rightarrow> run_callbacks evs code'
      | (False, code') \<Rightarrow> (False, code'))"

record verifier =
  vf_ca_cert :: x509
  vf_crl :: "x509_crl option"
  vf_local_cert_id :: bytes
  vf_local_cert :: x509

definition verifier_new :: "x509 \<Rightarrow> x509_crl option \<Rightarrow> cms_certificate \<Rightarrow> verifier" where
  "verifier_new ca crl local_cert =
     \<lparr>vf_ca_cert = ca, vf_crl = crl, vf_local_cert_id = cc_cert_id local_cert,
      vf_local_cert = cc_cert local_cert\<rparr>"

definition parse_cms :: "ossl \<Rightarrow> bytes \<Rightarrow> verify_error + cms" where
  "parse_cms lib signed_data =
     (case cms_from_der lib signed_data of None \<Rightarrow> Inl FormatError | Some c \<Rightarrow> Inr c)"

definition build_cert_store :: "ossl \<Rightarrow> verifier \<Rightarrow> verify_error + x509" where
  "build_cert_store lib v =
     (if store_accepts lib (vf_ca_cert v) then Inr (vf_ca_cert v) else Inl OpenSslError)"

definition verify_cms_signature ::
  "ossl \<Rightarrow> cms \<Rightarrow> x509 \<Rightarrow> bytes \<Rightarrow> bytes \<Rightarrow> verify_error + unit" where
  "verify_cms_signature lib c store d signer_cert_id =
     (case run_callbacks (chain_events lib c store) 0 of (chain_ok, code) \<Rightarrow>
        if chain_ok \<and> cms_signature_ok lib c (d @ signer_cert_id) then Inr ()
        else Inl (map_x509_error_to_verify_error code))"

definition extract_signer_cert :: "ossl \<Rightarrow> cms \<Rightarrow> x509 option" where
  "extract_signer_cert lib c =
     (case cms_signers lib c of
        None \<Rightarrow> None
      | Some stack \<Rightarrow> if length stack = 0 then None else if length stack > 1 then None else hd stack)"

definition verify_signer_key_usage :: "ossl \<Rightarrow> x509 \<Rightarrow> verify_error + unit" where
  "verify_signer_key_usage lib cert =
     (case extract_key_usage_flags lib cert of
        Inl _ \<Rightarrow> Inl InvalidKeyUsage
      | Inr flags \<Rightarrow> if flags \<noteq> DIGITAL_SIGNATURE then Inl InvalidKeyUsage else Inr ())"

definition verify_signer_algorithm :: "ossl \<Rightarrow> cms \<Rightarrow> x509 \<Rightarrow> verify_error + unit" where
  "verify_signer_algorithm lib c cert =
     (case public_key lib cert of
        None \<Rightarrow> Inl FormatError
      | Some pk \<Rightarrow>
          if \<not> is_ec lib pk then Inl InvalidAlgorithm
          else case ec_curve lib pk of
            None \<Rightarrow> Inl FormatError
          | Some crv \<Rightarrow>
              if crv \<noteq> P256 then Inl InvalidAlgorithm
              else case cms_digest lib c of
                None \<Rightarrow> Inl FormatError
              | Some dg \<Rightarrow> if dg \<noteq> Sha256 then Inl InvalidAlgorithm else Inr ())"

text \<open>An expired revocation list is warned about, the first time it is used, and used all the same.\<close>

definition check_crl_revocation :: "ossl \<Rightarrow> verifier \<Rightarrow> cms \<Rightarrow> verify_error + unit" where
  "check_crl_revocation lib v c =
     (case vf_crl v of
        None \<Rightarrow> Inr ()
      | Some crl \<Rightarrow>
          (case cms_certs lib c of
             None \<Rightarrow> Inr ()
           | Some stack \<Rightarrow>
               (case crl_revoked lib crl of
                  None \<Rightarrow> Inr ()
                | Some revoked \<Rightarrow>
                    if list_ex (\<lambda>cert. list_ex (\<lambda>r. r = serial_number lib cert) revoked)
                         (List.map_filter id stack)
                    then Inl CertificateRevoked else Inr ())))"

definition public_key_to_pem :: "ossl \<Rightarrow> x509 \<Rightarrow> verify_error + bytes" where
  "public_key_to_pem lib cert =
     (case Option.bind (public_key lib cert) (public_key_pem lib) of
        None \<Rightarrow> Inl FormatError | Some pem \<Rightarrow> Inr pem)"

definition determine_identity ::
  "ossl \<Rightarrow> verifier \<Rightarrow> x509 \<Rightarrow> bytes \<Rightarrow> verify_error + verify_outcome" where
  "determine_identity lib v signer_cert signer_cert_id =
     rbind (public_key_to_pem lib signer_cert) (\<lambda>signer_pem.
     rbind (public_key_to_pem lib (vf_local_cert v)) (\<lambda>local_pem.
       if signer_pem = local_pem then Inr IdentityConflict
       else if signer_cert_id = vf_local_cert_id v then Inr SameNode else Inr OtherNode))"

text \<open>The part \<open>verify\<close> and \<open>verify_signature_only\<close> have in common: the signer's certificate.\<close>

definition verified_signer ::
  "ossl \<Rightarrow> verifier \<Rightarrow> bytes \<Rightarrow> bytes \<Rightarrow> bytes \<Rightarrow> verify_error + x509" where
  "verified_signer lib v signed_data d signer_cert_id =
     rbind (parse_cms lib signed_data) (\<lambda>c.
     rbind (build_cert_store lib v) (\<lambda>store.
     rbind (verify_cms_signature lib c store d signer_cert_id) (\<lambda>_.
     rbind (case extract_signer_cert lib c of None \<Rightarrow> Inl FormatError | Some x \<Rightarrow> Inr x) (\<lambda>cert.
     rbind (verify_signer_key_usage lib cert) (\<lambda>_.
     rbind (verify_signer_algorithm lib c cert) (\<lambda>_.
     rbind (check_crl_revocation lib v c) (\<lambda>_. Inr cert)))))))"

definition verify ::
  "ossl \<Rightarrow> verifier \<Rightarrow> bytes \<Rightarrow> bytes \<Rightarrow> bytes \<Rightarrow> verify_error + verify_outcome" where
  "verify lib v signed_data d signer_cert_id =
     rbind (verified_signer lib v signed_data d signer_cert_id)
       (\<lambda>cert. determine_identity lib v cert signer_cert_id)"

definition verify_signature_only ::
  "ossl \<Rightarrow> verifier \<Rightarrow> bytes \<Rightarrow> bytes \<Rightarrow> bytes \<Rightarrow> verify_error + unit" where
  "verify_signature_only lib v signed_data d signer_cert_id =
     rbind (verified_signer lib v signed_data d signer_cert_id) (\<lambda>_. Inr ())"

section \<open>Result codes\<close>

datatype business_error =
    BChainInvalid | BRevoked | BSignatureMismatch | BInvalidKeyUsage | BFormatError
  | BCertificateLoadFailed | BPrivateKeyUnavailable | BSigningAlgorithmError
  | BJsonParseError | BBase64DecodeError | BIdMismatch | BOther u32

fun to_result_code :: "business_error \<Rightarrow> u32" where
  "to_result_code BChainInvalid = 3"
| "to_result_code BRevoked = 4"
| "to_result_code BSignatureMismatch = 5"
| "to_result_code BInvalidKeyUsage = 6"
| "to_result_code BFormatError = 7"
| "to_result_code BCertificateLoadFailed = 10"
| "to_result_code BPrivateKeyUnavailable = 11"
| "to_result_code BSigningAlgorithmError = 12"
| "to_result_code BJsonParseError = 20"
| "to_result_code BBase64DecodeError = 21"
| "to_result_code BIdMismatch = 22"
| "to_result_code (BOther code) = code"

unbundle bit_operations_syntax

definition err_get_lib :: "u64 \<Rightarrow> u64" where
  "err_get_lib errcode = drop_bit 24 errcode AND 0xFF"

definition map_openssl_error_code :: "ossl \<Rightarrow> business_error" where
  "map_openssl_error_code lib =
     (let error_code = err_peek_error lib in
      if error_code \<noteq> 0 then
        let l = err_get_lib error_code in
        if l = 9 \<or> l = 13 then BFormatError
        else if l = 11 then BCertificateLoadFailed
        else if l = 16 \<or> l = 42 then BSigningAlgorithmError
        else BOther 10
      else BOther 10)"

fun map_sign_error :: "ossl \<Rightarrow> sign_error \<Rightarrow> business_error" where
  "map_sign_error lib SignOpenSslError = map_openssl_error_code lib"

fun map_verify_error :: "verify_error \<Rightarrow> business_error" where
  "map_verify_error OpenSslError = BOther 99"
| "map_verify_error CertificateChainInvalid = BChainInvalid"
| "map_verify_error CertificateRevoked = BRevoked"
| "map_verify_error SignatureMismatch = BSignatureMismatch"
| "map_verify_error FormatError = BFormatError"
| "map_verify_error InvalidKeyUsage = BInvalidKeyUsage"
| "map_verify_error InvalidAlgorithm = BSigningAlgorithmError"

section \<open>What is accepted\<close>

text \<open>A step of chain building that passes: it succeeded, or the leaf certificate has expired.\<close>

definition tolerated :: "bool \<times> int \<times> int \<Rightarrow> bool" where
  "tolerated ev = (case ev of (ok, error, depth) \<Rightarrow> ok \<or> error = X509_V_ERR_CERT_HAS_EXPIRED \<and> depth = 0)"

lemma run_callbacks_iff: "fst (run_callbacks evs code) \<longleftrightarrow> list_all tolerated evs"
  by (induction evs code rule: run_callbacks.induct)
     (auto simp: verify_callback_def tolerated_def split: prod.splits bool.splits if_splits)

text \<open>The requirements on a signature, its chain and its signer, apart from revocation.\<close>

definition signature_valid :: "ossl \<Rightarrow> verifier \<Rightarrow> cms \<Rightarrow> bytes \<Rightarrow> bool" where
  "signature_valid lib v c input \<longleftrightarrow>
     store_accepts lib (vf_ca_cert v) \<and> list_all tolerated (chain_events lib c (vf_ca_cert v)) \<and>
     cms_signature_ok lib c input"

definition signer_acceptable :: "ossl \<Rightarrow> cms \<Rightarrow> x509 \<Rightarrow> bool" where
  "signer_acceptable lib c cert \<longleftrightarrow>
     cms_signers lib c = Some [Some cert] \<and> key_usage_ext lib cert = Some [0x80] \<and>
     (\<exists>pk. public_key lib cert = Some pk \<and> is_ec lib pk \<and> ec_curve lib pk = Some P256) \<and>
     cms_digest lib c = Some Sha256"

definition not_revoked :: "ossl \<Rightarrow> verifier \<Rightarrow> cms \<Rightarrow> bool" where
  "not_revoked lib v c \<longleftrightarrow>
     (\<forall>crl stack revoked cert. vf_crl v = Some crl \<longrightarrow> cms_certs lib c = Some stack \<longrightarrow>
        crl_revoked lib crl = Some revoked \<longrightarrow> Some cert \<in> set stack \<longrightarrow>
        serial_number lib cert \<notin> set revoked)"

lemma extract_signer_cert_Some:
  "extract_signer_cert lib c = Some cert \<longleftrightarrow> cms_signers lib c = Some [Some cert]"
proof -
  have "(if length st = 0 then None else if length st > 1 then None else hd st) = Some cert \<longleftrightarrow>
      st = [Some cert]" for st :: "x509 option list"
    by (cases st) auto
  then show ?thesis by (simp add: extract_signer_cert_def split: option.split)
qed

lemma verify_signer_key_usage_Inr:
  "verify_signer_key_usage lib cert = Inr () \<longleftrightarrow> key_usage_ext lib cert = Some [0x80]"
  using key_usage_exact_signature [of lib cert]
  by (auto simp: verify_signer_key_usage_def split: sum.splits if_splits)

lemma verify_signer_algorithm_Inr:
  "verify_signer_algorithm lib c cert = Inr () \<longleftrightarrow>
     (\<exists>pk. public_key lib cert = Some pk \<and> is_ec lib pk \<and> ec_curve lib pk = Some P256) \<and>
     cms_digest lib c = Some Sha256"
  by (auto simp: verify_signer_algorithm_def split: option.splits if_splits)

lemma set_map_filter_id [simp]: "x \<in> set (List.map_filter id xs) \<longleftrightarrow> Some x \<in> set xs"
  by (induction xs) (auto simp: List.map_filter_def)

lemma check_crl_revocation_Inr: "check_crl_revocation lib v c = Inr () \<longleftrightarrow> not_revoked lib v c"
  by (auto simp: check_crl_revocation_def not_revoked_def list_ex_iff
      split: option.splits if_splits)

lemma verify_cms_signature_Inr:
  "verify_cms_signature lib c store d i = Inr () \<longleftrightarrow>
     list_all tolerated (chain_events lib c store) \<and> cms_signature_ok lib c (d @ i)"
  using run_callbacks_iff [of "chain_events lib c store" 0]
  by (auto simp: verify_cms_signature_def split: prod.splits)

lemma verified_signer_Inr:
  "verified_signer lib v sd d i = Inr cert \<longleftrightarrow>
     (\<exists>c. cms_from_der lib sd = Some c \<and> signature_valid lib v c (d @ i) \<and>
        signer_acceptable lib c cert \<and> not_revoked lib v c)"
  by (auto simp: verified_signer_def rbind_eq_Inr parse_cms_def build_cert_store_def
      verify_cms_signature_Inr verify_signer_key_usage_Inr verify_signer_algorithm_Inr
      check_crl_revocation_Inr signature_valid_def signer_acceptable_def
      extract_signer_cert_Some [symmetric] split: option.splits if_splits)

lemma determine_identity_Inr:
  "determine_identity lib v cert i = Inr out \<longleftrightarrow>
     (\<exists>sp lp. public_key_to_pem lib cert = Inr sp \<and> public_key_to_pem lib (vf_local_cert v) = Inr lp \<and>
        out = (if sp = lp then IdentityConflict
               else if i = vf_local_cert_id v then SameNode else OtherNode))"
  by (auto simp: determine_identity_def rbind_eq_Inr)

lemma verified_signer_crl_date:
  "verified_signer (lib\<lparr>crl_next_update := dates\<rparr>) v sd d i = verified_signer lib v sd d i"
  by (simp add: verified_signer_def parse_cms_def build_cert_store_def verify_cms_signature_def
      extract_signer_cert_def verify_signer_key_usage_def extract_key_usage_flags_def
      verify_signer_algorithm_def check_crl_revocation_def cong: option.case_cong if_cong)

lemma determine_identity_crl_date:
  "determine_identity (lib\<lparr>crl_next_update := dates\<rparr>) v cert i = determine_identity lib v cert i"
  by (simp add: determine_identity_def public_key_to_pem_def)

definition demo_verifier :: verifier where
  "demo_verifier = \<lparr>vf_ca_cert = 1, vf_crl = Some 1, vf_local_cert_id = [7], vf_local_cert = 1\<rparr>"

text \<open>
  C8. A signature is accepted exactly when the CMS message parses, every step of its chain to the
  configured CA passed or only reported an expired leaf, the signature is valid over the data
  followed by the certificate id, there is exactly one signer, whose certificate has the key usage
  digitalSignature and nothing else and a P-256 key, the digest is SHA-256, and no certificate of
  the message has a serial number on the configured revocation list.  Both entry points of the
  verifier accept the same signatures; only \<open>verify\<close> then compares identities, public keys first.
  The date of the revocation list plays no part: an expired one leads to the same answers, where
  \<^verbatim>\<open>CONTEXT.md\<close> announces a verification error.
\<close>

theorem verification_accepts_exactly:
  "(verify_signature_only lib v sd d i = Inr () \<longleftrightarrow>
     (\<exists>c cert. cms_from_der lib sd = Some c \<and> signature_valid lib v c (d @ i) \<and>
        signer_acceptable lib c cert \<and> not_revoked lib v c)) \<and>
   (verify lib v sd d i = Inr out \<longleftrightarrow>
     (\<exists>c cert sp lp. cms_from_der lib sd = Some c \<and> signature_valid lib v c (d @ i) \<and>
        signer_acceptable lib c cert \<and> not_revoked lib v c \<and>
        public_key_to_pem lib cert = Inr sp \<and> public_key_to_pem lib (vf_local_cert v) = Inr lp \<and>
        out = (if sp = lp then IdentityConflict
               else if i = vf_local_cert_id v then SameNode else OtherNode))) \<and>
   verify_signature_only (lib\<lparr>crl_next_update := dates\<rparr>) v sd d i = verify_signature_only lib v sd d i \<and>
   verify (lib\<lparr>crl_next_update := dates\<rparr>) v sd d i = verify lib v sd d i"
proof (intro conjI)
  show "verify_signature_only (lib\<lparr>crl_next_update := dates\<rparr>) v sd d i = verify_signature_only lib v sd d i"
    "verify (lib\<lparr>crl_next_update := dates\<rparr>) v sd d i = verify lib v sd d i"
    by (simp_all add: verify_signature_only_def verify_def verified_signer_crl_date determine_identity_crl_date)
qed (unfold verify_signature_only_def verify_def rbind_eq_Inr verified_signer_Inr determine_identity_Inr, blast+)

text \<open>
  The signed bytes do not say where the data ends and the id begins: whatever is accepted for
  some data and id is accepted, from the same message, for every other way of cutting their
  concatenation in two, so a signature over one text is also one over that text extended by bytes
  of the id, under a shortened id.
\<close>

theorem data_id_boundary_is_not_signed:
  assumes "verify_signature_only lib v sd d i = Inr ()" and "d @ i = d' @ i'"
  shows "verify_signature_only lib v sd d' i' = Inr () \<and>
    (\<forall>out. verify lib v sd d i = Inr out \<longrightarrow>
      verify lib v sd d' i' =
        Inr (if out = IdentityConflict then IdentityConflict
             else if i' = vf_local_cert_id v then SameNode else OtherNode))"
proof -
  have same: "verified_signer lib v sd d' i' = verified_signer lib v sd d i"
    using assms(2) by (simp add: verified_signer_def verify_cms_signature_def)
  then have "verify_signature_only lib v sd d' i' = Inr ()"
    using assms(1) by (simp add: verify_signature_only_def)
  moreover have "verify lib v sd d' i' = Inr (if out = IdentityConflict then IdentityConflict
      else if i' = vf_local_cert_id v then SameNode else OtherNode)"
    if "verify lib v sd d i = Inr out" for out
    using that by (auto simp: verify_def same rbind_eq_Inr determine_identity_Inr split: if_splits)
  ultimately show ?thesis by blast
qed

lemma data_id_boundary_is_not_signed_witness:
  "verify_signature_only demo_ossl demo_verifier [1] [0x61] [9] = Inr () \<and>
   verify_signature_only demo_ossl demo_verifier [1] [0x61, 9] [] = Inr ()"
proof -
  have "verify_signature_only demo_ossl demo_verifier [1] [0x61] [9] = Inr ()" by code_simp
  with data_id_boundary_is_not_signed [OF this, of "[0x61, 9]" "[]"] show ?thesis by simp
qed

end
