(* ===== verification/TrustringHandler.thy ===== *)
theory TrustringHandler
  imports Trustring
begin

text \<open>
  \<^verbatim>\<open>rust/plugins/trustring/src/handler.rs\<close>: the three request handlers and the plugin that
  registers them, and what they guarantee together with the verifier and the connection loop.

  The JSON and base64 crates are the parameter \<open>codec\<close>; a Rust string is the list of its UTF-8
  bytes as characters, and \<open>str_bytes\<close> is \<open>as_bytes\<close>.
\<close>

section \<open>Messages\<close>

definition MSG_TYPE_SIGN_REQ :: u32 where "MSG_TYPE_SIGN_REQ = 0x10"
definition MSG_TYPE_VERIFY_SIGN_REQ :: u32 where "MSG_TYPE_VERIFY_SIGN_REQ = 0x12"
definition MSG_TYPE_VERIFY_REQ :: u32 where "MSG_TYPE_VERIFY_REQ = 0x14"

lemmas msg_type_defs = MSG_TYPE_SIGN_REQ_def MSG_TYPE_VERIFY_SIGN_REQ_def MSG_TYPE_VERIFY_REQ_def

record sign_request =
  to_sign_data :: string

record sign_response =
  sr_signed_data :: string
  sr_id :: string
  sr_result :: u32

record to_verify =
  tv_data :: string
  tv_signed_data :: string
  tv_id :: string

record to_sign_with_id =
  tsi_data :: string
  tsi_id :: string

record verify_sign_request =
  vs_to_verify :: to_verify
  vs_to_sign :: to_sign_with_id

record codec =
  dec_sign_request :: "string \<Rightarrow> sign_request option"
  dec_verify_request :: "string \<Rightarrow> to_verify option"
  dec_verify_sign_request :: "string \<Rightarrow> verify_sign_request option"
  enc_sign_response :: "sign_response \<Rightarrow> bytes option"
  enc_verify_sign_response :: "sign_response \<Rightarrow> bytes option"
  enc_verify_response :: "u32 \<Rightarrow> bytes option"
  base64_decode :: "string \<Rightarrow> bytes option"
  base64_encode :: "bytes \<Rightarrow> string"

section \<open>The common context\<close>

text \<open>An early return is the response already built by \<open>error_response_builder\<close>.\<close>

type_synonym 'a handled = "bytes option + 'a"

definition parse_json ::
  "(business_error \<Rightarrow> bytes option) \<Rightarrow> (string \<Rightarrow> 'a option) \<Rightarrow> bytes \<Rightarrow> 'a handled" where
  "parse_json build dec b =
     (case from_utf8 b of
        None \<Rightarrow> Inl (build BJsonParseError)
      | Some s \<Rightarrow> (case dec s of None \<Rightarrow> Inl (build BJsonParseError) | Some x \<Rightarrow> Inr x))"

definition decode_base64 ::
  "codec \<Rightarrow> (business_error \<Rightarrow> bytes option) \<Rightarrow> string \<Rightarrow> bytes handled" where
  "decode_base64 cd build s =
     (case base64_decode cd s of None \<Rightarrow> Inl (build BBase64DecodeError) | Some b \<Rightarrow> Inr b)"

definition build_sign_error_response :: "codec \<Rightarrow> business_error \<Rightarrow> bytes option" where
  "build_sign_error_response cd e =
     enc_sign_response cd \<lparr>sr_signed_data = [], sr_id = [], sr_result = to_result_code e\<rparr>"

definition build_verify_sign_error_response :: "codec \<Rightarrow> business_error \<Rightarrow> bytes option" where
  "build_verify_sign_error_response cd e =
     enc_verify_sign_response cd \<lparr>sr_signed_data = [], sr_id = [], sr_result = to_result_code e\<rparr>"

definition build_verify_error_response :: "codec \<Rightarrow> business_error \<Rightarrow> bytes option" where
  "build_verify_error_response cd e = enc_verify_response cd (to_result_code e)"

definition returned :: "'a handled \<Rightarrow> ('a \<Rightarrow> bytes option) \<Rightarrow> bytes option" where
  "returned r f = (case r of Inl e \<Rightarrow> e | Inr x \<Rightarrow> f x)"

section \<open>Handlers\<close>

definition sign_handle :: "ossl \<Rightarrow> codec \<Rightarrow> signer \<Rightarrow> bytes \<Rightarrow> bytes option" where
  "sign_handle lib cd sg b =
     returned (parse_json (build_sign_error_response cd) (dec_sign_request cd) b) (\<lambda>req.
       case sign lib sg (str_bytes (to_sign_data req)) of
         Inl e \<Rightarrow> build_sign_error_response cd (map_sign_error lib e)
       | Inr der \<Rightarrow>
           enc_sign_response cd
             \<lparr>sr_signed_data = base64_encode cd der, sr_id = base64_encode cd (sg_cert_id sg),
              sr_result = 0\<rparr>)"

definition handle_verify_part ::
  "ossl \<Rightarrow> codec \<Rightarrow> verifier \<Rightarrow> to_verify \<Rightarrow> unit handled" where
  "handle_verify_part lib cd v tv =
     (let build = build_verify_sign_error_response cd in
      rbind (decode_base64 cd build (tv_signed_data tv)) (\<lambda>signed_der.
      rbind (decode_base64 cd build (tv_id tv)) (\<lambda>signer_id.
        case verify_signature_only lib v signed_der (str_bytes (tv_data tv)) signer_id of
          Inl e \<Rightarrow> Inl (build (map_verify_error e))
        | Inr _ \<Rightarrow> Inr ())))"

definition handle_sign_part ::
  "ossl \<Rightarrow> codec \<Rightarrow> signer \<Rightarrow> to_sign_with_id \<Rightarrow> bytes handled" where
  "handle_sign_part lib cd sg ts =
     (let build = build_verify_sign_error_response cd in
      rbind (decode_base64 cd build (tsi_id ts)) (\<lambda>external_id.
        case sign_with_id lib sg (str_bytes (tsi_data ts)) external_id of
          Inl e \<Rightarrow> Inl (build (map_sign_error lib e))
        | Inr new_signed \<Rightarrow> Inr new_signed))"

definition verify_sign_handle ::
  "ossl \<Rightarrow> codec \<Rightarrow> signer \<Rightarrow> verifier \<Rightarrow> bytes \<Rightarrow> bytes option" where
  "verify_sign_handle lib cd sg v b =
     returned (parse_json (build_verify_sign_error_response cd) (dec_verify_sign_request cd) b)
       (\<lambda>req.
         if tv_id (vs_to_verify req) \<noteq> tsi_id (vs_to_sign req)
         then build_verify_sign_error_response cd BIdMismatch
         else returned (handle_verify_part lib cd v (vs_to_verify req)) (\<lambda>_.
              returned (handle_sign_part lib cd sg (vs_to_sign req)) (\<lambda>new_signed.
                enc_verify_sign_response cd
                  \<lparr>sr_signed_data = base64_encode cd new_signed, sr_id = tsi_id (vs_to_sign req),
                   sr_result = 0\<rparr>)))"

fun outcome_code :: "verify_outcome \<Rightarrow> u32" where
  "outcome_code SameNode = 0"
| "outcome_code OtherNode = 1"
| "outcome_code IdentityConflict = 2"

definition verify_handle :: "ossl \<Rightarrow> codec \<Rightarrow> verifier \<Rightarrow> bytes \<Rightarrow> bytes option" where
  "verify_handle lib cd v b =
     (let build = build_verify_error_response cd in
      returned (parse_json build (dec_verify_request cd) b) (\<lambda>tv.
      returned (decode_base64 cd build (tv_signed_data tv)) (\<lambda>signed_der.
      returned (decode_base64 cd build (tv_id tv)) (\<lambda>signer_id.
        case verify lib v signed_der (str_bytes (tv_data tv)) signer_id of
          Inl e \<Rightarrow> build_verify_error_response cd (map_verify_error e)
        | Inr outcome \<Rightarrow> enc_verify_response cd (outcome_code outcome)))))"

section \<open>The plugin\<close>

record trustring_plugin =
  tp_signer :: signer
  tp_verifier :: verifier

definition trustring_new ::
  "ossl \<Rightarrow> bool \<Rightarrow> file_system \<Rightarrow> string \<Rightarrow> string \<Rightarrow> string \<Rightarrow> string option \<Rightarrow>
     cert_load_error + trustring_plugin" where
  "trustring_new lib debug fs signer_cert_path signer_key_path ca_cert_path crl_path =
     rbind (cms_certificate_load lib debug fs signer_cert_path signer_key_path) (\<lambda>cms_cert.
     rbind (ca_certificate_load lib debug fs ca_cert_path) (\<lambda>ca_cert.
     rbind (case crl_path of
              None \<Rightarrow> Inr None
            | Some p \<Rightarrow> rbind (crl_load lib debug fs p ca_cert) (\<lambda>crl. Inr (Some crl))) (\<lambda>crl.
       Inr \<lparr>tp_signer = signer_new cms_cert, tp_verifier = verifier_new ca_cert crl cms_cert\<rparr>)))"

definition trustring_init ::
  "ossl \<Rightarrow> codec \<Rightarrow> trustring_plugin \<Rightarrow> handler_lock \<Rightarrow> (plugin_error + unit) \<times> handler_lock" where
  "trustring_init lib cd tp lk =
     (let lk1 = register_handler MSG_TYPE_SIGN_REQ
                  (\<lambda>b. HandlerReturn (sign_handle lib cd (tp_signer tp) b)) lk;
          lk2 = register_handler MSG_TYPE_VERIFY_SIGN_REQ
                  (\<lambda>b. HandlerReturn (verify_sign_handle lib cd (tp_signer tp) (tp_verifier tp) b)) lk1;
          lk3 = register_handler MSG_TYPE_VERIFY_REQ
                  (\<lambda>b. HandlerReturn (verify_handle lib cd (tp_verifier tp) b)) lk2
      in (Inr (), lk3))"

definition trustring_shutdown :: "handler_lock \<Rightarrow> (plugin_error + unit) \<times> handler_lock" where
  "trustring_shutdown lk = (Inr (), lk)"

definition trustring_plugin_ops :: "ossl \<Rightarrow> codec \<Rightarrow> trustring_plugin \<Rightarrow> handler_lock plugin" where
  "trustring_plugin_ops lib cd tp =
     \<lparr>plugin_name = ''trustring'', plugin_init = trustring_init lib cd tp,
      plugin_shutdown = trustring_shutdown\<rparr>"

section \<open>A concrete service\<close>

text \<open>Base64 is the identity on the bytes, a response is its code and its signature.\<close>

definition demo_codec :: codec where
  "demo_codec =
     \<lparr>dec_sign_request = (\<lambda>s. Some \<lparr>to_sign_data = s\<rparr>),
      dec_verify_request = (\<lambda>s. Some \<lparr>tv_data = s, tv_signed_data = [CHR 0x01], tv_id = [CHR 0x09]\<rparr>),
      dec_verify_sign_request = (\<lambda>s. Some
        \<lparr>vs_to_verify = \<lparr>tv_data = ''a'', tv_signed_data = [CHR 0x01], tv_id = [CHR 0x09]\<rparr>,
         vs_to_sign = \<lparr>tsi_data = s, tsi_id = [CHR 0x09]\<rparr>\<rparr>),
      enc_sign_response = (\<lambda>r. Some (ucast (sr_result r) # str_bytes (sr_signed_data r))),
      enc_verify_sign_response = (\<lambda>r. Some (ucast (sr_result r) # str_bytes (sr_signed_data r))),
      enc_verify_response = (\<lambda>n. Some [ucast n]),
      base64_decode = (\<lambda>s. Some (str_bytes s)),
      base64_encode = map (\<lambda>w. char_of (unat w))\<rparr>"

definition demo_plugin :: trustring_plugin where
  "demo_plugin =
     \<lparr>tp_signer = \<lparr>sg_cert = 1, sg_key = 1, sg_cert_id = [7]\<rparr>,
      tp_verifier = demo_verifier\<rparr>"

section \<open>Verify, then sign\<close>

lemma to_result_code_nonzero:
  "to_result_code (map_verify_error e) \<noteq> 0" "to_result_code (map_sign_error lib e') \<noteq> 0"
  by (cases e; simp) (cases e'; simp add: map_openssl_error_code_def Let_def)

text \<open>What a successful answer of the verify-and-sign handler stands for.\<close>

definition resigned ::
  "ossl \<Rightarrow> codec \<Rightarrow> signer \<Rightarrow> verifier \<Rightarrow> verify_sign_request \<Rightarrow> sign_response \<Rightarrow> bool" where
  "resigned lib cd sg v req resp \<longleftrightarrow>
     tv_id (vs_to_verify req) = tsi_id (vs_to_sign req) \<and>
     (\<exists>i sd der. base64_decode cd (tsi_id (vs_to_sign req)) = Some i \<and>
        base64_decode cd (tv_signed_data (vs_to_verify req)) = Some sd \<and>
        verify_signature_only lib v sd (str_bytes (tv_data (vs_to_verify req))) i = Inr () \<and>
        cms_sign_der lib (sg_cert sg) (sg_key sg) (str_bytes (tsi_data (vs_to_sign req)) @ i) = Some der \<and>
        resp = \<lparr>sr_signed_data = base64_encode cd der, sr_id = tsi_id (vs_to_sign req), sr_result = 0\<rparr>)"

definition failed_response :: "sign_response \<Rightarrow> bool" where
  "failed_response resp \<longleftrightarrow> sr_result resp \<noteq> 0 \<and> sr_signed_data resp = [] \<and> sr_id resp = []"

lemma build_verify_sign_error:
  "to_result_code e \<noteq> 0 \<Longrightarrow>
     \<exists>resp. build_verify_sign_error_response cd e = enc_verify_sign_response cd resp \<and> failed_response resp"
  by (auto simp: build_verify_sign_error_response_def failed_response_def intro!: exI)

lemma handle_verify_part_cases:
  obtains (ok) i sd where "handle_verify_part lib cd v tv = Inr ()" "base64_decode cd (tv_id tv) = Some i"
      "base64_decode cd (tv_signed_data tv) = Some sd"
      "verify_signature_only lib v sd (str_bytes (tv_data tv)) i = Inr ()"
  | (failed) e where "handle_verify_part lib cd v tv = Inl (build_verify_sign_error_response cd e)"
      "e = BBase64DecodeError \<or> (\<exists>x. e = map_verify_error x)"
proof (cases "base64_decode cd (tv_signed_data tv)")
  case None
  then show thesis using failed [of BBase64DecodeError] by (simp add: handle_verify_part_def decode_base64_def)
next
  case sd: (Some sd)
  show thesis
  proof (cases "base64_decode cd (tv_id tv)")
    case None
    then show thesis
      using failed [of BBase64DecodeError] sd by (simp add: handle_verify_part_def decode_base64_def)
  next
    case i: (Some i)
    show thesis
      using ok [OF _ i sd] failed sd i
      by (cases "verify_signature_only lib v sd (str_bytes (tv_data tv)) i")
         (auto simp: handle_verify_part_def decode_base64_def)
  qed
qed

lemma handle_sign_part_cases:
  obtains (ok) i der where "handle_sign_part lib cd sg ts = Inr der" "base64_decode cd (tsi_id ts) = Some i"
      "cms_sign_der lib (sg_cert sg) (sg_key sg) (str_bytes (tsi_data ts) @ i) = Some der"
  | (failed) e where "handle_sign_part lib cd sg ts = Inl (build_verify_sign_error_response cd e)"
      "e = BBase64DecodeError \<or> (\<exists>x. e = map_sign_error lib x)"
proof (cases "base64_decode cd (tsi_id ts)")
  case None
  then show thesis using failed [of BBase64DecodeError] by (simp add: handle_sign_part_def decode_base64_def)
next
  case (Some i)
  then show thesis
    using ok [OF _ Some] failed [of "map_sign_error lib SignOpenSslError"]
    by (cases "cms_sign_der lib (sg_cert sg) (sg_key sg) (str_bytes (tsi_data ts) @ i)")
       (auto simp: handle_sign_part_def decode_base64_def sign_with_id_def sign_with_input_def
          simp del: map_sign_error.simps)
qed

lemma verify_sign_handle_request:
  assumes "from_utf8 b = Some s" and "dec_verify_sign_request cd s = Some req"
  shows "\<exists>resp. verify_sign_handle lib cd sg v b = enc_verify_sign_response cd resp \<and>
    (resigned lib cd sg v req resp \<or> failed_response resp)"
proof -
  have parse: "parse_json (build_verify_sign_error_response cd) (dec_verify_sign_request cd) b = Inr req"
    using assms by (simp add: parse_json_def)
  have mismatch: "to_result_code BIdMismatch \<noteq> 0" by simp
  show ?thesis
  proof (cases "tv_id (vs_to_verify req) = tsi_id (vs_to_sign req)")
    case False
    then show ?thesis
      using build_verify_sign_error [OF mismatch] by (auto simp: verify_sign_handle_def parse returned_def)
  next
    case True
    show ?thesis
    proof (rule handle_verify_part_cases [of lib cd v "vs_to_verify req"], goal_cases)
      case (1 i sd)
      note v = this
      show ?thesis
      proof (rule handle_sign_part_cases [of lib cd sg "vs_to_sign req"], goal_cases)
        case (1 i' der)
        then show ?case
          using v True by (auto simp: verify_sign_handle_def parse returned_def resigned_def)
      next
        case (2 e)
        then show ?case
          using v True build_verify_sign_error [of e cd] to_result_code_nonzero(2)
          by (auto simp: verify_sign_handle_def parse returned_def)
      qed
    next
      case (2 e)
      then show ?case
        using True build_verify_sign_error [of e cd] to_result_code_nonzero(1)
        by (auto simp: verify_sign_handle_def parse returned_def)
    qed
  qed
qed

text \<open>
  C7. The verify-and-sign handler signs only what it has verified, under one and the same id: its
  answer to a well-formed request either is the encoding of a success that carries the service's
  signature over the new data and the id under which the old data verified, and echoes that id, or
  reports a non-zero code with neither signature nor id.
\<close>

theorem resigns_only_what_it_verified:
  assumes "from_utf8 b = Some s" and "dec_verify_sign_request cd s = Some req"
  shows "\<exists>resp. verify_sign_handle lib cd sg v b = enc_verify_sign_response cd resp \<and>
    (resigned lib cd sg v req resp \<or> failed_response resp)"
  using assms by (rule verify_sign_handle_request)

lemma resigns_only_what_it_verified_witness:
  "\<exists>resp. verify_sign_handle demo_ossl demo_codec (tp_signer demo_plugin) demo_verifier [0x62] =
     enc_verify_sign_response demo_codec resp \<and> \<not> failed_response resp"
proof -
  have "from_utf8 [0x62] = Some ''b''" by code_simp
  then obtain resp where
    r: "verify_sign_handle demo_ossl demo_codec (tp_signer demo_plugin) demo_verifier [0x62] =
      enc_verify_sign_response demo_codec resp"
    using resigns_only_what_it_verified [of "[0x62]" "''b''" demo_codec _ demo_ossl "tp_signer demo_plugin"
        demo_verifier] by (auto simp: demo_codec_def)
  have "verify_sign_handle demo_ossl demo_codec (tp_signer demo_plugin) demo_verifier [0x62] =
      Some [0, 0, 0x62, 9]"
    by code_simp
  then have "sr_signed_data resp \<noteq> []"
    using r by (auto simp: demo_codec_def str_bytes_def)
  then show ?thesis using r by (auto simp: failed_response_def)
qed

section \<open>Result codes\<close>

lemma error_answer:
  "\<exists>resp. build_verify_sign_error_response cd e = enc_verify_sign_response cd resp \<and>
     sr_result resp = to_result_code e"
  by (auto simp: build_verify_sign_error_response_def intro!: exI)

lemma verify_error_codes: "to_result_code (map_verify_error e) \<in> {3, 4, 5, 6, 7, 12, 99}"
  by (cases e) auto

lemma sign_error_codes:
  "to_result_code (map_sign_error lib e) \<in> {7, 10, 12}"
  "err_peek_error lib = 0 \<Longrightarrow> to_result_code (map_sign_error lib e) = 10"
  by (cases e; simp add: map_openssl_error_code_def Let_def)+

lemma verify_sign_handle_codes:
  "\<exists>resp. verify_sign_handle lib cd sg v b = enc_verify_sign_response cd resp \<and>
     sr_result resp \<in> {0, 3, 4, 5, 6, 7, 10, 12, 20, 21, 22, 99}"
proof -
  have err: "\<exists>resp. r = enc_verify_sign_response cd resp \<and>
      sr_result resp \<in> {0, 3, 4, 5, 6, 7, 10, 12, 20, 21, 22, 99}"
    if "r = build_verify_sign_error_response cd e"
      "to_result_code e \<in> {0, 3, 4, 5, 6, 7, 10, 12, 20, 21, 22, 99}" for r e
    using that error_answer [of cd e] by metis
  show ?thesis
  proof (cases "parse_json (build_verify_sign_error_response cd) (dec_verify_sign_request cd) b")
    case (Inl r)
    then have "r = build_verify_sign_error_response cd BJsonParseError"
      by (auto simp: parse_json_def split: option.splits)
    from err [OF this] Inl show ?thesis by (simp add: verify_sign_handle_def returned_def)
  next
    case parse: (Inr req)
    show ?thesis
    proof (cases "tv_id (vs_to_verify req) = tsi_id (vs_to_sign req)")
      case False
      then show ?thesis
        using err [of _ BIdMismatch] by (simp add: verify_sign_handle_def parse returned_def)
    next
      case True
      show ?thesis
      proof (rule handle_verify_part_cases [of lib cd v "vs_to_verify req"], goal_cases)
        case (1 i sd)
        note v = this
        show ?thesis
        proof (rule handle_sign_part_cases [of lib cd sg "vs_to_sign req"], goal_cases)
          case (1 i' der)
          then show ?case
            using v True by (auto simp: verify_sign_handle_def parse returned_def intro!: exI)
        next
          case (2 e)
          then show ?case
            using v True err [of _ e] sign_error_codes(1) [of lib]
            by (fastforce simp: verify_sign_handle_def parse returned_def)
        qed
      next
        case (2 e)
        then show ?case
          using True err [of _ e] verify_error_codes
          by (fastforce simp: verify_sign_handle_def parse returned_def)
      qed
    qed
  qed
qed

text \<open>
  The codes the three handlers can answer: every answer is the encoding of a response whose
  code is in a fixed set.  Two codes lie outside their documented ranges: an unacceptable algorithm
  found while verifying is reported as 12, in the range of signing failures, and an OpenSSL failure
  while verifying as 99; and a signing failure is always reported as 10 when OpenSSL's error queue
  has been drained, as the error stack the crate returns does.
\<close>

theorem handlers_answer_known_codes:
  "(\<exists>resp. sign_handle lib cd sg b = enc_sign_response cd resp \<and>
      sr_result resp \<in> (if err_peek_error lib = 0 then {0, 10, 20} else {0, 7, 10, 12, 20})) \<and>
   (\<exists>resp. verify_sign_handle lib cd sg v b = enc_verify_sign_response cd resp \<and>
      sr_result resp \<in> {0, 3, 4, 5, 6, 7, 10, 12, 20, 21, 22, 99}) \<and>
   (\<exists>n. verify_handle lib cd v b = enc_verify_response cd n \<and>
      n \<in> {0, 1, 2, 3, 4, 5, 6, 7, 12, 20, 21, 99}) \<and>
   to_result_code (map_verify_error InvalidAlgorithm) = 12"
proof -
  note ver = verify_error_codes
  note sgn = sign_error_codes [of lib]
  have out: "outcome_code oc \<in> {0, 1, 2}" for oc by (cases oc) auto
  have 1: "\<exists>resp. sign_handle lib cd sg b = enc_sign_response cd resp \<and>
      sr_result resp \<in> (if err_peek_error lib = 0 then {0, 10, 20} else {0, 7, 10, 12, 20})"
  proof (cases "parse_json (build_sign_error_response cd) (dec_sign_request cd) b")
    case (Inl r)
    then have "r = build_sign_error_response cd BJsonParseError"
      by (auto simp: parse_json_def split: option.splits)
    with Inl show ?thesis
      by (auto simp: sign_handle_def returned_def build_sign_error_response_def intro!: exI)
  next
    case (Inr req)
    then show ?thesis
      by (cases "sign lib sg (str_bytes (to_sign_data req))")
         (use sgn in \<open>fastforce simp: sign_handle_def returned_def build_sign_error_response_def\<close>)+
  qed
  have 2: "\<exists>n. verify_handle lib cd v b = enc_verify_response cd n \<and>
      n \<in> {0, 1, 2, 3, 4, 5, 6, 7, 12, 20, 21, 99}"
    using ver out
    by (fastforce simp: verify_handle_def parse_json_def decode_base64_def returned_def Let_def
        build_verify_error_response_def split: option.splits sum.splits)
  show ?thesis
    using 1 2 verify_sign_handle_codes [of lib cd sg v b] by (intro conjI) simp_all
qed

section \<open>The service on a connection\<close>

text \<open>The answer of the service to a request of a given type; None is no such request.\<close>

definition service_answer :: "ossl \<Rightarrow> codec \<Rightarrow> trustring_plugin \<Rightarrow> u32 \<Rightarrow> bytes \<Rightarrow> bytes option" where
  "service_answer lib cd tp t b =
     (if t = MSG_TYPE_SIGN_REQ then sign_handle lib cd (tp_signer tp) b
      else if t = MSG_TYPE_VERIFY_SIGN_REQ
      then verify_sign_handle lib cd (tp_signer tp) (tp_verifier tp) b
      else if t = MSG_TYPE_VERIFY_REQ then verify_handle lib cd (tp_verifier tp) b
      else None)"

definition service_reply :: "ossl \<Rightarrow> codec \<Rightarrow> trustring_plugin \<Rightarrow> vsock_message \<Rightarrow> vsock_message" where
  "service_reply lib cd tp m =
     (case service_answer lib cd tp (msg_type (header m)) (data m) of
        Some body \<Rightarrow>
          message_new (seq (header m)) (version (header m)) (msg_type (header m) + 1) body
      | None \<Rightarrow> create_error_response (seq (header m)) (version (header m)) ERROR_PROTOCOL)"

definition empty_table :: handler_lock where
  "empty_table = \<lparr>poisoned = False, handlers = (\<lambda>_. None)\<rparr>"

lemma reply_service:
  "reply (snd (trustring_init lib cd tp empty_table)) m = service_reply lib cd tp m"
  by (auto simp: reply_def process_message_def trustring_init_def register_handler_def empty_table_def
      service_reply_def service_answer_def msg_type_defs Let_def split: option.splits)

text \<open>
  C9. The whole signing service on one connection: with the handlers the plugin registers on an
  empty table, let a client send admissible requests, with pauses between them and before it closes
  that end before the idle limit and never fall inside a message.  Then the replies are exactly the service's
  answers to the first of its requests, in order and one for each: under the next message type for
  the three request types, a protocol error for every other type.  Only a shutdown cuts the sequence
  short; without one every request is answered before the connection closes.
\<close>

theorem service_answers_in_order:
  assumes "\<forall>(n, m) \<in> set reqs. n \<le> g \<and> admissible m" "k \<le> g" "patient clk g"
  shows "\<exists>n \<le> length reqs. \<exists>why rest.
    handle_connection_blocking (snd (trustring_init lib cd tp empty_table)) sd clk (paced reqs k) =
      (map (service_reply lib cd tp \<circ> snd) (take n reqs), why, rest) \<and>
    (why = ClosedByShutdown \<and> (\<exists>j. sd j) \<or> why = ClosedByRead ERROR_CONNECTION_CLOSED \<and> n = length reqs)"
proof -
  have "reply (snd (trustring_init lib cd tp empty_table)) = service_reply lib cd tp"
    by (rule ext) (rule reply_service)
  then show ?thesis
    using serve_conn_paced [OF assms(3,1,2), of "snd (trustring_init lib cd tp empty_table)" sd 0]
    by (simp only: handle_connection_blocking_def)
qed

lemma service_answers_in_order_witness:
  "fst (handle_connection_blocking (snd (trustring_init demo_ossl demo_codec demo_plugin empty_table))
     (\<lambda>_. False) (\<lambda>i. i * 5 * 10 ^ 9)
     (paced [(0, message_new 5 PROTOCOL_VERSION 0x14 [0x61]), (11, message_new 6 PROTOCOL_VERSION 0x16 [])] 1)) =
   [message_new 5 PROTOCOL_VERSION 0x15 [1], create_error_response 6 PROTOCOL_VERSION ERROR_PROTOCOL]"
proof -
  let ?reqs = "[(0, message_new 5 PROTOCOL_VERSION 0x14 [0x61]), (11, message_new 6 PROTOCOL_VERSION 0x16 [])]"
  have adm: "\<forall>(n, m) \<in> set ?reqs. n \<le> (11 :: nat) \<and> admissible m"
    by (simp add: admissible_def message_wf_def MAX_MESSAGE_SIZE_def)
  have "patient (\<lambda>i. i * 5 * 10 ^ 9) 11"
    by (auto simp: patient_def MAX_IDLE_SECS_def simp flip: diff_mult_distrib)
  moreover have "verify_handle demo_ossl demo_codec demo_verifier [0x61] = Some [1]" by code_simp
  ultimately show ?thesis
    using service_answers_in_order [OF adm, of 1 "\<lambda>i. i * 5 * 10 ^ 9" demo_ossl demo_codec demo_plugin "\<lambda>_. False"]
    by (auto simp: service_reply_def service_answer_def msg_type_defs demo_plugin_def)
qed

end
