(* ===== verification/Listener.thy ===== *)
theory Listener
  imports Certs VsockConnection
begin

text \<open>
  \<^verbatim>\<open>rust/framework/src/communication/vsock_server/{tls,listener,mod}.rs\<close>: what the transport
  requires of its TLS material, the client-certificate check against the revocation list, and the
  accept loop with its semaphore, one task per connection, start and stop.

  The tasks run concurrently; the loop and each task advance in atomic steps, and a run is any
  sequence of steps that are possible when they are taken.  The number of permits is that of the
  tokio semaphore.
\<close>

section \<open>TLS set-up\<close>

record tls_config =
  tls_cert_path :: string
  tls_key_path :: string
  tls_key_password :: "string option"
  tls_ca_cert_path :: string
  tls_crl_path :: "string option"

datatype vsock_error = TlsConfigError | VsockIoError | BindFailed

text \<open>
  The acceptor builder of OpenSSL: whether the fixed protocol and cipher settings are accepted, a
  certificate is taken, and a private key is taken with the certificate.
\<close>

record ssl_builder =
  ssl_configure :: bool
  ssl_set_certificate :: "x509 \<Rightarrow> bool"
  ssl_set_private_key :: "x509 \<Rightarrow> pkey \<Rightarrow> bool"

unbundle bit_operations_syntax

definition tls_err :: "cert_load_error + 'a \<Rightarrow> vsock_error + 'a" where
  "tls_err r = (case r of Inl _ \<Rightarrow> Inl TlsConfigError | Inr x \<Rightarrow> Inr x)"

definition tls_require :: "bool \<Rightarrow> vsock_error + unit" where
  "tls_require b = (if b then Inr () else Inl TlsConfigError)"

definition load_tls_certificates ::
  "ossl \<Rightarrow> ssl_builder \<Rightarrow> bool \<Rightarrow> file_system \<Rightarrow> tls_config \<Rightarrow> vsock_error + x509" where
  "load_tls_certificates lib ssl debug fs cfg =
     rbind (tls_err (load_x509 lib debug fs (tls_cert_path cfg))) (\<lambda>cert.
     rbind (tls_err (check_key_usage_contains lib cert (DIGITAL_SIGNATURE OR KEY_ENCIPHERMENT))) (\<lambda>_.
     rbind (tls_err (check_extended_key_usage lib cert ''serverAuth'')) (\<lambda>_.
     rbind (tls_require (ssl_set_certificate ssl cert)) (\<lambda>_.
     rbind (tls_err (load_private_key lib debug fs (tls_key_path cfg) (tls_key_password cfg))) (\<lambda>key.
     rbind (tls_require (ssl_set_private_key ssl cert key)) (\<lambda>_.
     rbind (tls_err (load_x509 lib debug fs (tls_ca_cert_path cfg))) (\<lambda>ca_cert.
     rbind (tls_require (store_accepts lib ca_cert)) (\<lambda>_. Inr ca_cert))))))))"

definition configure_crl_verification ::
  "ossl \<Rightarrow> bool \<Rightarrow> file_system \<Rightarrow> string \<Rightarrow> x509 \<Rightarrow> vsock_error + x509_crl" where
  "configure_crl_verification lib debug fs crl_path ca_cert =
     tls_err (load_and_verify_crl lib debug fs crl_path ca_cert)"

definition is_cert_revoked :: "ossl \<Rightarrow> x509 \<Rightarrow> x509_crl \<Rightarrow> bool" where
  "is_cert_revoked lib cert crl =
     (case crl_revoked lib crl of
        Some revoked \<Rightarrow> list_ex (\<lambda>r. r = serial_number lib cert) revoked | None \<Rightarrow> False)"

text \<open>The verification callback: OpenSSL's own verdict and the chain built so far.\<close>

definition verify_cert_with_crl :: "ossl \<Rightarrow> bool \<Rightarrow> x509 list option \<Rightarrow> x509_crl \<Rightarrow> bool" where
  "verify_cert_with_crl lib ok chain crl =
     (if \<not> ok then False
      else case chain of
        Some certs \<Rightarrow> \<not> list_ex (\<lambda>cert. is_cert_revoked lib cert crl) certs
      | None \<Rightarrow> True)"

section \<open>The transport\<close>

text \<open>
  A listener loop; a connection: waiting for its permit, in its handshake, in a handshake its task
  has left behind, at the head of the message loop, in a blocking read, done; a call of \<open>stop\<close>.
\<close>

datatype loop_phase = LoopCheck | LoopAccept | LoopDone | LoopPanicked
datatype task = Waiting | Handshaking | Detached | ServeHead | ServeRead | Finished
datatype stop_error = LockPoisoned | ListenerPanicked | ShutdownTimeout
datatype stop_call = Awaiting nat | StopReturned "stop_error + unit"

record transport =
  tr_max :: nat
  tr_permits :: nat
  tr_port :: u32
  tr_client_crl :: "x509_crl option"
  tr_shutdown :: bool
  tr_loops :: "loop_phase list"
  tr_handle :: "nat option"
  tr_tasks :: "task list"
  tr_stops :: "stop_call list"

definition transport_new ::
  "ossl \<Rightarrow> ssl_builder \<Rightarrow> bool \<Rightarrow> file_system \<Rightarrow> tls_config \<Rightarrow> u32 \<Rightarrow> u32 \<Rightarrow> vsock_error + transport"
where
  "transport_new lib ssl debug fs cfg port max_connections =
     rbind (tls_require (ssl_configure ssl)) (\<lambda>_.
     rbind (load_tls_certificates lib ssl debug fs cfg) (\<lambda>ca_cert.
     rbind (case tls_crl_path cfg of
              None \<Rightarrow> Inr None
            | Some p \<Rightarrow> rbind (configure_crl_verification lib debug fs p ca_cert) (\<lambda>crl. Inr (Some crl)))
       (\<lambda>crl.
       Inr \<lparr>tr_max = unat max_connections, tr_permits = unat max_connections, tr_port = port,
            tr_client_crl = crl, tr_shutdown = False, tr_loops = [], tr_handle = None,
            tr_tasks = [], tr_stops = []\<rparr>)))"

subsection \<open>Start and stop\<close>

text \<open>
  \<open>transport_start\<close>: bind, the timeout of the listening socket, then a loop is spawned, and only
  then its handle is stored: with a poisoned lock the caller gets an error and the loop runs.
\<close>

definition transport_start :: "bool \<Rightarrow> bool \<Rightarrow> bool \<Rightarrow> transport \<Rightarrow> bool \<times> transport" where
  "transport_start bound timeout_set lock_ok t =
     (if \<not> bound \<or> \<not> timeout_set then (False, t)
      else
        let t1 = t\<lparr>tr_shutdown := False, tr_loops := tr_loops t @ [LoopCheck]\<rparr> in
        if \<not> lock_ok then (False, t1)
        else (True, t1\<lparr>tr_handle := Some (length (tr_loops t))\<rparr>))"

text \<open>\<open>transport_stop\<close>, up to where it waits for the loop: an answer, or the loop to wait for.\<close>

definition transport_stop :: "bool \<Rightarrow> transport \<Rightarrow> stop_call \<times> transport" where
  "transport_stop lock_ok t =
     (let t1 = t\<lparr>tr_shutdown := True\<rparr> in
      if \<not> lock_ok then (StopReturned (Inl LockPoisoned), t1)
      else case tr_handle t of
             None \<Rightarrow> (StopReturned (Inr ()), t1)
           | Some j \<Rightarrow> (Awaiting j, t1\<lparr>tr_handle := None\<rparr>))"

text \<open>The end of the wait: None when the time is over before the loop has ended.\<close>

definition stop_outcome :: "loop_phase option \<Rightarrow> stop_error + unit" where
  "stop_outcome joined =
     (case joined of
        None \<Rightarrow> Inl ShutdownTimeout
      | Some p \<Rightarrow> if p = LoopPanicked then Inl ListenerPanicked else Inr ())"

subsection \<open>Steps\<close>

datatype accept_result = Accepted | AcceptWouldBlock | AcceptFailed | AcceptPanicked
datatype read_outcome = ReadAgain | ReadEnd

datatype event =
    StartTransport bool bool bool
  | LoopClone nat bool
  | LoopAccepted nat accept_result
  | LoopPanic nat
  | Acquire nat
  | AcquireShutdown nat
  | HandshakeDone nat bool
  | HandshakeShutdown nat
  | DetachedDone nat
  | ServeCheck nat
  | ServeDone nat read_outcome
  | StopTransport bool
  | StopJoined nat
  | StopTimedOut nat

definition set_task :: "nat \<Rightarrow> task \<Rightarrow> transport \<Rightarrow> transport" where
  "set_task i s t = t\<lparr>tr_tasks := (tr_tasks t)[i := s]\<rparr>"

definition set_loop :: "nat \<Rightarrow> loop_phase \<Rightarrow> transport \<Rightarrow> transport" where
  "set_loop j p t = t\<lparr>tr_loops := (tr_loops t)[j := p]\<rparr>"

definition release :: "nat \<Rightarrow> task \<Rightarrow> transport \<Rightarrow> transport" where
  "release i s t = (set_task i s t)\<lparr>tr_permits := tr_permits t + 1\<rparr>"

definition task_is :: "nat \<Rightarrow> task \<Rightarrow> transport \<Rightarrow> bool" where
  "task_is i s t \<longleftrightarrow> i < length (tr_tasks t) \<and> tr_tasks t ! i = s"

definition loop_is :: "nat \<Rightarrow> loop_phase \<Rightarrow> transport \<Rightarrow> bool" where
  "loop_is j p t \<longleftrightarrow> j < length (tr_loops t) \<and> tr_loops t ! j = p"

definition awaited_loop :: "nat \<Rightarrow> transport \<Rightarrow> nat option" where
  "awaited_loop k t =
     (if k < length (tr_stops t) then (case tr_stops t ! k of Awaiting j \<Rightarrow> Some j | _ \<Rightarrow> None) else None)"

definition stop_returns :: "nat \<Rightarrow> loop_phase option \<Rightarrow> transport \<Rightarrow> transport" where
  "stop_returns k joined t = t\<lparr>tr_stops := (tr_stops t)[k := StopReturned (stop_outcome joined)]\<rparr>"

text \<open>
  One step.  \<open>LoopClone\<close> is the head of a listener loop (the flag, then cloning the listener),
  \<open>LoopAccepted\<close> the blocking accept.  Task \<open>i\<close> gets its permit or sees the flag; then its TLS accept,
  on a blocking thread, ends, or the task sees the flag first: it returns, which gives the permit
  back, while the thread goes on with the handshake until that ends by itself.  A served connection
  reads the flag at the head of \<open>handle_connection_blocking\<close>, where it is set it leaves the loop;
  otherwise it reads and answers one message, or times out, and comes back, or the loop ends (idle
  for too long, closed, protocol error).  Leaving drops the permit.  A call of \<open>stop\<close> returns when
  its loop has ended or its time is over.  None is a step that is not possible now.
\<close>

fun transport_step :: "transport \<Rightarrow> event \<Rightarrow> transport option" where
  "transport_step t (StartTransport bound timeout_set lock_ok) =
     Some (snd (transport_start bound timeout_set lock_ok t))"
| "transport_step t (LoopClone j ok) =
     (if loop_is j LoopCheck t
      then Some (set_loop j (if tr_shutdown t \<or> \<not> ok then LoopDone else LoopAccept) t) else None)"
| "transport_step t (LoopAccepted j r) =
     (if loop_is j LoopAccept t
      then Some (case r of
          Accepted \<Rightarrow> (set_loop j LoopCheck t)\<lparr>tr_tasks := tr_tasks t @ [Waiting]\<rparr>
        | _ \<Rightarrow> set_loop j LoopCheck t)
      else None)"
| "transport_step t (LoopPanic j) =
     (if loop_is j LoopCheck t \<or> loop_is j LoopAccept t then Some (set_loop j LoopPanicked t) else None)"
| "transport_step t (Acquire i) =
     (if task_is i Waiting t \<and> 0 < tr_permits t
      then Some ((set_task i Handshaking t)\<lparr>tr_permits := tr_permits t - 1\<rparr>) else None)"
| "transport_step t (AcquireShutdown i) =
     (if task_is i Waiting t \<and> tr_shutdown t then Some (set_task i Finished t) else None)"
| "transport_step t (HandshakeDone i ok) =
     (if task_is i Handshaking t
      then Some (if ok then set_task i ServeHead t else release i Finished t) else None)"
| "transport_step t (HandshakeShutdown i) =
     (if task_is i Handshaking t \<and> tr_shutdown t then Some (release i Detached t) else None)"
| "transport_step t (DetachedDone i) =
     (if task_is i Detached t then Some (set_task i Finished t) else None)"
| "transport_step t (ServeCheck i) =
     (if task_is i ServeHead t
      then Some (if tr_shutdown t then release i Finished t else set_task i ServeRead t) else None)"
| "transport_step t (ServeDone i r) =
     (if task_is i ServeRead t
      then Some (case r of ReadAgain \<Rightarrow> set_task i ServeHead t | ReadEnd \<Rightarrow> release i Finished t)
      else None)"
| "transport_step t (StopTransport lock_ok) =
     (case transport_stop lock_ok t of (c, t') \<Rightarrow> Some (t'\<lparr>tr_stops := tr_stops t @ [c]\<rparr>))"
| "transport_step t (StopJoined k) =
     (case awaited_loop k t of
        Some j \<Rightarrow>
          (if loop_is j LoopDone t \<or> loop_is j LoopPanicked t
           then Some (stop_returns k (Some (tr_loops t ! j)) t) else None)
      | None \<Rightarrow> None)"
| "transport_step t (StopTimedOut k) =
     (case awaited_loop k t of Some j \<Rightarrow> Some (stop_returns k None t) | None \<Rightarrow> None)"

fun transport_run :: "transport \<Rightarrow> event list \<Rightarrow> transport option" where
  "transport_run t [] = Some t"
| "transport_run t (e # es) = Option.bind (transport_step t e) (\<lambda>t'. transport_run t' es)"

section \<open>The permit invariant\<close>

definition count_tasks :: "(task \<Rightarrow> bool) \<Rightarrow> transport \<Rightarrow> nat" where
  "count_tasks P t = length (filter P (tr_tasks t))"

definition serving :: "task \<Rightarrow> bool" where "serving s \<longleftrightarrow> s = ServeHead \<or> s = ServeRead"

definition holds_permit :: "task \<Rightarrow> bool" where
  "holds_permit s \<longleftrightarrow> s = Handshaking \<or> serving s"

lemmas task_sorts = holds_permit_def serving_def

definition permit_inv :: "transport \<Rightarrow> bool" where
  "permit_inv t \<longleftrightarrow> tr_permits t + count_tasks holds_permit t = tr_max t"

lemma length_filter_update:
  "i < length xs \<Longrightarrow>
     length (filter P (xs[i := y])) + (if P (xs ! i) then 1 else 0) =
     length (filter P xs) + (if P y then 1 else 0)"
proof (induction xs arbitrary: i)
  case (Cons x xs)
  then show ?case by (cases i) auto
qed simp

lemma count_set_task:
  "task_is i s t \<Longrightarrow>
     count_tasks P (set_task i s' t) + (if P s then 1 else 0) = count_tasks P t + (if P s' then 1 else 0)"
  using length_filter_update [of i "tr_tasks t" P s']
  by (simp add: count_tasks_def set_task_def task_is_def)

lemma transport_fields [simp]:
  "tr_permits (set_task i s t) = tr_permits t" "tr_max (set_task i s t) = tr_max t"
  "tr_permits (set_loop j p t) = tr_permits t" "tr_max (set_loop j p t) = tr_max t"
  "tr_permits (stop_returns k r t) = tr_permits t" "tr_max (stop_returns k r t) = tr_max t"
  "tr_tasks (set_loop j p t) = tr_tasks t" "tr_tasks (stop_returns k r t) = tr_tasks t"
  "tr_shutdown (set_task i s t) = tr_shutdown t" "tr_shutdown (set_loop j p t) = tr_shutdown t"
  "tr_shutdown (stop_returns k r t) = tr_shutdown t" "tr_shutdown (release i s t) = tr_shutdown t"
  "tr_tasks (release i s t) = tr_tasks (set_task i s t)"
  by (simp_all add: set_task_def set_loop_def stop_returns_def release_def)

lemma count_fields [simp]:
  "count_tasks P (t\<lparr>tr_permits := n\<rparr>) = count_tasks P t"
  "count_tasks P (set_loop j p t) = count_tasks P t"
  "count_tasks P (stop_returns k r t) = count_tasks P t"
  "count_tasks P (snd (transport_start b1 b2 b3 t)) = count_tasks P t"
  "count_tasks P ((snd (transport_stop b t))\<lparr>tr_stops := ss\<rparr>) = count_tasks P t"
  by (simp_all add: count_tasks_def transport_start_def transport_stop_def Let_def split: option.split)

lemma start_stop_fields [simp]:
  "tr_permits (snd (transport_start b1 b2 b3 t)) = tr_permits t"
  "tr_max (snd (transport_start b1 b2 b3 t)) = tr_max t"
  "tr_permits (snd (transport_stop b t)) = tr_permits t" "tr_max (snd (transport_stop b t)) = tr_max t"
  "tr_shutdown (snd (transport_stop b t))"
  by (simp_all add: transport_start_def transport_stop_def Let_def split: option.split)

lemma task_move_inv:
  assumes "permit_inv t" "task_is i s t" "holds_permit s' = holds_permit s"
  shows "permit_inv (set_task i s' t) \<and> tr_max (set_task i s' t) = tr_max t"
  using assms count_set_task [of i s t holds_permit s'] by (simp add: permit_inv_def split: if_splits)

lemma release_inv:
  assumes "permit_inv t" "task_is i s t" "holds_permit s" "\<not> holds_permit s'"
  shows "permit_inv (release i s' t) \<and> tr_max (release i s' t) = tr_max t"
  using assms count_set_task [of i s t holds_permit s'] by (simp add: permit_inv_def release_def)

lemma acquire_inv:
  assumes "permit_inv t" "task_is i Waiting t" "0 < tr_permits t"
  shows "permit_inv ((set_task i Handshaking t)\<lparr>tr_permits := tr_permits t - 1\<rparr>)"
  using assms count_set_task [of i Waiting t holds_permit Handshaking]
  by (simp add: permit_inv_def task_sorts)

lemma permit_inv_step:
  assumes "transport_step t e = Some t'" and "permit_inv t"
  shows "permit_inv t' \<and> tr_max t' = tr_max t"
proof (cases e)
  case (LoopAccepted j r)
  with assms show ?thesis
    by (cases r) (auto simp: permit_inv_def count_tasks_def task_sorts split: if_splits)
next
  case (Acquire i)
  with assms acquire_inv [of t i] show ?thesis by (auto split: if_splits)
next
  case (AcquireShutdown i)
  with assms task_move_inv [of t i Waiting Finished] show ?thesis
    by (auto simp: task_sorts split: if_splits)
next
  case (HandshakeDone i ok)
  with assms task_move_inv [of t i Handshaking ServeHead] release_inv [of t i Handshaking Finished]
  show ?thesis by (auto simp: task_sorts split: if_splits)
next
  case (HandshakeShutdown i)
  with assms release_inv [of t i Handshaking Detached] show ?thesis
    by (auto simp: task_sorts split: if_splits)
next
  case (DetachedDone i)
  with assms task_move_inv [of t i Detached Finished] show ?thesis
    by (auto simp: task_sorts split: if_splits)
next
  case (ServeCheck i)
  with assms task_move_inv [of t i ServeHead ServeRead] release_inv [of t i ServeHead Finished]
  show ?thesis by (auto simp: task_sorts split: if_splits)
next
  case (ServeDone i r)
  with assms task_move_inv [of t i ServeRead ServeHead] release_inv [of t i ServeRead Finished]
  show ?thesis by (auto simp: task_sorts split: if_splits read_outcome.splits)
next
  case (StopTransport ok)
  then have "t' = (snd (transport_stop ok t))\<lparr>tr_stops := tr_stops t @ [fst (transport_stop ok t)]\<rparr>"
    using assms by (auto split: prod.splits)
  with assms show ?thesis by (simp add: permit_inv_def)
qed (use assms in \<open>auto simp: permit_inv_def split: if_splits option.splits\<close>)

lemma permit_inv_run:
  "transport_run t es = Some t' \<Longrightarrow> permit_inv t \<Longrightarrow> permit_inv t' \<and> tr_max t' = tr_max t"
proof (induction es arbitrary: t)
  case (Cons e es)
  then obtain u where "transport_step t e = Some u" "transport_run u es = Some t'"
    by (cases "transport_step t e") auto
  with Cons permit_inv_step [of t e u] show ?case by simp
qed simp

lemma transport_new_Inr:
  assumes "transport_new lib ssl debug fs cfg port n = Inr t"
  shows "permit_inv t \<and> tr_max t = unat n \<and> tr_tasks t = [] \<and> \<not> tr_shutdown t"
  using assms by (auto simp: transport_new_def rbind_eq_Inr permit_inv_def count_tasks_def)

text \<open>Before the first \<open>stop\<close> the flag is not set and no handshake has been left behind.\<close>

definition is_stop :: "event \<Rightarrow> bool" where
  "is_stop e = (case e of StopTransport _ \<Rightarrow> True | _ \<Rightarrow> False)"

definition undisturbed :: "transport \<Rightarrow> bool" where
  "undisturbed t \<longleftrightarrow> \<not> tr_shutdown t \<and> Detached \<notin> set (tr_tasks t)"

lemma set_task_set: "Detached \<notin> set (tr_tasks t) \<Longrightarrow> s \<noteq> Detached \<Longrightarrow> Detached \<notin> set (tr_tasks (set_task i s t))"
  using set_update_subset_insert [of "tr_tasks t" i s] by (auto simp: set_task_def)

lemma undisturbed_step:
  "transport_step t e = Some t' \<Longrightarrow> undisturbed t \<Longrightarrow> \<not> is_stop e \<Longrightarrow> undisturbed t'"
  by (cases e)
     (auto simp: undisturbed_def is_stop_def set_task_set transport_start_def Let_def
       split: if_splits option.splits accept_result.splits read_outcome.splits)

lemma undisturbed_run:
  "transport_run t es = Some t' \<Longrightarrow> undisturbed t \<Longrightarrow> \<not> list_ex is_stop es \<Longrightarrow> undisturbed t'"
proof (induction es arbitrary: t)
  case (Cons e es)
  then obtain u where "transport_step t e = Some u" "transport_run u es = Some t'"
    by (cases "transport_step t e") auto
  with Cons undisturbed_step [of t e u] show ?case by simp
qed simp

section \<open>Draining\<close>

text \<open>
  A potential for what is still to do once the flag is set: the most steps a connection, a loop or a
  call of \<open>stop\<close> can take from where it is.  An accept that is under way may bring one more
  connection.
\<close>

fun task_rank :: "task \<Rightarrow> nat" where
  "task_rank Waiting = 4"
| "task_rank Handshaking = 3"
| "task_rank ServeRead = 2"
| "task_rank ServeHead = 1"
| "task_rank Detached = 1"
| "task_rank Finished = 0"

fun loop_rank :: "loop_phase \<Rightarrow> nat" where
  "loop_rank LoopAccept = 6"
| "loop_rank LoopCheck = 1"
| "loop_rank _ = 0"

fun stop_rank :: "stop_call \<Rightarrow> nat" where
  "stop_rank (Awaiting j) = 1"
| "stop_rank (StopReturned r) = 0"

definition potential :: "transport \<Rightarrow> nat" where
  "potential t =
     sum_list (map task_rank (tr_tasks t)) + sum_list (map loop_rank (tr_loops t)) +
     sum_list (map stop_rank (tr_stops t)) + (case tr_handle t of None \<Rightarrow> 0 | Some _ \<Rightarrow> 1)"

definition is_start :: "event \<Rightarrow> bool" where
  "is_start e = (case e of StartTransport _ _ _ \<Rightarrow> True | _ \<Rightarrow> False)"

text \<open>Everything has ended: connections, detached handshakes, loops and calls of \<open>stop\<close>.\<close>

definition open_loop :: "loop_phase \<Rightarrow> bool" where
  "open_loop p \<longleftrightarrow> p \<noteq> LoopDone \<and> p \<noteq> LoopPanicked"

definition open_call :: "stop_call \<Rightarrow> bool" where
  "open_call c = (case c of Awaiting _ \<Rightarrow> True | StopReturned _ \<Rightarrow> False)"

definition drained :: "transport \<Rightarrow> bool" where
  "drained t \<longleftrightarrow>
     list_all (\<lambda>s. s = Finished) (tr_tasks t) \<and> \<not> list_ex open_loop (tr_loops t) \<and>
     \<not> list_ex open_call (tr_stops t)"

lemma open_call_iff: "open_call c \<longleftrightarrow> (\<exists>j. c = Awaiting j)"
  by (cases c) (simp_all add: open_call_def)

lemma sum_rank_update:
  "i < length xs \<Longrightarrow> sum_list (map f (xs[i := y])) + f (xs ! i) = sum_list (map f xs) + (f y :: nat)"
proof (induction xs arbitrary: i)
  case (Cons x xs)
  then show ?case by (cases i) auto
qed simp

lemma potential_permits [simp]: "potential (t\<lparr>tr_permits := n\<rparr>) = potential t"
  by (simp add: potential_def)

lemma potential_task: "task_is i s t \<Longrightarrow> potential (set_task i s' t) + task_rank s = potential t + task_rank s'"
  using sum_rank_update [of i "tr_tasks t" task_rank s']
  by (simp add: potential_def set_task_def task_is_def)

lemma potential_release: "task_is i s t \<Longrightarrow> potential (release i s' t) + task_rank s = potential t + task_rank s'"
  using potential_task [of i s t s'] by (simp add: release_def)

lemma potential_loop: "loop_is j p t \<Longrightarrow> potential (set_loop j p' t) + loop_rank p = potential t + loop_rank p'"
  using sum_rank_update [of j "tr_loops t" loop_rank p']
  by (simp add: potential_def set_loop_def loop_is_def)

lemma potential_new_task:
  "potential ((set_loop j p t)\<lparr>tr_tasks := tr_tasks t @ [s]\<rparr>) = potential (set_loop j p t) + task_rank s"
  by (simp add: potential_def set_loop_def)

lemma potential_stop_returns: "awaited_loop k t = Some j \<Longrightarrow> potential (stop_returns k r t) + 1 = potential t"
  using sum_rank_update [of k "tr_stops t" stop_rank "StopReturned (stop_outcome r)"]
  by (auto simp: potential_def stop_returns_def awaited_loop_def split: if_splits stop_call.splits)

lemma potential_stop:
  "transport_stop ok t = (c, t') \<Longrightarrow> potential (t'\<lparr>tr_stops := tr_stops t @ [c]\<rparr>) \<le> potential t"
  by (auto simp: transport_stop_def potential_def Let_def split: if_splits option.splits)

text \<open>Once the flag is set, every step but a call of \<open>stop\<close> uses up some of the potential.\<close>

lemma potential_step:
  assumes "transport_step t e = Some t'" and "tr_shutdown t" and "\<not> is_start e"
  shows "potential t' + (if is_stop e then 0 else 1) \<le> potential t \<and> tr_shutdown t'"
proof (cases e)
  case (LoopClone j ok)
  with assms potential_loop [of j LoopCheck t] show ?thesis by (auto simp: is_stop_def split: if_splits)
next
  case (LoopAccepted j r)
  with assms potential_loop [of j LoopAccept t LoopCheck] show ?thesis
    by (cases r) (auto simp: is_stop_def potential_new_task split: if_splits)
next
  case (LoopPanic j)
  with assms potential_loop [of j LoopCheck t LoopPanicked] potential_loop [of j LoopAccept t LoopPanicked]
  show ?thesis by (auto simp: is_stop_def split: if_splits)
next
  case (Acquire i)
  with assms potential_task [of i Waiting t Handshaking] show ?thesis
    by (auto simp: is_stop_def split: if_splits)
next
  case (AcquireShutdown i)
  with assms potential_task [of i Waiting t Finished] show ?thesis by (auto simp: is_stop_def split: if_splits)
next
  case (HandshakeDone i ok)
  with assms potential_task [of i Handshaking t ServeHead] potential_release [of i Handshaking t Finished]
  show ?thesis by (auto simp: is_stop_def split: if_splits)
next
  case (HandshakeShutdown i)
  with assms potential_release [of i Handshaking t Detached] show ?thesis
    by (auto simp: is_stop_def split: if_splits)
next
  case (DetachedDone i)
  with assms potential_task [of i Detached t Finished] show ?thesis by (auto simp: is_stop_def split: if_splits)
next
  case (ServeCheck i)
  with assms potential_release [of i ServeHead t Finished] show ?thesis
    by (auto simp: is_stop_def split: if_splits)
next
  case (ServeDone i r)
  with assms potential_task [of i ServeRead t ServeHead] potential_release [of i ServeRead t Finished]
  show ?thesis by (auto simp: is_stop_def split: if_splits read_outcome.splits)
next
  case (StopTransport ok)
  obtain c u where c: "transport_stop ok t = (c, u)" by fastforce
  then have "tr_shutdown u" using start_stop_fields(5) [of ok t] by simp
  with StopTransport assms potential_stop [OF c] c show ?thesis by (auto simp: is_stop_def)
next
  case (StopJoined k)
  with assms potential_stop_returns [of k t] show ?thesis
    by (fastforce simp: is_stop_def split: if_splits option.splits)
next
  case (StopTimedOut k)
  with assms potential_stop_returns [of k t] show ?thesis
    by (fastforce simp: is_stop_def split: if_splits option.splits)
qed (use assms in \<open>simp add: is_start_def\<close>)

lemma potential_run:
  "transport_run t es = Some t' \<Longrightarrow> tr_shutdown t \<Longrightarrow> \<not> list_ex is_start es \<Longrightarrow>
     length (filter (\<lambda>e. \<not> is_stop e) es) + potential t' \<le> potential t \<and> tr_shutdown t'"
proof (induction es arbitrary: t)
  case (Cons e es)
  then obtain u where "transport_step t e = Some u" "transport_run u es = Some t'"
    by (cases "transport_step t e") auto
  with Cons.IH [of u] Cons.prems potential_step [of t e u] show ?case by (auto split: if_splits)
qed simp

text \<open>And while anything is left to do, some step is possible.\<close>

lemma not_stuck_task:
  assumes "tr_shutdown t" "s \<in> set (tr_tasks t)" "s \<noteq> Finished"
  shows "\<exists>e. \<not> is_start e \<and> \<not> is_stop e \<and> transport_step t e \<noteq> None"
proof -
  from assms(2) obtain i where i: "task_is i s t" by (auto simp: task_is_def in_set_conv_nth)
  define e where "e = (case s of Waiting \<Rightarrow> AcquireShutdown i | Handshaking \<Rightarrow> HandshakeShutdown i
    | Detached \<Rightarrow> DetachedDone i | ServeHead \<Rightarrow> ServeCheck i | _ \<Rightarrow> ServeDone i ReadEnd)"
  show ?thesis
    using i assms by (intro exI [of _ e]) (cases s; simp add: e_def is_start_def is_stop_def)
qed

lemma not_stuck_loop:
  assumes "p \<in> set (tr_loops t)" "p \<noteq> LoopDone" "p \<noteq> LoopPanicked"
  shows "\<exists>e. \<not> is_start e \<and> \<not> is_stop e \<and> transport_step t e \<noteq> None"
proof -
  from assms(1) obtain j where j: "loop_is j p t" by (auto simp: loop_is_def in_set_conv_nth)
  define e where "e = (case p of LoopCheck \<Rightarrow> LoopClone j True | _ \<Rightarrow> LoopAccepted j AcceptWouldBlock)"
  show ?thesis
    using j assms by (intro exI [of _ e]) (cases p; simp add: e_def is_start_def is_stop_def)
qed

lemma not_stuck_stop:
  assumes "Awaiting j \<in> set (tr_stops t)"
  shows "\<exists>e. \<not> is_start e \<and> \<not> is_stop e \<and> transport_step t e \<noteq> None"
proof -
  from assms obtain k where "awaited_loop k t = Some j"
    by (metis (no_types, lifting) awaited_loop_def in_set_conv_nth stop_call.simps(5))
  then show ?thesis by (intro exI [of _ "StopTimedOut k"]) (simp add: is_start_def is_stop_def)
qed

lemma not_stuck:
  assumes "tr_shutdown t" "\<not> drained t"
  shows "\<exists>e. \<not> is_start e \<and> \<not> is_stop e \<and> transport_step t e \<noteq> None"
proof -
  from assms(2) consider s where "s \<in> set (tr_tasks t)" "s \<noteq> Finished"
    | p where "p \<in> set (tr_loops t)" "p \<noteq> LoopDone" "p \<noteq> LoopPanicked"
    | j where "Awaiting j \<in> set (tr_stops t)"
    by (auto simp: drained_def list_all_iff list_ex_iff open_loop_def open_call_iff)
  then show ?thesis
    using not_stuck_task [OF assms(1)] not_stuck_loop [of _ t] not_stuck_stop [of _ t] by cases blast+
qed

section \<open>Properties\<close>

text \<open>
  C12. The connection limit: in every run of a new transport, with any interleaving of the listener
  loops, the connections, and calls of start and stop, the permits are exactly those not held by a
  connection that is in its handshake or being served, so never more than \<open>max_connections\<close> are, and
  none is lost by a failed handshake or a shutdown and none returned twice.  The limit bounds the
  tasks: a handshake that the shutdown has cut off from its task goes on without a permit, but none
  does before the first call of stop.
\<close>

theorem connection_limit:
  assumes "transport_new lib ssl debug fs cfg port n = Inr t0" and "transport_run t0 es = Some t"
  shows "count_tasks (\<lambda>s. s = Handshaking) t + count_tasks serving t + tr_permits t = unat n \<and>
    (count_tasks (\<lambda>s. s = Detached) t = 0 \<or> list_ex is_stop es)"
proof -
  note new = transport_new_Inr [OF assms(1)]
  have "count_tasks holds_permit t = count_tasks (\<lambda>s. s = Handshaking) t + count_tasks serving t"
  proof -
    have "length (filter holds_permit xs) =
        length (filter (\<lambda>s. s = Handshaking) xs) + length (filter serving xs)" for xs
      by (induction xs) (auto simp: task_sorts)
    then show ?thesis by (simp add: count_tasks_def)
  qed
  moreover have "permit_inv t \<and> tr_max t = tr_max t0" using new by (intro permit_inv_run [OF assms(2)]) simp
  moreover have "list_ex is_stop es \<or> undisturbed t"
    using undisturbed_run [OF assms(2)] new by (auto simp: undisturbed_def)
  then have "count_tasks (\<lambda>s. s = Detached) t = 0 \<or> list_ex is_stop es"
    by (auto simp: undisturbed_def count_tasks_def filter_empty_conv)
  ultimately show ?thesis using new by (simp add: permit_inv_def)
qed

definition demo_tls_lib :: ossl where
  "demo_tls_lib = demo_ossl\<lparr>key_usage_ext := (\<lambda>_. Some [0xA0]),
     ext_key_usage_ext := (\<lambda>_. Some [Some ''TLS Web Server Authentication''])\<rparr>"

definition demo_tls_config :: tls_config where
  "demo_tls_config =
     \<lparr>tls_cert_path = ''/etc/cert/server/certificate.crt'',
      tls_key_path = ''/etc/cert/server/private.key'', tls_key_password = None,
      tls_ca_cert_path = ''/etc/cert/server/ca_root.crt'',
      tls_crl_path = Some ''/etc/cert/server/cert.crl''\<rparr>"

definition demo_ssl :: ssl_builder where
  "demo_ssl = \<lparr>ssl_configure = True, ssl_set_certificate = (\<lambda>_. True), ssl_set_private_key = (\<lambda>_ _. True)\<rparr>"

definition demo_transport :: transport where
  "demo_transport =
     \<lparr>tr_max = 2, tr_permits = 2, tr_port = 9000, tr_client_crl = Some 1, tr_shutdown = False,
      tr_loops = [], tr_handle = None, tr_tasks = [], tr_stops = []\<rparr>"

lemma demo_transport_new:
  "transport_new demo_tls_lib demo_ssl False demo_fs demo_tls_config 9000 2 = Inr demo_transport"
  by code_simp

lemmas step_defs = task_is_def loop_is_def set_task_def set_loop_def release_def transport_start_def
  transport_stop_def awaited_loop_def stop_returns_def

lemma connection_limit_witness:
  "\<exists>t. transport_run demo_transport
      [StartTransport True True True, LoopClone 0 True, LoopAccepted 0 Accepted, Acquire 0,
       LoopClone 0 True, LoopAccepted 0 Accepted, Acquire 1, HandshakeDone 0 True,
       HandshakeDone 1 False] = Some t \<and> tr_tasks t = [ServeHead, Finished] \<and> tr_permits t = 1"
    (is "\<exists>t. transport_run _ ?es = Some t \<and> _")
proof -
  have "\<exists>t. transport_run demo_transport ?es = Some t \<and> tr_tasks t = [ServeHead, Finished]"
    by (simp add: demo_transport_def step_defs Let_def)
  then obtain t where t: "transport_run demo_transport ?es = Some t" "tr_tasks t = [ServeHead, Finished]" by blast
  then have "tr_permits t = 1"
    using connection_limit [OF demo_transport_new t(1)] by (simp add: count_tasks_def serving_def)
  with t show ?thesis by blast
qed

text \<open>
  With one permit: the shutdown cuts off a handshake, the next connection takes the permit, and two
  handshakes are running.
\<close>

lemma handshakes_exceed_limit:
  "\<exists>t. transport_run (demo_transport\<lparr>tr_max := 1, tr_permits := 1\<rparr>)
      [StartTransport True True True, LoopClone 0 True, LoopAccepted 0 Accepted,
       LoopClone 0 True, LoopAccepted 0 Accepted, Acquire 0, StopTransport True,
       HandshakeShutdown 0, Acquire 1] = Some t \<and> tr_tasks t = [Detached, Handshaking] \<and> tr_max t = 1"
  by (simp add: demo_transport_def step_defs Let_def)

text \<open>
  C13. Shutdown completes in bounded time whatever the interleaving: once the flag is set, and until the
  transport is started again, a run has at most four steps per connection, six per listener loop and
  one per call of \<open>stop\<close> that is still to return; and as long as a connection, a detached handshake,
  a loop or a call of \<open>stop\<close> has not ended, some step is possible.  So every run that goes on as long
  as it can ends with all of them ended, whether or not permits were free, and although connections
  may still be accepted, served and read from on the way.
\<close>

theorem shutdown_drains_every_task:
  assumes "tr_shutdown t" "transport_run t es = Some t'" "\<not> list_ex is_start es"
  shows "length (filter (\<lambda>e. \<not> is_stop e) es) \<le>
      4 * count_tasks (\<lambda>s. s \<noteq> Finished) t +
      6 * length (filter open_loop (tr_loops t)) + length (filter open_call (tr_stops t)) + 1 \<and>
    (drained t' \<or> (\<exists>e. \<not> is_start e \<and> \<not> is_stop e \<and> transport_step t' e \<noteq> None))"
proof -
  have "sum_list (map task_rank ts) \<le> 4 * length (filter (\<lambda>s. s \<noteq> Finished) ts)" for ts
  proof (induction ts)
    case (Cons s ts)
    then show ?case by (cases s) auto
  qed simp
  moreover have "sum_list (map loop_rank ps) \<le> 6 * length (filter open_loop ps)" for ps
  proof (induction ps)
    case (Cons p ps)
    then show ?case by (cases p) (auto simp: open_loop_def)
  qed simp
  moreover have "sum_list (map stop_rank cs) \<le> length (filter open_call cs)" for cs
  proof (induction cs)
    case (Cons c cs)
    then show ?case by (cases c) (auto simp: open_call_def)
  qed simp
  ultimately have "potential t \<le> 4 * count_tasks (\<lambda>s. s \<noteq> Finished) t +
      6 * length (filter open_loop (tr_loops t)) + length (filter open_call (tr_stops t)) + 1"
    unfolding potential_def count_tasks_def by (intro add_mono) (auto split: option.split)
  moreover have "length (filter (\<lambda>e. \<not> is_stop e) es) + potential t' \<le> potential t" "tr_shutdown t'"
    using potential_run [OF assms(2,1,3)] by simp_all
  ultimately show ?thesis using not_stuck [of t'] by (auto intro: order_trans add_leD1)
qed

text \<open>A transport with a connection that is served and one that waits, after a call of \<open>stop\<close>.\<close>

lemma shutdown_drains_every_task_witness:
  "\<exists>t'. transport_run
      (demo_transport\<lparr>tr_shutdown := True, tr_loops := [LoopAccept], tr_tasks := [ServeRead, Waiting],
         tr_stops := [Awaiting 0]\<rparr>)
      [ServeDone 0 ReadAgain, Acquire 1, LoopAccepted 0 AcceptWouldBlock, LoopClone 0 True, ServeCheck 0,
       StopJoined 0, HandshakeShutdown 1] = Some t' \<and>
     tr_tasks t' = [Finished, Detached] \<and> tr_stops t' = [StopReturned (Inr ())] \<and>
     (\<exists>e. \<not> is_start e \<and> \<not> is_stop e \<and> transport_step t' e \<noteq> None)"
    (is "\<exists>t'. transport_run ?t ?es = Some t' \<and> _")
proof -
  have "\<exists>t'. transport_run ?t ?es = Some t' \<and> tr_tasks t' = [Finished, Detached] \<and>
      tr_stops t' = [StopReturned (Inr ())]"
    by (simp add: demo_transport_def step_defs Let_def stop_outcome_def)
  then obtain t' where t': "transport_run ?t ?es = Some t'" "tr_tasks t' = [Finished, Detached]"
    "tr_stops t' = [StopReturned (Inr ())]" by blast
  then have "\<not> drained t'" by (simp add: drained_def)
  with shutdown_drains_every_task [OF _ t'(1)] t' show ?thesis by (simp add: is_start_def)
qed

end
