(* ===== verification/Runtime.thy ===== *)
theory Runtime
  imports TrustringHandler Listener
begin

text \<open>
  The trust runtime process: \<^verbatim>\<open>rust/framework/src/config/mod.rs\<close> (the configuration and its
  validation), \<^verbatim>\<open>core/cert_checker.rs\<close> and \<^verbatim>\<open>core/signal.rs\<close> beside it, and
  \<^verbatim>\<open>rust/trustruntime/src/main.rs\<close> (start-up, degraded modes, shutdown).

  \<open>main_run\<close> is the sequence of what the process does that can be seen from outside, in order.  The
  record \<open>boot\<close> is what it meets: arguments, file system, the TOML crate, OpenSSL, systemd, the
  vsock socket, the signals.  Beginning to wait for a signal is the event \<open>WaitSignal\<close>; a run that no
  signal ends stops there.  When a handler cannot be registered the process panics, and does nothing
  more.  The log file set-up is one answer of the environment.
\<close>

section \<open>Configuration\<close>

definition COMM_CERT_PATH :: string where "COMM_CERT_PATH = ''/etc/cert/server/certificate.crt''"
definition COMM_KEY_PATH :: string where "COMM_KEY_PATH = ''/etc/cert/server/private.key''"
definition COMM_KEY_PWD_PATH :: string where "COMM_KEY_PWD_PATH = ''/etc/cert/server/key_pwd.txt''"
definition COMM_CA_ROOT_PATH :: string where "COMM_CA_ROOT_PATH = ''/etc/cert/server/ca_root.crt''"
definition COMM_CRL_PATH :: string where "COMM_CRL_PATH = ''/etc/cert/server/cert.crl''"
definition SIGNER_CERT_PATH :: string where "SIGNER_CERT_PATH = ''/etc/cert/cms/signer.crt''"
definition SIGNER_KEY_PATH :: string where "SIGNER_KEY_PATH = ''/etc/cert/cms/signer.key''"
definition CA_ROOT_CERT_PATH :: string where "CA_ROOT_CERT_PATH = ''/etc/cert/cms/ca_root.crt''"
definition CMS_CRL_PATH :: string where "CMS_CRL_PATH = ''/etc/cert/cms/cms.crl''"

datatype app_config_error = ParseError | ConfigIoError | ValidationError string

datatype app_log_level = LvInfo | LvTrace | LvDebug | LvWarn | LvError

record vsock_config =
  vc_port :: u32
  vc_max_connections :: u32

record log_config =
  lc_path :: string
  lc_level :: app_log_level
  lc_max_file_size :: u64
  lc_max_roll_count :: u32

record cert_check_config =
  interval_hours :: u64

record app_config =
  ac_vsock :: vsock_config
  ac_log :: log_config
  ac_cert_check :: cert_check_config

definition default_max_connections :: u32 where "default_max_connections = 16"
definition default_interval_hours :: u64 where "default_interval_hours = 24"

definition vsock_validate :: "vsock_config \<Rightarrow> app_config_error + unit" where
  "vsock_validate c =
     (if vc_port c = 0 then Inl (ValidationError ''vsock.port must not be 0'')
      else if vc_max_connections c = 0 \<or> vc_max_connections c > 1024
      then Inl (ValidationError ''vsock.max_connections must be 1-1024'')
      else Inr ())"

definition log_validate :: "bool \<Rightarrow> log_config \<Rightarrow> app_config_error + unit" where
  "log_validate debug c =
     (if \<not> debug \<and> (lc_level c = LvTrace \<or> lc_level c = LvDebug)
      then Inl (ValidationError ''log.level must be info/warn/error in release build'')
      else if lc_max_file_size c = 0 \<or> lc_max_file_size c > 100
      then Inl (ValidationError ''log.max_file_size must be 1-100 MB'')
      else if lc_max_roll_count c = 0 \<or> lc_max_roll_count c > 100
      then Inl (ValidationError ''log.max_roll_count must be 1-100'')
      else Inr ())"

definition cert_check_validate :: "cert_check_config \<Rightarrow> app_config_error + unit" where
  "cert_check_validate c =
     (if interval_hours c = 0 \<or> interval_hours c > 720
      then Inl (ValidationError ''cert_check.interval_hours must be 1-720 hours'')
      else Inr ())"

definition app_validate :: "bool \<Rightarrow> app_config \<Rightarrow> app_config_error + unit" where
  "app_validate debug c =
     rbind (vsock_validate (ac_vsock c)) (\<lambda>_.
     rbind (log_validate debug (ac_log c)) (\<lambda>_. cert_check_validate (ac_cert_check c)))"

section \<open>The certificate checker\<close>

record certificate_status =
  cs_path :: string
  cs_expired :: bool
  cs_not_yet_valid :: bool
  cs_not_after :: "asn1_time option"
  cs_not_before :: "asn1_time option"

definition check_one :: "ossl \<Rightarrow> bool \<Rightarrow> file_system \<Rightarrow> string \<Rightarrow> certificate_status" where
  "check_one lib debug fs path =
     (case load_x509 lib debug fs path of
        Inr cert \<Rightarrow>
          \<lparr>cs_path = path, cs_expired = is_expired lib cert,
           cs_not_yet_valid = is_not_yet_valid lib cert,
           cs_not_after = Some (not_after lib cert), cs_not_before = Some (not_before lib cert)\<rparr>
      | Inl _ \<Rightarrow>
          \<lparr>cs_path = path, cs_expired = False, cs_not_yet_valid = False,
           cs_not_after = None, cs_not_before = None\<rparr>)"

definition check_all :: "ossl \<Rightarrow> bool \<Rightarrow> file_system \<Rightarrow> string list \<Rightarrow> certificate_status list" where
  "check_all lib debug fs paths = map (check_one lib debug fs) paths"

section \<open>Signals\<close>

record signal_handler =
  shutdown_requested :: bool

definition signal_handler_new :: signal_handler where
  "signal_handler_new = \<lparr>shutdown_requested = False\<rparr>"

definition is_shutdown_requested :: "signal_handler \<Rightarrow> bool" where
  "is_shutdown_requested sh = shutdown_requested sh"

datatype os_signal = SIGTERM | SIGINT | OtherSignal nat

datatype wait_result = Arrived signal_handler "os_signal list" | StillWaiting | WaitPanic

text \<open>
  \<open>registered\<close>: whether both handlers could be registered.  The signals that arrive from then on, to
  the first that ends the wait; what comes after it is left over.
\<close>

fun wait_for_shutdown_signal :: "bool \<Rightarrow> os_signal list \<Rightarrow> signal_handler \<Rightarrow> wait_result" where
  "wait_for_shutdown_signal registered [] sh = (if registered then StillWaiting else WaitPanic)"
| "wait_for_shutdown_signal registered (s # ss) sh =
     (if \<not> registered then WaitPanic
      else if s = SIGTERM \<or> s = SIGINT then Arrived (sh\<lparr>shutdown_requested := True\<rparr>) ss
      else wait_for_shutdown_signal registered ss sh)"

section \<open>The process\<close>

datatype rt_event =
    Exited nat
  | Sent "notify_state list"
  | WaitSignal
  | Panicked
  | PluginsReady
  | CheckerStarted u64
  | CheckerAborted
  | TransportUp
  | TransportDown bool
  | PluginsDown bool

record boot =
  bo_args :: "string list"
  bo_read_text :: "string \<Rightarrow> string option"
  bo_toml :: "string \<Rightarrow> app_config option"
  bo_logger :: "log_config \<Rightarrow> bool"
  bo_lib :: ossl
  bo_ssl :: ssl_builder
  bo_codec :: codec
  bo_debug :: bool
  bo_fs :: file_system
  bo_exists :: "string \<Rightarrow> bool"
  bo_bind :: bool
  bo_socket_timeout :: bool
  bo_listener_end :: "loop_phase option"
  bo_registered :: bool
  bo_signals :: "os_signal list"
  bo_notify_socket :: bool
  bo_notify_ok :: "notify_state list \<Rightarrow> bool"

definition EXIT_CODE_GENERAL_ERROR :: nat where "EXIT_CODE_GENERAL_ERROR = 1"

definition parse_args :: "string list \<Rightarrow> nat + string" where
  "parse_args args =
     (if length args < 3 \<or> args ! 1 \<noteq> ''--config'' then Inl EXIT_CODE_GENERAL_ERROR
      else Inr (args ! 2))"

definition from_file :: "boot \<Rightarrow> string \<Rightarrow> app_config_error + app_config" where
  "from_file bo path =
     (case bo_read_text bo path of
        None \<Rightarrow> Inl ConfigIoError
      | Some content \<Rightarrow> (case bo_toml bo content of None \<Rightarrow> Inl ParseError | Some c \<Rightarrow> Inr c))"

definition load_config :: "boot \<Rightarrow> string \<Rightarrow> nat + app_config" where
  "load_config bo path =
     (case from_file bo path of
        Inr c \<Rightarrow>
          (case app_validate (bo_debug bo) c of
             Inl _ \<Rightarrow> Inl EXIT_CODE_GENERAL_ERROR | Inr _ \<Rightarrow> Inr c)
      | Inl _ \<Rightarrow> Inl EXIT_CODE_GENERAL_ERROR)"

definition init_logger :: "boot \<Rightarrow> app_config \<Rightarrow> nat + unit" where
  "init_logger bo c = (if bo_logger bo (ac_log c) then Inr () else Inl EXIT_CODE_GENERAL_ERROR)"

text \<open>The daemon and the log of events, which is what systemd's notifications act on.\<close>

type_synonym rt = "daemon_state \<times> rt_event list"

definition rt_systemd :: "boot \<Rightarrow> rt_event list systemd" where
  "rt_systemd bo =
     \<lparr>has_socket = (\<lambda>_. bo_notify_socket bo),
      sd_notify = (\<lambda>_ ns evs. (bo_notify_ok bo ns, evs @ [Sent ns]))\<rparr>"

definition rt_status :: "boot \<Rightarrow> string \<Rightarrow> rt \<Rightarrow> rt" where
  "rt_status bo msg s = snd (notify_status (rt_systemd bo) msg (fst s) (snd s))"

definition rt_ready :: "boot \<Rightarrow> rt \<Rightarrow> rt" where
  "rt_ready bo s = snd (notify_ready (rt_systemd bo) (fst s) (snd s))"

definition rt_stopping :: "boot \<Rightarrow> rt \<Rightarrow> rt" where
  "rt_stopping bo s = snd (notify_stopping (rt_systemd bo) (fst s) (snd s))"

definition emit :: "rt_event \<Rightarrow> rt \<Rightarrow> rt" where
  "emit e s = (fst s, snd s @ [e])"

text \<open>
  From here on a step may be the last: Inl is a run that has ended (or waits for ever), Inr one that
  goes on.
\<close>

definition ended :: "rt + rt \<Rightarrow> rt" where
  "ended r = (case r of Inl s \<Rightarrow> s | Inr s \<Rightarrow> s)"

definition await_shutdown :: "boot \<Rightarrow> rt \<Rightarrow> rt + rt" where
  "await_shutdown bo s =
     (case wait_for_shutdown_signal (bo_registered bo) (bo_signals bo) signal_handler_new of
        WaitPanic \<Rightarrow> Inl (emit Panicked s)
      | StillWaiting \<Rightarrow> Inl (emit WaitSignal s)
      | Arrived _ _ \<Rightarrow> Inr (emit WaitSignal s))"

text \<open>The path with no service: the same steps in \<open>check_certificates\<close> and \<open>handle_startup_failure\<close>.\<close>

definition handle_startup_failure :: "boot \<Rightarrow> string \<Rightarrow> rt \<Rightarrow> rt + rt" where
  "handle_startup_failure bo status s =
     rbind (await_shutdown bo (rt_ready bo (rt_status bo status s))) (\<lambda>s1. Inr (rt_stopping bo s1))"

definition check_certificates :: "boot \<Rightarrow> rt \<Rightarrow> rt + rt" where
  "check_certificates bo s =
     (let statuses = check_all (bo_lib bo) (bo_debug bo) (bo_fs bo) [COMM_CERT_PATH, SIGNER_CERT_PATH]
      in case find (\<lambda>st. cs_path st = COMM_CERT_PATH \<and> cs_expired st) statuses of
           Some _ \<Rightarrow>
             Inl (ended (handle_startup_failure bo ''Communication certificate has expired'' s))
         | None \<Rightarrow> Inr s)"

definition create_transport :: "boot \<Rightarrow> app_config \<Rightarrow> string + transport" where
  "create_transport bo c =
     rbind
       (if bo_exists bo COMM_KEY_PWD_PATH then
          (case validate_cert_path (bo_debug bo) (bo_fs bo) COMM_KEY_PWD_PATH of
             Inl _ \<Rightarrow> Inl ''Failed to validate key password path''
           | Inr p \<Rightarrow>
               (case Option.bind (read_file (bo_fs bo) p) from_utf8 of
                  None \<Rightarrow> Inl ''Failed to read private key password file''
                | Some content \<Rightarrow> Inr (Some (trim content))))
        else Inr None)
       (\<lambda>key_password.
          let crl_path = (if bo_exists bo COMM_CRL_PATH then Some COMM_CRL_PATH else None);
              cfg = \<lparr>tls_cert_path = COMM_CERT_PATH, tls_key_path = COMM_KEY_PATH,
                     tls_key_password = key_password, tls_ca_cert_path = COMM_CA_ROOT_PATH,
                     tls_crl_path = crl_path\<rparr>
          in case transport_new (bo_lib bo) (bo_ssl bo) (bo_debug bo) (bo_fs bo) cfg
                    (vc_port (ac_vsock c)) (vc_max_connections (ac_vsock c)) of
               Inl _ \<Rightarrow> Inl ''Failed to create vsock transport''
             | Inr t \<Rightarrow> Inr t)"

definition setup_plugins :: "boot \<Rightarrow> string + (handler_lock plugin list \<times> handler_lock)" where
  "setup_plugins bo =
     (let cms_crl_path = (if bo_exists bo CMS_CRL_PATH then Some CMS_CRL_PATH else None)
      in case trustring_new (bo_lib bo) (bo_debug bo) (bo_fs bo) SIGNER_CERT_PATH SIGNER_KEY_PATH
                CA_ROOT_CERT_PATH cms_crl_path of
           Inl _ \<Rightarrow> Inl ''Failed to create trustring plugin''
         | Inr tp \<Rightarrow>
             let ps = add_plugin (trustring_plugin_ops (bo_lib bo) (bo_codec bo) tp) []
             in (case init_all ps empty_table of
                   (Inl _, _) \<Rightarrow> Inl ''Failed to init plugins''
                 | (Inr _, tbl) \<Rightarrow> Inr (ps, tbl)))"

text \<open>The lock of the listener handle is new and only taken here, so it is not poisoned.\<close>

definition graceful_shutdown ::
  "boot \<Rightarrow> transport \<Rightarrow> handler_lock plugin list \<Rightarrow> handler_lock \<Rightarrow> rt \<Rightarrow> rt" where
  "graceful_shutdown bo t ps tbl s =
     (let stopped = (case fst (transport_stop True t) of
                       StopReturned r \<Rightarrow> r | Awaiting _ \<Rightarrow> stop_outcome (bo_listener_end bo));
          s1 = emit (TransportDown (stopped = Inr ())) s;
          s2 = emit (PluginsDown (fst (shutdown_all ps tbl) = Inr ())) s1
      in emit CheckerAborted (rt_stopping bo s2))"

definition serve_phase ::
  "boot \<Rightarrow> app_config \<Rightarrow> transport \<Rightarrow> handler_lock plugin list \<Rightarrow> handler_lock \<Rightarrow> rt \<Rightarrow> rt" where
  "serve_phase bo c t ps tbl s =
     (let s1 = emit (CheckerStarted (interval_hours (ac_cert_check c) * 3600)) s
      in case transport_start (bo_bind bo) (bo_socket_timeout bo) True t of
           (False, _) \<Rightarrow>
             ended (rbind (handle_startup_failure bo ''Failed to start transport'' s1)
               (\<lambda>s2. Inr (emit CheckerAborted s2)))
         | (True, t1) \<Rightarrow>
             ended (rbind (await_shutdown bo (rt_ready bo (emit TransportUp s1)))
               (\<lambda>s2. Inr (graceful_shutdown bo t1 ps tbl s2))))"

definition main_run :: "boot \<Rightarrow> rt" where
  "main_run bo =
     (let s0 = (daemon_new, []) in
      case rbind (parse_args (bo_args bo)) (\<lambda>path. rbind (load_config bo path) (\<lambda>c.
             rbind (init_logger bo c) (\<lambda>_. Inr c))) of
        Inl code \<Rightarrow> emit (Exited code) s0
      | Inr c \<Rightarrow>
          (case check_certificates bo s0 of
             Inl s \<Rightarrow> s
           | Inr s \<Rightarrow>
               (case create_transport bo c of
                  Inl _ \<Rightarrow> ended (handle_startup_failure bo ''Failed to create vsock transport'' s)
                | Inr t \<Rightarrow>
                    (case setup_plugins bo of
                       Inl _ \<Rightarrow> ended (handle_startup_failure bo ''Plugin initialization failed'' s)
                     | Inr (ps, tbl) \<Rightarrow> serve_phase bo c t ps tbl (emit PluginsReady s)))))"

section \<open>The traces\<close>

definition told :: "boot \<Rightarrow> notify_state list \<Rightarrow> rt_event list" where
  "told bo ns = (if bo_notify_socket bo then [Sent ns] else [])"

definition signalled :: "boot \<Rightarrow> bool" where
  "signalled bo \<longleftrightarrow> list_ex (\<lambda>x. x = SIGTERM \<or> x = SIGINT) (bo_signals bo)"

text \<open>Waiting, and what follows it.\<close>

definition awaited :: "boot \<Rightarrow> rt_event list \<Rightarrow> rt_event list" where
  "awaited bo post =
     (if \<not> bo_registered bo then [Panicked] else if signalled bo then WaitSignal # post else [WaitSignal])"

definition degraded :: "boot \<Rightarrow> string \<Rightarrow> rt_event list \<Rightarrow> rt_event list" where
  "degraded bo msg post =
     told bo [NotifyStatus msg] @ told bo [NotifyReady] @ awaited bo (told bo [NotifyStopping] @ post)"

definition served :: "boot \<Rightarrow> rt_event list" where
  "served bo =
     [TransportUp] @ told bo [NotifyReady] @
     awaited bo ([TransportDown (stop_outcome (bo_listener_end bo) = Inr ()), PluginsDown True] @
       told bo [NotifyStopping] @ [CheckerAborted])"

lemma wait_result:
  "wait_for_shutdown_signal reg xs sh =
     (if \<not> reg then WaitPanic
      else if list_ex (\<lambda>x. x = SIGTERM \<or> x = SIGINT) xs
      then Arrived (sh\<lparr>shutdown_requested := True\<rparr>)
             (tl (dropWhile (\<lambda>x. \<not> (x = SIGTERM \<or> x = SIGINT)) xs))
      else StillWaiting)"
  by (induction reg xs sh rule: wait_for_shutdown_signal.induct) auto

lemma await_shutdown_eq:
  "await_shutdown bo s =
     (if \<not> bo_registered bo then Inl (emit Panicked s)
      else if signalled bo then Inr (emit WaitSignal s) else Inl (emit WaitSignal s))"
  by (simp add: await_shutdown_def wait_result signalled_def)

lemma rt_status_simp [simp]:
  "rt_status bo msg (st, evs) = (st, evs @ told bo [NotifyStatus msg])"
  by (simp add: rt_status_def notify_status_def send_notify_def rt_systemd_def told_def)

lemma rt_ready_simp [simp]: "rt_ready bo (Initializing, evs) = (Ready, evs @ told bo [NotifyReady])"
  by (simp add: rt_ready_def notify_ready_def send_notify_def rt_systemd_def told_def)

lemma rt_stopping_simp [simp]: "snd (rt_stopping bo (Ready, evs)) = evs @ told bo [NotifyStopping]"
  by (simp add: rt_stopping_def notify_stopping_def send_notify_def rt_systemd_def told_def
      split: prod.split sum.split)

lemma emit_simps [simp]: "emit e (st, evs) = (st, evs @ [e])" "snd (emit e s) = snd s @ [e]"
  by (simp_all add: emit_def)

lemma handle_startup_failure_simp [simp]:
  "snd (ended (handle_startup_failure bo msg (Initializing, evs))) = evs @ degraded bo msg []"
  "snd (ended (rbind (handle_startup_failure bo msg (Initializing, evs)) (\<lambda>s. Inr (emit CheckerAborted s)))) =
     evs @ degraded bo msg [CheckerAborted]"
  by (simp_all add: handle_startup_failure_def await_shutdown_eq degraded_def awaited_def ended_def rbind_def)

text \<open>What the start-up requires, step by step.\<close>

definition boot_config :: "boot \<Rightarrow> app_config option" where
  "boot_config bo =
     (case rbind (parse_args (bo_args bo)) (load_config bo) of
        Inl _ \<Rightarrow> None | Inr c \<Rightarrow> if bo_logger bo (ac_log c) then Some c else None)"

definition comm_cert_expired :: "boot \<Rightarrow> bool" where
  "comm_cert_expired bo \<longleftrightarrow>
     (\<exists>cert. load_x509 (bo_lib bo) (bo_debug bo) (bo_fs bo) COMM_CERT_PATH = Inr cert \<and>
        is_expired (bo_lib bo) cert)"

lemma boot_config_valid:
  "boot_config bo = Some c \<Longrightarrow> app_validate (bo_debug bo) c = Inr ()"
  by (auto simp: boot_config_def load_config_def rbind_def split: sum.splits if_splits)

lemma check_certificates_cases:
  "check_certificates bo s =
     (if comm_cert_expired bo
      then Inl (ended (handle_startup_failure bo ''Communication certificate has expired'' s)) else Inr s)"
proof -
  have distinct: "COMM_CERT_PATH \<noteq> SIGNER_CERT_PATH"
    by (simp add: COMM_CERT_PATH_def SIGNER_CERT_PATH_def)
  show ?thesis
    using distinct
    by (auto simp: check_certificates_def check_all_def check_one_def comm_cert_expired_def
        split: sum.split)
qed

lemma setup_plugins_Inr:
  "setup_plugins bo = Inr (ps, tbl) \<Longrightarrow> shutdown_all ps tbl = (Inr (), [], tbl)"
  by (auto simp: setup_plugins_def add_plugin_def trustring_plugin_ops_def Let_def trustring_init_def
      trustring_shutdown_def shutdown_all.simps split: sum.splits)

lemma serve_phase_trace:
  assumes "shutdown_all ps tbl = (Inr (), es, tbl')"
  shows "snd (serve_phase bo c t ps tbl (Initializing, evs)) =
    evs @ [CheckerStarted (interval_hours (ac_cert_check c) * 3600)] @
    (if bo_bind bo \<and> bo_socket_timeout bo then served bo
     else degraded bo ''Failed to start transport'' [CheckerAborted])"
proof (cases "bo_bind bo \<and> bo_socket_timeout bo")
  case True
  then show ?thesis
    using assms
    by (simp add: serve_phase_def transport_start_def transport_stop_def await_shutdown_eq ended_def rbind_def
        graceful_shutdown_def served_def awaited_def Let_def)
next
  case False
  then show ?thesis by (auto simp: serve_phase_def transport_start_def Let_def)
qed

lemma main_run_trace:
  "snd (main_run bo) =
     (case boot_config bo of
        None \<Rightarrow> [Exited EXIT_CODE_GENERAL_ERROR]
      | Some c \<Rightarrow>
          if comm_cert_expired bo then degraded bo ''Communication certificate has expired'' []
          else case create_transport bo c of
            Inl _ \<Rightarrow> degraded bo ''Failed to create vsock transport'' []
          | Inr t \<Rightarrow>
              (case setup_plugins bo of
                 Inl _ \<Rightarrow> degraded bo ''Plugin initialization failed'' []
               | Inr _ \<Rightarrow>
                   [PluginsReady, CheckerStarted (interval_hours (ac_cert_check c) * 3600)] @
                   (if bo_bind bo \<and> bo_socket_timeout bo then served bo
                    else degraded bo ''Failed to start transport'' [CheckerAborted])))"
proof -
  have code: "x = EXIT_CODE_GENERAL_ERROR"
    if "rbind (parse_args (bo_args bo)) (\<lambda>path. rbind (load_config bo path) (\<lambda>c.
          rbind (init_logger bo c) (\<lambda>_. Inr c))) = Inl x" for x
    using that
    by (auto simp: rbind_eq_Inl parse_args_def load_config_def init_logger_def split: if_splits sum.splits)
  have boot: "boot_config bo =
      (case rbind (parse_args (bo_args bo)) (\<lambda>path. rbind (load_config bo path) (\<lambda>c.
          rbind (init_logger bo c) (\<lambda>_. Inr c))) of Inl _ \<Rightarrow> None | Inr c \<Rightarrow> Some c)"
    by (auto simp: boot_config_def rbind_def init_logger_def split: sum.splits)
  show ?thesis
    by (auto simp: main_run_def boot daemon_new_def check_certificates_cases Let_def
        serve_phase_trace [OF setup_plugins_Inr] dest: code split: sum.split)
qed

section \<open>Properties\<close>

text \<open>
  C10. The runtime opens its vsock service exactly when it should: the configuration was given, read,
  parsed and is valid, the log could be opened, the communication certificate does not load as an
  expired one, the TLS transport and the signing plugin could be built from their files, and the
  socket was bound with its timeout set.  In every other case no connection is ever accepted.
\<close>

theorem runtime_serves_exactly_when_ready:
  "TransportUp \<in> set (snd (main_run bo)) \<longleftrightarrow>
     (\<exists>c t tp. boot_config bo = Some c \<and> app_validate (bo_debug bo) c = Inr () \<and>
        \<not> comm_cert_expired bo \<and> create_transport bo c = Inr t \<and>
        trustring_new (bo_lib bo) (bo_debug bo) (bo_fs bo) SIGNER_CERT_PATH SIGNER_KEY_PATH
          CA_ROOT_CERT_PATH (if bo_exists bo CMS_CRL_PATH then Some CMS_CRL_PATH else None) = Inr tp \<and>
        bo_bind bo \<and> bo_socket_timeout bo)"
proof -
  have plug: "(\<exists>x. setup_plugins bo = Inr x) \<longleftrightarrow>
      (\<exists>tp. trustring_new (bo_lib bo) (bo_debug bo) (bo_fs bo) SIGNER_CERT_PATH SIGNER_KEY_PATH
          CA_ROOT_CERT_PATH (if bo_exists bo CMS_CRL_PATH then Some CMS_CRL_PATH else None) = Inr tp)"
    by (auto simp: setup_plugins_def add_plugin_def trustring_plugin_ops_def Let_def trustring_init_def
        split: sum.split)
  have "TransportUp \<notin> set (degraded bo msg [])" "TransportUp \<notin> set (degraded bo msg [CheckerAborted])"
    "TransportUp \<in> set (served bo)" for msg
    by (auto simp: degraded_def served_def told_def awaited_def)
  then have "TransportUp \<in> set (snd (main_run bo)) \<longleftrightarrow>
      (\<exists>c t x. boot_config bo = Some c \<and> \<not> comm_cert_expired bo \<and> create_transport bo c = Inr t \<and>
        setup_plugins bo = Inr x \<and> bo_bind bo \<and> bo_socket_timeout bo)"
    unfolding main_run_trace by (auto split: option.split sum.split)
  then show ?thesis using plug boot_config_valid by metis
qed

definition once_if :: "bool \<Rightarrow> nat" where "once_if b = (if b then 1 else 0)"

text \<open>
  READY, then the end of the process or a wait; after the wait, when a signal ends it, STOPPING, and
  when none does nothing more.
\<close>

definition one_session :: "boot \<Rightarrow> rt_event list \<Rightarrow> bool" where
  "one_session bo evs \<longleftrightarrow>
     (\<exists>pre post.
        evs = pre @ [if bo_registered bo then WaitSignal else Panicked] @ post \<and>
        set (pre @ post) \<inter> ({WaitSignal, Panicked} \<union> range Exited) = {} \<and>
        count_list pre (Sent [NotifyReady]) = once_if (bo_notify_socket bo) \<and>
        Sent [NotifyReady] \<notin> set post \<and> Sent [NotifyStopping] \<notin> set pre \<and>
        (if bo_registered bo \<and> signalled bo
         then count_list post (Sent [NotifyStopping]) = once_if (bo_notify_socket bo)
         else post = []))"

definition quiet_events :: "rt_event set" where
  "quiet_events = {PluginsReady, CheckerAborted} \<union> range CheckerStarted"

lemma quiet:
  assumes "set zs \<subseteq> quiet_events"
  shows "count_list zs (Sent ns) = 0" "WaitSignal \<notin> set zs" "Sent ns \<notin> set zs" "Panicked \<notin> set zs"
    "Exited n \<notin> set zs"
  using assms by (auto simp: count_list_0_iff quiet_events_def)

lemma one_session_degraded:
  assumes "set xs \<subseteq> quiet_events" and "set ys \<subseteq> quiet_events"
  shows "one_session bo (xs @ degraded bo msg ys)"
  unfolding one_session_def degraded_def
  by (rule exI [of _ "xs @ told bo [NotifyStatus msg] @ told bo [NotifyReady]"],
      rule exI [of _ "if bo_registered bo \<and> signalled bo then told bo [NotifyStopping] @ ys else []"])
     (use quiet [OF assms(1)] quiet [OF assms(2)] in \<open>auto simp: told_def once_if_def awaited_def\<close>)

lemma one_session_served: "one_session bo ([PluginsReady, CheckerStarted h] @ served bo)"
  unfolding one_session_def served_def
  by (rule exI [of _ "[PluginsReady, CheckerStarted h, TransportUp] @ told bo [NotifyReady]"],
      rule exI [of _ "if bo_registered bo \<and> signalled bo
        then [TransportDown (stop_outcome (bo_listener_end bo) = Inr ()), PluginsDown True] @
               told bo [NotifyStopping] @ [CheckerAborted] else []"])
     (auto simp: told_def once_if_def awaited_def)

text \<open>
  C11. Once the configuration is valid and the log is open the process runs one session, with or
  without service: it tells systemd READY exactly once (when systemd asked to be told) and then
  waits for a signal exactly once; when SIGTERM or SIGINT comes it tells STOPPING exactly once, and
  until then it neither tells STOPPING nor ends.  No failure of certificates, transport, plugins or
  socket makes it exit or skip a step.  The one exception is a signal handler that cannot be
  registered: then the process panics where it should begin to wait, after READY and without
  STOPPING.
\<close>

theorem runtime_always_runs_a_session:
  assumes "boot_config bo = Some c"
  shows "one_session bo (snd (main_run bo))"
proof -
  have q: "set [] \<subseteq> quiet_events" "set [CheckerAborted] \<subseteq> quiet_events"
    "set [PluginsReady, CheckerStarted h] \<subseteq> quiet_events" for h
    by (auto simp: quiet_events_def)
  note degraded = one_session_degraded [OF q(1,1), simplified] one_session_degraded [OF q(3,2), simplified]
  show ?thesis
    using one_session_served [of bo "interval_hours (ac_cert_check c) * 3600"] degraded
    by (auto simp: main_run_trace assms split: sum.split)
qed

text \<open>A configuration that starts the service, and the same with the certificate expired.\<close>

definition demo_app_config :: app_config where
  "demo_app_config =
     \<lparr>ac_vsock = \<lparr>vc_port = 9000, vc_max_connections = 16\<rparr>,
      ac_log = \<lparr>lc_path = ''/var/log/trustruntime/trustruntime.log'', lc_level = LvInfo,
        lc_max_file_size = 10, lc_max_roll_count = 5\<rparr>,
      ac_cert_check = \<lparr>interval_hours = 24\<rparr>\<rparr>"

definition demo_boot :: boot where
  "demo_boot =
     \<lparr>bo_args = [''trustruntime'', ''--config'', ''/etc/trustruntime/agent.toml''],
      bo_read_text = (\<lambda>_. Some []), bo_toml = (\<lambda>_. Some demo_app_config), bo_logger = (\<lambda>_. True),
      bo_lib = demo_tls_lib, bo_ssl = demo_ssl, bo_codec = demo_codec, bo_debug = False,
      bo_fs = demo_fs, bo_exists = (\<lambda>_. False), bo_bind = True, bo_socket_timeout = True,
      bo_listener_end = Some LoopDone, bo_registered = True, bo_signals = [OtherSignal 1, SIGTERM],
      bo_notify_socket = True, bo_notify_ok = (\<lambda>_. True)\<rparr>"

lemma runtime_always_runs_a_session_witness:
  "one_session demo_boot (snd (main_run demo_boot)) \<and> bo_registered demo_boot \<and> signalled demo_boot"
proof -
  have "boot_config demo_boot \<noteq> None" "bo_registered demo_boot" "signalled demo_boot" by code_simp+
  then show ?thesis using runtime_always_runs_a_session by blast
qed

end
