(* ===== verification/RtServices.thy ===== *)
theory RtServices
  imports Runtime SandboxProcs
begin

text \<open>
  The background services of the runtime:
  the periodic certificate check (\<^verbatim>\<open>core/cert_checker.rs\<close>) and the log files (\<^verbatim>\<open>logger/mod.rs\<close>): the
  roller that protects archives, the encoder that shortens file names, and the set-up, with the
  launcher's variant (\<^verbatim>\<open>launcher/src/logger.rs\<close>).  log4rs is a parameter: what its fixed-window roller does to the files, the encoder behind ours, and the
  answers of its builders.
\<close>

section \<open>Periodic checks\<close>

record checker =
  ck_paths :: "string list"
  ck_interval :: nat

definition checker_new :: "string list \<Rightarrow> checker" where
  "checker_new paths = \<lparr>ck_paths = paths, ck_interval = 86400\<rparr>"

definition with_interval :: "nat \<Rightarrow> checker \<Rightarrow> checker" where
  "with_interval i c = c\<lparr>ck_interval := i\<rparr>"

text \<open>The first \<open>n\<close> rounds of the endless task, each with its time and the files it finds then.\<close>

fun periodic_check ::
  "ossl \<Rightarrow> bool \<Rightarrow> (nat \<Rightarrow> file_system) \<Rightarrow> checker \<Rightarrow> nat \<Rightarrow> nat \<Rightarrow> (nat \<times> certificate_status list) list" where
  "periodic_check lib debug fs_at c now 0 = []"
| "periodic_check lib debug fs_at c now (Suc n) =
     (now, check_all lib debug (fs_at now) (ck_paths c)) #
       periodic_check lib debug fs_at c (now + ck_interval c) n"

text \<open>A certificate that expires is seen by the next round, at most one interval later.\<close>

lemma periodic_check_times:
  "map fst (periodic_check lib debug fs_at c now n) = map (\<lambda>k. now + k * ck_interval c) [0..<n]"
proof (induction n arbitrary: now)
  case (Suc n)
  show ?case by (simp add: Suc upt_rec [of 0 "Suc n"] map_Suc_upt [symmetric] algebra_simps del: upt_Suc)
qed simp

section \<open>Log files\<close>

definition LOG_PATTERN :: string where
  "LOG_PATTERN = ''[{d(%Y-%m-%d %H:%M:%S%.3f)}] [{l}] [{f}:{L}] {m}{n}''"

definition ARCHIVE_FILE_MODE :: u32 where "ARCHIVE_FILE_MODE = 0x120"
definition LOG_DIR_MODE :: u32 where "LOG_DIR_MODE = 0x1E8"

definition basename :: "string \<Rightarrow> string" where
  "basename file = last (str_split (CHR ''/'') file)"

subsection \<open>Rolling\<close>

text \<open>\<open>str::replace\<close>: every occurrence from the left.\<close>

fun str_replace_from :: "nat \<Rightarrow> string \<Rightarrow> string \<Rightarrow> string \<Rightarrow> string" where
  "str_replace_from skip p r [] = []"
| "str_replace_from (Suc skip) p r (x # xs) = str_replace_from skip p r xs"
| "str_replace_from 0 p r (x # xs) =
     (if starts_with (x # xs) p then r @ str_replace_from (length p - 1) p r xs
      else x # str_replace_from 0 p r xs)"

definition str_replace :: "string \<Rightarrow> string \<Rightarrow> string \<Rightarrow> string" where
  "str_replace s p r = str_replace_from 0 p r s"

text \<open>A file of the log directory: contents and mode.\<close>

type_synonym log_tree = "string \<rightharpoonup> bytes \<times> u32"

record roller =
  ro_pattern :: string
  ro_base :: nat
  ro_count :: nat

definition archive_name :: "roller \<Rightarrow> nat \<Rightarrow> string" where
  "archive_name ro i = str_replace (ro_pattern ro) ''{}'' (dec_string i)"

text \<open>\<open>PermissionRoller::roll\<close>; \<open>chmod_ok\<close>: whether the mode of a file can be set; a failure is a warning.\<close>

definition set_mode :: "(string \<Rightarrow> bool) \<Rightarrow> string \<Rightarrow> log_tree \<Rightarrow> log_tree" where
  "set_mode chmod_ok path t =
     (case t path of
        None \<Rightarrow> t
      | Some (content, m) \<Rightarrow> if chmod_ok path then t(path \<mapsto> (content, ARCHIVE_FILE_MODE)) else t)"

definition permission_roll ::
  "(string \<Rightarrow> log_tree \<Rightarrow> (string + unit) \<times> log_tree) \<Rightarrow> (string \<Rightarrow> bool) \<Rightarrow> roller \<Rightarrow> string \<Rightarrow> log_tree \<Rightarrow>
     (string + unit) \<times> log_tree" where
  "permission_roll inner chmod_ok ro file t =
     (case inner file t of
        (Inl e, t') \<Rightarrow> (Inl e, t')
      | (Inr _, t') \<Rightarrow>
          (Inr (), fold (\<lambda>i. set_mode chmod_ok (archive_name ro i)) [ro_base ro..<ro_base ro + ro_count ro] t'))"

subsection \<open>Encoding\<close>

record log_record =
  lr_level :: app_log_level
  lr_target :: string
  lr_module :: "string option"
  lr_file :: "string option"
  lr_line :: "u32 option"
  lr_message :: string

definition basename_encode :: "(log_record \<Rightarrow> 'r) \<Rightarrow> log_record \<Rightarrow> 'r" where
  "basename_encode inner r =
     inner (r\<lparr>lr_file := Some (case lr_file r of None \<Rightarrow> ''unknown'' | Some f \<Rightarrow> basename f)\<rparr>)"

subsection \<open>Set-up\<close>

text \<open>What is installed when the set-up succeeds.\<close>

record logger =
  lg_path :: string
  lg_trigger :: u64
  lg_roller :: roller
  lg_level :: app_log_level

text \<open>\<open>mkdir\<close>: creating a directory with its parents; the builders of log4rs; the global registration.\<close>

record log_host =
  lh_mkdir :: "string \<Rightarrow> u32 \<Rightarrow> string + unit"
  lh_roller :: "string \<Rightarrow> u32 \<Rightarrow> string + unit"
  lh_appender :: "string \<Rightarrow> string + unit"
  lh_config :: "string + unit"
  lh_install :: "string + unit"

definition logger_init :: "log_host \<Rightarrow> Runtime.log_config \<Rightarrow> string + logger" where
  "logger_init h c =
     rbind (case path_parent (lc_path c) of
              None \<Rightarrow> Inr ()
            | Some parent \<Rightarrow>
                (case lh_mkdir h parent LOG_DIR_MODE of
                   Inl e \<Rightarrow> Inl (''cannot create log directory: '' @ e) | Inr _ \<Rightarrow> Inr ())) (\<lambda>_.
     let max_size = lc_max_file_size c * 1024 * 1024;
         pattern = lc_path c @ ''.{}.gz'' in
     rbind (lh_roller h pattern (lc_max_roll_count c)) (\<lambda>_.
     rbind (lh_appender h (lc_path c)) (\<lambda>_.
     rbind (lh_config h) (\<lambda>_.
     rbind (lh_install h) (\<lambda>_.
     Inr \<lparr>lg_path = lc_path c, lg_trigger = max_size,
          lg_roller = \<lparr>ro_pattern = pattern, ro_base = 1, ro_count = unat (lc_max_roll_count c)\<rparr>,
          lg_level = lc_level c\<rparr>)))))"

section \<open>What the logger guarantees\<close>

lemma basename_no_slash: "CHR ''/'' \<notin> set (basename f)"
proof -
  have "str_split (CHR ''/'') f \<noteq> []" by (rule str_split_nonempty)
  then have "basename f \<in> set (str_split (CHR ''/'') f)" by (simp add: basename_def)
  then show ?thesis by (rule str_split_sep_free)
qed

lemma set_modes:
  "fold (\<lambda>i. set_mode ok (f i)) is t p =
     (case t p of
        None \<Rightarrow> None
      | Some (content, m) \<Rightarrow>
          Some (content, if p \<in> f ` set is \<and> ok p then ARCHIVE_FILE_MODE else m))"
proof (induction "is" arbitrary: t)
  case (Cons i "is")
  have "set_mode ok (f i) t p = (case t p of None \<Rightarrow> None
      | Some (content, m) \<Rightarrow> Some (content, if p = f i \<and> ok p then ARCHIVE_FILE_MODE else m))"
    by (auto simp: set_mode_def split: option.split)
  with Cons show ?case by (auto split: option.split)
qed (simp split: option.split)

text \<open>
  A valid configuration makes the logger it describes: the size that triggers a roll is the
  configured number of megabytes exactly, without wrap-around and at most 100 MB; whatever the
  roller of log4rs does, after every successful roll each archive it may use, number one to the
  configured count, that exists and takes a mode is read-only for owner and group, contents and all
  other files are as the roller left them; and no directory ever appears as the file of a log line.
\<close>

theorem valid_log_configuration_is_met:
  assumes "log_validate debug c = Inr ()" "logger_init h c = Inr l"
    and "permission_roll inner chmod_ok (lg_roller l) (lg_path l) t = (Inr (), t')"
  shows "unat (lg_trigger l) = unat (lc_max_file_size c) * 2 ^ 20 \<and> unat (lg_trigger l) \<le> 100 * 2 ^ 20 \<and>
    (\<exists>t1. inner (lc_path c) t = (Inr (), t1) \<and>
       (\<forall>p. map_option fst (t' p) = map_option fst (t1 p) \<and>
          map_option snd (t' p) =
            (if chmod_ok p \<and> p \<in> archive_name (lg_roller l) ` {1..unat (lc_max_roll_count c)}
             then map_option (\<lambda>_. ARCHIVE_FILE_MODE) (t1 p) else map_option snd (t1 p)))) \<and>
    CHR ''/'' \<notin> set (the (lr_file (basename_encode id r)))"
proof -
  let ?n = "unat (lc_max_file_size c)" and ?k = "unat (lc_max_roll_count c)"
  have "lc_max_file_size c \<le> 100" using assms(1) by (simp add: log_validate_def split: if_splits)
  then have "unat (lc_max_file_size c) \<le> unat (100 :: u64)" by (simp only: word_le_nat_alt)
  then have n: "?n \<le> 100" by simp
  then have size: "unat (lc_max_file_size c * 1024 * 1024) = ?n * 2 ^ 20"
    by (simp add: unat_word_ariths)
  from assms(2) have l: "lg_trigger l = lc_max_file_size c * 1024 * 1024" "lg_path l = lc_path c"
    "ro_base (lg_roller l) = 1" "ro_count (lg_roller l) = ?k"
    by (auto simp: logger_init_def Let_def rbind_eq_Inr split: option.splits sum.splits)
  from assms(3) obtain t1 where inner: "inner (lc_path c) t = (Inr (), t1)"
    and t': "t' = fold (\<lambda>i. set_mode chmod_ok (archive_name (lg_roller l) i)) [1..<1 + ?k] t1"
    by (auto simp: permission_roll_def l split: prod.splits sum.splits)
  have "set [1..<1 + ?k] = {1..?k}" by auto
  then have modes: "t' p = (case t1 p of None \<Rightarrow> None | Some (content, m) \<Rightarrow>
      Some (content, if p \<in> archive_name (lg_roller l) ` {1..?k} \<and> chmod_ok p then ARCHIVE_FILE_MODE else m))" for p
    unfolding t' set_modes by (simp split: option.split)
  then have "\<forall>p. map_option fst (t' p) = map_option fst (t1 p) \<and>
      map_option snd (t' p) =
        (if chmod_ok p \<and> p \<in> archive_name (lg_roller l) ` {1..?k}
         then map_option (\<lambda>_. ARCHIVE_FILE_MODE) (t1 p) else map_option snd (t1 p))"
    by (simp split: option.split)
  moreover have "CHR ''/'' \<notin> set (the (lr_file (basename_encode id r)))"
    by (simp add: basename_encode_def basename_no_slash split: option.split)
  ultimately show ?thesis using inner size n l(1) by auto
qed

definition demo_log_host :: log_host where
  "demo_log_host =
     \<lparr>lh_mkdir = (\<lambda>_ _. Inr ()), lh_roller = (\<lambda>_ _. Inr ()), lh_appender = (\<lambda>_. Inr ()), lh_config = Inr (),
      lh_install = Inr ()\<rparr>"

definition demo_log_config :: Runtime.log_config where
  "demo_log_config = \<lparr>lc_path = ''/var/log/t.log'', lc_level = LvInfo, lc_max_file_size = 100, lc_max_roll_count = 3\<rparr>"

text \<open>The roller moves the log to archive one.\<close>

definition demo_inner_roll :: "string \<Rightarrow> log_tree \<Rightarrow> (string + unit) \<times> log_tree" where
  "demo_inner_roll file t = (Inr (), t(''/var/log/t.log.1.gz'' := t file, file := None))"

lemma valid_log_configuration_is_met_witness:
  "\<exists>l t'. logger_init demo_log_host demo_log_config = Inr l \<and>
     permission_roll demo_inner_roll (\<lambda>_. True) (lg_roller l) (lg_path l) [''/var/log/t.log'' \<mapsto> ([1], 0x1A0)] = (Inr (), t') \<and>
     map_option snd (t' ''/var/log/t.log.1.gz'') = Some ARCHIVE_FILE_MODE"
proof -
  have v: "log_validate False demo_log_config = Inr ()" by (simp add: log_validate_def demo_log_config_def)
  let ?l = "\<lparr>lg_path = ''/var/log/t.log'', lg_trigger = 100 * 1024 * 1024,
    lg_roller = \<lparr>ro_pattern = ''/var/log/t.log.{}.gz'', ro_base = 1, ro_count = 3\<rparr>, lg_level = LvInfo\<rparr>"
  have l: "logger_init demo_log_host demo_log_config = Inr ?l"
    by (simp add: logger_init_def demo_log_config_def demo_log_host_def Let_def split: option.split)
  let ?t = "[''/var/log/t.log'' \<mapsto> ([1 :: u8], 0x1A0 :: u32)]"
  obtain t' where t': "permission_roll demo_inner_roll (\<lambda>_. True) (lg_roller ?l) (lg_path ?l) ?t = (Inr (), t')"
    by (simp add: permission_roll_def demo_inner_roll_def)
  have name: "archive_name (lg_roller ?l) 1 = ''/var/log/t.log.1.gz''" by code_simp
  have in1: "''/var/log/t.log.1.gz'' \<in> archive_name (lg_roller ?l) ` {1..unat (lc_max_roll_count demo_log_config)}"
    unfolding name [symmetric] by (intro imageI) (simp add: demo_log_config_def)
  obtain t1 where t1: "demo_inner_roll ''/var/log/t.log'' ?t = (Inr (), t1)" "t1 ''/var/log/t.log.1.gz'' \<noteq> None"
    by (simp add: demo_inner_roll_def)
  have path: "lc_path demo_log_config = ''/var/log/t.log''" by (simp add: demo_log_config_def)
  have "map_option snd (t' ''/var/log/t.log.1.gz'') = Some ARCHIVE_FILE_MODE"
    using valid_log_configuration_is_met [OF v l t'] t1 in1 unfolding path by (auto split: if_splits)
  with l t' show ?thesis by blast
qed

section \<open>The log files of the launcher\<close>

text \<open>
  \<^verbatim>\<open>launcher/src/logger.rs\<close>: the same roller under other names; a directory that cannot be created is
  only reported.  The level filter is always Debug.
\<close>

definition MAX_FILE_SIZE :: u64 where "MAX_FILE_SIZE = 1024 * 1024"
definition MAX_BACKUPS :: u32 where "MAX_BACKUPS = 5"

definition launcher_pattern :: "string \<Rightarrow> string" where
  "launcher_pattern file =
     path_join (case path_parent file of None \<Rightarrow> ''/var/log/trustruntime/'' | Some d \<Rightarrow> d)
       ((case path_file_name file of None \<Rightarrow> ''trtlauncher'' | Some n \<Rightarrow> n) @ ''.{}'')"

definition launcher_log_init ::
  "log_host \<Rightarrow> string \<Rightarrow> u64 \<Rightarrow> u32 \<Rightarrow> app_log_level \<Rightarrow> string + logger" where
  "launcher_log_init h file max_file_size max_backups level =
     (let pattern = launcher_pattern file in
      rbind (lh_roller h pattern max_backups) (\<lambda>_.
      rbind (lh_appender h file) (\<lambda>_.
      rbind (lh_config h) (\<lambda>_.
      rbind (lh_install h) (\<lambda>_.
      Inr \<lparr>lg_path = file, lg_trigger = max_file_size,
           lg_roller = \<lparr>ro_pattern = pattern, ro_base = 1, ro_count = unat max_backups\<rparr>, lg_level = level\<rparr>)))))"

definition init_default_logger :: "log_host \<Rightarrow> string + logger" where
  "init_default_logger h =
     launcher_log_init h ''/var/log/trustruntime/trtlauncher'' MAX_FILE_SIZE MAX_BACKUPS LvDebug"

lemma launcher_archives:
  "init_default_logger demo_log_host = Inr l \<Longrightarrow>
     map (archive_name (lg_roller l)) [1, 5] =
       [''/var/log/trustruntime/trtlauncher.1'', ''/var/log/trustruntime/trtlauncher.5'']"
proof -
  have "launcher_pattern ''/var/log/trustruntime/trtlauncher'' = ''/var/log/trustruntime/trtlauncher.{}''" by code_simp
  moreover have "archive_name \<lparr>ro_pattern = ''/var/log/trustruntime/trtlauncher.{}'', ro_base = 1, ro_count = 5\<rparr> 1 =
      ''/var/log/trustruntime/trtlauncher.1''" by code_simp
  moreover have "archive_name \<lparr>ro_pattern = ''/var/log/trustruntime/trtlauncher.{}'', ro_base = 1, ro_count = 5\<rparr> 5 =
      ''/var/log/trustruntime/trtlauncher.5''" by code_simp
  ultimately show "init_default_logger demo_log_host = Inr l \<Longrightarrow> ?thesis"
    by (auto simp: init_default_logger_def launcher_log_init_def demo_log_host_def Let_def MAX_BACKUPS_def)
qed

end
