(* ===== verification/Spec2Isabelle.thy ===== *)
theory Spec2Isabelle
  imports Exchanges InfRouter ControlDemo Mitm RtServices
begin

text \<open>
  \<^bold>\<open>The program.\<close>  Three programs share this repository.  The \<^emph>\<open>trust runtime\<close>
  (\<^verbatim>\<open>rust/trustruntime\<close>, \<^verbatim>\<open>rust/framework\<close>, \<^verbatim>\<open>rust/plugins/trustring\<close>) is a daemon in a confidential
  virtual machine: it reads a TOML configuration, loads certificates, opens a TLS listener on a
  vsock, and answers framed requests to sign data with a CMS certificate, to verify a signature,
  and to verify and sign again.  The \<^emph>\<open>launcher\<close> (\<^verbatim>\<open>rust/launcher\<close>) turns a command line and a
  configuration file into a QEMU command line and runs it.  The \<^emph>\<open>agent sandbox\<close>
  (\<^verbatim>\<open>rust/plugins/agentsandbox\<close>) confines containers: a hook announces a container to the
  controller, which reads its policy file, compiles the security section into kernel maps that
  LSM and cgroup programs consult, and sends the filter section to the proxy process; the proxy
  mediates the container's outbound HTTP traffic: it finds the container behind a connection
  through the flows the kernel recorded, evaluates the container's filter policy, may route model
  requests through an inference router that masks sensitive text, terminates TLS with
  per-container certificates, forwards or blocks, and reports every decision to an audit sink.

  \<^bold>\<open>How the theories correspond to the code.\<close>  Each theory opens with the files it models;
  definitions carry the names of the functions and types they translate.

  \<^item> \<open>TR_Prelude\<close>, \<open>RustNet\<close>: machine integers, \<open>Result\<close>, the string functions, integer parsing and
    IP addresses of the Rust standard library, as far as the sources call them; the locale
    \<open>keyed_store\<close>, the contract of the hash maps the program keeps behind locks.
  \<^item> \<open>VsockMessage\<close>, \<open>VsockConnection\<close>, \<open>Listener\<close> (\<^verbatim>\<open>framework/src/message\<close>,
    \<^verbatim>\<open>framework/src/communication/vsock_server\<close>): the message codec; the handler table and the
    connection loop over a stream of read results; TLS set-up, the accept loop with its permits,
    start and stop.
  \<^item> \<open>Lifecycle\<close>, \<open>Certs\<close>, \<open>Runtime\<close> (\<^verbatim>\<open>framework/src/{core,plugin_manager,cert,config}\<close>,
    \<^verbatim>\<open>trustruntime/src/main.rs\<close>): daemon states and systemd notifications, the plugin manager,
    certificate loading and checks over an OpenSSL parameter, the configuration, the certificate
    checker, the wait for a signal, and the whole process as the sequence of its visible events;
    \<open>RtServices\<close> (\<^verbatim>\<open>core/cert_checker.rs\<close>, \<^verbatim>\<open>logger/mod.rs\<close>): the periodic check, log files.
  \<^item> \<open>Trustring\<close>, \<open>TrustringHandler\<close> (\<^verbatim>\<open>plugins/trustring/src\<close>): signer, verifier, identities, result
    codes; the three request handlers and their registration.
  \<^item> \<open>LaunchCli\<close>, \<open>LaunchQemu\<close> (\<^verbatim>\<open>launcher/src\<close>): options and their sources, tool search, volumes
    and ports, the QEMU arguments, virtiofs daemons, the run.
  \<^item> \<open>ProxyModel\<close>, \<open>Matcher\<close>, \<open>Engine\<close>, \<open>Registry\<close> (\<^verbatim>\<open>proxy/src/{model,filter,registry}\<close>): policies,
    dimension matchers, the rule engine as the loops of the source, the container registry.
  \<^item> \<open>CertCache\<close>, \<open>CertService\<close>, \<open>Facade\<close>, \<open>Mitm\<close> (\<^verbatim>\<open>proxy/src/{cert,facade,mitm}\<close>): the LRU cache, leaf
    issuing under interleaving with CA replacement, the public operations of the proxy, the TLS
    termination and the trust anchors.
  \<^item> \<open>Forward\<close>, \<open>InferenceUds\<close>, \<open>Server\<close>, \<open>ServerPipeline\<close> (\<^verbatim>\<open>proxy/src/{forward,inference_uds,logging,server}\<close>):
    outbound connections and tunnels, the remote router, and \<open>handle_request\<close> from
    identification to the audit entry; \<open>ServerProps\<close>, \<open>Mediation\<close>, \<open>Exchanges\<close>: what the pipeline
    guarantees.
  \<^item> \<open>InfConfig\<close>, \<open>InfMasker\<close>, \<open>InfKeys\<close>, \<open>InfRouter\<close> (\<^verbatim>\<open>inference/src\<close>): the router's configuration and
    its validator, the masking of sensitive text, the encrypted key store, parsing, strategy
    selection and the rewriting of a request body.
  \<^item> \<open>SecConfig\<close> (\<^verbatim>\<open>config/src\<close>), \<open>SecFilters\<close> (\<^verbatim>\<open>security/src/filters\<close>): the policy file and its parsers;
    the user-space evaluators.
  \<^item> \<open>SecWords\<close>, \<open>SecCompile\<close>, \<open>SecLoader\<close>, \<open>SecKernel\<close> (\<^verbatim>\<open>security/src/ebpf\<close>, \<^verbatim>\<open>security/src/bpf\<close>): the
    word-wise path comparison, compilation of rules, the loader with its kernel maps and mirror
    tables, the kernel programs; \<open>SecEnforce\<close>, \<open>SecDecide\<close>, \<open>SecTables\<close>: what they decide and keep.
  \<^item> \<open>SecManager\<close> (\<^verbatim>\<open>security/src/{policy,integration}.rs\<close>, \<^verbatim>\<open>log/src\<close>): policy operations, security
    events and the log.
  \<^item> \<open>PolicyWire\<close>, \<open>SandboxControl\<close>, \<open>SandboxProcs\<close> (\<^verbatim>\<open>controller/src\<close>, \<^verbatim>\<open>hook/src\<close>, \<^verbatim>\<open>proxy_proc/src\<close>): the
    messages between controller and proxy with their receiver, the controller's state and
    operations, the hook and the start of both processes; \<open>ControlProps\<close>, \<open>ControlInv\<close>: what the
    controller guarantees, \<open>ControlDemo\<close>: concrete runs of it.

  \<^bold>\<open>What is shown.\<close>  The codec is a bijection between well-formed messages and accepted byte
  strings, and a connection answers admissible requests one by one in order, whatever the
  handlers do, pauses between messages included, until a shutdown or the client ends it.  The
  verifier accepts exactly the messages its specification names, and data is signed again only when
  it was verified.  The runtime opens its service exactly when every required step succeeded, and a
  run with a valid configuration tells systemd READY, waits, and tells STOPPING when a signal comes.
  The connections that hold a permit are bounded in every interleaving; after the shutdown flag every run
  of the transport has a bounded number of steps and can only stop when all has ended.  Steps are
  counted there and not time: that a blocked accept, read or handshake returns is the business of
  the socket timeouts.  Rendering launch options and parsing them is a round trip.

  The engine's decision is the first decisive rule in reading order and does not depend on the
  order in which a stored policy was written.  Outbound traffic happens only after a decision
  that allows it and after its audit entry was accepted; every reply is accounted for.  Only
  policies the validators accept are stored, issued certificates follow the current CA, and a
  terminated connection is served under the name its certificate was issued for.  Masking
  replaces exactly the detected spans, and a sanitised body reads back as the masked text.

  The kernel programs decide as the installed policy reads, for files and capabilities; for files,
  nothing is assumed of the path buffer after the NUL, so an exact pattern is read as the kernel
  compares it.  Updates never panic; the loader's tables agree with the kernel maps under its
  operations as long as the kernel takes every write, and a first rollback gives back the maps.  The
  controller keeps containers apart: an event of one changes no kernel decision for another.  A
  refused configuration leaves the maps as they were, as long as no earlier one was rolled back; an
  applied one confines the container; on a kernel that takes every write a registered container
  cannot reach the controller's socket; an unregistered one leaves nothing and takes nothing of
  another with it, except a shared file watch; and a recorded flow is resolved to its container.
  Where the code does not do what its comments or its purpose say, a theorem proves the behaviour
  (for instance that policies arrive at the proxy without their rules, that a container starts
  although its registration failed, or that address rules act on the reversed address) and the
  manifest lists the finding.

  \<^bold>\<open>Conventions.\<close>  A Rust string is the list of its UTF-8 bytes as characters.  A result type is
  a sum with the error on the left; in the loader a panic is an outcome of its own.  Third-party
  crates (OpenSSL, globset, http, hyper, rustls, rcgen, serde, toml, regex, aya), the kernel, the
  operating system and the network are fields of parameter records; what is assumed of them is a
  named hypothesis (\<open>globset_ok\<close> in \<open>Matcher\<close>, the acceptor \<open>accept_all\<close> of a kernel that takes
  every map write, \<open>path_string\<close> for what \<open>bpf_d_path\<close> leaves in its buffer).  Concurrency is interleaving of the critical sections of the source; the
  threads of the controller are the sequence of their events.  Loops are structural recursions
  on the events a stream delivers or on the list they traverse, so no function needs fuel; the loops
  of the transport are steps of a transition function, and a potential that every step after the
  shutdown flag uses up bounds them.

  \<^bold>\<open>Interfaces.\<close>  \<open>keyed_store\<close> is what clients ask of the keyed stores, \<open>framing_codec\<close> what the
  connection asks of the message codec, \<open>dimension_matcher\<close> what the engine asks of a matcher,
  \<open>gated_store\<close> what the registry promises of its validated maps, \<open>policy_peer\<close> what the controller
  asks of the process that holds the policies.  Each is interpreted on the model's own definitions.

  \<^bold>\<open>Not modelled.\<close>  The dentry walk that gives a kernel program the path of an executable (a
  parameter); the serde text form of JSON and TOML, the byte-level protocols of rustls, hyper and
  OpenSSL, and log4rs, which are parameters; a lock is poisoned only where a holder can panic (the
  handler table) or as a flag of the controller's state; the test and certificate tools
  (\<^verbatim>\<open>tools\<close>), which are not part of the running system.
\<close>

end
